(* ===== verification/Prelude.thy ===== *)
theory Prelude
  imports Main "HOL-Library.Multiset" "HOL-Library.List_Lexorder" "HOL-Library.Char_ord"
begin

text \<open>
  Shared vocabulary of the development: the JavaScript library operations the frontend uses
  everywhere (Array.prototype.find, includes, Set, join, the nullish operators) as HOL functions,
  with the lemmas about them that the component theories share.

  Conventions.  A value that may be undefined or null is an option; a bigint is an int; a string is
  a list of characters; a function that may throw returns a value of a sum type whose left part is
  the thrown error.
\<close>

named_theorems js_simps "unfolding rules of the JavaScript library operations"

subsection \<open>Nullish values\<close>

text \<open>The operator a ?? b.\<close>

definition nullish_or :: "'a option \<Rightarrow> 'a \<Rightarrow> 'a" where
  "nullish_or x d = (case x of None \<Rightarrow> d | Some v \<Rightarrow> v)"

lemma nullish_or_simps [simp]: "nullish_or None d = d" "nullish_or (Some v) d = v"
  by (simp_all add: nullish_or_def)

text \<open>The operator a ?? b where b may itself be nullish.\<close>

definition nullish_alt :: "'a option \<Rightarrow> 'a option \<Rightarrow> 'a option" where
  "nullish_alt x y = (case x of None \<Rightarrow> y | Some v \<Rightarrow> Some v)"

lemma nullish_alt_simps [simp]: "nullish_alt None y = y" "nullish_alt (Some v) y = Some v"
  by (simp_all add: nullish_alt_def)

subsection \<open>Arrays\<close>

text \<open>Array.prototype.find returns the first element that satisfies the predicate.\<close>

lemma find_Some_split:
  assumes "List.find P xs = Some x"
  shows "\<exists>us vs. xs = us @ x # vs \<and> P x \<and> (\<forall>u\<in>set us. \<not> P u)"
  using assms
proof (induction xs)
  case Nil
  then show ?case by simp
next
  case (Cons y ys)
  show ?case
  proof (cases "P y")
    case True
    with Cons.prems show ?thesis by (intro exI[of _ "[]"] exI[of _ ys]) auto
  next
    case False
    with Cons obtain us vs where "ys = us @ x # vs" "P x" "\<forall>u\<in>set us. \<not> P u"
      by auto
    with False show ?thesis by (intro exI[of _ "y # us"] exI[of _ vs]) auto
  qed
qed

lemma find_SomeD: "List.find P xs = Some x \<Longrightarrow> x \<in> set xs \<and> P x"
  by (auto dest: find_Some_split)

lemma find_append:
  "List.find P (xs @ ys) = (case List.find P xs of None \<Rightarrow> List.find P ys | Some x \<Rightarrow> Some x)"
  by (induction xs) auto

lemma find_eq_None_iff [js_simps]: "List.find P xs = None \<longleftrightarrow> (\<forall>x\<in>set xs. \<not> P x)"
  by (induction xs) auto

lemma find_distinct_key:
  assumes "distinct (map f xs)" and "x \<in> set xs"
  shows "List.find (\<lambda>y. f y = f x) xs = Some x"
  using assms by (induction xs) (auto simp: rev_image_eqI)

text \<open>
  Array.from(new Set(xs)): a JavaScript Set iterates in insertion order, so the first occurrence
  of every element is kept (HOL's remdups keeps the last).
\<close>

fun set_insertion_order :: "'a list \<Rightarrow> 'a list" where
  "set_insertion_order [] = []"
| "set_insertion_order (x # xs) = x # filter (\<lambda>y. y \<noteq> x) (set_insertion_order xs)"

lemma set_set_insertion_order [simp]: "set (set_insertion_order xs) = set xs"
  by (induction xs) auto

lemma distinct_set_insertion_order [simp]: "distinct (set_insertion_order xs)"
  by (induction xs) auto

lemma set_insertion_order_distinct [simp]: "distinct xs \<Longrightarrow> set_insertion_order xs = xs"
  by (induction xs) (auto intro: filter_True)

lemma set_insertion_order_snoc:
  "set_insertion_order (xs @ [x]) =
     set_insertion_order xs @ (if x \<in> set xs then [] else [x])"
  by (induction xs) auto

lemma set_insertion_order_eq_Nil [simp]: "set_insertion_order xs = [] \<longleftrightarrow> xs = []"
  by (cases xs) auto

text \<open>new Set(xs).size === 1\<close>

lemma set_size_one_iff:
  "length (set_insertion_order xs) = 1 \<longleftrightarrow> (\<exists>x. xs \<noteq> [] \<and> (\<forall>y\<in>set xs. y = x))"
proof (cases xs)
  case Nil
  then show ?thesis by simp
next
  case (Cons x ys)
  then show ?thesis by (auto simp: filter_empty_conv)
qed

subsection \<open>Sums of bigints\<close>

text \<open>xs.reduce((acc, x) => acc + x, 0n)\<close>

definition reduce_sum :: "int list \<Rightarrow> int" where
  "reduce_sum xs = foldl (\<lambda>acc x. acc + x) 0 xs"

lemma foldl_plus: "foldl (\<lambda>acc x. acc + x) (a::int) xs = a + sum_list xs"
  by (induction xs arbitrary: a) auto

lemma reduce_sum_eq [simp]: "reduce_sum xs = sum_list xs"
  by (simp add: reduce_sum_def foldl_plus)

subsection \<open>Strings\<close>

text \<open>String(n) of a non-negative integer and of a bigint, in decimal.\<close>

definition digit_char :: "nat \<Rightarrow> char" where
  "digit_char d = char_of (48 + d)"

fun nat_to_string :: "nat \<Rightarrow> string" where
  "nat_to_string n =
     (if n < 10 then [digit_char n] else nat_to_string (n div 10) @ [digit_char (n mod 10)])"

declare nat_to_string.simps [simp del]

definition int_to_string :: "int \<Rightarrow> string" where
  "int_to_string i =
     (if i < 0 then CHR ''-'' # nat_to_string (nat (- i)) else nat_to_string (nat i))"

text \<open>Array.prototype.join with a separator.\<close>

fun join_with :: "string \<Rightarrow> string list \<Rightarrow> string" where
  "join_with sep [] = []"
| "join_with sep [s] = s"
| "join_with sep (s # t # ss) = s @ sep @ join_with sep (t # ss)"

lemma of_char_digit_char: "d < 10 \<Longrightarrow> of_char (digit_char d) = (48 + d :: nat)"
  by (simp add: digit_char_def)

definition digit_of :: "char \<Rightarrow> nat" where
  "digit_of c = of_char c - 48"

lemma digit_of_digit_char [simp]: "d < 10 \<Longrightarrow> digit_of (digit_char d) = d"
  by (simp add: digit_of_def of_char_digit_char)

text \<open>Number(s) of a decimal digit string.\<close>

definition string_to_nat :: "string \<Rightarrow> nat" where
  "string_to_nat s = foldl (\<lambda>a c. 10 * a + digit_of c) 0 s"

lemma string_to_nat_snoc: "string_to_nat (s @ [c]) = 10 * string_to_nat s + digit_of c"
  by (simp add: string_to_nat_def)

lemma string_to_nat_to_string [simp]: "string_to_nat (nat_to_string n) = n"
proof (induction n rule: nat_to_string.induct)
  case (1 n)
  show ?case
  proof (cases "n < 10")
    case True
    then show ?thesis by (simp add: nat_to_string.simps[of n] string_to_nat_def)
  next
    case False
    with 1 show ?thesis by (simp add: nat_to_string.simps[of n] string_to_nat_snoc)
  qed
qed

lemma nat_to_string_inject [simp]: "nat_to_string m = nat_to_string n \<longleftrightarrow> m = n"
  by (metis string_to_nat_to_string)

lemma nat_to_string_not_Nil [simp]: "nat_to_string n \<noteq> []"
  by (simp add: nat_to_string.simps[of n])

lemma set_nat_to_string: "set (nat_to_string n) \<subseteq> digit_char ` {..<10}"
proof (induction n rule: nat_to_string.induct)
  case (1 n)
  then show ?case by (cases "n < 10") (auto simp: nat_to_string.simps[of n])
qed

lemma comma_notin_nat_to_string [simp]: "CHR '','' \<notin> set (nat_to_string n)"
proof
  assume "CHR '','' \<in> set (nat_to_string n)"
  then obtain d where "d < 10" "CHR '','' = digit_char d"
    using set_nat_to_string by blast
  then have "of_char (CHR '','') = (48 + d :: nat)"
    by (metis of_char_digit_char)
  then show False by simp
qed

lemma join_with_comma_inject:
  assumes "\<forall>s\<in>set xs. s \<noteq> [] \<and> CHR '','' \<notin> set s"
    and "\<forall>s\<in>set ys. s \<noteq> [] \<and> CHR '','' \<notin> set s"
    and "join_with '','' xs = join_with '','' ys"
  shows "xs = ys"
  using assms
proof (induction "'',''" xs arbitrary: ys rule: join_with.induct)
  case 1
  then show ?case by (cases ys rule: remdups_adj.cases) auto
next
  case (2 s)
  show ?case
  proof (cases ys rule: remdups_adj.cases)
    case (3 t u us)
    with 2 have "s = t @ '','' @ join_with '','' (u # us)" by simp
    then have "CHR '','' \<in> set s" by simp
    with 2 show ?thesis by simp
  qed (use 2 in auto)
next
  case (3 s t ss)
  show ?case
  proof (cases ys rule: remdups_adj.cases)
    case 1
    with 3 show ?thesis by simp
  next
    case (2 s')
    with 3 have "s' = s @ '','' @ join_with '','' (t # ss)" by simp
    then have "CHR '','' \<in> set s'" by simp
    with 2 3 show ?thesis by simp
  next
    case (3 s' u us)
    let ?P = "\<lambda>c. c \<noteq> CHR '',''"
    have eq: "s @ CHR '','' # join_with '','' (t # ss) = s' @ CHR '','' # join_with '','' (u # us)"
      using "3.prems" 3 by simp
    have c: "CHR '','' \<notin> set s" "CHR '','' \<notin> set s'" using "3.prems" 3 by auto
    have "takeWhile ?P (s @ CHR '','' # zs) = s" if "CHR '','' \<notin> set s" for s zs
      using that by (subst takeWhile_append2) auto
    with eq c have "s = s'" by metis
    with eq have "join_with '','' (t # ss) = join_with '','' (u # us)" by simp
    with "3.hyps"[of "u # us"] "3.prems" 3 have "t # ss = u # us" by simp
    with \<open>s = s'\<close> 3 show ?thesis by simp
  qed
qed

text \<open>The decimal strings of bigints are distinct, non-empty and free of commas.\<close>

lemma minus_notin_nat_to_string: "CHR ''-'' \<notin> set (nat_to_string n)"
proof
  assume "CHR ''-'' \<in> set (nat_to_string n)"
  then obtain d where "d < 10" "CHR ''-'' = digit_char d"
    using set_nat_to_string by blast
  then have "of_char (CHR ''-'') = (48 + d :: nat)"
    by (metis of_char_digit_char)
  then show False by simp
qed

lemma int_to_string_inject [simp]: "int_to_string i = int_to_string j \<longleftrightarrow> i = j"
proof
  assume h: "int_to_string i = int_to_string j"
  have "CHR ''-'' # s \<noteq> nat_to_string n" for s n
    using minus_notin_nat_to_string[of n] by (metis list.set_intros(1))
  with h show "i = j"
    by (auto simp: int_to_string_def split: if_splits dest: sym)
qed simp

lemma int_to_string_clean [simp]: "int_to_string i \<noteq> []" "CHR '','' \<notin> set (int_to_string i)"
  by (auto simp: int_to_string_def)

lemma join_int_strings_inject [simp]:
  "join_with '','' (map int_to_string xs) = join_with '','' (map int_to_string ys) \<longleftrightarrow> xs = ys"
proof
  assume "join_with '','' (map int_to_string xs) = join_with '','' (map int_to_string ys)"
  then have "map int_to_string xs = map int_to_string ys"
    by (intro join_with_comma_inject) auto
  then show "xs = ys"
    by (metis (mono_tags, lifting) int_to_string_inject inj_onI map_inj_on)
qed simp

text \<open>Array.prototype.indexOf: the first position, or -1.\<close>

definition js_indexOf :: "'a list \<Rightarrow> 'a \<Rightarrow> int" where
  "js_indexOf xs x = (let n = length (takeWhile (\<lambda>y. y \<noteq> x) xs)
     in if n < length xs then int n else -1)"

end
