(* ===== verification/Comparators.thy ===== *)
theory Comparators
  imports Prelude
begin

text \<open>
  frontend/src/lib/utils/sort.utils.ts and Array.prototype.sort.

  A comparator returns a number whose sign is what the sort reads; here it is an int.  The sort is
  the stable insertion sort that inserts each element, from left to right, before the first element
  it compares negatively with: this is what a stable sort computes for every comparator whose
  negative results form a strict weak order.  The locale weak_comparator states that contract and
  proves the sort correct once; the locale comparator states the full contract (a sign-antisymmetric
  total preorder), under which comparators may be merged and negated.
\<close>

type_synonym 'a comparator_fun = "'a \<Rightarrow> 'a \<Rightarrow> int"

subsection \<open>Array.prototype.sort\<close>

fun js_insert :: "'a comparator_fun \<Rightarrow> 'a \<Rightarrow> 'a list \<Rightarrow> 'a list" where
  "js_insert cmp x [] = [x]"
| "js_insert cmp x (y # ys) = (if cmp x y < 0 then x # y # ys else y # js_insert cmp x ys)"

definition js_sort :: "'a comparator_fun \<Rightarrow> 'a list \<Rightarrow> 'a list" where
  "js_sort cmp xs = foldl (\<lambda>acc x. js_insert cmp x acc) [] xs"

lemma js_sort_Nil [simp]: "js_sort cmp [] = []"
  by (simp add: js_sort_def)

lemma js_sort_snoc: "js_sort cmp (xs @ [x]) = js_insert cmp x (js_sort cmp xs)"
  by (simp add: js_sort_def)

lemma mset_js_insert [simp]: "mset (js_insert cmp x ys) = add_mset x (mset ys)"
  by (induction ys) auto

lemma set_js_insert [simp]: "set (js_insert cmp x ys) = insert x (set ys)"
  by (induction ys) auto

lemma mset_js_sort [simp]: "mset (js_sort cmp xs) = mset xs"
  by (induction xs rule: rev_induct) (auto simp: js_sort_snoc)

lemma set_js_sort [simp]: "set (js_sort cmp xs) = set xs"
  by (metis mset_js_sort set_mset_mset)

lemma length_js_sort [simp]: "length (js_sort cmp xs) = length xs"
  by (metis mset_js_sort size_mset)

lemma js_sort_eq_Nil [simp]: "js_sort cmp xs = [] \<longleftrightarrow> xs = []"
  by (metis length_js_sort length_0_conv)

text \<open>No element of the list comes before an element it should follow.\<close>

definition cmp_sorted :: "'a comparator_fun \<Rightarrow> 'a list \<Rightarrow> bool" where
  "cmp_sorted cmp xs = sorted_wrt (\<lambda>x y. \<not> cmp y x < 0) xs"

lemma cmp_sorted_simps [simp]:
  "cmp_sorted cmp []"
  "cmp_sorted cmp (x # xs) \<longleftrightarrow> (\<forall>y\<in>set xs. \<not> cmp y x < 0) \<and> cmp_sorted cmp xs"
  by (simp_all add: cmp_sorted_def)

subsection \<open>The contract of a comparator\<close>

locale weak_comparator =
  fixes cmp :: "'a comparator_fun"
  assumes less_asym: "cmp x y < 0 \<Longrightarrow> \<not> cmp y x < 0"
    and less_negtrans: "\<lbrakk>\<not> cmp x y < 0; \<not> cmp y z < 0\<rbrakk> \<Longrightarrow> \<not> cmp x z < 0"
begin

lemma less_irrefl: "\<not> cmp x x < 0"
  using less_asym by blast

lemma less_trans: "\<lbrakk>cmp x y < 0; cmp y z < 0\<rbrakk> \<Longrightarrow> cmp x z < 0"
  using less_asym less_negtrans by blast

text \<open>Elements neither of which compares negatively with the other tie.\<close>

definition tie :: "'a \<Rightarrow> 'a \<Rightarrow> bool" where
  "tie x y \<longleftrightarrow> \<not> cmp x y < 0 \<and> \<not> cmp y x < 0"

lemma sorted_js_insert: "cmp_sorted cmp ys \<Longrightarrow> cmp_sorted cmp (js_insert cmp x ys)"
proof (induction ys)
  case Nil
  then show ?case by simp
next
  case (Cons y ys)
  show ?case
  proof (cases "cmp x y < 0")
    case True
    have "\<not> cmp z x < 0" if "z \<in> set ys" for z
      using that Cons.prems True less_trans by fastforce
    with True Cons.prems less_asym show ?thesis by auto
  next
    case False
    with Cons show ?thesis by auto
  qed
qed

lemma sorted_js_sort: "cmp_sorted cmp (js_sort cmp xs)"
  by (induction xs rule: rev_induct) (auto simp: js_sort_snoc sorted_js_insert)

text \<open>Stability: the elements that tie with any given one keep their order.\<close>

lemma filter_js_insert_tie:
  assumes "cmp_sorted cmp ys"
  shows "filter (tie z) (js_insert cmp x ys) = filter (tie z) ys @ filter (tie z) [x]"
  using assms
proof (induction ys)
  case Nil
  then show ?case by simp
next
  case (Cons y ys)
  show ?case
  proof (cases "cmp x y < 0 \<and> tie z x")
    case True
    have "\<not> tie z u" if "u \<in> set (y # ys)" for u
    proof
      assume "tie z u"
      with True have "\<not> cmp x u < 0"
        unfolding tie_def using less_negtrans by blast
      moreover have "\<not> cmp u y < 0" using that Cons.prems less_irrefl by auto
      ultimately show False using True less_negtrans by blast
    qed
    then have "filter (tie z) (y # ys) = []" by (simp add: filter_empty_conv)
    with True show ?thesis by simp
  next
    case False
    with Cons show ?thesis by auto
  qed
qed

lemma stable_js_sort: "filter (tie z) (js_sort cmp xs) = filter (tie z) xs"
  by (induction xs rule: rev_induct) (auto simp: js_sort_snoc filter_js_insert_tie sorted_js_sort)

lemma js_insert_last: "\<forall>y\<in>set ys. \<not> cmp x y < 0 \<Longrightarrow> js_insert cmp x ys = ys @ [x]"
  by (induction ys) auto

lemma js_sort_sorted_id: "cmp_sorted cmp xs \<Longrightarrow> js_sort cmp xs = xs"
proof (induction xs rule: rev_induct)
  case Nil
  then show ?case by simp
next
  case (snoc x xs)
  then have "\<forall>y\<in>set xs. \<not> cmp x y < 0" "cmp_sorted cmp xs"
    by (auto simp: cmp_sorted_def sorted_wrt_append)
  with snoc.IH show ?case by (simp add: js_sort_snoc js_insert_last)
qed

lemma js_sort_idem: "js_sort cmp (js_sort cmp xs) = js_sort cmp xs"
  by (rule js_sort_sorted_id) (rule sorted_js_sort)

lemma hd_js_sort_least:
  assumes "js_sort cmp xs = m # ms" and "x \<in> set xs"
  shows "m \<in> set xs \<and> \<not> cmp x m < 0"
proof -
  have "cmp_sorted cmp (m # ms)" using sorted_js_sort assms(1) by metis
  moreover have "set (m # ms) = set xs" using set_js_sort assms(1) by metis
  ultimately show ?thesis using assms(2) less_irrefl by (metis cmp_sorted_simps(2) list.set_intros(1) set_ConsD)
qed

end

locale comparator =
  fixes cmp :: "'a comparator_fun"
  assumes antisym: "cmp y x < 0 \<longleftrightarrow> 0 < cmp x y"
    and le_trans: "\<lbrakk>cmp x y \<le> 0; cmp y z \<le> 0\<rbrakk> \<Longrightarrow> cmp x z \<le> 0"
begin

lemma eq_sym: "cmp x y = 0 \<longleftrightarrow> cmp y x = 0"
  using antisym[of x y] antisym[of y x] by linarith

lemma le_iff: "cmp x y \<le> 0 \<longleftrightarrow> \<not> cmp y x < 0"
  using antisym[of y x] by linarith

lemma refl [simp]: "cmp x x = 0"
  using antisym[of x x] by linarith

lemma eq_trans: "\<lbrakk>cmp x y = 0; cmp y z = 0\<rbrakk> \<Longrightarrow> cmp x z = 0"
proof -
  assume "cmp x y = 0" and "cmp y z = 0"
  then have "cmp x z \<le> 0" and "cmp z x \<le> 0"
    using le_trans[of x y z] le_trans[of z y x] eq_sym[of x y] eq_sym[of y z] by auto
  moreover have "cmp x z < 0 \<longleftrightarrow> 0 < cmp z x" by (rule antisym)
  ultimately show ?thesis by linarith
qed

lemma less_le_trans: "\<lbrakk>cmp x y < 0; cmp y z \<le> 0\<rbrakk> \<Longrightarrow> cmp x z < 0"
  using le_trans[of y z x] le_iff[of z x] le_iff[of y x] by blast

lemma le_less_trans: "\<lbrakk>cmp x y \<le> 0; cmp y z < 0\<rbrakk> \<Longrightarrow> cmp x z < 0"
  using le_trans[of z x y] le_iff[of z x] le_iff[of z y] by blast

end

sublocale comparator \<subseteq> weak_comparator
proof
  fix x y z
  show "cmp x y < 0 \<Longrightarrow> \<not> cmp y x < 0"
    using antisym by fastforce
  show "\<lbrakk>\<not> cmp x y < 0; \<not> cmp y z < 0\<rbrakk> \<Longrightarrow> \<not> cmp x z < 0"
    using le_trans[of z y x] le_iff by blast
qed

context comparator
begin

text \<open>What sortedness says when the comparator orders by a key.\<close>

lemma js_sort_by_key_descending:
  fixes g :: "'a \<Rightarrow> 'b::linorder"
  assumes "\<And>x y. cmp x y < 0 \<longleftrightarrow> g y < g x"
  shows "sorted_wrt (\<lambda>x y. g y \<le> g x) (js_sort cmp xs)"
  using sorted_js_sort[of xs] by (simp add: cmp_sorted_def assms linorder_not_less)

end

subsection \<open>sort.utils.ts\<close>

text \<open>The loop of mergeComparators: the first non-zero result decides.\<close>

fun mergeComparators :: "'a comparator_fun list \<Rightarrow> 'a comparator_fun" where
  "mergeComparators [] a b = 0"
| "mergeComparators (c # cs) a b =
     (let result = c a b
      in if result \<noteq> 0 then result else mergeComparators cs a b)"

text \<open>The source writes - c(a, b) || 0 to avoid the value -0, which an int does not have.\<close>

definition negate :: "'a comparator_fun \<Rightarrow> 'a comparator_fun" where
  "negate c = (\<lambda>a b. - c a b)"

definition createDescendingComparator :: "('a \<Rightarrow> 'b::linorder) \<Rightarrow> 'a comparator_fun" where
  "createDescendingComparator getter = (\<lambda>a b.
     let valueA = getter a; valueB = getter b
     in if valueA < valueB then 1 else if valueA > valueB then -1 else 0)"

definition createAscendingComparator :: "('a \<Rightarrow> 'b::linorder) \<Rightarrow> 'a comparator_fun" where
  "createAscendingComparator getter = negate (createDescendingComparator getter)"

lemma desc_sign:
  "createDescendingComparator g a b < 0 \<longleftrightarrow> g a > g b"
  "0 < createDescendingComparator g a b \<longleftrightarrow> g a < g b"
  "createDescendingComparator g a b \<le> 0 \<longleftrightarrow> g a \<ge> g b"
  "createDescendingComparator g a b = 0 \<longleftrightarrow> g a = g b"
  by (auto simp: createDescendingComparator_def Let_def)

lemma asc_sign:
  "createAscendingComparator g a b < 0 \<longleftrightarrow> g a < g b"
  "0 < createAscendingComparator g a b \<longleftrightarrow> g a > g b"
  "createAscendingComparator g a b \<le> 0 \<longleftrightarrow> g a \<le> g b"
  "createAscendingComparator g a b = 0 \<longleftrightarrow> g a = g b"
  using desc_sign[of g a b] by (auto simp: createAscendingComparator_def negate_def)

interpretation descending: comparator "createDescendingComparator g"
  for g :: "'a \<Rightarrow> 'b::linorder"
  by unfold_locales (auto simp: desc_sign)

lemma comparator_negate: "comparator c \<Longrightarrow> comparator (negate c)"
proof -
  assume c: "comparator c"
  have ge: "0 \<le> c x y \<longleftrightarrow> c y x \<le> 0" for x y
    using comparator.antisym[OF c, of x y] by auto
  show ?thesis
    by unfold_locales
      (auto simp: negate_def ge comparator.antisym[OF c] intro: comparator.le_trans[OF c])
qed

interpretation ascending: comparator "createAscendingComparator g"
  for g :: "'a \<Rightarrow> 'b::linorder"
  unfolding createAscendingComparator_def
  by (rule comparator_negate) (rule descending.comparator_axioms)

lemma comparator_merge:
  "\<forall>c\<in>set cs. comparator c \<Longrightarrow> comparator (mergeComparators cs)"
proof (induction cs)
  case Nil
  then show ?case by unfold_locales auto
next
  case (Cons c cs)
  then have c: "comparator c" and m: "comparator (mergeComparators cs)" by auto
  show ?case
  proof
    fix x y z
    show "mergeComparators (c # cs) y x < 0 \<longleftrightarrow> 0 < mergeComparators (c # cs) x y"
      using comparator.antisym[OF c, of y x] comparator.antisym[OF m, of y x]
        comparator.eq_sym[OF c, of x y] by (auto simp: Let_def)
    assume le: "mergeComparators (c # cs) x y \<le> 0" "mergeComparators (c # cs) y z \<le> 0"
    then have "c x y \<le> 0" "c y z \<le> 0" by (auto simp: Let_def split: if_splits)
    then consider "c x y < 0" | "c y z < 0" | "c x y = 0" "c y z = 0" by linarith
    then show "mergeComparators (c # cs) x z \<le> 0"
    proof cases
      case 1
      then have "c x z < 0" using \<open>c y z \<le> 0\<close> by (rule comparator.less_le_trans[OF c])
      then show ?thesis by simp
    next
      case 2
      with \<open>c x y \<le> 0\<close> have "c x z < 0" by (rule comparator.le_less_trans[OF c])
      then show ?thesis by simp
    next
      case 3
      then have "c x z = 0" by (rule comparator.eq_trans[OF c])
      moreover have "mergeComparators cs x z \<le> 0"
        using le 3 comparator.le_trans[OF m] by auto
      ultimately show ?thesis by simp
    qed
  qed
qed

end
