(* ===== verification/JsNumber.thy ===== *)
theory JsNumber
  imports Complex_Main "HOL-Library.Log_Nat" Prelude
begin

text \<open>
  The JavaScript number type: IEEE 754 binary64 values and the rounding of its operations.

  A finite double is the rational it denotes.  rnd rounds a rational to the nearest rational with a
  53-bit significand, ties to even, which is what Number(bigint), +, -, * and / do with the exact
  result.  The exponent range is not bounded: the quantities of the program (balances in e8s,
  seconds, percentages, factors between 1 and 2) stay far from overflow and underflow.
\<close>

type_synonym number = rat

subsection \<open>Binary exponent of a positive rational\<close>

definition exp2 :: "int \<Rightarrow> rat" where
  "exp2 e = (if 0 \<le> e then 2 ^ nat e else 1 / 2 ^ nat (- e))"

lemma exp2_powi: "exp2 e = 2 powi e"
  by (simp add: exp2_def power_int_def power_one_over)

lemma exp2_pos [simp]: "0 < exp2 e"
  by (simp add: exp2_def)

lemma exp2_nonneg [simp]: "0 \<le> exp2 e"
  by (simp add: exp2_def)

lemma exp2_nonzero [simp]: "exp2 e \<noteq> 0"
  by (simp add: exp2_def)

lemma exp2_add: "exp2 (a + b) = exp2 a * exp2 b"
  by (simp add: exp2_powi power_int_add)

lemma exp2_diff: "exp2 (a - b) = exp2 a / exp2 b"
  by (simp add: exp2_powi power_int_diff)

lemma exp2_mono: "a \<le> b \<Longrightarrow> exp2 a \<le> exp2 b"
  by (simp add: exp2_powi power_int_increasing)

lemma exp2_strict_mono: "a < b \<Longrightarrow> exp2 a < exp2 b"
  by (simp add: exp2_powi power_int_strict_increasing)

lemma exp2_nat: "exp2 (int n) = 2 ^ n"
  by (simp add: exp2_def)

definition ilog2 :: "rat \<Rightarrow> int" where
  "ilog2 x = (let (n, d) = quotient_of x; k = int (floorlog 2 (nat n)) - int (floorlog 2 (nat d))
              in if exp2 k \<le> x then k else k - 1)"

lemma ilog2_bounds:
  assumes "0 < x"
  shows "exp2 (ilog2 x) \<le> x" and "x < exp2 (ilog2 x + 1)"
proof -
  obtain n d where q: "quotient_of x = (n, d)" by (cases "quotient_of x")
  then have x: "x = of_int n / of_int d" and d: "0 < d"
    by (simp_all add: quotient_of_div quotient_of_denom_pos)
  with assms have n: "0 < n" by (simp add: zero_less_divide_iff)
  define a where "a = floorlog 2 (nat n)"
  define b where "b = floorlog 2 (nat d)"
  have nb: "2 ^ (a - 1) \<le> nat n" "nat n < 2 ^ a" "0 < a"
    using floorlog_bounds[of "nat n" 2] n by (auto simp: a_def floorlog_def)
  have db: "2 ^ (b - 1) \<le> nat d" "nat d < 2 ^ b" "0 < b"
    using floorlog_bounds[of "nat d" 2] d by (auto simp: b_def floorlog_def)
  have A: "exp2 (int c - 1) \<le> of_int m" "of_int m < exp2 (int c)"
    if "2 ^ (c - 1) \<le> nat m" "nat m < 2 ^ c" "0 < c" "0 < m" for c and m :: int
  proof -
    have "exp2 (int c - 1) = of_nat (2 ^ (c - 1))"
      using that(3) exp2_nat[of "c - 1"] by (simp add: of_nat_diff)
    moreover have "of_int m = (of_nat (nat m) :: rat)" using that(4) by simp
    ultimately show "exp2 (int c - 1) \<le> of_int m" using that(1) by (metis of_nat_le_iff)
    have "exp2 (int c) = of_nat (2 ^ c)" by (simp add: exp2_nat)
    then show "of_int m < exp2 (int c)"
      using that(2) \<open>of_int m = of_nat (nat m)\<close> by (metis of_nat_less_iff)
  qed
  note N = A[OF nb n] and D = A[OF db d]
  have dpos: "(0::rat) < of_int d" using d by simp
  have up: "x < exp2 (int a - int b + 1)"
  proof -
    have "x = of_int n / of_int d" by (rule x)
    also have "\<dots> < exp2 (int a) / of_int d"
      using N(2) dpos by (rule divide_strict_right_mono)
    also have "\<dots> \<le> exp2 (int a) / exp2 (int b - 1)"
      using D(1) dpos by (intro divide_left_mono) auto
    also have "\<dots> = exp2 (int a - int b + 1)"
      by (simp add: exp2_diff[symmetric] algebra_simps)
    finally show ?thesis .
  qed
  have lo: "exp2 (int a - int b - 1) \<le> x"
  proof -
    have "exp2 (int a - int b - 1) = exp2 (int a - 1) / exp2 (int b)"
      by (simp add: exp2_diff[symmetric] algebra_simps)
    also have "\<dots> \<le> exp2 (int a - 1) / of_int d"
      using D(2) dpos by (intro divide_left_mono) auto
    also have "\<dots> \<le> of_int n / of_int d"
      using N(1) dpos by (intro divide_right_mono) auto
    finally show ?thesis by (simp add: x)
  qed
  have "ilog2 x = (if exp2 (int a - int b) \<le> x then int a - int b else int a - int b - 1)"
    by (simp add: ilog2_def q a_def b_def Let_def)
  with up lo show "exp2 (ilog2 x) \<le> x" and "x < exp2 (ilog2 x + 1)"
    by (auto split: if_splits)
qed

lemma ilog2_unique:
  assumes "exp2 e \<le> x" and "x < exp2 (e + 1)"
  shows "ilog2 x = e"
proof -
  have "0 < x" using assms(1) exp2_pos[of e] by linarith
  note b = ilog2_bounds[OF this]
  have "exp2 e < exp2 (ilog2 x + 1)" "exp2 (ilog2 x) < exp2 (e + 1)"
    using assms b by linarith+
  then have "\<not> ilog2 x + 1 \<le> e" "\<not> e + 1 \<le> ilog2 x"
    using exp2_mono by (meson linorder_not_less)+
  then show ?thesis by linarith
qed

lemma ilog2_mono: "0 < x \<Longrightarrow> x \<le> y \<Longrightarrow> ilog2 x \<le> ilog2 y"
proof -
  assume "0 < x" "x \<le> y"
  then have "exp2 (ilog2 x) < exp2 (ilog2 y + 1)"
    using ilog2_bounds(1)[of x] ilog2_bounds(2)[of y] by linarith
  then have "\<not> ilog2 y + 1 \<le> ilog2 x" using exp2_mono by (meson linorder_not_less)
  then show ?thesis by linarith
qed

subsection \<open>Rounding to nearest, ties to even\<close>

definition round_half_even :: "rat \<Rightarrow> int" where
  "round_half_even y = (let f = \<lfloor>y\<rfloor>; r = y - of_int f
     in if r < 1/2 then f else if r > 1/2 then f + 1 else if even f then f else f + 1)"

lemma round_half_even_of_int [simp]: "round_half_even (of_int n) = n"
  by (simp add: round_half_even_def)

lemma round_half_even_mono: "x \<le> y \<Longrightarrow> round_half_even x \<le> round_half_even y"
proof -
  assume le: "x \<le> y"
  then have "\<lfloor>x\<rfloor> \<le> \<lfloor>y\<rfloor>" by (rule floor_mono)
  then consider "\<lfloor>x\<rfloor> + 1 \<le> \<lfloor>y\<rfloor>" | "\<lfloor>x\<rfloor> = \<lfloor>y\<rfloor>" by linarith
  then show ?thesis
  proof cases
    case 1
    moreover have "round_half_even x \<le> \<lfloor>x\<rfloor> + 1" "\<lfloor>y\<rfloor> \<le> round_half_even y"
      by (auto simp: round_half_even_def Let_def)
    ultimately show ?thesis by linarith
  next
    case 2
    with le show ?thesis by (auto simp: round_half_even_def Let_def)
  qed
qed

lemma round_half_even_ge: "of_int m \<le> y \<Longrightarrow> m \<le> round_half_even y"
  using round_half_even_mono[of "of_int m" y] by simp

lemma round_half_even_le: "y \<le> of_int m \<Longrightarrow> round_half_even y \<le> m"
  using round_half_even_mono[of y "of_int m"] by simp

definition rnd_pos :: "rat \<Rightarrow> number" where
  "rnd_pos x = (let u = exp2 (ilog2 x - 52) in of_int (round_half_even (x / u)) * u)"

definition rnd :: "rat \<Rightarrow> number" where
  "rnd x = (if x = 0 then 0 else if x < 0 then - rnd_pos (- x) else rnd_pos x)"

lemma rnd_pos_bounds:
  assumes "0 < x"
  shows "exp2 (ilog2 x) \<le> rnd_pos x" and "rnd_pos x \<le> exp2 (ilog2 x + 1)"
proof -
  define u where "u = exp2 (ilog2 x - 52)"
  have u: "0 < u" by (simp add: u_def)
  have e: "exp2 (ilog2 x) = of_int (2 ^ 52) * u" "exp2 (ilog2 x + 1) = of_int (2 ^ 53) * u"
    using exp2_add[of 52 "ilog2 x - 52"] exp2_add[of 53 "ilog2 x - 52"]
    by (simp_all add: u_def exp2_def[of 52] exp2_def[of 53] algebra_simps)
  have "of_int (2 ^ 52) \<le> x / u" "x / u \<le> of_int (2 ^ 53)"
    using ilog2_bounds[OF assms] u unfolding e by (auto simp: field_simps)
  then have "2 ^ 52 \<le> round_half_even (x / u)" "round_half_even (x / u) \<le> 2 ^ 53"
    by (blast intro: round_half_even_ge round_half_even_le)+
  then have r: "of_int (2 ^ 52) \<le> (of_int (round_half_even (x / u)) :: rat)"
    "(of_int (round_half_even (x / u)) :: rat) \<le> of_int (2 ^ 53)"
    by (simp_all only: of_int_le_iff)
  have "rnd_pos x = of_int (round_half_even (x / u)) * u"
    by (simp add: rnd_pos_def u_def Let_def)
  with r u show "exp2 (ilog2 x) \<le> rnd_pos x" and "rnd_pos x \<le> exp2 (ilog2 x + 1)"
    unfolding e by (simp_all only: mult_right_mono less_imp_le)
qed

lemma rnd_pos_mono: "0 < x \<Longrightarrow> x \<le> y \<Longrightarrow> rnd_pos x \<le> rnd_pos y"
proof -
  assume x: "0 < x" and le: "x \<le> y"
  then have y: "0 < y" by linarith
  from x le have "ilog2 x \<le> ilog2 y" by (rule ilog2_mono)
  then consider "ilog2 x + 1 \<le> ilog2 y" | "ilog2 x = ilog2 y" by linarith
  then show ?thesis
  proof cases
    case 1
    then have "exp2 (ilog2 x + 1) \<le> exp2 (ilog2 y)" by (rule exp2_mono)
    with rnd_pos_bounds(2)[OF x] rnd_pos_bounds(1)[OF y] show ?thesis by linarith
  next
    case 2
    have "round_half_even (x / exp2 (ilog2 x - 52)) \<le> round_half_even (y / exp2 (ilog2 x - 52))"
      using le by (intro round_half_even_mono divide_right_mono) (simp_all add: less_imp_le)
    with 2 show ?thesis
      by (simp add: rnd_pos_def Let_def mult_right_mono less_imp_le)
  qed
qed

lemma rnd_pos_pos: "0 < x \<Longrightarrow> 0 < rnd_pos x"
  using rnd_pos_bounds(1)[of x] exp2_pos[of "ilog2 x"] by linarith

lemma rnd_0 [simp]: "rnd 0 = 0"
  by (simp add: rnd_def)

lemma rnd_minus: "rnd (- x) = - rnd x"
  by (auto simp: rnd_def)

lemma rnd_mono: "x \<le> y \<Longrightarrow> rnd x \<le> rnd y"
  using rnd_pos_mono[of x y] rnd_pos_mono[of "- y" "- x"] rnd_pos_pos[of "- x"] rnd_pos_pos[of y]
  by (auto simp: rnd_def)

lemma rnd_nonneg: "0 \<le> x \<Longrightarrow> 0 \<le> rnd x"
  using rnd_mono[of 0 x] by simp

lemma rnd_nonpos: "x \<le> 0 \<Longrightarrow> rnd x \<le> 0"
  using rnd_mono[of x 0] by simp

lemma rnd_pos_iff [simp]: "0 < rnd x \<longleftrightarrow> 0 < x"
  using rnd_pos_pos[of x] rnd_nonpos[of x] by (auto simp: rnd_def)

lemma rnd_neg_iff [simp]: "rnd x < 0 \<longleftrightarrow> x < 0"
  using rnd_pos_iff[of "- x"] by (simp add: rnd_minus del: rnd_pos_iff)

lemma rnd_eq_0_iff [simp]: "rnd x = 0 \<longleftrightarrow> x = 0"
  using rnd_pos_iff[of x] rnd_neg_iff[of x] by (auto simp del: rnd_pos_iff rnd_neg_iff)

text \<open>A rational that is a multiple of its own unit in the last place is a double.\<close>

lemma rnd_pos_exact: "x / exp2 (ilog2 x - 52) = of_int m \<Longrightarrow> rnd_pos x = x"
proof -
  assume h: "x / exp2 (ilog2 x - 52) = of_int m"
  then have "rnd_pos x = of_int m * exp2 (ilog2 x - 52)"
    by (simp only: rnd_pos_def Let_def round_half_even_of_int)
  also have "\<dots> = x" by (simp flip: h)
  finally show ?thesis .
qed

lemma rnd_pos_of_int:
  assumes "0 < n" and "n < 2 ^ 53"
  shows "rnd_pos (of_int n) = of_int n"
proof -
  have "of_int n < (of_int (2 ^ 53) :: rat)" using assms(2) by (simp only: of_int_less_iff)
  then have "of_int n < exp2 53" by (simp add: exp2_def)
  moreover have "exp2 (ilog2 (of_int n)) \<le> of_int n" using assms(1) ilog2_bounds(1) by simp
  ultimately have "exp2 (ilog2 (of_int n)) < exp2 53" by linarith
  then have "ilog2 (of_int n) < 53" using exp2_mono by (meson linorder_not_less)
  then have k: "exp2 (ilog2 (of_int n) - 52) = 1 / 2 ^ nat (52 - ilog2 (of_int n))"
    by (auto simp: exp2_def)
  show ?thesis
    by (rule rnd_pos_exact[where m = "n * 2 ^ nat (52 - ilog2 (of_int n))"]) (simp add: k)
qed

lemma rnd_of_int [simp]: "\<bar>n\<bar> < 2 ^ 53 \<Longrightarrow> rnd (of_int n) = of_int n"
  using rnd_pos_of_int[of n] rnd_pos_of_int[of "- n"]
  by (auto simp: rnd_def abs_if split: if_splits)

lemma rnd_1 [simp]: "rnd 1 = 1"
  using rnd_of_int[of 1] by simp

subsection \<open>Operations\<close>

text \<open>Number(b) of a bigint.\<close>

definition to_number :: "int \<Rightarrow> number" where
  "to_number n = rnd (of_int n)"

definition num_mul :: "number \<Rightarrow> number \<Rightarrow> number" where
  "num_mul x y = rnd (x * y)"

definition num_add :: "number \<Rightarrow> number \<Rightarrow> number" where
  "num_add x y = rnd (x + y)"

definition num_sub :: "number \<Rightarrow> number \<Rightarrow> number" where
  "num_sub x y = rnd (x - y)"

text \<open>Division by a non-zero divisor.\<close>

definition num_div :: "number \<Rightarrow> number \<Rightarrow> number" where
  "num_div x y = rnd (x / y)"

text \<open>Math.round rounds half up and is exact.\<close>

definition math_round :: "number \<Rightarrow> int" where
  "math_round x = \<lfloor>x + 1/2\<rfloor>"

lemma to_number_mono: "m \<le> n \<Longrightarrow> to_number m \<le> to_number n"
  by (simp add: to_number_def rnd_mono)

lemma to_number_nonneg: "0 \<le> n \<Longrightarrow> 0 \<le> to_number n"
  by (simp add: to_number_def rnd_nonneg)

lemma to_number_exact [simp]: "\<bar>n\<bar> < 2 ^ 53 \<Longrightarrow> to_number n = of_int n"
  by (simp add: to_number_def)

lemma to_number_sign:
  "0 < to_number n \<longleftrightarrow> 0 < n" "to_number n < 0 \<longleftrightarrow> n < 0" "to_number n = 0 \<longleftrightarrow> n = 0"
  by (simp_all add: to_number_def)

lemma num_mul_mono:
  "\<lbrakk>0 \<le> x; x \<le> x'; 0 \<le> y; y \<le> y'\<rbrakk> \<Longrightarrow> num_mul x y \<le> num_mul x' y'"
  by (simp add: num_mul_def rnd_mono mult_mono)

lemma num_mul_nonneg: "\<lbrakk>0 \<le> x; 0 \<le> y\<rbrakk> \<Longrightarrow> 0 \<le> num_mul x y"
  by (simp add: num_mul_def rnd_nonneg)

lemma num_add_mono: "\<lbrakk>x \<le> x'; y \<le> y'\<rbrakk> \<Longrightarrow> num_add x y \<le> num_add x' y'"
  by (simp add: num_add_def rnd_mono add_mono)

lemma num_div_mono: "\<lbrakk>x \<le> x'; 0 < y\<rbrakk> \<Longrightarrow> num_div x y \<le> num_div x' y"
  by (simp add: num_div_def rnd_mono divide_right_mono)

lemma math_round_mono: "x \<le> y \<Longrightarrow> math_round x \<le> math_round y"
  by (simp add: math_round_def floor_mono)

lemma math_round_of_int [simp]: "math_round (of_int n) = n"
proof -
  have "math_round (of_int n) = \<lfloor>of_int n + (1/2 :: rat)\<rfloor>" by (simp add: math_round_def)
  also have "\<dots> = n" by (rule floor_unique) auto
  finally show ?thesis .
qed

subsection \<open>The rounding error\<close>

lemma round_half_even_error: "\<bar>of_int (round_half_even y) - y\<bar> \<le> 1/2"
proof -
  have "y - of_int \<lfloor>y\<rfloor> < 1" "0 \<le> y - of_int \<lfloor>y\<rfloor>" by linarith+
  then show ?thesis by (auto simp: round_half_even_def Let_def)
qed

lemma rnd_error: "0 \<le> x \<Longrightarrow> \<bar>rnd x - x\<bar> \<le> x / 2 ^ 53"
proof (cases "x = 0")
  case False
  assume "0 \<le> x"
  with False have x: "0 < x" by simp
  define u where "u = exp2 (ilog2 x - 52)"
  have u: "0 < u" by (simp add: u_def)
  have "exp2 (ilog2 x) = 2 ^ 52 * u"
    using exp2_add[of 52 "ilog2 x - 52"] by (simp add: u_def exp2_def[of 52])
  with ilog2_bounds(1)[OF x] have "2 ^ 52 * u \<le> x" by simp
  then have ux: "u / 2 \<le> x / 2 ^ 53" by simp
  have "rnd x = of_int (round_half_even (x / u)) * u"
    using x by (simp add: rnd_def rnd_pos_def u_def Let_def)
  then have "rnd x - x = (of_int (round_half_even (x / u)) - x / u) * u"
    using u by (simp add: field_simps)
  then have "\<bar>rnd x - x\<bar> = \<bar>of_int (round_half_even (x / u)) - x / u\<bar> * u"
    using u by (simp add: abs_mult)
  also have "\<dots> \<le> (1/2) * u"
    using round_half_even_error u by (intro mult_right_mono) simp_all
  finally show ?thesis using ux by linarith
qed simp

lemma rnd_10_pow: "n \<le> 15 \<Longrightarrow> rnd (10 ^ n) = 10 ^ n"
proof -
  assume "n \<le> 15"
  then have "(10::int) ^ n \<le> 10 ^ 15" by (intro power_increasing) auto
  then have "\<bar>(10::int) ^ n\<bar> < 2 ^ 53" by simp
  from rnd_of_int[OF this] show ?thesis by simp
qed

end
