(* ===== verification/Constants.thy ===== *)
theory Constants
  imports Main
begin

text \<open>
  The durations of frontend/src/lib/constants/constants.ts and the numbers of
  frontend/src/lib/constants/neurons.constants.ts that several components share.  All of them are whole
  numbers, although JavaScript computes some with a division.
\<close>

definition SECONDS_IN_MINUTE :: int where
  "SECONDS_IN_MINUTE = 60"

definition SECONDS_IN_HOUR :: int where
  "SECONDS_IN_HOUR = SECONDS_IN_MINUTE * 60"

definition SECONDS_IN_DAY :: int where
  "SECONDS_IN_DAY = SECONDS_IN_HOUR * 24"

definition SECONDS_IN_YEAR :: int where
  "SECONDS_IN_YEAR = ((4 * 365 + 1) * SECONDS_IN_DAY) div 4"

definition SECONDS_IN_HALF_YEAR :: int where
  "SECONDS_IN_HALF_YEAR = SECONDS_IN_YEAR div 2"

definition SECONDS_IN_MONTH :: int where
  "SECONDS_IN_MONTH = SECONDS_IN_YEAR div 12"

definition SECONDS_IN_FOUR_YEARS :: int where
  "SECONDS_IN_FOUR_YEARS = SECONDS_IN_YEAR * 4"

definition SECONDS_IN_EIGHT_YEARS :: int where
  "SECONDS_IN_EIGHT_YEARS = SECONDS_IN_YEAR * 8"

definition MAX_NEURONS_MERGED :: nat where
  "MAX_NEURONS_MERGED = 2"

definition MIN_NEURON_STAKE :: int where
  "MIN_NEURON_STAKE = 100000000"

definition START_REDUCING_VOTING_POWER_AFTER_SECONDS :: int where
  "START_REDUCING_VOTING_POWER_AFTER_SECONDS = SECONDS_IN_HALF_YEAR"

definition NOTIFICATION_PERIOD_BEFORE_REWARD_LOSS_STARTS_DAYS :: int where
  "NOTIFICATION_PERIOD_BEFORE_REWARD_LOSS_STARTS_DAYS = 30"

text \<open>daysToSeconds of date.utils.ts on a whole number of days\<close>

definition daysToSeconds :: "int \<Rightarrow> int" where
  "daysToSeconds days = days * SECONDS_IN_DAY"

lemmas time_constants = SECONDS_IN_MINUTE_def SECONDS_IN_HOUR_def SECONDS_IN_DAY_def SECONDS_IN_YEAR_def
  SECONDS_IN_HALF_YEAR_def SECONDS_IN_MONTH_def SECONDS_IN_FOUR_YEARS_def SECONDS_IN_EIGHT_YEARS_def
  START_REDUCING_VOTING_POWER_AFTER_SECONDS_def NOTIFICATION_PERIOD_BEFORE_REWARD_LOSS_STARTS_DAYS_def

end
