(* ===== verification/Utils.thy ===== *)
theory Utils
  imports Prelude
begin

text \<open>
  frontend/src/lib/utils/utils.ts: hex strings, byte buffers, removing and mapping the entries of an
  object, the chunks an amount is rendered in, and the polling loop.
\<close>

subsection \<open>Hex strings\<close>

text \<open>n.toString(16)\<close>

definition hex_digit :: "nat \<Rightarrow> char" where
  "hex_digit d = ''0123456789abcdef'' ! d"

fun to_base16 :: "nat \<Rightarrow> string" where
  "to_base16 n =
     (if n < 16 then [hex_digit n] else to_base16 (n div 16) @ [hex_digit (n mod 16)])"

declare to_base16.simps [simp del]

definition padStart :: "nat \<Rightarrow> char \<Rightarrow> string \<Rightarrow> string" where
  "padStart width c s = replicate (width - length s) c @ s"

definition bytesToHexString :: "nat list \<Rightarrow> string" where
  "bytesToHexString bytes = foldl (\<lambda>str byte. str @ padStart 2 (CHR ''0'') (to_base16 byte)) [] bytes"

text \<open>
  parseInt(s, 16): leading white space and a sign are skipped, then a prefix 0x, then the longest run
  of hex digits is read; no digit gives NaN (None).
\<close>

definition hex_value :: "char \<Rightarrow> nat option" where
  "hex_value c = (let n = of_char c in
     if 48 \<le> n \<and> n \<le> 57 then Some (n - 48)
     else if 97 \<le> n \<and> n \<le> 102 then Some (n - 87)
     else if 65 \<le> n \<and> n \<le> 70 then Some (n - 55)
     else None)"

fun hex_prefix :: "string \<Rightarrow> nat list" where
  "hex_prefix [] = []"
| "hex_prefix (c # cs) = (case hex_value c of None \<Rightarrow> [] | Some d \<Rightarrow> d # hex_prefix cs)"

definition js_space :: "char \<Rightarrow> bool" where
  "js_space c = (of_char c \<in> set [9, 10, 11, 12, 13, 32, 160 :: nat])"

definition strip_0x :: "string \<Rightarrow> string" where
  "strip_0x s = (if take 2 s = ''0x'' \<or> take 2 s = ''0X'' then drop 2 s else s)"

definition parse_digits16 :: "string \<Rightarrow> int option" where
  "parse_digits16 s = (case hex_prefix (strip_0x s) of
       [] \<Rightarrow> None
     | d # ds \<Rightarrow> Some (int (foldl (\<lambda>a x. 16 * a + x) 0 (d # ds))))"

definition parseInt16 :: "string \<Rightarrow> int option" where
  "parseInt16 s = (case dropWhile js_space s of
       [] \<Rightarrow> None
     | c # cs \<Rightarrow> if c = CHR ''-'' then map_option uminus (parse_digits16 cs)
                else if c = CHR ''+'' then parse_digits16 cs
                else parse_digits16 (c # cs))"

text \<open>The loop takes two characters at a time; the last chunk may be a single one.\<close>

fun hexStringToBytes :: "string \<Rightarrow> int option list" where
  "hexStringToBytes [] = []"
| "hexStringToBytes [a] = [parseInt16 [a]]"
| "hexStringToBytes (a # b # s) = parseInt16 [a, b] # hexStringToBytes s"

text \<open>A byte array of the length of a hash; a member may be any number, here an int.\<close>

definition isHash :: "int list \<Rightarrow> bool" where
  "isHash bytes \<longleftrightarrow>
     length bytes = 32 \<and> List.find (\<lambda>value. value < 0 \<or> value > 255) bytes = None"

subsection \<open>Versions and buffers\<close>

definition AMOUNT_VERSION_PARTS :: nat where
  "AMOUNT_VERSION_PARTS = 3"

definition addZeros :: "int list \<Rightarrow> nat \<Rightarrow> int list" where
  "addZeros nums amountZeros =
     (if amountZeros > length nums
      then nums @ map (\<lambda>_. 0) [0..<amountZeros - length nums] else nums)"

text \<open>The loop over the index of sameBufferData.\<close>

fun same_from :: "'b list \<Rightarrow> 'b list \<Rightarrow> nat \<Rightarrow> nat \<Rightarrow> bool" where
  "same_from dv1 dv2 i 0 = True"
| "same_from dv1 dv2 i (Suc n) =
     (if dv1 ! i \<noteq> dv2 ! i then False else same_from dv1 dv2 (Suc i) n)"

definition sameBufferData :: "'b list \<Rightarrow> 'b list \<Rightarrow> bool" where
  "sameBufferData buffer1 buffer2 =
     (if length buffer1 \<noteq> length buffer2 then False
      else same_from buffer1 buffer2 0 (length buffer1))"

subsection \<open>Objects\<close>

text \<open>An object is the list of its entries, in order and with distinct keys.\<close>

definition object_set :: "(string \<times> 'v) list \<Rightarrow> string \<Rightarrow> 'v \<Rightarrow> (string \<times> 'v) list" where
  "object_set obj k v =
     (if k \<in> set (map fst obj) then map (\<lambda>(k', v'). (k', if k' = k then v else v')) obj
      else obj @ [(k, v)])"

definition fromEntries :: "(string \<times> 'v) list \<Rightarrow> (string \<times> 'v) list" where
  "fromEntries es = foldl (\<lambda>acc (k, v). object_set acc k v) [] es"

definition removeKeys :: "(string \<times> 'v) list \<Rightarrow> string list \<Rightarrow> (string \<times> 'v) list" where
  "removeKeys obj keysToRemove =
     fromEntries (filter (\<lambda>(key, _). js_indexOf keysToRemove key = -1) obj)"

definition mapEntries ::
  "(string \<times> 'v) list \<Rightarrow> (string \<times> 'v \<Rightarrow> (string \<times> 'w) option) \<Rightarrow> (string \<times> 'w) list" where
  "mapEntries obj mapFn = fromEntries (List.map_filter mapFn obj)"

text \<open>The values getObjMaxDepth walks through: objects with their children, and all other values.\<close>

datatype js_tree = JsLeaf | JsObject "(string \<times> js_tree) list"

lemma size_child: "e \<in> set es \<Longrightarrow> size (snd e) < size (JsObject es)"
  by (induction es) auto

function getObjMaxDepth :: "js_tree \<Rightarrow> nat" where
  "getObjMaxDepth JsLeaf = 0"
| "getObjMaxDepth (JsObject entries) =
     (if entries = [] then 0
      else 1 + foldl (\<lambda>childrenMaxDepth depth. if depth > childrenMaxDepth then depth
                        else childrenMaxDepth) 0 (map (\<lambda>e. getObjMaxDepth (snd e)) entries))"
  by pat_completeness auto

termination
  by (relation "measure size") (use size_child in auto)

text \<open>uniqueObjects, given the serialisation it compares by.\<close>

fun uniqueObjects_loop :: "('a \<Rightarrow> string) \<Rightarrow> string list \<Rightarrow> 'a list \<Rightarrow> 'a list" where
  "uniqueObjects_loop stringifyJson uniqHashes [] = []"
| "uniqueObjects_loop stringifyJson uniqHashes (item # rest) =
     (let hash = stringifyJson item
      in if hash \<notin> set uniqHashes
         then item # uniqueObjects_loop stringifyJson (hash # uniqHashes) rest
         else uniqueObjects_loop stringifyJson uniqHashes rest)"

definition uniqueObjects :: "('a \<Rightarrow> string) \<Rightarrow> 'a list \<Rightarrow> 'a list" where
  "uniqueObjects stringifyJson list = uniqueObjects_loop stringifyJson [] list"

subsection \<open>Chunks of an amount\<close>

text \<open>The loop of splitE8sIntoChunks runs from the end, unshifting each chunk.\<close>

fun chunks_from :: "string \<Rightarrow> nat \<Rightarrow> string list \<Rightarrow> string list" where
  "chunks_from chars i chunks =
     (if i = 0 then chunks
      else chunks_from chars (i - 8) (take (i - (i - 8)) (drop (i - 8) chars) # chunks))"

declare chunks_from.simps [simp del]

definition splitE8sIntoChunks :: "string \<Rightarrow> string list" where
  "splitE8sIntoChunks value = chunks_from value (length value) []"

subsection \<open>Polling\<close>

text \<open>
  fn i is what the call of attempt i settles with.  cancelled_wait i and cancelled_call i say whether
  cancelPoll rejects the race of the wait before attempt i, or that of its call.  The loop returns the
  result, the waiting times it used and whether the high load message was shown.
\<close>

datatype 'e poll_error = PollingCancelledError | PollingLimitExceededError | FnError 'e

record poll_options =
  maxAttempts :: nat
  millisecondsToWait :: int
  useExponentialBackoff :: bool
  failuresBeforeHighLoadMessage :: "nat option"

definition poll_defaults :: poll_options where
  "poll_defaults = \<lparr>maxAttempts = 10, millisecondsToWait = 500, useExponentialBackoff = False,
     failuresBeforeHighLoadMessage = Some 6\<rparr>"

record ('e, 'a) poll_world =
  pw_fn :: "nat \<Rightarrow> 'e + 'a"
  pw_cancelled_wait :: "nat \<Rightarrow> bool"
  pw_cancelled_call :: "nat \<Rightarrow> bool"

text \<open>fuel is maxAttempts - counter, so the loop needs no other bound.\<close>

fun poll_loop :: "('e, 'a) poll_world \<Rightarrow> ('e \<Rightarrow> bool) \<Rightarrow> poll_options \<Rightarrow> nat \<Rightarrow> nat \<Rightarrow> int
    \<Rightarrow> int list \<Rightarrow> bool \<Rightarrow> ('e poll_error + 'a) \<times> int list \<times> bool" where
  "poll_loop w shouldExit opts 0 counter ms waits toast =
     (Inl PollingLimitExceededError, waits, toast)"
| "poll_loop w shouldExit opts (Suc left) counter ms waits toast =
     (let toast' = (toast \<or> counter > 0 \<and> failuresBeforeHighLoadMessage opts = Some counter);
          waits' = (if counter > 0 then waits @ [ms] else waits);
          ms' = (if counter > 0 \<and> useExponentialBackoff opts then ms * 2 else ms)
      in if counter > 0 \<and> pw_cancelled_wait w counter then (Inl PollingCancelledError, waits', toast')
         else if pw_cancelled_call w counter then (Inl PollingCancelledError, waits', toast')
         else case pw_fn w counter of
             Inr result \<Rightarrow> (Inr result, waits', toast')
           | Inl err \<Rightarrow> if shouldExit err then (Inl (FnError err), waits', toast')
                      else poll_loop w shouldExit opts left (Suc counter) ms' waits' toast')"

text \<open>
  poll with the set of running poll ids: an id that is already polled is refused, and the finally
  block deletes the id on every other way out.
\<close>

definition poll :: "('e, 'a) poll_world \<Rightarrow> ('e \<Rightarrow> bool) \<Rightarrow> poll_options \<Rightarrow> 'id option \<Rightarrow> 'id set
    \<Rightarrow> ('e poll_error + 'a) \<times> int list \<times> 'id set" where
  "poll w shouldExit opts pollId currentPolls =
     (case pollId of
        Some pid \<Rightarrow>
          if pid \<in> currentPolls then (Inl PollingCancelledError, [], currentPolls)
          else (let running = insert pid currentPolls;
                    (r, waits, toast) =
                      poll_loop w shouldExit opts (maxAttempts opts) 0 (millisecondsToWait opts) [] False
                in (r, waits, running - {pid}))
      | None \<Rightarrow>
          (let (r, waits, toast) =
                 poll_loop w shouldExit opts (maxAttempts opts) 0 (millisecondsToWait opts) [] False
           in (r, waits, currentPolls)))"

subsection \<open>Lemmas\<close>

lemma hex_digit_facts:
  assumes "d < 16"
  shows "hex_value (hex_digit d) = Some d \<and> \<not> js_space (hex_digit d) \<and>
     hex_digit d \<noteq> CHR ''-'' \<and> hex_digit d \<noteq> CHR ''+'' \<and> hex_digit d \<noteq> CHR ''x'' \<and>
     hex_digit d \<noteq> CHR ''X''"
proof -
  have "d \<in> {0, 1, 2, 3, 4, 5, 6, 7, 8, 9, 10, 11, 12, 13, 14, 15}"
    using assms by (simp only: insert_iff empty_iff) presburger
  then show ?thesis
    by (elim insertE emptyE) (simp_all add: hex_digit_def hex_value_def js_space_def)
qed

lemma parseInt16_pair:
  assumes "a < 16" "b < 16"
  shows "parseInt16 [hex_digit a, hex_digit b] = Some (int (16 * a + b))"
  using hex_digit_facts[OF assms(1)] hex_digit_facts[OF assms(2)]
  by (simp add: parseInt16_def parse_digits16_def strip_0x_def)

lemma byte_hex:
  assumes "b < 256"
  shows "padStart 2 (CHR ''0'') (to_base16 b) = [hex_digit (b div 16), hex_digit (b mod 16)]"
proof (cases "b < 16")
  case True
  then show ?thesis by (simp add: to_base16.simps[of b] padStart_def hex_digit_def)
next
  case False
  with assms have "b div 16 < 16" by simp
  with False show ?thesis
    by (simp add: to_base16.simps[of b] to_base16.simps[of "b div 16"] padStart_def)
qed

lemma foldl_append_map: "foldl (\<lambda>s x. s @ f x) acc xs = acc @ concat (map f xs)"
  by (induction xs arbitrary: acc) auto

lemma bytesToHexString_Nil [simp]: "bytesToHexString [] = []"
  by (simp add: bytesToHexString_def)

lemma bytesToHexString_Cons [simp]:
  "bytesToHexString (b # bs) = padStart 2 (CHR ''0'') (to_base16 b) @ bytesToHexString bs"
  by (simp add: bytesToHexString_def foldl_append_map)

lemma hex_bytes_inverse:
  "\<forall>b\<in>set bs. b < 256 \<Longrightarrow> hexStringToBytes (bytesToHexString bs) = map (\<lambda>b. Some (int b)) bs"
  by (induction bs) (auto simp: byte_hex parseInt16_pair less_mult_imp_div_less)

lemma bytesToHexString_inject:
  assumes "\<forall>b\<in>set bs. b < 256" "\<forall>b\<in>set cs. b < 256"
  shows "bytesToHexString bs = bytesToHexString cs \<longleftrightarrow> bs = cs"
proof
  assume "bytesToHexString bs = bytesToHexString cs"
  then have "map (\<lambda>b. Some (int b)) bs = map (\<lambda>b. Some (int b)) cs"
    using hex_bytes_inverse assms by metis
  then show "bs = cs" by (rule map_injective) (auto simp: inj_def)
qed simp

lemma same_from_iff: "same_from xs ys i n \<longleftrightarrow> (\<forall>j\<in>{i..<i + n}. xs ! j = ys ! j)"
proof (induction n arbitrary: i)
  case (Suc n)
  have "{i..<i + Suc n} = insert i {Suc i..<Suc i + n}" by auto
  with Suc.IH[of "Suc i"] show ?case by simp
qed simp

text \<open>The loop of sameBufferData decides equality.\<close>

lemma sameBufferData_iff [simp]: "sameBufferData xs ys \<longleftrightarrow> xs = ys"
  unfolding sameBufferData_def same_from_iff list_eq_iff_nth_eq by (simp add: Ball_def)

lemma map_of_map_replace:
  "map_of (map (\<lambda>(k', v'). (k', if k' = k then v else v')) obj) x =
     (if x = k then (if k \<in> fst ` set obj then Some v else None) else map_of obj x)"
proof (induction obj)
  case (Cons e obj)
  obtain a b where "e = (a, b)" by (cases e)
  with Cons show ?case by (cases "x = k"; cases "a = k") auto
qed simp

lemma map_of_object_set: "map_of (object_set obj k v) = (map_of obj)(k \<mapsto> v)"
proof (cases "k \<in> set (map fst obj)")
  case True
  then show ?thesis by (simp add: object_set_def fun_eq_iff map_of_map_replace)
next
  case False
  then have "map_of obj k = None" by (simp add: map_of_eq_None_iff)
  with False show ?thesis
    by (simp add: object_set_def fun_eq_iff map_add_def split: option.splits)
qed

lemma chunks_from_acc: "chunks_from cs i acc = chunks_from cs i [] @ acc"
proof (induction i arbitrary: acc rule: less_induct)
  case (less i)
  show ?case
  proof (cases "i = 0")
    case True
    then show ?thesis by (simp add: chunks_from.simps[of cs 0])
  next
    case False
    define c where "c = take (i - (i - 8)) (drop (i - 8) cs)"
    have "chunks_from cs i acc = chunks_from cs (i - 8) (c # acc)"
      "chunks_from cs i [] = chunks_from cs (i - 8) [c]"
      using False by (simp_all add: c_def chunks_from.simps[of cs i])
    then show ?thesis
      using less.IH[of "i - 8" "c # acc"] less.IH[of "i - 8" "[c]"] False by simp
  qed
qed

lemma chunks_from_step:
  "i \<noteq> 0 \<Longrightarrow> chunks_from cs i [] =
     chunks_from cs (i - 8) [] @ [take (i - (i - 8)) (drop (i - 8) cs)]"
  by (simp add: chunks_from.simps[of cs i] chunks_from_acc[of cs "i - 8" "[_]"])

lemma chunks_from_correct:
  "i \<le> length cs \<Longrightarrow> concat (chunks_from cs i []) = take i cs \<and>
     (\<forall>c\<in>set (chunks_from cs i []). 0 < length c \<and> length c \<le> 8) \<and>
     (\<forall>c\<in>set (tl (chunks_from cs i [])). length c = 8)"
proof (induction i rule: less_induct)
  case (less i)
  show ?case
  proof (cases "i = 0")
    case True
    then show ?thesis by (simp add: chunks_from.simps[of cs 0])
  next
    case False
    let ?c = "take (i - (i - 8)) (drop (i - 8) cs)"
    have IH: "concat (chunks_from cs (i - 8) []) = take (i - 8) cs"
      "\<forall>c\<in>set (chunks_from cs (i - 8) []). 0 < length c \<and> length c \<le> 8"
      "\<forall>c\<in>set (tl (chunks_from cs (i - 8) [])). length c = 8"
      using less.IH[of "i - 8"] less.prems False by simp_all
    define c where "c = ?c"
    have t: "take i cs = take (i - 8) cs @ c"
      using take_add[of "i - 8" "i - (i - 8)" cs] by (simp add: c_def)
    have l: "length c = i - (i - 8)" using less.prems by (simp add: c_def)
    have s: "chunks_from cs i [] = chunks_from cs (i - 8) [] @ [c]"
      unfolding c_def by (rule chunks_from_step[OF False])
    have tl: "\<forall>d\<in>set (tl (chunks_from cs i [])). length d = 8"
    proof (cases "i \<le> 8")
      case True
      then show ?thesis by (simp add: s chunks_from.simps[of cs 0])
    next
      case False
      then have "chunks_from cs (i - 8) [] \<noteq> []" by (simp add: chunks_from_step)
      with IH(3) l False show ?thesis by (simp add: s)
    qed
    have "0 < length c" "length c \<le> 8" using l False by arith+
    then show ?thesis using IH(1,2) tl t unfolding s by simp
  qed
qed

subsection \<open>Lemmas on polling\<close>

text \<open>No cancellation, and the attempts before n fail with errors that do not end the polling.\<close>

definition retried :: "('e, 'a) poll_world \<Rightarrow> ('e \<Rightarrow> bool) \<Rightarrow> nat \<Rightarrow> bool" where
  "retried w shouldExit i \<longleftrightarrow>
     (case pw_fn w i of Inl e \<Rightarrow> \<not> shouldExit e | Inr _ \<Rightarrow> False) \<and>
     \<not> pw_cancelled_call w i \<and> \<not> pw_cancelled_wait w i"

definition wait_ms :: "poll_options \<Rightarrow> nat \<Rightarrow> int" where
  "wait_ms opts i = millisecondsToWait opts * (if useExponentialBackoff opts then 2 ^ i else 1)"

definition wait_list :: "poll_options \<Rightarrow> nat \<Rightarrow> int list" where
  "wait_list opts n = map (wait_ms opts) [0..<n]"

lemma wait_list_step: "0 < c \<Longrightarrow> wait_list opts (c - 1) @ [wait_ms opts (c - 1)] = wait_list opts c"
  by (cases c) (simp_all add: wait_list_def)

lemma wait_ms_step: "0 < c \<Longrightarrow>
    (if useExponentialBackoff opts then wait_ms opts (c - 1) * 2 else wait_ms opts (c - 1)) =
    wait_ms opts c"
  by (cases c) (simp_all add: wait_ms_def)

lemma poll_loop_retry:
  assumes "retried w shouldExit c"
  shows "\<exists>toast'. poll_loop w shouldExit opts (Suc m) c (wait_ms opts (c - 1)) (wait_list opts (c - 1)) toast =
     poll_loop w shouldExit opts m (Suc c) (wait_ms opts c) (wait_list opts c) toast'"
  using assms wait_list_step[of c opts] wait_ms_step[of c opts]
  by (cases "pw_fn w c"; cases "c = 0")
    (auto simp: retried_def Let_def wait_list_def split: if_splits)

lemma poll_loop_retries:
  "\<lbrakk>n \<le> left; \<forall>j<n. retried w shouldExit (c + j)\<rbrakk> \<Longrightarrow>
   \<exists>toast'. poll_loop w shouldExit opts left c (wait_ms opts (c - 1)) (wait_list opts (c - 1)) toast =
     poll_loop w shouldExit opts (left - n) (c + n) (wait_ms opts (c + n - 1))
       (wait_list opts (c + n - 1)) toast'"
proof (induction n arbitrary: left c toast)
  case 0
  then show ?case by auto
next
  case (Suc n)
  then obtain m where left: "left = Suc m" by (cases left) auto
  have "retried w shouldExit c" using Suc.prems(2)[rule_format, of 0] by simp
  then obtain t where
    "poll_loop w shouldExit opts left c (wait_ms opts (c - 1)) (wait_list opts (c - 1)) toast =
      poll_loop w shouldExit opts m (Suc c) (wait_ms opts c) (wait_list opts c) t"
    using poll_loop_retry left by blast
  moreover have "\<forall>j<n. retried w shouldExit (Suc c + j)"
    using Suc.prems(2) by (metis Suc_less_eq add_Suc_shift)
  then obtain t' where
    "poll_loop w shouldExit opts m (Suc c) (wait_ms opts (Suc c - 1)) (wait_list opts (Suc c - 1)) t =
      poll_loop w shouldExit opts (m - n) (Suc c + n) (wait_ms opts (Suc c + n - 1))
        (wait_list opts (Suc c + n - 1)) t'"
    using Suc.IH[of m "Suc c" t] Suc.prems(1) left by auto
  ultimately show ?case using left by auto
qed

lemma poll_start: "poll_loop w shouldExit opts n 0 (millisecondsToWait opts) [] t =
   poll_loop w shouldExit opts n 0 (wait_ms opts (0 - 1)) (wait_list opts (0 - 1)) t"
  by (simp add: wait_ms_def wait_list_def)

subsection \<open>Properties\<close>

text \<open>
  A byte array survives the way through its hex string: hexStringToBytes (bytesToHexString bytes)
  gives back the bytes, two characters each.
\<close>

lemma hex_roundtrip:
  assumes "\<forall>b\<in>set bytes. b < 256"
  shows "hexStringToBytes (bytesToHexString bytes) = map (\<lambda>b. Some (int b)) bytes \<and>
    length (bytesToHexString bytes) = 2 * length bytes"
proof
  show "hexStringToBytes (bytesToHexString bytes) = map (\<lambda>b. Some (int b)) bytes"
    using assms by (rule hex_bytes_inverse)
  show "length (bytesToHexString bytes) = 2 * length bytes"
    using assms by (induction bytes) (auto simp: byte_hex)
qed

theorem hex_roundtrip_witness:
  "hexStringToBytes (bytesToHexString [0, 10, 255]) = [Some 0, Some 10, Some 255]"
  using hex_roundtrip[of "[0, 10, 255]"] by simp

text \<open>
  splitE8sIntoChunks cuts the digits of an amount into chunks that join to the amount again; every
  chunk but the first has exactly eight characters and the first has between one and eight.
\<close>

lemma splitE8sIntoChunks_correct:
  "concat (splitE8sIntoChunks value) = value \<and>
   (\<forall>c\<in>set (tl (splitE8sIntoChunks value)). length c = 8) \<and>
   (\<forall>c\<in>set (splitE8sIntoChunks value). 1 \<le> length c \<and> length c \<le> 8)"
  using chunks_from_correct[of "length value" "value"] by (auto simp: splitE8sIntoChunks_def Suc_le_eq)

theorem splitE8sIntoChunks_correct_witness:
  "concat (splitE8sIntoChunks ''00001111222233334444'') = ''00001111222233334444''"
  using splitE8sIntoChunks_correct[of "''00001111222233334444''"] by simp

text \<open>
  When the first n attempts fail with errors that polling retries and the next one succeeds within
  the allowed number of attempts, poll returns that success after n waits, constant or doubling, and
  leaves the set of running polls as it found it.
\<close>

lemma poll_returns_first_success:
  assumes "n < maxAttempts opts" and "\<forall>i<n. retried w shouldExit i"
    and "pw_fn w n = Inr r" and "\<not> pw_cancelled_call w n" and "\<not> pw_cancelled_wait w n"
    and "pollId \<notin> Some ` currentPolls"
  shows "poll w shouldExit opts pollId currentPolls =
     (Inr r, map (\<lambda>i. millisecondsToWait opts * (if useExponentialBackoff opts then 2 ^ i else 1)) [0..<n],
      currentPolls)"
proof -
  obtain t where "poll_loop w shouldExit opts (maxAttempts opts) 0 (millisecondsToWait opts) [] False =
      poll_loop w shouldExit opts (maxAttempts opts - n) n (wait_ms opts (n - 1)) (wait_list opts (n - 1)) t"
    using poll_loop_retries[of n "maxAttempts opts" w shouldExit 0 opts False] assms(1,2)
    unfolding poll_start by auto
  moreover obtain m where "maxAttempts opts - n = Suc m" using assms(1) by (cases "maxAttempts opts - n") auto
  moreover have "wait_list opts n = map (\<lambda>i. millisecondsToWait opts *
      (if useExponentialBackoff opts then 2 ^ i else 1)) [0..<n]"
    unfolding wait_list_def wait_ms_def ..
  ultimately show ?thesis
    using assms(3-) wait_list_step[of n opts] by (cases "n = 0"; cases pollId) (auto simp: poll_def Let_def wait_list_def)
qed

theorem poll_returns_first_success_witness:
  "poll \<lparr>pw_fn = (\<lambda>i. if i = 2 then Inr (7::nat) else Inl ()), pw_cancelled_wait = (\<lambda>_. False),
        pw_cancelled_call = (\<lambda>_. False)\<rparr> (\<lambda>_. False) (poll_defaults\<lparr>useExponentialBackoff := True\<rparr>)
      (Some (1::nat)) {} = (Inr 7, [500, 1000], {})"
  using poll_returns_first_success[of 2 "poll_defaults\<lparr>useExponentialBackoff := True\<rparr>"
      "\<lparr>pw_fn = (\<lambda>i. if i = 2 then Inr (7::nat) else Inl ()), pw_cancelled_wait = (\<lambda>_. False),
        pw_cancelled_call = (\<lambda>_. False)\<rparr>" "\<lambda>_. False" 7 "Some (1::nat)" "{}"]
  by (simp add: poll_defaults_def retried_def numeral_2_eq_2)

end
