(* ===== verification/QueuedStore.thy ===== *)
theory QueuedStore
  imports Prelude
begin

text \<open>
  frontend/src/lib/stores/queued-store.ts: a Svelte store that keeps the mutations of requests whose
  certified response has not arrived, so that a late certified response of an older request cannot
  revert what newer responses wrote.

  The closure variables of queuedStore are the fields of the record queued_store; exposed is the
  value of the inner writable, what subscribers see.  Each method is a function from the state to an
  error or the new state.  The specification is a log of all requests in the order in which they were
  reserved; the locale mutation_store states what the log promises about the store and is
  interpreted on the model.
\<close>

subsection \<open>State\<close>

datatype QueryAndUpdateStrategy = QueryAndUpdate | QueryOnly | UpdateOnly

type_synonym 'd mutation = "'d \<Rightarrow> 'd"

record 'd mutation_entry =
  mutationKey :: nat
  strategy :: QueryAndUpdateStrategy
  certifiedMutation :: "'d mutation option"
  nonCertifiedMutation :: "'d mutation option"

record 'd queued_store =
  certifiedData :: 'd
  mutationQueue :: "'d mutation_entry list"
  exposed :: 'd
  nextMutationKey :: nat

datatype queue_error =
    NoEntryForMutation nat
  | AlreadyHaveMutation bool
  | NoEntryToCancel
  | AlreadyApplied

definition queuedStore :: "'d \<Rightarrow> 'd queued_store" where
  "queuedStore initialData =
     \<lparr>certifiedData = initialData, mutationQueue = [], exposed = initialData, nextMutationKey = 1\<rparr>"

subsection \<open>Operations\<close>

text \<open>entry.certifiedMutation || entry.nonCertifiedMutation, applied when there is one\<close>

definition entry_mutation :: "'d mutation_entry \<Rightarrow> 'd mutation option" where
  "entry_mutation entry = nullish_alt (certifiedMutation entry) (nonCertifiedMutation entry)"

definition apply_entry :: "'d \<Rightarrow> 'd mutation_entry \<Rightarrow> 'd" where
  "apply_entry data entry =
     (case entry_mutation entry of None \<Rightarrow> data | Some mutation \<Rightarrow> mutation data)"

definition updateExposedData :: "'d queued_store \<Rightarrow> 'd queued_store" where
  "updateExposedData st = st\<lparr>exposed := foldl apply_entry (certifiedData st) (mutationQueue st)\<rparr>"

fun isFinal :: "'d mutation_entry \<Rightarrow> bool" where
  "isFinal entry =
     (case strategy entry of
        QueryAndUpdate \<Rightarrow> certifiedMutation entry \<noteq> None
      | UpdateOnly \<Rightarrow> certifiedMutation entry \<noteq> None
      | QueryOnly \<Rightarrow> nonCertifiedMutation entry \<noteq> None)"

declare isFinal.simps [simp del]

text \<open>The while loop of addMutation: finalized entries leave the front of the queue.\<close>

fun apply_finalized :: "'d \<Rightarrow> 'd mutation_entry list \<Rightarrow> 'd \<times> 'd mutation_entry list" where
  "apply_finalized data [] = (data, [])"
| "apply_finalized data (entry # queue) =
     (if isFinal entry then apply_finalized (apply_entry data entry) queue
      else (data, entry # queue))"

definition entry_slot :: "bool \<Rightarrow> 'd mutation_entry \<Rightarrow> 'd mutation option" where
  "entry_slot certified entry =
     (if certified then certifiedMutation entry else nonCertifiedMutation entry)"

definition set_entry_slot :: "bool \<Rightarrow> 'd mutation \<Rightarrow> 'd mutation_entry \<Rightarrow> 'd mutation_entry" where
  "set_entry_slot certified mutation entry =
     (if certified then entry\<lparr>certifiedMutation := Some mutation\<rparr>
      else entry\<lparr>nonCertifiedMutation := Some mutation\<rparr>)"

text \<open>The assignment entry[key] = mutation to the entry that find returned.\<close>

fun set_queue_slot ::
  "nat \<Rightarrow> bool \<Rightarrow> 'd mutation \<Rightarrow> 'd mutation_entry list \<Rightarrow> 'd mutation_entry list" where
  "set_queue_slot key certified mutation [] = []"
| "set_queue_slot key certified mutation (entry # queue) =
     (if mutationKey entry = key then set_entry_slot certified mutation entry # queue
      else entry # set_queue_slot key certified mutation queue)"

definition addMutation ::
  "nat \<Rightarrow> bool \<Rightarrow> 'd mutation \<Rightarrow> 'd queued_store \<Rightarrow> queue_error + 'd queued_store" where
  "addMutation key certified mutation st =
     (case List.find (\<lambda>entry. mutationKey entry = key) (mutationQueue st) of
        None \<Rightarrow> Inl (NoEntryForMutation key)
      | Some entry \<Rightarrow>
          if entry_slot certified entry \<noteq> None then Inl (AlreadyHaveMutation certified)
          else
            let (data, queue) = apply_finalized (certifiedData st)
                  (set_queue_slot key certified mutation (mutationQueue st))
            in Inr (updateExposedData (st\<lparr>certifiedData := data, mutationQueue := queue\<rparr>)))"

definition cancel :: "nat \<Rightarrow> 'd queued_store \<Rightarrow> queue_error + 'd queued_store" where
  "cancel key st =
     (case List.find (\<lambda>entry. mutationKey entry = key) (mutationQueue st) of
        None \<Rightarrow> Inl NoEntryToCancel
      | Some entry \<Rightarrow>
          if entry_mutation entry \<noteq> None then Inl AlreadyApplied
          else Inr (st\<lparr>mutationQueue :=
                 filter (\<lambda>entry. mutationKey entry \<noteq> key) (mutationQueue st)\<rparr>))"

definition new_entry :: "nat \<Rightarrow> QueryAndUpdateStrategy option \<Rightarrow> 'd mutation_entry" where
  "new_entry key strat =
     \<lparr>mutationKey = key, strategy = nullish_or strat QueryAndUpdate,
      certifiedMutation = None, nonCertifiedMutation = None\<rparr>"

text \<open>Returns the key the methods of the returned store close over.\<close>

definition getSingleMutationStore ::
  "QueryAndUpdateStrategy option \<Rightarrow> 'd queued_store \<Rightarrow> nat \<times> 'd queued_store" where
  "getSingleMutationStore strat st =
     (nextMutationKey st,
      st\<lparr>nextMutationKey := nextMutationKey st + 1,
         mutationQueue := mutationQueue st @ [new_entry (nextMutationKey st) strat]\<rparr>)"

definition single_set ::
  "nat \<Rightarrow> 'd \<Rightarrow> bool \<Rightarrow> 'd queued_store \<Rightarrow> queue_error + 'd queued_store" where
  "single_set key data certified = addMutation key certified (\<lambda>_. data)"

definition single_update ::
  "nat \<Rightarrow> 'd mutation \<Rightarrow> bool \<Rightarrow> 'd queued_store \<Rightarrow> queue_error + 'd queued_store" where
  "single_update key mutation certified = addMutation key certified mutation"

definition resetForTesting :: "'d \<Rightarrow> 'd queued_store \<Rightarrow> 'd queued_store" where
  "resetForTesting initialData st =
     st\<lparr>certifiedData := initialData, mutationQueue := [], exposed := initialData\<rparr>"

definition setForTesting :: "'d \<Rightarrow> 'd queued_store \<Rightarrow> 'd queued_store" where
  "setForTesting data st = st\<lparr>certifiedData := data, mutationQueue := [], exposed := data\<rparr>"

subsection \<open>Basic facts\<close>

lemma entry_slot_set [simp]:
  "mutationKey (set_entry_slot c m e) = mutationKey e"
  "strategy (set_entry_slot c m e) = strategy e"
  "entry_slot c' (set_entry_slot c m e) = (if c' = c then Some m else entry_slot c' e)"
  by (auto simp: set_entry_slot_def entry_slot_def)

lemma isFinal_slot:
  "isFinal e \<longleftrightarrow> entry_slot (strategy e \<noteq> QueryOnly) e \<noteq> None"
  by (cases "strategy e") (auto simp: isFinal.simps entry_slot_def)

lemma keys_set_queue_slot [simp]:
  "map mutationKey (set_queue_slot k c m q) = map mutationKey q"
  by (induction q) auto

lemma set_queue_slot_append:
  "k \<notin> mutationKey ` set p \<Longrightarrow> set_queue_slot k c m (p @ q) = p @ set_queue_slot k c m q"
  by (induction p) auto

lemma set_queue_slot_commute:
  "k \<noteq> k' \<Longrightarrow> set_queue_slot k c m (set_queue_slot k' c' m' q) =
     set_queue_slot k' c' m' (set_queue_slot k c m q)"
  by (induction q) auto

lemma find_set_queue_slot_other:
  "k \<noteq> k' \<Longrightarrow> List.find (\<lambda>e. mutationKey e = k) (set_queue_slot k' c m q) =
     List.find (\<lambda>e. mutationKey e = k) q"
  by (induction q) auto

lemma apply_finalized_split:
  assumes "apply_finalized d q = (d', q')"
  shows "\<exists>p. q = p @ q' \<and> (\<forall>e\<in>set p. isFinal e) \<and> d' = foldl apply_entry d p \<and>
    (q' \<noteq> [] \<longrightarrow> \<not> isFinal (hd q'))"
  using assms
proof (induction d q rule: apply_finalized.induct)
  case (1 d)
  then show ?case by simp
next
  case (2 d e q)
  show ?case
  proof (cases "isFinal e")
    case True
    with 2 obtain p where "q = p @ q'" "\<forall>e\<in>set p. isFinal e"
      "d' = foldl apply_entry (apply_entry d e) p" "q' \<noteq> [] \<longrightarrow> \<not> isFinal (hd q')"
      by auto
    with True show ?thesis by (intro exI[of _ "e # p"]) auto
  next
    case False
    with 2 show ?thesis by auto
  qed
qed

lemma find_key_append:
  "k \<notin> mutationKey ` set p \<Longrightarrow>
     List.find (\<lambda>e. mutationKey e = k) (p @ q) = List.find (\<lambda>e. mutationKey e = k) q"
  by (induction p) auto

lemma find_key_SomeD:
  "List.find (\<lambda>e. mutationKey e = k) q = Some e \<Longrightarrow> e \<in> set q \<and> mutationKey e = k"
  by (rule find_SomeD)

lemma entry_mutation_None_iff:
  "entry_mutation e = None \<longleftrightarrow> entry_slot True e = None \<and> entry_slot False e = None"
  by (auto simp: entry_mutation_def entry_slot_def nullish_alt_def split: option.splits)

lemma apply_entry_None: "entry_mutation e = None \<Longrightarrow> apply_entry d e = d"
  by (simp add: apply_entry_def)

text \<open>Dropping the entries of a key that holds no mutation does not change what a replay gives.\<close>

lemma replay_filter_None:
  assumes "\<forall>e\<in>set q. mutationKey e = k \<longrightarrow> entry_mutation e = None"
  shows "foldl apply_entry d (filter (\<lambda>e. mutationKey e \<noteq> k) q) = foldl apply_entry d q"
  using assms by (induction q arbitrary: d) (auto simp: apply_entry_None)

subsection \<open>Specification: the log of requests\<close>

text \<open>
  The log holds every request that was reserved and not cancelled, in the order of reservation, with
  the mutations its responses brought.  Its value replays them on the initial data.
\<close>

definition replay :: "'d \<Rightarrow> 'd mutation_entry list \<Rightarrow> 'd" where
  "replay d log = foldl apply_entry d log"

text \<open>
  A response is expected when its request is in the log, has not been finalized, and has not had a
  response of the same kind.  queryAndUpdate delivers expected responses only.
\<close>

definition log_add ::
  "nat \<Rightarrow> bool \<Rightarrow> 'd mutation \<Rightarrow> 'd mutation_entry list \<Rightarrow> 'd mutation_entry list option" where
  "log_add key certified mutation log =
     (case List.find (\<lambda>e. mutationKey e = key) log of
        None \<Rightarrow> None
      | Some e \<Rightarrow> if isFinal e \<or> entry_slot certified e \<noteq> None then None
          else Some (set_queue_slot key certified mutation log))"

definition log_cancel :: "nat \<Rightarrow> 'd mutation_entry list \<Rightarrow> 'd mutation_entry list option" where
  "log_cancel key log =
     (case List.find (\<lambda>e. mutationKey e = key) log of
        None \<Rightarrow> None
      | Some e \<Rightarrow> if entry_mutation e \<noteq> None then None
          else Some (filter (\<lambda>e. mutationKey e \<noteq> key) log))"

lemma log_add_commute:
  assumes "k \<noteq> k'" and "log_add k c m log = Some l1" and "log_add k' c' m' l1 = Some l2"
  shows "\<exists>l1'. log_add k' c' m' log = Some l1' \<and> log_add k c m l1' = Some l2"
proof -
  from assms(2) have l1: "l1 = set_queue_slot k c m log"
    by (auto simp: log_add_def split: option.splits if_splits)
  with assms(3) have l2: "l2 = set_queue_slot k' c' m' l1"
    and a: "log_add k' c' m' log = Some (set_queue_slot k' c' m' log)"
    using \<open>k \<noteq> k'\<close>
    by (auto simp: log_add_def find_set_queue_slot_other split: option.splits if_splits)
  have "log_add k c m (set_queue_slot k' c' m' log) =
      Some (set_queue_slot k c m (set_queue_slot k' c' m' log))"
    using assms(1,2)
    by (auto simp: log_add_def find_set_queue_slot_other split: option.splits if_splits)
  with a l1 l2 show ?thesis
    using set_queue_slot_commute[OF \<open>k \<noteq> k'\<close>] by metis
qed

locale mutation_store =
  fixes rel :: "'d \<Rightarrow> 'd mutation_entry list \<Rightarrow> 's \<Rightarrow> bool"
    and create :: "'d \<Rightarrow> 's"
    and reserve :: "QueryAndUpdateStrategy option \<Rightarrow> 's \<Rightarrow> nat \<times> 's"
    and add :: "nat \<Rightarrow> bool \<Rightarrow> 'd mutation \<Rightarrow> 's \<Rightarrow> 'e + 's"
    and drop_request :: "nat \<Rightarrow> 's \<Rightarrow> 'e + 's"
    and view :: "'s \<Rightarrow> 'd"
  assumes rel_create: "rel d [] (create d)"
    and rel_reserve: "\<lbrakk>rel d log st; reserve strat st = (k, st')\<rbrakk> \<Longrightarrow>
      k \<notin> mutationKey ` set log \<and> rel d (log @ [new_entry k strat]) st'"
    and rel_add: "\<lbrakk>rel d log st; log_add k c m log = Some log'\<rbrakk> \<Longrightarrow>
      \<exists>st'. add k c m st = Inr st' \<and> rel d log' st'"
    and rel_cancel: "\<lbrakk>rel d log st; log_cancel k log = Some log'\<rbrakk> \<Longrightarrow>
      \<exists>st'. drop_request k st = Inr st' \<and> rel d log' st'"
    and rel_view: "rel d log st \<Longrightarrow> view st = replay d log"
begin

text \<open>The order in which the responses of two requests arrive does not matter.\<close>

lemma responses_commute:
  assumes "rel d log st" and "k \<noteq> k'"
    and "log_add k c m log = Some l1" and "log_add k' c' m' l1 = Some l2"
  shows "\<exists>s1 s2 t1 t2. add k c m st = Inr s1 \<and> add k' c' m' s1 = Inr s2 \<and>
    add k' c' m' st = Inr t1 \<and> add k c m t1 = Inr t2 \<and> view s2 = view t2"
proof -
  from assms obtain s1 s2 where s: "add k c m st = Inr s1" "add k' c' m' s1 = Inr s2" "rel d l2 s2"
    using rel_add by meson
  from log_add_commute[OF assms(2-4)] obtain l1' where
    "log_add k' c' m' log = Some l1'" "log_add k c m l1' = Some l2"
    by blast
  with assms(1) obtain t1 t2 where
    "add k' c' m' st = Inr t1" "add k c m t1 = Inr t2" "rel d l2 t2"
    using rel_add by meson
  with s show ?thesis using rel_view by metis
qed

text \<open>When the youngest request with a response was a set, that is what subscribers see.\<close>

lemma youngest_set_wins:
  assumes "rel d (pre @ e # post) st" and "entry_mutation e = Some (\<lambda>_. x)"
    and "\<forall>e'\<in>set post. entry_mutation e' = None"
  shows "view st = x"
proof -
  have "foldl apply_entry x post = x"
    using assms(3) by (induction post) (auto simp: apply_entry_None)
  with assms show ?thesis
    by (simp add: rel_view replay_def apply_entry_def)
qed

lemma cancel_keeps_view:
  assumes "rel d log st" and "log_cancel k log = Some log'"
    and "distinct (map mutationKey log)"
  shows "\<exists>st'. drop_request k st = Inr st' \<and> view st' = view st"
proof -
  from assms(2) obtain e where e: "List.find (\<lambda>e. mutationKey e = k) log = Some e"
    "entry_mutation e = None" "log' = filter (\<lambda>e. mutationKey e \<noteq> k) log"
    by (auto simp: log_cancel_def split: option.splits if_splits)
  then have "\<forall>e'\<in>set log. mutationKey e' = k \<longrightarrow> entry_mutation e' = None"
    using assms(3) find_key_SomeD find_distinct_key[of mutationKey log]
    by (metis option.inject)
  with e have "replay d log' = replay d log" by (simp add: replay_def replay_filter_None)
  with assms(1,2) show ?thesis using rel_cancel rel_view by metis
qed

text \<open>A mutation on a request reserved just now is accepted, and applied to what subscribers see.\<close>

lemma fresh_add:
  assumes "rel d log st" and "reserve strat st = (k, st1)"
  shows "\<exists>st2 log2. add k c m st1 = Inr st2 \<and> rel d log2 st2 \<and> view st2 = m (view st)"
proof -
  let ?e = "set_entry_slot c m (new_entry k strat)"
  have k: "k \<notin> mutationKey ` set log" and r: "rel d (log @ [new_entry k strat]) st1"
    using rel_reserve [OF assms] by auto
  have "List.find (\<lambda>e. mutationKey e = k) (log @ [new_entry k strat]) = Some (new_entry k strat)"
    using find_key_append [OF k] by (simp add: new_entry_def)
  then have "log_add k c m (log @ [new_entry k strat]) = Some (log @ [?e])"
    using set_queue_slot_append [OF k] by (simp add: log_add_def isFinal_slot entry_slot_def new_entry_def)
  then obtain st2 where st2: "add k c m st1 = Inr st2" "rel d (log @ [?e]) st2" using rel_add [OF r] by blast
  moreover have "view st2 = m (view st)"
    unfolding rel_view [OF st2(2)] rel_view [OF assms(1)]
    by (simp add: replay_def apply_entry_def entry_mutation_def set_entry_slot_def new_entry_def nullish_alt_def)
  ultimately show ?thesis by blast
qed

end

text \<open>The entries that left the queue are the finalized front of the log.\<close>

definition queue_rel :: "'d \<Rightarrow> 'd mutation_entry list \<Rightarrow> 'd queued_store \<Rightarrow> bool" where
  "queue_rel d log st \<longleftrightarrow>
     (\<exists>done. log = done @ mutationQueue st \<and> (\<forall>e\<in>set done. isFinal e) \<and>
        certifiedData st = foldl apply_entry d done) \<and>
     exposed st = foldl apply_entry (certifiedData st) (mutationQueue st) \<and>
     distinct (map mutationKey log) \<and> (\<forall>e\<in>set log. mutationKey e < nextMutationKey st)"

lemma queue_rel_add:
  assumes rel: "queue_rel d log st" and add: "log_add k c m log = Some log'"
  shows "\<exists>st'. addMutation k c m st = Inr st' \<and> queue_rel d log' st'"
proof -
  from rel obtain don where d: "log = don @ mutationQueue st" "\<forall>e\<in>set don. isFinal e"
    "certifiedData st = foldl apply_entry d don" "distinct (map mutationKey log)"
    "\<forall>e\<in>set log. mutationKey e < nextMutationKey st"
    by (auto simp: queue_rel_def)
  from add obtain e where e: "List.find (\<lambda>e. mutationKey e = k) log = Some e" "\<not> isFinal e"
    "entry_slot c e = None" and log': "log' = set_queue_slot k c m log"
    by (auto simp: log_add_def split: option.splits if_splits)
  have k: "k \<notin> mutationKey ` set don"
  proof
    assume "k \<in> mutationKey ` set don"
    then obtain e' where "e' \<in> set don" "mutationKey e' = k" by auto
    then have "e' \<in> set log" by (simp add: d(1))
    with d(4) have "List.find (\<lambda>y. mutationKey y = mutationKey e') log = Some e'"
      by (rule find_distinct_key)
    with e(1) \<open>mutationKey e' = k\<close> have "e' = e" by simp
    with \<open>e' \<in> set don\<close> d(2) e(2) show False by simp
  qed
  then have f: "List.find (\<lambda>e. mutationKey e = k) (mutationQueue st) = Some e"
    using e(1) find_key_append[OF k, of "mutationQueue st"] by (simp add: d(1))
  obtain da q where aq: "apply_finalized (certifiedData st)
      (set_queue_slot k c m (mutationQueue st)) = (da, q)" by fastforce
  then obtain p where p: "set_queue_slot k c m (mutationQueue st) = p @ q" "\<forall>e\<in>set p. isFinal e"
    "da = foldl apply_entry (certifiedData st) p"
    using apply_finalized_split[OF aq] by auto
  define st' where "st' = updateExposedData (st\<lparr>certifiedData := da, mutationQueue := q\<rparr>)"
  have "addMutation k c m st = Inr st'"
    by (simp add: addMutation_def f e(3) aq st'_def)
  moreover have "log' = (don @ p) @ q"
    using log' d(1) p(1) k by (simp add: set_queue_slot_append)
  moreover have "map mutationKey log' = map mutationKey log" by (simp add: log')
  then have "distinct (map mutationKey log')" "\<forall>e\<in>set log'. mutationKey e < nextMutationKey st"
    using d(4,5) by (metis, metis (mono_tags, lifting) image_iff list.set_map)
  ultimately show ?thesis
    using d(2,3) p(2,3)
    by (intro exI[of _ st'])
      (auto simp: queue_rel_def st'_def updateExposedData_def intro!: exI[of _ "don @ p"])
qed

lemma queue_rel_cancel:
  assumes rel: "queue_rel d log st" and can: "log_cancel k log = Some log'"
  shows "\<exists>st'. cancel k st = Inr st' \<and> queue_rel d log' st'"
proof -
  let ?other = "filter (\<lambda>e. mutationKey e \<noteq> k)"
  from rel obtain don where d: "log = don @ mutationQueue st" "\<forall>e\<in>set don. isFinal e"
    "certifiedData st = foldl apply_entry d don" "distinct (map mutationKey log)"
    "\<forall>e\<in>set log. mutationKey e < nextMutationKey st"
    "exposed st = foldl apply_entry (certifiedData st) (mutationQueue st)"
    by (auto simp: queue_rel_def)
  from can obtain e where e: "List.find (\<lambda>e. mutationKey e = k) log = Some e"
    "entry_mutation e = None" and log': "log' = ?other log"
    by (auto simp: log_cancel_def split: option.splits if_splits)
  have uniq: "e' = e" if "e' \<in> set log" "mutationKey e' = k" for e'
    using find_distinct_key[OF d(4) that(1)] that(2) e(1) by simp
  then have no: "\<forall>e'\<in>set log. mutationKey e' = k \<longrightarrow> entry_mutation e' = None"
    using e(2) by blast
  have k: "k \<notin> mutationKey ` set don"
  proof
    assume "k \<in> mutationKey ` set don"
    then obtain e' where e': "e' \<in> set don" "mutationKey e' = k" by auto
    then have "isFinal e" using uniq d(1,2) by auto
    with e(2) show False
      by (cases "strategy e = QueryOnly") (auto simp: isFinal_slot entry_mutation_None_iff)
  qed
  then have f: "List.find (\<lambda>e. mutationKey e = k) (mutationQueue st) = Some e"
    using e(1) find_key_append[OF k, of "mutationQueue st"] by (simp add: d(1))
  have "?other don = don" using k by (auto intro: filter_True)
  then have l: "log' = don @ ?other (mutationQueue st)" by (simp add: log' d(1))
  have "foldl apply_entry (certifiedData st) (?other (mutationQueue st)) = exposed st"
    using no unfolding d(6) d(1) by (intro replay_filter_None) auto
  moreover have "distinct (map mutationKey log')" using d(4) by (simp add: log' distinct_map_filter)
  moreover have "\<forall>e\<in>set log'. mutationKey e < nextMutationKey st" using d(5) by (simp add: log')
  ultimately show ?thesis
    using d(2,3) l by (simp add: cancel_def f e(2) queue_rel_def)
qed

interpretation queued: mutation_store queue_rel queuedStore getSingleMutationStore addMutation
  cancel exposed
proof
  fix d :: 'd and log st
  show "queue_rel d [] (queuedStore d)"
    by (simp add: queue_rel_def queuedStore_def)
  show "queue_rel d log st \<Longrightarrow> exposed st = replay d log"
    by (auto simp: queue_rel_def replay_def)
next
  fix d :: 'd and log st strat k st'
  assume rel: "queue_rel d log st" and "getSingleMutationStore strat st = (k, st')"
  then have k: "k = nextMutationKey st"
    "st' = st\<lparr>nextMutationKey := k + 1, mutationQueue := mutationQueue st @ [new_entry k strat]\<rparr>"
    by (auto simp: getSingleMutationStore_def)
  with rel show "k \<notin> mutationKey ` set log \<and> queue_rel d (log @ [new_entry k strat]) st'"
    by (auto simp: queue_rel_def apply_entry_None entry_mutation_def new_entry_def less_Suc_eq)
qed (blast intro: queue_rel_add queue_rel_cancel)+

subsection \<open>Runs\<close>

text \<open>
  The states of a store whose callers deliver expected responses only, with the log of their
  requests.
\<close>

inductive store_run :: "'d \<Rightarrow> 'd mutation_entry list \<Rightarrow> 'd queued_store \<Rightarrow> bool" for d where
  created: "store_run d [] (queuedStore d)"
| reserved: "\<lbrakk>store_run d log st; getSingleMutationStore strat st = (k, st')\<rbrakk> \<Longrightarrow>
    store_run d (log @ [new_entry k strat]) st'"
| added: "\<lbrakk>store_run d log st; log_add k c m log = Some log'; addMutation k c m st = Inr st'\<rbrakk> \<Longrightarrow>
    store_run d log' st'"
| cancelled: "\<lbrakk>store_run d log st; log_cancel k log = Some log'; cancel k st = Inr st'\<rbrakk> \<Longrightarrow>
    store_run d log' st'"

lemma store_run_rel: "store_run d log st \<Longrightarrow> queue_rel d log st"
proof (induction rule: store_run.induct)
  case created
  show ?case by (rule queued.rel_create)
next
  case (reserved log st strat k st')
  with queued.rel_reserve[OF reserved.IH reserved.hyps(2)] show ?case by simp
next
  case (added log st k c m log' st')
  with queued.rel_add[OF added.IH added.hyps(2)] show ?case by auto
next
  case (cancelled log st k log' st')
  with queued.rel_cancel[OF cancelled.IH cancelled.hyps(2)] show ?case by auto
qed

lemma store_run_distinct: "store_run d log st \<Longrightarrow> distinct (map mutationKey log)"
  by (drule store_run_rel) (simp add: queue_rel_def)

text \<open>
  The states any sequence of method calls reaches, unexpected responses included (a call that throws
  leaves the state as it was).
\<close>

inductive store_calls :: "'d \<Rightarrow> 'd queued_store \<Rightarrow> bool" for d where
  start: "store_calls d (queuedStore d)"
| reserve: "\<lbrakk>store_calls d st; getSingleMutationStore strat st = (k, st')\<rbrakk> \<Longrightarrow> store_calls d st'"
| add: "\<lbrakk>store_calls d st; addMutation k c m st = Inr st'\<rbrakk> \<Longrightarrow> store_calls d st'"
| cancel: "\<lbrakk>store_calls d st; cancel k st = Inr st'\<rbrakk> \<Longrightarrow> store_calls d st'"
| reset: "store_calls d st \<Longrightarrow> store_calls d (resetForTesting d st)"
| set_data: "store_calls d st \<Longrightarrow> store_calls d (setForTesting data st)"

definition queue_inv :: "'d queued_store \<Rightarrow> bool" where
  "queue_inv st \<longleftrightarrow>
     exposed st = foldl apply_entry (certifiedData st) (mutationQueue st) \<and>
     sorted_wrt (<) (map mutationKey (mutationQueue st)) \<and>
     (\<forall>e\<in>set (mutationQueue st). mutationKey e < nextMutationKey st)"

lemma addMutation_InrE:
  assumes "addMutation k c m st = Inr st'"
  obtains e p q where "List.find (\<lambda>e. mutationKey e = k) (mutationQueue st) = Some e"
    "entry_slot c e = None" "set_queue_slot k c m (mutationQueue st) = p @ q"
    "\<forall>e\<in>set p. isFinal e" "q \<noteq> [] \<longrightarrow> \<not> isFinal (hd q)"
    "st' = st\<lparr>certifiedData := foldl apply_entry (certifiedData st) p, mutationQueue := q,
       exposed := foldl apply_entry (foldl apply_entry (certifiedData st) p) q\<rparr>"
proof -
  obtain da q where aq: "apply_finalized (certifiedData st)
      (set_queue_slot k c m (mutationQueue st)) = (da, q)" by fastforce
  obtain p where p: "set_queue_slot k c m (mutationQueue st) = p @ q" "\<forall>e\<in>set p. isFinal e"
    "da = foldl apply_entry (certifiedData st) p" "q \<noteq> [] \<longrightarrow> \<not> isFinal (hd q)"
    using apply_finalized_split[OF aq] by auto
  from assms obtain e where "List.find (\<lambda>e. mutationKey e = k) (mutationQueue st) = Some e"
    "entry_slot c e = None" "st' = updateExposedData (st\<lparr>certifiedData := da, mutationQueue := q\<rparr>)"
    by (auto simp: addMutation_def aq split: option.splits if_splits)
  with p that show ?thesis by (simp add: updateExposedData_def)
qed

lemma queue_inv_add: "queue_inv st \<Longrightarrow> addMutation k c m st = Inr st' \<Longrightarrow> queue_inv st'"
proof -
  assume inv: "queue_inv st" and add: "addMutation k c m st = Inr st'"
  from add obtain p q where pq: "set_queue_slot k c m (mutationQueue st) = p @ q"
    and st': "st' = st\<lparr>certifiedData := foldl apply_entry (certifiedData st) p, mutationQueue := q,
       exposed := foldl apply_entry (foldl apply_entry (certifiedData st) p) q\<rparr>"
    by (rule addMutation_InrE)
  have keys: "map mutationKey p @ map mutationKey q = map mutationKey (mutationQueue st)"
    using pq keys_set_queue_slot by (metis map_append)
  have "sorted_wrt (<) (map mutationKey p @ map mutationKey q)"
    using inv by (simp add: keys queue_inv_def)
  moreover have "\<forall>n\<in>set (map mutationKey p @ map mutationKey q). n < nextMutationKey st"
    using inv by (simp add: keys queue_inv_def)
  ultimately show ?thesis by (auto simp: queue_inv_def st' sorted_wrt_append)
qed

lemma queue_inv_cancel: "queue_inv st \<Longrightarrow> cancel k st = Inr st' \<Longrightarrow> queue_inv st'"
proof -
  assume inv: "queue_inv st" and can: "cancel k st = Inr st'"
  let ?q = "mutationQueue st"
  from can obtain e where e: "List.find (\<lambda>e. mutationKey e = k) ?q = Some e" "entry_mutation e = None"
    "st' = st\<lparr>mutationQueue := filter (\<lambda>e. mutationKey e \<noteq> k) ?q\<rparr>"
    by (auto simp: cancel_def split: option.splits if_splits)
  have "distinct (map mutationKey ?q)"
    using inv by (simp add: queue_inv_def strict_sorted_iff)
  then have "\<forall>e'\<in>set ?q. mutationKey e' = k \<longrightarrow> entry_mutation e' = None"
    using e(1,2) find_distinct_key[of mutationKey ?q] by (metis option.inject)
  then have "foldl apply_entry (certifiedData st) (filter (\<lambda>e. mutationKey e \<noteq> k) ?q) = exposed st"
    using inv by (simp add: replay_filter_None queue_inv_def)
  with inv e(3) show ?thesis
    by (auto simp: queue_inv_def sorted_wrt_map intro: sorted_wrt_filter)
qed

lemma store_calls_inv: "store_calls d st \<Longrightarrow> queue_inv st"
proof (induction rule: store_calls.induct)
  case (reserve st strat k st')
  then show ?case
    by (auto simp: queue_inv_def getSingleMutationStore_def new_entry_def sorted_wrt_append
        apply_entry_None entry_mutation_def less_Suc_eq)
next
  case (add st k c m st')
  then show ?case by (blast intro: queue_inv_add)
next
  case (cancel st k st')
  then show ?case by (blast intro: queue_inv_cancel)
qed (auto simp: queue_inv_def queuedStore_def resetForTesting_def setForTesting_def)

text \<open>Expected responses are accepted, and the store stays in a run.\<close>

lemma store_run_accepts:
  assumes "store_run d log st" and "log_add k c m log = Some log'"
  shows "\<exists>st'. addMutation k c m st = Inr st' \<and> store_run d log' st'"
proof -
  obtain st' where "addMutation k c m st = Inr st'"
    using queued.rel_add[OF store_run_rel[OF assms(1)] assms(2)] by blast
  with assms show ?thesis by (blast intro: store_run.added)
qed

subsection \<open>Properties\<close>

text \<open>
  A run used by the witnesses: two requests are reserved, then the query response of the younger one
  sets 2.
\<close>

definition example_log :: "nat mutation_entry list" where
  "example_log = [new_entry 1 None, set_entry_slot False (\<lambda>_. 2) (new_entry 2 None)]"

definition example_store :: "nat queued_store" where
  "example_store =
     \<lparr>certifiedData = 0, mutationQueue = example_log, exposed = 2, nextMutationKey = 3\<rparr>"

lemmas queue_eval = getSingleMutationStore_def queuedStore_def new_entry_def set_entry_slot_def
  entry_slot_def addMutation_def log_add_def isFinal.simps updateExposedData_def apply_entry_def
  entry_mutation_def

lemma example_run: "store_run 0 example_log example_store"
proof -
  have "store_run 0 ([] @ [new_entry 1 None]) (snd (getSingleMutationStore None (queuedStore (0::nat))))"
    by (rule store_run.reserved[OF store_run.created]) (simp add: queue_eval)
  then have "store_run 0 (([] @ [new_entry 1 None]) @ [new_entry 2 None])
      (snd (getSingleMutationStore None (snd (getSingleMutationStore None (queuedStore (0::nat))))))"
    by (rule store_run.reserved) (simp add: queue_eval)
  then show ?thesis
    by (rule store_run.added[where k = 2 and c = False and m = "\<lambda>_. 2"])
      (simp_all add: queue_eval example_log_def example_store_def)
qed

text \<open>
  C1: what subscribers of a queued store see is the replay, on the initial data and in the order in
  which the requests were made, of the best mutation (certified, else not) that each request has had
  so far, whatever the order in which the responses arrived.
\<close>

theorem queued_store_replays_log:
  assumes "store_run d log st"
  shows "exposed st = replay d log"
  using store_run_rel[OF assms] by (rule queued.rel_view)

theorem queued_store_replays_log_witness: "exposed example_store = replay 0 example_log"
  by (rule queued_store_replays_log[OF example_run])

text \<open>
  C2: the store never refuses an expected response: if the request is outstanding and has not had
  that kind of response, addMutation returns normally and the log is updated in its place.
\<close>

theorem queued_store_accepts_expected:
  assumes "store_run d log st" and "log_add k c m log = Some log'"
  shows "\<exists>st'. addMutation k c m st = Inr st' \<and> store_run d log' st'"
  using assms by (rule store_run_accepts)

theorem queued_store_accepts_expected_witness:
  "\<exists>st'. addMutation 1 True (\<lambda>_. 1) example_store = Inr st' \<and>
     store_run 0 (set_queue_slot 1 True (\<lambda>_. 1) example_log) st'"
  by (rule queued_store_accepts_expected[OF example_run])
    (simp add: example_log_def queue_eval)

text \<open>
  the responses of two different requests may arrive in either order: both orders are accepted
  and subscribers end up seeing the same data.
\<close>

lemma queued_store_order_independent:
  assumes "store_run d log st" and "k \<noteq> k'"
    and "log_add k c m log = Some la" and "log_add k' c' m' la = Some lb"
  shows "\<exists>s1 s2 t1 t2. addMutation k c m st = Inr s1 \<and> addMutation k' c' m' s1 = Inr s2 \<and>
    addMutation k' c' m' st = Inr t1 \<and> addMutation k c m t1 = Inr t2 \<and> exposed s2 = exposed t2"
  using store_run_rel[OF assms(1)] assms(2-4) by (rule queued.responses_commute)

theorem queued_store_order_independent_witness:
  "\<exists>s1 s2 t1 t2. addMutation 1 True (\<lambda>_. 1) example_store = Inr s1 \<and>
     addMutation 2 True (\<lambda>_. 5) s1 = Inr s2 \<and> addMutation 2 True (\<lambda>_. 5) example_store = Inr t1 \<and>
     addMutation 1 True (\<lambda>_. 1) t1 = Inr t2 \<and> exposed s2 = exposed t2"
  by (rule queued_store_order_independent[OF example_run,
        where la = "set_queue_slot 1 True (\<lambda>_. 1) example_log" and
          lb = "set_queue_slot 2 True (\<lambda>_. 5) (set_queue_slot 1 True (\<lambda>_. 1) example_log)"])
    (simp_all add: example_log_def queue_eval)

text \<open>
  after any sequence of calls, expected or not, a response that is accepted leaves a queue whose
  front still waits for its final response (finalized requests do not pile up behind a finalized
  front), whose keys are in the order of reservation, and whose replay on the certified data is what
  subscribers see.
\<close>

lemma queued_store_queue_drained:
  assumes "store_calls d st" and "addMutation k c m st = Inr st'"
  shows "(mutationQueue st' \<noteq> [] \<longrightarrow> \<not> isFinal (hd (mutationQueue st'))) \<and> queue_inv st'"
proof
  show "queue_inv st'" using store_calls_inv[OF assms(1)] assms(2) by (rule queue_inv_add)
  show "mutationQueue st' \<noteq> [] \<longrightarrow> \<not> isFinal (hd (mutationQueue st'))"
    using assms(2) by (elim addMutation_InrE) simp
qed

theorem queued_store_queue_drained_witness:
  "\<not> isFinal (new_entry 1 None :: nat mutation_entry) \<and> queue_inv example_store"
proof -
  let ?s1 = "snd (getSingleMutationStore None (queuedStore (0::nat)))"
  let ?s2 = "snd (getSingleMutationStore None ?s1)"
  have "store_calls 0 ?s1" by (rule store_calls.reserve[where strat = None and k = 1, OF store_calls.start])
      (simp add: queue_eval)
  then have "store_calls 0 ?s2" by (rule store_calls.reserve[where strat = None and k = 2]) (simp add: queue_eval)
  moreover have "addMutation 2 False (\<lambda>_. 2) ?s2 = Inr example_store"
    by (simp add: queue_eval example_store_def example_log_def)
  ultimately have "(mutationQueue example_store \<noteq> [] \<longrightarrow>
      \<not> isFinal (hd (mutationQueue example_store))) \<and> queue_inv example_store"
    by (rule queued_store_queue_drained)
  then show ?thesis by (simp add: example_store_def example_log_def)
qed

end
