(* ===== verification/QueryAndUpdate.thy ===== *)
theory QueryAndUpdate
  imports QueuedStore
begin

text \<open>
  frontend/src/lib/services/utils.services.ts: queryAndUpdate, which sends a query call, an update
  call or both, and forwards their responses until the certified one has been seen.

  The two calls settle in any order: a run of queryAndUpdate is the list of settlements, in the order
  in which the promises settle.  The callbacks are state transformers on the caller's state that may
  throw.  The log lines (and lastIndex, which only numbers them) are left out.
\<close>

subsection \<open>Choice of identity and strategy\<close>

datatype QueryAndUpdateIdentity = Authorized | Anonymous | Current

datatype qau_error = StrategyNotAllowedForAnonymous

text \<open>
  identities of the session: the anonymous one, the current one (anonymous when signed out) and the
  authenticated one, for which getAuthenticatedIdentity never resolves when there is none.
\<close>

record 'i identity_source =
  anonymousIdentity :: 'i
  currentIdentity :: 'i
  authenticatedIdentity :: "'i option"

definition qau_identity :: "'i identity_source \<Rightarrow> QueryAndUpdateIdentity \<Rightarrow> 'i option" where
  "qau_identity src identityType =
     (if identityType = Anonymous then Some (anonymousIdentity src)
      else if identityType = Current then Some (currentIdentity src)
      else authenticatedIdentity src)"

text \<open>
  None when the returned promise stays pending; otherwise the strategy error or the strategy in use
  and the certified flags of the requests that are sent.
\<close>

definition qau_requests :: "QueryAndUpdateStrategy \<Rightarrow> bool list" where
  "qau_requests currentStrategy =
     (if currentStrategy = QueryOnly then [False]
      else if currentStrategy = UpdateOnly then [True]
      else [False, True])"

definition qau_start ::
  "('i \<Rightarrow> bool) \<Rightarrow> 'i identity_source \<Rightarrow> QueryAndUpdateIdentity \<Rightarrow> QueryAndUpdateStrategy option
     \<Rightarrow> (qau_error + 'i \<times> QueryAndUpdateStrategy \<times> bool list) option" where
  "qau_start isAnonymous src identityType strat =
     (case qau_identity src identityType of
        None \<Rightarrow> None
      | Some i \<Rightarrow>
          if isAnonymous i \<and> strat \<noteq> None \<and> strat \<noteq> Some QueryOnly
          then Some (Inl StrategyNotAllowedForAnonymous)
          else let currentStrategy = (if isAnonymous i then QueryOnly
                                      else nullish_or strat QueryAndUpdate)
               in Some (Inr (i, currentStrategy, qau_requests currentStrategy)))"

subsection \<open>Settlement of a request\<close>

type_synonym ('x, 's, 'e) qau_callback = "bool \<Rightarrow> QueryAndUpdateStrategy \<Rightarrow> 'x \<Rightarrow> 's \<Rightarrow> 's \<times> 'e option"

text \<open>The catch handler: drop the error after the certified response, else report it.\<close>

definition qau_catch ::
  "('e, 's, 'e) qau_callback option \<Rightarrow> QueryAndUpdateStrategy \<Rightarrow> bool \<Rightarrow> 'e \<Rightarrow> bool \<times> 's
     \<Rightarrow> (bool \<times> 's) \<times> 'e option" where
  "qau_catch onError currentStrategy certified error st =
     (let (certifiedDone, s) = st in
      if certifiedDone then (st, None)
      else
        (case onError of
           None \<Rightarrow> ((certifiedDone \<or> certified, s), None)
         | Some f \<Rightarrow>
             let (s', thrown) = f certified currentStrategy error s
             in ((certifiedDone \<or> certified, s'), thrown)))"

text \<open>
  The then and catch handlers of queryOrUpdate, run when the request settles.  The second component
  of the result is the error the promise of this request is rejected with, if any.
\<close>

fun queryOrUpdate ::
  "('r, 's, 'e) qau_callback \<Rightarrow> ('e, 's, 'e) qau_callback option \<Rightarrow> QueryAndUpdateStrategy
     \<Rightarrow> bool \<Rightarrow> 'e + 'r \<Rightarrow> bool \<times> 's \<Rightarrow> (bool \<times> 's) \<times> 'e option" where
  "queryOrUpdate onLoad onError currentStrategy certified (Inr response) (certifiedDone, s) =
     (if certifiedDone then ((certifiedDone, s), None)
      else
        (case onLoad certified currentStrategy response s of
           (s', None) \<Rightarrow> ((certifiedDone \<or> certified, s'), None)
         | (s', Some error) \<Rightarrow>
             qau_catch onError currentStrategy certified error (certifiedDone \<or> certified, s')))"
| "queryOrUpdate onLoad onError currentStrategy certified (Inl error) st =
     qau_catch onError currentStrategy certified error st"

text \<open>
  All settlements so far, in their order; the returned promise (Promise.race) settles as the first
  one does.
\<close>

fun qau_settle ::
  "('r, 's, 'e) qau_callback \<Rightarrow> ('e, 's, 'e) qau_callback option \<Rightarrow> QueryAndUpdateStrategy
     \<Rightarrow> (bool \<times> ('e + 'r)) list \<Rightarrow> bool \<times> 's \<Rightarrow> bool \<times> 's" where
  "qau_settle onLoad onError currentStrategy [] st = st"
| "qau_settle onLoad onError currentStrategy ((certified, outcome) # rest) st =
     qau_settle onLoad onError currentStrategy rest
       (fst (queryOrUpdate onLoad onError currentStrategy certified outcome st))"

definition qau_race ::
  "('r, 's, 'e) qau_callback \<Rightarrow> ('e, 's, 'e) qau_callback option \<Rightarrow> QueryAndUpdateStrategy
     \<Rightarrow> (bool \<times> ('e + 'r)) list \<Rightarrow> 's \<Rightarrow> ('e option) option" where
  "qau_race onLoad onError currentStrategy settlements s =
     (case settlements of
        [] \<Rightarrow> None
      | (certified, outcome) # _ \<Rightarrow>
          Some (snd (queryOrUpdate onLoad onError currentStrategy certified outcome (False, s))))"

subsection \<open>What the caller is told\<close>

text \<open>A caller whose state records the callbacks it gets.\<close>

datatype ('r, 'e) callback = Loaded bool 'r | Failed bool 'e

definition record_load :: "('r, ('r, 'e) callback list, 'e) qau_callback" where
  "record_load certified currentStrategy response s = (s @ [Loaded certified response], None)"

definition record_error :: "('e, ('r, 'e) callback list, 'e) qau_callback" where
  "record_error certified currentStrategy error s = (s @ [Failed certified error], None)"

definition callbacks :: "QueryAndUpdateStrategy \<Rightarrow> (bool \<times> ('e + 'r)) list \<Rightarrow> ('r, 'e) callback list" where
  "callbacks strat settlements =
     snd (qau_settle record_load (Some record_error) strat settlements (False, []))"

fun to_callback :: "bool \<times> ('e + 'r) \<Rightarrow> ('r, 'e) callback" where
  "to_callback (c, Inr r) = Loaded c r"
| "to_callback (c, Inl e) = Failed c e"

text \<open>The settlements up to and including the first certified one.\<close>

fun until_certified :: "(bool \<times> 'x) list \<Rightarrow> (bool \<times> 'x) list" where
  "until_certified [] = []"
| "until_certified (x # xs) = (if fst x then [x] else x # until_certified xs)"

lemma queryOrUpdate_done: "queryOrUpdate onLoad onError strat c out (True, s) = ((True, s), None)"
  by (cases out) (simp_all add: qau_catch_def)

lemma queryOrUpdate_record:
  "fst (queryOrUpdate record_load (Some record_error) strat c out (False, cbs)) =
     (c, cbs @ [to_callback (c, out)])"
  by (cases out) (simp_all add: qau_catch_def record_load_def record_error_def)

lemma qau_settle_done: "qau_settle onLoad onError strat xs (True, s) = (True, s)"
  by (induction xs) (auto simp: queryOrUpdate_done)

lemma qau_settle_callbacks:
  "snd (qau_settle record_load (Some record_error) strat xs (False, cbs)) =
     cbs @ map to_callback (until_certified xs)"
proof (induction xs arbitrary: cbs)
  case Nil
  then show ?case by simp
next
  case (Cons x xs)
  obtain c out where x: "x = (c, out)" by (cases x)
  show ?case by (cases c) (simp_all add: x Cons.IH qau_settle_done queryOrUpdate_record)
qed

text \<open>What both callbacks keep, a run keeps, whatever settles when.\<close>

lemma qau_catch_invariant:
  assumes "\<And>c e s. P s \<Longrightarrow> P (fst (onError c strat e s))" "P s"
  shows "P (snd (fst (qau_catch (Some onError) strat c error (d, s))))"
  using assms(1) [OF assms(2), of c error] assms(2)
  by (cases "onError c strat error s") (simp add: qau_catch_def)

lemma queryOrUpdate_invariant:
  assumes load: "\<And>x. outcome = Inr x \<Longrightarrow> P (fst (onLoad c strat x s))"
    and error: "\<And>c e s. P s \<Longrightarrow> P (fst (onError c strat e s))" and "P s"
  shows "P (snd (fst (queryOrUpdate onLoad (Some onError) strat c outcome (d, s))))"
proof (cases outcome)
  case (Inl e)
  have "P (snd (fst (qau_catch (Some onError) strat c e (d, s))))"
    using error \<open>P s\<close> by (rule qau_catch_invariant)
  then show ?thesis by (simp add: Inl)
next
  case (Inr x)
  obtain s' t where r: "onLoad c strat x s = (s', t)" by force
  then have "P s'" using load [OF Inr] by simp
  have "P (snd (fst (qau_catch (Some onError) strat c error (b, s'))))" for error b
    using error \<open>P s'\<close> by (rule qau_catch_invariant)
  with \<open>P s'\<close> \<open>P s\<close> show ?thesis
    by (cases t) (simp_all add: Inr r)
qed

lemma qau_settle_invariant:
  assumes "\<And>c x s. (c, Inr x) \<in> set settlements \<Longrightarrow> P s \<Longrightarrow> P (fst (onLoad c strat x s))"
    and "\<And>c e s. P s \<Longrightarrow> P (fst (onError c strat e s))" "P s"
  shows "P (snd (qau_settle onLoad (Some onError) strat settlements (d, s)))"
  using assms(1,3)
proof (induction settlements arbitrary: d s)
  case (Cons e settlements)
  obtain c outcome where e: "e = (c, outcome)" by force
  let ?r = "fst (queryOrUpdate onLoad (Some onError) strat c outcome (d, s))"
  have "P (snd ?r)"
    by (rule queryOrUpdate_invariant) (use Cons.prems e assms(2) in auto)
  then have "P (snd (qau_settle onLoad (Some onError) strat settlements (fst ?r, snd ?r)))"
    using Cons.prems(1) by (intro Cons.IH) auto
  then show ?case by (simp add: e)
qed simp

lemma until_certified_unique:
  assumes "distinct (map fst xs)" and "(True, x) \<in> set xs"
  shows "\<exists>ys. until_certified xs = ys @ [(True, x)] \<and> (\<forall>y\<in>set ys. \<not> fst y)"
  using assms
proof (induction xs)
  case Nil
  then show ?case by simp
next
  case (Cons y ys)
  show ?case
  proof (cases "fst y")
    case True
    with Cons.prems have "y = (True, x)" by (cases y) force
    then show ?thesis by simp
  next
    case False
    with Cons.prems have "(True, x) \<in> set ys" by (cases y) auto
    with Cons obtain zs where "until_certified ys = zs @ [(True, x)]" "\<forall>z\<in>set zs. \<not> fst z"
      by auto
    with False show ?thesis by (intro exI[of _ "y # zs"]) simp
  qed
qed

subsection \<open>Properties\<close>

text \<open>
  the caller of queryAndUpdate is told exactly the settlements up to and including the first
  certified one, in their order, as onLoad for a response and onError for an error: nothing reaches it
  after the certified answer, and a query answer that comes late is dropped.
\<close>

lemma queryAndUpdate_forwards_until_certified:
  "callbacks strat settlements = map to_callback (until_certified settlements)"
  by (simp add: callbacks_def qau_settle_callbacks)

text \<open>
  once the certified request of a run has settled, its outcome is the last thing the caller was
  told, and everything it was told before is uncertified.
\<close>

lemma queryAndUpdate_certified_is_last:
  assumes "distinct (map fst settlements)" and "(True, outcome) \<in> set settlements"
  shows "\<exists>before. callbacks strat settlements = map to_callback (before @ [(True, outcome)]) \<and>
    (\<forall>b\<in>set before. \<not> fst b)"
  using until_certified_unique[OF assms]
  by (auto simp: callbacks_def qau_settle_callbacks)

lemma queryAndUpdate_certified_is_last_witness:
  "\<exists>before. callbacks QueryAndUpdate [(True, Inr ''u''), (False, Inl (0::nat))] =
      map to_callback (before @ [(True, Inr ''u'')]) \<and> (\<forall>b\<in>set before. \<not> fst b)"
  by (rule queryAndUpdate_certified_is_last) auto

text \<open>
  What one settlement makes of the caller's state.  A callback for a response that throws is followed by the one for
  errors, unless the response was certified: then its error is dropped.
\<close>

fun report :: "('e, 's, 'e) qau_callback option \<Rightarrow> QueryAndUpdateStrategy \<Rightarrow> bool \<Rightarrow> 'e \<Rightarrow> 's \<Rightarrow> 's" where
  "report None strat certified e s = s"
| "report (Some onError) strat certified e s = fst (onError certified strat e s)"

fun tell ::
  "('r, 's, 'e) qau_callback \<Rightarrow> ('e, 's, 'e) qau_callback option \<Rightarrow> QueryAndUpdateStrategy \<Rightarrow> bool \<times> ('e + 'r) \<Rightarrow> 's \<Rightarrow> 's" where
  "tell onLoad onError strat (certified, Inr r) s =
     (case onLoad certified strat r s of
        (s', None) \<Rightarrow> s'
      | (s', Some e) \<Rightarrow> if certified then s' else report onError strat False e s')"
| "tell onLoad onError strat (certified, Inl e) s = report onError strat certified e s"

lemma settle_tells:
  "fst (queryOrUpdate onLoad onError strat c out (False, s)) = (c, tell onLoad onError strat (c, out) s)"
  by (cases out; cases onError) (auto simp: qau_catch_def split: prod.splits option.splits)

text \<open>
  C3: For any callbacks of the caller, which may throw, and any order of the settlements, queryAndUpdate changes the
  caller's state exactly as telling it, one after the other, every settlement up to and including the first certified
  one: nothing reaches the caller after the certified answer, a late answer of the query is dropped, and an error that
  the callback of the certified response throws is dropped with it.
\<close>

theorem queryAndUpdate_tells_until_certified:
  "qau_settle onLoad onError strat settlements (False, s) =
     (True \<in> fst ` set settlements, foldl (\<lambda>s x. tell onLoad onError strat x s) s (until_certified settlements))"
proof (induction settlements arbitrary: s)
  case (Cons x settlements)
  obtain c out where x: "x = (c, out)" by force
  show ?case
    by (cases c) (auto simp: x settle_tells qau_settle_done Cons.IH simp del: queryOrUpdate.simps)
qed simp

end
