(* ===== verification/NnsTypes.thy ===== *)
theory NnsTypes
  imports Prelude
begin

text \<open>
  The values the frontend gets from the NNS client library (@dfinity/nns): neurons, ballots,
  proposals.  Only the fields the frontend reads are kept.  A record field has the name of the source
  field behind a short prefix for its type (ni for NeuronInfo, fn for Neuron, bi for BallotInfo, b for
  Ballot, pi for ProposalInfo).  Principals, account identifiers and canister ids are their texts.
\<close>

datatype Vote = VoteUnspecified | VoteYes | VoteNo

datatype Topic =
    TopicUnspecified | NeuronManagement | ExchangeRate | NetworkEconomics | Governance | NodeAdmin
  | ParticipantManagement | SubnetManagement | NetworkCanisterManagement | Kyc
  | NodeProviderRewards | SnsDecentralizationSale | IcOsVersionDeployment | IcOsVersionElection
  | SnsAndCommunityFund | ApiBoundaryNodeManagement | SubnetRental | ProtocolCanisterManagement
  | ServiceNervousSystemManagement | OtherTopic int

datatype ProposalStatus =
    StatusUnknown | StatusOpen | StatusRejected | StatusAccepted | StatusExecuted | StatusFailed
  | OtherStatus int

datatype NeuronState = StateUnspecified | Locked | Dissolving | Dissolved | Spawning

datatype NeuronType = SeedNeuron | EctNeuron | OtherNeuronType int

datatype NeuronVisibility = VisibilityUnspecified | VisibilityPrivate | VisibilityPublic

datatype DissolveState = DissolveDelaySeconds int | WhenDissolvedTimestampSeconds int

record Followees =
  fo_topic :: Topic
  fo_followees :: "int list"

record Neuron =
  fn_accountIdentifier :: string
  fn_controller :: "string option"
  fn_hotKeys :: "string list"
  fn_cachedNeuronStake :: int
  fn_neuronFees :: int
  fn_maturityE8sEquivalent :: int
  fn_stakedMaturityE8sEquivalent :: "int option"
  fn_autoStakeMaturity :: "bool option"
  fn_dissolveState :: "DissolveState option"
  fn_spawnAtTimesSeconds :: "int option"
  fn_followees :: "Followees list"
  fn_votingPowerRefreshedTimestampSeconds :: "int option"

record BallotInfo =
  bi_vote :: Vote
  bi_proposalId :: "int option"

record NeuronInfo =
  ni_neuronId :: int
  ni_dissolveDelaySeconds :: int
  ni_ageSeconds :: int
  ni_createdTimestampSeconds :: int
  ni_state :: NeuronState
  ni_neuronType :: "NeuronType option"
  ni_visibility :: "NeuronVisibility option"
  ni_joinedCommunityFundTimestampSeconds :: "int option"
  ni_recentBallots :: "BallotInfo list"
  ni_votingPower :: int
  ni_fullNeuron :: "Neuron option"

record Ballot =
  b_neuronId :: int
  b_vote :: Vote
  b_votingPower :: int

text \<open>latestTally may come without its other fields after an optimistic update, hence the options.\<close>

record Tally =
  t_yes :: int
  t_no :: int
  t_total :: "int option"
  t_timestampSeconds :: "int option"

record ProposalInfo =
  pi_id :: "int option"
  pi_ballots :: "Ballot list"
  pi_topic :: Topic
  pi_status :: ProposalStatus
  pi_latestTally :: "Tally option"
  pi_deadlineTimestampSeconds :: "int option"
  pi_proposalTimestampSeconds :: int

text \<open>A neuron without private data, the base of the examples.\<close>

definition plain_neuron :: "int \<Rightarrow> NeuronInfo" where
  "plain_neuron i = \<lparr>ni_neuronId = i, ni_dissolveDelaySeconds = 0, ni_ageSeconds = 0,
     ni_createdTimestampSeconds = 0, ni_state = Locked, ni_neuronType = None, ni_visibility = None,
     ni_joinedCommunityFundTimestampSeconds = None, ni_recentBallots = [], ni_votingPower = 0,
     ni_fullNeuron = None\<rparr>"

definition plain_full :: "string \<Rightarrow> int \<Rightarrow> Neuron" where
  "plain_full c stake = \<lparr>fn_accountIdentifier = c, fn_controller = Some c, fn_hotKeys = [], fn_cachedNeuronStake = stake,
     fn_neuronFees = 0, fn_maturityE8sEquivalent = 0, fn_stakedMaturityE8sEquivalent = None,
     fn_autoStakeMaturity = None, fn_dissolveState = None, fn_spawnAtTimesSeconds = None,
     fn_followees = [], fn_votingPowerRefreshedTimestampSeconds = None\<rparr>"

definition plain_proposal :: "int \<Rightarrow> ProposalInfo" where
  "plain_proposal i = \<lparr>pi_id = Some i, pi_ballots = [], pi_topic = Governance,
     pi_status = StatusOpen, pi_latestTally = None, pi_deadlineTimestampSeconds = None,
     pi_proposalTimestampSeconds = 0\<rparr>"

end
