(* ===== verification/Proposals.thy ===== *)
theory Proposals
  imports NnsTypes Comparators QueuedStore
begin

text \<open>
  frontend/src/lib/utils/proposals.utils.ts (filters, ballots, list merging, deadlines, optimistic
  votes, ordering) and frontend/src/lib/stores/proposals.store.ts, whose mutations run on the queued
  store.
\<close>

subsection \<open>Filters and lookups\<close>

text \<open>The last element of an array, undefined when it is empty.\<close>

definition lastProposalId :: "ProposalInfo list \<Rightarrow> int option" where
  "lastProposalId proposalInfos =
     (if proposalInfos = [] then None else pi_id (last proposalInfos))"

record ProposalsFiltersStore =
  pf_topics :: "Topic list"
  pf_status :: "ProposalStatus list"

definition matchFilters :: "ProposalInfo \<Rightarrow> ProposalsFiltersStore \<Rightarrow> bool" where
  "matchFilters proposalInfo filters \<longleftrightarrow>
     (pf_topics filters = [] \<or> pi_topic proposalInfo \<in> set (pf_topics filters)) \<and>
     (pf_status filters = [] \<or> pi_status proposalInfo \<in> set (pf_status filters))"

definition hideProposal :: "ProposalInfo \<Rightarrow> ProposalsFiltersStore \<Rightarrow> bool" where
  "hideProposal proposalInfo filters = (\<not> matchFilters proposalInfo filters)"

definition hasMatchingProposals :: "ProposalInfo list \<Rightarrow> ProposalsFiltersStore \<Rightarrow> bool" where
  "hasMatchingProposals proposals filters =
     (if proposals = [] then False
      else List.find (\<lambda>proposalInfo. \<not> hideProposal proposalInfo filters) proposals \<noteq> None)"

definition getVotingBallot :: "int \<Rightarrow> ProposalInfo \<Rightarrow> Ballot option" where
  "getVotingBallot neuronId proposalInfo =
     List.find (\<lambda>ballot. b_neuronId ballot = neuronId) (pi_ballots proposalInfo)"

definition getVotingPower :: "NeuronInfo \<Rightarrow> ProposalInfo \<Rightarrow> int" where
  "getVotingPower neuron proposal =
     nullish_or (map_option b_votingPower (getVotingBallot (ni_neuronId neuron) proposal))
       (ni_votingPower neuron)"

record VotingNeuron =
  vn_neuronIdString :: string
  vn_votingPower :: int

definition selectedNeuronsVotingPower :: "VotingNeuron list \<Rightarrow> string list \<Rightarrow> int" where
  "selectedNeuronsVotingPower neurons selectedIds =
     reduce_sum (map vn_votingPower
       (filter (\<lambda>n. vn_neuronIdString n \<in> set selectedIds) neurons))"

definition preserveNeuronSelectionAfterUpdate ::
  "string list \<Rightarrow> VotingNeuron list \<Rightarrow> VotingNeuron list \<Rightarrow> string list" where
  "preserveNeuronSelectionAfterUpdate selectedIds neurons updatedNeurons =
     (let newIds = set_insertion_order (map vn_neuronIdString updatedNeurons);
          oldIds = set_insertion_order (map vn_neuronIdString neurons);
          preservedSelection = filter (\<lambda>id. id \<in> set newIds) selectedIds;
          newNeuronsSelection = filter (\<lambda>id. id \<notin> set oldIds) newIds
      in preservedSelection @ newNeuronsSelection)"

definition nnsNeuronToVotingNeuron :: "NeuronInfo \<Rightarrow> ProposalInfo \<Rightarrow> VotingNeuron" where
  "nnsNeuronToVotingNeuron neuron proposal =
     \<lparr>vn_neuronIdString = int_to_string (ni_neuronId neuron),
      vn_votingPower = getVotingPower neuron proposal\<rparr>"

subsection \<open>Merging lists of proposals\<close>

definition proposalIdSet :: "ProposalInfo list \<Rightarrow> int list" where
  "proposalIdSet proposals = set_insertion_order (List.map_filter pi_id proposals)"

definition excludeProposals :: "ProposalInfo list \<Rightarrow> ProposalInfo list \<Rightarrow> ProposalInfo list" where
  "excludeProposals proposals exclusion =
     (let excludeIds = proposalIdSet exclusion
      in filter (\<lambda>p. \<not> (\<exists>i\<in>set excludeIds. pi_id p = Some i)) proposals)"

definition concatenateUniqueProposals ::
  "ProposalInfo list \<Rightarrow> ProposalInfo list \<Rightarrow> ProposalInfo list" where
  "concatenateUniqueProposals oldProposals newProposals =
     oldProposals @ excludeProposals newProposals oldProposals"

definition replaceProposals ::
  "ProposalInfo list \<Rightarrow> ProposalInfo list \<Rightarrow> ProposalInfo list" where
  "replaceProposals oldProposals newProposals =
     map (\<lambda>oldProposal.
       nullish_or (List.find (\<lambda>p. pi_id p = pi_id oldProposal) newProposals) oldProposal)
       oldProposals"

definition replaceAndConcatenateProposals ::
  "ProposalInfo list \<Rightarrow> ProposalInfo list \<Rightarrow> ProposalInfo list" where
  "replaceAndConcatenateProposals oldProposals newProposals =
     (let updatedProposals = map (\<lambda>stateProposal.
            nullish_or (List.find (\<lambda>p. pi_id stateProposal = pi_id p) newProposals) stateProposal)
            oldProposals;
          newStateProposalsIds = map pi_id updatedProposals;
          brandNewProposals = filter (\<lambda>p. pi_id p \<notin> set newStateProposalsIds) newProposals
      in concatenateUniqueProposals updatedProposals brandNewProposals)"

text \<open>
  ids.sort().join(): the default sort compares the string forms and puts undefined last; join writes
  undefined as the empty string.
\<close>

definition compare_as_strings :: "int comparator_fun" where
  "compare_as_strings = createAscendingComparator int_to_string"

definition sorted_ids_joined :: "int option list \<Rightarrow> string" where
  "sorted_ids_joined ids =
     join_with '','' (map int_to_string (js_sort compare_as_strings (List.map_filter (\<lambda>x. x) ids)) @
       replicate (length (filter (\<lambda>x. x = None) ids)) [])"

definition proposalsHaveSameIds :: "ProposalInfo list \<Rightarrow> ProposalInfo list \<Rightarrow> bool" where
  "proposalsHaveSameIds proposalsA proposalsB \<longleftrightarrow>
     sorted_ids_joined (map pi_id proposalsA) = sorted_ids_joined (map pi_id proposalsB)"

subsection \<open>Deadlines, in milliseconds\<close>

definition SHORT_VOTING_PERIOD_SECONDS :: int where
  "SHORT_VOTING_PERIOD_SECONDS = 60 * 60 * 12"

definition WAIT_FOR_QUIET_THRESHOLD_SECONDS :: int where
  "WAIT_FOR_QUIET_THRESHOLD_SECONDS = 60 * 60 * 24 * 4"

definition votingPeriodEndFallback :: "ProposalInfo \<Rightarrow> int" where
  "votingPeriodEndFallback p =
     (let durationInSeconds =
            (if pi_topic p \<in> set [NeuronManagement, ExchangeRate] then SHORT_VOTING_PERIOD_SECONDS
             else WAIT_FOR_QUIET_THRESHOLD_SECONDS)
      in pi_proposalTimestampSeconds p * 1000 + durationInSeconds * 1000)"

definition votingPeriodEnd :: "ProposalInfo \<Rightarrow> int" where
  "votingPeriodEnd p =
     (case pi_deadlineTimestampSeconds p of
        None \<Rightarrow> votingPeriodEndFallback p
      | Some deadlineTimestampSeconds \<Rightarrow> deadlineTimestampSeconds * 1000)"

definition isProposalDeadlineInTheFuture :: "int \<Rightarrow> ProposalInfo \<Rightarrow> bool" where
  "isProposalDeadlineInTheFuture date_now proposalInfo \<longleftrightarrow> votingPeriodEnd proposalInfo \<ge> date_now"

subsection \<open>Optimistic vote\<close>

definition updateProposalVote :: "ProposalInfo \<Rightarrow> NeuronInfo \<Rightarrow> Vote \<Rightarrow> ProposalInfo" where
  "updateProposalVote proposalInfo neuron vote =
     (let votedBallot = \<lparr>b_neuronId = ni_neuronId neuron, b_vote = vote,
            b_votingPower = ni_votingPower neuron\<rparr>;
          tally = pi_latestTally proposalInfo;
          yes = nullish_or (map_option t_yes tally) 0;
          no = nullish_or (map_option t_no tally) 0
      in proposalInfo\<lparr>
           pi_ballots := filter (\<lambda>b. b_neuronId b \<noteq> ni_neuronId neuron) (pi_ballots proposalInfo) @
             [votedBallot],
           pi_latestTally := Some \<lparr>
             t_yes = (if vote = VoteYes then yes + ni_votingPower neuron else yes),
             t_no = (if vote = VoteNo then no + ni_votingPower neuron else no),
             t_total = Option.bind tally t_total,
             t_timestampSeconds = Option.bind tally t_timestampSeconds\<rparr>\<rparr>)"

subsection \<open>Status and order\<close>

datatype UniversalProposalStatus =
  UpUnknown | UpOpen | UpRejected | UpAdopted | UpExecuted | UpFailed

text \<open>The table lookup throws for a status that is not in the table.\<close>

fun getUniversalProposalStatus :: "ProposalInfo \<Rightarrow> ProposalStatus + UniversalProposalStatus" where
  "getUniversalProposalStatus proposal =
     (case pi_status proposal of
        StatusUnknown \<Rightarrow> Inr UpUnknown
      | StatusOpen \<Rightarrow> Inr UpOpen
      | StatusRejected \<Rightarrow> Inr UpRejected
      | StatusAccepted \<Rightarrow> Inr UpAdopted
      | StatusExecuted \<Rightarrow> Inr UpExecuted
      | StatusFailed \<Rightarrow> Inr UpFailed
      | OtherStatus n \<Rightarrow> Inl (OtherStatus n))"

record ProposalsNavigationId =
  nav_proposalId :: int
  nav_universe :: string

definition navigationIdComparator :: "string list \<Rightarrow> ProposalsNavigationId comparator_fun" where
  "navigationIdComparator universes a b =
     (let aUniverseIndex = js_indexOf universes (nav_universe a);
          bUniverseIndex = js_indexOf universes (nav_universe b)
      in if aUniverseIndex > bUniverseIndex then 1
         else if aUniverseIndex < bUniverseIndex then -1
         else if nav_proposalId a < nav_proposalId b then 1
         else if nav_proposalId a > nav_proposalId b then -1
         else 0)"

definition compare_proposal_ids :: "ProposalInfo comparator_fun" where
  "compare_proposal_ids a b =
     (let idA = nullish_or (pi_id a) 0; idB = nullish_or (pi_id b) 0
      in if idB > idA then 1 else if idB < idA then -1 else 0)"

definition sortProposalsByIdDescendingOrder :: "ProposalInfo list \<Rightarrow> ProposalInfo list" where
  "sortProposalsByIdDescendingOrder proposals = js_sort compare_proposal_ids proposals"

subsection \<open>proposals.store.ts\<close>

record ProposalsStore =
  ps_proposals :: "ProposalInfo list"
  ps_certified :: "bool option"

definition initProposalsStore :: "ProposalsStore queued_store" where
  "initProposalsStore = queuedStore \<lparr>ps_proposals = [], ps_certified = None\<rparr>"

definition setProposals ::
  "nat \<Rightarrow> ProposalInfo list \<Rightarrow> bool \<Rightarrow> ProposalsStore queued_store
     \<Rightarrow> queue_error + ProposalsStore queued_store" where
  "setProposals key proposals certified =
     single_set key \<lparr>ps_proposals = proposals, ps_certified = Some certified\<rparr> certified"

definition removeProposals_mutation :: "ProposalInfo list \<Rightarrow> ProposalsStore mutation" where
  "removeProposals_mutation proposalsToRemove data =
     \<lparr>ps_proposals = excludeProposals (ps_proposals data) proposalsToRemove,
      ps_certified = ps_certified data\<rparr>"

definition removeProposals ::
  "nat \<Rightarrow> ProposalInfo list \<Rightarrow> bool \<Rightarrow> ProposalsStore queued_store
     \<Rightarrow> queue_error + ProposalsStore queued_store" where
  "removeProposals key proposalsToRemove certified =
     single_update key (removeProposals_mutation proposalsToRemove) certified"

definition pushProposals_mutation :: "ProposalInfo list \<Rightarrow> bool \<Rightarrow> ProposalsStore mutation" where
  "pushProposals_mutation proposals certified data =
     \<lparr>ps_proposals = (if certified = True
        then replaceAndConcatenateProposals (ps_proposals data) proposals
        else concatenateUniqueProposals (ps_proposals data) proposals),
      ps_certified = Some certified\<rparr>"

definition pushProposals ::
  "nat \<Rightarrow> ProposalInfo list \<Rightarrow> bool \<Rightarrow> ProposalsStore queued_store
     \<Rightarrow> queue_error + ProposalsStore queued_store" where
  "pushProposals key proposals certified =
     single_update key (pushProposals_mutation proposals certified) certified"

text \<open>oldCertified && newCertified, where oldCertified may be undefined\<close>

definition replaceProposals_mutation :: "ProposalInfo list \<Rightarrow> bool \<Rightarrow> ProposalsStore mutation" where
  "replaceProposals_mutation proposals newCertified data =
     \<lparr>ps_proposals = replaceProposals (ps_proposals data) proposals,
      ps_certified = (case ps_certified data of None \<Rightarrow> None
        | Some oldCertified \<Rightarrow> Some (oldCertified \<and> newCertified))\<rparr>"

definition replaceProposals_store ::
  "nat \<Rightarrow> ProposalInfo list \<Rightarrow> bool \<Rightarrow> ProposalsStore queued_store
     \<Rightarrow> queue_error + ProposalsStore queued_store" where
  "replaceProposals_store key proposals newCertified =
     single_update key (replaceProposals_mutation proposals newCertified) newCertified"

definition setProposalsForTesting ::
  "ProposalInfo list \<Rightarrow> bool \<Rightarrow> ProposalsStore queued_store
     \<Rightarrow> queue_error + ProposalsStore queued_store" where
  "setProposalsForTesting proposals certified st =
     (let (key, st') = getSingleMutationStore None st in setProposals key proposals certified st')"

definition DEFAULT_PROPOSALS_FILTERS :: ProposalsFiltersStore where
  "DEFAULT_PROPOSALS_FILTERS = \<lparr>pf_topics = [], pf_status = []\<rparr>"

definition filterTopics :: "Topic list \<Rightarrow> ProposalsFiltersStore \<Rightarrow> ProposalsFiltersStore" where
  "filterTopics topics filters = filters\<lparr>pf_topics := topics\<rparr>"

definition filterStatus ::
  "ProposalStatus list \<Rightarrow> ProposalsFiltersStore \<Rightarrow> ProposalsFiltersStore" where
  "filterStatus status filters = filters\<lparr>pf_status := status\<rparr>"

definition resetFilters :: "ProposalsFiltersStore \<Rightarrow> ProposalsFiltersStore" where
  "resetFilters filters = DEFAULT_PROPOSALS_FILTERS"

definition setPayload :: "int \<Rightarrow> 'p option \<Rightarrow> (int \<rightharpoonup> 'p option) \<Rightarrow> (int \<rightharpoonup> 'p option)" where
  "setPayload proposalId payload stateMap = stateMap(proposalId \<mapsto> payload)"

definition resetPayloads :: "(int \<rightharpoonup> 'p option) \<Rightarrow> (int \<rightharpoonup> 'p option)" where
  "resetPayloads stateMap = Map.empty"

subsection \<open>Lemmas\<close>

text \<open>The proposal a list holds for an id.\<close>

definition proposal_with_id :: "ProposalInfo list \<Rightarrow> int \<Rightarrow> ProposalInfo option" where
  "proposal_with_id ps i = List.find (\<lambda>p. pi_id p = Some i) ps"

lemma set_proposalIdSet: "set (proposalIdSet ps) = {i. Some i \<in> pi_id ` set ps}"
  by (auto simp: proposalIdSet_def List.map_filter_def image_iff) (metis option.sel option.discI)+

lemma excludeProposals_filter:
  "excludeProposals ps ex = filter (\<lambda>p. pi_id p = None \<or> pi_id p \<notin> pi_id ` set ex) ps"
proof -
  have "(\<not> (\<exists>i\<in>set (proposalIdSet ex). pi_id p = Some i)) =
      (pi_id p = None \<or> pi_id p \<notin> pi_id ` set ex)" for p :: ProposalInfo
    by (cases "pi_id p") (auto simp: set_proposalIdSet)
  then show ?thesis by (simp only: excludeProposals_def Let_def)
qed

lemma find_filter:
  "(\<And>x. x \<in> set xs \<Longrightarrow> P x \<Longrightarrow> Q x) \<Longrightarrow> List.find P (filter Q xs) = List.find P xs"
  by (induction xs) auto

lemma proposal_with_id_None_iff: "proposal_with_id ps i = None \<longleftrightarrow> Some i \<notin> pi_id ` set ps"
  by (force simp: proposal_with_id_def find_eq_None_iff)

lemma proposal_with_id_concatenate [simp]:
  "proposal_with_id (concatenateUniqueProposals old new) i =
     nullish_alt (proposal_with_id old i) (proposal_with_id new i)"
proof (cases "proposal_with_id old i")
  case None
  then have "proposal_with_id (excludeProposals new old) i = proposal_with_id new i"
    unfolding proposal_with_id_def excludeProposals_filter
    by (intro find_filter) (auto simp: proposal_with_id_None_iff[unfolded proposal_with_id_def])
  with None show ?thesis
    by (simp add: proposal_with_id_def concatenateUniqueProposals_def find_append)
next
  case (Some p)
  then show ?thesis
    by (simp add: proposal_with_id_def concatenateUniqueProposals_def find_append)
qed

text \<open>Replacing keeps every id in its place.\<close>

lemma replace_id:
  "pi_id (nullish_or (List.find (\<lambda>p. pi_id p = pi_id q) new) q) = pi_id q"
  by (auto simp: nullish_or_def split: option.splits dest: find_SomeD)

lemma map_pi_id_replaceProposals [simp]: "map pi_id (replaceProposals old new) = map pi_id old"
  by (simp add: replaceProposals_def replace_id)

lemma proposal_with_id_replace [simp]:
  "proposal_with_id (replaceProposals old new) i =
     (case proposal_with_id old i of None \<Rightarrow> None
      | Some p \<Rightarrow> Some (nullish_or (proposal_with_id new i) p))"
proof (induction old)
  case Nil
  then show ?case by (simp add: replaceProposals_def proposal_with_id_def)
next
  case (Cons q old)
  have "pi_id (nullish_or (List.find (\<lambda>p. pi_id p = Some i) new) q) = Some i"
    if "pi_id q = Some i" using replace_id[of q new] that by simp
  with Cons show ?case
    by (cases "pi_id q = Some i") (simp_all add: replaceProposals_def proposal_with_id_def replace_id)
qed

lemma replaceAndConcatenate_eq:
  "replaceAndConcatenateProposals old new =
     concatenateUniqueProposals (replaceProposals old new)
       (filter (\<lambda>p. pi_id p \<notin> pi_id ` set old) new)"
proof -
  have "map (\<lambda>stateProposal. nullish_or (List.find (\<lambda>p. pi_id stateProposal = pi_id p) new)
      stateProposal) old = replaceProposals old new"
    unfolding replaceProposals_def by (subst eq_commute) (rule HOL.refl)
  then show ?thesis
    unfolding replaceAndConcatenateProposals_def Let_def
    by (simp only: map_pi_id_replaceProposals list.set_map[of pi_id old, symmetric])
qed

lemma proposal_with_id_replaceAndConcatenate [simp]:
  "proposal_with_id (replaceAndConcatenateProposals old new) i =
     nullish_alt (proposal_with_id new i) (proposal_with_id old i)"
proof (cases "proposal_with_id old i")
  case None
  then have "proposal_with_id (filter (\<lambda>p. pi_id p \<notin> pi_id ` set old) new) i = proposal_with_id new i"
    unfolding proposal_with_id_def
    by (intro find_filter) (auto simp: proposal_with_id_None_iff[unfolded proposal_with_id_def])
  with None show ?thesis
    by (simp add: replaceAndConcatenate_eq nullish_alt_def split: option.splits)
next
  case (Some p)
  then show ?thesis
    by (simp add: replaceAndConcatenate_eq nullish_alt_def nullish_or_def split: option.splits)
qed

definition distinct_ids :: "ProposalInfo list \<Rightarrow> bool" where
  "distinct_ids ps \<longleftrightarrow> distinct (map pi_id ps) \<and> None \<notin> set (map pi_id ps)"

lemma distinct_ids_replace: "distinct_ids (replaceProposals old new) = distinct_ids old"
  unfolding distinct_ids_def map_pi_id_replaceProposals ..

lemma distinct_ids_concatenate:
  "distinct_ids old \<Longrightarrow> distinct_ids new \<Longrightarrow> distinct_ids (concatenateUniqueProposals old new)"
  by (auto simp: distinct_ids_def concatenateUniqueProposals_def excludeProposals_filter
      distinct_map_filter) (metis image_eqI)+

lemma distinct_ids_replaceAndConcatenate:
  "distinct_ids old \<Longrightarrow> distinct_ids new \<Longrightarrow> distinct_ids (replaceAndConcatenateProposals old new)"
  unfolding replaceAndConcatenate_eq
  by (rule distinct_ids_concatenate)
    (simp_all add: distinct_ids_def distinct_map_filter image_iff)

lemma sort_as_strings_unique:
  "js_sort compare_as_strings xs = js_sort compare_as_strings ys \<longleftrightarrow> mset xs = mset ys"
proof
  assume "js_sort compare_as_strings xs = js_sort compare_as_strings ys"
  then show "mset xs = mset ys" by (metis mset_js_sort)
next
  assume h: "mset xs = mset ys"
  have "sorted (map int_to_string (js_sort compare_as_strings zs))" for zs
    using ascending.sorted_js_sort[of int_to_string zs]
    by (simp add: compare_as_strings_def cmp_sorted_def asc_sign sorted_wrt_map linorder_not_less)
  moreover have "mset (map int_to_string (js_sort compare_as_strings xs)) =
      mset (map int_to_string (js_sort compare_as_strings ys))" using h by simp
  ultimately have "map int_to_string (js_sort compare_as_strings xs) =
      map int_to_string (js_sort compare_as_strings ys)"
    using properties_for_sort sort_key_def by metis
  then show "js_sort compare_as_strings xs = js_sort compare_as_strings ys"
    by (metis int_to_string_inject inj_onI map_inj_on)
qed

interpretation by_proposal_id: comparator compare_proposal_ids
proof -
  have eq: "compare_proposal_ids = createDescendingComparator (\<lambda>p. nullish_or (pi_id p) 0)"
    by (auto simp: fun_eq_iff compare_proposal_ids_def createDescendingComparator_def)
  show "comparator compare_proposal_ids"
    unfolding eq by (rule descending.comparator_axioms)
qed

interpretation by_navigation_id: comparator "navigationIdComparator universes" for universes
proof -
  have "navigationIdComparator universes =
    mergeComparators [createAscendingComparator (\<lambda>a. js_indexOf universes (nav_universe a)),
      createDescendingComparator nav_proposalId]"
    by (auto simp: fun_eq_iff navigationIdComparator_def Let_def createAscendingComparator_def
        createDescendingComparator_def negate_def)
  moreover have "comparator \<dots>"
    by (rule comparator_merge)
      (auto intro: ascending.comparator_axioms descending.comparator_axioms)
  ultimately show "comparator (navigationIdComparator universes)" by simp
qed

subsection \<open>Properties\<close>

text \<open>
  pushProposals merges the pushed list into the store by id.  A certified push overrides what the
  store held for an id, an uncertified one only adds ids that the store does not hold, and every other
  proposal stays; what the store finds for an id afterwards is exactly that.
\<close>

lemma pushProposals_lookup:
  "proposal_with_id (ps_proposals (pushProposals_mutation new certified data)) i =
     (if certified
      then nullish_alt (proposal_with_id new i) (proposal_with_id (ps_proposals data) i)
      else nullish_alt (proposal_with_id (ps_proposals data) i) (proposal_with_id new i))"
  by (simp add: pushProposals_mutation_def)

text \<open>
  Every mutation of the proposals store keeps the stored proposals distinct by id, with every id
  defined, when the lists that come in are.
\<close>

lemma proposals_store_distinct_ids:
  assumes "distinct_ids (ps_proposals data)" and "distinct_ids ps"
  shows "distinct_ids (ps_proposals (pushProposals_mutation ps certified data)) \<and>
     distinct_ids (ps_proposals (removeProposals_mutation ps data)) \<and>
     distinct_ids (ps_proposals (replaceProposals_mutation ps certified data))"
proof (intro conjI)
  show "distinct_ids (ps_proposals (pushProposals_mutation ps certified data))"
    using assms by (simp add: pushProposals_mutation_def distinct_ids_replaceAndConcatenate
        distinct_ids_concatenate)
  show "distinct_ids (ps_proposals (removeProposals_mutation ps data))"
    using assms by (simp add: removeProposals_mutation_def excludeProposals_filter distinct_ids_def
        distinct_map_filter image_iff)
  show "distinct_ids (ps_proposals (replaceProposals_mutation ps certified data))"
    using assms(1) by (simp add: replaceProposals_mutation_def distinct_ids_replace)
qed

theorem proposals_store_distinct_ids_witness:
  "distinct_ids (ps_proposals (pushProposals_mutation [plain_proposal 2, plain_proposal 3] True
     \<lparr>ps_proposals = [plain_proposal 1, plain_proposal 2], ps_certified = None\<rparr>))"
  using proposals_store_distinct_ids[of
      "\<lparr>ps_proposals = [plain_proposal 1, plain_proposal 2], ps_certified = None\<rparr>"
      "[plain_proposal 2, plain_proposal 3]" True]
  by (simp add: distinct_ids_def plain_proposal_def)

text \<open>
  proposalsHaveSameIds, which compares the sorted and joined ids as strings, decides whether two
  lists of proposals with defined ids hold the same ids, each as often.
\<close>

lemma proposalsHaveSameIds_iff:
  assumes "None \<notin> pi_id ` set as" and "None \<notin> pi_id ` set bs"
  shows "proposalsHaveSameIds as bs \<longleftrightarrow> mset (map pi_id as) = mset (map pi_id bs)"
proof -
  have ids: "\<exists>xs. map pi_id ps = map Some xs" if "None \<notin> pi_id ` set ps" for ps :: "ProposalInfo list"
    using that
  proof (induction ps)
    case (Cons p ps)
    then obtain i where "pi_id p = Some i" by (cases "pi_id p") auto
    moreover obtain xs where "map pi_id ps = map Some xs" using Cons by auto
    ultimately show ?case by (intro exI[of _ "i # xs"]) simp
  qed simp
  have joined: "sorted_ids_joined (map Some xs) =
      join_with '','' (map int_to_string (js_sort compare_as_strings xs))" for xs
    by (simp add: sorted_ids_joined_def map_filter_simps filter_empty_conv List.map_filter_def comp_def)
  obtain xs ys where e: "map pi_id as = map Some xs" "map pi_id bs = map Some ys"
    using ids assms by metis
  have "mset (map Some xs) = mset (map Some ys) \<longleftrightarrow> mset xs = mset ys"
    using image_mset_subseteq_mono by (auto simp: inj_eq multiset.inj_map)
  then show ?thesis
    unfolding proposalsHaveSameIds_def e joined join_int_strings_inject sort_as_strings_unique by simp
qed

theorem proposalsHaveSameIds_iff_witness:
  "proposalsHaveSameIds [plain_proposal 10, plain_proposal 9] [plain_proposal 9, plain_proposal 10]"
  using proposalsHaveSameIds_iff[of "[plain_proposal 10, plain_proposal 9]"
      "[plain_proposal 9, plain_proposal 10]"]
  by (simp add: plain_proposal_def)

text \<open>
  After the voting neurons of a proposal are reloaded, a neuron is selected exactly when it is
  still there and was selected before, or is new since then; no neuron is selected twice.
\<close>

lemma preserveNeuronSelection_characterised:
  assumes "distinct selectedIds" and "set selectedIds \<subseteq> set (map vn_neuronIdString neurons)"
  shows "set (preserveNeuronSelectionAfterUpdate selectedIds neurons updatedNeurons) =
      {i \<in> set (map vn_neuronIdString updatedNeurons).
        i \<in> set selectedIds \<or> i \<notin> set (map vn_neuronIdString neurons)} \<and>
    distinct (preserveNeuronSelectionAfterUpdate selectedIds neurons updatedNeurons)"
  using assms by (auto simp: preserveNeuronSelectionAfterUpdate_def Let_def)

theorem preserveNeuronSelection_characterised_witness:
  "set (preserveNeuronSelectionAfterUpdate [''1'']
      [\<lparr>vn_neuronIdString = ''1'', vn_votingPower = 5\<rparr>, \<lparr>vn_neuronIdString = ''2'', vn_votingPower = 5\<rparr>]
      [\<lparr>vn_neuronIdString = ''2'', vn_votingPower = 5\<rparr>, \<lparr>vn_neuronIdString = ''1'', vn_votingPower = 5\<rparr>,
       \<lparr>vn_neuronIdString = ''3'', vn_votingPower = 5\<rparr>]) = {''1'', ''3''}"
  using preserveNeuronSelection_characterised[of "[''1'']"
      "[\<lparr>vn_neuronIdString = ''1'', vn_votingPower = 5\<rparr>, \<lparr>vn_neuronIdString = ''2'', vn_votingPower = 5\<rparr>]"
      "[\<lparr>vn_neuronIdString = ''2'', vn_votingPower = 5\<rparr>, \<lparr>vn_neuronIdString = ''1'', vn_votingPower = 5\<rparr>,
       \<lparr>vn_neuronIdString = ''3'', vn_votingPower = 5\<rparr>]"]
  by auto

text \<open>
  The optimistic vote gives the neuron exactly one ballot, with its vote, leaves the ballots of
  all other neurons as they are, and adds the voting power to the tally of that vote only.
\<close>

lemma updateProposalVote_effect:
  "filter (\<lambda>b. b_neuronId b = ni_neuronId n) (pi_ballots (updateProposalVote p n v)) =
     [\<lparr>b_neuronId = ni_neuronId n, b_vote = v, b_votingPower = ni_votingPower n\<rparr>] \<and>
   filter (\<lambda>b. b_neuronId b \<noteq> ni_neuronId n) (pi_ballots (updateProposalVote p n v)) =
     filter (\<lambda>b. b_neuronId b \<noteq> ni_neuronId n) (pi_ballots p) \<and>
   (\<exists>t. pi_latestTally (updateProposalVote p n v) = Some t \<and>
     t_yes t + t_no t = (case pi_latestTally p of None \<Rightarrow> 0 | Some u \<Rightarrow> t_yes u + t_no u) +
       (case v of VoteUnspecified \<Rightarrow> 0 | VoteYes \<Rightarrow> ni_votingPower n | VoteNo \<Rightarrow> ni_votingPower n) \<and>
     t_yes t = (case pi_latestTally p of None \<Rightarrow> 0 | Some u \<Rightarrow> t_yes u) +
       (case v of VoteYes \<Rightarrow> ni_votingPower n | _ \<Rightarrow> 0))"
  by (cases v; cases "pi_latestTally p") (simp_all add: updateProposalVote_def Let_def)

text \<open>
  sortProposalsByIdDescendingOrder returns the same proposals, ids descending, and sorting again
  changes nothing.
\<close>

lemma sortProposals_correct:
  "mset (sortProposalsByIdDescendingOrder ps) = mset ps \<and>
   sorted_wrt (\<lambda>p q. nullish_or (pi_id q) 0 \<le> nullish_or (pi_id p) 0)
     (sortProposalsByIdDescendingOrder ps) \<and>
   sortProposalsByIdDescendingOrder (sortProposalsByIdDescendingOrder ps) =
     sortProposalsByIdDescendingOrder ps"
proof -
  have "compare_proposal_ids p q < 0 \<longleftrightarrow> nullish_or (pi_id q) 0 < nullish_or (pi_id p) 0" for p q
    by (simp add: compare_proposal_ids_def Let_def)
  then show ?thesis
    using by_proposal_id.js_sort_by_key_descending[of "\<lambda>p. nullish_or (pi_id p) 0" ps]
    by (simp add: sortProposalsByIdDescendingOrder_def by_proposal_id.js_sort_idem)
qed

end
