(* ===== verification/VoteRegistration.thy ===== *)
theory VoteRegistration
  imports Proposals
begin

text \<open>
  Voting: frontend/src/lib/stores/vote-registration.store.ts (votes in progress and the selection of
  voting neurons), services/vote-registration.services.ts (toasts and the life cycle of an entry),
  services/nns-vote-registration.services.ts and the vote helpers of utils/proposals.utils.ts.
  Toasts are a list of visible messages; a toast id is its serial number.
\<close>

subsection \<open>vote-registration.store.ts\<close>

datatype VoteRegistrationStatus = VoteRegistrationPhase | PostUpdatePhase

record VoteRegistrationStoreEntry =
  vr_status :: VoteRegistrationStatus
  vr_proposalIdString :: string
  vr_neuronIdStrings :: "string list"
  vr_successfullyVotedNeuronIdStrings :: "string list"
  vr_vote :: Vote

text \<open>registrations: from the text of a universe's canister id to its entries\<close>

type_synonym VoteRegistrationStoreMap = "string \<rightharpoonup> VoteRegistrationStoreEntry list"

datatype vote_error =
    SimultaneousProposalVoting
  | NoRegistrationsForCanister
  | RegistrationMissing
  | RegisterCallFailed string
  | StoreRefused queue_error

definition find_entry ::
  "string \<Rightarrow> VoteRegistrationStoreEntry list \<Rightarrow> VoteRegistrationStoreEntry option" where
  "find_entry proposalIdString entries =
     List.find (\<lambda>e. vr_proposalIdString e = proposalIdString) entries"

definition voteRegistration_add ::
  "Vote \<Rightarrow> string \<Rightarrow> string list \<Rightarrow> string \<Rightarrow> VoteRegistrationStoreMap
     \<Rightarrow> vote_error + VoteRegistrationStoreMap" where
  "voteRegistration_add vote proposalIdString neuronIdStrings canisterId registrations =
     (let newEntry = \<lparr>vr_status = VoteRegistrationPhase, vr_proposalIdString = proposalIdString,
            vr_neuronIdStrings = neuronIdStrings, vr_successfullyVotedNeuronIdStrings = [],
            vr_vote = vote\<rparr>
      in case registrations canisterId of
           None \<Rightarrow> Inr (registrations(canisterId \<mapsto> [newEntry]))
         | Some universeRegistrations \<Rightarrow>
             if find_entry proposalIdString universeRegistrations \<noteq> None
             then Inl SimultaneousProposalVoting
             else Inr (registrations(canisterId \<mapsto> universeRegistrations @ [newEntry])))"

definition addSuccessfullyVotedNeuronId ::
  "string \<Rightarrow> string \<Rightarrow> string \<Rightarrow> VoteRegistrationStoreMap
     \<Rightarrow> vote_error + VoteRegistrationStoreMap" where
  "addSuccessfullyVotedNeuronId proposalIdString neuronIdString canisterId registrations =
     (case registrations canisterId of
        None \<Rightarrow> Inl NoRegistrationsForCanister
      | Some universeRegistrations \<Rightarrow>
          (case find_entry proposalIdString universeRegistrations of
             None \<Rightarrow> Inr registrations
           | Some proposalRegistration \<Rightarrow>
               Inr (registrations(canisterId \<mapsto>
                 filter (\<lambda>e. vr_proposalIdString e \<noteq> proposalIdString) universeRegistrations @
                 [proposalRegistration\<lparr>vr_successfullyVotedNeuronIdStrings := set_insertion_order
                   (vr_successfullyVotedNeuronIdStrings proposalRegistration @ [neuronIdString])\<rparr>]))))"

definition voteRegistration_updateStatus ::
  "string \<Rightarrow> VoteRegistrationStatus \<Rightarrow> string \<Rightarrow> VoteRegistrationStoreMap
     \<Rightarrow> vote_error + VoteRegistrationStoreMap" where
  "voteRegistration_updateStatus proposalIdString status canisterId registrations =
     (case registrations canisterId of
        None \<Rightarrow> Inl NoRegistrationsForCanister
      | Some universeRegistrations \<Rightarrow>
          (case find_entry proposalIdString universeRegistrations of
             None \<Rightarrow> Inr registrations
           | Some proposalRegistration \<Rightarrow>
               Inr (registrations(canisterId \<mapsto>
                 filter (\<lambda>e. vr_proposalIdString e \<noteq> proposalIdString) universeRegistrations @
                 [proposalRegistration\<lparr>vr_status := status\<rparr>]))))"

definition voteRegistration_remove ::
  "string \<Rightarrow> string \<Rightarrow> VoteRegistrationStoreMap \<Rightarrow> vote_error + VoteRegistrationStoreMap" where
  "voteRegistration_remove proposalIdString canisterId registrations =
     (case registrations canisterId of
        None \<Rightarrow> Inl NoRegistrationsForCanister
      | Some universeRegistrations \<Rightarrow>
          Inr (registrations(canisterId \<mapsto>
            filter (\<lambda>e. vr_proposalIdString e \<noteq> proposalIdString) universeRegistrations)))"

definition voteRegistration_reset :: VoteRegistrationStoreMap where
  "voteRegistration_reset = Map.empty"

definition voteRegistrationActive :: "VoteRegistrationStoreEntry list \<Rightarrow> bool" where
  "voteRegistrationActive votes =
     (List.find (\<lambda>e. length (vr_neuronIdStrings e) > length (vr_successfullyVotedNeuronIdStrings e))
        votes \<noteq> None)"

subsection \<open>The selection of voting neurons\<close>

record NeuronSelectionStore =
  ns_neurons :: "VotingNeuron list"
  ns_selectedIds :: "string list"

definition neuronSelect_set :: "VotingNeuron list \<Rightarrow> NeuronSelectionStore" where
  "neuronSelect_set neurons =
     \<lparr>ns_neurons = neurons, ns_selectedIds = map vn_neuronIdString neurons\<rparr>"

definition updateNeurons :: "VotingNeuron list \<Rightarrow> NeuronSelectionStore \<Rightarrow> NeuronSelectionStore" where
  "updateNeurons neurons st =
     \<lparr>ns_neurons = neurons,
      ns_selectedIds = preserveNeuronSelectionAfterUpdate (ns_selectedIds st) (ns_neurons st) neurons\<rparr>"

definition neuronSelect_reset :: NeuronSelectionStore where
  "neuronSelect_reset = neuronSelect_set []"

definition toggleSelection :: "string \<Rightarrow> NeuronSelectionStore \<Rightarrow> NeuronSelectionStore" where
  "toggleSelection neuronId st = st\<lparr>ns_selectedIds :=
     (if neuronId \<in> set (ns_selectedIds st)
      then filter (\<lambda>id. id \<noteq> neuronId) (ns_selectedIds st)
      else set_insertion_order (ns_selectedIds st @ [neuronId]))\<rparr>"

subsection \<open>Results of the register calls\<close>

datatype settled = Fulfilled | RejectedError string | RejectedText string | RejectedOther

text \<open>
  A rejection is an Error with a message, a string or another value; errorToString gives the text of
  the first two.  The label of the detail is kept as the pair of its placeholders; an absent or empty
  reason becomes the label fail.
\<close>

definition registerVoteErrorReason :: "string \<Rightarrow> settled \<Rightarrow> (string \<times> string option) option" where
  "registerVoteErrorReason neuronIdString result =
     (case result of
        Fulfilled \<Rightarrow> None
      | RejectedError reason \<Rightarrow> Some (neuronIdString, if length reason = 0 then None else Some reason)
      | RejectedText _ \<Rightarrow> Some (neuronIdString, None)
      | RejectedOther \<Rightarrow> Some (neuronIdString, None))"

definition registerVoteErrorDetails ::
  "settled list \<Rightarrow> string list \<Rightarrow> (string \<times> string option) list" where
  "registerVoteErrorDetails responses neuronIdStrings =
     List.map_filter (\<lambda>x. x)
       (map (\<lambda>i. registerVoteErrorReason (neuronIdStrings ! i) (responses ! i)) [0..<length responses])"

definition isAlreadyVotedError :: "settled \<Rightarrow> bool" where
  "isAlreadyVotedError response =
     (response = RejectedError ''Neuron already voted on proposal.'' \<or>
      response = RejectedText ''Neuron already voted on proposal.'')"

subsection \<open>Toasts\<close>

datatype toast_content =
    VotingToast bool string nat nat
      \<comment> \<open>adopt or reject label, proposal id, completed and total neurons\<close>
  | UpdatingToast bool string
  | RegisterVoteError string "(string \<times> string option) list"
  | RegisterVoteUnknown vote_error
  | ProposalNotFound int "string option"

record vote_state =
  vs_registrations :: VoteRegistrationStoreMap
  vs_toasts :: "(nat \<times> toast_content) list"
  vs_nextToast :: nat

definition toastsShow :: "toast_content \<Rightarrow> 'w vote_state_scheme \<Rightarrow> nat \<times> 'w vote_state_scheme" where
  "toastsShow c s = (vs_nextToast s, s\<lparr>vs_toasts := vs_toasts s @ [(vs_nextToast s, c)],
     vs_nextToast := Suc (vs_nextToast s)\<rparr>)"

definition toastsHide :: "nat \<Rightarrow> 'w vote_state_scheme \<Rightarrow> 'w vote_state_scheme" where
  "toastsHide tid s = s\<lparr>vs_toasts := filter (\<lambda>t. fst t \<noteq> tid) (vs_toasts s)\<rparr>"

definition toastsUpdate :: "nat \<Rightarrow> toast_content \<Rightarrow> 'w vote_state_scheme \<Rightarrow> 'w vote_state_scheme" where
  "toastsUpdate tid c s =
     s\<lparr>vs_toasts := map (\<lambda>t. if fst t = tid then (tid, c) else t) (vs_toasts s)\<rparr>"

subsection \<open>vote-registration.services.ts\<close>

definition createRegisterVotesToast :: "Vote \<Rightarrow> string \<Rightarrow> string list \<Rightarrow> 'w vote_state_scheme \<Rightarrow> nat \<times> 'w vote_state_scheme" where
  "createRegisterVotesToast vote proposalIdString neuronIdStrings s =
     toastsShow (VotingToast (vote = VoteYes) proposalIdString 0 (length neuronIdStrings)) s"

text \<open>
  voteRegistrationByProposal reads a property of undefined, and throws, when the universe has no
  entries; assertNonNullish throws when the proposal has none.
\<close>

definition voteRegistrationByProposal ::
  "string \<Rightarrow> string \<Rightarrow> 'w vote_state_scheme \<Rightarrow> vote_error + VoteRegistrationStoreEntry" where
  "voteRegistrationByProposal universeCanisterId proposalIdString s =
     (case vs_registrations s universeCanisterId of
        None \<Rightarrow> Inl RegistrationMissing
      | Some entries \<Rightarrow>
         (case find_entry proposalIdString entries of
            None \<Rightarrow> Inl RegistrationMissing
          | Some registration \<Rightarrow> Inr registration))"

definition updateVoteRegistrationToastMessage ::
  "nat \<Rightarrow> string \<Rightarrow> string list \<Rightarrow> string list \<Rightarrow> bool \<Rightarrow> Vote \<Rightarrow> 'w vote_state_scheme \<Rightarrow> 'w vote_state_scheme" where
  "updateVoteRegistrationToastMessage toastId proposalIdString neuronIdStrings
     successfullyVotedNeuronIdStrings registrationDone vote s =
     toastsUpdate toastId
       (if registrationDone then UpdatingToast (vote = VoteYes) proposalIdString
        else VotingToast (vote = VoteYes) proposalIdString
               (length successfullyVotedNeuronIdStrings) (length neuronIdStrings)) s"

definition processRegisterVoteErrors ::
  "settled list \<Rightarrow> string list \<Rightarrow> string \<Rightarrow> 'w vote_state_scheme \<Rightarrow> 'w vote_state_scheme" where
  "processRegisterVoteErrors registerVoteResponses neuronIdStrings proposalIdString s =
     (let rejected = filter (\<lambda>i. registerVoteResponses ! i \<noteq> Fulfilled \<and>
            \<not> isAlreadyVotedError (registerVoteResponses ! i)) [0..<length registerVoteResponses];
          rejectedResponses = map (\<lambda>i. registerVoteResponses ! i) rejected;
          rejectedNeuronIdStrings = map (\<lambda>i. neuronIdStrings ! i) rejected
      in if length rejectedResponses > 0
         then snd (toastsShow (RegisterVoteError proposalIdString
                (registerVoteErrorDetails rejectedResponses rejectedNeuronIdStrings)) s)
         else s)"

text \<open>
  The awaited callbacks are given as what they do to the state and how they end: they complete, throw
  or stay pending for ever.
\<close>

datatype action_result = Completed | Threw vote_error | Pending

type_synonym 'w vote_action = "'w vote_state_scheme \<Rightarrow> action_result \<times> 'w vote_state_scheme"

definition lift_store ::
  "(VoteRegistrationStoreMap \<Rightarrow> vote_error + VoteRegistrationStoreMap) \<Rightarrow> 'w vote_action" where
  "lift_store f s = (case f (vs_registrations s) of
       Inl e \<Rightarrow> (Threw e, s)
     | Inr m \<Rightarrow> (Completed, s\<lparr>vs_registrations := m\<rparr>))"

definition and_then :: "'w vote_action \<Rightarrow> 'w vote_action \<Rightarrow> 'w vote_action" where
  "and_then f g s = (case f s of (Completed, s') \<Rightarrow> g s' | (r, s') \<Rightarrow> (r, s'))"

text \<open>The step that shows in the toast that the data is being reloaded.\<close>

definition showUpdating :: "string \<Rightarrow> string list \<Rightarrow> string \<Rightarrow> Vote \<Rightarrow> nat \<Rightarrow> 'w vote_action" where
  "showUpdating universeCanisterId neuronIdStrings proposalIdString vote toastId s =
     (case voteRegistrationByProposal universeCanisterId proposalIdString s of
        Inl e \<Rightarrow> (Threw e, s)
      | Inr registration \<Rightarrow> (Completed, updateVoteRegistrationToastMessage toastId proposalIdString
            neuronIdStrings (vr_successfullyVotedNeuronIdStrings registration) True vote s))"

text \<open>The body of the try block of manageVotesRegistration, once the toast is shown.\<close>

definition manageVotes_try ::
  "string \<Rightarrow> string list \<Rightarrow> string \<Rightarrow> Vote \<Rightarrow> (nat \<Rightarrow> 'w vote_action) \<Rightarrow> 'w vote_action \<Rightarrow> nat \<Rightarrow> 'w vote_action" where
  "manageVotes_try universeCanisterId neuronIdStrings proposalIdString vote registerNeuronVotes
     postRegistration toastId =
     and_then (lift_store (voteRegistration_add vote proposalIdString neuronIdStrings universeCanisterId))
    (and_then (registerNeuronVotes toastId)
    (and_then (lift_store (voteRegistration_updateStatus proposalIdString PostUpdatePhase universeCanisterId))
    (and_then (showUpdating universeCanisterId neuronIdStrings proposalIdString vote toastId)
    (and_then postRegistration
    (and_then (\<lambda>s. (Completed, toastsHide toastId s))
       (lift_store (voteRegistration_remove proposalIdString universeCanisterId)))))))"

definition manageVotesRegistration ::
  "string \<Rightarrow> string list \<Rightarrow> string \<Rightarrow> Vote \<Rightarrow> (nat \<Rightarrow> 'w vote_action) \<Rightarrow> 'w vote_action
     \<Rightarrow> 'w vote_state_scheme \<Rightarrow> 'w vote_state_scheme" where
  "manageVotesRegistration universeCanisterId neuronIdStrings proposalIdString vote registerNeuronVotes
     postRegistration s =
     (case createRegisterVotesToast vote proposalIdString neuronIdStrings s of
        (toastId, s1) \<Rightarrow>
          (case manageVotes_try universeCanisterId neuronIdStrings proposalIdString vote
                  registerNeuronVotes postRegistration toastId s1 of
             (Threw err, s2) \<Rightarrow> snd (toastsShow (RegisterVoteUnknown err) s2)
           | (_, s2) \<Rightarrow> s2))"

subsection \<open>nns-vote-registration.services.ts\<close>

text \<open>own is the text of OWN_CANISTER_ID, which the build configures.\<close>

definition updateToastAfterNeuronRegistration :: "string \<Rightarrow> int \<Rightarrow> int \<Rightarrow> nat \<Rightarrow> 'w vote_action" where
  "updateToastAfterNeuronRegistration own neuronId proposalId toastId s =
     (let proposalIdString = int_to_string proposalId
      in case voteRegistrationByProposal own proposalIdString s of
           Inl e \<Rightarrow> (Threw e, s)
         | Inr entry \<Rightarrow>
            and_then (lift_store (addSuccessfullyVotedNeuronId proposalIdString
                        (int_to_string neuronId) own))
              (\<lambda>s1. case voteRegistrationByProposal own proposalIdString s1 of
                  Inl e \<Rightarrow> (Threw e, s1)
                | Inr entry1 \<Rightarrow> (Completed, updateVoteRegistrationToastMessage toastId proposalIdString
                    (vr_neuronIdStrings entry) (vr_successfullyVotedNeuronIdStrings entry1) False
                    (vr_vote entry) s1)) s)"

text \<open>
  registerNnsNeuronsVote: one call per neuron; the calls settle in the order of the list arrivals
  (positions in neuronIds).  A call that succeeds updates the store and the toast; allSettled gathers
  what became of each, and the errors are shown together.  response_of gives the governance canister's
  answer for a neuron, error_text the message of an error thrown after it; user is the principal that signs, and the
  promise stays pending when there is none.  What the page and the stores are told is part of the state: the
  calls, the store of proposals, the arguments of the reload callback and how often loadActionableProposals was
  started, for which nothing waits.
\<close>

datatype nns_vote_call = RegisterVoteCall string int Vote int

record nns_vote_state = vote_state +
  nv_calls :: "nns_vote_call list"
  nv_proposals :: "ProposalsStore queued_store"
  nv_context :: "ProposalInfo list"
  nv_actionableLoads :: nat

fun settle_votes ::
  "string \<Rightarrow> (vote_error \<Rightarrow> string) \<Rightarrow> (int \<Rightarrow> settled) \<Rightarrow> int list \<Rightarrow> int \<Rightarrow> nat \<Rightarrow> nat list \<Rightarrow> settled list \<Rightarrow> 'w vote_state_scheme
     \<Rightarrow> settled list \<times> 'w vote_state_scheme" where
  "settle_votes own error_text response_of neuronIds proposalId toastId [] responses s = (responses, s)"
| "settle_votes own error_text response_of neuronIds proposalId toastId (i # arrivals) responses s =
     (if response_of (neuronIds ! i) = Fulfilled
      then (case updateToastAfterNeuronRegistration own (neuronIds ! i) proposalId toastId s of
              (Threw e, s') \<Rightarrow> settle_votes own error_text response_of neuronIds proposalId toastId arrivals
                (responses[i := RejectedError (error_text e)]) s'
            | (_, s') \<Rightarrow> settle_votes own error_text response_of neuronIds proposalId toastId arrivals
                (responses[i := Fulfilled]) s')
      else settle_votes own error_text response_of neuronIds proposalId toastId arrivals
             (responses[i := response_of (neuronIds ! i)]) s)"

definition registerNnsNeuronsVote ::
  "string option \<Rightarrow> string \<Rightarrow> (vote_error \<Rightarrow> string) \<Rightarrow> (int \<Rightarrow> settled) \<Rightarrow> nat list \<Rightarrow> int list \<Rightarrow> int \<Rightarrow> Vote \<Rightarrow> nat
     \<Rightarrow> nns_vote_state \<Rightarrow> action_result \<times> nns_vote_state" where
  "registerNnsNeuronsVote user own error_text response_of arrivals neuronIds proposalId vote toastId s =
     (case user of
        None \<Rightarrow> (Pending, s)
      | Some identity \<Rightarrow>
          (case settle_votes own error_text response_of neuronIds proposalId toastId arrivals
                  (replicate (length neuronIds) Fulfilled)
                  (s\<lparr>nv_calls := nv_calls s @ map (\<lambda>n. RegisterVoteCall identity n vote proposalId) neuronIds\<rparr>) of
             (responses, s') \<Rightarrow>
               (Completed, processRegisterVoteErrors responses (map int_to_string neuronIds)
                  (int_to_string proposalId) s')))"

text \<open>
  updateAfterNnsVoteRegistration waits for the neurons and for a promise that only setProposal
  resolves: loadProposal, called for the update call alone, calls it when the proposal arrives; when there is no such
  proposal or the call fails it reports that in a toast without calling it, so the promise stays pending.  The result
  is None while the promise is pending.
\<close>

datatype reload_response = ReloadedProposal ProposalInfo | NoProposal | ReloadError "string option" | ReloadPending

definition reloadProposal ::
  "int \<Rightarrow> reload_response \<Rightarrow> 'w vote_state_scheme \<Rightarrow> ProposalInfo option \<times> 'w vote_state_scheme" where
  "reloadProposal proposalId response s =
     (case response of
        ReloadedProposal p \<Rightarrow> (Some p, s)
      | NoProposal \<Rightarrow> (None, snd (toastsShow (ProposalNotFound proposalId None) s))
      | ReloadError details \<Rightarrow> (None, snd (toastsShow (ProposalNotFound proposalId details) s))
      | ReloadPending \<Rightarrow> (None, s))"

definition updateAfterNnsVoteRegistration ::
  "action_result \<Rightarrow> int \<Rightarrow> reload_response \<Rightarrow> 'w vote_state_scheme
     \<Rightarrow> (vote_error + ProposalInfo) option \<times> 'w vote_state_scheme" where
  "updateAfterNnsVoteRegistration listNeurons_result proposalId response s =
     (case reloadProposal proposalId response s of
        (proposal, s') \<Rightarrow>
          (case listNeurons_result of
             Threw e \<Rightarrow> Some (Inl e)
           | Pending \<Rightarrow> None
           | Completed \<Rightarrow> map_option Inr proposal, s'))"

definition postRegistration_nns ::
  "action_result \<Rightarrow> int \<Rightarrow> reload_response \<Rightarrow> nns_vote_state \<Rightarrow> action_result \<times> nns_vote_state" where
  "postRegistration_nns listNeurons_result proposalId response s =
     (case updateAfterNnsVoteRegistration listNeurons_result proposalId response s of
        (None, s') \<Rightarrow> (Pending, s')
      | (Some (Inl e), s') \<Rightarrow> (Threw e, s')
      | (Some (Inr updatedProposalInfo), s') \<Rightarrow>
          (case getSingleMutationStore None (nv_proposals s') of
             (key, reserved) \<Rightarrow>
               (case replaceProposals_store key [updatedProposalInfo] True reserved of
                  Inl e \<Rightarrow> (Threw (StoreRefused e), s'\<lparr>nv_proposals := reserved\<rparr>)
                | Inr replaced \<Rightarrow>
                    (Completed, s'\<lparr>nv_proposals := replaced, nv_context := nv_context s' @ [updatedProposalInfo],
                       nv_actionableLoads := Suc (nv_actionableLoads s')\<rparr>))))"

definition registerNnsVotes ::
  "string option \<Rightarrow> string \<Rightarrow> (vote_error \<Rightarrow> string) \<Rightarrow> (int \<Rightarrow> settled) \<Rightarrow> nat list \<Rightarrow> action_result \<Rightarrow> reload_response \<Rightarrow> int list
     \<Rightarrow> int \<Rightarrow> Vote \<Rightarrow> nns_vote_state \<Rightarrow> nns_vote_state" where
  "registerNnsVotes user own error_text response_of arrivals listNeurons_result response neuronIds proposalId vote s =
     manageVotesRegistration own (map int_to_string neuronIds) (int_to_string proposalId) vote
       (\<lambda>toastId. registerNnsNeuronsVote user own error_text response_of arrivals neuronIds proposalId vote toastId)
       (postRegistration_nns listNeurons_result proposalId response) s"

subsection \<open>The store invariant\<close>

definition votes_inv :: "VoteRegistrationStoreMap \<Rightarrow> bool" where
  "votes_inv m \<longleftrightarrow> (\<forall>c entries. m c = Some entries \<longrightarrow>
     distinct (map vr_proposalIdString entries) \<and>
     (\<forall>e\<in>set entries. distinct (vr_successfullyVotedNeuronIdStrings e)))"

datatype vote_op =
    OpAdd Vote string "string list" string
  | OpAddVoted string string string
  | OpUpdateStatus string VoteRegistrationStatus string
  | OpRemove string string
  | OpReset

text \<open>A step of the store; an operation that throws leaves it as it is.\<close>

fun vote_op_result :: "VoteRegistrationStoreMap \<Rightarrow> vote_op \<Rightarrow> vote_error + VoteRegistrationStoreMap" where
  "vote_op_result m (OpAdd v p ns c) = voteRegistration_add v p ns c m"
| "vote_op_result m (OpAddVoted p n c) = addSuccessfullyVotedNeuronId p n c m"
| "vote_op_result m (OpUpdateStatus p st c) = voteRegistration_updateStatus p st c m"
| "vote_op_result m (OpRemove p c) = voteRegistration_remove p c m"
| "vote_op_result m OpReset = Inr voteRegistration_reset"

definition run_vote_op :: "VoteRegistrationStoreMap \<Rightarrow> vote_op \<Rightarrow> VoteRegistrationStoreMap" where
  "run_vote_op m op = (case vote_op_result m op of Inl _ \<Rightarrow> m | Inr m' \<Rightarrow> m')"

lemma find_entryD: "find_entry p es = Some e \<Longrightarrow> e \<in> set es \<and> vr_proposalIdString e = p"
  unfolding find_entry_def by (drule find_SomeD) auto

lemma find_entry_None: "find_entry p es = None \<longleftrightarrow> p \<notin> vr_proposalIdString ` set es"
  by (auto simp: find_entry_def find_eq_None_iff)

lemma find_entry_append [simp]:
  "find_entry p (es @ es') = (case find_entry p es of None \<Rightarrow> find_entry p es' | Some e \<Rightarrow> Some e)"
  unfolding find_entry_def find_append ..

lemma find_entry_single [simp]:
  "find_entry p [e] = (if vr_proposalIdString e = p then Some e else None)"
  by (simp add: find_entry_def)

lemma filter_no_entry [simp]:
  "find_entry p es = None \<Longrightarrow> filter (\<lambda>e. vr_proposalIdString e \<noteq> p) es = es"
  by (auto simp: find_entry_None intro!: filter_True)

text \<open>Replacing the entry of a proposal by one with the same id keeps the invariant.\<close>

lemma votes_inv_replace:
  assumes "votes_inv m" and "m c = Some es" and "vr_proposalIdString e = p"
    and "distinct (vr_successfullyVotedNeuronIdStrings e)"
  shows "votes_inv (m(c \<mapsto> filter (\<lambda>e. vr_proposalIdString e \<noteq> p) es @ [e]))"
  using assms by (auto simp: votes_inv_def distinct_map_filter)

lemma votes_inv_filter:
  assumes "votes_inv m" and "m c = Some es"
  shows "votes_inv (m(c \<mapsto> filter P es))"
  using assms by (auto simp: votes_inv_def distinct_map_filter)

lemma votes_inv_op: "votes_inv m \<Longrightarrow> vote_op_result m op = Inr m' \<Longrightarrow> votes_inv m'"
proof (cases op)
  case (OpAdd v p ns c)
  assume "votes_inv m" "vote_op_result m op = Inr m'"
  with OpAdd show ?thesis
    by (auto simp: voteRegistration_add_def Let_def votes_inv_def find_entry_None
        split: option.splits if_splits)
next
  case (OpAddVoted p n c)
  assume "votes_inv m" "vote_op_result m op = Inr m'"
  with OpAddVoted show ?thesis
    by (auto simp: addSuccessfullyVotedNeuronId_def dest: find_entryD
        intro!: votes_inv_replace split: option.splits)
next
  case (OpUpdateStatus p st c)
  assume h: "votes_inv m" "vote_op_result m op = Inr m'"
  have "distinct (vr_successfullyVotedNeuronIdStrings e)"
    if "m c = Some es" "find_entry p es = Some e" for es e
    using h(1) that find_entryD[OF that(2)] by (auto simp: votes_inv_def)
  with h OpUpdateStatus show ?thesis
    by (auto simp: voteRegistration_updateStatus_def dest: find_entryD
        intro!: votes_inv_replace split: option.splits)
next
  case (OpRemove p c)
  assume "votes_inv m" "vote_op_result m op = Inr m'"
  with OpRemove show ?thesis
    by (auto simp: voteRegistration_remove_def intro!: votes_inv_filter split: option.splits)
next
  case OpReset
  assume "vote_op_result m op = Inr m'"
  with OpReset show ?thesis by (auto simp: voteRegistration_reset_def votes_inv_def)
qed

subsection \<open>The life of a vote\<close>

text \<open>
  The state while the votes of a proposal are registered: the entry of the proposal is the last one of
  its universe and its toast the last one shown.
\<close>

definition voting_entry :: "string \<Rightarrow> string list \<Rightarrow> Vote \<Rightarrow> string list \<Rightarrow> VoteRegistrationStatus
    \<Rightarrow> VoteRegistrationStoreEntry" where
  "voting_entry p nids v voted st = \<lparr>vr_status = st, vr_proposalIdString = p,
     vr_neuronIdStrings = nids, vr_successfullyVotedNeuronIdStrings = voted, vr_vote = v\<rparr>"

definition voting :: "string \<Rightarrow> VoteRegistrationStoreMap \<Rightarrow> VoteRegistrationStoreEntry list \<Rightarrow> string
    \<Rightarrow> string list \<Rightarrow> Vote \<Rightarrow> (nat \<times> toast_content) list \<Rightarrow> nat \<Rightarrow> 'w vote_state_scheme \<Rightarrow> bool" where
  "voting own m es p nids v ts tid s \<longleftrightarrow>
     (\<exists>voted. vs_registrations s = m(own \<mapsto> es @ [voting_entry p nids v voted VoteRegistrationPhase])) \<and>
     find_entry p es = None \<and> (\<exists>c. vs_toasts s = ts @ [(tid, c)]) \<and> tid \<notin> fst ` set ts \<and>
     vs_nextToast s = Suc tid"

lemma map_toast_fresh: "tid \<notin> fst ` set ts \<Longrightarrow> map (\<lambda>t. if fst t = tid then x else t) ts = ts"
  by (induction ts) auto

lemma filter_toast_fresh: "tid \<notin> fst ` set ts \<Longrightarrow> filter (\<lambda>t. fst t \<noteq> tid) ts = ts"
  by (auto intro!: filter_True)

lemma updateToast_step:
  assumes "voting own m es (int_to_string p) nids v ts tid s"
  shows "\<exists>s'. updateToastAfterNeuronRegistration own n p tid s = (Completed, s') \<and>
     voting own m es (int_to_string p) nids v ts tid s' \<and> vote_state.more s' = vote_state.more s"
  using assms
  by (auto simp: voting_def updateToastAfterNeuronRegistration_def Let_def voteRegistrationByProposal_def
      voting_entry_def and_then_def lift_store_def addSuccessfullyVotedNeuronId_def
      updateVoteRegistrationToastMessage_def toastsUpdate_def map_toast_fresh)

lemma settle_votes_result:
  assumes "voting own m es (int_to_string p) nids v ts tid s"
    and "\<forall>i\<in>set arrivals. i < length responses"
  shows "\<exists>s'. settle_votes own error_text response_of neuronIds p tid arrivals responses s =
       (map (\<lambda>i. if i \<in> set arrivals then response_of (neuronIds ! i) else responses ! i)
          [0..<length responses], s') \<and>
     voting own m es (int_to_string p) nids v ts tid s' \<and> vote_state.more s' = vote_state.more s"
  using assms
proof (induction arrivals arbitrary: responses s)
  case Nil
  then show ?case by (auto simp: map_nth)
next
  case (Cons i arrivals)
  let ?r = "responses[i := response_of (neuronIds ! i)]"
  have r: "map (\<lambda>j. if j \<in> set arrivals then response_of (neuronIds ! j) else ?r ! j) [0..<length ?r] =
      map (\<lambda>j. if j \<in> set (i # arrivals) then response_of (neuronIds ! j) else responses ! j)
        [0..<length responses]"
    using Cons.prems(2) by (auto simp: nth_list_update)
  show ?case
  proof (cases "response_of (neuronIds ! i) = Fulfilled")
    case True
    obtain s1 where s1: "updateToastAfterNeuronRegistration own (neuronIds ! i) p tid s = (Completed, s1)"
      "voting own m es (int_to_string p) nids v ts tid s1" "vote_state.more s1 = vote_state.more s"
      using updateToast_step[OF Cons.prems(1)] by blast
    have "settle_votes own error_text response_of neuronIds p tid (i # arrivals) responses s =
        settle_votes own error_text response_of neuronIds p tid arrivals ?r s1"
      using True s1 by simp
    moreover have "\<forall>j\<in>set arrivals. j < length ?r" using Cons.prems(2) by simp
    ultimately show ?thesis using Cons.IH[OF s1(2), of ?r] unfolding r s1(3) by simp
  next
    case False
    then have "settle_votes own error_text response_of neuronIds p tid (i # arrivals) responses s =
        settle_votes own error_text response_of neuronIds p tid arrivals ?r s"
      by simp
    moreover have "\<forall>j\<in>set arrivals. j < length ?r" using Cons.prems(2) by simp
    ultimately show ?thesis using Cons.IH[OF Cons.prems(1), of ?r] unfolding r by simp
  qed
qed

text \<open>What processRegisterVoteErrors reports.\<close>

definition rejected_votes :: "('n \<Rightarrow> settled) \<Rightarrow> 'n list \<Rightarrow> 'n list" where
  "rejected_votes response_of neuronIds =
     filter (\<lambda>n. response_of n \<noteq> Fulfilled \<and> \<not> isAlreadyVotedError (response_of n)) neuronIds"

definition vote_errors_of ::
  "('n \<Rightarrow> string) \<Rightarrow> ('n \<Rightarrow> settled) \<Rightarrow> 'n list \<Rightarrow> (string \<times> string option) list" where
  "vote_errors_of name_of response_of neuronIds =
     map (\<lambda>n. (name_of n, case response_of n of
         RejectedError reason \<Rightarrow> if reason = [] then None else Some reason | _ \<Rightarrow> None))
       (rejected_votes response_of neuronIds)"

abbreviation vote_errors :: "(int \<Rightarrow> settled) \<Rightarrow> int list \<Rightarrow> (string \<times> string option) list" where
  "vote_errors \<equiv> vote_errors_of int_to_string"

lemma filter_upt_nth: "map (\<lambda>i. f (xs ! i)) (filter (\<lambda>i. P (xs ! i)) [0..<length xs]) = map f (filter P xs)"
proof (induction xs rule: rev_induct)
  case (snoc x xs)
  have "map (\<lambda>i. f ((xs @ [x]) ! i)) (filter (\<lambda>i. P ((xs @ [x]) ! i)) [0..<length xs]) =
      map (\<lambda>i. f (xs ! i)) (filter (\<lambda>i. P (xs ! i)) [0..<length xs])"
    by (intro map_cong filter_cong) (auto simp: nth_append)
  with snoc show ?case by simp
qed simp

lemma registerVoteErrorDetails_map:
  assumes "\<forall>n\<in>set ns. response_of n \<noteq> Fulfilled"
  shows "registerVoteErrorDetails (map response_of ns) (map name_of ns) =
     map (\<lambda>n. (name_of n, case response_of n of
         RejectedError reason \<Rightarrow> if reason = [] then None else Some reason | _ \<Rightarrow> None)) ns"
proof -
  have "registerVoteErrorDetails (map response_of ns) (map name_of ns) =
      List.map_filter (\<lambda>x. x) (map (\<lambda>n. registerVoteErrorReason (name_of n) (response_of n)) ns)"
    unfolding registerVoteErrorDetails_def
    by (intro arg_cong[where f = "List.map_filter (\<lambda>x. x)"] nth_equalityI) auto
  also have "\<dots> = map (\<lambda>n. (name_of n, case response_of n of
         RejectedError reason \<Rightarrow> if reason = [] then None else Some reason | _ \<Rightarrow> None)) ns"
    using assms
    by (induction ns)
      (auto simp: List.map_filter_def registerVoteErrorReason_def split: settled.splits)
  finally show ?thesis .
qed

lemma processRegisterVoteErrors_result:
  "processRegisterVoteErrors (map response_of neuronIds) (map name_of neuronIds) p s =
     (if rejected_votes response_of neuronIds = [] then s
      else snd (toastsShow (RegisterVoteError p (vote_errors_of name_of response_of neuronIds)) s))"
proof -
  let ?P = "\<lambda>n. response_of n \<noteq> Fulfilled \<and> \<not> isAlreadyVotedError (response_of n)"
  let ?idx = "filter (\<lambda>i. ?P (neuronIds ! i)) [0..<length neuronIds]"
  have idx: "filter (\<lambda>i. map response_of neuronIds ! i \<noteq> Fulfilled \<and>
      \<not> isAlreadyVotedError (map response_of neuronIds ! i)) [0..<length neuronIds] = ?idx"
    by (intro filter_cong) auto
  have "map (\<lambda>i. map response_of neuronIds ! i) ?idx = map (\<lambda>i. response_of (neuronIds ! i)) ?idx"
    "map (\<lambda>i. map name_of neuronIds ! i) ?idx = map (\<lambda>i. name_of (neuronIds ! i)) ?idx"
    by (auto intro!: map_cong)
  then have r: "map (\<lambda>i. map response_of neuronIds ! i) ?idx = map response_of (rejected_votes response_of neuronIds)"
    "map (\<lambda>i. map name_of neuronIds ! i) ?idx = map name_of (rejected_votes response_of neuronIds)"
    using filter_upt_nth[of response_of neuronIds ?P] filter_upt_nth[of name_of neuronIds ?P]
    by (simp_all add: rejected_votes_def)
  have d: "registerVoteErrorDetails (map response_of (rejected_votes response_of neuronIds))
      (map name_of (rejected_votes response_of neuronIds)) = vote_errors_of name_of response_of neuronIds"
    unfolding vote_errors_of_def
    by (rule registerVoteErrorDetails_map) (simp add: rejected_votes_def)
  show ?thesis
    unfolding processRegisterVoteErrors_def Let_def length_map idx r d length_greater_0_conv
    by (cases "rejected_votes response_of neuronIds = []") simp_all
qed

text \<open>The toast an error of the calls leaves behind.\<close>

definition error_toasts_of ::
  "('n \<Rightarrow> string) \<Rightarrow> ('n \<Rightarrow> settled) \<Rightarrow> 'n list \<Rightarrow> string \<Rightarrow> nat \<Rightarrow> (nat \<times> toast_content) list" where
  "error_toasts_of name_of response_of neuronIds p tid =
     (if rejected_votes response_of neuronIds = [] then []
      else [(tid, RegisterVoteError p (vote_errors_of name_of response_of neuronIds))])"

abbreviation error_toasts :: "(int \<Rightarrow> settled) \<Rightarrow> int list \<Rightarrow> int \<Rightarrow> nat \<Rightarrow> (nat \<times> toast_content) list" where
  "error_toasts response_of neuronIds p \<equiv> error_toasts_of int_to_string response_of neuronIds (int_to_string p)"

lemma nns_more_eq_iff:
  "vote_state.more (s :: nns_vote_state) = vote_state.more t \<longleftrightarrow>
     nv_calls s = nv_calls t \<and> nv_proposals s = nv_proposals t \<and> nv_context s = nv_context t \<and>
     nv_actionableLoads s = nv_actionableLoads t"
  by (cases s; cases t) auto

text \<open>The calls are made and nothing else that the page or the stores are told changes.\<close>

definition nns_votes_called :: "string \<Rightarrow> int list \<Rightarrow> Vote \<Rightarrow> int \<Rightarrow> nns_vote_state \<Rightarrow> nns_vote_state \<Rightarrow> bool" where
  "nns_votes_called identity neuronIds v p s t \<longleftrightarrow>
     nv_calls t = nv_calls s @ map (\<lambda>n. RegisterVoteCall identity n v p) neuronIds \<and>
     nv_proposals t = nv_proposals s \<and> nv_context t = nv_context s \<and> nv_actionableLoads t = nv_actionableLoads s"

lemma registerNnsNeuronsVote_result:
  fixes s :: nns_vote_state
  assumes v: "voting own m es (int_to_string p) nids v ts tid s"
    and a: "set arrivals = {..<length neuronIds}"
  shows "\<exists>s' c voted. registerNnsNeuronsVote (Some identity) own error_text response_of arrivals neuronIds p v tid s = (Completed, s') \<and>
     vs_registrations s' = m(own \<mapsto> es @ [voting_entry (int_to_string p) nids v voted VoteRegistrationPhase]) \<and>
     vs_toasts s' = ts @ (tid, c) # error_toasts response_of neuronIds p (Suc tid) \<and>
     nns_votes_called identity neuronIds v p s s'"
proof -
  let ?s = "s\<lparr>nv_calls := nv_calls s @ map (\<lambda>n. RegisterVoteCall identity n v p) neuronIds\<rparr>"
  have all: "map (\<lambda>i. if i \<in> set arrivals then response_of (neuronIds ! i)
      else replicate (length neuronIds) Fulfilled ! i) [0..<length neuronIds] = map response_of neuronIds"
    using a by (intro nth_equalityI) auto
  have len: "\<forall>i\<in>set arrivals. i < length (replicate (length neuronIds) Fulfilled)" using a by simp
  have "voting own m es (int_to_string p) nids v ts tid ?s" using v by (simp add: voting_def)
  from settle_votes_result[OF this len, of error_text response_of neuronIds] obtain s1 where
    s1: "settle_votes own error_text response_of neuronIds p tid arrivals (replicate (length neuronIds) Fulfilled) ?s =
      (map response_of neuronIds, s1)" "voting own m es (int_to_string p) nids v ts tid s1"
      "vote_state.more s1 = vote_state.more ?s"
    unfolding length_replicate all by blast
  then have "nns_votes_called identity neuronIds v p s s1" by (simp add: nns_more_eq_iff nns_votes_called_def)
  with s1(1,2) show ?thesis
    by (auto simp: registerNnsNeuronsVote_def processRegisterVoteErrors_result error_toasts_of_def
        toastsShow_def voting_def nns_votes_called_def)
qed

text \<open>The try block up to the reload.\<close>

definition votes_registered :: "string \<Rightarrow> 'w vote_state_scheme \<Rightarrow> VoteRegistrationStoreEntry list" where
  "votes_registered own s = (case vs_registrations s own of None \<Rightarrow> [] | Some es \<Rightarrow> es)"

definition vote_state_ok :: "'w vote_state_scheme \<Rightarrow> bool" where
  "vote_state_ok s \<longleftrightarrow> (\<forall>t\<in>set (vs_toasts s). fst t < vs_nextToast s)"

lemma add_creates_voting:
  assumes "find_entry p (votes_registered own s) = None" and "vote_state_ok s"
  shows "\<exists>s2. lift_store (voteRegistration_add v p nids own)
        (snd (createRegisterVotesToast v p nids s)) = (Completed, s2) \<and>
     voting own (vs_registrations s) (votes_registered own s) p nids v (vs_toasts s) (vs_nextToast s) s2 \<and>
     vote_state.more s2 = vote_state.more s"
  using assms
  by (cases "vs_registrations s own")
    (auto simp: createRegisterVotesToast_def toastsShow_def lift_store_def voteRegistration_add_def
      voting_def voting_entry_def votes_registered_def vote_state_ok_def)

text \<open>
  Up to the reload the try block always gets through, when the registration of the votes does: it leaves the entry
  and the toast of the vote, and the toasts extra of its own.
\<close>

lemma manageVotes_try_run:
  fixes s :: "'w vote_state_scheme"
  assumes none: "find_entry p (votes_registered own s) = None" and ok: "vote_state_ok s"
    and reg: "\<And>s2. voting own (vs_registrations s) (votes_registered own s) p nids v (vs_toasts s) (vs_nextToast s) s2 \<Longrightarrow>
      vote_state.more s2 = vote_state.more s \<Longrightarrow>
      \<exists>s3 c voted. registerNeuronVotes (vs_nextToast s) s2 = (Completed, s3) \<and>
        vs_registrations s3 = (vs_registrations s)(own \<mapsto> votes_registered own s @ [voting_entry p nids v voted VoteRegistrationPhase]) \<and>
        vs_toasts s3 = vs_toasts s @ (vs_nextToast s, c) # extra \<and> Q (vote_state.more s3)"
    and extra: "vs_nextToast s \<notin> fst ` set extra"
  shows "\<exists>s4 voted. manageVotes_try own nids p v registerNeuronVotes post
        (vs_nextToast s) (snd (createRegisterVotesToast v p nids s)) =
      and_then post (and_then (\<lambda>s1. (Completed, toastsHide (vs_nextToast s) s1))
        (lift_store (voteRegistration_remove p own))) s4 \<and>
    vs_registrations s4 = (vs_registrations s)(own \<mapsto> votes_registered own s @ [voting_entry p nids v voted PostUpdatePhase]) \<and>
    vs_toasts s4 = vs_toasts s @ (vs_nextToast s, UpdatingToast (v = VoteYes) p) # extra \<and> Q (vote_state.more s4)"
proof -
  let ?tid = "vs_nextToast s"
  obtain s2 where s2: "lift_store (voteRegistration_add v p nids own)
      (snd (createRegisterVotesToast v p nids s)) = (Completed, s2)"
    "voting own (vs_registrations s) (votes_registered own s) p nids v (vs_toasts s) ?tid s2"
    "vote_state.more s2 = vote_state.more s"
    using add_creates_voting none ok by blast
  obtain s3 c voted where s3: "registerNeuronVotes ?tid s2 = (Completed, s3)"
    "vs_registrations s3 = (vs_registrations s)(own \<mapsto> votes_registered own s @
      [voting_entry p nids v voted VoteRegistrationPhase])"
    "vs_toasts s3 = vs_toasts s @ (?tid, c) # extra" "Q (vote_state.more s3)"
    using reg [OF s2(2,3)] by blast
  define m' where "m' = (vs_registrations s)(own \<mapsto> votes_registered own s @ [voting_entry p nids v voted PostUpdatePhase])"
  define s4 where "s4 = toastsUpdate ?tid (UpdatingToast (v = VoteYes) p) (s3\<lparr>vs_registrations := m'\<rparr>)"
  have us: "lift_store (voteRegistration_updateStatus p PostUpdatePhase own) s3 = (Completed, s3\<lparr>vs_registrations := m'\<rparr>)"
    using none by (simp add: lift_store_def voteRegistration_updateStatus_def s3(2) voting_entry_def m'_def)
  have su: "showUpdating own nids p v ?tid (s3\<lparr>vs_registrations := m'\<rparr>) = (Completed, s4)"
    using none by (simp add: showUpdating_def voteRegistrationByProposal_def m'_def voting_entry_def
        updateVoteRegistrationToastMessage_def s4_def)
  have "?tid \<notin> fst ` set (vs_toasts s)" using ok by (auto simp: vote_state_ok_def)
  then have "vs_toasts s4 = vs_toasts s @ (?tid, UpdatingToast (v = VoteYes) p) # extra"
    using extra by (simp add: s4_def toastsUpdate_def s3(3) map_toast_fresh)
  moreover have "vs_registrations s4 = m'" "Q (vote_state.more s4)" using s3(4) by (simp_all add: s4_def toastsUpdate_def)
  moreover have "manageVotes_try own nids p v registerNeuronVotes post ?tid (snd (createRegisterVotesToast v p nids s)) =
      and_then post (and_then (\<lambda>s1. (Completed, toastsHide ?tid s1)) (lift_store (voteRegistration_remove p own))) s4"
    unfolding manageVotes_try_def
    by (simp add: and_then_def s2(1) s3(1) us su split del: action_result.split prod.split)
  ultimately show ?thesis unfolding m'_def by blast
qed

lemma error_toasts_fresh: "tid \<notin> fst ` set (error_toasts_of name_of response_of neuronIds p (Suc tid))"
  by (simp add: error_toasts_of_def)

lemma manageVotes_until_reload:
  fixes s :: nns_vote_state
  assumes "find_entry (int_to_string p) (votes_registered own s) = None" and "vote_state_ok s"
    and "set arrivals = {..<length neuronIds}"
  shows "\<exists>s4 voted. manageVotes_try own (map int_to_string neuronIds) (int_to_string p) v
        (\<lambda>toastId. registerNnsNeuronsVote (Some identity) own error_text response_of arrivals neuronIds p v toastId) post
        (vs_nextToast s) (snd (createRegisterVotesToast v (int_to_string p) (map int_to_string neuronIds) s)) =
      and_then post (and_then (\<lambda>s1. (Completed, toastsHide (vs_nextToast s) s1))
        (lift_store (voteRegistration_remove (int_to_string p) own))) s4 \<and>
    vs_registrations s4 = (vs_registrations s)(own \<mapsto> votes_registered own s @
      [voting_entry (int_to_string p) (map int_to_string neuronIds) v voted PostUpdatePhase]) \<and>
    vs_toasts s4 = vs_toasts s @ (vs_nextToast s, UpdatingToast (v = VoteYes) (int_to_string p)) #
      error_toasts response_of neuronIds p (Suc (vs_nextToast s)) \<and>
    nns_votes_called identity neuronIds v p s s4"
proof -
  let ?nids = "map int_to_string neuronIds" and ?p = "int_to_string p" and ?tid = "vs_nextToast s"
  let ?extra = "error_toasts response_of neuronIds p (Suc ?tid)"
  let ?Q = "\<lambda>more. \<forall>x :: nns_vote_state. vote_state.more x = more \<longrightarrow> nns_votes_called identity neuronIds v p s x"
  let ?reg = "\<lambda>toastId. registerNnsNeuronsVote (Some identity) own error_text response_of arrivals neuronIds p v toastId"
  have "\<exists>s3 c voted. ?reg ?tid s2 = (Completed, s3) \<and>
      vs_registrations s3 = (vs_registrations s)(own \<mapsto> votes_registered own s @ [voting_entry ?p ?nids v voted VoteRegistrationPhase]) \<and>
      vs_toasts s3 = vs_toasts s @ (?tid, c) # ?extra \<and> ?Q (vote_state.more s3)"
    if "voting own (vs_registrations s) (votes_registered own s) ?p ?nids v (vs_toasts s) ?tid s2"
      "vote_state.more s2 = vote_state.more s" for s2 :: nns_vote_state
    using registerNnsNeuronsVote_result [OF that(1) assms(3), of identity error_text response_of] that(2)
    unfolding nns_more_eq_iff nns_votes_called_def by (metis (no_types, lifting))
  from manageVotes_try_run [where nids = ?nids and registerNeuronVotes = ?reg and post = post and Q = ?Q and v = v,
      OF assms(1,2) this error_toasts_fresh] show ?thesis by blast
qed

lemma manageVotes_toast:
  "manageVotesRegistration own nids p v reg post s =
     (case manageVotes_try own nids p v reg post (vs_nextToast s) (snd (createRegisterVotesToast v p nids s)) of
        (Threw err, s2) \<Rightarrow> snd (toastsShow (RegisterVoteUnknown err) s2)
      | (_, s2) \<Rightarrow> s2)"
  by (simp add: manageVotesRegistration_def createRegisterVotesToast_def toastsShow_def)

subsection \<open>Properties\<close>

text \<open>
  After any sequence of operations on the vote registration store, failing ones included, every
  universe holds at most one entry per proposal and no entry lists a voted neuron twice.
\<close>

lemma vote_store_invariant:
  "votes_inv (foldl run_vote_op voteRegistration_reset ops)"
proof (induction ops rule: rev_induct)
  case Nil
  then show ?case by (simp add: voteRegistration_reset_def votes_inv_def)
next
  case (snoc op ops)
  then show ?case by (auto simp: run_vote_op_def intro: votes_inv_op split: sum.splits)
qed

text \<open>The reload succeeds: the store of proposals takes the new one in the place of the old one.\<close>

lemma postRegistration_ok:
  assumes "store_run d log (nv_proposals s)"
  shows "\<exists>replaced. postRegistration_nns Completed p (ReloadedProposal q) s =
       (Completed, s\<lparr>nv_proposals := replaced, nv_context := nv_context s @ [q], nv_actionableLoads := Suc (nv_actionableLoads s)\<rparr>) \<and>
     exposed replaced = replaceProposals_mutation [q] True (exposed (nv_proposals s))"
proof -
  obtain key reserved where r: "getSingleMutationStore None (nv_proposals s) = (key, reserved)" by force
  obtain replaced where "replaceProposals_store key [q] True reserved = Inr replaced"
    "exposed replaced = replaceProposals_mutation [q] True (exposed (nv_proposals s))"
    using queued.fresh_add [OF store_run_rel [OF assms] r]
    unfolding replaceProposals_store_def single_update_def by blast
  then show ?thesis
    by (intro exI [of _ replaced]) (simp add: postRegistration_nns_def updateAfterNnsVoteRegistration_def reloadProposal_def r)
qed

text \<open>Otherwise it does not complete, and at most shows that the proposal was not found.\<close>

definition reload_toasts :: "int \<Rightarrow> reload_response \<Rightarrow> toast_content list" where
  "reload_toasts p response =
     (case response of NoProposal \<Rightarrow> [ProposalNotFound p None] | ReloadError details \<Rightarrow> [ProposalNotFound p details] | _ \<Rightarrow> [])"

lemma postRegistration_fails:
  assumes "listR \<noteq> Completed \<or> (\<forall>q. response \<noteq> ReloadedProposal q)"
  shows "\<exists>t. postRegistration_nns listR p response s = (case listR of Threw e \<Rightarrow> Threw e | _ \<Rightarrow> Pending, t) \<and>
     map snd (vs_toasts t) = map snd (vs_toasts s) @ reload_toasts p response \<and> set (vs_toasts s) \<subseteq> set (vs_toasts t) \<and>
     vs_registrations t = vs_registrations s \<and> vote_state.more t = vote_state.more s"
  using assms
  by (cases listR; cases response)
    (auto simp: postRegistration_nns_def updateAfterNnsVoteRegistration_def reloadProposal_def reload_toasts_def toastsShow_def)

text \<open>What registerNnsVotes leaves, in both cases.\<close>

lemma registerNnsVotes_completes:
  fixes s :: nns_vote_state
  assumes "find_entry (int_to_string p) (votes_registered own s) = None" and "vote_state_ok s"
    and "set arrivals = {..<length neuronIds}" and "store_run d log (nv_proposals s)"
    and "t = registerNnsVotes (Some identity) own error_text response_of arrivals Completed (ReloadedProposal q) neuronIds p v s"
  shows "nv_calls t = nv_calls s @ map (\<lambda>n. RegisterVoteCall identity n v p) neuronIds \<and>
    vs_registrations t = (vs_registrations s)(own \<mapsto> votes_registered own s) \<and>
    vs_toasts t = vs_toasts s @ error_toasts response_of neuronIds p (Suc (vs_nextToast s)) \<and>
    exposed (nv_proposals t) = replaceProposals_mutation [q] True (exposed (nv_proposals s)) \<and>
    nv_context t = nv_context s @ [q] \<and> nv_actionableLoads t = Suc (nv_actionableLoads s)"
proof -
  let ?post = "postRegistration_nns Completed p (ReloadedProposal q)"
  obtain s4 voted where s4:
    "manageVotes_try own (map int_to_string neuronIds) (int_to_string p) v
        (\<lambda>toastId. registerNnsNeuronsVote (Some identity) own error_text response_of arrivals neuronIds p v toastId) ?post
        (vs_nextToast s) (snd (createRegisterVotesToast v (int_to_string p) (map int_to_string neuronIds) s)) =
      and_then ?post (and_then (\<lambda>s1. (Completed, toastsHide (vs_nextToast s) s1))
          (lift_store (voteRegistration_remove (int_to_string p) own))) s4"
    "vs_registrations s4 = (vs_registrations s)(own \<mapsto> votes_registered own s @
      [voting_entry (int_to_string p) (map int_to_string neuronIds) v voted PostUpdatePhase])"
    "vs_toasts s4 = vs_toasts s @ (vs_nextToast s, UpdatingToast (v = VoteYes) (int_to_string p)) #
      error_toasts response_of neuronIds p (Suc (vs_nextToast s))" "nns_votes_called identity neuronIds v p s s4"
    using manageVotes_until_reload[OF assms(1-3)] by blast
  then have c: "nv_calls s4 = nv_calls s @ map (\<lambda>n. RegisterVoteCall identity n v p) neuronIds"
    "nv_proposals s4 = nv_proposals s" "nv_context s4 = nv_context s" "nv_actionableLoads s4 = nv_actionableLoads s"
    by (simp_all add: nns_votes_called_def)
  obtain replaced where post: "?post s4 =
       (Completed, s4\<lparr>nv_proposals := replaced, nv_context := nv_context s4 @ [q], nv_actionableLoads := Suc (nv_actionableLoads s4)\<rparr>)"
    "exposed replaced = replaceProposals_mutation [q] True (exposed (nv_proposals s))"
    using postRegistration_ok [of d log s4] assms(4) c(2) by auto
  have fresh: "vs_nextToast s \<notin> fst ` set (vs_toasts s)"
    "vs_nextToast s \<notin> fst ` set (error_toasts response_of neuronIds p (Suc (vs_nextToast s)))"
    using assms(2) by (auto simp: vote_state_ok_def error_toasts_of_def)
  show ?thesis
    unfolding assms(5) registerNnsVotes_def manageVotes_toast s4(1) using assms(1) fresh
    by (simp add: and_then_def post toastsHide_def lift_store_def voteRegistration_remove_def s4(2,3) c filter_toast_fresh
        voting_entry_def)
qed

lemma registerNnsVotes_stays:
  fixes s :: nns_vote_state
  assumes "find_entry (int_to_string p) (votes_registered own s) = None" and "vote_state_ok s"
    and "set arrivals = {..<length neuronIds}" and fails: "listR \<noteq> Completed \<or> (\<forall>q. response \<noteq> ReloadedProposal q)"
    and "t = registerNnsVotes (Some identity) own error_text response_of arrivals listR response neuronIds p v s"
  shows "\<exists>voted. vs_registrations t = (vs_registrations s)(own \<mapsto> votes_registered own s @
        [voting_entry (int_to_string p) (map int_to_string neuronIds) v voted PostUpdatePhase]) \<and>
    (vs_nextToast s, UpdatingToast (v = VoteYes) (int_to_string p)) \<in> set (vs_toasts t) \<and>
    map snd (vs_toasts t) = map snd (vs_toasts s) @ UpdatingToast (v = VoteYes) (int_to_string p) #
      map snd (error_toasts response_of neuronIds p (Suc (vs_nextToast s))) @ reload_toasts p response @
      (case listR of Threw e \<Rightarrow> [RegisterVoteUnknown e] | _ \<Rightarrow> []) \<and>
    nns_votes_called identity neuronIds v p s t"
proof -
  let ?post = "postRegistration_nns listR p response"
  obtain s4 voted where s4:
    "manageVotes_try own (map int_to_string neuronIds) (int_to_string p) v
        (\<lambda>toastId. registerNnsNeuronsVote (Some identity) own error_text response_of arrivals neuronIds p v toastId) ?post
        (vs_nextToast s) (snd (createRegisterVotesToast v (int_to_string p) (map int_to_string neuronIds) s)) =
      and_then ?post (and_then (\<lambda>s1. (Completed, toastsHide (vs_nextToast s) s1))
          (lift_store (voteRegistration_remove (int_to_string p) own))) s4"
    "vs_registrations s4 = (vs_registrations s)(own \<mapsto> votes_registered own s @
      [voting_entry (int_to_string p) (map int_to_string neuronIds) v voted PostUpdatePhase])"
    "vs_toasts s4 = vs_toasts s @ (vs_nextToast s, UpdatingToast (v = VoteYes) (int_to_string p)) #
      error_toasts response_of neuronIds p (Suc (vs_nextToast s))" "nns_votes_called identity neuronIds v p s s4"
    using manageVotes_until_reload[OF assms(1-3)] by blast
  obtain u where u: "?post s4 = (case listR of Threw e \<Rightarrow> Threw e | _ \<Rightarrow> Pending, u)"
    "map snd (vs_toasts u) = map snd (vs_toasts s4) @ reload_toasts p response" "set (vs_toasts s4) \<subseteq> set (vs_toasts u)"
    "vs_registrations u = vs_registrations s4" "vote_state.more u = vote_state.more s4"
    using postRegistration_fails [OF fails] by blast
  have t: "t = (case listR of Threw e \<Rightarrow> snd (toastsShow (RegisterVoteUnknown e) u) | _ \<Rightarrow> u)"
    unfolding assms(5) registerNnsVotes_def manageVotes_toast s4(1)
    using u(1) by (cases listR) (simp_all add: and_then_def)
  have "nns_votes_called identity neuronIds v p s u"
    using s4(4) u(5) by (simp add: nns_more_eq_iff nns_votes_called_def)
  then show ?thesis
    using u(2,3,4) s4(2,3)
    by (intro exI [of _ voted]) (cases listR; simp add: t toastsShow_def nns_votes_called_def)
qed

text \<open>
  C4: What becomes of a vote with several neurons on a proposal that is not being voted on, whatever the calls answer and
  in whatever order they settle.  Each neuron gets one call, in order, signed by the user.  When the neurons are listed and the
  proposal arrives on the reload, the vote cleans up after itself: its entry is gone, the progress toast is hidden, and what is
  left is one error toast exactly when some call failed for another reason than that the neuron had already voted, with those
  neurons in order and their reasons; the new proposal takes the place of the old one in the list shown, the page gets it,
  and the actionable proposals are loaded again.  In all other cases the entry and the progress toast stay, and the proposals, the
  page and the actionable proposals are not told anything.
\<close>

theorem vote_registration_outcome:
  fixes s :: nns_vote_state
  assumes "find_entry (int_to_string p) (votes_registered own s) = None" and "vote_state_ok s"
    and "set arrivals = {..<length neuronIds}" and "store_run d log (nv_proposals s)"
    and "t = registerNnsVotes (Some identity) own error_text response_of arrivals listR response neuronIds p v s"
  shows "nv_calls t = nv_calls s @ map (\<lambda>n. RegisterVoteCall identity n v p) neuronIds \<and>
    (case (listR, response) of
       (Completed, ReloadedProposal q) \<Rightarrow>
         vs_registrations t = (vs_registrations s)(own \<mapsto> votes_registered own s) \<and>
         vs_toasts t = vs_toasts s @ error_toasts response_of neuronIds p (Suc (vs_nextToast s)) \<and>
         ps_proposals (exposed (nv_proposals t)) = replaceProposals (ps_proposals (exposed (nv_proposals s))) [q] \<and>
         nv_context t = nv_context s @ [q] \<and> nv_actionableLoads t = Suc (nv_actionableLoads s)
     | _ \<Rightarrow>
         (\<exists>voted. vs_registrations t = (vs_registrations s)(own \<mapsto> votes_registered own s @
            [voting_entry (int_to_string p) (map int_to_string neuronIds) v voted PostUpdatePhase])) \<and>
         map snd (vs_toasts t) = map snd (vs_toasts s) @ UpdatingToast (v = VoteYes) (int_to_string p) #
           map snd (error_toasts response_of neuronIds p (Suc (vs_nextToast s))) @ reload_toasts p response @
           (case listR of Threw e \<Rightarrow> [RegisterVoteUnknown e] | _ \<Rightarrow> []) \<and>
         nv_proposals t = nv_proposals s \<and> nv_context t = nv_context s \<and> nv_actionableLoads t = nv_actionableLoads s)"
proof (cases "listR = Completed \<and> (\<exists>q. response = ReloadedProposal q)")
  case True
  then obtain q where "listR = Completed" "response = ReloadedProposal q" by blast
  with registerNnsVotes_completes [OF assms(1-4), of t identity error_text response_of q v] assms(5) show ?thesis
    by (simp add: replaceProposals_mutation_def)
next
  case False
  then show ?thesis
    using registerNnsVotes_stays [OF assms(1-3) _ assms(5)]
    by (auto simp: nns_votes_called_def split: action_result.split reload_response.split)
qed

text \<open>Two neurons, one of which had voted already; the proposal is the one shown.\<close>

definition start_nns_vote :: "ProposalInfo list \<Rightarrow> nns_vote_state" where
  "start_nns_vote ps =
     \<lparr>vs_registrations = Map.empty, vs_toasts = [], vs_nextToast = 0, nv_calls = [],
      nv_proposals = queuedStore \<lparr>ps_proposals = ps, ps_certified = Some True\<rparr>, nv_context = [], nv_actionableLoads = 0\<rparr>"

lemma start_nns_vote_ok:
  "find_entry p (votes_registered own (start_nns_vote ps)) = None" "vote_state_ok (start_nns_vote ps)"
  "store_run \<lparr>ps_proposals = ps, ps_certified = Some True\<rparr> [] (nv_proposals (start_nns_vote ps))"
  by (simp_all add: start_nns_vote_def votes_registered_def vote_state_ok_def find_entry_def store_run.created)

lemma vote_registration_outcome_witness:
  "let t = registerNnsVotes (Some ''me'') ''own'' (\<lambda>_. [])
      (\<lambda>n. if n = 7 then RejectedError ''Neuron already voted on proposal.'' else Fulfilled)
      [1, 0] Completed (ReloadedProposal (plain_proposal 3)) [7, 8] 3 VoteYes (start_nns_vote [plain_proposal 3])
   in vs_toasts t = [] \<and> nv_context t = [plain_proposal 3] \<and> nv_calls t = [RegisterVoteCall ''me'' 7 VoteYes 3, RegisterVoteCall ''me'' 8 VoteYes 3]"
proof -
  have "set [1, 0] = {..<length [7, 8 :: int]}" by auto
  from vote_registration_outcome [where p = 3 and listR = Completed and
      response = "ReloadedProposal (plain_proposal 3)" and v = VoteYes and error_text = "\<lambda>_. []" and identity = "''me''" and own = "''own''" and
      response_of = "\<lambda>n. if n = 7 then RejectedError ''Neuron already voted on proposal.'' else Fulfilled",
      OF start_nns_vote_ok(1,2) this start_nns_vote_ok(3) refl, of "[plain_proposal 3]"]
  show ?thesis
    by (simp add: Let_def error_toasts_of_def rejected_votes_def isAlreadyVotedError_def start_nns_vote_def)
qed

text \<open>
  C5: When the proposal does not arrive on the reload that follows a vote, nothing is cleaned up: the
  promise stays pending, the entry of the vote and its progress toast stay, and from then on every
  attempt to vote on that proposal fails with the error "Simultaneous proposal voting", casting no vote.
\<close>

theorem vote_reload_failure_blocks_proposal:
  fixes s :: nns_vote_state
  assumes "find_entry (int_to_string p) (votes_registered own s) = None" and "vote_state_ok s"
    and "set arrivals = {..<length neuronIds}" and "\<forall>q. response \<noteq> ReloadedProposal q"
    and "s1 = registerNnsVotes (Some identity) own error_text response_of arrivals Completed response neuronIds p v s"
  shows "(vs_nextToast s, UpdatingToast (v = VoteYes) (int_to_string p)) \<in> set (vs_toasts s1) \<and>
    find_entry (int_to_string p) (votes_registered own s1) \<noteq> None \<and>
    vs_registrations (registerNnsVotes userB own error_text responseB arrivalsB listB arrivesB neuronIdsB p vB s1) =
      vs_registrations s1 \<and>
    nv_calls (registerNnsVotes userB own error_text responseB arrivalsB listB arrivesB neuronIdsB p vB s1) = nv_calls s1 \<and>
    map snd (vs_toasts (registerNnsVotes userB own error_text responseB arrivalsB listB arrivesB neuronIdsB p vB s1)) =
      map snd (vs_toasts s1) @ [VotingToast (vB = VoteYes) (int_to_string p) 0 (length neuronIdsB),
        RegisterVoteUnknown SimultaneousProposalVoting]"
proof -
  obtain voted where s1: "vs_registrations s1 = (vs_registrations s)(own \<mapsto> votes_registered own s @
        [voting_entry (int_to_string p) (map int_to_string neuronIds) v voted PostUpdatePhase])"
    "(vs_nextToast s, UpdatingToast (v = VoteYes) (int_to_string p)) \<in> set (vs_toasts s1)"
    using registerNnsVotes_stays [OF assms(1-3) _ assms(5)] assms(4) by blast
  have "find_entry (int_to_string p) (votes_registered own s1) \<noteq> None"
    using assms(1) by (simp add: votes_registered_def s1(1) voting_entry_def)
  moreover obtain es where es: "vs_registrations s1 own = Some es" "find_entry (int_to_string p) es \<noteq> None"
    using calculation by (auto simp: votes_registered_def s1(1))
  ultimately show ?thesis
    using es s1(2) by (simp add: registerNnsVotes_def manageVotes_toast manageVotes_try_def
        and_then_def lift_store_def createRegisterVotesToast_def toastsShow_def voteRegistration_add_def)
qed

lemma vote_reload_failure_blocks_proposal_witness:
  "let s1 = registerNnsVotes (Some ''me'') ''own'' (\<lambda>_. []) (\<lambda>_. Fulfilled) [0] Completed NoProposal [7] 3 VoteYes (start_nns_vote [plain_proposal 3])
   in nv_calls (registerNnsVotes (Some ''me'') ''own'' (\<lambda>_. []) (\<lambda>_. Fulfilled) [0] Completed (ReloadedProposal (plain_proposal 3)) [8] 3 VoteYes s1) =
      nv_calls s1"
proof -
  have "set [0] = {..<length [7 :: int]}" by auto
  from vote_reload_failure_blocks_proposal [where p = 3 and own = "''own''", OF start_nns_vote_ok(1,2) this _ refl]
  show ?thesis by (simp add: Let_def)
qed

end
