(* ===== verification/Ledger.thy ===== *)
theory Ledger
  imports Utils "HOL-Library.Word"
begin

text \<open>
  The hardware wallet: frontend/src/lib/keys/secp256k1.ts, utils/ledger.utils.ts and
  identities/ledger.identity.ts.  A buffer is the list of its bytes.  The device, its transport, the
  principal of a key, the CBOR encoding and the request id come from packages and are fields of the
  record ledger_env or arguments.
\<close>

type_synonym bytes = "8 word list"

text \<open>
  The errors the code throws: the type errors of the keys, an error with the key of a label (and
  whether it renders as HTML), the errors with a filled-in label, and whatever the device rejects
  with.
\<close>

datatype ledger_error =
    RawKeyLength nat
  | DerKeyLength nat
  | DerKeyInvalid
  | LedgerErrorKey string bool
  | SignatureUnexpected int "string option"
  | SignatureLength nat
  | ConnectNotSupported string
  | RequestIdMissing
  | DeviceError string

subsection \<open>keys/secp256k1.ts\<close>

definition RAW_KEY_LENGTH :: nat where
  "RAW_KEY_LENGTH = 65"

definition DER_PREFIX :: bytes where
  "DER_PREFIX = [0x30, 0x56, 0x30, 0x10, 0x06, 0x07, 0x2a, 0x86, 0x48, 0xce, 0x3d, 0x02, 0x01,
     0x06, 0x05, 0x2b, 0x81, 0x04, 0x00, 0x0a, 0x03, 0x42, 0x00]"

record Secp256k1PublicKey =
  pk_rawKey :: bytes
  pk_derKey :: bytes

definition derEncode :: "bytes \<Rightarrow> ledger_error + bytes" where
  "derEncode publicKey =
     (if length publicKey \<noteq> RAW_KEY_LENGTH then Inl (RawKeyLength (length publicKey))
      else Inr (DER_PREFIX @ publicKey))"

definition derDecode :: "bytes \<Rightarrow> ledger_error + bytes" where
  "derDecode key =
     (let expectedLength = length DER_PREFIX + RAW_KEY_LENGTH
      in if length key \<noteq> expectedLength then Inl (DerKeyLength (length key))
         else let rawKey = take (length DER_PREFIX) key
              in case derEncode rawKey of
                   Inl e \<Rightarrow> Inl e
                 | Inr encoded \<Rightarrow> if encoded \<noteq> key then Inl DerKeyInvalid else Inr rawKey)"

text \<open>The constructor encodes the key at once, so it throws for a key of the wrong length.\<close>

definition Secp256k1PublicKey_constructor :: "bytes \<Rightarrow> ledger_error + Secp256k1PublicKey" where
  "Secp256k1PublicKey_constructor key =
     (case derEncode key of
        Inl e \<Rightarrow> Inl e
      | Inr derKey \<Rightarrow> Inr \<lparr>pk_rawKey = key, pk_derKey = derKey\<rparr>)"

definition fromRaw :: "bytes \<Rightarrow> ledger_error + Secp256k1PublicKey" where
  "fromRaw rawKey = Secp256k1PublicKey_constructor rawKey"

definition fromDer :: "bytes \<Rightarrow> ledger_error + Secp256k1PublicKey" where
  "fromDer derKey =
     (case derDecode derKey of
        Inl e \<Rightarrow> Inl e
      | Inr rawKey \<Rightarrow> Secp256k1PublicKey_constructor rawKey)"

definition toDer :: "Secp256k1PublicKey \<Rightarrow> bytes" where
  "toDer key = pk_derKey key"

definition toRaw :: "Secp256k1PublicKey \<Rightarrow> bytes" where
  "toRaw key = pk_rawKey key"

text \<open>from takes any public key, of which it only calls toDer.\<close>

definition from_key :: "bytes \<Rightarrow> ledger_error + Secp256k1PublicKey" where
  "from_key key_toDer = fromDer key_toDer"

text \<open>
  The fields of an instance as the class declares them: the two keys are private names (#rawKey, #derKey), and the
  getters rawKey and derKey live on the prototype, so they are no fields.  JSON.stringify writes the fields that are
  properties, which private names are not; an ArrayBuffer has no enumerable property itself and is written as {}.
\<close>

datatype class_field = PrivateName string bytes | PropertyName string bytes

definition instance_fields :: "Secp256k1PublicKey \<Rightarrow> class_field list" where
  "instance_fields key = [PrivateName ''rawKey'' (pk_rawKey key), PrivateName ''derKey'' (pk_derKey key)]"

definition enumerable_properties :: "class_field list \<Rightarrow> (string \<times> bytes) list" where
  "enumerable_properties fs =
     List.map_filter (\<lambda>f. case f of PropertyName name value \<Rightarrow> Some (name, value) | PrivateName _ _ \<Rightarrow> None) fs"

definition JSON_stringify_fields :: "class_field list \<Rightarrow> string" where
  "JSON_stringify_fields fs =
     ''{'' @ join_with '','' (map (\<lambda>(name, value). [CHR 0x22] @ name @ [CHR 0x22] @ '':{}'') (enumerable_properties fs)) @ ''}''"

definition JSON_stringify_key :: "Secp256k1PublicKey \<Rightarrow> string" where
  "JSON_stringify_key key = JSON_stringify_fields (instance_fields key)"

subsection \<open>utils/ledger.utils.ts\<close>

definition AppNotOpen :: int where
  "AppNotOpen = 28161"

definition CannotFetchPublicKey :: int where
  "CannotFetchPublicKey = 65535"

definition LEDGER_SIGNATURE_LENGTH :: nat where
  "LEDGER_SIGNATURE_LENGTH = 64"

text \<open>A read_state request and the other requests, whose content is opaque here.\<close>

record ReadStateRequest =
  rs_paths :: "bytes list list"
  rs_ingress_expiry :: int
  rs_sender :: string

record CallRequest =
  cr_content :: string
  cr_ingress_expiry :: int
  cr_sender :: string

datatype request_body = ReadStateBody ReadStateRequest | CallBody CallRequest

datatype endpoint = EndpointCall | EndpointQuery | EndpointReadState

record HttpAgentRequest =
  hr_endpoint :: endpoint
  hr_body :: request_body
  hr_fields :: string

record SignedRequest =
  sr_fields :: string
  sr_content :: request_body
  sr_sender_pubkey :: bytes
  sr_sender_sig :: bytes

record ResponseAddress =
  ra_principalText :: string
  ra_publicKey :: bytes
  ra_returnCode :: int

text \<open>A Buffer is a window into an underlying ArrayBuffer.\<close>

record Buffer =
  buf_buffer :: bytes
  buf_byteOffset :: nat
  buf_byteLength :: nat

record ResponseSign =
  rsg_signatureRS :: "Buffer option"
  rsg_returnCode :: int
  rsg_errorMessage :: "string option"

record ResponseSignUpdateCall =
  rsu_RequestSignatureRS :: "Buffer option"
  rsu_StatusReadSignatureRS :: "Buffer option"
  rsu_returnCode :: int
  rsu_errorMessage :: "string option"

record ResponseVersion =
  rv_major :: int
  rv_minor :: int
  rv_patch :: int

text \<open>
  The Ledger app on a connected device (@zondax/ledger-icp): each call resolves or rejects with a
  text.  The last argument of the signing calls is 1 for a stake neuron transaction.
\<close>

record LedgerApp =
  la_getAddressAndPubKey :: "string \<Rightarrow> string + ResponseAddress"
  la_sign :: "string \<Rightarrow> bytes \<Rightarrow> nat \<Rightarrow> string + ResponseSign"
  la_signUpdateCall :: "string \<Rightarrow> bytes \<Rightarrow> bytes \<Rightarrow> nat \<Rightarrow> string + ResponseSignUpdateCall"
  la_getVersion :: "string + ResponseVersion"

text \<open>What else the packages provide.\<close>

record ledger_env =
  env_TransactionRejected :: int
  env_selfAuthenticatingText :: "bytes \<Rightarrow> string"
  env_smallerVersion :: "string \<Rightarrow> string \<Rightarrow> bool"
  env_requestIdOf :: "request_body \<Rightarrow> bytes"
  env_cbor :: "request_body \<Rightarrow> bytes"

definition decodePublicKey ::
  "ledger_env \<Rightarrow> ResponseAddress \<Rightarrow> ledger_error + Secp256k1PublicKey" where
  "decodePublicKey env response =
     (if ra_returnCode response = AppNotOpen
      then Inl (LedgerErrorKey ''error__ledger.please_open'' False)
      else if ra_returnCode response = env_TransactionRejected env
      then Inl (LedgerErrorKey ''error__ledger.locked'' False)
      else if ra_returnCode response = CannotFetchPublicKey
      then Inl (LedgerErrorKey ''error__ledger.fetch_public_key'' False)
      else case fromRaw (ra_publicKey response) of
          Inl e \<Rightarrow> Inl e
        | Inr publicKey \<Rightarrow>
            if ra_principalText response \<noteq> env_selfAuthenticatingText env (toDer publicKey)
            then Inl (LedgerErrorKey ''error__ledger.principal_not_match'' False)
            else Inr publicKey)"

definition checkResponseCode :: "ledger_env \<Rightarrow> int \<Rightarrow> ledger_error + unit" where
  "checkResponseCode env returnCode =
     (if returnCode = env_TransactionRejected env
      then Inl (LedgerErrorKey ''error__ledger.user_rejected_transaction'' False) else Inr ())"

definition checkSignature :: "Buffer option \<Rightarrow> int \<Rightarrow> string option \<Rightarrow> ledger_error + Buffer" where
  "checkSignature signature returnCode errorMessage =
     (case signature of
        None \<Rightarrow> Inl (SignatureUnexpected returnCode errorMessage)
      | Some buffer \<Rightarrow>
          if buf_byteLength buffer \<noteq> LEDGER_SIGNATURE_LENGTH
          then Inl (SignatureLength (buf_byteLength buffer)) else Inr buffer)"

definition bufferToArrayBuffer :: "Buffer \<Rightarrow> bytes" where
  "bufferToArrayBuffer buffer =
     take (buf_byteLength buffer) (drop (buf_byteOffset buffer) (buf_buffer buffer))"

definition decodeSignature :: "ledger_env \<Rightarrow> ResponseSign \<Rightarrow> ledger_error + bytes" where
  "decodeSignature env response =
     (case checkResponseCode env (rsg_returnCode response) of
        Inl e \<Rightarrow> Inl e
      | Inr _ \<Rightarrow>
         (case checkSignature (rsg_signatureRS response) (rsg_returnCode response)
                 (rsg_errorMessage response) of
            Inl e \<Rightarrow> Inl e
          | Inr signatureRS \<Rightarrow> Inr (bufferToArrayBuffer signatureRS)))"

record RequestSignatures =
  rq_callSignature :: bytes
  rq_readStateSignature :: bytes

definition decodeUpdateSignatures ::
  "ledger_env \<Rightarrow> ResponseSignUpdateCall \<Rightarrow> ledger_error + RequestSignatures" where
  "decodeUpdateSignatures env response =
     (case checkResponseCode env (rsu_returnCode response) of
        Inl e \<Rightarrow> Inl e
      | Inr _ \<Rightarrow>
         (case checkSignature (rsu_RequestSignatureRS response) (rsu_returnCode response)
                 (rsu_errorMessage response) of
            Inl e \<Rightarrow> Inl e
          | Inr requestRS \<Rightarrow>
             (case checkSignature (rsu_StatusReadSignatureRS response) (rsu_returnCode response)
                     (rsu_errorMessage response) of
                Inl e \<Rightarrow> Inl e
              | Inr statusRS \<Rightarrow> Inr \<lparr>rq_callSignature = bufferToArrayBuffer requestRS,
                  rq_readStateSignature = bufferToArrayBuffer statusRS\<rparr>)))"

text \<open>body.paths[0][1], undefined when it is not there\<close>

definition getRequestId :: "ReadStateRequest \<Rightarrow> bytes option" where
  "getRequestId body = (case rs_paths body of
       (_ # requestId # _) # _ \<Rightarrow> Some requestId
     | _ \<Rightarrow> None)"

definition ascii_bytes :: "string \<Rightarrow> bytes" where
  "ascii_bytes s = map of_char s"

definition createReadStatePaths :: "bytes \<Rightarrow> bytes list list" where
  "createReadStatePaths requestId = [[ascii_bytes ''request_status'', requestId]]"

subsection \<open>identities/ledger.identity.ts\<close>

record ReadStateData =
  rd_signature :: bytes
  rd_body :: ReadStateRequest

record LedgerIdentity =
  li_derivePath :: string
  li_publicKey :: Secp256k1PublicKey
  li_neuronStakeFlag :: bool
  li_readStateMap :: "string \<rightharpoonup> ReadStateData"

text \<open>
  The operations read and write the identity and open one connection after the other: conns lists
  what connecting gives each time, the app or an error, and is consumed.
\<close>

type_synonym connections = "(ledger_error + LedgerApp) list"

definition connect :: "connections \<Rightarrow> (ledger_error + LedgerApp) \<times> connections" where
  "connect conns = (case conns of
       [] \<Rightarrow> (Inl (DeviceError ''no device''), [])
     | c # cs \<Rightarrow> (c, cs))"

text \<open>The error of a failed connection, from the name, the message and the id of the transport error.\<close>

record LedgerHQTransportError =
  te_name :: string
  te_message :: string
  te_id :: string

definition connect_error :: "(string \<Rightarrow> string \<Rightarrow> bool) \<Rightarrow> LedgerHQTransportError \<Rightarrow> ledger_error" where
  "connect_error includes err =
     (if te_name err = ''TransportOpenUserCancelled''
      then if includes (te_message err) ''not supported''
           then LedgerErrorKey ''error__ledger.browser_not_supported'' False
           else LedgerErrorKey ''error__ledger.access_denied'' False
      else if te_id err = ''NoDeviceFound''
      then LedgerErrorKey ''error__ledger.connect_no_device'' False
      else if includes (te_message err) ''cannot open device with path''
      then LedgerErrorKey ''error__ledger.connect_many_apps'' False
      else ConnectNotSupported (te_name err @ '': '' @ te_message err))"

definition fetchPublicKeyFromDevice ::
  "ledger_env \<Rightarrow> LedgerApp \<Rightarrow> string \<Rightarrow> ledger_error + Secp256k1PublicKey" where
  "fetchPublicKeyFromDevice env app derivePath =
     (case la_getAddressAndPubKey app derivePath of
        Inl e \<Rightarrow> Inl (DeviceError e)
      | Inr response \<Rightarrow> decodePublicKey env response)"

definition LEDGER_DEFAULT_DERIVE_PATH :: string where
  "LEDGER_DEFAULT_DERIVE_PATH =
     ''m/44'' @ [char_of (39::nat)] @ ''/223'' @ [char_of (39::nat)] @ ''/0'' @ [char_of (39::nat)] @ ''/0/0''"

definition createIdentity ::
  "ledger_env \<Rightarrow> string \<Rightarrow> connections \<Rightarrow> (ledger_error + LedgerIdentity) \<times> connections" where
  "createIdentity env derivePath conns =
     (case connect conns of
        (Inl e, rest) \<Rightarrow> (Inl e, rest)
      | (Inr app, rest) \<Rightarrow>
          (case fetchPublicKeyFromDevice env app derivePath of
             Inl e \<Rightarrow> (Inl e, rest)
           | Inr publicKey \<Rightarrow> (Inr \<lparr>li_derivePath = derivePath, li_publicKey = publicKey,
               li_neuronStakeFlag = False, li_readStateMap = Map.empty\<rparr>, rest)))"

definition flagUpcomingStakeNeuron :: "LedgerIdentity \<Rightarrow> LedgerIdentity" where
  "flagUpcomingStakeNeuron li = li\<lparr>li_neuronStakeFlag := True\<rparr>"

definition executeWithApp ::
  "ledger_env \<Rightarrow> LedgerIdentity \<Rightarrow> connections
     \<Rightarrow> (LedgerApp \<Rightarrow> LedgerIdentity \<Rightarrow> (ledger_error + 'a) \<times> LedgerIdentity)
     \<Rightarrow> (ledger_error + 'a) \<times> LedgerIdentity \<times> connections" where
  "executeWithApp env li conns callback =
     (case connect conns of
        (Inl e, rest) \<Rightarrow> (Inl e, li, rest)
      | (Inr app, rest) \<Rightarrow>
          (case fetchPublicKeyFromDevice env app (li_derivePath li) of
             Inl e \<Rightarrow> (Inl e, li, rest)
           | Inr devicePublicKey \<Rightarrow>
               if JSON_stringify_key devicePublicKey \<noteq> JSON_stringify_key (li_publicKey li)
               then (Inl (LedgerErrorKey ''error__ledger.unexpected_wallet'' False), li, rest)
               else (case callback app li of (r, li') \<Rightarrow> (r, li', rest))))"

definition getVersion ::
  "ledger_env \<Rightarrow> LedgerIdentity \<Rightarrow> connections
     \<Rightarrow> (ledger_error + ResponseVersion) \<times> LedgerIdentity \<times> connections" where
  "getVersion env li conns =
     executeWithApp env li conns
       (\<lambda>app s. (case la_getVersion app of Inl e \<Rightarrow> Inl (DeviceError e) | Inr v \<Rightarrow> Inr v, s))"

definition ALL_CANDID_TXS_VERSION :: string where
  "ALL_CANDID_TXS_VERSION = ''2.4.9''"

definition raiseIfVersionIsDeprecated ::
  "ledger_env \<Rightarrow> LedgerIdentity \<Rightarrow> connections
     \<Rightarrow> (ledger_error + unit) \<times> LedgerIdentity \<times> connections" where
  "raiseIfVersionIsDeprecated env li conns =
     (case getVersion env li conns of
        (Inl e, li', rest) \<Rightarrow> (Inl e, li', rest)
      | (Inr v, li', rest) \<Rightarrow>
          (let currentVersion = int_to_string (rv_major v) @ ''.'' @ int_to_string (rv_minor v) @
                 ''.'' @ int_to_string (rv_patch v)
           in if env_smallerVersion env ALL_CANDID_TXS_VERSION currentVersion
              then (Inl (LedgerErrorKey ''error__ledger.app_version_not_supported'' True), li', rest)
              else (Inr (), li', rest)))"

text \<open>The flag is reset as soon as the device has answered, before the answer is decoded.\<close>

definition sign ::
  "ledger_env \<Rightarrow> bytes \<Rightarrow> LedgerIdentity \<Rightarrow> connections
     \<Rightarrow> (ledger_error + bytes) \<times> LedgerIdentity \<times> connections" where
  "sign env blob li conns =
     (case raiseIfVersionIsDeprecated env li conns of
        (Inl e, li', rest) \<Rightarrow> (Inl e, li', rest)
      | (Inr _, li', rest) \<Rightarrow>
          executeWithApp env li' rest (\<lambda>app s.
            case la_sign app (li_derivePath s) blob (if li_neuronStakeFlag s then 1 else 0) of
              Inl e \<Rightarrow> (Inl (DeviceError e), s)
            | Inr responseSign \<Rightarrow>
                (decodeSignature env responseSign, s\<lparr>li_neuronStakeFlag := False\<rparr>)))"

definition signWithReadState ::
  "ledger_env \<Rightarrow> bytes \<Rightarrow> bytes \<Rightarrow> LedgerIdentity \<Rightarrow> connections
     \<Rightarrow> (ledger_error + RequestSignatures) \<times> LedgerIdentity \<times> connections" where
  "signWithReadState env callBlob readStateBlob li conns =
     (case raiseIfVersionIsDeprecated env li conns of
        (Inl e, li', rest) \<Rightarrow> (Inl e, li', rest)
      | (Inr _, li', rest) \<Rightarrow>
          executeWithApp env li' rest (\<lambda>app s.
            case la_signUpdateCall app (li_derivePath s) callBlob readStateBlob
                   (if li_neuronStakeFlag s then 1 else 0) of
              Inl e \<Rightarrow> (Inl (DeviceError e), s)
            | Inr responseSign \<Rightarrow>
                (decodeUpdateSignatures env responseSign, s\<lparr>li_neuronStakeFlag := False\<rparr>)))"

text \<open>Buffer.from(requestId).toString("hex")\<close>

definition requestIdHex :: "bytes \<Rightarrow> string" where
  "requestIdHex requestId = bytesToHexString (map unat requestId)"

definition requestsMatch :: "ledger_env \<Rightarrow> ReadStateRequest \<Rightarrow> ReadStateRequest \<Rightarrow> bool" where
  "requestsMatch env request1 request2 =
     sameBufferData (env_cbor env (ReadStateBody request1)) (env_cbor env (ReadStateBody request2))"

definition getRequestFromCache ::
  "ledger_env \<Rightarrow> LedgerIdentity \<Rightarrow> string \<Rightarrow> ReadStateRequest \<Rightarrow> ledger_error + SignedRequest option" where
  "getRequestFromCache env li reqFields body =
     (case getRequestId body of
        None \<Rightarrow> Inl RequestIdMissing
      | Some requestId \<Rightarrow>
         (case li_readStateMap li (requestIdHex requestId) of
            None \<Rightarrow> Inr None
          | Some requestData \<Rightarrow>
             (let cachedBody = rd_body requestData;
                  newBody = body\<lparr>rs_ingress_expiry := rs_ingress_expiry cachedBody\<rparr>
              in if requestsMatch env cachedBody newBody
                 then Inr (Some \<lparr>sr_fields = reqFields, sr_content = ReadStateBody cachedBody,
                   sr_sender_pubkey = toDer (li_publicKey li),
                   sr_sender_sig = rd_signature requestData\<rparr>)
                 else Inr None)))"

definition createReadStateRequest :: "ledger_env \<Rightarrow> CallRequest \<Rightarrow> ReadStateRequest \<times> bytes" where
  "createReadStateRequest env body =
     (let requestId = env_requestIdOf env (CallBody body)
      in (\<lparr>rs_paths = createReadStatePaths requestId, rs_ingress_expiry = cr_ingress_expiry body,
           rs_sender = cr_sender body\<rparr>, requestId))"

definition storeRequestInCache ::
  "bytes \<Rightarrow> bytes \<Rightarrow> ReadStateRequest \<Rightarrow> LedgerIdentity \<Rightarrow> LedgerIdentity" where
  "storeRequestInCache requestId signature body li =
     li\<lparr>li_readStateMap := (li_readStateMap li)(requestIdHex requestId \<mapsto>
       \<lparr>rd_signature = signature, rd_body = body\<rparr>)\<rparr>"

definition createSignAndStoreCallRequests ::
  "ledger_env \<Rightarrow> string \<Rightarrow> CallRequest \<Rightarrow> LedgerIdentity \<Rightarrow> connections
     \<Rightarrow> (ledger_error + SignedRequest) \<times> LedgerIdentity \<times> connections" where
  "createSignAndStoreCallRequests env reqFields callBody li conns =
     (case createReadStateRequest env callBody of (readStateBody, requestId) \<Rightarrow>
        (case signWithReadState env (env_cbor env (CallBody callBody))
                (env_cbor env (ReadStateBody readStateBody)) li conns of
           (Inl e, li', rest) \<Rightarrow> (Inl e, li', rest)
         | (Inr signatures, li', rest) \<Rightarrow>
             (Inr \<lparr>sr_fields = reqFields, sr_content = CallBody callBody,
                sr_sender_pubkey = toDer (li_publicKey li'),
                sr_sender_sig = rq_callSignature signatures\<rparr>,
              storeRequestInCache requestId (rq_readStateSignature signatures) readStateBody li',
              rest)))"

text \<open>The last branch of transformRequest: sign the body as it is.\<close>

definition signRequest ::
  "ledger_env \<Rightarrow> HttpAgentRequest \<Rightarrow> LedgerIdentity \<Rightarrow> connections
     \<Rightarrow> (ledger_error + SignedRequest) \<times> LedgerIdentity \<times> connections" where
  "signRequest env request li conns =
     (case sign env (env_cbor env (hr_body request)) li conns of
        (Inl e, li', rest) \<Rightarrow> (Inl e, li', rest)
      | (Inr signature, li', rest) \<Rightarrow>
          (Inr \<lparr>sr_fields = hr_fields request, sr_content = hr_body request,
             sr_sender_pubkey = toDer (li_publicKey li'), sr_sender_sig = signature\<rparr>, li', rest))"

text \<open>
  A read_state request carries a read_state body and a call request a call body, as the agent builds
  them.
\<close>

definition transformRequest ::
  "ledger_env \<Rightarrow> HttpAgentRequest \<Rightarrow> LedgerIdentity \<Rightarrow> connections
     \<Rightarrow> (ledger_error + SignedRequest) \<times> LedgerIdentity \<times> connections" where
  "transformRequest env request li conns =
     (case (hr_endpoint request, hr_body request) of
        (EndpointReadState, ReadStateBody body) \<Rightarrow>
          (case getRequestFromCache env li (hr_fields request) body of
             Inl e \<Rightarrow> (Inl e, li, conns)
           | Inr (Some cachedRequest) \<Rightarrow> (Inr cachedRequest, li, conns)
           | Inr None \<Rightarrow> signRequest env request li conns)
      | (EndpointCall, CallBody body) \<Rightarrow>
          createSignAndStoreCallRequests env (hr_fields request) body li conns
      | _ \<Rightarrow> signRequest env request li conns)"

subsection \<open>Lemmas\<close>

lemma length_DER_PREFIX [simp]: "length DER_PREFIX = 23"
  by (simp add: DER_PREFIX_def)

text \<open>The DER form of a raw key is the prefix followed by the key, and only 65 bytes have one.\<close>

lemma fromRaw_iff:
  "fromRaw raw = Inr key \<longleftrightarrow>
     length raw = 65 \<and> key = \<lparr>pk_rawKey = raw, pk_derKey = DER_PREFIX @ raw\<rparr>"
  by (auto simp: fromRaw_def Secp256k1PublicKey_constructor_def derEncode_def RAW_KEY_LENGTH_def)

lemma toDer_layout:
  "fromRaw raw = Inr key \<Longrightarrow> toRaw key = raw \<and> length (toDer key) = 88 \<and> drop 23 (toDer key) = raw"
  by (auto simp: fromRaw_iff toRaw_def toDer_def)

lemma JSON_stringify_key_const [simp]: "JSON_stringify_key k = ''{}''"
  by (simp add: JSON_stringify_key_def JSON_stringify_fields_def instance_fields_def enumerable_properties_def
      List.map_filter_def)

text \<open>What the device operations keep of the identity.\<close>

lemma executeWithApp_cases:
  assumes "executeWithApp env li conns cb = (r, li', rest)"
  shows "(li' = li \<and> (\<exists>e. r = Inl e)) \<or> (\<exists>app. cb app li = (r, li'))"
  using assms by (auto simp: executeWithApp_def split: prod.splits sum.splits if_splits)

lemma getVersion_state: "getVersion env li conns = (r, li', rest) \<Longrightarrow> li' = li"
  unfolding getVersion_def by (drule executeWithApp_cases) auto

lemma raiseIfVersionIsDeprecated_state:
  "raiseIfVersionIsDeprecated env li conns = (r, li', rest) \<Longrightarrow> li' = li"
  by (auto simp: raiseIfVersionIsDeprecated_def Let_def dest: getVersion_state
      split: prod.splits sum.splits if_splits)

lemma sign_state:
  assumes "sign env blob li conns = (r, li', rest)"
  shows "li' = li \<or> li' = li\<lparr>li_neuronStakeFlag := False\<rparr>"
    and "r = Inr s \<Longrightarrow> li' = li\<lparr>li_neuronStakeFlag := False\<rparr>"
  using assms
  by (auto simp: sign_def dest!: raiseIfVersionIsDeprecated_state executeWithApp_cases
      split: prod.splits sum.splits)

lemma signWithReadState_state:
  assumes "signWithReadState env b1 b2 li conns = (r, li', rest)"
  shows "li' = li \<or> li' = li\<lparr>li_neuronStakeFlag := False\<rparr>"
    and "r = Inr s \<Longrightarrow> li' = li\<lparr>li_neuronStakeFlag := False\<rparr>"
  using assms
  by (auto simp: signWithReadState_def dest!: raiseIfVersionIsDeprecated_state executeWithApp_cases
      split: prod.splits sum.splits)

lemma signRequest_state:
  assumes "signRequest env req li conns = (r, li', rest)"
  shows "li' = li \<or> li' = li\<lparr>li_neuronStakeFlag := False\<rparr>"
    and "r = Inr s \<Longrightarrow> li' = li\<lparr>li_neuronStakeFlag := False\<rparr>"
  using assms
  by (auto simp: signRequest_def dest: sign_state split: prod.splits sum.splits)

lemma createSign_success:
  assumes "createSignAndStoreCallRequests env f body li conns = (Inr sreq, li', rest)"
  shows "\<exists>sig. li' = storeRequestInCache (env_requestIdOf env (CallBody body)) sig
      (fst (createReadStateRequest env body)) (li\<lparr>li_neuronStakeFlag := False\<rparr>)"
  using assms
  by (auto simp: createSignAndStoreCallRequests_def createReadStateRequest_def Let_def
      dest!: signWithReadState_state(2)[OF _ refl] split: prod.splits sum.splits)

lemma createSign_failure:
  assumes "createSignAndStoreCallRequests env f body li conns = (Inl e, li', rest)"
  shows "li' = li \<or> li' = li\<lparr>li_neuronStakeFlag := False\<rparr>"
  using assms
  by (auto simp: createSignAndStoreCallRequests_def dest: signWithReadState_state
      split: prod.splits sum.splits)

subsection \<open>Examples\<close>

definition raw_key :: "8 word \<Rightarrow> bytes" where
  "raw_key b = replicate 65 b"

definition some_key :: "8 word \<Rightarrow> Secp256k1PublicKey" where
  "some_key b = \<lparr>pk_rawKey = raw_key b, pk_derKey = DER_PREFIX @ raw_key b\<rparr>"

definition some_buffer :: "8 word \<Rightarrow> Buffer" where
  "some_buffer b = \<lparr>buf_buffer = replicate 64 b, buf_byteOffset = 0, buf_byteLength = 64\<rparr>"

text \<open>A device that holds the key of the given byte and signs everything with the byte 7 or 8.\<close>

definition some_app :: "8 word \<Rightarrow> LedgerApp" where
  "some_app b = \<lparr>
     la_getAddressAndPubKey = (\<lambda>_. Inr \<lparr>ra_principalText = ''p'', ra_publicKey = raw_key b,
       ra_returnCode = 36864\<rparr>),
     la_sign = (\<lambda>_ _ _. Inr \<lparr>rsg_signatureRS = Some (some_buffer 7), rsg_returnCode = 36864,
       rsg_errorMessage = None\<rparr>),
     la_signUpdateCall = (\<lambda>_ _ _ _. Inr \<lparr>rsu_RequestSignatureRS = Some (some_buffer 7),
       rsu_StatusReadSignatureRS = Some (some_buffer 8), rsu_returnCode = 36864, rsu_errorMessage = None\<rparr>),
     la_getVersion = Inr \<lparr>rv_major = 2, rv_minor = 4, rv_patch = 9\<rparr>\<rparr>"

definition some_env :: ledger_env where
  "some_env = \<lparr>env_TransactionRejected = 27014, env_selfAuthenticatingText = (\<lambda>_. ''p''),
     env_smallerVersion = (\<lambda>_ _. False), env_requestIdOf = (\<lambda>_. [1, 2]), env_cbor = (\<lambda>_. [])\<rparr>"

definition some_identity :: "8 word \<Rightarrow> LedgerIdentity" where
  "some_identity b = \<lparr>li_derivePath = LEDGER_DEFAULT_DERIVE_PATH, li_publicKey = some_key b,
     li_neuronStakeFlag = True, li_readStateMap = Map.empty\<rparr>"

definition some_call :: CallRequest where
  "some_call = \<lparr>cr_content = ''transfer'', cr_ingress_expiry = 100, cr_sender = ''p''\<rparr>"

lemma fetch_some_app: "fetchPublicKeyFromDevice some_env (some_app b) path = Inr (some_key b)"
  by (simp add: fetchPublicKeyFromDevice_def some_app_def decodePublicKey_def some_env_def some_key_def
      AppNotOpen_def CannotFetchPublicKey_def fromRaw_def Secp256k1PublicKey_constructor_def
      derEncode_def RAW_KEY_LENGTH_def raw_key_def)

lemma some_app_version:
  "raiseIfVersionIsDeprecated some_env li (Inr (some_app b) # rest) = (Inr (), li, rest)"
  by (simp add: raiseIfVersionIsDeprecated_def getVersion_def executeWithApp_def connect_def fetch_some_app)
    (simp add: some_app_def some_env_def Let_def)

lemma some_app_signs:
  "sign some_env blob li [Inr (some_app b), Inr (some_app c)] =
     (Inr (replicate 64 7), li\<lparr>li_neuronStakeFlag := False\<rparr>, [])"
  by (simp add: sign_def some_app_version executeWithApp_def connect_def fetch_some_app)
    (simp add: some_app_def some_env_def decodeSignature_def checkResponseCode_def checkSignature_def
      some_buffer_def LEDGER_SIGNATURE_LENGTH_def bufferToArrayBuffer_def)

lemma some_app_signs_update:
  "signWithReadState some_env b1 b2 li [Inr (some_app b), Inr (some_app c)] =
     (Inr \<lparr>rq_callSignature = replicate 64 7, rq_readStateSignature = replicate 64 8\<rparr>,
      li\<lparr>li_neuronStakeFlag := False\<rparr>, [])"
  by (simp add: signWithReadState_def some_app_version executeWithApp_def connect_def fetch_some_app)
    (simp add: some_app_def some_env_def decodeUpdateSignatures_def checkResponseCode_def checkSignature_def
      some_buffer_def LEDGER_SIGNATURE_LENGTH_def bufferToArrayBuffer_def)

lemma some_call_request:
  "\<exists>sreq li'. transformRequest some_env
      \<lparr>hr_endpoint = EndpointCall, hr_body = CallBody some_call, hr_fields = ''f''\<rparr> (some_identity 1)
      [Inr (some_app 1), Inr (some_app 1)] = (Inr sreq, li', [])"
  by (simp add: transformRequest_def createSignAndStoreCallRequests_def createReadStateRequest_def Let_def
      some_app_signs_update)

lemma some_query_request:
  "\<exists>sreq li'. transformRequest some_env
      \<lparr>hr_endpoint = EndpointQuery, hr_body = CallBody some_call, hr_fields = ''f''\<rparr> (some_identity 1)
      [Inr (some_app 1), Inr (some_app 1)] = (Inr sreq, li', [])"
  by (simp add: transformRequest_def signRequest_def some_app_signs)

subsection \<open>Properties\<close>

text \<open>
  Decoding a DER-encoded public key always throws.  A key of the right length, 88 bytes, is refused
  too: derDecode slices the 23 bytes of the prefix out of it instead of the 65 bytes that follow, and
  encoding those fails for their length.  So from and fromDer never return, not even for toDer of a key.
\<close>

lemma fromDer_always_throws:
  "fromDer derKey =
     Inl (if length derKey = 88 then RawKeyLength 23 else DerKeyLength (length derKey)) \<and>
   from_key (toDer (some_key b)) = Inl (RawKeyLength 23)"
  by (simp add: from_key_def fromDer_def derDecode_def Let_def derEncode_def RAW_KEY_LENGTH_def toDer_def
      some_key_def raw_key_def)

text \<open>
  The check that the connected device holds the key of this identity never fails: JSON.stringify
  renders every public key as {}, so executeWithApp runs the callback on any device that returns a
  valid key, whatever the key of the identity is.
\<close>

lemma wallet_check_vacuous:
  assumes "fetchPublicKeyFromDevice env app (li_derivePath li) = Inr devicePublicKey"
  shows "executeWithApp env li (Inr app # rest) callback =
     (case callback app li of (r, li') \<Rightarrow> (r, li', rest))"
  using assms by (simp add: executeWithApp_def connect_def split: prod.splits)

theorem wallet_check_vacuous_witness:
  "toRaw (some_key 1) \<noteq> toRaw (li_publicKey (some_identity 2)) \<and>
   executeWithApp some_env (some_identity 2) [Inr (some_app 1)] (\<lambda>app s. (Inr True, s)) =
     (Inr True, some_identity 2, [])"
  using wallet_check_vacuous[OF fetch_some_app, of "some_identity 2" 1 "[]" "\<lambda>app s. (Inr True, s)"]
  by (simp add: some_identity_def some_key_def raw_key_def toRaw_def)

text \<open>
  C9: After a call request was signed, the read_state request of the agent for the same request id and sender is answered
  from the cache, without the device and whatever its own ingress expiry is.  In one signing the device signed two
  bodies: the call, whose signature goes out with the call, and the read_state request with the expiry of the
  call; that body and its signature are what is sent, and the identity does not change.
\<close>

theorem read_state_served_from_cache:
  assumes "transformRequest env \<lparr>hr_endpoint = EndpointCall, hr_body = CallBody call, hr_fields = f\<rparr> li conns
      = (Inr sreq, li', rest)"
    and "stored = ReadStateBody \<lparr>rs_paths = createReadStatePaths (env_requestIdOf env (CallBody call)),
        rs_ingress_expiry = cr_ingress_expiry call, rs_sender = cr_sender call\<rparr>"
  shows "\<exists>signatures after. signWithReadState env (env_cbor env (CallBody call)) (env_cbor env stored) li conns = (Inr signatures, after, rest) \<and>
     sreq = \<lparr>sr_fields = f, sr_content = CallBody call, sr_sender_pubkey = toDer (li_publicKey li),
        sr_sender_sig = rq_callSignature signatures\<rparr> \<and>
     transformRequest env \<lparr>hr_endpoint = EndpointReadState,
        hr_body = ReadStateBody \<lparr>rs_paths = createReadStatePaths (env_requestIdOf env (CallBody call)),
          rs_ingress_expiry = expiry, rs_sender = cr_sender call\<rparr>, hr_fields = g\<rparr> li' conns' =
     (Inr \<lparr>sr_fields = g, sr_content = stored, sr_sender_pubkey = toDer (li_publicKey li),
        sr_sender_sig = rq_readStateSignature signatures\<rparr>, li', conns')"
proof -
  obtain sigs after where run: "signWithReadState env (env_cbor env (CallBody call)) (env_cbor env stored) li conns = (Inr sigs, after, rest)"
      "sreq = \<lparr>sr_fields = f, sr_content = CallBody call, sr_sender_pubkey = toDer (li_publicKey after),
        sr_sender_sig = rq_callSignature sigs\<rparr>"
      "li' = storeRequestInCache (env_requestIdOf env (CallBody call)) (rq_readStateSignature sigs)
        (fst (createReadStateRequest env call)) after"
    using assms by (auto simp: transformRequest_def createSignAndStoreCallRequests_def createReadStateRequest_def Let_def
        split: prod.splits sum.splits)
  have after: "after = li\<lparr>li_neuronStakeFlag := False\<rparr>"
    using signWithReadState_state(2) [OF run(1) refl] by simp
  show ?thesis
    using run by (simp add: after transformRequest_def getRequestFromCache_def getRequestId_def createReadStatePaths_def
        storeRequestInCache_def createReadStateRequest_def requestsMatch_def assms(2) Let_def)
qed

theorem read_state_served_from_cache_witness:
  "\<exists>li' signature. transformRequest some_env \<lparr>hr_endpoint = EndpointReadState,
        hr_body = ReadStateBody \<lparr>rs_paths = createReadStatePaths [1, 2], rs_ingress_expiry = 105,
          rs_sender = ''p''\<rparr>, hr_fields = ''f''\<rparr> li' [] =
     (Inr \<lparr>sr_fields = ''f'', sr_content = ReadStateBody \<lparr>rs_paths = createReadStatePaths [1, 2],
          rs_ingress_expiry = 100, rs_sender = ''p''\<rparr>,
        sr_sender_pubkey = toDer (some_key 1), sr_sender_sig = signature\<rparr>, li', [])"
proof -
  obtain sreq li' where "transformRequest some_env
      \<lparr>hr_endpoint = EndpointCall, hr_body = CallBody some_call, hr_fields = ''f''\<rparr> (some_identity 1)
      [Inr (some_app 1), Inr (some_app 1)] = (Inr sreq, li', [])"
    using some_call_request by blast
  from read_state_served_from_cache [OF this refl, of 105 "''f''" "[]"] show ?thesis
    by (auto simp: some_call_def some_env_def some_identity_def)
qed

text \<open>
  The stake neuron flag covers exactly one transaction: once a request was signed by the device the
  flag is off, no request turns it on, and the key and the path of the identity never change.
\<close>

lemma stake_flag_used_once:
  assumes "transformRequest env request li conns = (r, li', rest)"
  shows "li_publicKey li' = li_publicKey li \<and> li_derivePath li' = li_derivePath li \<and>
    (li_neuronStakeFlag li' \<longrightarrow> li_neuronStakeFlag li) \<and>
    (hr_endpoint request \<noteq> EndpointReadState \<and> (\<exists>s. r = Inr s) \<longrightarrow> \<not> li_neuronStakeFlag li')"
proof (cases "\<exists>body. hr_endpoint request = EndpointCall \<and> hr_body request = CallBody body")
  case True
  then obtain body where
    "createSignAndStoreCallRequests env (hr_fields request) body li conns = (r, li', rest)"
    using assms by (auto simp: transformRequest_def)
  then show ?thesis
    by (cases r) (auto dest: createSign_success createSign_failure simp: storeRequestInCache_def)
next
  case False
  then consider "signRequest env request li conns = (r, li', rest)"
    | "hr_endpoint request = EndpointReadState" "li' = li"
    using assms
    by (auto simp: transformRequest_def split: endpoint.splits request_body.splits sum.splits option.splits)
  then show ?thesis
    by cases (auto dest: signRequest_state)
qed

theorem stake_flag_used_once_witness:
  "\<exists>r li'. transformRequest some_env
      \<lparr>hr_endpoint = EndpointQuery, hr_body = CallBody some_call, hr_fields = ''f''\<rparr> (some_identity 1)
      [Inr (some_app 1), Inr (some_app 1)] = (r, li', []) \<and>
    li_neuronStakeFlag (some_identity 1) \<and> \<not> li_neuronStakeFlag li'"
proof -
  obtain sreq li' where "transformRequest some_env
      \<lparr>hr_endpoint = EndpointQuery, hr_body = CallBody some_call, hr_fields = ''f''\<rparr> (some_identity 1)
      [Inr (some_app 1), Inr (some_app 1)] = (Inr sreq, li', [])"
    using some_query_request by blast
  with stake_flag_used_once[OF this] show ?thesis
    by (auto simp: some_identity_def)
qed

end
