(* ===== verification/GovernanceCache.thy ===== *)
theory GovernanceCache
  imports Prelude Constants
begin

text \<open>
  frontend/src/lib/api-services/governance.api-service.ts: the cache of the user's neurons and of the
  known neurons in front of the governance canister.  The two module variables are the record
  gov_cache; a read call is split at its await into what happens when it is called and what happens
  when the canister's response arrives, an action call clears both caches when it settles.  The calls
  of the canister itself are not part of this file and are events of the world below.
\<close>

subsection \<open>The caches\<close>

definition cacheExpirationDurationSeconds :: int where
  "cacheExpirationDurationSeconds = 5 * SECONDS_IN_MINUTE"

record 'k KnownNeuronsCache =
  kc_knownNeurons :: 'k
  kc_timestampSeconds :: int

record 'n NeuronsCache =
  nc_neurons :: 'n
  nc_timestampSeconds :: int
  nc_principalText :: string

record ('k, 'n) gov_cache =
  knownNeuronsCache :: "'k KnownNeuronsCache option"
  neuronsCache :: "'n NeuronsCache option"

definition empty_cache :: "('k, 'n) gov_cache" where
  "empty_cache = \<lparr>knownNeuronsCache = None, neuronsCache = None\<rparr>"

definition hasValidKnownNeuronsCache :: "int \<Rightarrow> ('k, 'n) gov_cache \<Rightarrow> bool" where
  "hasValidKnownNeuronsCache nowInSeconds c =
     (case knownNeuronsCache c of
        None \<Rightarrow> False
      | Some kc \<Rightarrow> nowInSeconds - kc_timestampSeconds kc \<le> cacheExpirationDurationSeconds)"

definition hasValidCachedNeurons :: "int \<Rightarrow> string \<Rightarrow> ('k, 'n) gov_cache \<Rightarrow> bool" where
  "hasValidCachedNeurons nowInSeconds principalText c =
     (case neuronsCache c of
        None \<Rightarrow> False
      | Some nc \<Rightarrow>
          if nowInSeconds - nc_timestampSeconds nc > cacheExpirationDurationSeconds then False
          else nc_principalText nc = principalText)"

definition clearCache :: "('k, 'n) gov_cache \<Rightarrow> ('k, 'n) gov_cache" where
  "clearCache c = c\<lparr>neuronsCache := None, knownNeuronsCache := None\<rparr>"

definition resetNeuronsApiService :: "('k, 'n) gov_cache \<Rightarrow> ('k, 'n) gov_cache" where
  "resetNeuronsApiService c = clearCache c"

text \<open>The finally block clears the caches, whatever the promise settles with.\<close>

definition clearCacheAfter :: "'e + 'r \<Rightarrow> ('k, 'n) gov_cache \<Rightarrow> ('e + 'r) \<times> ('k, 'n) gov_cache" where
  "clearCacheAfter settled c = (settled, clearCache c)"

subsection \<open>Read calls\<close>

text \<open>At the call: Some value is returned from the cache, None means that a request is sent.\<close>

definition queryNeurons_call :: "int \<Rightarrow> string \<Rightarrow> ('k, 'n) gov_cache \<Rightarrow> 'n option" where
  "queryNeurons_call nowInSeconds principalText c =
     (case neuronsCache c of
        Some nc \<Rightarrow>
          if hasValidCachedNeurons nowInSeconds principalText c then Some (nc_neurons nc) else None
      | None \<Rightarrow> None)"

text \<open>When the response arrives: only a certified one that succeeded is cached.\<close>

definition queryNeurons_response ::
  "bool \<Rightarrow> int \<Rightarrow> string \<Rightarrow> 'e + 'n \<Rightarrow> ('k, 'n) gov_cache \<Rightarrow> ('e + 'n) \<times> ('k, 'n) gov_cache" where
  "queryNeurons_response certified nowInSeconds principalText response c =
     (if \<not> certified then (response, c)
      else case response of
          Inl e \<Rightarrow> (Inl e, c)
        | Inr neurons \<Rightarrow> (Inr neurons, c\<lparr>neuronsCache := Some \<lparr>nc_neurons = neurons,
            nc_timestampSeconds = nowInSeconds, nc_principalText = principalText\<rparr>\<rparr>))"

definition queryKnownNeurons_call :: "int \<Rightarrow> ('k, 'n) gov_cache \<Rightarrow> 'k option" where
  "queryKnownNeurons_call nowInSeconds c =
     (case knownNeuronsCache c of
        Some kc \<Rightarrow>
          if hasValidKnownNeuronsCache nowInSeconds c then Some (kc_knownNeurons kc) else None
      | None \<Rightarrow> None)"

definition queryKnownNeurons_response ::
  "bool \<Rightarrow> int \<Rightarrow> 'e + 'k \<Rightarrow> ('k, 'n) gov_cache \<Rightarrow> ('e + 'k) \<times> ('k, 'n) gov_cache" where
  "queryKnownNeurons_response certified nowInSeconds response c =
     (if \<not> certified then (response, c)
      else case response of
          Inl e \<Rightarrow> (Inl e, c)
        | Inr knownNeurons \<Rightarrow> (Inr knownNeurons, c\<lparr>knownNeuronsCache := Some
            \<lparr>kc_knownNeurons = knownNeurons, kc_timestampSeconds = nowInSeconds\<rparr>\<rparr>))"

text \<open>The action calls of governanceApiService: each is clearCacheAfter of the canister call.\<close>

datatype gov_action =
    AddHotkey | AutoStakeMaturity | ClaimOrRefreshNeuronByMemo | ClaimOrRefreshNeuron | Disburse
  | IncreaseDissolveDelay | JoinCommunityFund | LeaveCommunityFund | MergeNeurons | RegisterVote
  | RemoveHotkey | SetFollowees | SimulateMergeNeurons | SpawnNeuron | SplitNeuron | StakeMaturity
  | StakeNeuron | StartDissolving | StopDissolving | ChangeNeuronVisibility

definition action_settles ::
  "gov_action \<Rightarrow> 'e + 'r \<Rightarrow> ('k, 'n) gov_cache \<Rightarrow> ('e + 'r) \<times> ('k, 'n) gov_cache" where
  "action_settles action settled c = clearCacheAfter settled c"

subsection \<open>The service with its canister\<close>

text \<open>
  The canister is a parameter: its ledger gives the neurons of every principal, of any type, and is changed
  by what an action of the app executes and by what others do, arbitrarily in both cases.  A request for the
  neurons is in flight from the call to the response or the rejection, and is served once, with the neurons
  that its principal has then.  An action is outstanding from its execution on the canister until its call
  settles, with a result or an error; it may also fail without being executed.
\<close>

record 'n request =
  rq_certified :: bool
  rq_principal :: string
  rq_served :: "'n option"

record 'n gov_world =
  gw_cache :: "(unit, 'n) gov_cache"
  gw_now :: int
  gw_ledger :: "string \<Rightarrow> 'n"
  gw_outstanding :: nat
  gw_requests :: "nat \<rightharpoonup> 'n request"

datatype 'n gov_event =
    Call nat bool string
  | Serve nat
  | Respond nat
  | Reject nat
  | Execute gov_action "(string \<Rightarrow> 'n) \<Rightarrow> string \<Rightarrow> 'n"
  | Settle gov_action bool
  | Fails gov_action
  | External "(string \<Rightarrow> 'n) \<Rightarrow> string \<Rightarrow> 'n"
  | Pass nat

definition initial_world :: "(string \<Rightarrow> 'n) \<Rightarrow> 'n gov_world" where
  "initial_world ledger = \<lparr>gw_cache = empty_cache, gw_now = 0, gw_ledger = ledger, gw_outstanding = 0,
     gw_requests = Map.empty\<rparr>"

definition receive :: "nat \<Rightarrow> 'n request \<Rightarrow> unit + 'n \<Rightarrow> 'n gov_world \<Rightarrow> 'n gov_world" where
  "receive i r response w = w\<lparr>gw_requests := (gw_requests w)(i := None),
     gw_cache := snd (queryNeurons_response (rq_certified r) (gw_now w) (rq_principal r) response (gw_cache w))\<rparr>"

text \<open>An event that does not apply, such as the response to a request that is not in flight, changes nothing.\<close>

fun gov_step :: "'n gov_event \<Rightarrow> 'n gov_world \<Rightarrow> 'n gov_world" where
  "gov_step (Call i certified p) w =
     (if gw_requests w i \<noteq> None \<or> queryNeurons_call (gw_now w) p (gw_cache w) \<noteq> None then w
      else w\<lparr>gw_requests := (gw_requests w)(i \<mapsto>
          \<lparr>rq_certified = certified, rq_principal = p, rq_served = None\<rparr>)\<rparr>)"
| "gov_step (Serve i) w =
     (case gw_requests w i of
        None \<Rightarrow> w
      | Some r \<Rightarrow>
          if rq_served r \<noteq> None then w
          else w\<lparr>gw_requests := (gw_requests w)(i \<mapsto> r\<lparr>rq_served := Some (gw_ledger w (rq_principal r))\<rparr>)\<rparr>)"
| "gov_step (Respond i) w =
     (case gw_requests w i of
        None \<Rightarrow> w
      | Some r \<Rightarrow> (case rq_served r of None \<Rightarrow> w | Some v \<Rightarrow> receive i r (Inr v) w))"
| "gov_step (Reject i) w = (case gw_requests w i of None \<Rightarrow> w | Some r \<Rightarrow> receive i r (Inl ()) w)"
| "gov_step (Execute a f) w =
     w\<lparr>gw_ledger := f (gw_ledger w), gw_outstanding := Suc (gw_outstanding w)\<rparr>"
| "gov_step (Settle a succeeded) w =
     w\<lparr>gw_outstanding := gw_outstanding w - 1,
       gw_cache := snd (action_settles a (if succeeded then Inr () else Inl () :: unit + unit) (gw_cache w))\<rparr>"
| "gov_step (Fails a) w =
     w\<lparr>gw_cache := snd (action_settles a (Inl () :: unit + unit) (gw_cache w))\<rparr>"
| "gov_step (External f) w = w\<lparr>gw_ledger := f (gw_ledger w)\<rparr>"
| "gov_step (Pass n) w = w\<lparr>gw_now := gw_now w + int n\<rparr>"

definition gov_run :: "'n gov_event list \<Rightarrow> 'n gov_world \<Rightarrow> 'n gov_world" where
  "gov_run es w = foldl (\<lambda>w e. gov_step e w) w es"

text \<open>No certified request is in flight when an action that was executed settles.\<close>

fun race_free :: "'n gov_event list \<Rightarrow> 'n gov_world \<Rightarrow> bool" where
  "race_free [] w = True"
| "race_free (e # es) w =
     ((case e of Settle _ _ \<Rightarrow> \<forall>r\<in>ran (gw_requests w). \<not> rq_certified r | _ \<Rightarrow> True) \<and> race_free es (gov_step e w))"

subsection \<open>Lemmas\<close>

lemma queryNeurons_call_iff:
  "queryNeurons_call now p c = Some v \<longleftrightarrow>
     (\<exists>nc. neuronsCache c = Some nc \<and> nc_neurons nc = v \<and> nc_principalText nc = p \<and>
       now - nc_timestampSeconds nc \<le> 300)"
  by (auto simp: queryNeurons_call_def hasValidCachedNeurons_def cacheExpirationDurationSeconds_def
      SECONDS_IN_MINUTE_def split: option.splits if_splits)

lemma cleared [simp]:
  "neuronsCache (snd (action_settles a x c)) = None"
  "knownNeuronsCache (snd (action_settles a x c)) = None"
  by (simp_all add: action_settles_def clearCacheAfter_def clearCache_def)

lemma gov_run_snoc [simp]: "gov_run (es @ [e]) w = gov_step e (gov_run es w)"
  by (simp add: gov_run_def)

lemma race_free_snoc:
  "race_free (es @ [e]) w \<longleftrightarrow> race_free es w \<and>
     (case e of Settle _ _ \<Rightarrow> \<forall>r\<in>ran (gw_requests (gov_run es w)). \<not> rq_certified r | _ \<Rightarrow> True)"
  by (induction es arbitrary: w) (auto simp: gov_run_def split: gov_event.splits)

text \<open>Events of an action: those that clear the cache, and those that execute it.\<close>

fun clears :: "'n gov_event \<Rightarrow> bool" where
  "clears (Settle a b) = True"
| "clears (Fails a) = True"
| "clears e = False"

fun executes :: "'n gov_event \<Rightarrow> bool" where
  "executes (Execute a f) = True"
| "executes e = False"

text \<open>
  The certified request i of a principal was served v in the trace, and while no action is outstanding none was
  executed since.
\<close>

definition served_at ::
  "(string \<Rightarrow> 'n) \<Rightarrow> 'n gov_event list \<Rightarrow> nat \<Rightarrow> string \<Rightarrow> 'n \<Rightarrow> 'n gov_event list \<Rightarrow> 'n gov_event list \<Rightarrow> bool" where
  "served_at l0 es i p v pre post \<longleftrightarrow>
     es = pre @ Serve i # post \<and>
     (\<exists>r. gw_requests (gov_run pre (initial_world l0)) i = Some r \<and> rq_certified r \<and> rq_principal r = p) \<and>
     v = gw_ledger (gov_run pre (initial_world l0)) p \<and>
     (gw_outstanding (gov_run es (initial_world l0)) = 0 \<longrightarrow> (\<forall>e\<in>set post. \<not> executes e))"

text \<open>The cached neurons were served so, and received at their time stamp, since which no action settled.\<close>

definition cached_at :: "(string \<Rightarrow> 'n) \<Rightarrow> 'n gov_event list \<Rightarrow> 'n NeuronsCache \<Rightarrow> bool" where
  "cached_at l0 es nc \<longleftrightarrow>
     (\<exists>i pre mid post. served_at l0 es i (nc_principalText nc) (nc_neurons nc) pre (mid @ Respond i # post) \<and>
        nc_timestampSeconds nc = gw_now (gov_run (pre @ Serve i # mid) (initial_world l0)) \<and> (\<forall>e\<in>set post. \<not> clears e))"

definition gov_inv :: "(string \<Rightarrow> 'n) \<Rightarrow> 'n gov_event list \<Rightarrow> bool" where
  "gov_inv l0 es \<longleftrightarrow>
     (\<forall>i r v. gw_requests (gov_run es (initial_world l0)) i = Some r \<and> rq_certified r \<and> rq_served r = Some v \<longrightarrow>
        (\<exists>pre post. served_at l0 es i (rq_principal r) v pre post)) \<and>
     (\<forall>nc. neuronsCache (gw_cache (gov_run es (initial_world l0))) = Some nc \<longrightarrow> cached_at l0 es nc)"

text \<open>A settlement apart, an event that leaves actions outstanding or executes none keeps what was served.\<close>

lemma outstanding_step:
  "case e of Settle _ _ \<Rightarrow> False | _ \<Rightarrow> True \<Longrightarrow>
     gw_outstanding (gov_step e w) = gw_outstanding w + (if executes e then 1 else 0)"
  by (cases e) (auto simp: receive_def split: option.splits)

lemma served_at_snoc:
  assumes "served_at l0 es i p v pre post" and "case e of Settle _ _ \<Rightarrow> False | _ \<Rightarrow> True"
  shows "served_at l0 (es @ [e]) i p v pre (post @ [e])"
proof -
  have "gw_outstanding (gov_run (es @ [e]) (initial_world l0)) = 0 \<Longrightarrow>
      gw_outstanding (gov_run es (initial_world l0)) = 0 \<and> \<not> executes e"
    using outstanding_step [OF assms(2)] by (auto split: if_splits)
  with assms(1) show ?thesis unfolding served_at_def by auto
qed

lemma cached_at_snoc:
  assumes "cached_at l0 es nc" and "\<not> clears e"
  shows "cached_at l0 (es @ [e]) nc"
proof -
  obtain i pre mid post where
    s: "served_at l0 es i (nc_principalText nc) (nc_neurons nc) pre (mid @ Respond i # post)"
    and t: "nc_timestampSeconds nc = gw_now (gov_run (pre @ Serve i # mid) (initial_world l0))"
    and c: "\<forall>e\<in>set post. \<not> clears e"
    using assms(1) unfolding cached_at_def by blast
  have "served_at l0 (es @ [e]) i (nc_principalText nc) (nc_neurons nc) pre (mid @ Respond i # (post @ [e]))"
    using served_at_snoc [OF s, of e] assms(2) by (cases e) simp_all
  then show ?thesis using t c assms(2) unfolding cached_at_def
    by (intro exI [of _ i] exI [of _ pre] exI [of _ mid] exI [of _ "post @ [e]"]) auto
qed

text \<open>What an event adds to the requests and to the cache.\<close>

lemma step_requests:
  assumes "gw_requests (gov_step e w) i = Some r" "rq_served r = Some v"
  shows "gw_requests w i = Some r \<or> (\<exists>r'. e = Serve i \<and> gw_requests w i = Some r' \<and> rq_certified r = rq_certified r' \<and>
     rq_principal r = rq_principal r' \<and> v = gw_ledger w (rq_principal r'))"
  using assms by (cases e) (auto simp: receive_def split: option.splits if_splits)

lemma step_cache:
  assumes "neuronsCache (gw_cache (gov_step e w)) = Some nc"
  shows "\<not> clears e \<and> (neuronsCache (gw_cache w) = Some nc \<or>
     (\<exists>i r. e = Respond i \<and> gw_requests w i = Some r \<and> rq_certified r \<and>
        rq_principal r = nc_principalText nc \<and> rq_served r = Some (nc_neurons nc) \<and> gw_now w = nc_timestampSeconds nc))"
  using assms by (cases e) (auto simp: receive_def queryNeurons_response_def split: option.splits if_splits)

lemma served_now:
  assumes "gw_requests (gov_run es (initial_world l0)) i = Some r" "rq_certified r"
  shows "served_at l0 (es @ [Serve i]) i (rq_principal r) (gw_ledger (gov_run es (initial_world l0)) (rq_principal r)) es []"
  using assms by (auto simp: served_at_def)

lemma gov_inv_requests:
  assumes inv: "gov_inv l0 es" and race: "race_free (es @ [e]) (initial_world l0)"
    and r: "gw_requests (gov_run (es @ [e]) (initial_world l0)) i = Some r" "rq_certified r" "rq_served r = Some v"
  shows "\<exists>pre post. served_at l0 (es @ [e]) i (rq_principal r) v pre post"
proof -
  consider "gw_requests (gov_run es (initial_world l0)) i = Some r"
    | r' where "e = Serve i" "gw_requests (gov_run es (initial_world l0)) i = Some r'" "rq_certified r'"
        "rq_principal r = rq_principal r'" "v = gw_ledger (gov_run es (initial_world l0)) (rq_principal r')"
    using step_requests [OF _ r(3), of e "gov_run es (initial_world l0)" i] r(1,2) by fastforce
  then show ?thesis
  proof cases
    case 1
    then have "case e of Settle _ _ \<Rightarrow> False | _ \<Rightarrow> True"
      using race r(2) by (auto simp: race_free_snoc ranI split: gov_event.splits)
    moreover obtain pre post where "served_at l0 es i (rq_principal r) v pre post"
      using inv 1 r(2,3) unfolding gov_inv_def by blast
    ultimately have "served_at l0 (es @ [e]) i (rq_principal r) v pre (post @ [e])"
      by (intro served_at_snoc)
    then show ?thesis by blast
  next
    case 2
    from served_now [OF 2(2,3)] 2 show ?thesis by auto
  qed
qed

lemma gov_inv_cache:
  assumes inv: "gov_inv l0 es" and nc: "neuronsCache (gw_cache (gov_run (es @ [e]) (initial_world l0))) = Some nc"
  shows "cached_at l0 (es @ [e]) nc"
proof -
  have "\<not> clears e" "neuronsCache (gw_cache (gov_run es (initial_world l0))) = Some nc \<or>
      (\<exists>i r. e = Respond i \<and> gw_requests (gov_run es (initial_world l0)) i = Some r \<and> rq_certified r \<and>
        rq_principal r = nc_principalText nc \<and> rq_served r = Some (nc_neurons nc) \<and>
        gw_now (gov_run es (initial_world l0)) = nc_timestampSeconds nc)"
    using step_cache [of e "gov_run es (initial_world l0)" nc] nc by simp_all
  then show ?thesis
  proof (elim disjE exE conjE)
    assume "neuronsCache (gw_cache (gov_run es (initial_world l0))) = Some nc"
    then have "cached_at l0 es nc" using inv unfolding gov_inv_def by blast
    then show ?thesis using cached_at_snoc \<open>\<not> clears e\<close> by blast
  next
    fix i r assume e: "e = Respond i" and r: "gw_requests (gov_run es (initial_world l0)) i = Some r" "rq_certified r"
      "rq_principal r = nc_principalText nc" "rq_served r = Some (nc_neurons nc)"
      "gw_now (gov_run es (initial_world l0)) = nc_timestampSeconds nc"
    obtain pre mid where s: "served_at l0 es i (nc_principalText nc) (nc_neurons nc) pre mid"
      using inv r unfolding gov_inv_def by metis
    then have es: "es = pre @ Serve i # mid" by (simp add: served_at_def)
    have "served_at l0 (es @ [e]) i (nc_principalText nc) (nc_neurons nc) pre (mid @ Respond i # [])"
      using served_at_snoc [OF s, of e] by (simp add: e)
    moreover have "nc_timestampSeconds nc = gw_now (gov_run (pre @ Serve i # mid) (initial_world l0))"
      using r(5) es by simp
    ultimately show ?thesis unfolding cached_at_def by (metis empty_iff list.set(1))
  qed
qed

lemma gov_inv_run: "race_free es (initial_world l0) \<Longrightarrow> gov_inv l0 es"
proof (induction es rule: rev_induct)
  case Nil
  then show ?case by (simp add: gov_inv_def gov_run_def initial_world_def empty_cache_def)
next
  case (snoc e es)
  then have "gov_inv l0 es" by (simp add: race_free_snoc)
  with gov_inv_requests [OF this snoc.prems] gov_inv_cache [OF this, of e] show ?case
    unfolding gov_inv_def [of l0 "es @ [e]"] by blast
qed

text \<open>Without an execution or a change from outside the ledger stays as it is.\<close>

definition changes :: "'n gov_event \<Rightarrow> bool" where
  "changes e \<longleftrightarrow> executes e \<or> (\<exists>f. e = External f)"

lemma ledger_unchanged: "\<forall>e\<in>set es. \<not> changes e \<Longrightarrow> gw_ledger (gov_run es w) = gw_ledger w"
proof (induction es arbitrary: w)
  case (Cons e es)
  have "gw_ledger (gov_step e w) = gw_ledger w"
    using Cons.prems by (cases e) (auto simp: changes_def receive_def split: option.splits)
  with Cons show ?case by (simp add: gov_run_def)
qed (simp add: gov_run_def)

subsection \<open>Properties\<close>

text \<open>
  C10: Neurons that the cache serves to a principal are those that the canister had for that principal when it served
  a certified request of the principal whose response came at most five minutes ago, and no action call settled since
  that response, neither with success nor with an error.  When no action that was executed settles while a certified
  request is in flight, and none is outstanding, then moreover no action of the app was executed since the canister
  served the neurons: unless something else changed the ledger they are the ones it holds now.
\<close>

theorem neurons_cache_fresh:
  assumes "race_free es (initial_world l0)" and "gw_outstanding (gov_run es (initial_world l0)) = 0"
    and "queryNeurons_call (gw_now (gov_run es (initial_world l0))) p (gw_cache (gov_run es (initial_world l0))) = Some v"
  shows "\<exists>pre i mid post r. es = pre @ Serve i # mid @ Respond i # post \<and>
     gw_requests (gov_run pre (initial_world l0)) i = Some r \<and> rq_certified r \<and> rq_principal r = p \<and>
     v = gw_ledger (gov_run pre (initial_world l0)) p \<and>
     gw_now (gov_run es (initial_world l0)) - gw_now (gov_run (pre @ Serve i # mid) (initial_world l0)) \<le> 300 \<and>
     (\<forall>e\<in>set post. \<not> clears e) \<and> (\<forall>e\<in>set (mid @ post). \<not> executes e) \<and>
     ((\<forall>f. External f \<notin> set (mid @ post)) \<longrightarrow> v = gw_ledger (gov_run es (initial_world l0)) p)"
proof -
  let ?w = "gov_run es (initial_world l0)"
  obtain nc where nc: "neuronsCache (gw_cache ?w) = Some nc" "nc_neurons nc = v" "nc_principalText nc = p"
    "gw_now ?w - nc_timestampSeconds nc \<le> 300"
    using assms(3) by (auto simp: queryNeurons_call_iff)
  then have "cached_at l0 es nc" using gov_inv_run [OF assms(1)] unfolding gov_inv_def by blast
  then obtain i pre mid post where
    s: "served_at l0 es i p v pre (mid @ Respond i # post)"
    and t: "nc_timestampSeconds nc = gw_now (gov_run (pre @ Serve i # mid) (initial_world l0))"
    and c: "\<forall>e\<in>set post. \<not> clears e"
    unfolding cached_at_def nc(2,3) by blast
  then obtain r where r: "es = pre @ Serve i # mid @ Respond i # post" "gw_requests (gov_run pre (initial_world l0)) i = Some r"
      "rq_certified r" "rq_principal r = p" "v = gw_ledger (gov_run pre (initial_world l0)) p"
    and ex: "\<forall>e\<in>set (mid @ post). \<not> executes e"
    using assms(2) unfolding served_at_def by auto
  have "v = gw_ledger ?w p" if "\<forall>f. External f \<notin> set (mid @ post)"
  proof -
    have "\<forall>e\<in>set (Serve i # mid @ Respond i # post). \<not> changes e"
      using ex that by (auto simp: changes_def)
    from ledger_unchanged [OF this, of "gov_run pre (initial_world l0)"] r(1,5) show ?thesis by (simp add: gov_run_def)
  qed
  with r c ex nc(4) t show ?thesis by metis
qed

text \<open>A run of two principals: another user changes the ledger, and the neurons are asked for after an action.\<close>

definition example_gov_run :: "nat gov_event list" where
  "example_gov_run =
     [Call 0 True ''p'', Serve 0, Respond 0, Execute Disburse (\<lambda>l. l(''p'' := 8)), Call 1 False ''q'',
      Settle Disburse True, External (\<lambda>l. l(''q'' := 9)), Call 2 True ''p'', Serve 1, Serve 2, Respond 1, Pass 4, Respond 2, Pass 299]"

lemma neurons_cache_fresh_witness:
  "\<exists>pre i mid post. example_gov_run = pre @ Serve i # mid @ Respond i # post \<and>
     (8 :: nat) = gw_ledger (gov_run pre (initial_world (\<lambda>_. 7))) ''p'' \<and> (\<forall>e\<in>set (mid @ post). \<not> executes e)"
proof -
  note run = example_gov_run_def gov_run_def initial_world_def empty_cache_def receive_def queryNeurons_call_def
    queryNeurons_response_def hasValidCachedNeurons_def cacheExpirationDurationSeconds_def SECONDS_IN_MINUTE_def
    action_settles_def clearCacheAfter_def clearCache_def
  have "race_free example_gov_run (initial_world (\<lambda>_. 7))" by (simp add: run ran_def)
  moreover have "gw_outstanding (gov_run example_gov_run (initial_world (\<lambda>_. 7))) = 0" by (simp add: run)
  moreover have "queryNeurons_call (gw_now (gov_run example_gov_run (initial_world (\<lambda>_. 7)))) ''p''
      (gw_cache (gov_run example_gov_run (initial_world (\<lambda>_. 7)))) = Some 8"
    by (simp add: run)
  ultimately show ?thesis using neurons_cache_fresh [of example_gov_run "\<lambda>_. 7" "''p''" 8] by metis
qed

text \<open>
  A certified request that the canister served before an action and whose response arrives after
  the action settled fills the cache again with the neurons from before: for the next five minutes every
  call of that principal gets them without a request, although every action has settled.
\<close>

lemma neurons_cache_race:
  assumes "0 \<le> delay" and "delay \<le> 300"
  shows "queryNeurons_call delay p (gw_cache (gov_run
      [Call 0 True p, Serve 0, Execute a f, Settle a True, Respond 0] (initial_world l0))) = Some (l0 p) \<and>
    gw_ledger (gov_run [Call 0 True p, Serve 0, Execute a f, Settle a True, Respond 0] (initial_world l0)) = f l0 \<and>
    gw_outstanding (gov_run [Call 0 True p, Serve 0, Execute a f, Settle a True, Respond 0] (initial_world l0)) = 0"
  using assms
  by (simp add: gov_run_def initial_world_def empty_cache_def receive_def queryNeurons_call_def
      queryNeurons_response_def hasValidCachedNeurons_def cacheExpirationDurationSeconds_def
      SECONDS_IN_MINUTE_def action_settles_def clearCacheAfter_def clearCache_def)

end
