(* ===== verification/TimerWorker.thy ===== *)
theory TimerWorker
  imports Prelude
begin

text \<open>
  frontend/src/lib/worker-utils/timer.worker-utils.ts: the timer the web workers run their job with.
  The object keeps the timer and the status; the intervals of the browser that are alive, the start
  calls that wait for the identity and the jobs in progress are the rest of the state.  An event is a
  call of a method or the end of something awaited.
\<close>

subsection \<open>The object and its methods\<close>

datatype SyncState = SyncIdle | SyncInProgress | SyncError

record timer_worker =
  tw_timer :: "nat option"
  tw_timerStatus :: SyncState
  tw_intervals :: "nat list"
  tw_nextInterval :: nat
  tw_starting :: nat
  tw_jobs :: "bool list"
  tw_posted :: "SyncState list"

text \<open>
  tw_jobs: a running job is True when it is the one that start awaits before it sets the interval.
\<close>

definition new_worker :: timer_worker where
  "new_worker = \<lparr>tw_timer = None, tw_timerStatus = SyncIdle, tw_intervals = [], tw_nextInterval = 0,
     tw_starting = 0, tw_jobs = [], tw_posted = []\<rparr>"

definition setStatus :: "SyncState \<Rightarrow> timer_worker \<Rightarrow> timer_worker" where
  "setStatus state w = w\<lparr>tw_timerStatus := state, tw_posted := tw_posted w @ [state]\<rparr>"

definition isIdle :: "timer_worker \<Rightarrow> bool" where
  "isIdle w = (tw_timerStatus w = SyncIdle)"

text \<open>if (!this.timer) return: a timer id is never 0, so it is present exactly when it is defined\<close>

definition stopTimer :: "timer_worker \<Rightarrow> timer_worker" where
  "stopTimer w =
     (case tw_timer w of
        None \<Rightarrow> w
      | Some t \<Rightarrow> w\<lparr>tw_intervals := filter (\<lambda>i. i \<noteq> t) (tw_intervals w), tw_timer := None\<rparr>)"

definition stop :: "timer_worker \<Rightarrow> timer_worker" where
  "stop w = setStatus SyncIdle (stopTimer w)"

text \<open>postMsg: Some data is posted unless the worker is idle.\<close>

definition postMsg :: "'m \<Rightarrow> timer_worker \<Rightarrow> 'm option" where
  "postMsg msg w = (if isIdle w then None else Some msg)"

definition set_interval :: "timer_worker \<Rightarrow> timer_worker" where
  "set_interval w = w\<lparr>tw_timer := Some (tw_nextInterval w),
     tw_intervals := tw_intervals w @ [tw_nextInterval w], tw_nextInterval := Suc (tw_nextInterval w)\<rparr>"

text \<open>
  executeJob up to the await of the job; when it returns at once and start awaits it, start goes on to
  set the interval.
\<close>

definition executeJob_begin :: "bool \<Rightarrow> timer_worker \<Rightarrow> timer_worker" where
  "executeJob_begin awaited w =
     (if tw_timerStatus w \<noteq> SyncIdle then (if awaited then set_interval w else w)
      else let w' = setStatus SyncInProgress w in w'\<lparr>tw_jobs := tw_jobs w' @ [awaited]\<rparr>)"

text \<open>executeJob from the end of the job, and the rest of start when it awaits it.\<close>

definition executeJob_end :: "bool \<Rightarrow> bool \<Rightarrow> timer_worker \<Rightarrow> timer_worker" where
  "executeJob_end job_ok awaited w =
     (let w' = (if job_ok then setStatus SyncIdle w else stop (setStatus SyncError w))
      in if awaited then set_interval w' else w')"

definition start_call :: "timer_worker \<Rightarrow> timer_worker" where
  "start_call w = (if tw_timer w \<noteq> None then w else w\<lparr>tw_starting := Suc (tw_starting w)\<rparr>)"

definition start_identity :: "bool \<Rightarrow> timer_worker \<Rightarrow> timer_worker" where
  "start_identity found w =
     (if tw_starting w = 0 then w
      else let w' = w\<lparr>tw_starting := tw_starting w - 1\<rparr>
           in if found then executeJob_begin True w' else w')"

subsection \<open>Events\<close>

datatype timer_event =
    Start
  | IdentityLoaded bool
  | JobEnds nat bool
  | Tick nat
  | Stop

text \<open>JobEnds k ok: the job at position k of the running ones ends.\<close>

fun timer_step :: "timer_worker \<Rightarrow> timer_event \<Rightarrow> timer_worker" where
  "timer_step w Start = start_call w"
| "timer_step w (IdentityLoaded found) = start_identity found w"
| "timer_step w (JobEnds k ok) =
     (if k < length (tw_jobs w)
      then executeJob_end ok (tw_jobs w ! k) (w\<lparr>tw_jobs := take k (tw_jobs w) @ drop (Suc k) (tw_jobs w)\<rparr>)
      else w)"
| "timer_step w (Tick i) = (if i \<in> set (tw_intervals w) then executeJob_begin False w else w)"
| "timer_step w Stop = stop w"

definition timer_run :: "timer_event list \<Rightarrow> timer_worker" where
  "timer_run es = foldl timer_step new_worker es"

subsection \<open>Lemmas\<close>

lemmas timer_defs = stop_def stopTimer_def setStatus_def set_interval_def executeJob_begin_def
  executeJob_end_def start_call_def start_identity_def Let_def

lemma timer_run_snoc [simp]: "timer_run (es @ [e]) = timer_step (timer_run es) e"
  by (simp add: timer_run_def)

lemma step_status: "tw_timerStatus w \<noteq> SyncError \<Longrightarrow> tw_timerStatus (timer_step w e) \<noteq> SyncError"
  by (cases e) (auto simp: timer_defs split: option.splits)

text \<open>Without a call of stop, the status is in progress exactly while one job runs.\<close>

definition one_job :: "timer_worker \<Rightarrow> bool" where
  "one_job w \<longleftrightarrow> (tw_timerStatus w = SyncIdle \<and> tw_jobs w = []) \<or>
     (tw_timerStatus w = SyncInProgress \<and> length (tw_jobs w) = 1)"

lemma one_job_step: "one_job w \<Longrightarrow> e \<noteq> Stop \<Longrightarrow> one_job (timer_step w e)"
  by (cases e) (auto simp: one_job_def timer_defs split: option.splits)

subsection \<open>Properties\<close>

text \<open>
  As long as stop is not called, jobs never overlap: after any sequence of starts, ticks and ends of
  jobs, failed ones included, at most one job is running, and exactly then is the status in progress.
\<close>

lemma timer_jobs_do_not_overlap:
  assumes "Stop \<notin> set es"
  shows "length (tw_jobs (timer_run es)) \<le> 1 \<and>
    (tw_timerStatus (timer_run es) = SyncInProgress \<longleftrightarrow> length (tw_jobs (timer_run es)) = 1)"
proof -
  have "one_job (timer_run es)"
    using assms
  proof (induction es rule: rev_induct)
    case Nil
    then show ?case by (simp add: timer_run_def new_worker_def one_job_def)
  next
    case (snoc e es)
    then show ?case by (auto intro: one_job_step)
  qed
  then show ?thesis by (auto simp: one_job_def)
qed

theorem timer_jobs_do_not_overlap_witness:
  "length (tw_jobs (timer_run [Start, IdentityLoaded True, Start, IdentityLoaded True, Tick 0])) \<le> 1"
  using timer_jobs_do_not_overlap[of "[Start, IdentityLoaded True, Start, IdentityLoaded True, Tick 0]"]
  by simp

text \<open>
  The status "error" never lasts: every method leaves the status idle or in progress.  After a job
  failed, the interval that start sets when its first job failed stays alive, and its next tick runs the
  job again.
\<close>

lemma timer_error_does_not_last:
  "tw_timerStatus (timer_run es) \<noteq> SyncError \<and>
   tw_intervals (timer_run [Start, IdentityLoaded True, JobEnds 0 False]) = [0] \<and>
   tw_jobs (timer_run [Start, IdentityLoaded True, JobEnds 0 False, Tick 0]) = [False]"
proof -
  have "tw_timerStatus (timer_run es) \<noteq> SyncError"
    by (induction es rule: rev_induct) (auto simp: step_status, simp add: timer_run_def new_worker_def)
  then show ?thesis by (simp add: timer_run_def new_worker_def timer_defs)
qed

text \<open>
  A call of stop may not stop the worker.  Stopped while the first job runs, start sets its interval
  after the job; started twice before the first job is done, start sets two intervals, of which stop
  clears one.  In both cases an interval is alive after stop and its ticks run the job.
\<close>

lemma timer_survives_stop:
  assumes "es \<in> {[Start, IdentityLoaded True, Stop, JobEnds 0 True],
    [Start, Start, IdentityLoaded True, IdentityLoaded True, JobEnds 0 True, Stop]}"
  shows "\<exists>i. i \<in> set (tw_intervals (timer_run es)) \<and> tw_jobs (timer_run es) = [] \<and>
    tw_jobs (timer_run (es @ [Tick i])) = [False]"
proof -
  have "0 \<in> set (tw_intervals (timer_run es)) \<and> tw_jobs (timer_run es) = [] \<and>
      tw_jobs (timer_run (es @ [Tick 0])) = [False]"
    using assms by (auto simp: timer_run_def new_worker_def timer_defs)
  then show ?thesis by blast
qed

theorem timer_survives_stop_witness:
  "\<exists>i. i \<in> set (tw_intervals (timer_run [Start, IdentityLoaded True, Stop, JobEnds 0 True]))"
  using timer_survives_stop[of "[Start, IdentityLoaded True, Stop, JobEnds 0 True]"] by auto

end
