(* ===== verification/IcrcWorkers.thy ===== *)
theory IcrcWorkers
  imports Comparators TimerWorker
begin

text \<open>
  The jobs of the ICRC workers: frontend/src/lib/worker-stores/dictionary.worker-store.ts,
  worker-services/icrc-transactions.worker-services.ts, worker-services/icrc-balances.worker-services.ts
  and the sync functions of workers/transactions.worker.ts and workers/balances.worker.ts.  The index and
  ledger canisters are arguments: what they answer to a request.  Fetching the pages of an account is a
  recursion that ends only when the pages reach back far enough, so it takes fuel; None is what is left
  when the fuel runs out.
\<close>

subsection \<open>dictionary.worker-store.ts\<close>

text \<open>An entry of the dictionary is kept with its key; the entries of one update are merged in order.\<close>

type_synonym 'd dictionary = "string \<rightharpoonup> 'd"

definition dictionary_update :: "(string \<times> 'd) list \<Rightarrow> 'd dictionary \<Rightarrow> 'd dictionary" where
  "dictionary_update data state =
     state ++ foldl (\<lambda>acc (key, rest). acc(key \<mapsto> rest)) Map.empty data"

definition dictionary_reset :: "'d dictionary" where
  "dictionary_reset = Map.empty"

subsection \<open>icrc-transactions.worker-services.ts\<close>

text \<open>
  A transaction with its id; the rest of its content is kept as the text JSON.stringify writes for it.
\<close>

record IcrcTransactionWithId =
  tx_id :: int
  tx_timestamp :: int
  tx_content :: string

definition tx_JSON :: "IcrcTransactionWithId \<Rightarrow> int \<times> int \<times> string" where
  "tx_JSON t = (tx_id t, tx_timestamp t, tx_content t)"

record transactions_result =
  tr_accountIdentifier :: string
  tr_mostRecentTxId :: "int option"
  tr_transactions :: "IcrcTransactionWithId list"

text \<open>fetch start: what the index canister answers for the account, with the page limit of the worker\<close>

type_synonym 'e index_canister = "int option \<Rightarrow> 'e + IcrcTransactionWithId list"

definition getIcrcTransactions ::
  "'e index_canister \<Rightarrow> string \<Rightarrow> int option \<Rightarrow> 'e + transactions_result" where
  "getIcrcTransactions fetch accountIdentifier start =
     (case fetch start of
        Inl e \<Rightarrow> Inl e
      | Inr transactions \<Rightarrow>
          (let sorted = js_sort (\<lambda>a b. tx_timestamp b - tx_timestamp a) transactions
           in Inr \<lparr>tr_accountIdentifier = accountIdentifier,
                tr_mostRecentTxId = (case sorted of [] \<Rightarrow> None | t # _ \<Rightarrow> Some (tx_id t)),
                tr_transactions = sorted\<rparr>))"

definition oldestTxId :: "IcrcTransactionWithId list \<Rightarrow> int option" where
  "oldestTxId transactions =
     (case js_sort (\<lambda>a b. tx_id a - tx_id b) transactions of [] \<Rightarrow> None | t # _ \<Rightarrow> Some (tx_id t))"

definition fetchMoreTransactions :: "int option \<Rightarrow> int option \<Rightarrow> bool" where
  "fetchMoreTransactions stateMostRecentTxId oldest =
     (case (stateMostRecentTxId, oldest) of
        (Some s, Some i) \<Rightarrow> i > s
      | _ \<Rightarrow> False)"

fun getIcrcAccountTransactions ::
  "nat \<Rightarrow> 'e index_canister \<Rightarrow> string \<Rightarrow> int option \<Rightarrow> int option \<Rightarrow> ('e + transactions_result) option" where
  "getIcrcAccountTransactions 0 fetch account start stateMostRecentTxId = None"
| "getIcrcAccountTransactions (Suc fuel) fetch account start stateMostRecentTxId =
     (case getIcrcTransactions fetch account start of
        Inl e \<Rightarrow> Some (Inl e)
      | Inr page \<Rightarrow>
          (let oldest = oldestTxId (tr_transactions page)
           in if fetchMoreTransactions stateMostRecentTxId oldest
              then (case getIcrcAccountTransactions fuel fetch account oldest stateMostRecentTxId of
                      None \<Rightarrow> None
                    | Some (Inl e) \<Rightarrow> Some (Inl e)
                    | Some (Inr later) \<Rightarrow>
                        Some (Inr (page\<lparr>tr_transactions := tr_transactions page @ tr_transactions later\<rparr>)))
              else Some (Inr page)))"

text \<open>The reduce that drops the transactions that are already there.\<close>

definition suppress_duplicates :: "IcrcTransactionWithId list \<Rightarrow> IcrcTransactionWithId list" where
  "suppress_duplicates transactions =
     foldl (\<lambda>acc v. if List.find (\<lambda>t. tx_id v = tx_id t \<and> tx_JSON t = tx_JSON v) acc \<noteq> None
                    then acc @ [] else acc @ [v]) [] transactions"

definition accountTransactions ::
  "nat \<Rightarrow> 'e index_canister \<Rightarrow> string \<Rightarrow> int option \<Rightarrow> ('e + transactions_result) option" where
  "accountTransactions fuel fetch account stateMostRecentTxId =
     (case getIcrcAccountTransactions fuel fetch account None stateMostRecentTxId of
        None \<Rightarrow> None
      | Some (Inl e) \<Rightarrow> Some (Inl e)
      | Some (Inr r) \<Rightarrow> Some (Inr (r\<lparr>tr_transactions := suppress_duplicates (tr_transactions r)\<rparr>)))"

text \<open>Promise.all: the first error, or all results in order.\<close>

fun promise_all :: "('e + 'a) list \<Rightarrow> 'e + 'a list" where
  "promise_all [] = Inr []"
| "promise_all (Inl e # rs) = Inl e"
| "promise_all (Inr r # rs) = (case promise_all rs of Inl e \<Rightarrow> Inl e | Inr xs \<Rightarrow> Inr (r # xs))"

fun all_returned :: "'a option list \<Rightarrow> 'a list option" where
  "all_returned [] = Some []"
| "all_returned (x # xs) = (case (x, all_returned xs) of (Some a, Some as) \<Rightarrow> Some (a # as) | _ \<Rightarrow> None)"

record TransactionsData =
  td_mostRecentTxId :: "int option"
  td_transactions :: "IcrcTransactionWithId list"
  td_certified :: bool

definition getIcrcAccountsTransactions ::
  "nat \<Rightarrow> (string \<Rightarrow> 'e index_canister) \<Rightarrow> string list \<Rightarrow> TransactionsData dictionary
     \<Rightarrow> ('e + transactions_result list) option" where
  "getIcrcAccountsTransactions fuel fetch accountIdentifiers state =
     map_option promise_all (all_returned (map (\<lambda>account.
       accountTransactions fuel (fetch account) account
         (Option.bind (state account) td_mostRecentTxId)) accountIdentifiers))"

subsection \<open>transactions.worker.ts and balances.worker.ts\<close>

text \<open>
  syncTransactions: the new state of the store and what is posted, or the error, which is posted as
  well and thrown again.  Posting goes through postMsg of the timer worker, here the argument post.
\<close>

definition syncTransactions ::
  "nat \<Rightarrow> (string \<Rightarrow> 'e index_canister) \<Rightarrow> string list \<Rightarrow> TransactionsData dictionary
     \<Rightarrow> (('e + transactions_result list) \<times> TransactionsData dictionary) option" where
  "syncTransactions fuel fetch accountIdentifiers store =
     (case getIcrcAccountsTransactions fuel fetch accountIdentifiers store of
        None \<Rightarrow> None
      | Some (Inl e) \<Rightarrow> Some (Inl e, store)
      | Some (Inr results) \<Rightarrow>
          (let newTransactions = filter (\<lambda>r. tr_mostRecentTxId r \<noteq>
                 Option.bind (store (tr_accountIdentifier r)) td_mostRecentTxId) results
           in if newTransactions = [] then Some (Inr [], store)
              else Some (Inr newTransactions,
                     dictionary_update (map (\<lambda>r. (tr_accountIdentifier r,
                       \<lparr>td_mostRecentTxId = tr_mostRecentTxId r, td_transactions = tr_transactions r,
                        td_certified = True\<rparr>)) newTransactions) store)))"

record AccountBalance =
  ab_balance :: int
  ab_certified :: bool

definition getIcrcAccountsBalances ::
  "(bool \<Rightarrow> string \<Rightarrow> 'e + int) \<Rightarrow> string list \<Rightarrow> bool \<Rightarrow> 'e + (string \<times> AccountBalance) list" where
  "getIcrcAccountsBalances getIcrcBalance accountIdentifiers certified =
     promise_all (map (\<lambda>account. case getIcrcBalance certified account of
         Inl e \<Rightarrow> Inl e
       | Inr balance \<Rightarrow> Inr (account, \<lparr>ab_balance = balance, ab_certified = certified\<rparr>)) accountIdentifiers)"

definition syncBalances ::
  "(bool \<Rightarrow> string \<Rightarrow> 'e + int) \<Rightarrow> string list \<Rightarrow> AccountBalance dictionary
     \<Rightarrow> ('e + (string \<times> int) list) \<times> AccountBalance dictionary" where
  "syncBalances getIcrcBalance accountIdentifiers store =
     (case getIcrcAccountsBalances getIcrcBalance accountIdentifiers False of
        Inl e \<Rightarrow> (Inl e, store)
      | Inr queries \<Rightarrow>
          (let changes = filter (\<lambda>(key, b). Some (ab_balance b) \<noteq> map_option ab_balance (store key)) queries
           in if changes = [] then (Inr [], store)
              else (case getIcrcAccountsBalances getIcrcBalance accountIdentifiers True of
                      Inl e \<Rightarrow> (Inl e, store)
                    | Inr updates \<Rightarrow>
                        (Inr (map (\<lambda>(key, b). (key, ab_balance b)) updates),
                         dictionary_update updates store))))"

subsection \<open>Lemmas\<close>

interpretation by_timestamp: comparator "\<lambda>a b. tx_timestamp b - tx_timestamp (a :: IcrcTransactionWithId)"
  by unfold_locales auto

interpretation by_id: comparator "\<lambda>a b. tx_id a - tx_id (b :: IcrcTransactionWithId)"
  by unfold_locales auto

lemma tx_JSON_inject [simp]: "tx_JSON s = tx_JSON t \<longleftrightarrow> s = t"
  by (cases s; cases t) (auto simp: tx_JSON_def)

lemma suppress_duplicates_eq: "suppress_duplicates ts = set_insertion_order ts"
proof -
  have "foldl (\<lambda>acc v. if List.find (\<lambda>t. tx_id v = tx_id t \<and> tx_JSON t = tx_JSON v) acc \<noteq> None
      then acc @ [] else acc @ [v]) [] ts = set_insertion_order ts"
  proof (induction ts rule: rev_induct)
    case (snoc x xs)
    have "List.find (\<lambda>t. tx_id x = tx_id t \<and> tx_JSON t = tx_JSON x) (set_insertion_order xs) = None \<longleftrightarrow>
        x \<notin> set xs"
      by (auto simp: find_eq_None_iff)
    with snoc show ?case by (auto simp: set_insertion_order_snoc)
  qed simp
  then show ?thesis by (simp add: suppress_duplicates_def)
qed

lemma oldestTxId_None [simp]: "oldestTxId ts = None \<longleftrightarrow> ts = []"
  by (cases "js_sort (\<lambda>a b. tx_id a - tx_id b) ts") (auto simp: oldestTxId_def dest: arg_cong[of _ _ length])

lemma oldestTxId_least:
  assumes "oldestTxId ts = Some i"
  shows "i \<in> tx_id ` set ts" and "t \<in> set ts \<Longrightarrow> i \<le> tx_id t"
proof -
  obtain m ms where m: "js_sort (\<lambda>a b. tx_id a - tx_id b) ts = m # ms" "i = tx_id m"
    using assms by (auto simp: oldestTxId_def split: list.splits)
  then have "m \<in> set ts" by (metis list.set_intros(1) set_js_sort)
  then show "i \<in> tx_id ` set ts" using m by simp
  show "t \<in> set ts \<Longrightarrow> i \<le> tx_id t"
    using by_id.hd_js_sort_least[OF m(1), of t] m(2) by simp
qed

text \<open>
  An index canister that answers with the transactions of the account, newest id first, from the
  requested id on (or from the newest) and at most limit of them, as its interface documents.
\<close>

definition index_of :: "nat \<Rightarrow> IcrcTransactionWithId list \<Rightarrow> string index_canister" where
  "index_of limit history start =
     Inr (take limit (filter (\<lambda>t. case start of None \<Rightarrow> True | Some i \<Rightarrow> tx_id t \<le> i) history))"

definition newest_first :: "IcrcTransactionWithId list \<Rightarrow> bool" where
  "newest_first history = sorted_wrt (\<lambda>s t. tx_id t \<le> tx_id s) history"

lemma take_newest:
  assumes "newest_first xs" and "t \<in> set xs" and "t \<notin> set (take n xs)" and "s \<in> set (take n xs)"
  shows "tx_id t \<le> tx_id s"
proof -
  have "t \<in> set (drop n xs)" using assms(2,3) by (metis append_take_drop_id set_append UnE)
  with assms(1,4) show ?thesis
    unfolding newest_first_def by (metis append_take_drop_id sorted_wrt_append)
qed

text \<open>The transactions of the history from start on.\<close>

definition from_start :: "int option \<Rightarrow> IcrcTransactionWithId list \<Rightarrow> IcrcTransactionWithId list" where
  "from_start start h = filter (\<lambda>t. case start of None \<Rightarrow> True | Some i \<Rightarrow> tx_id t \<le> i) h"

lemma getIcrcTransactions_index:
  "\<exists>page. getIcrcTransactions (index_of limit h) a start = Inr page \<and>
     set (tr_transactions page) = set (take limit (from_start start h))"
  by (simp add: getIcrcTransactions_def index_of_def Let_def from_start_def)

text \<open>Fewer than limit transactions share an id, so the next page always reaches further back.\<close>

definition few_per_id :: "nat \<Rightarrow> IcrcTransactionWithId list \<Rightarrow> bool" where
  "few_per_id limit h \<longleftrightarrow> (\<forall>i. length (filter (\<lambda>t. tx_id t = i) h) < limit)"

lemma page_progress:
  assumes "newest_first F" and "few_per_id limit F" and "limit < length F"
    and "i \<in> tx_id ` set (take limit F)" and "\<forall>t\<in>set (take limit F). i \<le> tx_id t"
  shows "length (filter (\<lambda>t. tx_id t \<le> i) F) < length F"
proof -
  have "\<exists>t\<in>set (take limit F). i < tx_id t"
  proof (rule ccontr)
    assume "\<not> ?thesis"
    with assms(5) have "\<forall>t\<in>set (take limit F). tx_id t = i" by force
    then have "filter (\<lambda>t. tx_id t = i) (take limit F) = take limit F" by simp
    moreover have "length (filter (\<lambda>t. tx_id t = i) (take limit F)) \<le> length (filter (\<lambda>t. tx_id t = i) F)"
      by (metis append_take_drop_id filter_append le_add1 length_append)
    moreover have "length (take limit F) = limit" using assms(3) by simp
    moreover have "length (filter (\<lambda>t. tx_id t = i) F) < limit" using assms(2) by (simp add: few_per_id_def)
    ultimately show False by simp
  qed
  then obtain t where "t \<in> set F" "\<not> tx_id t \<le> i" by (meson in_set_takeD not_le)
  then show ?thesis by (rule length_filter_less)
qed

lemma few_per_id_filter: "few_per_id n h \<Longrightarrow> few_per_id n (filter P h)"
  unfolding few_per_id_def
proof
  fix i
  assume "\<forall>i. length (filter (\<lambda>t. tx_id t = i) h) < n"
  then have "length (filter (\<lambda>t. tx_id t = i) h) < n" ..
  moreover have "length (filter (\<lambda>t. tx_id t = i) (filter P h)) \<le> length (filter (\<lambda>t. tx_id t = i) h)"
    by (induction h) auto
  ultimately show "length (filter (\<lambda>t. tx_id t = i) (filter P h)) < n" by simp
qed

lemma newest_first_filter: "newest_first h \<Longrightarrow> newest_first (filter P h)"
  by (simp add: newest_first_def sorted_wrt_filter)

lemma fetch_complete:
  assumes "newest_first h" and "few_per_id limit h" and "\<exists>t\<in>set h. tx_id t \<le> s"
    and "length (from_start start h) < fuel"
    and "\<forall>i. start = Some i \<longrightarrow> s < i"
  shows "\<exists>r. getIcrcAccountTransactions fuel (index_of limit h) a start (Some s) = Some (Inr r) \<and>
     set (tr_transactions r) \<subseteq> set h \<and>
     (\<forall>t\<in>set h. s < tx_id t \<and> (\<forall>i. start = Some i \<longrightarrow> tx_id t \<le> i) \<longrightarrow> t \<in> set (tr_transactions r))"
  using assms(4,5)
proof (induction fuel arbitrary: start)
  case 0
  then show ?case by simp
next
  case (Suc fuel)
  define F where "F = from_start start h"
  have F: "newest_first F" "few_per_id limit F" "set F \<subseteq> set h"
    using assms(1,2) by (auto simp: F_def from_start_def newest_first_filter few_per_id_filter)
  have old: "\<exists>t\<in>set F. tx_id t \<le> s"
    using assms(3) Suc.prems(2) by (cases start) (force simp: F_def from_start_def)+
  obtain page where page: "getIcrcTransactions (index_of limit h) a start = Inr page"
    "set (tr_transactions page) = set (take limit F)"
    using getIcrcTransactions_index[of limit h a start] unfolding F_def by blast
  have covers: "t \<in> set F" if "t \<in> set h" "\<forall>i. start = Some i \<longrightarrow> tx_id t \<le> i" for t
    using that by (auto simp: F_def from_start_def split: option.splits)
  have "take limit F \<noteq> []" using old F(2) by (cases F) (auto simp: few_per_id_def)
  then obtain i where i: "oldestTxId (tr_transactions page) = Some i"
    using page(2) by (metis oldestTxId_None option.exhaust set_empty2)
  have least: "i \<in> tx_id ` set (take limit F)" "\<forall>t\<in>set (take limit F). i \<le> tx_id t"
    using oldestTxId_least[OF i] page(2) by auto
  have rest: "tx_id t \<le> i" if "t \<in> set F" "t \<notin> set (take limit F)" for t
    using take_newest[OF F(1) that] least(1) by auto
  show ?case
  proof (cases "s < i")
    case False
    then have "getIcrcAccountTransactions (Suc fuel) (index_of limit h) a start (Some s) = Some (Inr page)"
      using page(1) i by (simp add: fetchMoreTransactions_def)
    moreover have "t \<in> set (take limit F)" if "t \<in> set h" "s < tx_id t" "\<forall>i. start = Some i \<longrightarrow> tx_id t \<le> i" for t
      using rest covers that False by force
    ultimately show ?thesis using page(2) F(3) by (auto dest: in_set_takeD)
  next
    case True
    have "limit < length F"
    proof (rule ccontr)
      assume "\<not> limit < length F"
      then have "set (take limit F) = set F" by simp
      with old least(2) True show False by force
    qed
    then have "length (filter (\<lambda>t. tx_id t \<le> i) F) < length F"
      by (rule page_progress[OF F(1,2) _ least])
    moreover have "filter (\<lambda>t. tx_id t \<le> i) F = from_start (Some i) h"
    proof -
      obtain u where "u \<in> set F" "tx_id u = i" using least(1) by (auto dest: in_set_takeD)
      then have "\<forall>j. start = Some j \<longrightarrow> i \<le> j" by (auto simp: F_def from_start_def)
      then show ?thesis
        unfolding F_def from_start_def filter_filter
        by (intro filter_cong) (auto split: option.splits)
    qed
    ultimately have "length (from_start (Some i) h) < fuel"
      using Suc.prems(1) by (simp add: F_def)
    from Suc.IH[OF this] True obtain r where r:
      "getIcrcAccountTransactions fuel (index_of limit h) a (Some i) (Some s) = Some (Inr r)"
      "set (tr_transactions r) \<subseteq> set h"
      "\<forall>t\<in>set h. s < tx_id t \<and> tx_id t \<le> i \<longrightarrow> t \<in> set (tr_transactions r)"
      by auto
    have "getIcrcAccountTransactions (Suc fuel) (index_of limit h) a start (Some s) =
        Some (Inr (page\<lparr>tr_transactions := tr_transactions page @ tr_transactions r\<rparr>))"
      using page(1) i r(1) True by (simp add: fetchMoreTransactions_def)
    moreover have "t \<in> set (take limit F) \<or> t \<in> set (tr_transactions r)"
      if "t \<in> set h" "s < tx_id t" "\<forall>i. start = Some i \<longrightarrow> tx_id t \<le> i" for t
      using rest covers r(3) that by blast
    ultimately show ?thesis using page(2) F(3) r(2) by (auto dest: in_set_takeD)
  qed
qed

subsection \<open>Properties\<close>

text \<open>
  C33: With an index canister that answers newest first and from the requested id on, and whose page
  limit exceeds the number of transactions sharing an id, fetching the transactions of an account ends
  (fuel above the length of the history is enough) and returns, without duplicates, only transactions of
  the account and every one that is newer than the most recent one the worker knew.
\<close>

theorem accountTransactions_complete:
  assumes "newest_first h" and "few_per_id limit h" and "\<exists>t\<in>set h. tx_id t \<le> s" and "length h < fuel"
  shows "\<exists>r. accountTransactions fuel (index_of limit h) account (Some s) = Some (Inr r) \<and>
    distinct (tr_transactions r) \<and> set (tr_transactions r) \<subseteq> set h \<and>
    {t \<in> set h. s < tx_id t} \<subseteq> set (tr_transactions r)"
proof -
  have "length (from_start None h) < fuel" using assms(4) by (simp add: from_start_def)
  from fetch_complete[OF assms(1-3) this, of account] obtain r where
    "getIcrcAccountTransactions fuel (index_of limit h) account None (Some s) = Some (Inr r)"
    "set (tr_transactions r) \<subseteq> set h" "\<forall>t\<in>set h. s < tx_id t \<longrightarrow> t \<in> set (tr_transactions r)"
    by auto
  then show ?thesis
    by (auto simp: accountTransactions_def suppress_duplicates_eq)
qed

definition some_tx :: "int \<Rightarrow> IcrcTransactionWithId" where
  "some_tx i = \<lparr>tx_id = i, tx_timestamp = i, tx_content = []\<rparr>"

theorem accountTransactions_complete_witness:
  "\<exists>r. accountTransactions 6 (index_of 2 (map some_tx [5, 4, 3, 2, 1])) ''a'' (Some 1) = Some (Inr r) \<and>
     {some_tx 5, some_tx 4, some_tx 3, some_tx 2} \<subseteq> set (tr_transactions r)"
proof -
  have few: "few_per_id 2 (map some_tx [5, 4, 3, 2, 1])" by (auto simp: few_per_id_def some_tx_def)
  have "\<exists>t\<in>set (map some_tx [5, 4, 3, 2, 1]). tx_id t \<le> 1" by (simp add: some_tx_def)
  from accountTransactions_complete[OF _ few this, of 6 "''a''"] obtain r where
    "accountTransactions 6 (index_of 2 (map some_tx [5, 4, 3, 2, 1])) ''a'' (Some 1) = Some (Inr r)"
    "{t \<in> set (map some_tx [5, 4, 3, 2, 1]). 1 < tx_id t} \<subseteq> set (tr_transactions r)"
    by (auto simp: newest_first_def some_tx_def)
  moreover have "{t \<in> set (map some_tx [5, 4, 3, 2, 1]). 1 < tx_id t} =
      {some_tx 5, some_tx 4, some_tx 3, some_tx 2}"
    by (auto simp: some_tx_def)
  ultimately show ?thesis by auto
qed

end
