(* ===== verification/Tokens.thy ===== *)
theory Tokens
  imports JsNumber Comparators "HOL-Library.Signed_Division"
begin

text \<open>
  Amounts of tokens: frontend/src/lib/utils/token.utils.ts and utils/tokens-table.utils.ts.

  An amount is a bigint in the smallest unit (ulps, e8s for ICP).  Intl.NumberFormat and toFixed work on
  the exact value of the double they are given; both are written out here for the options the code uses.
\<close>

subsection \<open>Library functions on numbers\<close>

text \<open>A bigint division truncates towards zero.\<close>

definition bigint_div :: "int \<Rightarrow> int \<Rightarrow> int" where
  "bigint_div a b = a sdiv b"

definition pad_zeros :: "nat \<Rightarrow> string \<Rightarrow> string" where
  "pad_zeros width s = replicate (width - length s) (CHR ''0'') @ s"

text \<open>The decimal digits of n / 10^d, with exactly d decimals.\<close>

definition fixed_digits :: "nat \<Rightarrow> nat \<Rightarrow> string \<times> string" where
  "fixed_digits n d = (nat_to_string (n div 10 ^ d),
     if d = 0 then [] else pad_zeros d (nat_to_string (n mod 10 ^ d)))"

text \<open>x.toFixed(f) rounds to the nearest, the larger one of two equally near; the fraction of it.\<close>

definition toFixed_fraction :: "number \<Rightarrow> nat \<Rightarrow> string" where
  "toFixed_fraction x f = snd (fixed_digits (nat \<lfloor>\<bar>x\<bar> * 10 ^ f + 1/2\<rfloor>) f)"

datatype RoundMode = Ceil | Floor | Expand | Trunc | HalfCeil | HalfFloor | HalfExpand | HalfTrunc | HalfEven

definition expand_from :: "number \<Rightarrow> int \<Rightarrow> int" where
  "expand_from y n = (if 0 \<le> y then n else - n)"

definition round_mode :: "RoundMode \<Rightarrow> number \<Rightarrow> int" where
  "round_mode mode y = (case mode of
       Ceil \<Rightarrow> \<lceil>y\<rceil>
     | Floor \<Rightarrow> \<lfloor>y\<rfloor>
     | Expand \<Rightarrow> expand_from y \<lceil>\<bar>y\<bar>\<rceil>
     | Trunc \<Rightarrow> expand_from y \<lfloor>\<bar>y\<bar>\<rfloor>
     | HalfCeil \<Rightarrow> \<lfloor>y + 1/2\<rfloor>
     | HalfFloor \<Rightarrow> \<lceil>y - 1/2\<rceil>
     | HalfExpand \<Rightarrow> expand_from y \<lfloor>\<bar>y\<bar> + 1/2\<rfloor>
     | HalfTrunc \<Rightarrow> expand_from y \<lceil>\<bar>y\<bar> - 1/2\<rceil>
     | HalfEven \<Rightarrow> round_half_even y)"

fun group_rev :: "string \<Rightarrow> string" where
  "group_rev (a # b # c # d # rest) = a # b # c # CHR '','' # group_rev (d # rest)"
| "group_rev s = s"

definition group_thousands :: "string \<Rightarrow> string" where
  "group_thousands s = rev (group_rev (rev s))"

text \<open>
  Intl.NumberFormat("en-US") with as many minimum as maximum fraction digits; the default rounding is
  half away from zero, and a negative number keeps its sign when it rounds to zero.
\<close>

definition intl_format :: "nat \<Rightarrow> RoundMode option \<Rightarrow> number \<Rightarrow> string" where
  "intl_format decimals roundingMode x =
     (let n = round_mode (nullish_or roundingMode HalfExpand) (x * 10 ^ decimals);
          (i, f) = fixed_digits (nat \<bar>n\<bar>) decimals
      in (if x < 0 then ''-'' else []) @ group_thousands i @ (if decimals = 0 then [] else CHR ''.'' # f))"

subsection \<open>token.utils.ts\<close>

definition E8S_PER_ICP :: int where
  "E8S_PER_ICP = 100000000"

definition ICP_DISPLAYED_DECIMALS :: nat where
  "ICP_DISPLAYED_DECIMALS = 2"

definition ICP_DISPLAYED_HEIGHT_DECIMALS :: nat where
  "ICP_DISPLAYED_HEIGHT_DECIMALS = 8"

text \<open>.replace(/0*$/, "") then the part behind the point, if there is one\<close>

definition strip_zeros :: "string \<Rightarrow> string" where
  "strip_zeros s = rev (dropWhile (\<lambda>c. c = CHR ''0'') (rev s))"

definition countDecimals :: "number \<Rightarrow> nat" where
  "countDecimals v = max (length (strip_zeros (toFixed_fraction v 10))) ICP_DISPLAYED_DECIMALS"

definition ulpsToE8s :: "int \<Rightarrow> nat \<Rightarrow> int" where
  "ulpsToE8s ulps decimals =
     (if decimals = 8 then ulps
      else if decimals < 8 then ulps * 10 ^ (8 - decimals)
      else bigint_div ulps (10 ^ (decimals - 8)))"

datatype detail = NotDetailed | Detailed | HeightDecimals

text \<open>10 ** tokenDecimals is a number, rounded where it has more than 53 significant bits.\<close>

definition formatTokenUlps ::
  "int \<Rightarrow> nat \<Rightarrow> nat \<Rightarrow> nat \<Rightarrow> detail \<Rightarrow> RoundMode option \<Rightarrow> bool \<Rightarrow> string" where
  "formatTokenUlps v tokenDecimals defaultDisplayedDecimals maxDisplayedDecimals detailed roundingMode
     extraDetailForSmallAmount =
     (if v = 0 then ''0''
      else let converted = num_div (to_number v) (rnd (10 ^ tokenDecimals));
               decimalsForAmount =
                 (if converted < rnd (1/100) \<and> extraDetailForSmallAmount
                  then max (countDecimals converted) defaultDisplayedDecimals
                  else if detailed \<noteq> NotDetailed
                  then min (countDecimals converted) maxDisplayedDecimals
                  else defaultDisplayedDecimals);
               decimals = (if detailed = HeightDecimals then maxDisplayedDecimals else decimalsForAmount)
           in map (\<lambda>c. if c = CHR '','' then char_of (39 :: nat) else c)
                (intl_format decimals roundingMode converted))"

definition formatTokenE8s :: "int \<Rightarrow> detail \<Rightarrow> RoundMode option \<Rightarrow> bool \<Rightarrow> string" where
  "formatTokenE8s v detailed roundingMode extraDetailForSmallAmount =
     formatTokenUlps v ICP_DISPLAYED_HEIGHT_DECIMALS ICP_DISPLAYED_DECIMALS
       ICP_DISPLAYED_HEIGHT_DECIMALS detailed roundingMode extraDetailForSmallAmount"

text \<open>A token amount of either class is its amount in the smallest unit with the token.\<close>

record Token =
  token_decimals :: nat
  token_symbol :: string

record TokenAmount =
  ta_ulps :: int
  ta_token :: Token

definition formatTokenV2 :: "TokenAmount \<Rightarrow> detail \<Rightarrow> RoundMode option \<Rightarrow> bool \<Rightarrow> string" where
  "formatTokenV2 v detailed roundingMode extraDetailForSmallAmount =
     formatTokenUlps (ta_ulps v) (token_decimals (ta_token v))
       (min ICP_DISPLAYED_DECIMALS (token_decimals (ta_token v)))
       (min ICP_DISPLAYED_HEIGHT_DECIMALS (token_decimals (ta_token v)))
       detailed roundingMode extraDetailForSmallAmount"

definition sumAmounts :: "int list \<Rightarrow> int" where
  "sumAmounts amounts = foldl (\<lambda>acc amount. acc + amount) 0 amounts"

definition formattedTransactionFeeICP :: "int \<Rightarrow> string" where
  "formattedTransactionFeeICP fee = formatTokenE8s fee NotDetailed None True"

definition getMaxTransactionAmount :: "int option \<Rightarrow> int option \<Rightarrow> int option \<Rightarrow> Token \<Rightarrow> number" where
  "getMaxTransactionAmount balance fee maxAmount token =
     (let maxUserAmount = ulpsToE8s (nullish_or balance 0 - nullish_or fee 0) (token_decimals token)
      in case maxAmount of
           None \<Rightarrow> num_div (max (to_number maxUserAmount) 0) (of_int E8S_PER_ICP)
         | Some m \<Rightarrow>
             (let maxAmountE8s = ulpsToE8s m (token_decimals token)
              in num_div (min (to_number maxAmountE8s) (max (to_number maxUserAmount) 0))
                   (of_int E8S_PER_ICP)))"

definition NUMBER_XDR_PER_ONE_ICP :: int where
  "NUMBER_XDR_PER_ONE_ICP = 10000"

definition convertIcpToTCycles :: "number \<Rightarrow> int \<Rightarrow> number" where
  "convertIcpToTCycles icpNumber exchangeRate =
     num_mul icpNumber (num_div (to_number exchangeRate) (of_int NUMBER_XDR_PER_ONE_ICP))"

definition convertTCyclesToIcpNumber :: "number \<Rightarrow> int \<Rightarrow> number" where
  "convertTCyclesToIcpNumber tCycles exchangeRate =
     num_div tCycles (num_div (to_number exchangeRate) (of_int NUMBER_XDR_PER_ONE_ICP))"

definition ulpsToNumber :: "int \<Rightarrow> Token \<Rightarrow> number" where
  "ulpsToNumber ulps token =
     num_div (to_number (ulpsToE8s ulps (token_decimals token))) 100000000"

subsection \<open>Rows of the tokens table\<close>

datatype token_balance = BalanceLoading | BalanceFailed | BalanceUnavailable | BalanceUlps int

record UserToken =
  ut_universeId :: string
  ut_title :: string
  ut_balance :: token_balance

definition has_balance :: "UserToken \<Rightarrow> bool" where
  "has_balance t = (case ut_balance t of BalanceUlps _ \<Rightarrow> True | _ \<Rightarrow> False)"

definition getTokenBalanceOrZero :: "UserToken \<Rightarrow> int" where
  "getTokenBalanceOrZero t = (case ut_balance t of BalanceUlps u \<Rightarrow> u | _ \<Rightarrow> 0)"

text \<open>The comparator never returns 0; for two equal balances it returns 1 either way round.\<close>

definition sortUserTokens_compare :: "UserToken comparator_fun" where
  "sortUserTokens_compare a b =
     (if getTokenBalanceOrZero a > getTokenBalanceOrZero b then -1 else 1)"

definition sortUserTokens :: "UserToken list \<Rightarrow> UserToken list" where
  "sortUserTokens tokens =
     js_sort sortUserTokens_compare (filter has_balance tokens) @
     filter (\<lambda>t. \<not> has_balance t) tokens"

text \<open>toLowerCase on the characters of a string\<close>

definition toLowerCase :: "string \<Rightarrow> string" where
  "toLowerCase s = map (\<lambda>c. let n = of_char c :: nat
     in if (65 \<le> n \<and> n \<le> 90) \<or> (192 \<le> n \<and> n \<le> 222 \<and> n \<noteq> 215) then char_of (n + 32) else c) s"

text \<open>ownCanisterIdText and the important ids are constants of the build.\<close>

definition compareTokensIcpFirst :: "string \<Rightarrow> UserToken comparator_fun" where
  "compareTokensIcpFirst ownCanisterIdText =
     createDescendingComparator (\<lambda>t. ut_universeId t = ownCanisterIdText)"

definition compareFailedTokensLast :: "UserToken comparator_fun" where
  "compareFailedTokensLast = createAscendingComparator (\<lambda>t. ut_balance t = BalanceFailed)"

definition compareTokensWithBalanceOrImportedFirst :: "string list \<Rightarrow> UserToken comparator_fun" where
  "compareTokensWithBalanceOrImportedFirst importedTokenIds =
     createDescendingComparator (\<lambda>t. getTokenBalanceOrZero t > 0 \<or> ut_universeId t \<in> set importedTokenIds)"

definition compareTokensByImportance :: "string list \<Rightarrow> UserToken comparator_fun" where
  "compareTokensByImportance importantCkTokenIds =
     createDescendingComparator (\<lambda>t. js_indexOf (rev importantCkTokenIds) (ut_universeId t))"

definition compareTokensAlphabetically :: "UserToken comparator_fun" where
  "compareTokensAlphabetically = createAscendingComparator (\<lambda>t. toLowerCase (ut_title t))"

definition compareTokensForTokensTable ::
  "string \<Rightarrow> string list \<Rightarrow> string list \<Rightarrow> UserToken comparator_fun" where
  "compareTokensForTokensTable ownCanisterIdText importantCkTokenIds importedTokenIds =
     mergeComparators [compareTokensIcpFirst ownCanisterIdText,
       compareTokensWithBalanceOrImportedFirst importedTokenIds,
       compareFailedTokensLast,
       compareTokensByImportance importantCkTokenIds,
       compareTokensAlphabetically]"

subsection \<open>Lemmas on digits\<close>

abbreviation quote :: char where
  "quote \<equiv> char_of (39 :: nat)"

lemma nat_to_string_ge: "c \<in> set (nat_to_string n) \<Longrightarrow> 48 \<le> (of_char c :: nat)"
  using set_nat_to_string[of n] by (auto simp: of_char_digit_char)

lemma nat_to_string_clean:
  assumes "c \<in> set (nat_to_string n)"
  shows "c \<noteq> CHR '','' \<and> c \<noteq> quote \<and> c \<noteq> CHR ''.''"
proof -
  have "of_char (CHR '','') < (48 :: nat)" "of_char quote < (48 :: nat)" "of_char (CHR ''.'') < (48 :: nat)"
    by simp_all
  with nat_to_string_ge[OF assms] show ?thesis by (metis not_le)
qed

lemma quote_neq: "quote \<noteq> CHR '','' "
proof
  assume "quote = CHR '','' "
  then have "(of_char quote :: nat) = of_char (CHR '','')" by (rule arg_cong)
  then show False by simp
qed

lemma filter_group_rev: "\<forall>c\<in>set s. c \<noteq> CHR '','' \<Longrightarrow> filter (\<lambda>c. c \<noteq> CHR '','') (group_rev s) = s"
  by (induction s rule: group_rev.induct) auto

lemma filter_group: "\<forall>c\<in>set s. c \<noteq> CHR '','' \<Longrightarrow> filter (\<lambda>c. c \<noteq> CHR '','') (group_thousands s) = s"
  by (simp add: group_thousands_def filter_group_rev flip: rev_filter)

lemma set_group_rev: "set (group_rev s) \<subseteq> insert (CHR '','') (set s)"
  by (induction s rule: group_rev.induct) auto

lemma set_group: "set (group_thousands s) \<subseteq> insert (CHR '','') (set s)"
  using set_group_rev[of "rev s"] by (simp add: group_thousands_def)

text \<open>Dropping the quotes that replace the commas gives the digits back.\<close>

lemma filter_replaced:
  "q \<notin> set xs \<Longrightarrow> filter (\<lambda>c. c \<noteq> q) (map (\<lambda>c. if c = k then q else c) xs) = filter (\<lambda>c. c \<noteq> k) xs"
  by (induction xs) auto

lemma filter_quotes:
  assumes "\<forall>c\<in>set s. c \<noteq> CHR '','' \<and> c \<noteq> q" and "q \<noteq> CHR '',''"
  shows "filter (\<lambda>c. c \<noteq> q) (map (\<lambda>c. if c = CHR '','' then q else c) (group_thousands s)) = s"
proof -
  have "q \<notin> set (group_thousands s)" using set_group[of s] assms by auto
  then show ?thesis using filter_group[of s] assms(1) by (simp add: filter_replaced)
qed

lemma string_to_nat_append_zeros:
  "string_to_nat (replicate n (CHR ''0'') @ s) = string_to_nat s"
proof (induction n)
  case (Suc n)
  have "string_to_nat (CHR ''0'' # t) = string_to_nat t" for t
    by (simp add: string_to_nat_def digit_of_def)
  with Suc show ?case by simp
qed simp

lemma string_to_nat_pad [simp]: "string_to_nat (pad_zeros w s) = string_to_nat s"
  by (simp add: pad_zeros_def string_to_nat_append_zeros)

lemma length_nat_to_string: "n < 10 ^ d \<Longrightarrow> 0 < d \<Longrightarrow> length (nat_to_string n) \<le> d"
proof (induction d arbitrary: n)
  case (Suc d)
  show ?case
  proof (cases "n < 10")
    case True
    then show ?thesis by (simp add: nat_to_string.simps[of n])
  next
    case False
    then have "0 < d" using Suc.prems(1) by (cases d) auto
    moreover have "n div 10 < 10 ^ d" using Suc.prems(1) by (simp add: less_mult_imp_div_less mult.commute)
    ultimately have "length (nat_to_string (n div 10)) \<le> d" by (rule Suc.IH[rotated])
    then show ?thesis using False by (simp add: nat_to_string.simps[of n])
  qed
qed simp

lemma length_pad: "n < 10 ^ d \<Longrightarrow> 0 < d \<Longrightarrow> length (pad_zeros d (nat_to_string n)) = d"
  using length_nat_to_string[of n d] by (simp add: pad_zeros_def)

subsection \<open>Lemmas on amounts\<close>

text \<open>Below 2^52 units the double nearest to v / 10^8 still identifies v.\<close>

lemma display_exact:
  assumes "0 \<le> v" and "v < 2 ^ 52"
  shows "\<lfloor>num_div (to_number v) 100000000 * 100000000 + 1/2\<rfloor> = v"
proof -
  define x where "x = (of_int v :: rat) / 100000000"
  have v: "to_number v = of_int v" using assms by simp
  have "0 \<le> x" using assms(1) by (simp add: x_def)
  then have "\<bar>rnd x - x\<bar> \<le> x / 2 ^ 53" by (rule rnd_error)
  moreover have "(of_int v :: rat) < 2 ^ 52" using assms(2) by (metis of_int_less_iff of_int_numeral of_int_power)
  ultimately have "\<bar>rnd x * 100000000 - of_int v\<bar> < 1/2"
    by (auto simp: x_def abs_if field_simps split: if_splits)
  then have "of_int v \<le> rnd x * 100000000 + 1/2" "rnd x * 100000000 + 1/2 < of_int v + 1" by linarith+
  then show ?thesis by (simp add: v num_div_def x_def floor_eq_iff)
qed

lemma converted_pos: "0 < v \<Longrightarrow> 0 < num_div (to_number v) 100000000"
  by (simp add: num_div_def to_number_sign)

lemma ten_pow_8: "rnd 100000000 = 100000000"
  using rnd_10_pow[of 8] by simp

text \<open>The display with eight decimals.\<close>

lemma display_height:
  assumes "0 < v" and "v < 2 ^ 52"
  shows "formatTokenE8s v HeightDecimals None e =
     map (\<lambda>c. if c = CHR '','' then quote else c) (group_thousands (nat_to_string (nat v div 10 ^ 8))) @
     CHR ''.'' # pad_zeros 8 (nat_to_string (nat v mod 10 ^ 8))"
proof -
  have e: "\<lfloor>\<bar>num_div (to_number v) 100000000\<bar> * 100000000 + 1/2\<rfloor> = v"
    using display_exact[of v] converted_pos[of v] assms by simp
  have r: "round_mode HalfExpand (num_div (to_number v) 100000000 * 10 ^ 8) = v"
    using e converted_pos[OF assms(1)] by (simp add: round_mode_def expand_from_def abs_mult)
  have m: "map (\<lambda>c. if c = CHR '','' then quote else c) (pad_zeros 8 (nat_to_string n)) =
      pad_zeros 8 (nat_to_string n)" for n
    using nat_to_string_clean[of _ n] by (intro map_idI) (auto simp: pad_zeros_def)
  show ?thesis
    using r converted_pos[OF assms(1)] assms(1)
    by (simp add: formatTokenE8s_def formatTokenUlps_def ICP_DISPLAYED_HEIGHT_DECIMALS_def Let_def ten_pow_8
        intl_format_def fixed_digits_def m)
qed

lemma sortUserTokens_weak: "weak_comparator sortUserTokens_compare"
  by unfold_locales (auto simp: sortUserTokens_compare_def split: if_splits)

interpretation by_balance: weak_comparator sortUserTokens_compare
  by (rule sortUserTokens_weak)

interpretation tokens_table: comparator "compareTokensForTokensTable own important imported"
  for own important imported
  unfolding compareTokensForTokensTable_def compareTokensIcpFirst_def
    compareTokensWithBalanceOrImportedFirst_def compareFailedTokensLast_def compareTokensByImportance_def
    compareTokensAlphabetically_def
  by (rule comparator_merge) (auto intro: descending.comparator_axioms ascending.comparator_axioms)

subsection \<open>Properties\<close>

text \<open>
  Shown with eight decimals, an ICP amount of less than 2^52 e8s is exact although it goes through a
  double: there is a point with eight digits behind it, and the digits, without the grouping quotes, read
  back as the amount.
\<close>

lemma formatTokenE8s_exact:
  assumes "0 < v" and "v < 2 ^ 52"
  shows "\<exists>i f. formatTokenE8s v HeightDecimals None extra = i @ CHR ''.'' # f \<and> length f = 8 \<and>
     string_to_nat (filter (\<lambda>c. c \<noteq> char_of (39 :: nat)) i) * 10 ^ 8 + string_to_nat f = nat v"
proof (intro exI conjI)
  show "formatTokenE8s v HeightDecimals None extra =
     map (\<lambda>c. if c = CHR '','' then quote else c) (group_thousands (nat_to_string (nat v div 10 ^ 8))) @
     CHR ''.'' # pad_zeros 8 (nat_to_string (nat v mod 10 ^ 8))"
    using assms by (rule display_height)
  show "length (pad_zeros 8 (nat_to_string (nat v mod 10 ^ 8))) = 8"
    by (intro length_pad) simp_all
  have "filter (\<lambda>c. c \<noteq> quote) (map (\<lambda>c. if c = CHR '','' then quote else c)
      (group_thousands (nat_to_string (nat v div 10 ^ 8)))) = nat_to_string (nat v div 10 ^ 8)"
    using nat_to_string_clean by (intro filter_quotes quote_neq) blast
  then show "string_to_nat (filter (\<lambda>c. c \<noteq> quote) (map (\<lambda>c. if c = CHR '','' then quote else c)
      (group_thousands (nat_to_string (nat v div 10 ^ 8))))) * 10 ^ 8 +
      string_to_nat (pad_zeros 8 (nat_to_string (nat v mod 10 ^ 8))) = nat v"
    by simp
qed

theorem formatTokenE8s_exact_witness:
  "\<exists>i f. formatTokenE8s 123456789012345 HeightDecimals None True = i @ CHR ''.'' # f \<and> length f = 8 \<and>
     string_to_nat (filter (\<lambda>c. c \<noteq> char_of (39 :: nat)) i) * 10 ^ 8 + string_to_nat f = 123456789012345"
  using formatTokenE8s_exact[of 123456789012345 True] by simp

text \<open>
  The maximum amount offered for a transaction of an 8-decimal token is never negative and, for
  balances below 2^52, is to the nearest unit exactly what is left of the balance after the fee, or the
  given limit when that is lower: sending it never needs more than the balance.
\<close>

lemma getMaxTransactionAmount_exact:
  assumes "token_decimals token = 8" and "0 \<le> fee" and "balance < 2 ^ 52"
    and "\<forall>m. maxAmount = Some m \<longrightarrow> 0 \<le> m \<and> m < 2 ^ 52"
  shows "\<lfloor>getMaxTransactionAmount (Some balance) (Some fee) maxAmount token * 100000000 + 1/2\<rfloor> =
     (case maxAmount of None \<Rightarrow> max (balance - fee) 0 | Some m \<Rightarrow> min m (max (balance - fee) 0)) \<and>
    0 \<le> getMaxTransactionAmount (Some balance) (Some fee) maxAmount token"
proof -
  have m: "max (to_number n) 0 = to_number (max n 0)" for n
    using to_number_sign(2)[of n] to_number_nonneg[of n] by (auto simp: max_def to_number_sign not_le)
  have i: "min (to_number a) (to_number b) = to_number (min a b)" for a b
    using to_number_mono[of a b] to_number_mono[of b a] by (auto simp: min_def)
  define r where "r = (case maxAmount of None \<Rightarrow> max (balance - fee) 0
      | Some m \<Rightarrow> min m (max (balance - fee) 0))"
  have "getMaxTransactionAmount (Some balance) (Some fee) maxAmount token = num_div (to_number r) 100000000"
    using assms(1) by (cases maxAmount)
      (simp_all add: getMaxTransactionAmount_def ulpsToE8s_def Let_def m i r_def E8S_PER_ICP_def)
  moreover have "0 \<le> r" "r < 2 ^ 52"
    using assms(2-4) by (auto simp: r_def split: option.splits)
  moreover have "0 \<le> num_div (to_number r) 100000000"
    using \<open>0 \<le> r\<close> by (simp add: num_div_def rnd_nonneg to_number_nonneg)
  ultimately show ?thesis using display_exact[of r] by (simp add: r_def)
qed

theorem getMaxTransactionAmount_exact_witness:
  "\<lfloor>getMaxTransactionAmount (Some 100010000) (Some 10000) (Some 300000000)
      \<lparr>token_decimals = 8, token_symbol = ''ICP''\<rparr> * 100000000 + 1/2\<rfloor> = 100000000"
  using getMaxTransactionAmount_exact[of "\<lparr>token_decimals = 8, token_symbol = ''ICP''\<rparr>" 10000 100010000
      "Some 300000000"]
  by simp

text \<open>
  sortUserTokens returns the tokens it got: first those with a balance, largest balance first and
  equal balances in their order (although the comparator never says two balances are equal), then the
  tokens without a balance in their order.
\<close>

lemma sortUserTokens_correct:
  "mset (sortUserTokens ts) = mset ts \<and>
   (\<exists>sorted. sortUserTokens ts = sorted @ filter (\<lambda>t. \<not> has_balance t) ts \<and>
     sorted_wrt (\<lambda>s t. getTokenBalanceOrZero t \<le> getTokenBalanceOrZero s) sorted \<and>
     filter (\<lambda>t. getTokenBalanceOrZero t = u) sorted =
       filter (\<lambda>t. has_balance t \<and> getTokenBalanceOrZero t = u) ts)"
proof -
  let ?s = "js_sort sortUserTokens_compare (filter has_balance ts)"
  have "sorted_wrt (\<lambda>s t. getTokenBalanceOrZero t \<le> getTokenBalanceOrZero s) ?s"
  proof -
    have "sortUserTokens_compare t s < 0 \<longleftrightarrow> getTokenBalanceOrZero s < getTokenBalanceOrZero t" for s t
      by (simp add: sortUserTokens_compare_def)
    then show ?thesis
      using by_balance.sorted_js_sort[of "filter has_balance ts"] by (simp only: cmp_sorted_def not_less)
  qed
  moreover have "filter (\<lambda>t. getTokenBalanceOrZero t = u) ?s =
      filter (\<lambda>t. has_balance t \<and> getTokenBalanceOrZero t = u) ts"
  proof (cases "\<exists>z \<in> set (filter has_balance ts). getTokenBalanceOrZero z = u")
    case True
    then obtain z where "getTokenBalanceOrZero z = u" by auto
    then have "by_balance.tie z = (\<lambda>t. getTokenBalanceOrZero t = u)"
      by (auto simp: fun_eq_iff by_balance.tie_def sortUserTokens_compare_def)
    with by_balance.stable_js_sort[of z "filter has_balance ts"] show ?thesis
      by (simp add: conj_commute)
  next
    case False
    then show ?thesis by (auto simp: filter_empty_conv filter_False)
  qed
  ultimately show ?thesis
    by (auto simp: sortUserTokens_def multiset_partition[symmetric] mset_filter)
qed

end
