(* ===== verification/Accounts.thy ===== *)
theory Accounts
  imports QueuedStore Tokens
begin

text \<open>
  frontend/src/lib/utils/accounts.utils.ts, frontend/src/lib/derived/icp-accounts.derived.ts,
  frontend/src/lib/derived/accounts-list.derived.ts and the mutations of
  frontend/src/lib/stores/icp-account-balances.store.ts on the queued store.  The parsers and encoders
  of the ledger libraries (parseBtcAddress, checkAccountId, decodeIcrcAccount, SubAccount.fromBytes,
  AccountIdentifier.fromPrincipal) are parameters: a parser is an option, None where it throws.
\<close>

subsection \<open>Accounts\<close>

datatype AccountType = AccountMain | AccountSubAccount | AccountHardwareWallet

record Account =
  ac_identifier :: string
  ac_principal :: "string option"
  ac_balanceUlps :: int
  ac_name :: "string option"
  ac_subAccount :: "nat list option"
  ac_type :: AccountType
  ac_icpIdentifier :: "string option"

record IcpAccountsStoreData =
  acs_main :: "Account option"
  acs_subAccounts :: "Account list option"
  acs_hardwareWallets :: "Account list option"

definition getAccountByPrincipal :: "string \<Rightarrow> IcpAccountsStoreData \<Rightarrow> Account option" where
  "getAccountByPrincipal principalText accounts =
     (if Option.bind (acs_main accounts) ac_principal = Some principalText then acs_main accounts
      else Option.bind (acs_hardwareWallets accounts)
        (List.find (\<lambda>a. ac_principal a = Some principalText)))"

definition isAccountHardwareWallet :: "Account option \<Rightarrow> bool" where
  "isAccountHardwareWallet account \<longleftrightarrow> map_option ac_type account = Some AccountHardwareWallet"

definition filterHardwareWalletAccounts :: "Account \<Rightarrow> bool" where
  "filterHardwareWalletAccounts account = (\<not> isAccountHardwareWallet (Some account))"

definition findAccount :: "string option \<Rightarrow> Account list \<Rightarrow> Account option" where
  "findAccount identifier accounts =
     (case identifier of None \<Rightarrow> None
      | Some i \<Rightarrow> List.find (\<lambda>account. ac_identifier account = i \<or> ac_icpIdentifier account = Some i)
          accounts)"

definition mainAccount :: "Account list \<Rightarrow> Account option" where
  "mainAccount accounts = List.find (\<lambda>account. ac_type account = AccountMain) accounts"

definition findAccountOrDefaultToMain :: "string option \<Rightarrow> Account list \<Rightarrow> Account option" where
  "findAccountOrDefaultToMain identifier accounts =
     (if identifier = None then mainAccount accounts else findAccount identifier accounts)"

definition getAccountsByRootCanister ::
  "(string \<rightharpoonup> Account list) \<Rightarrow> string \<Rightarrow> Account list option" where
  "getAccountsByRootCanister universesAccounts rootCanisterId = universesAccounts rootCanisterId"

definition getAccountByRootCanister ::
  "string option \<Rightarrow> (string \<rightharpoonup> Account list) \<Rightarrow> string \<Rightarrow> Account option" where
  "getAccountByRootCanister identifier universesAccounts rootCanisterId =
     findAccount identifier (nullish_or (universesAccounts rootCanisterId) [])"

text \<open>Inl: the error is thrown.\<close>

datatype NotEnoughAmountError = InsufficientFunds

definition assertEnoughAccountFunds :: "Account \<Rightarrow> int \<Rightarrow> NotEnoughAmountError + unit" where
  "assertEnoughAccountFunds account amountUlps =
     (if ac_balanceUlps account < amountUlps then Inl InsufficientFunds else Inr ())"

definition accountName :: "Account option \<Rightarrow> string \<Rightarrow> string" where
  "accountName account mainName =
     nullish_or (Option.bind account ac_name)
       (if map_option ac_type account = Some AccountMain then mainName
        else nullish_or (Option.bind account ac_name) [])"

definition sumAccounts :: "Account list option \<Rightarrow> int option" where
  "sumAccounts accounts = map_option (\<lambda>as. sumAmounts (map ac_balanceUlps as)) accounts"

definition hasAccounts :: "Account list \<Rightarrow> bool" where
  "hasAccounts accounts \<longleftrightarrow> length accounts > 0"

subsection \<open>Addresses\<close>

datatype TransactionNetwork = NETWORK_ICP | BTC_MAINNET | BTC_TESTNET

datatype BtcNetwork = Mainnet | Testnet

definition isTransactionNetworkBtc :: "TransactionNetwork option \<Rightarrow> bool" where
  "isTransactionNetworkBtc network \<longleftrightarrow> Some BTC_MAINNET = network \<or> Some BTC_TESTNET = network"

definition invalidBtcAddress ::
  "(string \<Rightarrow> BtcNetwork \<Rightarrow> 'b option) \<Rightarrow> string \<Rightarrow> BtcNetwork \<Rightarrow> bool" where
  "invalidBtcAddress parseBtcAddress address network =
     (case parseBtcAddress address network of None \<Rightarrow> True | Some _ \<Rightarrow> False)"

definition invalidIcpAddress :: "(string \<Rightarrow> unit option) \<Rightarrow> string option \<Rightarrow> bool" where
  "invalidIcpAddress checkAccountId address =
     (case address of None \<Rightarrow> True
      | Some a \<Rightarrow> (case checkAccountId a of Some _ \<Rightarrow> False | None \<Rightarrow> True))"

definition invalidIcrcAddress :: "(string \<Rightarrow> 'r option) \<Rightarrow> string option \<Rightarrow> bool" where
  "invalidIcrcAddress decodeIcrcAccount address =
     (case address of None \<Rightarrow> True
      | Some a \<Rightarrow> (case decodeIcrcAccount a of Some _ \<Rightarrow> False | None \<Rightarrow> True))"

definition isUniverseNns :: "string \<Rightarrow> string \<Rightarrow> bool" where
  "isUniverseNns own canisterId \<longleftrightarrow> canisterId = own"

definition invalidAddress ::
  "(string \<Rightarrow> BtcNetwork \<Rightarrow> 'b option) \<Rightarrow> (string \<Rightarrow> unit option) \<Rightarrow> (string \<Rightarrow> 'r option) \<Rightarrow> string \<Rightarrow>
     string option \<Rightarrow> TransactionNetwork option \<Rightarrow> string \<Rightarrow> bool" where
  "invalidAddress parseBtcAddress checkAccountId decodeIcrcAccount own address network rootCanisterId =
     (case address of
        None \<Rightarrow> True
      | Some a \<Rightarrow>
          if isTransactionNetworkBtc network
          then invalidBtcAddress parseBtcAddress a
            (if network = Some BTC_TESTNET then Testnet else Mainnet)
          else if isUniverseNns own rootCanisterId
          then invalidIcrcAddress decodeIcrcAccount address \<and> invalidIcpAddress checkAccountId address
          else invalidIcrcAddress decodeIcrcAccount address)"

definition emptyAddress :: "string option \<Rightarrow> bool" where
  "emptyAddress address \<longleftrightarrow> address = None \<or> map_option length address = Some 0"

definition getPrincipalFromString :: "(string \<Rightarrow> 'p option) \<Rightarrow> string \<Rightarrow> 'p option" where
  "getPrincipalFromString fromText address = fromText address"

text \<open>
  A decoded ICRC account has an owner and may have subaccount bytes; fromBytes is None when it returns an
  Error, which the source throws.  The result None: an error is thrown.
\<close>

definition maybeIcrcToIcpAccountIdentifier ::
  "(string \<Rightarrow> ('p \<times> nat list option) option) \<Rightarrow> (nat list \<Rightarrow> 's option) \<Rightarrow>
     ('p \<Rightarrow> 's option \<Rightarrow> string) \<Rightarrow> string \<Rightarrow> string option" where
  "maybeIcrcToIcpAccountIdentifier decodeIcrcAccount fromBytes fromPrincipal accountIdentifier =
     (case decodeIcrcAccount accountIdentifier of
        None \<Rightarrow> None
      | Some (owner, subaccount) \<Rightarrow>
          (case subaccount of
             None \<Rightarrow> Some (fromPrincipal owner None)
           | Some bytes \<Rightarrow> map_option (\<lambda>sub. fromPrincipal owner (Some sub)) (fromBytes bytes)))"

definition toIcpAccountIdentifier ::
  "(string \<Rightarrow> ('p \<times> nat list option) option) \<Rightarrow> (nat list \<Rightarrow> 's option) \<Rightarrow>
     ('p \<Rightarrow> 's option \<Rightarrow> string) \<Rightarrow> string \<Rightarrow> string" where
  "toIcpAccountIdentifier decodeIcrcAccount fromBytes fromPrincipal accountIdentifier =
     (case maybeIcrcToIcpAccountIdentifier decodeIcrcAccount fromBytes fromPrincipal accountIdentifier of
        Some i \<Rightarrow> i | None \<Rightarrow> accountIdentifier)"

subsection \<open>icp-account-balances.store.ts\<close>

record IcpAccountBalanceStoreData =
  ab_balanceE8s :: int
  ab_certified :: bool

type_synonym IcpAccountBalancesStoreData = "string \<rightharpoonup> IcpAccountBalanceStoreData"

definition initIcpAccountBalancesStore :: "IcpAccountBalancesStoreData queued_store" where
  "initIcpAccountBalancesStore = queuedStore Map.empty"

definition setBalance_mutation :: "string \<Rightarrow> int \<Rightarrow> bool \<Rightarrow> IcpAccountBalancesStoreData mutation" where
  "setBalance_mutation accountIdentifier balanceE8s certified storeData =
     storeData(accountIdentifier \<mapsto> \<lparr>ab_balanceE8s = balanceE8s, ab_certified = certified\<rparr>)"

definition setBalance ::
  "nat \<Rightarrow> string \<Rightarrow> int \<Rightarrow> bool \<Rightarrow> IcpAccountBalancesStoreData queued_store \<Rightarrow>
     queue_error + IcpAccountBalancesStoreData queued_store" where
  "setBalance key accountIdentifier balanceE8s certified =
     single_update key (setBalance_mutation accountIdentifier balanceE8s certified) certified"

definition resetBalances ::
  "nat \<Rightarrow> bool \<Rightarrow> IcpAccountBalancesStoreData queued_store \<Rightarrow>
     queue_error + IcpAccountBalancesStoreData queued_store" where
  "resetBalances key certified = single_set key Map.empty certified"

definition setBalancesForTesting ::
  "IcpAccountBalancesStoreData \<Rightarrow> IcpAccountBalancesStoreData queued_store \<Rightarrow>
     queue_error + IcpAccountBalancesStoreData queued_store" where
  "setBalancesForTesting data st =
     (let (key, st') = getSingleMutationStore None st in single_set key data True st')"

subsection \<open>icp-accounts.derived.ts\<close>

record SubAccountDetails =
  sa_name :: string
  sa_sub_account :: "nat list"
  sa_account_identifier :: string

record HardwareWalletAccountDetails =
  hw_principal :: string
  hw_name :: string
  hw_account_identifier :: string

record AccountDetails =
  ad_principal :: string
  ad_account_identifier :: string
  ad_hardware_wallet_accounts :: "HardwareWalletAccountDetails list"
  ad_sub_accounts :: "SubAccountDetails list"

text \<open>The union mapAccount takes, whose fields it tests with the operator in.\<close>

datatype any_details =
    OfMain AccountDetails
  | OfSub SubAccountDetails
  | OfHardware HardwareWalletAccountDetails

fun details_identifier :: "any_details \<Rightarrow> string" where
  "details_identifier (OfMain a) = ad_account_identifier a"
| "details_identifier (OfSub a) = sa_account_identifier a"
| "details_identifier (OfHardware a) = hw_account_identifier a"

fun details_principal :: "any_details \<Rightarrow> string option" where
  "details_principal (OfMain a) = Some (ad_principal a)"
| "details_principal (OfSub a) = None"
| "details_principal (OfHardware a) = Some (hw_principal a)"

fun details_name :: "any_details \<Rightarrow> string option" where
  "details_name (OfMain a) = None"
| "details_name (OfSub a) = Some (sa_name a)"
| "details_name (OfHardware a) = Some (hw_name a)"

fun details_sub_account :: "any_details \<Rightarrow> nat list option" where
  "details_sub_account (OfSub a) = Some (sa_sub_account a)"
| "details_sub_account _ = None"

text \<open>None: the account whose balanceUlps is undefined, which every caller drops.\<close>

definition mapAccount ::
  "IcpAccountBalancesStoreData \<Rightarrow> AccountType \<Rightarrow> any_details \<Rightarrow> Account option" where
  "mapAccount balances type account =
     (case balances (details_identifier account) of
        None \<Rightarrow> None
      | Some b \<Rightarrow> Some \<lparr>ac_identifier = details_identifier account,
          ac_principal = details_principal account, ac_balanceUlps = ab_balanceE8s b,
          ac_name = details_name account, ac_subAccount = details_sub_account account,
          ac_type = type, ac_icpIdentifier = None\<rparr>)"

definition icpAccountsStore ::
  "AccountDetails option \<Rightarrow> IcpAccountBalancesStoreData \<Rightarrow> IcpAccountsStoreData" where
  "icpAccountsStore icpAccountDetails icpAccountBalances =
     (let initialAccounts = \<lparr>acs_main = None, acs_subAccounts = None, acs_hardwareWallets = None\<rparr>
      in case icpAccountDetails of
           None \<Rightarrow> initialAccounts
         | Some accountDetails \<Rightarrow>
             (case mapAccount icpAccountBalances AccountMain (OfMain accountDetails) of
                None \<Rightarrow> initialAccounts
              | Some main \<Rightarrow>
                  \<lparr>acs_main = Some main,
                   acs_subAccounts = Some (List.map_filter
                     (\<lambda>a. mapAccount icpAccountBalances AccountSubAccount (OfSub a))
                     (ad_sub_accounts accountDetails)),
                   acs_hardwareWallets = Some (List.map_filter
                     (\<lambda>a. mapAccount icpAccountBalances AccountHardwareWallet (OfHardware a))
                     (ad_hardware_wallet_accounts accountDetails))\<rparr>))"

definition nnsAccountsListStore :: "IcpAccountsStoreData \<Rightarrow> Account list" where
  "nnsAccountsListStore accounts =
     (case acs_main accounts of
        None \<Rightarrow> []
      | Some main \<Rightarrow> main # nullish_or (acs_subAccounts accounts) [] @
          nullish_or (acs_hardwareWallets accounts) [])"

subsection \<open>Lemmas\<close>

lemma mapAccount_identifier:
  "mapAccount balances ty d = Some a \<Longrightarrow> ac_identifier a = details_identifier d \<and> ac_type a = ty \<and>
     ac_principal a = details_principal d \<and>
     map_option ab_balanceE8s (balances (details_identifier d)) = Some (ac_balanceUlps a)"
  by (auto simp: mapAccount_def split: option.splits)

lemma mapAccount_None_iff: "mapAccount balances ty d = None \<longleftrightarrow> balances (details_identifier d) = None"
  by (auto simp: mapAccount_def split: option.splits)

lemma map_filter_mapAccount:
  "map (\<lambda>a. (ac_identifier a, Some (ac_balanceUlps a)))
     (List.map_filter (\<lambda>x. mapAccount balances ty (f x)) xs) =
   map (\<lambda>i. (i, map_option ab_balanceE8s (balances i)))
     (filter (\<lambda>i. balances i \<noteq> None) (map (\<lambda>x. details_identifier (f x)) xs))"
  by (induction xs)
    (auto simp: List.map_filter_simps mapAccount_None_iff split: option.splits dest: mapAccount_identifier)

lemma set_map_filter_mapAccount:
  "a \<in> set (List.map_filter (\<lambda>x. mapAccount balances ty (f x)) xs) \<longleftrightarrow>
     (\<exists>x\<in>set xs. mapAccount balances ty (f x) = Some a)"
  by (induction xs) (auto simp: List.map_filter_simps split: option.splits)

lemma getAccountByPrincipal_SomeD:
  "getAccountByPrincipal p s = Some a \<Longrightarrow> ac_principal a = Some p \<and>
     (acs_main s = Some a \<or> a \<in> set (nullish_or (acs_hardwareWallets s) []))"
  by (auto simp: getAccountByPrincipal_def bind_eq_Some_conv split: if_splits dest: find_SomeD)

lemma getAccountByPrincipal_NoneD:
  "getAccountByPrincipal p s = None \<Longrightarrow> Option.bind (acs_main s) ac_principal \<noteq> Some p \<and>
     (\<forall>a\<in>set (nullish_or (acs_hardwareWallets s) []). ac_principal a \<noteq> Some p)"
  by (cases "acs_hardwareWallets s")
    (auto simp: getAccountByPrincipal_def find_eq_None_iff split: if_splits)

subsection \<open>Properties\<close>

text \<open>
  The accounts shown are, in order, the main account, the subaccounts and the hardware wallets of the
  user, each with the balance of the balances store: an account without a balance is left out, and
  nothing is shown while the main account has none.
\<close>

lemma accounts_list_correct:
  "map (\<lambda>a. (ac_identifier a, Some (ac_balanceUlps a)))
     (nnsAccountsListStore (icpAccountsStore (Some d) balances)) =
   (if balances (ad_account_identifier d) = None then []
    else map (\<lambda>i. (i, map_option ab_balanceE8s (balances i)))
      (filter (\<lambda>i. balances i \<noteq> None)
        (ad_account_identifier d # map sa_account_identifier (ad_sub_accounts d) @
         map hw_account_identifier (ad_hardware_wallet_accounts d))))"
proof (cases "mapAccount balances AccountMain (OfMain d)")
  case None
  then have "balances (ad_account_identifier d) = None" by (simp add: mapAccount_None_iff)
  with None show ?thesis by (simp add: icpAccountsStore_def nnsAccountsListStore_def)
next
  case (Some m)
  from mapAccount_identifier[OF Some] have m: "ac_identifier m = ad_account_identifier d"
    "map_option ab_balanceE8s (balances (ad_account_identifier d)) = Some (ac_balanceUlps m)"
    by auto
  then have "balances (ad_account_identifier d) \<noteq> None" by auto
  with Some m map_filter_mapAccount[of balances AccountSubAccount OfSub "ad_sub_accounts d"]
    map_filter_mapAccount[of balances AccountHardwareWallet OfHardware "ad_hardware_wallet_accounts d"]
  show ?thesis
    by (auto simp: icpAccountsStore_def nnsAccountsListStore_def Let_def)
qed

text \<open>
  Among the accounts of a user, getAccountByPrincipal finds the main account or a hardware wallet of
  that principal and never a subaccount; it finds nothing only when no account shown has the principal.
\<close>

lemma getAccountByPrincipal_correct:
  "(case getAccountByPrincipal p (icpAccountsStore details balances) of
      None \<Rightarrow> filter (\<lambda>a. ac_principal a = Some p)
        (nnsAccountsListStore (icpAccountsStore details balances)) = []
    | Some a \<Rightarrow> a \<in> set (nnsAccountsListStore (icpAccountsStore details balances)) \<and>
        ac_principal a = Some p \<and> ac_type a \<noteq> AccountSubAccount)"
proof -
  define s where "s = icpAccountsStore details balances"
  have types: "acs_main s = Some a \<Longrightarrow> ac_type a = AccountMain"
    "a \<in> set (nullish_or (acs_hardwareWallets s) []) \<Longrightarrow> ac_type a = AccountHardwareWallet"
    "a \<in> set (nullish_or (acs_subAccounts s) []) \<Longrightarrow> ac_principal a = None"
    "acs_main s = None \<Longrightarrow> nullish_or (acs_hardwareWallets s) [] = []" for a
    by (auto simp: s_def icpAccountsStore_def Let_def set_map_filter_mapAccount
        split: option.splits dest!: mapAccount_identifier)
  have list: "a \<in> set (nnsAccountsListStore s) \<longleftrightarrow> acs_main s \<noteq> None \<and> (acs_main s = Some a \<or>
      a \<in> set (nullish_or (acs_subAccounts s) []) \<or> a \<in> set (nullish_or (acs_hardwareWallets s) []))" for a
    by (cases "acs_main s") (auto simp: nnsAccountsListStore_def)
  show ?thesis
  proof (cases "getAccountByPrincipal p s")
    case None
    from getAccountByPrincipal_NoneD[OF None] have
      "Option.bind (acs_main s) ac_principal \<noteq> Some p"
      "\<forall>a\<in>set (nullish_or (acs_hardwareWallets s) []). ac_principal a \<noteq> Some p" by auto
    with types(3) None show ?thesis unfolding s_def[symmetric] by (auto simp: list filter_empty_conv)
  next
    case (Some a)
    from getAccountByPrincipal_SomeD[OF Some] types(1,2)[of a] types(4) Some show ?thesis
      unfolding s_def[symmetric] by (cases "acs_main s") (auto simp: list)
  qed
qed

end
