(* ===== verification/VotingPower.thy ===== *)
theory VotingPower
  imports JsNumber Constants NnsTypes
begin

text \<open>
  The voting power of a neuron: votingPower, bonusMultiplier and their users in
  frontend/src/lib/utils/neuron.utils.ts.  The computation runs on doubles (JsNumber), as in the code.
  The optional parameters of votingPower are the options of a record.
\<close>

definition MAX_DISSOLVE_DELAY_BONUS :: number where
  "MAX_DISSOLVE_DELAY_BONUS = 1"

definition MAX_AGE_BONUS :: number where
  "MAX_AGE_BONUS = 1 / 4"

definition bonusMultiplier :: "int \<Rightarrow> number \<Rightarrow> number \<Rightarrow> number" where
  "bonusMultiplier amount amountForMaxBonus maxBonus =
     (let bonusProportion =
            (if amountForMaxBonus = 0 then 0
             else num_div (min (to_number amount) amountForMaxBonus) amountForMaxBonus)
      in num_add 1 (num_mul maxBonus bonusProportion))"

record VotingPowerParams =
  vp_maxAgeBonus :: "number option"
  vp_maxDissolveDelayBonus :: "number option"
  vp_maxAgeSeconds :: "number option"
  vp_maxDissolveDelaySeconds :: "number option"
  vp_minDissolveDelaySeconds :: "number option"

definition votingPower :: "int \<Rightarrow> int \<Rightarrow> int \<Rightarrow> VotingPowerParams \<Rightarrow> int" where
  "votingPower stakeE8s dissolveDelay ageSeconds params =
     (if of_int dissolveDelay <
           nullish_or (vp_minDissolveDelaySeconds params) (of_int SECONDS_IN_HALF_YEAR) then 0
      else
        let delayMultiplier = bonusMultiplier dissolveDelay
              (nullish_or (vp_maxDissolveDelaySeconds params) (of_int SECONDS_IN_EIGHT_YEARS))
              (nullish_or (vp_maxDissolveDelayBonus params) MAX_DISSOLVE_DELAY_BONUS);
            ageMult = bonusMultiplier ageSeconds
              (nullish_or (vp_maxAgeSeconds params) (of_int SECONDS_IN_FOUR_YEARS))
              (nullish_or (vp_maxAgeBonus params) MAX_AGE_BONUS)
        in math_round (num_mul (num_mul (to_number stakeE8s) delayMultiplier) ageMult))"

definition default_params :: VotingPowerParams where
  "default_params = \<lparr>vp_maxAgeBonus = None, vp_maxDissolveDelayBonus = None, vp_maxAgeSeconds = None,
     vp_maxDissolveDelaySeconds = None, vp_minDissolveDelaySeconds = None\<rparr>"

definition dissolveDelayMultiplier :: "int \<Rightarrow> number" where
  "dissolveDelayMultiplier delayInSeconds =
     bonusMultiplier delayInSeconds (of_int SECONDS_IN_EIGHT_YEARS) MAX_DISSOLVE_DELAY_BONUS"

definition ageMultiplier :: "int \<Rightarrow> number" where
  "ageMultiplier ageSeconds = bonusMultiplier ageSeconds (of_int SECONDS_IN_FOUR_YEARS) MAX_AGE_BONUS"

definition neuronVotingPower :: "NeuronInfo \<Rightarrow> int option \<Rightarrow> int" where
  "neuronVotingPower neuron newDissolveDelayInSeconds =
     (let dissolveDelay = nullish_or newDissolveDelayInSeconds (ni_dissolveDelaySeconds neuron);
          stakeE8s = nullish_or (map_option fn_cachedNeuronStake (ni_fullNeuron neuron)) 0 +
            nullish_or (Option.bind (ni_fullNeuron neuron) fn_stakedMaturityE8sEquivalent) 0
      in votingPower stakeE8s dissolveDelay (ni_ageSeconds neuron) default_params)"

subsection \<open>Lemmas\<close>

lemma rnd_quarter: "rnd (1 / 4) = 1 / 4"
  by code_simp

lemma rnd_five_quarters: "rnd (5 / 4) = 5 / 4"
  by code_simp

lemma rnd_2: "rnd 2 = 2"
  using rnd_of_int[of 2] by simp

lemma bonus_mono:
  assumes "a \<le> b" and "0 < m" and "0 \<le> x"
  shows "bonusMultiplier a m x \<le> bonusMultiplier b m x"
proof -
  have "num_div (min (to_number a) m) m \<le> num_div (min (to_number b) m) m"
    using to_number_mono[OF assms(1)] assms(2) by (intro num_div_mono) auto
  then have "x * num_div (min (to_number a) m) m \<le> x * num_div (min (to_number b) m) m"
    using assms(3) by (rule mult_left_mono)
  then show ?thesis
    using assms(2) by (simp add: bonusMultiplier_def Let_def num_add_def num_mul_def rnd_mono)
qed

lemma bonus_lower:
  assumes "0 \<le> a" and "0 < m" and "0 \<le> x"
  shows "1 \<le> bonusMultiplier a m x"
proof -
  have "0 \<le> num_div (min (to_number a) m) m"
    using to_number_nonneg[OF assms(1)] assms(2) by (simp add: num_div_def rnd_nonneg)
  with assms(3) have "0 \<le> num_mul x (num_div (min (to_number a) m) m)" by (rule num_mul_nonneg)
  then have "rnd 1 \<le> rnd (1 + num_mul x (num_div (min (to_number a) m) m))" by (intro rnd_mono) simp
  with assms(2) show ?thesis by (simp add: bonusMultiplier_def num_add_def)
qed

lemma bonus_upper:
  assumes "0 < m" and "0 \<le> x" and "rnd x = x" and "rnd (1 + x) = 1 + x"
  shows "bonusMultiplier a m x \<le> 1 + x"
proof -
  have "num_div (min (to_number a) m) m \<le> rnd 1"
    unfolding num_div_def using assms(1) by (intro rnd_mono) (simp add: divide_le_eq)
  then have "x * num_div (min (to_number a) m) m \<le> x * 1" using assms(2) by (intro mult_left_mono) simp_all
  then have "num_mul x (num_div (min (to_number a) m) m) \<le> rnd x"
    unfolding num_mul_def by (intro rnd_mono) simp
  then have "1 + num_mul x (num_div (min (to_number a) m) m) \<le> 1 + x" using assms(3) by simp
  then have "rnd (1 + num_mul x (num_div (min (to_number a) m) m)) \<le> 1 + x"
    using rnd_mono assms(4) by metis
  with assms(1) show ?thesis by (simp add: bonusMultiplier_def num_add_def)
qed

text \<open>At and above the amount for the maximal bonus the multiplier is exactly the maximal one.\<close>

lemma bonus_capped:
  assumes "m \<le> to_number a" and "0 < m" and "rnd x = x" and "rnd (1 + x) = 1 + x"
  shows "bonusMultiplier a m x = 1 + x"
  using assms by (simp add: bonusMultiplier_def Let_def num_add_def num_mul_def num_div_def min_absorb2)

lemma nns_bonus_bounds:
  assumes "0 \<le> delay" and "0 \<le> age"
  shows "1 \<le> dissolveDelayMultiplier delay" "dissolveDelayMultiplier delay \<le> 2"
    "1 \<le> ageMultiplier age" "ageMultiplier age \<le> 5 / 4"
  using assms bonus_lower[of delay "of_int SECONDS_IN_EIGHT_YEARS" 1]
    bonus_lower[of age "of_int SECONDS_IN_FOUR_YEARS" "1 / 4"]
    bonus_upper[of "of_int SECONDS_IN_EIGHT_YEARS" 1 delay]
    bonus_upper[of "of_int SECONDS_IN_FOUR_YEARS" "1 / 4" age]
  by (simp_all add: dissolveDelayMultiplier_def ageMultiplier_def MAX_AGE_BONUS_def
      MAX_DISSOLVE_DELAY_BONUS_def time_constants rnd_quarter rnd_five_quarters rnd_2)

lemma votingPower_eq:
  "votingPower stake delay age default_params =
     (if delay < SECONDS_IN_HALF_YEAR then 0
      else math_round (num_mul (num_mul (to_number stake) (dissolveDelayMultiplier delay))
        (ageMultiplier age)))"
  by (simp add: votingPower_def default_params_def dissolveDelayMultiplier_def ageMultiplier_def)

lemma math_round_upper: "x \<le> of_int n / 2 + 1/3 \<Longrightarrow> 2 * math_round x \<le> n + 1"
proof -
  assume "x \<le> of_int n / 2 + 1/3"
  then have "2 * of_int (math_round x) \<le> (of_int n + 2 * (5/6) :: rat)"
    unfolding math_round_def by linarith
  then have "of_int (2 * math_round x) < (of_int (n + 2) :: rat)" by simp
  then show ?thesis by linarith
qed

lemma small_stake:
  assumes "0 \<le> s" and "s < 2 ^ 50"
  shows "to_number s = of_int s" "rnd (of_int s) = of_int s" "rnd (of_int (2 * s)) = of_int (2 * s)"
    and "\<bar>rnd (of_int (5 * s) / 2) - of_int (5 * s) / 2\<bar> \<le> 1/3"
proof -
  have a: "\<bar>s\<bar> < 2 ^ 53" "\<bar>2 * s\<bar> < 2 ^ 53" using assms by simp_all
  show "to_number s = of_int s" "rnd (of_int s) = of_int s" "rnd (of_int (2 * s)) = of_int (2 * s)"
    by (fact to_number_exact[OF a(1)] rnd_of_int[OF a(1)] rnd_of_int[OF a(2)])+
  have "\<bar>rnd (of_int (5 * s) / 2) - of_int (5 * s) / 2\<bar> \<le> of_int (5 * s) / 2 / 2 ^ 53"
    using assms(1) by (intro rnd_error) simp
  moreover have "(of_int s :: rat) \<le> of_int (2 ^ 50)" using assms(2) by (simp only: of_int_le_iff)
  ultimately show "\<bar>rnd (of_int (5 * s) / 2) - of_int (5 * s) / 2\<bar> \<le> 1/3" by simp
qed

lemma product_bounds:
  assumes "0 \<le> s" and "s < 2 ^ 50" and "1 \<le> d" and "d \<le> 2" and "1 \<le> a" and "a \<le> 5 / 4"
  shows "of_int s \<le> num_mul (num_mul (to_number s) d) a"
    and "num_mul (num_mul (to_number s) d) a \<le> of_int (5 * s) / 2 + 1/3"
proof -
  note s = small_stake(1-3)[OF assms(1,2)]
  have s0: "(0 :: rat) \<le> of_int s" using assms(1) by simp
  have l1: "of_int s \<le> num_mul (to_number s) d"
  proof -
    have "of_int s * 1 \<le> of_int s * d" using s0 assms(3) by (rule mult_left_mono[rotated])
    then have "rnd (of_int s) \<le> rnd (of_int s * d)" by (intro rnd_mono) simp
    then show ?thesis by (simp only: num_mul_def s)
  qed
  have u1: "num_mul (to_number s) d \<le> of_int (2 * s)"
  proof -
    have "of_int s * d \<le> of_int s * 2" using s0 assms(4) by (rule mult_left_mono[rotated])
    then have "rnd (of_int s * d) \<le> rnd (of_int (2 * s))" by (intro rnd_mono) simp
    then show ?thesis by (simp only: num_mul_def s)
  qed
  define x where "x = num_mul (to_number s) d"
  have x: "of_int s \<le> x" "x \<le> of_int (2 * s)" using l1 u1 by (simp_all add: x_def)
  have "of_int s \<le> x * a"
    using mult_mono[OF x(1) assms(5)] x(1) s0 by simp
  then have "rnd (of_int s) \<le> num_mul x a" unfolding num_mul_def by (rule rnd_mono)
  then show "of_int s \<le> num_mul (num_mul (to_number s) d) a" by (simp only: s x_def)
  have "x * a \<le> of_int (2 * s) * (5 / 4)"
    using x s0 assms(5,6) by (intro mult_mono) auto
  then have "num_mul x a \<le> rnd (of_int (5 * s) / 2)"
    unfolding num_mul_def by (intro rnd_mono) simp
  moreover note small_stake(4)[OF assms(1,2)]
  ultimately show "num_mul (num_mul (to_number s) d) a \<le> of_int (5 * s) / 2 + 1/3"
    unfolding x_def[symmetric] by linarith
qed

subsection \<open>Properties\<close>

text \<open>
  C34: In the doubles the code computes with, the voting power of an NNS neuron is 0 below half a year of
  dissolve delay and else, for a stake of less than 2^50 e8s, at least the stake and at most two and a half
  times the stake, rounded up; with eight years of delay and four of age it is at most half an e8 off
  two and a half times the stake.
\<close>

theorem votingPower_bounds:
  assumes "0 \<le> stake" and "stake < 2 ^ 50" and "0 \<le> age"
  shows "if delay < 15778800 then votingPower stake delay age default_params = 0
    else stake \<le> votingPower stake delay age default_params \<and>
      2 * votingPower stake delay age default_params \<le> 5 * stake + 1 \<and>
      (252460800 \<le> delay \<and> delay < 2 ^ 53 \<and> 126230400 \<le> age \<and> age < 2 ^ 53 \<longrightarrow>
        \<bar>2 * votingPower stake delay age default_params - 5 * stake\<bar> \<le> 1)"
proof (cases "delay < 15778800")
  case True
  then show ?thesis by (simp add: votingPower_eq time_constants)
next
  case False
  then have d: "0 \<le> delay" "\<not> delay < SECONDS_IN_HALF_YEAR" by (simp_all add: time_constants)
  note b = nns_bonus_bounds[OF d(1) assms(3)]
  define y where "y = num_mul (num_mul (to_number stake) (dissolveDelayMultiplier delay)) (ageMultiplier age)"
  have y: "of_int stake \<le> y" "y \<le> of_int (5 * stake) / 2 + 1/3"
    using product_bounds[OF assms(1,2) b] by (simp_all add: y_def)
  have "stake \<le> math_round y" using math_round_mono[OF y(1)] by simp
  moreover have "2 * math_round y \<le> 5 * stake + 1" using y(2) by (rule math_round_upper)
  moreover have "5 * stake - 1 \<le> 2 * math_round y"
    if "252460800 \<le> delay" "delay < 2 ^ 53" "126230400 \<le> age" "age < 2 ^ 53"
  proof -
    have n: "to_number delay = of_int delay" "to_number age = of_int age"
      using that by (simp_all only: to_number_exact)
    have "dissolveDelayMultiplier delay = 2" "ageMultiplier age = 5 / 4"
      using that n bonus_capped[of "of_int SECONDS_IN_EIGHT_YEARS" delay 1]
        bonus_capped[of "of_int SECONDS_IN_FOUR_YEARS" age "1 / 4"]
      by (simp_all add: dissolveDelayMultiplier_def ageMultiplier_def MAX_AGE_BONUS_def
        MAX_DISSOLVE_DELAY_BONUS_def time_constants rnd_quarter rnd_five_quarters rnd_2)
    moreover have "num_mul (to_number stake) 2 = of_int (2 * stake)"
      using small_stake(1,3)[OF assms(1,2)] by (simp add: num_mul_def mult.commute)
    ultimately have "y = num_mul (of_int (2 * stake)) (5 / 4)" by (simp only: y_def)
    then have "y = rnd (of_int (5 * stake) / 2)" by (simp add: num_mul_def)
    moreover note small_stake(4)[OF assms(1,2)]
    ultimately have "of_int (5 * stake) / 2 - 1/3 \<le> y" by linarith
    then have "of_int (5 * stake) - 5/3 \<le> (2 * of_int (math_round y) :: rat)"
      unfolding math_round_def by linarith
    then have "of_int (5 * stake - 2) < (of_int (2 * math_round y) :: rat)" by simp
    then show ?thesis by linarith
  qed
  ultimately show ?thesis
    using False d(2) by (simp add: votingPower_eq y_def[symmetric]) linarith
qed

theorem votingPower_bounds_witness:
  "votingPower 100000000 252460800 126230400 default_params = 250000000"
  using votingPower_bounds[of 100000000 126230400 252460800] by simp arith

text \<open>
  More stake, a longer dissolve delay or a higher age never lower the voting power computed, whatever
  the rounding of the doubles.
\<close>

lemma votingPower_mono:
  assumes "0 \<le> stake" and "stake \<le> stake'" and "delay \<le> delay'" and "0 \<le> age" and "age \<le> age'"
  shows "votingPower stake delay age default_params \<le> votingPower stake' delay' age' default_params"
proof (cases "delay < SECONDS_IN_HALF_YEAR")
  case True
  have "0 \<le> votingPower stake' delay' age' default_params"
  proof (cases "delay' < SECONDS_IN_HALF_YEAR")
    case False
    then have "1 \<le> dissolveDelayMultiplier delay'" "1 \<le> ageMultiplier age'"
      using nns_bonus_bounds[of delay' age'] assms(4,5) by (simp_all add: time_constants)
    moreover have "0 \<le> to_number stake'" using assms(1,2) by (intro to_number_nonneg) simp
    ultimately have "0 \<le> num_mul (num_mul (to_number stake') (dissolveDelayMultiplier delay')) (ageMultiplier age')"
      by (intro num_mul_nonneg) simp_all
    then have "math_round (of_int 0) \<le> math_round (num_mul (num_mul (to_number stake')
        (dissolveDelayMultiplier delay')) (ageMultiplier age'))"
      by (intro math_round_mono) simp
    then have "0 \<le> math_round (num_mul (num_mul (to_number stake')
        (dissolveDelayMultiplier delay')) (ageMultiplier age'))"
      by (simp only: math_round_of_int)
    with False show ?thesis by (simp add: votingPower_eq)
  qed (simp add: votingPower_eq)
  with True show ?thesis by (simp add: votingPower_eq)
next
  case False
  then have d: "0 \<le> delay" by (simp add: time_constants)
  have "dissolveDelayMultiplier delay \<le> dissolveDelayMultiplier delay'"
    "ageMultiplier age \<le> ageMultiplier age'"
    using assms(3,5) by (auto simp: dissolveDelayMultiplier_def ageMultiplier_def MAX_AGE_BONUS_def
        MAX_DISSOLVE_DELAY_BONUS_def time_constants intro!: bonus_mono)
  moreover have "0 \<le> to_number stake" "to_number stake \<le> to_number stake'"
    using assms(1,2) by (auto intro: to_number_nonneg to_number_mono)
  moreover note nns_bonus_bounds[OF d assms(4)]
  ultimately have "num_mul (num_mul (to_number stake) (dissolveDelayMultiplier delay)) (ageMultiplier age)
      \<le> num_mul (num_mul (to_number stake') (dissolveDelayMultiplier delay')) (ageMultiplier age')"
    by (intro num_mul_mono num_mul_nonneg) auto
  then show ?thesis
    using False assms(3) by (simp add: votingPower_eq math_round_mono)
qed

theorem votingPower_mono_witness:
  "votingPower 100000000 15778800 0 default_params \<le> votingPower 200000001 31557600 5 default_params"
  using votingPower_mono[of 100000000 200000001 15778800 31557600 0 5] by simp

end
