(* ===== verification/NnsNeurons.thy ===== *)
theory NnsNeurons
  imports VotingPower Accounts VoteRegistration
begin

text \<open>
  The rest of frontend/src/lib/utils/neuron.utils.ts: who controls a neuron, its order, the neurons that
  may be merged, followees, ballots, stake limits and reward loss; and shortenWithMiddleEllipsis of
  frontend/src/lib/utils/format.utils.ts.  The principal of the identity (undefined or null when signed
  out) and the time are arguments; votedNeurons, ineligibleNeurons and the parsing of amounts belong to
  the client libraries and are parameters.  Texts of the user interface are the constructors of small
  datatypes.  Labels of topics and states are not modelled.
\<close>

subsection \<open>Stake and times\<close>

definition neuronStake :: "NeuronInfo \<Rightarrow> int" where
  "neuronStake neuron =
     (case ni_fullNeuron neuron of None \<Rightarrow> 0 | Some f \<Rightarrow> fn_cachedNeuronStake f - fn_neuronFees f)"

definition neuronAvailableMaturity :: "NeuronInfo \<Rightarrow> int" where
  "neuronAvailableMaturity neuron =
     nullish_or (map_option fn_maturityE8sEquivalent (ni_fullNeuron neuron)) 0"

definition neuronStakedMaturity :: "NeuronInfo \<Rightarrow> int" where
  "neuronStakedMaturity neuron =
     nullish_or (Option.bind (ni_fullNeuron neuron) fn_stakedMaturityE8sEquivalent) 0"

definition DEFAULT_TRANSACTION_FEE_E8S :: int where
  "DEFAULT_TRANSACTION_FEE_E8S = 10000"

definition hasValidStake :: "NeuronInfo \<Rightarrow> bool" where
  "hasValidStake neuron =
     (case ni_fullNeuron neuron of
        None \<Rightarrow> False
      | Some f \<Rightarrow> fn_cachedNeuronStake f + neuronAvailableMaturity neuron + neuronStakedMaturity neuron >
          DEFAULT_TRANSACTION_FEE_E8S)"

definition isSpawning :: "NeuronInfo \<Rightarrow> bool" where
  "isSpawning neuron \<longleftrightarrow> ni_state neuron = Spawning"

definition isLocked :: "NeuronInfo \<Rightarrow> bool" where
  "isLocked neuron \<longleftrightarrow> ni_state neuron = Locked"

definition getDissolvingTimestampSeconds :: "NeuronInfo \<Rightarrow> int option" where
  "getDissolvingTimestampSeconds neuron =
     (if ni_state neuron = Dissolving
      then case Option.bind (ni_fullNeuron neuron) fn_dissolveState of
             Some (WhenDissolvedTimestampSeconds t) \<Rightarrow> Some t
           | _ \<Rightarrow> None
      else None)"

definition getDissolvingTimeInSeconds :: "int \<Rightarrow> NeuronInfo \<Rightarrow> int option" where
  "getDissolvingTimeInSeconds now neuron =
     map_option (\<lambda>dissolvingTimestamp. dissolvingTimestamp - now) (getDissolvingTimestampSeconds neuron)"

definition getSpawningTimeInSeconds :: "int \<Rightarrow> NeuronInfo \<Rightarrow> int option" where
  "getSpawningTimeInSeconds now neuron =
     (if isSpawning neuron
      then map_option (\<lambda>t. t - now) (Option.bind (ni_fullNeuron neuron) fn_spawnAtTimesSeconds)
      else None)"

definition isSeedNeuron :: "NeuronInfo \<Rightarrow> bool" where
  "isSeedNeuron neuron \<longleftrightarrow> ni_neuronType neuron = Some SeedNeuron"

definition isEctNeuron :: "NeuronInfo \<Rightarrow> bool" where
  "isEctNeuron neuron \<longleftrightarrow> ni_neuronType neuron = Some EctNeuron"

definition hasJoinedCommunityFund :: "NeuronInfo \<Rightarrow> bool" where
  "hasJoinedCommunityFund neuron \<longleftrightarrow> ni_joinedCommunityFundTimestampSeconds neuron \<noteq> None"

definition hasAutoStakeMaturityOn :: "NeuronInfo \<Rightarrow> bool" where
  "hasAutoStakeMaturityOn neuron \<longleftrightarrow> Option.bind (ni_fullNeuron neuron) fn_autoStakeMaturity = Some True"

definition formatMaturity :: "int option \<Rightarrow> string" where
  "formatMaturity v = formatTokenE8s (nullish_or v 0) NotDetailed None True"

definition formattedMaturity :: "NeuronInfo \<Rightarrow> string" where
  "formattedMaturity neuron = formatMaturity (map_option fn_maturityE8sEquivalent (ni_fullNeuron neuron))"

definition formattedTotalMaturity :: "NeuronInfo \<Rightarrow> string" where
  "formattedTotalMaturity neuron = formatMaturity (Some
     (nullish_or (map_option fn_maturityE8sEquivalent (ni_fullNeuron neuron)) 0 +
      nullish_or (Option.bind (ni_fullNeuron neuron) fn_stakedMaturityE8sEquivalent) 0))"

definition formattedStakedMaturity :: "NeuronInfo \<Rightarrow> string" where
  "formattedStakedMaturity neuron =
     formatMaturity (Option.bind (ni_fullNeuron neuron) fn_stakedMaturityE8sEquivalent)"

definition neuronAge :: "NeuronInfo \<Rightarrow> int" where
  "neuronAge neuron = \<lfloor>min (to_number (ni_ageSeconds neuron)) (of_int SECONDS_IN_FOUR_YEARS)\<rfloor>"

subsection \<open>Order\<close>

definition compareNeurons :: "NeuronInfo comparator_fun" where
  "compareNeurons a b =
     (if neuronStake a > neuronStake b then -1
      else if neuronStake a < neuronStake b then 1
      else if ni_dissolveDelaySeconds a > ni_dissolveDelaySeconds b then -1
      else if ni_dissolveDelaySeconds a < ni_dissolveDelaySeconds b then 1
      else if ni_createdTimestampSeconds a > ni_createdTimestampSeconds b then -1
      else if ni_createdTimestampSeconds a < ni_createdTimestampSeconds b then 1
      else 0)"

definition sortNeuronsByStake :: "NeuronInfo list \<Rightarrow> NeuronInfo list" where
  "sortNeuronsByStake neurons = js_sort compareNeurons neurons"

definition refreshed_or_zero :: "NeuronInfo \<Rightarrow> int" where
  "refreshed_or_zero neuron =
     nullish_or (Option.bind (ni_fullNeuron neuron) fn_votingPowerRefreshedTimestampSeconds) 0"

definition compareRefreshed :: "NeuronInfo comparator_fun" where
  "compareRefreshed = mergeComparators [createAscendingComparator refreshed_or_zero, compareNeurons]"

definition sortNeuronsByVotingPowerRefreshedTimeout :: "NeuronInfo list \<Rightarrow> NeuronInfo list" where
  "sortNeuronsByVotingPowerRefreshedTimeout neurons = js_sort compareRefreshed neurons"

subsection \<open>Control\<close>

definition isNeuronControllableByUser :: "NeuronInfo \<Rightarrow> Account option \<Rightarrow> bool" where
  "isNeuronControllableByUser neuron mainAcc \<longleftrightarrow>
     Option.bind (ni_fullNeuron neuron) fn_controller \<noteq> None \<and>
     map_option ac_type mainAcc = Some AccountMain \<and>
     Option.bind (ni_fullNeuron neuron) fn_controller = Option.bind mainAcc ac_principal"

definition isNeuronControllable :: "NeuronInfo \<Rightarrow> string option \<Rightarrow> IcpAccountsStoreData \<Rightarrow> bool" where
  "isNeuronControllable neuron identity accounts =
     (case Option.bind (ni_fullNeuron neuron) fn_controller of
        None \<Rightarrow> False
      | Some controller \<Rightarrow>
          Some controller = identity \<or> getAccountByPrincipal controller accounts \<noteq> None)"

definition isNeuronControlledByHardwareWallet :: "NeuronInfo \<Rightarrow> IcpAccountsStoreData \<Rightarrow> bool" where
  "isNeuronControlledByHardwareWallet neuron accounts =
     (case Option.bind (ni_fullNeuron neuron) fn_controller of
        None \<Rightarrow> False
      | Some controller \<Rightarrow> isAccountHardwareWallet (getAccountByPrincipal controller accounts))"

definition isHotKeyControllable :: "NeuronInfo \<Rightarrow> string option \<Rightarrow> bool" where
  "isHotKeyControllable neuron identity =
     (case ni_fullNeuron neuron of
        None \<Rightarrow> False
      | Some f \<Rightarrow> List.find (\<lambda>hotkey. Some hotkey = identity) (fn_hotKeys f) \<noteq> None \<and>
          fn_controller f \<noteq> identity)"

definition isIdentityController :: "NeuronInfo \<Rightarrow> string option \<Rightarrow> bool" where
  "isIdentityController neuron identity =
     (case identity of None \<Rightarrow> False
      | Some p \<Rightarrow> Option.bind (ni_fullNeuron neuron) fn_controller = Some p)"

definition canUserManageNeuronFundParticipation ::
  "NeuronInfo \<Rightarrow> string option \<Rightarrow> IcpAccountsStoreData \<Rightarrow> bool" where
  "canUserManageNeuronFundParticipation neuron identity accounts \<longleftrightarrow>
     identity \<noteq> None \<and>
     (isNeuronControllableByUser neuron (acs_main accounts) \<or>
      (isHotKeyControllable neuron identity \<and> \<not> isNeuronControlledByHardwareWallet neuron accounts))"

text \<open>The tags of a neuron, by the key of their text.\<close>

datatype NeuronTag =
  SeedTag | EctTag | CommunityFundTag | HardwareWalletControlTag | HotkeyControlTag

definition getNeuronTagsUnrelatedToController :: "NeuronInfo \<Rightarrow> NeuronTag list" where
  "getNeuronTagsUnrelatedToController neuron =
     (if isSeedNeuron neuron then [SeedTag] else if isEctNeuron neuron then [EctTag] else []) @
     (if hasJoinedCommunityFund neuron then [CommunityFundTag] else [])"

definition getNeuronTags :: "NeuronInfo \<Rightarrow> string option \<Rightarrow> IcpAccountsStoreData \<Rightarrow> NeuronTag list" where
  "getNeuronTags neuron identity accounts =
     getNeuronTagsUnrelatedToController neuron @
     (if isNeuronControlledByHardwareWallet neuron accounts then [HardwareWalletControlTag]
      else if isHotKeyControllable neuron identity then [HotkeyControlTag] else [])"

definition isPublicNeuron :: "NeuronInfo \<Rightarrow> bool" where
  "isPublicNeuron neuronInfo \<longleftrightarrow> ni_visibility neuronInfo = Some VisibilityPublic"

text \<open>text.slice(-1 * n) is the whole text for n = 0\<close>

definition slice_last :: "nat \<Rightarrow> string \<Rightarrow> string" where
  "slice_last n s = (if n = 0 then s else drop (length s - n) s)"

definition shortenWithMiddleEllipsis :: "string \<Rightarrow> nat \<Rightarrow> string" where
  "shortenWithMiddleEllipsis s splitLength =
     (let minLength = splitLength * 2 + 2
      in if length s > minLength then take splitLength s @ ''...'' @ slice_last splitLength s else s)"

datatype UncontrolledNeuronDetailsData = HardwareWalletDetails | HotkeyDetails string

definition getNeuronVisibilityRowUncontrolledNeuronDetails ::
  "NeuronInfo \<Rightarrow> string option \<Rightarrow> IcpAccountsStoreData \<Rightarrow> UncontrolledNeuronDetailsData option" where
  "getNeuronVisibilityRowUncontrolledNeuronDetails neuron identity accounts =
     (if isNeuronControlledByHardwareWallet neuron accounts then Some HardwareWalletDetails
      else case Option.bind (ni_fullNeuron neuron) fn_controller of
             None \<Rightarrow> None
           | Some controller \<Rightarrow>
               if isHotKeyControllable neuron identity \<and> controller \<noteq> []
               then Some (HotkeyDetails (shortenWithMiddleEllipsis controller 7)) else None)"

record NeuronVisibilityRowData =
  nv_neuronId :: string
  nv_isPublic :: bool
  nv_stake :: "int option"
  nv_tags :: "NeuronTag list"
  nv_uncontrolledNeuronDetails :: "UncontrolledNeuronDetailsData option"

definition createNeuronVisibilityRowData ::
  "NeuronInfo \<Rightarrow> string option \<Rightarrow> IcpAccountsStoreData \<Rightarrow> NeuronVisibilityRowData" where
  "createNeuronVisibilityRowData neuron identity accounts =
     \<lparr>nv_neuronId = int_to_string (ni_neuronId neuron), nv_isPublic = isPublicNeuron neuron,
      nv_stake = (if isNeuronControllableByUser neuron (acs_main accounts)
        then Some (neuronStake neuron) else None),
      nv_tags = getNeuronTagsUnrelatedToController neuron,
      nv_uncontrolledNeuronDetails =
        getNeuronVisibilityRowUncontrolledNeuronDetails neuron identity accounts\<rparr>"

subsection \<open>Followees and ballots\<close>

record FolloweesNeuron =
  fwn_neuronId :: int
  fwn_topics :: "Topic list"

text \<open>The push on the entry find returns, or of a new entry.\<close>

fun add_followee :: "Topic \<Rightarrow> FolloweesNeuron list \<Rightarrow> int \<Rightarrow> FolloweesNeuron list" where
  "add_followee topic [] neuronId = [\<lparr>fwn_neuronId = neuronId, fwn_topics = [topic]\<rparr>]"
| "add_followee topic (r # result) neuronId =
     (if fwn_neuronId r = neuronId then r\<lparr>fwn_topics := fwn_topics r @ [topic]\<rparr> # result
      else r # add_followee topic result neuronId)"

definition followeesNeurons :: "NeuronInfo \<Rightarrow> FolloweesNeuron list" where
  "followeesNeurons neuron =
     (case ni_fullNeuron neuron of
        None \<Rightarrow> []
      | Some f \<Rightarrow> foldl (\<lambda>result fo. foldl (add_followee (fo_topic fo)) result (fo_followees fo)) []
          (fn_followees f))"

definition followeesByTopic :: "NeuronInfo option \<Rightarrow> Topic \<Rightarrow> int list option" where
  "followeesByTopic neuron topic =
     (case Option.bind neuron ni_fullNeuron of
        None \<Rightarrow> None
      | Some f \<Rightarrow> map_option fo_followees (List.find (\<lambda>fo. topic = fo_topic fo) (fn_followees f)))"

text \<open>allTopics: the values of the enum Topic of the client library, in its order\<close>

definition TOPICS_TO_FOLLOW_NNS :: "Topic list \<Rightarrow> Topic list" where
  "TOPICS_TO_FOLLOW_NNS allTopics =
     (let FIRST_TOPICS = [TopicUnspecified, Governance, SnsAndCommunityFund]; LAST_TOPICS = [ExchangeRate]
      in FIRST_TOPICS @ filter (\<lambda>topic. topic \<notin> set (FIRST_TOPICS @ LAST_TOPICS)) allTopics @ LAST_TOPICS)"

definition topicsToFollow :: "Topic list \<Rightarrow> NeuronInfo \<Rightarrow> Topic list" where
  "topicsToFollow allTopics neuron =
     filter (\<lambda>topic. topic \<notin> set [SnsDecentralizationSale])
       (if followeesByTopic (Some neuron) NeuronManagement = None
        then filter (\<lambda>topic. topic \<noteq> NeuronManagement) (TOPICS_TO_FOLLOW_NNS allTopics)
        else TOPICS_TO_FOLLOW_NNS allTopics)"

definition ballotsWithDefinedProposal :: "NeuronInfo \<Rightarrow> BallotInfo list" where
  "ballotsWithDefinedProposal neuron = filter (\<lambda>b. bi_proposalId b \<noteq> None) (ni_recentBallots neuron)"

definition getRecentBallot :: "NeuronInfo \<Rightarrow> int option \<Rightarrow> BallotInfo option" where
  "getRecentBallot neuron proposalId =
     List.find (\<lambda>b. bi_proposalId b = proposalId) (ni_recentBallots neuron)"

definition getVote :: "NeuronInfo \<Rightarrow> ProposalInfo \<Rightarrow> Vote option" where
  "getVote neuron proposal =
     nullish_alt (map_option bi_vote (getRecentBallot neuron (pi_id proposal)))
       (map_option b_vote (getVotingBallot (ni_neuronId neuron) proposal))"

record CompactNeuronInfo =
  cn_idString :: string
  cn_votingPower :: int
  cn_vote :: Vote

definition votedNeuronDetails ::
  "(NeuronInfo list \<Rightarrow> ProposalInfo \<Rightarrow> NeuronInfo list) \<Rightarrow> NeuronInfo list \<Rightarrow> ProposalInfo \<Rightarrow>
     CompactNeuronInfo list" where
  "votedNeuronDetails votedNeurons neurons proposal =
     List.map_filter (\<lambda>neuron. map_option (\<lambda>vote. \<lparr>cn_idString = int_to_string (ni_neuronId neuron),
         cn_votingPower = getVotingPower neuron proposal, cn_vote = vote\<rparr>) (getVote neuron proposal))
       (votedNeurons neurons proposal)"

definition neuronsVotingPower :: "CompactNeuronInfo list option \<Rightarrow> int" where
  "neuronsVotingPower neurons =
     nullish_or (map_option (\<lambda>ns. reduce_sum (map cn_votingPower ns)) neurons) 0"

datatype NeuronIneligibilityReason = IneligibleSince | IneligibleShort | NoPermission

record IneligibleNeuronData =
  in_neuronIdString :: string
  in_reason :: "NeuronIneligibilityReason option"

definition filterIneligibleNnsNeurons ::
  "(NeuronInfo list \<Rightarrow> ProposalInfo \<Rightarrow> NeuronInfo list) \<Rightarrow> NeuronInfo list \<Rightarrow> ProposalInfo \<Rightarrow>
     IneligibleNeuronData list" where
  "filterIneligibleNnsNeurons ineligibleNeurons neurons proposal =
     map (\<lambda>n. \<lparr>in_neuronIdString = int_to_string (ni_neuronId n),
         in_reason = Some (if ni_createdTimestampSeconds n > pi_proposalTimestampSeconds proposal
           then IneligibleSince else IneligibleShort)\<rparr>)
       (ineligibleNeurons neurons proposal)"

text \<open>own is the text of OWN_CANISTER_ID.\<close>

definition neuronVoting :: "string \<Rightarrow> VoteRegistrationStoreMap \<Rightarrow> string \<Rightarrow> bool" where
  "neuronVoting own registrations neuronIdString \<longleftrightarrow>
     List.find (\<lambda>r. neuronIdString \<in> set (vr_neuronIdStrings r) \<and>
         neuronIdString \<notin> set (vr_successfullyVotedNeuronIdStrings r))
       (nullish_or (registrations own) []) \<noteq> None"

subsection \<open>Merging neurons\<close>

definition isMergeableNeuron :: "NeuronInfo \<Rightarrow> IcpAccountsStoreData \<Rightarrow> bool" where
  "isMergeableNeuron neuron accounts \<longleftrightarrow>
     \<not> hasJoinedCommunityFund neuron \<and> \<not> isSpawning neuron \<and> isLocked neuron \<and>
     isNeuronControllable neuron None accounts"

datatype MergeMessage =
    CannotMergeCommunity | CannotMergeSpawning | CannotMergeHotkey | CannotMergeState | OnlyMergeTwo
  | MergeSameId | MergeDifferentTypes | MergeNotSameController | MergeNotSameFollowees

definition getMergeableNeuronMessageKey :: "NeuronInfo \<Rightarrow> IcpAccountsStoreData \<Rightarrow> MergeMessage option" where
  "getMergeableNeuronMessageKey neuron accounts =
     (if hasJoinedCommunityFund neuron then Some CannotMergeCommunity
      else if isSpawning neuron then Some CannotMergeSpawning
      else if \<not> isNeuronControllable neuron None accounts then Some CannotMergeHotkey
      else if \<not> isLocked neuron then Some CannotMergeState
      else None)"

definition sameController :: "NeuronInfo list \<Rightarrow> bool" where
  "sameController neurons \<longleftrightarrow>
     length (set_insertion_order (map (\<lambda>n. case ni_fullNeuron n of
         None \<Rightarrow> Some (int_to_string (ni_neuronId n)) | Some f \<Rightarrow> fn_controller f) neurons)) = 1"

definition sameId :: "NeuronInfo list \<Rightarrow> bool" where
  "sameId neurons \<longleftrightarrow> length (set_insertion_order (map ni_neuronId neurons)) = 1"

definition sameNeuronType :: "NeuronInfo list \<Rightarrow> bool" where
  "sameNeuronType neurons \<longleftrightarrow> length (set_insertion_order (map ni_neuronType neurons)) = 1"

definition allHaveSameFollowees :: "int list list \<Rightarrow> bool" where
  "allHaveSameFollowees sortedFolloweesLists \<longleftrightarrow>
     length (set_insertion_order (map (\<lambda>ids. join_with '','' (map int_to_string ids))
       sortedFolloweesLists)) = 1"

definition manageNeuronFollowees :: "Neuron \<Rightarrow> int list" where
  "manageNeuronFollowees f = nullish_or
     (map_option fo_followees (List.find (\<lambda>fo. fo_topic fo = NeuronManagement) (fn_followees f))) []"

definition sameManageNeuronFollowees :: "NeuronInfo list \<Rightarrow> bool" where
  "sameManageNeuronFollowees neurons =
     (let fullNeurons = List.map_filter ni_fullNeuron neurons
      in if length fullNeurons = 0 then False
         else allHaveSameFollowees
           (map (\<lambda>f. js_sort compare_as_strings (manageNeuronFollowees f)) fullNeurons))"

definition canBeMerged :: "NeuronInfo list \<Rightarrow> bool \<times> MergeMessage option" where
  "canBeMerged neurons =
     (if length neurons \<noteq> MAX_NEURONS_MERGED then (False, None)
      else if sameId neurons then (False, Some MergeSameId)
      else if \<not> sameNeuronType neurons then (False, Some MergeDifferentTypes)
      else if \<not> sameController neurons then (False, Some MergeNotSameController)
      else if sameManageNeuronFollowees neurons then (True, None)
      else (False, Some MergeNotSameFollowees))"

record MergeableNeuron =
  mn_mergeable :: bool
  mn_selected :: bool
  mn_messageKey :: "MergeMessage option"
  mn_neuron :: NeuronInfo

definition mergeable_alone :: "IcpAccountsStoreData \<Rightarrow> NeuronInfo list \<Rightarrow> NeuronInfo \<Rightarrow> MergeableNeuron" where
  "mergeable_alone accounts selectedNeurons neuron =
     \<lparr>mn_mergeable = isMergeableNeuron neuron accounts,
      mn_selected = (ni_neuronId neuron \<in> set (map ni_neuronId selectedNeurons)),
      mn_messageKey = getMergeableNeuronMessageKey neuron accounts, mn_neuron = neuron\<rparr>"

definition mergeable_with_selection :: "NeuronInfo list \<Rightarrow> MergeableNeuron \<Rightarrow> MergeableNeuron" where
  "mergeable_with_selection selectedNeurons m =
     (if \<not> mn_mergeable m \<or> mn_selected m then m
      else if length selectedNeurons \<ge> MAX_NEURONS_MERGED
      then m\<lparr>mn_mergeable := False, mn_messageKey := Some OnlyMergeTwo\<rparr>
      else if length selectedNeurons = 1
      then (let (isValid, messageKey) = canBeMerged [hd selectedNeurons, mn_neuron m]
            in m\<lparr>mn_mergeable := isValid, mn_messageKey := messageKey\<rparr>)
      else m)"

definition mapMergeableNeurons ::
  "NeuronInfo list \<Rightarrow> IcpAccountsStoreData \<Rightarrow> NeuronInfo list \<Rightarrow> MergeableNeuron list" where
  "mapMergeableNeurons neurons accounts selectedNeurons =
     map (mergeable_with_selection selectedNeurons)
       (map (mergeable_alone accounts selectedNeurons) neurons)"

definition mapNeuronIds :: "int list \<Rightarrow> NeuronInfo list \<Rightarrow> NeuronInfo list" where
  "mapNeuronIds neuronIds neurons =
     List.map_filter (\<lambda>selectedId. List.find (\<lambda>n. ni_neuronId n = selectedId) neurons) neuronIds"

subsection \<open>Stake limits, maturity and reward loss\<close>

definition isValidInputAmount :: "number option \<Rightarrow> number \<Rightarrow> bool" where
  "isValidInputAmount amount maxAmount =
     (case amount of None \<Rightarrow> False | Some a \<Rightarrow> a > 0 \<and> a \<le> maxAmount)"

definition isEnoughToStakeNeuron :: "int \<Rightarrow> int option \<Rightarrow> bool" where
  "isEnoughToStakeNeuron stakeE8s feeE8s \<longleftrightarrow> stakeE8s \<ge> MIN_NEURON_STAKE + nullish_or feeE8s 0"

text \<open>the double nearest to 0.95\<close>

definition MATURITY_MODULATION_VARIANCE_PERCENTAGE :: number where
  "MATURITY_MODULATION_VARIANCE_PERCENTAGE = rnd (95 / 100)"

definition isEnoughMaturityToSpawn :: "NeuronInfo \<Rightarrow> number \<Rightarrow> bool" where
  "isEnoughMaturityToSpawn neuron percentage =
     (case ni_fullNeuron neuron of
        None \<Rightarrow> False
      | Some f \<Rightarrow>
          (let maturitySelected =
                 \<lfloor>num_div (num_mul (to_number (fn_maturityE8sEquivalent f)) percentage) 100\<rfloor>
           in of_int maturitySelected \<ge>
                num_div (to_number MIN_NEURON_STAKE) MATURITY_MODULATION_VARIANCE_PERCENTAGE))"

definition hasEnoughMaturityToStake :: "NeuronInfo \<Rightarrow> bool" where
  "hasEnoughMaturityToStake neuron \<longleftrightarrow>
     nullish_or (map_option fn_maturityE8sEquivalent (ni_fullNeuron neuron)) 0 > 0"

definition minNeuronSplittable :: "int \<Rightarrow> int" where
  "minNeuronSplittable fee = 2 * MIN_NEURON_STAKE + fee"

definition neuronCanBeSplit :: "NeuronInfo \<Rightarrow> int \<Rightarrow> bool" where
  "neuronCanBeSplit neuron fee \<longleftrightarrow> neuronStake neuron \<ge> minNeuronSplittable fee"

text \<open>numberToUlps parses an amount with the client library and may throw (None).\<close>

definition validTopUpAmount :: "(number \<Rightarrow> int option) \<Rightarrow> NeuronInfo \<Rightarrow> number \<Rightarrow> bool option" where
  "validTopUpAmount numberToUlps neuron amount =
     map_option (\<lambda>amountUlps.
         amountUlps + nullish_or (map_option fn_cachedNeuronStake (ni_fullNeuron neuron)) 0 > MIN_NEURON_STAKE)
       (numberToUlps amount)"

record RewardEvent =
  re_actual_timestamp_seconds :: int
  re_rounds_since_last_distribution :: "int option"
  re_settled_proposals :: "int list"

definition maturityLastDistribution :: "RewardEvent \<Rightarrow> int" where
  "maturityLastDistribution event =
     (if length (re_settled_proposals event) > 0 then re_actual_timestamp_seconds event
      else re_actual_timestamp_seconds event -
        nullish_or (re_rounds_since_last_distribution event) 1 * SECONDS_IN_DAY)"

definition getVotingPowerRefreshedTimestampSeconds :: "int \<Rightarrow> NeuronInfo \<Rightarrow> int" where
  "getVotingPowerRefreshedTimestampSeconds now neuron =
     nullish_or (Option.bind (ni_fullNeuron neuron) fn_votingPowerRefreshedTimestampSeconds) now"

definition secondsUntilLosingRewards :: "int \<Rightarrow> NeuronInfo \<Rightarrow> number" where
  "secondsUntilLosingRewards now neuron =
     (let rewardLossStart = num_add (to_number (getVotingPowerRefreshedTimestampSeconds now neuron))
            (of_int START_REDUCING_VOTING_POWER_AFTER_SECONDS)
      in num_sub rewardLossStart (of_int now))"

definition isNeuronLosingRewards :: "int \<Rightarrow> NeuronInfo \<Rightarrow> bool" where
  "isNeuronLosingRewards now neuron \<longleftrightarrow> secondsUntilLosingRewards now neuron \<le> 0"

definition shouldDisplayRewardLossNotification :: "int \<Rightarrow> NeuronInfo \<Rightarrow> bool" where
  "shouldDisplayRewardLossNotification now neuron \<longleftrightarrow>
     secondsUntilLosingRewards now neuron \<le>
       of_int (daysToSeconds NOTIFICATION_PERIOD_BEFORE_REWARD_LOSS_STARTS_DAYS)"

text \<open>
  checkInvalidState runs the onInvalid callback of every state of the current step that is invalid; the
  result is the list of those callbacks.
\<close>

record ('a, 'c) InvalidState =
  is_stepName :: string
  is_isInvalid :: "'a option \<Rightarrow> bool"
  is_onInvalid :: 'c

definition checkInvalidState ::
  "('a, 'c) InvalidState list \<Rightarrow> string option \<Rightarrow> 'a option \<Rightarrow> 'c list" where
  "checkInvalidState invalidStates currentStep args =
     map is_onInvalid
       (filter (\<lambda>s. Some (is_stepName s) = currentStep \<and> is_isInvalid s args) invalidStates)"

subsection \<open>Lemmas\<close>

interpretation by_stake: comparator compareNeurons
  by unfold_locales (auto simp: compareNeurons_def split: if_splits)

interpretation by_refresh: comparator compareRefreshed
  unfolding compareRefreshed_def
  by (rule comparator_merge) (auto intro: ascending.comparator_axioms by_stake.comparator_axioms)

text \<open>The key compareNeurons sorts by, largest first.\<close>

lemma compareNeurons_less_iff:
  "compareNeurons a b < 0 \<longleftrightarrow> neuronStake b < neuronStake a \<or> neuronStake b = neuronStake a \<and>
     (ni_dissolveDelaySeconds b < ni_dissolveDelaySeconds a \<or>
      ni_dissolveDelaySeconds b = ni_dissolveDelaySeconds a \<and>
        ni_createdTimestampSeconds b < ni_createdTimestampSeconds a)"
  by (auto simp: compareNeurons_def)

lemma set_size_two:
  "length (set_insertion_order [x, y]) = 1 \<longleftrightarrow> x = y"
  by auto

lemma allHaveSameFollowees_two: "allHaveSameFollowees [xs, ys] \<longleftrightarrow> xs = ys"
  by (simp only: allHaveSameFollowees_def list.map set_size_two join_int_strings_inject)

text \<open>Appending a topic to the entry of an id.\<close>

definition topics_of :: "FolloweesNeuron list \<Rightarrow> int \<Rightarrow> Topic list" where
  "topics_of rs i = concat (map fwn_topics (filter (\<lambda>r. fwn_neuronId r = i) rs))"

definition followees_ok :: "FolloweesNeuron list \<Rightarrow> bool" where
  "followees_ok rs \<longleftrightarrow> distinct (map fwn_neuronId rs) \<and> [] \<notin> set (map fwn_topics rs)"

lemma ids_add_followee:
  "set (map fwn_neuronId (add_followee t rs i)) = insert i (set (map fwn_neuronId rs))"
  by (induction rs) auto

lemma add_followee_ok: "followees_ok rs \<Longrightarrow> followees_ok (add_followee t rs i)"
proof (induction rs)
  case Nil
  then show ?case by (simp add: followees_ok_def)
next
  case (Cons r rs)
  then have "followees_ok rs" by (simp add: followees_ok_def)
  with Cons.IH have ok: "followees_ok (add_followee t rs i)" .
  show ?case
  proof (cases "fwn_neuronId r = i")
    case True
    with Cons.prems show ?thesis by (auto simp: followees_ok_def)
  next
    case False
    have "fwn_neuronId r \<notin> set (map fwn_neuronId (add_followee t rs i))"
      using Cons.prems False by (simp only: ids_add_followee) (simp add: followees_ok_def)
    with ok False Cons.prems show ?thesis by (auto simp: followees_ok_def)
  qed
qed

lemma topics_add_followee:
  "followees_ok rs \<Longrightarrow> topics_of (add_followee t rs i) j = topics_of rs j @ (if i = j then [t] else [])"
proof (induction rs)
  case Nil
  then show ?case by (simp add: topics_of_def)
next
  case (Cons r rs)
  then have "followees_ok rs" by (simp add: followees_ok_def)
  note IH = Cons.IH[OF this]
  have "filter (\<lambda>r'. fwn_neuronId r' = fwn_neuronId r) rs = []"
    using Cons.prems by (auto simp: followees_ok_def filter_empty_conv) (metis image_eqI)
  with IH show ?case by (auto simp: topics_of_def)
qed

lemma topics_add_followees:
  "followees_ok rs \<Longrightarrow> followees_ok (foldl (add_followee t) rs is) \<and>
     topics_of (foldl (add_followee t) rs is) j = topics_of rs j @ replicate (count_list is j) t"
proof (induction "is" arbitrary: rs)
  case Nil
  then show ?case by simp
next
  case (Cons i "is")
  then have "followees_ok (add_followee t rs i)" by (simp add: add_followee_ok)
  from Cons.IH[OF this] Cons.prems show ?case by (simp add: topics_add_followee)
qed

lemma topics_add_all:
  "followees_ok rs \<Longrightarrow>
     followees_ok (foldl (\<lambda>rs fo. foldl (add_followee (fo_topic fo)) rs (fo_followees fo)) rs fos) \<and>
     topics_of (foldl (\<lambda>rs fo. foldl (add_followee (fo_topic fo)) rs (fo_followees fo)) rs fos) j =
       topics_of rs j @ concat (map (\<lambda>fo. replicate (count_list (fo_followees fo) j) (fo_topic fo)) fos)"
proof (induction fos arbitrary: rs)
  case Nil
  then show ?case by simp
next
  case (Cons fo fos)
  from topics_add_followees[OF Cons.prems, of "fo_topic fo" "fo_followees fo"] have
    ok: "followees_ok (foldl (add_followee (fo_topic fo)) rs (fo_followees fo))"
    and t: "topics_of (foldl (add_followee (fo_topic fo)) rs (fo_followees fo)) j =
      topics_of rs j @ replicate (count_list (fo_followees fo) j) (fo_topic fo)"
    by auto
  from Cons.IH[OF ok] t show ?case by simp
qed

lemma mergeable_alone_message:
  "mn_mergeable (mergeable_alone accounts sel n) \<longleftrightarrow> mn_messageKey (mergeable_alone accounts sel n) = None"
  by (auto simp: mergeable_alone_def isMergeableNeuron_def getMergeableNeuronMessageKey_def)

lemma canBeMerged_message:
  "length ns = MAX_NEURONS_MERGED \<Longrightarrow> fst (canBeMerged ns) \<longleftrightarrow> snd (canBeMerged ns) = None"
  by (simp add: canBeMerged_def)

lemma mergeable_selection_message:
  "mn_mergeable m \<longleftrightarrow> mn_messageKey m = None \<Longrightarrow>
     mn_mergeable (mergeable_with_selection sel m) \<longleftrightarrow> mn_messageKey (mergeable_with_selection sel m) = None"
  using canBeMerged_message[of "[hd sel, mn_neuron m]"]
  by (auto simp: mergeable_with_selection_def MAX_NEURONS_MERGED_def split: prod.split)

lemma mergeable_selection_neuron [simp]:
  "mn_neuron (mergeable_with_selection sel m) = mn_neuron m"
  "mn_selected (mergeable_with_selection sel m) = mn_selected m"
  by (auto simp: mergeable_with_selection_def split: prod.split)

subsection \<open>Properties\<close>

text \<open>
  Two neurons whose private data is known can be merged exactly when their ids differ, and their
  types, their controllers and, up to the order, the followees that may manage them agree; which of the
  two is selected first does not matter.
\<close>

lemma canBeMerged_correct:
  assumes "ni_fullNeuron a = Some fa" and "ni_fullNeuron b = Some fb"
  shows "(fst (canBeMerged [a, b]) \<longleftrightarrow>
      ni_neuronId a \<noteq> ni_neuronId b \<and> ni_neuronType a = ni_neuronType b \<and>
      fn_controller fa = fn_controller fb \<and> mset (manageNeuronFollowees fa) = mset (manageNeuronFollowees fb)) \<and>
    canBeMerged [b, a] = canBeMerged [a, b]"
proof -
  have "sameManageNeuronFollowees [a, b] \<longleftrightarrow>
      mset (manageNeuronFollowees fa) = mset (manageNeuronFollowees fb)"
    "sameManageNeuronFollowees [b, a] \<longleftrightarrow>
      mset (manageNeuronFollowees fa) = mset (manageNeuronFollowees fb)"
    using assms by (auto simp: sameManageNeuronFollowees_def List.map_filter_simps allHaveSameFollowees_two
        sort_as_strings_unique)
  then show ?thesis
    using assms by (auto simp: canBeMerged_def MAX_NEURONS_MERGED_def sameId_def sameNeuronType_def
        sameController_def)
qed

definition managed_neuron :: "int \<Rightarrow> int list \<Rightarrow> NeuronInfo" where
  "managed_neuron i managers = (plain_neuron i)\<lparr>ni_fullNeuron := Some ((plain_full ''c'' 5)\<lparr>fn_followees :=
     [\<lparr>fo_topic = NeuronManagement, fo_followees = managers\<rparr>]\<rparr>)\<rparr>"

theorem canBeMerged_correct_witness:
  "fst (canBeMerged [managed_neuron 1 [10, 9], managed_neuron 2 [9, 10]]) \<and>
   \<not> fst (canBeMerged [managed_neuron 1 [10, 9], managed_neuron 2 [9]])"
  using canBeMerged_correct[of "managed_neuron 1 [10, 9]" _ "managed_neuron 2 [9, 10]"]
    canBeMerged_correct[of "managed_neuron 1 [10, 9]" _ "managed_neuron 2 [9]"]
  by (simp add: managed_neuron_def plain_neuron_def plain_full_def manageNeuronFollowees_def)

text \<open>
  The list of neurons offered for a merge shows every neuron, in order; a neuron comes with a message
  exactly when it cannot be selected; and next to one selected neuron, another one is offered exactly
  when it is mergeable by itself and the two can be merged.
\<close>

lemma mapMergeableNeurons_correct:
  "map mn_neuron (mapMergeableNeurons neurons accounts selected) = neurons \<and>
   map mn_mergeable (mapMergeableNeurons neurons accounts selected) =
     map (\<lambda>m. mn_messageKey m = None) (mapMergeableNeurons neurons accounts selected) \<and>
   map mn_mergeable (mapMergeableNeurons neurons accounts [n]) =
     map (\<lambda>m. isMergeableNeuron m accounts \<and> (ni_neuronId m = ni_neuronId n \<or> fst (canBeMerged [n, m]))) neurons"
proof (intro conjI)
  show "map mn_neuron (mapMergeableNeurons neurons accounts selected) = neurons"
    by (simp add: mapMergeableNeurons_def comp_def mergeable_alone_def)
  show "map mn_mergeable (mapMergeableNeurons neurons accounts selected) =
      map (\<lambda>m. mn_messageKey m = None) (mapMergeableNeurons neurons accounts selected)"
    by (simp add: mapMergeableNeurons_def comp_def mergeable_selection_message[OF mergeable_alone_message])
  show "map mn_mergeable (mapMergeableNeurons neurons accounts [n]) =
      map (\<lambda>m. isMergeableNeuron m accounts \<and> (ni_neuronId m = ni_neuronId n \<or> fst (canBeMerged [n, m]))) neurons"
    by (auto simp: mapMergeableNeurons_def comp_def mergeable_with_selection_def mergeable_alone_def
        MAX_NEURONS_MERGED_def split: prod.split)
qed

text \<open>
  followeesNeurons turns the followees per topic around without loss: it lists each followed neuron
  once, with the topics it is followed on, in their order and as often as it occurs.
\<close>

lemma followeesNeurons_inverse:
  "distinct (map fwn_neuronId (followeesNeurons neuron)) \<and>
   [] \<notin> set (map fwn_topics (followeesNeurons neuron)) \<and>
   concat (map fwn_topics (filter (\<lambda>r. fwn_neuronId r = i) (followeesNeurons neuron))) =
     (case ni_fullNeuron neuron of None \<Rightarrow> []
      | Some f \<Rightarrow> concat (map (\<lambda>fo. replicate (count_list (fo_followees fo) i) (fo_topic fo)) (fn_followees f)))"
proof (cases "ni_fullNeuron neuron")
  case None
  then show ?thesis by (simp add: followeesNeurons_def)
next
  case (Some f)
  have "followees_ok []" "topics_of [] i = []" by (simp_all add: followees_ok_def topics_of_def)
  with topics_add_all[of "[]" "fn_followees f" i] Some show ?thesis
    by (simp add: followeesNeurons_def followees_ok_def topics_of_def)
qed

text \<open>
  As long as the times are below 2^52 seconds, the reward loss computed in doubles is exact: a neuron
  loses rewards from half a year after its voting power was refreshed, and the notification shows from
  thirty days before.  Without private data neither ever shows.
\<close>

lemma reward_loss_exact:
  assumes "0 \<le> now" and "now < 2 ^ 52"
    and "\<forall>r. Option.bind (ni_fullNeuron n) fn_votingPowerRefreshedTimestampSeconds = Some r \<longrightarrow> 0 \<le> r \<and> r < 2 ^ 52"
  shows "case Option.bind (ni_fullNeuron n) fn_votingPowerRefreshedTimestampSeconds of
      None \<Rightarrow> \<not> isNeuronLosingRewards now n \<and> \<not> shouldDisplayRewardLossNotification now n
    | Some r \<Rightarrow> (isNeuronLosingRewards now n \<longleftrightarrow> r + 15778800 \<le> now) \<and>
        (shouldDisplayRewardLossNotification now n \<longleftrightarrow> r + 15778800 - 30 * 86400 \<le> now)"
proof -
  define t where "t = getVotingPowerRefreshedTimestampSeconds now n"
  have t: "0 \<le> t" "t < 2 ^ 52"
    using assms by (auto simp: t_def getVotingPowerRefreshedTimestampSeconds_def nullish_or_def
        split: option.splits)
  have "to_number t = of_int t" using t by (intro to_number_exact) simp
  moreover have "num_add (of_int t) (of_int 15778800) = of_int (t + 15778800)"
    unfolding num_add_def of_int_add[symmetric] using t by (intro rnd_of_int) simp
  moreover have "num_sub (of_int (t + 15778800)) (of_int now) = of_int (t + 15778800 - now)"
    unfolding num_sub_def of_int_diff[symmetric] using t assms(1,2) by (intro rnd_of_int) simp
  ultimately have s: "secondsUntilLosingRewards now n = of_int (t + 15778800 - now)"
    by (simp add: secondsUntilLosingRewards_def t_def[symmetric] time_constants Let_def)
  have "isNeuronLosingRewards now n \<longleftrightarrow> t + 15778800 - now \<le> 0"
    by (simp only: isNeuronLosingRewards_def s of_int_le_0_iff)
  moreover have "shouldDisplayRewardLossNotification now n \<longleftrightarrow> t + 15778800 - now \<le> 2592000"
    unfolding shouldDisplayRewardLossNotification_def s daysToSeconds_def
    by (simp only: of_int_le_iff) (simp add: time_constants)
  ultimately show ?thesis
    by (auto simp: t_def getVotingPowerRefreshedTimestampSeconds_def split: option.splits)
qed

theorem reward_loss_exact_witness:
  "\<not> shouldDisplayRewardLossNotification 1700000000 (plain_neuron 1)"
  using reward_loss_exact[of 1700000000 "plain_neuron 1"] by (simp add: plain_neuron_def)

end
