(* ===== verification/NeuronsStore.thy ===== *)
theory NeuronsStore
  imports NnsNeurons "HOL-Library.AList"
begin

text \<open>
  frontend/src/lib/stores/neurons.store.ts and the stores derived from it in
  frontend/src/lib/derived/neurons.derived.ts.  A JavaScript Map is an association list with distinct
  keys in insertion order: AList.update keeps the place of a key that is already there, as Map.set does.
\<close>

record NeuronsStore =
  ns_neurons :: "NeuronInfo list option"
  ns_certified :: "bool option"

definition initNeuronsStore :: NeuronsStore where
  "initNeuronsStore = \<lparr>ns_neurons = None, ns_certified = None\<rparr>"

definition setNeurons :: "NeuronInfo list \<Rightarrow> bool \<Rightarrow> NeuronsStore \<Rightarrow> NeuronsStore" where
  "setNeurons neurons certified st = \<lparr>ns_neurons = Some neurons, ns_certified = Some certified\<rparr>"

definition pushNeurons :: "NeuronInfo list \<Rightarrow> bool \<Rightarrow> NeuronsStore \<Rightarrow> NeuronsStore" where
  "pushNeurons neurons certified st =
     (let newIds = set_insertion_order (map ni_neuronId neurons)
      in \<lparr>ns_neurons = Some (filter (\<lambda>n. ni_neuronId n \<notin> set newIds) (nullish_or (ns_neurons st) []) @ neurons),
          ns_certified = Some certified\<rparr>)"

text \<open>The map over the old neurons, with the Map of the new neurons not used yet.\<close>

fun replace_known ::
  "NeuronInfo list \<Rightarrow> (int \<times> NeuronInfo) list \<Rightarrow> NeuronInfo list \<times> (int \<times> NeuronInfo) list" where
  "replace_known [] newNeurons = ([], newNeurons)"
| "replace_known (old # olds) newNeurons =
     (case map_of newNeurons (ni_neuronId old) of
        None \<Rightarrow> let (updated, rest) = replace_known olds newNeurons in (old # updated, rest)
      | Some newNeuron \<Rightarrow>
          let (updated, rest) = replace_known olds (AList.delete (ni_neuronId old) newNeurons)
          in (newNeuron # updated, rest))"

definition replaceNeurons :: "NeuronInfo list \<Rightarrow> NeuronsStore \<Rightarrow> NeuronsStore" where
  "replaceNeurons neurons st =
     (let newNeurons = foldl (\<lambda>m neuron. AList.update (ni_neuronId neuron) neuron m) [] neurons;
          (updatedNeurons, rest) =
            (case ns_neurons st of None \<Rightarrow> ([], newNeurons)
             | Some oldNeurons \<Rightarrow> replace_known oldNeurons newNeurons)
      in st\<lparr>ns_neurons := Some (updatedNeurons @ map snd rest)\<rparr>)"

definition resetNeurons :: "NeuronsStore \<Rightarrow> NeuronsStore" where
  "resetNeurons st = \<lparr>ns_neurons = None, ns_certified = None\<rparr>"

definition getNeuronById :: "NeuronsStore \<Rightarrow> int \<Rightarrow> NeuronInfo option" where
  "getNeuronById st neuronId =
     Option.bind (ns_neurons st) (List.find (\<lambda>n. ni_neuronId n = neuronId))"

definition definedNeuronsStore :: "NeuronsStore \<Rightarrow> NeuronInfo list" where
  "definedNeuronsStore st = nullish_or (map_option (filter hasValidStake) (ns_neurons st)) []"

definition sortedNeuronStore :: "NeuronsStore \<Rightarrow> NeuronInfo list" where
  "sortedNeuronStore st = sortNeuronsByStake (definedNeuronsStore st)"

definition soonLosingRewardNeuronsStore :: "int \<Rightarrow> NeuronsStore \<Rightarrow> NeuronInfo list" where
  "soonLosingRewardNeuronsStore now st = sortNeuronsByVotingPowerRefreshedTimeout
     (filter (shouldDisplayRewardLossNotification now) (definedNeuronsStore st))"

subsection \<open>Lemmas\<close>

abbreviation ids :: "NeuronInfo list \<Rightarrow> int list" where
  "ids ns \<equiv> map ni_neuronId ns"

definition entries :: "NeuronInfo list \<Rightarrow> (int \<times> NeuronInfo) list" where
  "entries ns = map (\<lambda>n. (ni_neuronId n, n)) ns"

lemma update_new_key: "k \<notin> fst ` set al \<Longrightarrow> AList.update k v al = al @ [(k, v)]"
  by (induction al) auto

lemma js_map_distinct:
  "distinct (ids (ms @ ns)) \<Longrightarrow>
     foldl (\<lambda>m n. AList.update (ni_neuronId n) n m) (entries ms) ns = entries (ms @ ns)"
proof (induction ns arbitrary: ms)
  case Nil
  then show ?case by simp
next
  case (Cons n ns)
  then have "AList.update (ni_neuronId n) n (entries ms) = entries (ms @ [n])"
    by (subst update_new_key) (auto simp: entries_def image_iff)
  with Cons.IH[of "ms @ [n]"] Cons.prems show ?case by simp
qed

lemma map_of_entries: "map_of (entries ns) i = List.find (\<lambda>n. ni_neuronId n = i) ns"
  by (induction ns) (auto simp: entries_def)

lemma delete_entries: "AList.delete i (entries ns) = entries (filter (\<lambda>n. ni_neuronId n \<noteq> i) ns)"
  by (induction ns) (auto simp: entries_def)

lemma snd_entries [simp]: "map snd (entries ns) = ns"
  by (simp add: entries_def comp_def)

lemma find_other_filter:
  "i \<noteq> j \<Longrightarrow> List.find (\<lambda>n. ni_neuronId n = i) (filter (\<lambda>n. ni_neuronId n \<noteq> j) ns) =
     List.find (\<lambda>n. ni_neuronId n = i) ns"
  by (induction ns) auto

text \<open>The reference: every old neuron in its place, replaced when there is a new one; then the rest.\<close>

definition replacement :: "NeuronInfo list \<Rightarrow> NeuronInfo \<Rightarrow> NeuronInfo" where
  "replacement ns old = nullish_or (List.find (\<lambda>n. ni_neuronId n = ni_neuronId old) ns) old"

lemma replacement_filter:
  "ni_neuronId old \<noteq> j \<Longrightarrow> replacement (filter (\<lambda>n. ni_neuronId n \<noteq> j) ns) old = replacement ns old"
  by (simp add: replacement_def find_other_filter)

lemma replace_known_eq:
  "distinct (ids olds) \<Longrightarrow> replace_known olds (entries ns) =
     (map (replacement ns) olds, entries (filter (\<lambda>n. ni_neuronId n \<notin> set (ids olds)) ns))"
proof (induction olds arbitrary: ns)
  case Nil
  then show ?case by simp
next
  case (Cons old olds)
  then have d: "distinct (ids olds)" "ni_neuronId old \<notin> set (ids olds)" by auto
  show ?case
  proof (cases "List.find (\<lambda>n. ni_neuronId n = ni_neuronId old) ns")
    case None
    then have "filter (\<lambda>n. ni_neuronId n \<notin> set (ids olds)) ns =
        filter (\<lambda>n. ni_neuronId n \<notin> set (ids (old # olds))) ns"
      by (intro filter_cong) (auto simp: find_eq_None_iff)
    with None Cons.IH[OF d(1), of ns] show ?thesis
      by (simp add: map_of_entries replacement_def)
  next
    case (Some n)
    have "map (replacement (filter (\<lambda>n. ni_neuronId n \<noteq> ni_neuronId old) ns)) olds = map (replacement ns) olds"
      using d(2) by (intro map_cong replacement_filter) (auto simp: rev_image_eqI)
    moreover have "filter (\<lambda>n. ni_neuronId n \<notin> set (ids olds)) (filter (\<lambda>n. ni_neuronId n \<noteq> ni_neuronId old) ns) =
        filter (\<lambda>n. ni_neuronId n \<notin> set (ids (old # olds))) ns"
      unfolding filter_filter by (intro filter_cong) auto
    ultimately show ?thesis
      using Some Cons.IH[OF d(1), of "filter (\<lambda>n. ni_neuronId n \<noteq> ni_neuronId old) ns"]
      by (simp add: map_of_entries delete_entries replacement_def[of _ old])
  qed
qed

lemma find_replaced:
  "List.find (\<lambda>n. ni_neuronId n = i) (map (replacement ns) olds) =
     (if i \<in> set (ids olds)
      then nullish_alt (List.find (\<lambda>n. ni_neuronId n = i) ns) (List.find (\<lambda>n. ni_neuronId n = i) olds)
      else None)"
proof (induction olds)
  case Nil
  then show ?case by simp
next
  case (Cons old olds)
  have r: "ni_neuronId (replacement ns old) = ni_neuronId old"
    by (auto simp: replacement_def nullish_or_def split: option.splits dest: find_SomeD)
  show ?case
  proof (cases "ni_neuronId old = i")
    case True
    with r show ?thesis
      by (cases "List.find (\<lambda>n. ni_neuronId n = i) ns") (simp_all add: replacement_def)
  next
    case False
    with r Cons.IH show ?thesis by auto
  qed
qed

lemma replaceNeurons_eq:
  assumes "distinct (ids neurons)" and "distinct (ids (nullish_or (ns_neurons st) []))"
  shows "ns_neurons (replaceNeurons neurons st) =
    Some (map (replacement neurons) (nullish_or (ns_neurons st) []) @
      filter (\<lambda>n. ni_neuronId n \<notin> set (ids (nullish_or (ns_neurons st) []))) neurons)"
proof -
  have m: "foldl (\<lambda>m n. AList.update (ni_neuronId n) n m) [] neurons = entries neurons"
    using js_map_distinct[of "[]" neurons] assms(1) by (simp add: entries_def)
  show ?thesis
  proof (cases "ns_neurons st")
    case None
    then show ?thesis by (simp add: replaceNeurons_def m)
  next
    case (Some olds)
    with assms(2) have "distinct (ids olds)" by simp
    from replace_known_eq[OF this] Some show ?thesis by (simp add: replaceNeurons_def m)
  qed
qed

lemma getNeuronById_eq:
  "getNeuronById st i = List.find (\<lambda>n. ni_neuronId n = i) (nullish_or (ns_neurons st) [])"
  by (cases "ns_neurons st") (simp_all add: getNeuronById_def)

lemma find_filter_key:
  "List.find (\<lambda>n. ni_neuronId n = i) (filter (\<lambda>n. ni_neuronId n \<notin> A) ns) =
     (if i \<in> A then None else List.find (\<lambda>n. ni_neuronId n = i) ns)"
  by (induction ns) auto

lemma find_ids_cases:
  obtains "i \<notin> set (ids ns)" "List.find (\<lambda>n. ni_neuronId n = i) ns = None"
  | n where "i \<in> set (ids ns)" "List.find (\<lambda>n. ni_neuronId n = i) ns = Some n"
proof (cases "List.find (\<lambda>n. ni_neuronId n = i) ns")
  case None
  then have "i \<notin> set (ids ns)" by (auto simp: find_eq_None_iff)
  with None that(1) show ?thesis by blast
next
  case (Some n)
  then have "i \<in> set (ids ns)" by (auto dest!: find_SomeD)
  with Some that(2) show ?thesis by blast
qed

subsection \<open>Properties\<close>

text \<open>
  Replacing neurons keeps every neuron of the store in its place, the new one where there is one, and
  appends those that were not known, although the loop works on a Map it empties; the certified flag
  stays.  Pushing moves the pushed neurons to the end.  After either, the neuron found for an id is the
  new one, or the old one when no new one has the id, and the ids stay distinct.
\<close>

lemma neurons_store_merges:
  assumes "distinct (ids neurons)" and "distinct (ids (nullish_or (ns_neurons st) []))"
  shows "ns_neurons (replaceNeurons neurons st) =
      Some (map (replacement neurons) (nullish_or (ns_neurons st) []) @
        filter (\<lambda>n. ni_neuronId n \<notin> set (ids (nullish_or (ns_neurons st) []))) neurons) \<and>
    ns_certified (replaceNeurons neurons st) = ns_certified st \<and>
    (\<forall>i. getNeuronById (replaceNeurons neurons st) i =
      nullish_alt (List.find (\<lambda>n. ni_neuronId n = i) neurons) (getNeuronById st i)) \<and>
    (\<forall>i. getNeuronById (pushNeurons neurons certified st) i =
      nullish_alt (List.find (\<lambda>n. ni_neuronId n = i) neurons) (getNeuronById st i)) \<and>
    distinct (ids (nullish_or (ns_neurons (replaceNeurons neurons st)) [])) \<and>
    distinct (ids (nullish_or (ns_neurons (pushNeurons neurons certified st)) []))"
proof (intro conjI allI)
  let ?olds = "nullish_or (ns_neurons st) []"
  note r = replaceNeurons_eq[OF assms]
  show "ns_neurons (replaceNeurons neurons st) = Some (map (replacement neurons) ?olds @
      filter (\<lambda>n. ni_neuronId n \<notin> set (ids ?olds)) neurons)" by (rule r)
  show "ns_certified (replaceNeurons neurons st) = ns_certified st"
    by (simp add: replaceNeurons_def Let_def split: prod.split)
  show "getNeuronById (replaceNeurons neurons st) i =
      nullish_alt (List.find (\<lambda>n. ni_neuronId n = i) neurons) (getNeuronById st i)" for i
    unfolding getNeuronById_eq r nullish_or_simps find_append find_replaced find_filter_key
    by (rule find_ids_cases[of i neurons]; rule find_ids_cases[of i ?olds]) simp_all
  show "getNeuronById (pushNeurons neurons certified st) i =
      nullish_alt (List.find (\<lambda>n. ni_neuronId n = i) neurons) (getNeuronById st i)" for i
  proof -
    have "nullish_or (ns_neurons (pushNeurons neurons certified st)) [] =
        filter (\<lambda>n. ni_neuronId n \<notin> set (ids neurons)) ?olds @ neurons"
      by (simp add: pushNeurons_def)
    then show ?thesis
      unfolding getNeuronById_eq
      by (simp only: find_append find_filter_key)
        (rule find_ids_cases[of i neurons]; rule find_ids_cases[of i ?olds]; simp)
  qed
  have "ids (map (replacement neurons) ?olds) = ids ?olds"
    by (auto simp: replacement_def nullish_or_def split: option.splits dest: find_SomeD)
  then show "distinct (ids (nullish_or (ns_neurons (replaceNeurons neurons st)) []))"
    using assms unfolding r nullish_or_simps map_append distinct_append
    by (auto simp: distinct_map_filter rev_image_eqI simp del: map_map)
  show "distinct (ids (nullish_or (ns_neurons (pushNeurons neurons certified st)) []))"
    using assms by (auto simp: pushNeurons_def distinct_map_filter)
qed

theorem neurons_store_merges_witness:
  "ns_neurons (replaceNeurons [(plain_neuron 3)\<lparr>ni_votingPower := 9\<rparr>, plain_neuron 4]
     (setNeurons [plain_neuron 5, plain_neuron 3] True initNeuronsStore)) =
   Some [plain_neuron 5, (plain_neuron 3)\<lparr>ni_votingPower := 9\<rparr>, plain_neuron 4]"
  using neurons_store_merges[of "[(plain_neuron 3)\<lparr>ni_votingPower := 9\<rparr>, plain_neuron 4]"
      "setNeurons [plain_neuron 5, plain_neuron 3] True initNeuronsStore" True]
  by (simp add: plain_neuron_def setNeurons_def initNeuronsStore_def replacement_def)

text \<open>
  The neurons table and the reward-loss list hold exactly the neurons of the store with a valid stake
  (in the second, those the notification is for), the first ordered by decreasing stake, then dissolve
  delay, then creation, the second by the time the voting power was refreshed; in both, neurons that
  compare equal keep the order of the store.
\<close>

lemma sorted_neuron_stores:
  "mset (sortedNeuronStore st) = mset (filter hasValidStake (nullish_or (ns_neurons st) [])) \<and>
   sorted_wrt (\<lambda>a b. \<not> compareNeurons b a < 0) (sortedNeuronStore st) \<and>
   filter (\<lambda>n. compareNeurons z n = 0) (sortedNeuronStore st) =
     filter (\<lambda>n. hasValidStake n \<and> compareNeurons z n = 0) (nullish_or (ns_neurons st) []) \<and>
   mset (soonLosingRewardNeuronsStore now st) = mset (filter (\<lambda>n. hasValidStake n \<and>
     shouldDisplayRewardLossNotification now n) (nullish_or (ns_neurons st) [])) \<and>
   sorted (map refreshed_or_zero (soonLosingRewardNeuronsStore now st))"
proof -
  have d: "definedNeuronsStore st = filter hasValidStake (nullish_or (ns_neurons st) [])"
    by (cases "ns_neurons st") (simp_all add: definedNeuronsStore_def)
  have tie: "by_stake.tie z = (\<lambda>n. compareNeurons z n = 0)"
    by (auto simp: fun_eq_iff by_stake.tie_def compareNeurons_def)
  have "sorted_wrt (\<lambda>a b. refreshed_or_zero a \<le> refreshed_or_zero b) (soonLosingRewardNeuronsStore now st)"
  proof (rule sorted_wrt_mono_rel)
    show "sorted_wrt (\<lambda>a b. \<not> compareRefreshed b a < 0) (soonLosingRewardNeuronsStore now st)"
      using by_refresh.sorted_js_sort
      by (simp add: soonLosingRewardNeuronsStore_def sortNeuronsByVotingPowerRefreshedTimeout_def cmp_sorted_def)
    show "\<not> compareRefreshed b a < 0 \<Longrightarrow> refreshed_or_zero a \<le> refreshed_or_zero b" for a b
      using asc_sign[of refreshed_or_zero b a] by (auto simp: compareRefreshed_def Let_def split: if_splits)
  qed
  moreover have "filter (\<lambda>n. compareNeurons z n = 0) (sortedNeuronStore st) =
      filter (\<lambda>n. hasValidStake n \<and> compareNeurons z n = 0) (nullish_or (ns_neurons st) [])"
    using by_stake.stable_js_sort[of z "definedNeuronsStore st"]
    by (simp add: sortedNeuronStore_def sortNeuronsByStake_def tie d conj_commute)
  ultimately show ?thesis
    using by_stake.sorted_js_sort
    by (simp add: sortedNeuronStore_def sortNeuronsByStake_def cmp_sorted_def d sorted_map
        soonLosingRewardNeuronsStore_def sortNeuronsByVotingPowerRefreshedTimeout_def conj_commute
        del: mset_filter)
qed

end
