(* ===== verification/JsValue.thy ===== *)
theory JsValue
  imports JsNumber
begin

text \<open>
  JavaScript values whose type the code tests at run time: what JSON.parse gives and what candid decodes.  An
  object is the list of its own fields, in order and with distinct names.
\<close>

datatype js_value =
    JsUndefined | JsNull | JsBool bool | JsNum number | JsBig int | JsStr string
  | JsArr "js_value list" | JsObj "(string \<times> js_value) list"

text \<open>typeof v === ''object'', and Object.hasOwn on it; an array has no field of a name.\<close>

fun typeof_object :: "js_value \<Rightarrow> bool" where
  "typeof_object JsNull \<longleftrightarrow> True"
| "typeof_object (JsArr xs) \<longleftrightarrow> True"
| "typeof_object (JsObj es) \<longleftrightarrow> True"
| "typeof_object _ \<longleftrightarrow> False"

fun js_field :: "js_value \<Rightarrow> string \<Rightarrow> js_value option" where
  "js_field (JsObj es) k = map_of es k"
| "js_field _ k = None"

text \<open>a === b: objects read from a text are equal to nothing but themselves.\<close>

fun strict_eq :: "js_value \<Rightarrow> js_value \<Rightarrow> bool" where
  "strict_eq (JsArr xs) b \<longleftrightarrow> False"
| "strict_eq (JsObj es) b \<longleftrightarrow> False"
| "strict_eq a b \<longleftrightarrow> a = b"

definition nullish_value :: "js_value \<Rightarrow> bool" where
  "nullish_value v \<longleftrightarrow> v = JsUndefined \<or> v = JsNull"

text \<open>
  Number(v), None for NaN.  numeric is the grammar of numbers in strings; an array of one element is
  converted through the text of the element.
\<close>

fun js_Number :: "(string \<Rightarrow> number option) \<Rightarrow> js_value \<Rightarrow> number option" where
  "js_Number numeric JsUndefined = None"
| "js_Number numeric JsNull = Some 0"
| "js_Number numeric (JsBool b) = Some (if b then 1 else 0)"
| "js_Number numeric (JsNum n) = Some n"
| "js_Number numeric (JsBig i) = Some (to_number i)"
| "js_Number numeric (JsStr s) = numeric s"
| "js_Number numeric (JsArr []) = Some 0"
| "js_Number numeric (JsArr [JsBool b]) = None"
| "js_Number numeric (JsArr [JsUndefined]) = Some 0"
| "js_Number numeric (JsArr [v]) = js_Number numeric v"
| "js_Number numeric (JsArr (v # w # xs)) = None"
| "js_Number numeric (JsObj es) = None"

text \<open>Object.entries\<close>

fun js_entries :: "js_value \<Rightarrow> (string \<times> js_value) list" where
  "js_entries (JsObj es) = es"
| "js_entries (JsArr xs) = zip (map nat_to_string [0..<length xs]) xs"
| "js_entries (JsStr s) = zip (map nat_to_string [0..<length s]) (map (\<lambda>c. JsStr [c]) s)"
| "js_entries _ = []"

end
