(* ===== verification/SnsNeurons.thy ===== *)
theory SnsNeurons
  imports NnsNeurons Utils JsValue "HOL-Library.AList"
begin

text \<open>
  frontend/src/lib/utils/sns-neuron.utils.ts and frontend/src/lib/stores/sns-neurons.store.ts.  The
  records of the SNS client library keep the fields that are read; an optional candid value ([] or [x])
  is an option; permission types are the numbers of the library's enum.  fromDefinedNullable throws on a
  missing value: functions that use it return None then.  Names that neuron.utils.ts has too carry the
  suffix _sns.  neuronSubaccount of the client library is a parameter.
\<close>

subsection \<open>Data\<close>

abbreviation (input) NEURON_PERMISSION_TYPE_UNSPECIFIED :: int where "NEURON_PERMISSION_TYPE_UNSPECIFIED \<equiv> 0"
abbreviation (input) NEURON_PERMISSION_TYPE_CONFIGURE_DISSOLVE_STATE :: int where
  "NEURON_PERMISSION_TYPE_CONFIGURE_DISSOLVE_STATE \<equiv> 1"
abbreviation (input) NEURON_PERMISSION_TYPE_MANAGE_PRINCIPALS :: int where
  "NEURON_PERMISSION_TYPE_MANAGE_PRINCIPALS \<equiv> 2"
abbreviation (input) NEURON_PERMISSION_TYPE_SUBMIT_PROPOSAL :: int where
  "NEURON_PERMISSION_TYPE_SUBMIT_PROPOSAL \<equiv> 3"
abbreviation (input) NEURON_PERMISSION_TYPE_VOTE :: int where "NEURON_PERMISSION_TYPE_VOTE \<equiv> 4"
abbreviation (input) NEURON_PERMISSION_TYPE_DISBURSE :: int where "NEURON_PERMISSION_TYPE_DISBURSE \<equiv> 5"
abbreviation (input) NEURON_PERMISSION_TYPE_SPLIT :: int where "NEURON_PERMISSION_TYPE_SPLIT \<equiv> 6"
abbreviation (input) NEURON_PERMISSION_TYPE_DISBURSE_MATURITY :: int where
  "NEURON_PERMISSION_TYPE_DISBURSE_MATURITY \<equiv> 8"
abbreviation (input) NEURON_PERMISSION_TYPE_STAKE_MATURITY :: int where
  "NEURON_PERMISSION_TYPE_STAKE_MATURITY \<equiv> 9"
abbreviation (input) NEURON_PERMISSION_TYPE_MANAGE_VOTING_PERMISSION :: int where
  "NEURON_PERMISSION_TYPE_MANAGE_VOTING_PERMISSION \<equiv> 10"

record SnsNeuronPermission =
  sp_principal :: "string option"
  sp_permission_type :: "int list"

record SnsNeuron =
  sn_id :: "nat list option"
  sn_permissions :: "SnsNeuronPermission list"
  sn_cached_neuron_stake_e8s :: int
  sn_neuron_fees_e8s :: int
  sn_maturity_e8s_equivalent :: int
  sn_staked_maturity_e8s_equivalent :: "int option"
  sn_disburse_maturity_in_progress :: "int list"
  sn_dissolve_state :: "DissolveState option"
  sn_created_timestamp_seconds :: int
  sn_aging_since_timestamp_seconds :: int
  sn_voting_power_percentage_multiplier :: int
  sn_vesting_period_seconds :: "int option"
  sn_source_nns_neuron_id :: "int option"
  sn_auto_stake_maturity :: "bool option"
  sn_followees :: "(int \<times> nat list list) list"

record SnsNervousSystemParameters =
  np_max_dissolve_delay_seconds :: "int option"
  np_max_neuron_age_for_age_bonus :: "int option"
  np_max_dissolve_delay_bonus_percentage :: "int option"
  np_max_age_bonus_percentage :: "int option"
  np_neuron_minimum_dissolve_delay_to_vote_seconds :: "int option"
  np_neuron_grantable_permissions :: "int list option"

record SnsBallot =
  sb_vote :: Vote
  sb_cast_timestamp_seconds :: int
  sb_voting_power :: int

record SnsTally =
  tl_yes :: int
  tl_no :: int
  tl_total :: int

text \<open>The action of a proposal is a variant: an object with the name of the variant as its field.\<close>

record SnsProposal =
  spr_title :: string
  spr_url :: string
  spr_summary :: string
  spr_action :: "(string \<times> js_value) list option"

text \<open>
  sd_minimum_yes_proportion fields: the percentage when it is there, and its basis points when they are there;
  sd_current_deadline is that of wait_for_quiet_state.
\<close>

record SnsProposalData =
  sd_ballots :: "(string \<times> SnsBallot) list"
  sd_proposal_creation_timestamp_seconds :: int
  sd_id :: "int option"
  sd_action :: int
  sd_proposal :: "SnsProposal option"
  sd_latest_tally :: "SnsTally option"
  sd_current_deadline :: "int option"
  sd_initial_voting_period_seconds :: int
  sd_reward_event_round :: int
  sd_reward_event_end_timestamp_seconds :: "int option"
  sd_is_eligible_for_rewards :: bool
  sd_decided_timestamp_seconds :: int
  sd_executed_timestamp_seconds :: int
  sd_failed_timestamp_seconds :: int
  sd_minimum_yes_proportion_of_total :: "int option option"
  sd_minimum_yes_proportion_of_exercised :: "int option option"

text \<open>A proposal that is open, the base of the examples.\<close>

definition plain_sns_proposal :: "int \<Rightarrow> SnsProposalData" where
  "plain_sns_proposal i = \<lparr>sd_ballots = [], sd_proposal_creation_timestamp_seconds = 9, sd_id = Some i, sd_action = 1,
     sd_proposal = None, sd_latest_tally = None, sd_current_deadline = None, sd_initial_voting_period_seconds = 100,
     sd_reward_event_round = 0, sd_reward_event_end_timestamp_seconds = None, sd_is_eligible_for_rewards = True,
     sd_decided_timestamp_seconds = 0, sd_executed_timestamp_seconds = 0, sd_failed_timestamp_seconds = 0,
     sd_minimum_yes_proportion_of_total = None, sd_minimum_yes_proportion_of_exercised = None\<rparr>"

subsection \<open>State and dissolve delay\<close>

definition getSnsNeuronState :: "int \<Rightarrow> SnsNeuron \<Rightarrow> NeuronState" where
  "getSnsNeuronState now neuron =
     (case sn_dissolve_state neuron of
        None \<Rightarrow> Dissolved
      | Some (DissolveDelaySeconds d) \<Rightarrow> if d = 0 then Dissolved else Locked
      | Some (WhenDissolvedTimestampSeconds t) \<Rightarrow> if t < now then Dissolved else Dissolving)"

definition getSnsDissolvingTimestampSeconds :: "int \<Rightarrow> SnsNeuron \<Rightarrow> int option" where
  "getSnsDissolvingTimestampSeconds now neuron =
     (case sn_dissolve_state neuron of
        Some (WhenDissolvedTimestampSeconds t) \<Rightarrow>
          if getSnsNeuronState now neuron = Dissolving then Some t else None
      | _ \<Rightarrow> None)"

definition getSnsDissolvingTimeInSeconds :: "int \<Rightarrow> SnsNeuron \<Rightarrow> int option" where
  "getSnsDissolvingTimeInSeconds now neuron =
     map_option (\<lambda>dissolvingTimestamp. dissolvingTimestamp - now) (getSnsDissolvingTimestampSeconds now neuron)"

definition getSnsLockedTimeInSeconds :: "int \<Rightarrow> SnsNeuron \<Rightarrow> int option" where
  "getSnsLockedTimeInSeconds now neuron =
     (case sn_dissolve_state neuron of
        Some (DissolveDelaySeconds d) \<Rightarrow> if getSnsNeuronState now neuron = Locked then Some d else None
      | _ \<Rightarrow> None)"

definition getSnsDissolveDelaySeconds :: "int \<Rightarrow> SnsNeuron \<Rightarrow> int" where
  "getSnsDissolveDelaySeconds now neuron =
     (let delay = nullish_or (nullish_alt (getSnsDissolvingTimeInSeconds now neuron)
            (getSnsLockedTimeInSeconds now neuron)) 0
      in if delay > 0 then delay else 0)"

subsection \<open>Stake and maturity\<close>

definition getSnsNeuronStake :: "SnsNeuron \<Rightarrow> int" where
  "getSnsNeuronStake neuron = sn_cached_neuron_stake_e8s neuron - sn_neuron_fees_e8s neuron"

definition getSnsNeuronAvailableMaturity :: "SnsNeuron \<Rightarrow> int" where
  "getSnsNeuronAvailableMaturity neuron = sn_maturity_e8s_equivalent neuron"

definition getSnsNeuronStakedMaturity :: "SnsNeuron \<Rightarrow> int" where
  "getSnsNeuronStakedMaturity neuron = nullish_or (sn_staked_maturity_e8s_equivalent neuron) 0"

text \<open>Number of the difference: only its sign matters.\<close>

definition compareSnsStake :: "SnsNeuron comparator_fun" where
  "compareSnsStake a b = sgn (getSnsNeuronStake b - getSnsNeuronStake a)"

definition sortSnsNeuronsByStake :: "SnsNeuron list \<Rightarrow> SnsNeuron list" where
  "sortSnsNeuronsByStake neurons = js_sort compareSnsStake neurons"

definition hasValidStake_sns :: "SnsNeuron \<Rightarrow> bool" where
  "hasValidStake_sns neuron \<longleftrightarrow>
     sn_cached_neuron_stake_e8s neuron + getSnsNeuronAvailableMaturity neuron +
       getSnsNeuronStakedMaturity neuron > 0"

definition minNeuronSplittable_sns :: "int \<Rightarrow> int \<Rightarrow> int" where
  "minNeuronSplittable_sns fee neuronMinimumStake = 2 * neuronMinimumStake + fee"

definition isEnoughAmountToSplit :: "int \<Rightarrow> int \<Rightarrow> int \<Rightarrow> bool" where
  "isEnoughAmountToSplit amount fee neuronMinimumStake \<longleftrightarrow> amount \<ge> neuronMinimumStake + fee"

definition hasEnoughStakeToSplit :: "SnsNeuron \<Rightarrow> int \<Rightarrow> int \<Rightarrow> bool" where
  "hasEnoughStakeToSplit neuron fee neuronMinimumStake \<longleftrightarrow>
     getSnsNeuronStake neuron \<ge> minNeuronSplittable_sns fee neuronMinimumStake"

definition hasAutoStakeMaturityOn_sns :: "SnsNeuron option \<Rightarrow> bool" where
  "hasAutoStakeMaturityOn_sns neuron = nullish_or (Option.bind neuron sn_auto_stake_maturity) False"

definition totalDisbursingMaturity :: "SnsNeuron \<Rightarrow> int" where
  "totalDisbursingMaturity neuron = reduce_sum (sn_disburse_maturity_in_progress neuron)"

definition formattedMaturity_sns :: "SnsNeuron option \<Rightarrow> string" where
  "formattedMaturity_sns neuron =
     formatTokenE8s (nullish_or (map_option sn_maturity_e8s_equivalent neuron) 0) NotDetailed None True"

definition formattedTotalMaturity_sns :: "SnsNeuron \<Rightarrow> string" where
  "formattedTotalMaturity_sns neuron =
     formatTokenE8s (sn_maturity_e8s_equivalent neuron + totalDisbursingMaturity neuron +
       nullish_or (sn_staked_maturity_e8s_equivalent neuron) 0) NotDetailed None True"

definition formattedStakedMaturity_sns :: "SnsNeuron option \<Rightarrow> string" where
  "formattedStakedMaturity_sns neuron =
     formatTokenE8s (nullish_or (Option.bind neuron sn_staked_maturity_e8s_equivalent) 0) NotDetailed None True"

definition hasEnoughMaturityToStake_sns :: "SnsNeuron option \<Rightarrow> bool" where
  "hasEnoughMaturityToStake_sns neuron \<longleftrightarrow>
     nullish_or (map_option sn_maturity_e8s_equivalent neuron) 0 > 0"

definition hasStakedMaturity :: "SnsNeuron option \<Rightarrow> bool" where
  "hasStakedMaturity neuron \<longleftrightarrow> Option.bind neuron sn_staked_maturity_e8s_equivalent \<noteq> None"

definition minimumAmountToDisburseMaturity :: "int \<Rightarrow> int" where
  "minimumAmountToDisburseMaturity fee =
     \<lceil>num_div (to_number fee) MATURITY_MODULATION_VARIANCE_PERCENTAGE\<rceil>"

definition hasEnoughMaturityToDisburse :: "SnsNeuron \<Rightarrow> int \<Rightarrow> bool" where
  "hasEnoughMaturityToDisburse neuron feeE8s \<longleftrightarrow>
     sn_maturity_e8s_equivalent neuron \<ge> minimumAmountToDisburseMaturity feeE8s"

definition needsRefresh :: "SnsNeuron \<Rightarrow> int \<Rightarrow> bool" where
  "needsRefresh neuron balanceE8s \<longleftrightarrow> balanceE8s \<noteq> sn_cached_neuron_stake_e8s neuron"

definition isCommunityFund :: "SnsNeuron \<Rightarrow> bool" where
  "isCommunityFund neuron \<longleftrightarrow> sn_source_nns_neuron_id neuron \<noteq> None"

definition vestingInSeconds :: "int \<Rightarrow> SnsNeuron \<Rightarrow> int" where
  "vestingInSeconds now neuron =
     \<lfloor>max (num_sub (num_add (to_number (sn_created_timestamp_seconds neuron))
         (to_number (nullish_or (sn_vesting_period_seconds neuron) 0))) (of_int now)) 0\<rfloor>"

definition isVesting :: "int \<Rightarrow> SnsNeuron \<Rightarrow> bool" where
  "isVesting now neuron \<longleftrightarrow> vestingInSeconds now neuron > 0"

subsection \<open>Ids\<close>

definition subaccountToHexString :: "nat list \<Rightarrow> string" where
  "subaccountToHexString subaccount = bytesToHexString subaccount"

definition getSnsNeuronIdAsHexString :: "SnsNeuron \<Rightarrow> string" where
  "getSnsNeuronIdAsHexString neuron = subaccountToHexString (nullish_or (sn_id neuron) [])"

definition getSnsNeuronByHexId :: "string \<Rightarrow> SnsNeuron list option \<Rightarrow> SnsNeuron option" where
  "getSnsNeuronByHexId neuronIdHex neurons =
     Option.bind neurons (List.find (\<lambda>neuron. getSnsNeuronIdAsHexString neuron = neuronIdHex))"

definition MAX_NEURONS_SUBACCOUNTS :: nat where
  "MAX_NEURONS_SUBACCOUNTS = 2 ^ 16"

text \<open>The loop over the indexes, with the indexes left; Inl: NextMemoNotFoundError.\<close>

datatype NextMemoNotFoundError = NextMemoNotFoundError

fun nextMemo_loop ::
  "(string \<Rightarrow> nat \<Rightarrow> nat list) \<Rightarrow> string \<Rightarrow> SnsNeuron list \<Rightarrow> nat list \<Rightarrow> NextMemoNotFoundError + int" where
  "nextMemo_loop neuronSubaccount controller neurons [] = Inl NextMemoNotFoundError"
| "nextMemo_loop neuronSubaccount controller neurons (index # indexes) =
     (if getSnsNeuronByHexId (subaccountToHexString (neuronSubaccount controller index)) (Some neurons) = None
      then Inr (int index)
      else nextMemo_loop neuronSubaccount controller neurons indexes)"

definition nextMemo ::
  "(string \<Rightarrow> nat \<Rightarrow> nat list) \<Rightarrow> string \<Rightarrow> SnsNeuron list \<Rightarrow> NextMemoNotFoundError + int" where
  "nextMemo neuronSubaccount controller neurons =
     nextMemo_loop neuronSubaccount controller neurons [0..<MAX_NEURONS_SUBACCOUNTS]"

subsection \<open>Permissions\<close>

definition HOTKEY_PERMISSIONS :: "int list" where
  "HOTKEY_PERMISSIONS = [NEURON_PERMISSION_TYPE_VOTE, NEURON_PERMISSION_TYPE_SUBMIT_PROPOSAL]"

definition MANAGE_HOTKEY_PERMISSIONS :: "int list" where
  "MANAGE_HOTKEY_PERMISSIONS =
     [NEURON_PERMISSION_TYPE_MANAGE_VOTING_PERMISSION, NEURON_PERMISSION_TYPE_MANAGE_PRINCIPALS]"

text \<open>
  The identity is the text of its principal.  Boolean(permissions.find(...)) is false for the number 0.
\<close>

definition hasPermissions :: "SnsNeuron \<Rightarrow> string option \<Rightarrow> int list \<Rightarrow> bool \<Rightarrow> bool" where
  "hasPermissions neuron identity permissions anyPermission =
     (case (sn_id neuron, identity) of
        (Some _, Some principalAsText) \<Rightarrow>
          (let principalPermissions = nullish_or (map_option sp_permission_type
                 (List.find (\<lambda>p. sp_principal p = Some principalAsText) (sn_permissions neuron))) []
           in if anyPermission
              then (case List.find (\<lambda>permission. permission \<in> set principalPermissions) permissions of
                      None \<Rightarrow> False | Some permission \<Rightarrow> permission \<noteq> 0)
              else \<not> (\<exists>permission\<in>set permissions. permission \<notin> set principalPermissions))
      | _ \<Rightarrow> False)"

definition hasPermissionToDisburse :: "SnsNeuron \<Rightarrow> string option \<Rightarrow> bool" where
  "hasPermissionToDisburse neuron identity =
     hasPermissions neuron identity [NEURON_PERMISSION_TYPE_DISBURSE] False"

definition hasPermissionToDissolve :: "SnsNeuron \<Rightarrow> string option \<Rightarrow> bool" where
  "hasPermissionToDissolve neuron identity =
     hasPermissions neuron identity [NEURON_PERMISSION_TYPE_CONFIGURE_DISSOLVE_STATE] False"

definition hasPermissionToVote :: "SnsNeuron \<Rightarrow> string option \<Rightarrow> bool" where
  "hasPermissionToVote neuron identity = hasPermissions neuron identity [NEURON_PERMISSION_TYPE_VOTE] False"

definition hasPermissionToStakeMaturity :: "SnsNeuron \<Rightarrow> string option \<Rightarrow> bool" where
  "hasPermissionToStakeMaturity neuron identity =
     hasPermissions neuron identity [NEURON_PERMISSION_TYPE_STAKE_MATURITY] False"

definition hasPermissionToDisburseMaturity :: "SnsNeuron \<Rightarrow> string option \<Rightarrow> bool" where
  "hasPermissionToDisburseMaturity neuron identity =
     hasPermissions neuron identity [NEURON_PERMISSION_TYPE_DISBURSE_MATURITY] False"

definition hasPermissionToSplit :: "SnsNeuron \<Rightarrow> string option \<Rightarrow> bool" where
  "hasPermissionToSplit neuron identity = hasPermissions neuron identity [NEURON_PERMISSION_TYPE_SPLIT] False"

text \<open>None: fromDefinedNullable throws.\<close>

definition canIdentityManageHotkeys ::
  "SnsNeuron \<Rightarrow> string option \<Rightarrow> SnsNervousSystemParameters \<Rightarrow> bool option" where
  "canIdentityManageHotkeys neuron identity parameters =
     map_option (\<lambda>grantable.
         hasPermissions neuron identity MANAGE_HOTKEY_PERMISSIONS True \<and>
         (\<forall>permission\<in>set HOTKEY_PERMISSIONS. permission \<in> set grantable))
       (np_neuron_grantable_permissions parameters)"

definition comparePermissions :: "int list \<Rightarrow> int list \<Rightarrow> bool" where
  "comparePermissions a b \<longleftrightarrow> length a = length b \<and> (\<forall>permission\<in>set a. permission \<in> set b)"

definition getSnsNeuronHotkeys :: "SnsNeuron \<Rightarrow> string list" where
  "getSnsNeuronHotkeys neuron =
     (let hotkeyPermissions = [HOTKEY_PERMISSIONS,
            HOTKEY_PERMISSIONS @ [NEURON_PERMISSION_TYPE_MANAGE_VOTING_PERMISSION]]
      in List.map_filter sp_principal
           (filter (\<lambda>p. List.find (\<lambda>aHotkeyPermissions.
                comparePermissions (sp_permission_type p) aHotkeyPermissions) hotkeyPermissions \<noteq> None)
             (sn_permissions neuron)))"

definition isUserHotkey :: "SnsNeuron \<Rightarrow> string option \<Rightarrow> bool" where
  "isUserHotkey neuron identity =
     (case identity of None \<Rightarrow> False | Some p \<Rightarrow> p \<in> set (getSnsNeuronHotkeys neuron))"

definition getSnsNeuronTags :: "SnsNeuron \<Rightarrow> string option \<Rightarrow> NeuronTag list" where
  "getSnsNeuronTags neuron identity =
     (if isCommunityFund neuron then [CommunityFundTag]
      else if isUserHotkey neuron identity then [HotkeyControlTag] else [])"

subsection \<open>Followees\<close>

text \<open>The last entry of the function decides.\<close>

definition followeesByFunction :: "SnsNeuron \<Rightarrow> int \<Rightarrow> nat list list" where
  "followeesByFunction neuron functionId =
     foldl (\<lambda>functionFollowees (currentFunctionId, followees).
         if currentFunctionId = functionId then followees else functionFollowees) []
       (sn_followees neuron)"

record SnsNervousSystemFunction =
  sf_id :: int
  sf_name :: string
  sf_description :: "string option"

record SnsFolloweesByNeuron =
  sfn_neuronIdHex :: string
  sfn_nsFunctions :: "SnsNervousSystemFunction list"

text \<open>
  The dictionary keeps its keys in insertion order: the hex strings of ids are not array indexes.
\<close>

definition push_function ::
  "SnsNervousSystemFunction \<Rightarrow> (string \<times> SnsNervousSystemFunction list) list \<Rightarrow> nat list \<Rightarrow>
     (string \<times> SnsNervousSystemFunction list) list" where
  "push_function nsFunction acc followee =
     (let followeeHex = subaccountToHexString followee
      in AList.update followeeHex (nullish_or (map_of acc followeeHex) [] @ [nsFunction]) acc)"

definition followeesByNeuronId ::
  "SnsNeuron \<Rightarrow> SnsNervousSystemFunction list \<Rightarrow> SnsFolloweesByNeuron list" where
  "followeesByNeuronId neuron nsFunctions =
     map (\<lambda>(neuronIdHex, fs). \<lparr>sfn_neuronIdHex = neuronIdHex, sfn_nsFunctions = fs\<rparr>)
       (foldl (\<lambda>acc (functionId, followees).
           case List.find (\<lambda>f. sf_id f = functionId) nsFunctions of
             None \<Rightarrow> acc
           | Some nsFunction \<Rightarrow> foldl (push_function nsFunction) acc followees) []
         (sn_followees neuron))"

subsection \<open>Voting power\<close>

definition neuronAge_sns :: "int \<Rightarrow> SnsNeuron \<Rightarrow> int" where
  "neuronAge_sns now neuron =
     \<lfloor>max (num_sub (of_int now) (to_number (sn_aging_since_timestamp_seconds neuron))) 0\<rfloor>"

text \<open>Number(percentage) / 100\<close>

definition percent :: "int \<Rightarrow> number" where
  "percent p = num_div (to_number p) 100"

definition snsNeuronVotingPower ::
  "int \<Rightarrow> SnsNeuron \<Rightarrow> SnsNervousSystemParameters \<Rightarrow> int option \<Rightarrow> number option" where
  "snsNeuronVotingPower now neuron snsParameters newDissolveDelayInSeconds =
     (case (np_max_dissolve_delay_seconds snsParameters, np_max_neuron_age_for_age_bonus snsParameters,
            np_max_dissolve_delay_bonus_percentage snsParameters, np_max_age_bonus_percentage snsParameters,
            np_neuron_minimum_dissolve_delay_to_vote_seconds snsParameters) of
        (Some maxDelay, Some maxAge, Some maxDelayBonus, Some maxAgeBonus, Some minDelay) \<Rightarrow>
          (let dissolveDelayInSeconds =
                 nullish_or newDissolveDelayInSeconds (getSnsDissolveDelaySeconds now neuron)
           in if dissolveDelayInSeconds < minDelay then Some 0
              else
                let dissolveDelay = (if dissolveDelayInSeconds < maxDelay then dissolveDelayInSeconds else maxDelay);
                    stakeE8s = \<lfloor>max (to_number (getSnsNeuronStake neuron +
                      nullish_or (sn_staked_maturity_e8s_equivalent neuron) 0)) 0\<rfloor>;
                    vp = to_number (votingPower stakeE8s dissolveDelay (neuronAge_sns now neuron)
                      \<lparr>vp_maxAgeBonus = Some (percent maxAgeBonus),
                       vp_maxDissolveDelayBonus = Some (percent maxDelayBonus),
                       vp_maxAgeSeconds = Some (to_number maxAge),
                       vp_maxDissolveDelaySeconds = Some (to_number maxDelay),
                       vp_minDissolveDelaySeconds = Some (to_number minDelay)\<rparr>)
                in Some (of_int (math_round
                     (num_mul vp (percent (sn_voting_power_percentage_multiplier neuron))))))
      | _ \<Rightarrow> None)"

definition dissolveDelayMultiplier_sns ::
  "int \<Rightarrow> SnsNeuron \<Rightarrow> SnsNervousSystemParameters \<Rightarrow> number option" where
  "dissolveDelayMultiplier_sns now neuron snsParameters =
     (case (np_neuron_minimum_dissolve_delay_to_vote_seconds snsParameters,
            np_max_dissolve_delay_seconds snsParameters,
            np_max_dissolve_delay_bonus_percentage snsParameters) of
        (Some minDelay, Some maxDelay, Some maxDelayBonus) \<Rightarrow>
          (let dissolveDelayInSeconds = getSnsDissolveDelaySeconds now neuron;
               dissolveDelay = (if dissolveDelayInSeconds < maxDelay then dissolveDelayInSeconds else maxDelay)
           in if dissolveDelay < minDelay then Some 0
              else Some (bonusMultiplier dissolveDelay (to_number maxDelay) (percent maxDelayBonus)))
      | _ \<Rightarrow> None)"

definition ageMultiplier_sns :: "int \<Rightarrow> SnsNeuron \<Rightarrow> SnsNervousSystemParameters \<Rightarrow> number option" where
  "ageMultiplier_sns now neuron snsParameters =
     (case (np_max_age_bonus_percentage snsParameters, np_max_neuron_age_for_age_bonus snsParameters) of
        (Some maxAgeBonus, Some maxAge) \<Rightarrow>
          Some (bonusMultiplier (neuronAge_sns now neuron) (to_number maxAge) (percent maxAgeBonus))
      | _ \<Rightarrow> None)"

subsection \<open>Ballots\<close>

definition ballotVotingPower :: "SnsProposalData \<Rightarrow> SnsNeuron \<Rightarrow> int" where
  "ballotVotingPower proposal neuron =
     nullish_or (map_option (\<lambda>(_, ballot). sb_voting_power ballot)
       (List.find (\<lambda>(ballotNeuronId, _). ballotNeuronId = getSnsNeuronIdAsHexString neuron)
         (sd_ballots proposal))) 0"

definition getSnsNeuronVote :: "SnsNeuron \<Rightarrow> SnsProposalData \<Rightarrow> Vote option" where
  "getSnsNeuronVote neuron proposal =
     map_option (\<lambda>(_, ballot). sb_vote ballot)
       (List.find (\<lambda>(ballotNeuronId, _). ballotNeuronId = getSnsNeuronIdAsHexString neuron)
         (sd_ballots proposal))"

definition snsNeuronsIneligibilityReasons ::
  "SnsNeuron \<Rightarrow> SnsProposalData \<Rightarrow> string option \<Rightarrow> NeuronIneligibilityReason option" where
  "snsNeuronsIneligibilityReasons neuron proposal identity =
     (if sn_created_timestamp_seconds neuron > sd_proposal_creation_timestamp_seconds proposal
      then Some IneligibleSince
      else if \<not> hasPermissionToVote neuron identity then Some NoPermission
      else if List.find (\<lambda>(ballotNeuronId, _). ballotNeuronId = getSnsNeuronIdAsHexString neuron)
          (sd_ballots proposal) = None
      then Some IneligibleShort
      else None)"

definition ineligibleSnsNeurons ::
  "SnsNeuron list \<Rightarrow> SnsProposalData \<Rightarrow> string option \<Rightarrow> SnsNeuron list" where
  "ineligibleSnsNeurons neurons proposal identity =
     filter (\<lambda>neuron. snsNeuronsIneligibilityReasons neuron proposal identity \<noteq> None) neurons"

definition votableSnsNeurons ::
  "SnsNeuron list \<Rightarrow> SnsProposalData \<Rightarrow> string option \<Rightarrow> SnsNeuron list" where
  "votableSnsNeurons neurons proposal identity =
     filter (\<lambda>neuron.
         let ineligibleReason = snsNeuronsIneligibilityReasons neuron proposal identity;
             votes = map (\<lambda>(_, ballot). sb_vote ballot)
               (filter (\<lambda>(ballotNeuronId, _). getSnsNeuronIdAsHexString neuron = ballotNeuronId)
                 (sd_ballots proposal));
             vote = (case votes of [] \<Rightarrow> None | v # _ \<Rightarrow> Some v)
         in ineligibleReason = None \<and> vote = Some VoteUnspecified) neurons"

definition votedSnsNeurons :: "SnsNeuron list \<Rightarrow> SnsProposalData \<Rightarrow> SnsNeuron list" where
  "votedSnsNeurons neurons proposal =
     (let votedNeuronIds = set_insertion_order (map fst
            (filter (\<lambda>(_, ballot). sb_vote ballot = VoteYes \<or> sb_vote ballot = VoteNo) (sd_ballots proposal)))
      in filter (\<lambda>neuron. getSnsNeuronIdAsHexString neuron \<in> set votedNeuronIds) neurons)"

definition votedSnsNeuronDetails :: "SnsNeuron list \<Rightarrow> SnsProposalData \<Rightarrow> CompactNeuronInfo list" where
  "votedSnsNeuronDetails neurons proposal =
     List.map_filter (\<lambda>neuron. map_option (\<lambda>vote. \<lparr>cn_idString = getSnsNeuronIdAsHexString neuron,
         cn_votingPower = ballotVotingPower proposal neuron, cn_vote = vote\<rparr>)
         (getSnsNeuronVote neuron proposal))
       (votedSnsNeurons neurons proposal)"

definition snsNeuronsToIneligibleNeuronData ::
  "SnsNeuron list \<Rightarrow> SnsProposalData \<Rightarrow> string option \<Rightarrow> IneligibleNeuronData list" where
  "snsNeuronsToIneligibleNeuronData neurons proposal identity =
     map (\<lambda>neuron. \<lparr>in_neuronIdString = getSnsNeuronIdAsHexString neuron,
       in_reason = snsNeuronsIneligibilityReasons neuron proposal identity\<rparr>) neurons"

subsection \<open>sns-neurons.store.ts\<close>

record ProjectNeuronStore =
  pn_neurons :: "SnsNeuron list"
  pn_certified :: "bool option"

type_synonym SnsNeuronsStore = "string \<rightharpoonup> ProjectNeuronStore"

definition setNeurons_sns ::
  "string \<Rightarrow> SnsNeuron list \<Rightarrow> bool option \<Rightarrow> SnsNeuronsStore \<Rightarrow> SnsNeuronsStore" where
  "setNeurons_sns rootCanisterId neurons certified currentState =
     currentState(rootCanisterId \<mapsto> \<lparr>pn_neurons = neurons, pn_certified = certified\<rparr>)"

definition addNeurons ::
  "string \<Rightarrow> SnsNeuron list \<Rightarrow> bool option \<Rightarrow> SnsNeuronsStore \<Rightarrow> SnsNeuronsStore" where
  "addNeurons rootCanisterId neurons certified currentState =
     (let newIds = set_insertion_order (map getSnsNeuronIdAsHexString neurons)
      in currentState(rootCanisterId \<mapsto>
           \<lparr>pn_neurons = neurons @ nullish_or (map_option (\<lambda>p.
                filter (\<lambda>neuron. getSnsNeuronIdAsHexString neuron \<notin> set newIds) (pn_neurons p))
              (currentState rootCanisterId)) [],
            pn_certified = certified\<rparr>))"

definition resetProject :: "string \<Rightarrow> SnsNeuronsStore \<Rightarrow> SnsNeuronsStore" where
  "resetProject rootCanisterId currentState = currentState(rootCanisterId := None)"

definition resetSnsNeurons :: "SnsNeuronsStore \<Rightarrow> SnsNeuronsStore" where
  "resetSnsNeurons currentState = Map.empty"

subsection \<open>Lemmas\<close>

interpretation by_sns_stake: comparator compareSnsStake
proof
  show "compareSnsStake y x < 0 \<longleftrightarrow> 0 < compareSnsStake x y" for x y
    by (auto simp: compareSnsStake_def sgn_if)
  show "\<lbrakk>compareSnsStake x y \<le> 0; compareSnsStake y z \<le> 0\<rbrakk> \<Longrightarrow> compareSnsStake x z \<le> 0" for x y z
    by (auto simp: compareSnsStake_def sgn_if split: if_splits)
qed

lemma getSnsNeuronByHexId_None:
  "getSnsNeuronByHexId h (Some neurons) = None \<longleftrightarrow> h \<notin> getSnsNeuronIdAsHexString ` set neurons"
  by (auto simp: getSnsNeuronByHexId_def find_eq_None_iff)

text \<open>The hex id of the neuron of an index, and the first index that no neuron has.\<close>

abbreviation hex_of :: "(string \<Rightarrow> nat \<Rightarrow> nat list) \<Rightarrow> string \<Rightarrow> nat \<Rightarrow> string" where
  "hex_of sub c i \<equiv> subaccountToHexString (sub c i)"

lemma nextMemo_loop_finds:
  assumes "\<exists>i\<in>set is. hex_of sub c i \<notin> getSnsNeuronIdAsHexString ` set neurons"
  shows "\<exists>us i vs. is = us @ i # vs \<and> nextMemo_loop sub c neurons is = Inr (int i) \<and>
    hex_of sub c i \<notin> getSnsNeuronIdAsHexString ` set neurons \<and>
    hex_of sub c ` set us \<subseteq> getSnsNeuronIdAsHexString ` set neurons"
  using assms
proof (induction "is")
  case Nil
  then show ?case by simp
next
  case (Cons i "is")
  show ?case
  proof (cases "hex_of sub c i \<in> getSnsNeuronIdAsHexString ` set neurons")
    case False
    then show ?thesis
      by (intro exI[of _ "[]"] exI[of _ i] exI[of _ "is"]) (simp add: getSnsNeuronByHexId_None)
  next
    case True
    with Cons.prems have "\<exists>i\<in>set is. hex_of sub c i \<notin> getSnsNeuronIdAsHexString ` set neurons" by auto
    from Cons.IH[OF this] obtain us j vs where *: "is = us @ j # vs"
      "nextMemo_loop sub c neurons is = Inr (int j)"
      "hex_of sub c j \<notin> getSnsNeuronIdAsHexString ` set neurons"
      "hex_of sub c ` set us \<subseteq> getSnsNeuronIdAsHexString ` set neurons" by blast
    from True getSnsNeuronByHexId_None[of "hex_of sub c i" neurons] have
      "nextMemo_loop sub c neurons (i # is) = nextMemo_loop sub c neurons is"
      by (simp only: nextMemo_loop.simps) simp
    with True * show ?thesis by (intro exI[of _ "i # us"] exI[of _ j] exI[of _ vs]) simp
  qed
qed

lemma comparePermissions_distinct:
  assumes "distinct a" and "distinct b"
  shows "comparePermissions a b \<longleftrightarrow> set a = set b"
proof
  assume "comparePermissions a b"
  then have "set a \<subseteq> set b" "card (set a) = card (set b)"
    using assms by (auto simp: comparePermissions_def distinct_card)
  then show "set a = set b" by (intro card_subset_eq) auto
next
  assume "set a = set b"
  then show "comparePermissions a b"
    using assms by (auto simp: comparePermissions_def distinct_card[symmetric])
qed

lemma set_map_filter_iff: "x \<in> set (List.map_filter f xs) \<longleftrightarrow> (\<exists>y\<in>set xs. f y = Some x)"
  by (induction xs) (auto simp: List.map_filter_simps split: option.splits)

lemma hotkeys_iff:
  "p \<in> set (getSnsNeuronHotkeys neuron) \<longleftrightarrow>
     (\<exists>q\<in>set (sn_permissions neuron). sp_principal q = Some p \<and>
       (comparePermissions (sp_permission_type q) [4, 3] \<or> comparePermissions (sp_permission_type q) [4, 3, 10]))"
proof -
  have f: "List.find P [x, y] \<noteq> None \<longleftrightarrow> P x \<or> P y" for P and x y :: "int list" by simp
  have "getSnsNeuronHotkeys neuron = List.map_filter sp_principal (filter (\<lambda>q.
      comparePermissions (sp_permission_type q) [4, 3] \<or> comparePermissions (sp_permission_type q) [4, 3, 10])
      (sn_permissions neuron))"
    unfolding getSnsNeuronHotkeys_def HOTKEY_PERMISSIONS_def Let_def f by simp
  then show ?thesis by (auto simp: set_map_filter_iff)
qed

lemma find_pair_key:
  assumes "distinct (map fst ps)" and "(k, v) \<in> set ps"
  shows "List.find (\<lambda>(i, _). i = k) ps = Some (k, v)"
  using assms by (induction ps) (auto simp: rev_image_eqI)

lemma filter_key_unique:
  "distinct (map fst ps) \<Longrightarrow> filter (\<lambda>(i, _). k = i) ps =
     (case List.find (\<lambda>(i, _). i = k) ps of None \<Rightarrow> [] | Some p \<Rightarrow> [p])"
proof (induction ps)
  case Nil
  then show ?case by simp
next
  case (Cons p ps)
  obtain i v where p: "p = (i, v)" by (cases p)
  with Cons.prems have "k = i \<Longrightarrow> filter (\<lambda>(i, _). k = i) ps = []"
    by (auto simp: filter_empty_conv rev_image_eqI)
  with Cons p show ?case by auto
qed

lemma voted_iff:
  "neuron \<in> set (votedSnsNeurons neurons proposal) \<longleftrightarrow> neuron \<in> set neurons \<and>
     (\<exists>b. (getSnsNeuronIdAsHexString neuron, b) \<in> set (sd_ballots proposal) \<and> sb_vote b \<noteq> VoteUnspecified)"
proof -
  have v: "(v = VoteYes \<or> v = VoteNo) \<longleftrightarrow> v \<noteq> VoteUnspecified" for v by (cases v) auto
  show ?thesis by (auto simp: votedSnsNeurons_def v image_iff)
qed

text \<open>The ballot of an eligible neuron decides between voting and having voted.\<close>

lemma eligible_ballot:
  assumes "snsNeuronsIneligibilityReasons neuron proposal identity = None"
  obtains b where "List.find (\<lambda>(i, _). i = getSnsNeuronIdAsHexString neuron) (sd_ballots proposal) =
      Some (getSnsNeuronIdAsHexString neuron, b)"
    and "(getSnsNeuronIdAsHexString neuron, b) \<in> set (sd_ballots proposal)"
proof -
  have "List.find (\<lambda>(i, _). i = getSnsNeuronIdAsHexString neuron) (sd_ballots proposal) \<noteq> None"
    using assms by (auto simp: snsNeuronsIneligibilityReasons_def split: if_splits)
  then obtain p where p: "List.find (\<lambda>(i, _). i = getSnsNeuronIdAsHexString neuron) (sd_ballots proposal) = Some p"
    by auto
  from find_SomeD[OF p] have "p \<in> set (sd_ballots proposal)" "fst p = getSnsNeuronIdAsHexString neuron"
    by (auto simp: case_prod_beta)
  with p that show ?thesis by (cases p) auto
qed

lemma votable_iff:
  assumes d: "distinct (map fst (sd_ballots proposal))"
    and e: "snsNeuronsIneligibilityReasons neuron proposal identity = None"
  shows "neuron \<in> set (votableSnsNeurons neurons proposal identity) \<longleftrightarrow>
    neuron \<in> set neurons \<and> neuron \<notin> set (votedSnsNeurons neurons proposal)"
proof -
  from e obtain b where f: "List.find (\<lambda>(i, _). i = getSnsNeuronIdAsHexString neuron) (sd_ballots proposal) =
      Some (getSnsNeuronIdAsHexString neuron, b)"
    and b: "(getSnsNeuronIdAsHexString neuron, b) \<in> set (sd_ballots proposal)"
    by (rule eligible_ballot)
  have "b' = b" if "(getSnsNeuronIdAsHexString neuron, b') \<in> set (sd_ballots proposal)" for b'
    using map_of_is_SomeI[OF d that] map_of_is_SomeI[OF d b] by simp
  with b have "neuron \<in> set (votedSnsNeurons neurons proposal) \<longleftrightarrow>
      neuron \<in> set neurons \<and> sb_vote b \<noteq> VoteUnspecified"
    unfolding voted_iff by blast
  moreover have "neuron \<in> set (votableSnsNeurons neurons proposal identity) \<longleftrightarrow>
      neuron \<in> set neurons \<and> sb_vote b = VoteUnspecified"
    by (simp add: votableSnsNeurons_def Let_def e filter_key_unique[OF d] f)
  ultimately show ?thesis by blast
qed

lemma mset_filter_three:
  "mset (filter (\<lambda>x. E x \<and> \<not> V x) xs) + mset (filter (\<lambda>x. \<not> E x) xs) + mset (filter E (filter V xs)) = mset xs"
  by (induction xs) (auto simp del: mset_filter filter_filter)

lemma filter_votable:
  assumes "distinct (map fst (sd_ballots proposal))"
  shows "votableSnsNeurons neurons proposal identity =
    filter (\<lambda>n. snsNeuronsIneligibilityReasons n proposal identity = None \<and>
      n \<notin> set (votedSnsNeurons [n] proposal)) neurons"
proof -
  have "votableSnsNeurons neurons proposal identity =
      filter (\<lambda>n. n \<in> set (votableSnsNeurons [n] proposal identity)) neurons"
    by (simp add: votableSnsNeurons_def Let_def)
  also have "\<dots> = filter (\<lambda>n. snsNeuronsIneligibilityReasons n proposal identity = None \<and>
      n \<notin> set (votedSnsNeurons [n] proposal)) neurons"
  proof (rule filter_cong)
    fix n
    show "n \<in> set (votableSnsNeurons [n] proposal identity) \<longleftrightarrow>
        snsNeuronsIneligibilityReasons n proposal identity = None \<and> n \<notin> set (votedSnsNeurons [n] proposal)"
    proof (cases "snsNeuronsIneligibilityReasons n proposal identity = None")
      case True
      with votable_iff[OF assms True, of "[n]"] show ?thesis by simp
    next
      case False
      then show ?thesis by (auto simp: votableSnsNeurons_def Let_def)
    qed
  qed simp
  finally show ?thesis .
qed

lemma filter_voted:
  "votedSnsNeurons neurons proposal = filter (\<lambda>n. n \<in> set (votedSnsNeurons [n] proposal)) neurons"
  unfolding votedSnsNeurons_def Let_def by (intro filter_cong) auto

lemma nonneg_multiplier:
  assumes "0 \<le> a" and "0 \<le> m" and "0 \<le> x"
  shows "0 \<le> bonusMultiplier a m x"
proof (cases "m = 0")
  case True
  then show ?thesis by (simp add: bonusMultiplier_def num_add_def num_mul_def)
next
  case False
  with assms bonus_lower[of a m x] show ?thesis by linarith
qed

lemma mono_multiplier:
  assumes "a \<le> b" and "0 \<le> m" and "0 \<le> x"
  shows "bonusMultiplier a m x \<le> bonusMultiplier b m x"
  using assms bonus_mono[of a b m x] by (cases "m = 0") (simp_all add: bonusMultiplier_def)

lemma votingPower_delay_mono:
  fixes mn :: number
  assumes "0 \<le> stake" and "0 \<le> d" and "d \<le> d'" and "0 \<le> age" and "0 \<le> mab" and "0 \<le> mdb"
    and "0 \<le> mas" and "0 \<le> mds"
  defines "p \<equiv> \<lparr>vp_maxAgeBonus = Some mab, vp_maxDissolveDelayBonus = Some mdb, vp_maxAgeSeconds = Some mas,
     vp_maxDissolveDelaySeconds = Some mds, vp_minDissolveDelaySeconds = Some mn\<rparr>"
  shows "0 \<le> votingPower stake d age p" and "votingPower stake d age p \<le> votingPower stake d' age p"
proof -
  define f where "f x = num_mul (num_mul (to_number stake) (bonusMultiplier x mds mdb)) (bonusMultiplier age mas mab)"
    for x
  have f: "0 \<le> f x" if "0 \<le> x" for x
    using that assms by (auto simp: f_def intro!: num_mul_nonneg nonneg_multiplier to_number_nonneg)
  have nn: "0 \<le> math_round (f x)" if "0 \<le> x" for x
  proof -
    have "math_round (of_int 0) \<le> math_round (f x)" using f[OF that] by (intro math_round_mono) simp
    then show ?thesis by (simp only: math_round_of_int)
  qed
  have "f d \<le> f d'"
    using assms by (auto simp: f_def intro!: num_mul_mono num_mul_nonneg nonneg_multiplier mono_multiplier
        to_number_nonneg)
  then have m: "math_round (f d) \<le> math_round (f d')" by (rule math_round_mono)
  have v: "votingPower stake x age p = (if of_int x < mn then 0 else math_round (f x))" for x
    by (simp add: votingPower_def p_def f_def)
  show "0 \<le> votingPower stake d age p" using nn assms(2) by (simp add: v)
  have "of_int d \<le> (of_int d' :: rat)" using assms(3) by simp
  with m nn[of d'] assms(2,3) show "votingPower stake d age p \<le> votingPower stake d' age p"
    by (auto simp: v)
qed

text \<open>A neuron with the permissions of its controller, the base of the examples.\<close>

definition plain_sns :: "nat list \<Rightarrow> SnsNeuronPermission list \<Rightarrow> SnsNeuron" where
  "plain_sns i perms = \<lparr>sn_id = Some i, sn_permissions = perms, sn_cached_neuron_stake_e8s = 100000000,
     sn_neuron_fees_e8s = 0, sn_maturity_e8s_equivalent = 0, sn_staked_maturity_e8s_equivalent = None,
     sn_disburse_maturity_in_progress = [], sn_dissolve_state = Some (DissolveDelaySeconds 1000),
     sn_created_timestamp_seconds = 5, sn_aging_since_timestamp_seconds = 5,
     sn_voting_power_percentage_multiplier = 100, sn_vesting_period_seconds = None,
     sn_source_nns_neuron_id = None, sn_auto_stake_maturity = None, sn_followees = []\<rparr>"

subsection \<open>Properties\<close>

text \<open>
  As long as the subaccounts of different indexes differ and not all 65536 are taken, nextMemo returns,
  and it returns the first index whose subaccount is the id of none of the neurons.
\<close>

lemma nextMemo_correct:
  assumes "inj_on (sub c) {..<65536}" and "\<forall>i. \<forall>b\<in>set (sub c i). b < 256" and "length neurons < 65536"
  shows "\<exists>n. nextMemo sub c neurons = Inr (int n) \<and> n \<le> length neurons \<and>
    hex_of sub c n \<notin> getSnsNeuronIdAsHexString ` set neurons \<and>
    hex_of sub c ` {..<n} \<subseteq> getSnsNeuronIdAsHexString ` set neurons"
proof -
  have "inj_on (hex_of sub c) {..<65536}"
    using assms(1,2) by (auto simp: inj_on_def subaccountToHexString_def bytesToHexString_inject)
  then have card: "card (hex_of sub c ` A) = card A" if "A \<subseteq> {..<65536}" for A
    using that by (meson card_image inj_on_subset)
  have ids: "card (getSnsNeuronIdAsHexString ` set neurons) \<le> length neurons"
    by (meson card_image_le card_length finite_set le_trans)
  have "\<not> hex_of sub c ` {..<65536} \<subseteq> getSnsNeuronIdAsHexString ` set neurons"
  proof
    assume "hex_of sub c ` {..<65536} \<subseteq> getSnsNeuronIdAsHexString ` set neurons"
    then have "card (hex_of sub c ` {..<65536}) \<le> card (getSnsNeuronIdAsHexString ` set neurons)"
      by (intro card_mono) auto
    with card[of "{..<65536}"] ids assms(3) show False by simp
  qed
  then have "\<exists>i\<in>set [0..<65536]. hex_of sub c i \<notin> getSnsNeuronIdAsHexString ` set neurons"
    by (auto simp del: upt_rec_numeral)
  from nextMemo_loop_finds[where sub = sub and c = c, OF this] obtain us n vs where n: "[0..<65536] = us @ n # vs"
    "nextMemo_loop sub c neurons [0..<65536] = Inr (int n)"
    "hex_of sub c n \<notin> getSnsNeuronIdAsHexString ` set neurons"
    "hex_of sub c ` set us \<subseteq> getSnsNeuronIdAsHexString ` set neurons"
    by blast
  have us: "us = [0..<length us]" and len: "n = length us" "n < 65536"
  proof -
    have "length us < 65536" using arg_cong[OF n(1), of length] by simp
    then have "take (length us) [0..<65536] = [0..<length us]" "[0..<65536] ! length us = length us"
      by (simp_all add: take_upt del: upt_rec_numeral)
    with n(1) \<open>length us < 65536\<close> show "us = [0..<length us]" "n = length us" "n < 65536"
      by (simp_all del: upt_rec_numeral)
  qed
  then have before: "hex_of sub c ` {..<n} \<subseteq> getSnsNeuronIdAsHexString ` set neurons"
    using n(4) by (metis atLeast0LessThan atLeast_upt)
  then have "card (hex_of sub c ` {..<n}) \<le> card (getSnsNeuronIdAsHexString ` set neurons)"
    by (intro card_mono) auto
  then have "n \<le> length neurons" using card[of "{..<n}"] ids len(2) by auto
  with n(2,3) before show ?thesis
    by (auto simp: nextMemo_def MAX_NEURONS_SUBACCOUNTS_def simp del: upt_rec_numeral)
qed

definition two_bytes :: "string \<Rightarrow> nat \<Rightarrow> nat list" where
  "two_bytes c i = [i div 256 mod 256, i mod 256]"

theorem nextMemo_correct_witness:
  "\<exists>n. nextMemo two_bytes ''c'' [plain_sns [0, 0] [], plain_sns [0, 1] []] = Inr (int n) \<and> n \<le> 2"
proof -
  have "inj_on (two_bytes ''c'') {..<65536}"
  proof (rule inj_onI)
    fix x y :: nat
    assume "x \<in> {..<65536}" "y \<in> {..<65536}" and e: "two_bytes ''c'' x = two_bytes ''c'' y"
    then have "x div 256 < 256" "y div 256 < 256" by (auto simp: less_mult_imp_div_less)
    with e have "x div 256 = y div 256" "x mod 256 = y mod 256" by (simp_all add: two_bytes_def)
    then show "x = y" by (metis div_mult_mod_eq)
  qed
  from nextMemo_correct[where sub = two_bytes and c = "''c''", OF this, of "[plain_sns [0, 0] [], plain_sns [0, 1] []]"] show ?thesis
    by (auto simp: two_bytes_def)
qed

text \<open>
  When no permission of a principal is listed twice, the hotkeys of an SNS neuron are exactly the
  principals whose permissions are voting and submitting proposals, with or without managing the voting
  permission; a principal that may also manage principals is not one.
\<close>

lemma getSnsNeuronHotkeys_correct:
  assumes "\<forall>q\<in>set (sn_permissions neuron). distinct (sp_permission_type q)"
  shows "set (getSnsNeuronHotkeys neuron) =
    {p. \<exists>q\<in>set (sn_permissions neuron). sp_principal q = Some p \<and>
      (set (sp_permission_type q) = {NEURON_PERMISSION_TYPE_VOTE, NEURON_PERMISSION_TYPE_SUBMIT_PROPOSAL} \<or>
       set (sp_permission_type q) = {NEURON_PERMISSION_TYPE_VOTE, NEURON_PERMISSION_TYPE_SUBMIT_PROPOSAL,
         NEURON_PERMISSION_TYPE_MANAGE_VOTING_PERMISSION})}"
proof -
  have "comparePermissions (sp_permission_type q) [4, 3] \<longleftrightarrow> set (sp_permission_type q) = {4, 3}"
    "comparePermissions (sp_permission_type q) [4, 3, 10] \<longleftrightarrow> set (sp_permission_type q) = {4, 3, 10}"
    if "q \<in> set (sn_permissions neuron)" for q
    using that assms comparePermissions_distinct[of "sp_permission_type q"] by auto
  then show ?thesis by (auto simp: hotkeys_iff)
qed

theorem getSnsNeuronHotkeys_correct_witness:
  "set (getSnsNeuronHotkeys (plain_sns [1]
     [\<lparr>sp_principal = Some ''a'', sp_permission_type = [3, 4]\<rparr>,
      \<lparr>sp_principal = Some ''b'', sp_permission_type = [4, 3, 2]\<rparr>])) = {''a''}"
proof -
  have ne: "A \<noteq> B" if "x \<in> A" "x \<notin> B" for x :: int and A B using that by auto
  have "{4, 3, 2} \<noteq> {4, 3 :: int}" "{4, 3, 2} \<noteq> {4, 3, 10 :: int}" by (rule ne[of 2]; simp)+
  then show ?thesis
    by (subst getSnsNeuronHotkeys_correct) (auto simp: plain_sns_def)
qed

text \<open>
  When each neuron has at most one ballot on a proposal, the neurons of a user split without rest into
  those that can vote, those that are ineligible and the eligible ones that have voted.
\<close>

lemma sns_neurons_split_by_vote:
  assumes "distinct (map fst (sd_ballots proposal))"
  shows "mset (votableSnsNeurons neurons proposal identity) + mset (ineligibleSnsNeurons neurons proposal identity) +
    mset (filter (\<lambda>n. snsNeuronsIneligibilityReasons n proposal identity = None)
      (votedSnsNeurons neurons proposal)) = mset neurons"
  unfolding filter_votable[OF assms] ineligibleSnsNeurons_def
  by (subst filter_voted) (rule mset_filter_three)

definition one_vote :: SnsProposalData where
  "one_vote = (plain_sns_proposal 1)\<lparr>sd_ballots := [(''01'', \<lparr>sb_vote = VoteYes, sb_cast_timestamp_seconds = 3, sb_voting_power = 1\<rparr>)]\<rparr>"

theorem sns_neurons_split_by_vote_witness:
  "mset (votableSnsNeurons [plain_sns [1] [], plain_sns [2] []] one_vote (Some ''a'')) +
    mset (ineligibleSnsNeurons [plain_sns [1] [], plain_sns [2] []] one_vote (Some ''a''))
    \<subseteq># mset [plain_sns [1] [], plain_sns [2] []]"
proof -
  have "distinct (map fst (sd_ballots one_vote))" by (simp add: one_vote_def)
  from sns_neurons_split_by_vote[OF this, of "[plain_sns [1] [], plain_sns [2] []]" "Some ''a''"]
  show ?thesis by (metis mset_subset_eq_add_left)
qed

text \<open>
  With the parameters of the SNS present and not negative, the voting power shown for an SNS neuron is
  defined, not negative, 0 below the minimal dissolve delay, and never falls when the delay grows; from the
  maximal delay on it stays the same.
\<close>

lemma snsNeuronVotingPower_mono:
  assumes "np_max_dissolve_delay_seconds ps = Some maxDelay" and "np_max_neuron_age_for_age_bonus ps = Some maxAge"
    and "np_max_dissolve_delay_bonus_percentage ps = Some maxDelayBonus"
    and "np_max_age_bonus_percentage ps = Some maxAgeBonus"
    and "np_neuron_minimum_dissolve_delay_to_vote_seconds ps = Some minDelay"
    and "0 \<le> maxAge" and "0 \<le> maxDelayBonus" and "0 \<le> maxAgeBonus" and "0 \<le> minDelay"
    and "minDelay \<le> maxDelay" and "0 \<le> sn_voting_power_percentage_multiplier n" and "d \<le> d'"
  shows "\<exists>v v'. snsNeuronVotingPower now n ps (Some d) = Some v \<and>
    snsNeuronVotingPower now n ps (Some d') = Some v' \<and> 0 \<le> v \<and> v \<le> v' \<and>
    (d < minDelay \<longrightarrow> v = 0) \<and> (maxDelay \<le> d \<longrightarrow> v = v')"
proof -
  define pr where "pr = \<lparr>vp_maxAgeBonus = Some (percent maxAgeBonus),
    vp_maxDissolveDelayBonus = Some (percent maxDelayBonus), vp_maxAgeSeconds = Some (to_number maxAge),
    vp_maxDissolveDelaySeconds = Some (to_number maxDelay), vp_minDissolveDelaySeconds = Some (to_number minDelay)\<rparr>"
  define s where "s = \<lfloor>max (to_number (getSnsNeuronStake n + nullish_or (sn_staked_maturity_e8s_equivalent n) 0)) 0\<rfloor>"
  define f where "f x = (of_int (math_round (num_mul (to_number (votingPower s x (neuronAge_sns now n) pr))
      (percent (sn_voting_power_percentage_multiplier n)))) :: number)" for x
  have v: "snsNeuronVotingPower now n ps (Some x) =
      Some (if x < minDelay then 0 else f (min x maxDelay))" for x
    using assms(1-5) by (simp add: snsNeuronVotingPower_def f_def s_def pr_def Let_def min_def)
  have pc: "0 \<le> percent x" if "0 \<le> x" for x
    using to_number_nonneg[OF that] by (simp add: percent_def num_div_def rnd_nonneg)
  have vp: "0 \<le> votingPower s x (neuronAge_sns now n) pr \<and>
      votingPower s x (neuronAge_sns now n) pr \<le> votingPower s y (neuronAge_sns now n) pr"
    if "0 \<le> x" "x \<le> y" for x y
    unfolding pr_def using that assms votingPower_delay_mono[of s x y "neuronAge_sns now n"
        "percent maxAgeBonus" "percent maxDelayBonus" "to_number maxAge" "to_number maxDelay" "to_number minDelay"]
    by (simp add: s_def neuronAge_sns_def pc to_number_nonneg)
  have f: "0 \<le> f x \<and> f x \<le> f y" if "0 \<le> x" "x \<le> y" for x y
  proof -
    have "0 \<le> to_number (votingPower s x (neuronAge_sns now n) pr)"
      "to_number (votingPower s x (neuronAge_sns now n) pr) \<le> to_number (votingPower s y (neuronAge_sns now n) pr)"
      using vp[OF that] by (auto intro: to_number_nonneg to_number_mono)
    then have "num_mul (to_number (votingPower s x (neuronAge_sns now n) pr)) (percent (sn_voting_power_percentage_multiplier n))
        \<le> num_mul (to_number (votingPower s y (neuronAge_sns now n) pr)) (percent (sn_voting_power_percentage_multiplier n))"
      "0 \<le> num_mul (to_number (votingPower s x (neuronAge_sns now n) pr)) (percent (sn_voting_power_percentage_multiplier n))"
      using pc[OF assms(11)] by (auto intro: num_mul_mono num_mul_nonneg)
    then show ?thesis
      using math_round_mono math_round_mono[of "of_int 0"] by (auto simp: f_def simp del: of_int_0)
  qed
  have "0 \<le> f (min x maxDelay)" if "minDelay \<le> x" for x
    using f[of "min x maxDelay" "min x maxDelay"] that assms(9,10) by simp
  moreover have "f (min d maxDelay) \<le> f (min d' maxDelay)" if "minDelay \<le> d"
    using f[of "min d maxDelay" "min d' maxDelay"] that assms(9,10,12) by auto
  ultimately show ?thesis
    unfolding v using assms(10,12) by (auto simp: min_def)
qed

definition sns_params :: SnsNervousSystemParameters where
  "sns_params = \<lparr>np_max_dissolve_delay_seconds = Some 1000, np_max_neuron_age_for_age_bonus = Some 500,
     np_max_dissolve_delay_bonus_percentage = Some 100, np_max_age_bonus_percentage = Some 25,
     np_neuron_minimum_dissolve_delay_to_vote_seconds = Some 10, np_neuron_grantable_permissions = None\<rparr>"

theorem snsNeuronVotingPower_mono_witness:
  "\<exists>v v'. snsNeuronVotingPower 99 (plain_sns [1] []) sns_params (Some 20) = Some v \<and>
    snsNeuronVotingPower 99 (plain_sns [1] []) sns_params (Some 2000) = Some v' \<and> 0 \<le> v \<and> v \<le> v'"
  using snsNeuronVotingPower_mono[of sns_params 1000 500 100 25 10 "plain_sns [1] []" 20 2000 99]
  by (auto simp: sns_params_def plain_sns_def)

end
