(* ===== verification/SnsNeuronChecks.thy ===== *)
theory SnsNeuronChecks
  imports SnsNeurons "HOL-Library.Sublist"
begin

text \<open>
  frontend/src/lib/services/sns-neurons-check-balances.services.ts with
  frontend/src/lib/stores/checked-neurons.store.ts: the recovery of interrupted stakes and top-ups.  The
  calls of the canisters are parameters (a record of functions, Inl where the promise rejects) and are
  logged.  A subaccount is marked as checked in the same synchronous step that tests the mark, before the
  first call for it, so that running the services one after the other shows what marks allow.
\<close>

subsection \<open>checked-neurons.store.ts\<close>

type_synonym checked_store = "string \<rightharpoonup> string set"

text \<open>Returns true when the subaccount was added, false when it was there.\<close>

definition addSubaccount :: "string \<Rightarrow> string \<Rightarrow> checked_store \<Rightarrow> bool \<times> checked_store" where
  "addSubaccount universeId subaccountHex currentState =
     (let isPresent = (case currentState universeId of None \<Rightarrow> False | Some s \<Rightarrow> subaccountHex \<in> s)
      in (\<not> isPresent,
          if isPresent then currentState
          else currentState(universeId \<mapsto>
            insert subaccountHex (nullish_or (currentState universeId) {}))))"

definition resetChecked :: "checked_store \<Rightarrow> checked_store" where
  "resetChecked currentState = Map.empty"

subsection \<open>The services\<close>

datatype canister_call =
    GetNeuronBalance string "nat list"
  | ClaimNeuron string int string "nat list"
  | RefreshNeuron string "nat list"
  | GetSnsNeuron string "nat list"

datatype check_error = CallRejected string | NoMinimumStake | NoNextMemo

record check_env =
  ce_getNeuronBalance :: "string \<Rightarrow> nat list \<Rightarrow> check_error + int"
  ce_claimNeuron :: "string \<Rightarrow> int \<Rightarrow> string \<Rightarrow> nat list \<Rightarrow> check_error + nat list"
  ce_refreshNeuron :: "string \<Rightarrow> nat list \<Rightarrow> check_error + unit"
  ce_getSnsNeuron :: "string \<Rightarrow> nat list \<Rightarrow> check_error + SnsNeuron"
  ce_minimumStake :: "string \<Rightarrow> int option"
  ce_neuronSubaccount :: "string \<Rightarrow> nat \<Rightarrow> nat list"
  ce_identity :: string

record check_state =
  ck_checked :: checked_store
  ck_neurons :: SnsNeuronsStore
  ck_calls :: "canister_call list"

definition log_call :: "canister_call \<Rightarrow> check_state \<Rightarrow> check_state" where
  "log_call c s = s\<lparr>ck_calls := ck_calls s @ [c]\<rparr>"

definition mark :: "string \<Rightarrow> string \<Rightarrow> check_state \<Rightarrow> bool \<times> check_state" where
  "mark universeId subaccountHex s =
     (let (added, st) = addSubaccount universeId subaccountHex (ck_checked s) in (added, s\<lparr>ck_checked := st\<rparr>))"

definition userHasNoPermissions :: "SnsNeuron option \<Rightarrow> string \<Rightarrow> bool" where
  "userHasNoPermissions neuron controller =
     (case neuron of None \<Rightarrow> False
      | Some n \<Rightarrow> \<not> (\<exists>p\<in>set (sn_permissions n). sp_principal p = Some controller \<and>
          length (sp_permission_type p) > 0))"

definition loadNeuron ::
  "check_env \<Rightarrow> string \<Rightarrow> nat list \<Rightarrow> check_state \<Rightarrow> (check_error + unit) \<times> check_state" where
  "loadNeuron env rootCanisterId neuronId s =
     (let s' = log_call (GetSnsNeuron rootCanisterId neuronId) s
      in case ce_getSnsNeuron env rootCanisterId neuronId of
           Inl e \<Rightarrow> (Inl e, s')
         | Inr neuron \<Rightarrow>
             if userHasNoPermissions (Some neuron) (ce_identity env) then (Inr (), s')
             else (Inr (), s'\<lparr>ck_neurons := addNeurons rootCanisterId [neuron] (Some True) (ck_neurons s')\<rparr>))"

definition neuronNeedsRefresh ::
  "check_env \<Rightarrow> string \<Rightarrow> SnsNeuron \<Rightarrow> check_state \<Rightarrow> (check_error + bool) \<times> check_state" where
  "neuronNeedsRefresh env rootCanisterId neuron s =
     (case sn_id neuron of
        None \<Rightarrow> (Inr False, s)
      | Some neuronId \<Rightarrow>
          (case ce_getNeuronBalance env rootCanisterId neuronId of
             Inl e \<Rightarrow> (Inl e, log_call (GetNeuronBalance rootCanisterId neuronId) s)
           | Inr balanceE8s \<Rightarrow> (Inr (needsRefresh neuron balanceE8s),
               log_call (GetNeuronBalance rootCanisterId neuronId) s)))"

definition checkNeuron ::
  "check_env \<Rightarrow> string \<Rightarrow> SnsNeuron \<Rightarrow> check_state \<Rightarrow> (check_error + bool) \<times> check_state" where
  "checkNeuron env rootCanisterId neuron s =
     (case sn_id neuron of
        None \<Rightarrow> (Inr False, s)
      | Some neuronId \<Rightarrow>
          (case neuronNeedsRefresh env rootCanisterId neuron s of
             (Inl e, s1) \<Rightarrow> (Inl e, s1)
           | (Inr False, s1) \<Rightarrow> (Inr False, s1)
           | (Inr True, s1) \<Rightarrow>
               (let s2 = log_call (RefreshNeuron rootCanisterId neuronId) s1
                in case ce_refreshNeuron env rootCanisterId neuronId of
                     Inl e \<Rightarrow> (Inl e, s2)
                   | Inr _ \<Rightarrow>
                       (case loadNeuron env rootCanisterId neuronId s2 of
                          (Inl e, s3) \<Rightarrow> (Inl e, s3)
                        | (Inr _, s3) \<Rightarrow> (Inr True, s3)))))"

definition refreshNeuronIfNeeded ::
  "check_env \<Rightarrow> string option \<Rightarrow> SnsNeuron option \<Rightarrow> check_state \<Rightarrow> (check_error + bool) \<times> check_state" where
  "refreshNeuronIfNeeded env rootCanisterId neuron s =
     (case (rootCanisterId, neuron) of
        (Some rootId, Some n) \<Rightarrow>
          (case mark rootId (getSnsNeuronIdAsHexString n) s of
             (False, s') \<Rightarrow> (Inr False, s')
           | (True, s') \<Rightarrow> checkNeuron env rootId n s')
      | _ \<Rightarrow> (Inr False, s))"

text \<open>The load after the claim is not awaited: its failure is not reported.\<close>

definition claimAndLoadNeuron ::
  "check_env \<Rightarrow> string \<Rightarrow> string \<Rightarrow> int \<Rightarrow> nat list \<Rightarrow> check_state \<Rightarrow> (check_error + unit) \<times> check_state" where
  "claimAndLoadNeuron env rootCanisterId controller memo subaccount s =
     (let s' = log_call (ClaimNeuron rootCanisterId memo controller subaccount) s
      in case ce_claimNeuron env rootCanisterId memo controller subaccount of
           Inl e \<Rightarrow> (Inl e, s')
         | Inr neuronId \<Rightarrow> (Inr (), snd (loadNeuron env rootCanisterId neuronId s')))"

definition claimNeuronIfNeeded ::
  "check_env \<Rightarrow> string \<Rightarrow> int \<Rightarrow> nat list \<Rightarrow> check_state \<Rightarrow> (check_error + unit) \<times> check_state" where
  "claimNeuronIfNeeded env rootCanisterId memo subaccount s =
     (case mark rootCanisterId (subaccountToHexString subaccount) s of
        (False, s') \<Rightarrow> (Inr (), s')
      | (True, s') \<Rightarrow>
          (let s'' = log_call (GetNeuronBalance rootCanisterId subaccount) s'
           in case ce_getNeuronBalance env rootCanisterId subaccount of
                Inl e \<Rightarrow> (Inl e, s'')
              | Inr neuronAccountBalance \<Rightarrow>
                  if neuronAccountBalance = 0 then (Inr (), s'')
                  else case ce_minimumStake env rootCanisterId of
                         None \<Rightarrow> (Inl NoMinimumStake, s'')
                       | Some neuronMinimumStake \<Rightarrow>
                           if neuronAccountBalance < neuronMinimumStake then (Inr (), s'')
                           else claimAndLoadNeuron env rootCanisterId (ce_identity env) memo subaccount s''))"

definition claimNextNeuronIfNeeded ::
  "check_env \<Rightarrow> string option \<Rightarrow> SnsNeuron list option \<Rightarrow> check_state \<Rightarrow> (check_error + unit) \<times> check_state" where
  "claimNextNeuronIfNeeded env rootCanisterId neurons s =
     (case (rootCanisterId, neurons) of
        (Some rootId, Some ns) \<Rightarrow>
          (case nextMemo (ce_neuronSubaccount env) (ce_identity env) ns of
             Inl _ \<Rightarrow> (Inl NoNextMemo, s)
           | Inr memo \<Rightarrow>
               claimNeuronIfNeeded env rootId memo (ce_neuronSubaccount env (ce_identity env) (nat memo)) s)
      | _ \<Rightarrow> (Inr (), s))"

subsection \<open>A session\<close>

text \<open>A session is a sequence of service calls, each with what the canisters answer then.\<close>

datatype service_call =
    Refresh check_env "string option" "SnsNeuron option"
  | ClaimNext check_env "string option" "SnsNeuron list option"

fun service_step :: "check_state \<Rightarrow> service_call \<Rightarrow> check_state" where
  "service_step s (Refresh env rootId neuron) = snd (refreshNeuronIfNeeded env rootId neuron s)"
| "service_step s (ClaimNext env rootId neurons) = snd (claimNextNeuronIfNeeded env rootId neurons s)"

definition new_session :: check_state where
  "new_session = \<lparr>ck_checked = Map.empty, ck_neurons = Map.empty, ck_calls = []\<rparr>"

definition run_session :: "service_call list \<Rightarrow> check_state" where
  "run_session cs = foldl service_step new_session cs"

text \<open>The subaccounts whose balance was asked for, per SNS, and those claimed.\<close>

definition balance_checks :: "canister_call list \<Rightarrow> (string \<times> string) list" where
  "balance_checks calls = List.map_filter (\<lambda>c. case c of
     GetNeuronBalance rootId i \<Rightarrow> Some (rootId, subaccountToHexString i) | _ \<Rightarrow> None) calls"

definition claims :: "canister_call list \<Rightarrow> (string \<times> string) list" where
  "claims calls = List.map_filter (\<lambda>c. case c of
     ClaimNeuron rootId _ _ i \<Rightarrow> Some (rootId, subaccountToHexString i) | _ \<Rightarrow> None) calls"

definition marked :: "check_state \<Rightarrow> string \<times> string \<Rightarrow> bool" where
  "marked s p \<longleftrightarrow> (\<exists>A. ck_checked s (fst p) = Some A \<and> snd p \<in> A)"

subsection \<open>What the calls add to the log\<close>

lemma log_call_simps [simp]:
  "ck_checked (log_call c s) = ck_checked s" "ck_neurons (log_call c s) = ck_neurons s"
  "ck_calls (log_call c s) = ck_calls s @ [c]"
  by (simp_all add: log_call_def)

lemma balance_checks_simps [simp]:
  "balance_checks [] = []"
  "balance_checks (cs @ ds) = balance_checks cs @ balance_checks ds"
  "balance_checks (GetNeuronBalance r i # cs) = (r, subaccountToHexString i) # balance_checks cs"
  "balance_checks (ClaimNeuron r m c i # cs) = balance_checks cs"
  "balance_checks (RefreshNeuron r i # cs) = balance_checks cs"
  "balance_checks (GetSnsNeuron r i # cs) = balance_checks cs"
  by (simp_all add: balance_checks_def List.map_filter_def)

lemma claims_simps [simp]:
  "claims [] = []"
  "claims (cs @ ds) = claims cs @ claims ds"
  "claims (GetNeuronBalance r i # cs) = claims cs"
  "claims (ClaimNeuron r m c i # cs) = (r, subaccountToHexString i) # claims cs"
  "claims (RefreshNeuron r i # cs) = claims cs"
  "claims (GetSnsNeuron r i # cs) = claims cs"
  by (simp_all add: claims_def List.map_filter_def)

lemmas service_defs = loadNeuron_def neuronNeedsRefresh_def checkNeuron_def claimAndLoadNeuron_def Let_def

text \<open>Loading a neuron asks for no balance, claims nothing and leaves the marks.\<close>

lemma loadNeuron_log:
  assumes "loadNeuron env r i s = (x, t)"
  shows "ck_checked t = ck_checked s" "balance_checks (ck_calls t) = balance_checks (ck_calls s)"
    "claims (ck_calls t) = claims (ck_calls s)"
  using assms by (auto simp: loadNeuron_def Let_def split: sum.splits if_splits)

lemma mark_first:
  "mark r h s = (True, s') \<Longrightarrow> \<not> marked s (r, h) \<and> s' = s\<lparr>ck_checked :=
     (ck_checked s)(r \<mapsto> insert h (nullish_or (ck_checked s r) {}))\<rparr>"
  by (auto simp: mark_def addSubaccount_def marked_def Let_def split: option.splits if_splits)

lemma mark_again: "mark r h s = (False, s') \<Longrightarrow> s' = s \<and> marked s (r, h)"
  by (auto simp: mark_def addSubaccount_def marked_def Let_def split: option.splits if_splits)

lemma marked_after:
  "marked (s\<lparr>ck_checked := (ck_checked s)(r \<mapsto> insert h (nullish_or (ck_checked s r) {}))\<rparr>) p
     \<longleftrightarrow> p = (r, h) \<or> marked s p"
  by (cases p; cases "ck_checked s r") (auto simp: marked_def)

lemma marked_cong: "ck_checked s = ck_checked t \<Longrightarrow> marked s = marked t"
  by (simp add: marked_def fun_eq_iff)

text \<open>The invariant of a session: the checked balances are distinct and marked, and the claims are among
  them, in their order.\<close>

definition session_ok :: "check_state \<Rightarrow> bool" where
  "session_ok s \<longleftrightarrow> distinct (balance_checks (ck_calls s)) \<and>
     (\<forall>p\<in>set (balance_checks (ck_calls s)). marked s p) \<and>
     subseq (claims (ck_calls s)) (balance_checks (ck_calls s))"

text \<open>What one service may add: nothing, or one balance check of a subaccount marked in this call and
  perhaps its claim.\<close>

definition extends_log :: "string \<times> string \<Rightarrow> check_state \<Rightarrow> check_state \<Rightarrow> bool" where
  "extends_log p s t \<longleftrightarrow> ck_checked t = ck_checked s \<and>
     (balance_checks (ck_calls t) = balance_checks (ck_calls s) \<and> claims (ck_calls t) = claims (ck_calls s) \<or>
      balance_checks (ck_calls t) = balance_checks (ck_calls s) @ [p] \<and>
      (claims (ck_calls t) = claims (ck_calls s) \<or> claims (ck_calls t) = claims (ck_calls s) @ [p]))"

lemma subseq_snoc: "subseq xs ys \<Longrightarrow> subseq xs (ys @ [y])" "subseq xs ys \<Longrightarrow> subseq (xs @ [y]) (ys @ [y])"
  by (auto intro: list_emb_append2 list_emb_append_mono)

lemma subseq_distinct: "subseq xs ys \<Longrightarrow> distinct ys \<Longrightarrow> distinct xs"
  by (auto simp: distinct_conv_nth dest!: subseq_conv_nths [THEN iffD1] intro: distinct_nthsI
    simp flip: distinct_conv_nth)

lemma session_ok_extend:
  assumes "session_ok s" "mark (fst p) (snd p) s = (True, s')" "extends_log p s' t"
  shows "session_ok t"
proof -
  have fresh: "\<not> marked s p"
    and s': "s' = s\<lparr>ck_checked := (ck_checked s)(fst p \<mapsto> insert (snd p) (nullish_or (ck_checked s (fst p)) {}))\<rparr>"
    using mark_first [OF assms(2)] by auto
  have m: "marked t q \<longleftrightarrow> q = p \<or> marked s q" for q
    using marked_after [of s "fst p" "snd p" q] s' assms(3) marked_cong [of t s'] by (simp add: extends_log_def)
  have calls: "ck_calls s' = ck_calls s" by (simp add: s')
  have "p \<notin> set (balance_checks (ck_calls s))" using assms(1) fresh by (auto simp: session_ok_def)
  then show ?thesis
    using assms(1,3) by (auto simp: session_ok_def extends_log_def calls m subseq_snoc)
qed

lemma checkNeuron_extends: "extends_log (r, getSnsNeuronIdAsHexString n) s (snd (checkNeuron env r n s))"
  by (auto simp: checkNeuron_def neuronNeedsRefresh_def extends_log_def getSnsNeuronIdAsHexString_def Let_def
      dest: loadNeuron_log split: option.splits sum.splits prod.splits bool.splits)

lemma session_ok_refresh:
  assumes "session_ok s"
  shows "session_ok (snd (refreshNeuronIfNeeded env rootId neuron s))"
proof (cases rootId; cases neuron)
  fix r n
  assume some: "rootId = Some r" "neuron = Some n"
  obtain added s' where m: "mark r (getSnsNeuronIdAsHexString n) s = (added, s')" by force
  show ?thesis
  proof (cases added)
    case True
    with m some show ?thesis
      using session_ok_extend [of s "(r, getSnsNeuronIdAsHexString n)" s'] assms checkNeuron_extends [of r n s' env]
      by (simp add: refreshNeuronIfNeeded_def)
  next
    case False
    with m some assms show ?thesis
      by (auto simp: refreshNeuronIfNeeded_def dest: mark_again)
  qed
qed (use assms in \<open>simp_all add: refreshNeuronIfNeeded_def\<close>)

text \<open>The claim of a subaccount that was not yet marked.\<close>

definition claim_due :: "check_env \<Rightarrow> string \<Rightarrow> nat list \<Rightarrow> bool" where
  "claim_due env r sub = (case (ce_getNeuronBalance env r sub, ce_minimumStake env r) of
     (Inr balance, Some minimum) \<Rightarrow> balance \<noteq> 0 \<and> minimum \<le> balance | _ \<Rightarrow> False)"

lemma claimNeuronIfNeeded_marked:
  "marked s (r, subaccountToHexString sub) \<Longrightarrow> claimNeuronIfNeeded env r memo sub s = (Inr (), s)"
  by (auto simp: claimNeuronIfNeeded_def dest: mark_first mark_again split: prod.splits bool.splits)

lemma claimNeuronIfNeeded_fresh:
  assumes "\<not> marked s (r, subaccountToHexString sub)"
  shows "extends_log (r, subaccountToHexString sub)
      (snd (mark r (subaccountToHexString sub) s)) (snd (claimNeuronIfNeeded env r memo sub s))"
    and "balance_checks (ck_calls (snd (claimNeuronIfNeeded env r memo sub s))) =
      balance_checks (ck_calls s) @ [(r, subaccountToHexString sub)]"
    and "claims (ck_calls (snd (claimNeuronIfNeeded env r memo sub s))) =
      claims (ck_calls s) @ (if claim_due env r sub then [(r, subaccountToHexString sub)] else [])"
proof -
  obtain s' where m: "mark r (subaccountToHexString sub) s = (True, s')"
    using assms mark_again [of r "subaccountToHexString sub" s] by (metis (full_types) surj_pair)
  have calls: "ck_calls s' = ck_calls s" using mark_first [OF m] by simp
  note unf = claimNeuronIfNeeded_def m claimAndLoadNeuron_def claim_due_def extends_log_def Let_def calls
  have "ck_checked (snd (claimNeuronIfNeeded env r memo sub s)) = ck_checked s'"
    by (auto simp: unf loadNeuron_log [OF surjective_pairing] split: sum.splits option.splits)
  moreover show bs: "balance_checks (ck_calls (snd (claimNeuronIfNeeded env r memo sub s))) =
      balance_checks (ck_calls s) @ [(r, subaccountToHexString sub)]"
    by (auto simp: unf loadNeuron_log [OF surjective_pairing] split: sum.splits option.splits)
  moreover show cs: "claims (ck_calls (snd (claimNeuronIfNeeded env r memo sub s))) =
      claims (ck_calls s) @ (if claim_due env r sub then [(r, subaccountToHexString sub)] else [])"
    by (auto simp: unf loadNeuron_log [OF surjective_pairing] split: sum.splits option.splits)
  ultimately show "extends_log (r, subaccountToHexString sub)
      (snd (mark r (subaccountToHexString sub) s)) (snd (claimNeuronIfNeeded env r memo sub s))"
    by (simp add: extends_log_def m calls)
qed

lemma session_ok_claim:
  assumes "session_ok s"
  shows "session_ok (snd (claimNextNeuronIfNeeded env rootId neurons s))"
proof -
  have "session_ok (snd (claimNeuronIfNeeded env r memo sub s))" for r memo sub
  proof (cases "marked s (r, subaccountToHexString sub)")
    case False
    then obtain s' where m: "mark r (subaccountToHexString sub) s = (True, s')"
      using mark_again [of r "subaccountToHexString sub" s] by (metis (full_types) surj_pair)
    with session_ok_extend [of s "(r, subaccountToHexString sub)" s'] assms
      claimNeuronIfNeeded_fresh(1) [OF False, of env memo]
    show ?thesis by simp
  qed (simp add: claimNeuronIfNeeded_marked assms)
  with assms show ?thesis
    by (auto simp: claimNextNeuronIfNeeded_def split: option.splits sum.splits)
qed

lemma session_ok_step: "session_ok s \<Longrightarrow> session_ok (service_step s c)"
  by (cases c) (simp_all add: session_ok_refresh session_ok_claim)

lemma session_ok_run: "session_ok (run_session cs)"
proof -
  have "session_ok s \<Longrightarrow> session_ok (foldl service_step s cs)" for s
    by (induction cs arbitrary: s) (simp_all add: session_ok_step)
  moreover have "session_ok new_session" by (simp add: session_ok_def new_session_def)
  ultimately show ?thesis by (simp add: run_session_def)
qed

subsection \<open>Properties\<close>

text \<open>
  C35: In a session the balance of a neuron's subaccount is asked for at most once, whatever calls refresh
  neurons or look for unclaimed ones, in whatever order and whatever the canisters answer; claims go only
  to subaccounts whose balance was asked for, in the same order, so that each is claimed at most once.
\<close>

theorem session_checks_once:
  "distinct (balance_checks (ck_calls (run_session cs))) \<and>
   subseq (claims (ck_calls (run_session cs))) (balance_checks (ck_calls (run_session cs))) \<and>
   distinct (claims (ck_calls (run_session cs)))"
  using session_ok_run [of cs] by (auto simp: session_ok_def dest: subseq_distinct)

text \<open>
  A neuron is claimed exactly when its subaccount was not checked before in this session and holds a
  balance that is not zero and not below the minimum stake of the SNS; a subaccount that was checked before
  costs no call at all.
\<close>

lemma claim_exactly_when_due:
  "claims (ck_calls (snd (claimNeuronIfNeeded env rootId memo sub s))) = claims (ck_calls s) @
     (case (marked s (rootId, subaccountToHexString sub), ce_getNeuronBalance env rootId sub, ce_minimumStake env rootId) of
        (False, Inr balance, Some minimum) \<Rightarrow>
          if balance \<noteq> 0 \<and> minimum \<le> balance then [(rootId, subaccountToHexString sub)] else []
      | _ \<Rightarrow> []) \<and>
   balance_checks (ck_calls (snd (claimNeuronIfNeeded env rootId memo sub s))) = balance_checks (ck_calls s) @
     (if marked s (rootId, subaccountToHexString sub) then [] else [(rootId, subaccountToHexString sub)])"
  by (cases "marked s (rootId, subaccountToHexString sub)")
    (auto simp: claimNeuronIfNeeded_marked claimNeuronIfNeeded_fresh claim_due_def split: sum.splits option.splits)

end
