(* ===== verification/Effects.thy ===== *)
theory Effects
  imports Utils
begin

text \<open>
  Asynchronous functions that change shared state and may throw: a function from the state to the
  outcome (Inl what is thrown, Inr what is returned) and the state after it.  Sequencing, try/catch and
  polling are combinators; what every step of a service keeps is proved by the introduction rules of keeps
  (for a relation between the state before and after, such as a log that grows, the predicate has the
  state before fixed).  The polling loop is the one of Utils, with the calls and the test on errors acting on the
  state.
\<close>

named_theorems keeps_intros "rules that show that an effect keeps a predicate"

type_synonym ('s, 'e, 'a) effect = "'s \<Rightarrow> ('e + 'a) \<times> 's"

definition returnE :: "'a \<Rightarrow> ('s, 'e, 'a) effect" where
  "returnE x s = (Inr x, s)"

definition throwE :: "'e \<Rightarrow> ('s, 'e, 'a) effect" where
  "throwE e s = (Inl e, s)"

definition bindE :: "('s, 'e, 'a) effect \<Rightarrow> ('a \<Rightarrow> ('s, 'e, 'b) effect) \<Rightarrow> ('s, 'e, 'b) effect" where
  "bindE m f s = (case m s of (Inl e, s') \<Rightarrow> (Inl e, s') | (Inr x, s') \<Rightarrow> f x s')"

definition thenE :: "('s, 'e, 'a) effect \<Rightarrow> ('s, 'e, 'b) effect \<Rightarrow> ('s, 'e, 'b) effect" where
  "thenE m n = bindE m (\<lambda>_. n)"

definition catchE :: "('s, 'e, 'a) effect \<Rightarrow> ('e \<Rightarrow> ('s, 'e, 'a) effect) \<Rightarrow> ('s, 'e, 'a) effect" where
  "catchE m h s = (case m s of (Inl e, s') \<Rightarrow> h e s' | (Inr x, s') \<Rightarrow> (Inr x, s'))"

text \<open>The finally block runs on every way out of the try block; the ones here do not throw.\<close>

definition finallyE :: "('s, 'e, 'a) effect \<Rightarrow> ('s \<Rightarrow> 's) \<Rightarrow> ('s, 'e, 'a) effect" where
  "finallyE m f s = (case m s of (r, s') \<Rightarrow> (r, f s'))"

definition updateE :: "('s \<Rightarrow> 's) \<Rightarrow> ('s, 'e, unit) effect" where
  "updateE f s = (Inr (), f s)"

definition getE :: "('s \<Rightarrow> 'a) \<Rightarrow> ('s, 'e, 'a) effect" where
  "getE f s = (Inr (f s), s)"

text \<open>A value of a sum type, thrown or returned.\<close>

definition liftE :: "'e + 'a \<Rightarrow> ('s, 'e, 'a) effect" where
  "liftE r s = (r, s)"

lemmas effect_defs = returnE_def throwE_def bindE_def thenE_def catchE_def finallyE_def updateE_def getE_def liftE_def

lemma bindE_simps [simp]:
  "bindE (returnE x) f = f x" "bindE (throwE e) f = throwE e"
  "bindE (getE g) f s = f (g s) s" "bindE (updateE u) k s = k () (u s)"
  "bindE (liftE (Inl e)) f = throwE e" "bindE (liftE (Inr x)) f = f x"
  by (simp_all add: effect_defs fun_eq_iff)

lemma thenE_simps [simp]:
  "thenE (updateE u) k s = k (u s)" "thenE (returnE x) k = k" "thenE (throwE e) k = throwE e"
  by (simp_all add: effect_defs fun_eq_iff)

lemma bindE_assoc: "bindE (bindE m f) g = bindE m (\<lambda>x. bindE (f x) g)"
  by (auto simp: bindE_def fun_eq_iff split: prod.splits sum.splits)

lemma catchE_simps [simp]:
  "catchE (returnE x) h = returnE x" "catchE (throwE e) h = h e"
  by (simp_all add: effect_defs fun_eq_iff)

subsection \<open>What an effect keeps\<close>

definition keeps :: "('s \<Rightarrow> bool) \<Rightarrow> ('s, 'e, 'a) effect \<Rightarrow> bool" where
  "keeps P m \<longleftrightarrow> (\<forall>s r t. m s = (r, t) \<longrightarrow> P s \<longrightarrow> P t)"

lemma keepsD: "keeps P m \<Longrightarrow> m s = (r, t) \<Longrightarrow> P s \<Longrightarrow> P t"
  by (simp add: keeps_def)

lemma keeps_snd: "keeps P m \<Longrightarrow> P s \<Longrightarrow> P (snd (m s))"
  using keepsD [of P m s "fst (m s)" "snd (m s)"] by simp

lemma keepsI: "(\<And>s. P s \<Longrightarrow> P (snd (m s))) \<Longrightarrow> keeps P m"
  unfolding keeps_def by (metis snd_conv)

lemma keeps_basic [keeps_intros]:
  "keeps P (returnE x)" "keeps P (throwE e)" "keeps P (getE f)" "keeps P (liftE r)"
  by (simp_all add: keeps_def effect_defs)

lemma keeps_updateE [keeps_intros]: "(\<And>s. P s \<Longrightarrow> P (f s)) \<Longrightarrow> keeps P (updateE f)"
  by (simp add: keeps_def updateE_def)

lemma keeps_bindE [keeps_intros]: "keeps P m \<Longrightarrow> (\<And>x. keeps P (f x)) \<Longrightarrow> keeps P (bindE m f)"
  by (rule keepsI) (auto simp: bindE_def dest: keepsD intro: keeps_snd split: prod.split sum.split)

lemma keeps_thenE [keeps_intros]: "keeps P m \<Longrightarrow> keeps P n \<Longrightarrow> keeps P (thenE m n)"
  unfolding thenE_def by (rule keeps_bindE)

lemma keeps_catchE [keeps_intros]: "keeps P m \<Longrightarrow> (\<And>e. keeps P (h e)) \<Longrightarrow> keeps P (catchE m h)"
  by (rule keepsI) (auto simp: catchE_def dest: keepsD intro: keeps_snd split: prod.split sum.split)

lemma keeps_finallyE [keeps_intros]: "keeps P m \<Longrightarrow> (\<And>s. P s \<Longrightarrow> P (f s)) \<Longrightarrow> keeps P (finallyE m f)"
  by (rule keepsI) (auto simp: finallyE_def dest: keepsD split: prod.split)

lemma keeps_if [keeps_intros]: "keeps P m \<Longrightarrow> keeps P n \<Longrightarrow> keeps P (if b then m else n)"
  by simp

lemma keeps_case_option [keeps_intros]:
  "keeps P m \<Longrightarrow> (\<And>x. keeps P (f x)) \<Longrightarrow> keeps P (case v of None \<Rightarrow> m | Some x \<Rightarrow> f x)"
  by (cases v) simp_all

lemma keeps_case_sum [keeps_intros]:
  "(\<And>x. keeps P (f x)) \<Longrightarrow> (\<And>y. keeps P (g y)) \<Longrightarrow> keeps P (case v of Inl x \<Rightarrow> f x | Inr y \<Rightarrow> g y)"
  by (cases v) simp_all

text \<open>What the results of an effect satisfy, and what may be thrown, when it starts where P holds.\<close>

definition yields :: "('s \<Rightarrow> bool) \<Rightarrow> ('s, 'e, 'a) effect \<Rightarrow> ('a \<Rightarrow> bool) \<Rightarrow> bool" where
  "yields P m Q \<longleftrightarrow> (\<forall>s x t. P s \<longrightarrow> m s = (Inr x, t) \<longrightarrow> Q x)"

lemma yieldsI: "(\<And>s x t. P s \<Longrightarrow> m s = (Inr x, t) \<Longrightarrow> Q x) \<Longrightarrow> yields P m Q"
  by (simp add: yields_def)

lemma keeps_bindE_yields:
  assumes "keeps P m" "yields P m Q" "\<And>x. Q x \<Longrightarrow> keeps P (f x)"
  shows "keeps P (bindE m f)"
  using assms unfolding yields_def
  by (intro keepsI) (auto simp: bindE_def dest: keepsD intro: keeps_snd split: prod.split sum.split)

definition throws_only :: "'e set \<Rightarrow> ('s, 'e, 'a) effect \<Rightarrow> bool" where
  "throws_only E m \<longleftrightarrow> (\<forall>s e t. m s = (Inl e, t) \<longrightarrow> e \<in> E)"

named_theorems throws_intros "rules that show which errors an effect throws"

lemma throws_basic [throws_intros]:
  "throws_only E (returnE x)" "throws_only E (updateE f)" "throws_only E (getE g)"
  by (simp_all add: throws_only_def effect_defs)

lemma throws_throwE: "e \<in> E \<Longrightarrow> throws_only E (throwE e)"
  by (simp add: throws_only_def throwE_def)

lemma throws_bindE [throws_intros]:
  "throws_only E m \<Longrightarrow> (\<And>x. throws_only E (f x)) \<Longrightarrow> throws_only E (bindE m f)"
  unfolding throws_only_def bindE_def by (auto split: prod.splits sum.splits)

lemma throws_thenE [throws_intros]: "throws_only E m \<Longrightarrow> throws_only E n \<Longrightarrow> throws_only E (thenE m n)"
  unfolding thenE_def by (rule throws_bindE)

lemma throws_catchE: "(\<And>e. throws_only E (h e)) \<Longrightarrow> throws_only E (catchE m h)"
  unfolding throws_only_def catchE_def by (auto split: prod.splits sum.splits)

lemma throws_if [throws_intros]: "throws_only E m \<Longrightarrow> throws_only E n \<Longrightarrow> throws_only E (if b then m else n)"
  by simp

lemma throws_case_option [throws_intros]:
  "throws_only E m \<Longrightarrow> (\<And>x. throws_only E (f x)) \<Longrightarrow> throws_only E (case v of None \<Rightarrow> m | Some x \<Rightarrow> f x)"
  by (cases v) simp_all

subsection \<open>Polling\<close>

text \<open>
  poll of utils/utils.ts.  fn and shouldExit act on the state; cancelled says of a state whether cancelPoll
  has rejected the promise of this poll; wait is what happens elsewhere during a wait; highLoad and hideHighLoad are the effects of the high load message
  being shown and hidden.
\<close>

record ('s, 'e, 'a) polling =
  po_fn :: "('s, 'e poll_error, 'a) effect"
  po_shouldExit :: "'e poll_error \<Rightarrow> 's \<Rightarrow> bool \<times> 's"
  po_cancelled :: "'s \<Rightarrow> bool"
  po_wait :: "'s \<Rightarrow> 's"
  po_highLoad :: "'s \<Rightarrow> 's"
  po_hideHighLoad :: "'s \<Rightarrow> 's"

definition race_call :: "('s, 'e, 'a) polling \<Rightarrow> ('s, 'e poll_error, 'a) effect" where
  "race_call p s = (let (r, s') = po_fn p s in (if po_cancelled p s' then Inl PollingCancelledError else r, s'))"

fun pollE_loop :: "('s, 'e, 'a) polling \<Rightarrow> nat option \<Rightarrow> nat \<Rightarrow> nat \<Rightarrow> bool \<Rightarrow> ('s, 'e poll_error, 'a) effect" where
  "pollE_loop p highLoadAt 0 counter toast s =
     (Inl PollingLimitExceededError, if toast then po_hideHighLoad p s else s)"
| "pollE_loop p highLoadAt (Suc left) counter toast s =
     (let show = (counter > 0 \<and> highLoadAt = Some counter);
          s0 = (if show then po_highLoad p s else s);
          s1 = (if counter > 0 then po_wait p s0 else s0);
          toast' = (toast \<or> show);
          leave = (\<lambda>t. if toast' then po_hideHighLoad p t else t)
      in if counter > 0 \<and> po_cancelled p s1 then (Inl PollingCancelledError, leave s1)
         else case race_call p s1 of
             (Inr result, s2) \<Rightarrow> (Inr result, leave s2)
           | (Inl err, s2) \<Rightarrow>
               (let (exit, s3) = po_shouldExit p err s2
                in if exit \<or> err = PollingCancelledError then (Inl err, leave s3)
                   else pollE_loop p highLoadAt left (Suc counter) toast' s3))"

definition pollE :: "poll_options \<Rightarrow> ('s, 'e, 'a) polling \<Rightarrow> ('s, 'e poll_error, 'a) effect" where
  "pollE opts p = pollE_loop p (failuresBeforeHighLoadMessage opts) (maxAttempts opts) 0 False"

text \<open>What the calls and the tests keep, the poll keeps, whatever the number of attempts.\<close>

lemma keeps_pollE_loop:
  assumes "keeps P (po_fn p)" "\<And>e s. P s \<Longrightarrow> P (snd (po_shouldExit p e s))"
    and "\<And>s. P s \<Longrightarrow> P (po_highLoad p s)" "\<And>s. P s \<Longrightarrow> P (po_hideHighLoad p s)" "\<And>s. P s \<Longrightarrow> P (po_wait p s)"
  shows "P s \<Longrightarrow> P (snd (pollE_loop p h left counter toast s))"
proof (induction left arbitrary: counter toast s)
  case 0
  then show ?case using assms(4) by simp
next
  case (Suc left)
  define s0 where "s0 = (if counter > 0 \<and> h = Some counter then po_highLoad p s else s)"
  define s1 where "s1 = (if counter > 0 then po_wait p s0 else s0)"
  have s1: "P s1" using Suc.prems assms(3,5) by (simp add: s0_def s1_def)
  obtain r s2 where call: "race_call p s1 = (r, s2)" by force
  have s2: "P s2" using call s1 assms(1) by (auto simp: race_call_def Let_def dest: keepsD split: prod.splits)
  obtain exit s3 where exit: "po_shouldExit p (projl r) s2 = (exit, s3)" by force
  have s3: "P s3" using assms(2) [OF s2, of "projl r"] exit by simp
  show ?case
    unfolding pollE_loop.simps Let_def s0_def [symmetric] s1_def [symmetric] call
    using s1 s2 s3 exit Suc.IH [OF s3] assms(4) by (cases r) auto
qed

lemma keeps_pollE:
  assumes "keeps P (po_fn p)" "\<And>e s. P s \<Longrightarrow> P (snd (po_shouldExit p e s))"
    and "\<And>s. P s \<Longrightarrow> P (po_highLoad p s)" "\<And>s. P s \<Longrightarrow> P (po_hideHighLoad p s)" "\<And>s. P s \<Longrightarrow> P (po_wait p s)"
  shows "keeps P (pollE opts p)"
  by (rule keepsI) (simp add: pollE_def keeps_pollE_loop [OF assms])

text \<open>
  On calls that depend on the number of the attempt alone this is the loop of Utils: the state counts the
  calls.
\<close>

definition counting_poll :: "('e, 'a) poll_world \<Rightarrow> ('e \<Rightarrow> bool) \<Rightarrow> (nat, 'e, 'a) polling" where
  "counting_poll w shouldExit =
     \<lparr>po_fn = (\<lambda>n. (case pw_fn w (n div 2) of Inl e \<Rightarrow> Inl (FnError e) | Inr x \<Rightarrow> Inr x, Suc n)),
      po_shouldExit = (\<lambda>e n. (case e of FnError e' \<Rightarrow> shouldExit e' | _ \<Rightarrow> False, n)),
      po_cancelled = (\<lambda>n. if even n then pw_cancelled_wait w (n div 2) else pw_cancelled_call w (n div 2)),
      po_wait = Suc, po_highLoad = id, po_hideHighLoad = id\<rparr>"

lemma counting_poll_simps [simp]:
  "po_fn (counting_poll w f) n = (case pw_fn w (n div 2) of Inl e \<Rightarrow> Inl (FnError e) | Inr x \<Rightarrow> Inr x, Suc n)"
  "po_shouldExit (counting_poll w f) e n = (case e of FnError e' \<Rightarrow> f e' | _ \<Rightarrow> False, n)"
  "po_cancelled (counting_poll w f) n = (if even n then pw_cancelled_wait w (n div 2) else pw_cancelled_call w (n div 2))"
  "po_wait (counting_poll w f) n = Suc n" "po_highLoad (counting_poll w f) n = n"
  "po_hideHighLoad (counting_poll w f) n = n"
  by (simp_all add: counting_poll_def)

lemma race_call_counting:
  "race_call (counting_poll w f) n =
     (if (if odd n then pw_cancelled_wait w (Suc n div 2) else pw_cancelled_call w (Suc n div 2))
      then Inl PollingCancelledError
      else case pw_fn w (n div 2) of Inl e \<Rightarrow> Inl (FnError e) | Inr x \<Rightarrow> Inr x, Suc n)"
  by (simp add: race_call_def)

lemma pollE_loop_is_poll_loop:
  "fst (pollE_loop (counting_poll w shouldExit) (failuresBeforeHighLoadMessage opts) left counter toast
      (if counter = 0 then 0 else 2 * counter - 1))
     = fst (poll_loop w shouldExit opts left counter ms waits toast')"
proof (induction left arbitrary: counter toast ms waits toast')
  case (Suc left)
  have IH: "fst (pollE_loop (counting_poll w shouldExit) (failuresBeforeHighLoadMessage opts) left (Suc counter) t (Suc (2 * counter)))
     = fst (poll_loop w shouldExit opts left (Suc counter) ms' ws t')" for t ms' ws t'
    using Suc.IH [of "Suc counter" t ms' ws t'] by simp
  have start: "(if counter > 0 then po_wait (counting_poll w shouldExit) (if counter = 0 then 0 else 2 * counter - 1)
      else (if counter = 0 then 0 else 2 * counter - 1)) = 2 * counter" by simp
  show ?case
    unfolding pollE_loop.simps poll_loop.simps Let_def counting_poll_simps if_cancel start race_call_counting
    using IH by (cases "counter = 0"; cases "pw_cancelled_call w counter"; cases "pw_fn w counter"; simp)
qed simp

text \<open>What a poll returns or throws is what one of its calls did, unless it gave up or was cancelled.\<close>

lemma pollE_loop_result:
  assumes "pollE_loop p h left counter toast s = (r, t)"
  shows "r = Inl PollingLimitExceededError \<or> r = Inl PollingCancelledError \<or> (\<exists>s1 s2. po_fn p s1 = (r, s2))"
  using assms
proof (induction left arbitrary: counter toast s)
  case (Suc left)
  define s0 where "s0 = (if counter > 0 \<and> h = Some counter then po_highLoad p s else s)"
  define s1 where "s1 = (if counter > 0 then po_wait p s0 else s0)"
  obtain q s2 where call: "race_call p s1 = (q, s2)" by force
  have q: "q = Inl PollingCancelledError \<or> po_fn p s1 = (q, s2)"
    using call by (auto simp: race_call_def Let_def split: prod.splits if_splits)
  obtain exit s3 where exit: "po_shouldExit p (projl q) s2 = (exit, s3)" by force
  show ?case
    using Suc.prems q exit Suc.IH
    unfolding pollE_loop.simps Let_def s0_def [symmetric] s1_def [symmetric] call
    by (cases q) (auto split: if_splits)
qed simp

lemma pollE_result:
  "pollE opts p s = (r, t) \<Longrightarrow>
    r = Inl PollingLimitExceededError \<or> r = Inl PollingCancelledError \<or> (\<exists>s1 s2. po_fn p s1 = (r, s2))"
  unfolding pollE_def by (rule pollE_loop_result)

text \<open>A poll makes at most maxAttempts calls: a count that only the calls raise, by one, says so.\<close>

lemma pollE_loop_count:
  fixes f :: "'s \<Rightarrow> nat"
  assumes "\<And>s. f (snd (po_fn p s)) \<le> Suc (f s)" "\<And>e s. f (snd (po_shouldExit p e s)) = f s"
    and "\<And>s. f (po_highLoad p s) = f s" "\<And>s. f (po_hideHighLoad p s) = f s" "\<And>s. f (po_wait p s) = f s"
  shows "f (snd (pollE_loop p h left counter toast s)) \<le> f s + left"
proof (induction left arbitrary: counter toast s)
  case 0
  then show ?case using assms(4) by simp
next
  case (Suc left)
  define s0 where "s0 = (if counter > 0 \<and> h = Some counter then po_highLoad p s else s)"
  define s1 where "s1 = (if counter > 0 then po_wait p s0 else s0)"
  have s1: "f s1 = f s" using assms(3,5) by (simp add: s0_def s1_def)
  obtain q s2 where call: "race_call p s1 = (q, s2)" by force
  have s2: "f s2 \<le> Suc (f s)"
    using call assms(1) [of s1] s1 by (auto simp: race_call_def Let_def split: prod.splits)
  obtain exit s3 where exit: "po_shouldExit p (projl q) s2 = (exit, s3)" by force
  have s3: "f s3 = f s2" using assms(2) [of "projl q" s2] exit by simp
  have IH: "f (snd (pollE_loop p h left (Suc counter) t s3)) \<le> f s + Suc left" for t
    using Suc.IH [of "Suc counter" t s3] s2 s3 by simp
  show ?case
    unfolding pollE_loop.simps Let_def s0_def [symmetric] s1_def [symmetric] call
    using s1 s2 s3 exit IH assms(4) by (cases q) auto
qed

lemma pollE_count:
  fixes f :: "'s \<Rightarrow> nat"
  assumes "\<And>s. f (snd (po_fn p s)) \<le> Suc (f s)" "\<And>e s. f (snd (po_shouldExit p e s)) = f s"
    and "\<And>s. f (po_highLoad p s) = f s" "\<And>s. f (po_hideHighLoad p s) = f s" "\<And>s. f (po_wait p s) = f s"
  shows "f (snd (pollE opts p s)) \<le> f s + maxAttempts opts"
  unfolding pollE_def by (rule pollE_loop_count [OF assms])

subsection \<open>How much an effect may raise a count\<close>

definition raises :: "('s \<Rightarrow> nat) \<Rightarrow> nat \<Rightarrow> ('s, 'e, 'a) effect \<Rightarrow> bool" where
  "raises f k m \<longleftrightarrow> (\<forall>s r t. m s = (r, t) \<longrightarrow> f t \<le> f s + k)"

lemma raisesI: "(\<And>s. f (snd (m s)) \<le> f s + k) \<Longrightarrow> raises f k m"
  unfolding raises_def by (metis snd_conv)

lemma raisesD: "raises f k m \<Longrightarrow> m s = (r, t) \<Longrightarrow> f t \<le> f s + k"
  by (simp add: raises_def)

lemma raises_snd: "raises f k m \<Longrightarrow> f (snd (m s)) \<le> f s + k"
  using raisesD [of f k m s "fst (m s)" "snd (m s)"] by simp

lemma raises_mono: "raises f j m \<Longrightarrow> j \<le> k \<Longrightarrow> raises f k m"
  unfolding raises_def by (meson add_left_mono order_trans)

text \<open>An effect that keeps every value of the count raises nothing.\<close>

lemma raises_keeps:
  assumes "\<And>n. keeps (\<lambda>s. f s = n) m"
  shows "raises f 0 m"
proof (rule raisesI)
  show "f (snd (m s)) \<le> f s + 0" for s
    using keeps_snd [OF assms [of "f s"], of s] by simp
qed

lemma le_add_trans: "(a::nat) \<le> b + j \<Longrightarrow> c \<le> a + k \<Longrightarrow> c \<le> b + (j + k)"
  by simp

lemma raises_bindE:
  assumes "raises f j m" "\<And>x. raises f k (g x)"
  shows "raises f (j + k) (bindE m g)"
proof (rule raisesI)
  fix s
  obtain r t where m: "m s = (r, t)" by force
  with assms(1) have "f t \<le> f s + j" by (rule raisesD)
  moreover have "f (snd (g x t)) \<le> f t + k" for x by (rule raises_snd [OF assms(2)])
  ultimately have "f (snd (g x t)) \<le> f s + (j + k)" for x by (rule le_add_trans)
  with m \<open>f t \<le> f s + j\<close> show "f (snd (bindE m g s)) \<le> f s + (j + k)" by (cases r) (simp_all add: bindE_def)
qed

lemma raises_thenE: "raises f j m \<Longrightarrow> raises f k n \<Longrightarrow> raises f (j + k) (thenE m n)"
  unfolding thenE_def by (rule raises_bindE)

lemma raises_catchE:
  assumes "raises f j m" "\<And>e. raises f k (h e)"
  shows "raises f (j + k) (catchE m h)"
proof (rule raisesI)
  fix s
  obtain r t where m: "m s = (r, t)" by force
  with assms(1) have "f t \<le> f s + j" by (rule raisesD)
  moreover have "f (snd (h e t)) \<le> f t + k" for e by (rule raises_snd [OF assms(2)])
  ultimately have "f (snd (h e t)) \<le> f s + (j + k)" for e by (rule le_add_trans)
  with m \<open>f t \<le> f s + j\<close> show "f (snd (catchE m h s)) \<le> f s + (j + k)" by (cases r) (simp_all add: catchE_def)
qed

lemma raises_finallyE: "raises f k m \<Longrightarrow> (\<And>s. f (g s) = f s) \<Longrightarrow> raises f k (finallyE m g)"
  by (rule raisesI) (auto simp: finallyE_def dest: raisesD split: prod.split)

lemma raises_pollE:
  assumes "raises f 1 (po_fn p)" "\<And>e s. f (snd (po_shouldExit p e s)) = f s"
    and "\<And>s. f (po_highLoad p s) = f s" "\<And>s. f (po_hideHighLoad p s) = f s" "\<And>s. f (po_wait p s) = f s"
  shows "raises f (maxAttempts opts) (pollE opts p)"
  by (rule raisesI, rule pollE_count) (use assms raises_snd [OF assms(1)] in simp_all)

end
