(* ===== verification/SnsProjects.thy ===== *)
theory SnsProjects
  imports Tokens Constants "HOL-Library.Sublist"
begin

text \<open>
  SNS projects and their swaps: types/sns-summary-wrapper.ts, getters/sns-summary.ts,
  utils/projects.utils.ts, utils/sns.utils.ts, derived/sns/sns-projects.derived.ts and
  stores/sns-tickets.store.ts.  fromDefinedNullable throws on an absent value: None.  The comparison of
  summaries as JSON texts, the metrics text and the link to the dashboard are not modelled.
\<close>

subsection \<open>The records\<close>

datatype SnsSwapLifecycle =
  LifecycleUnspecified | LifecyclePending | LifecycleOpen | LifecycleCommitted | LifecycleAborted | LifecycleAdopted

record SnsParams =
  sp_swap_due_timestamp_seconds :: int
  sp_min_icp_e8s :: int
  sp_max_icp_e8s :: int
  sp_min_participants :: int
  sp_min_participant_icp_e8s :: int
  sp_max_participant_icp_e8s :: int
  sp_sns_token_e8s :: int

record SnsSwapInit =
  in_restricted_countries :: "string list option"
  in_confirmation_text :: "string option"
  in_min_direct_participation_icp_e8s :: "int option"
  in_max_direct_participation_icp_e8s :: "int option"
  in_neurons_fund_participation :: "bool option"
  in_max_neurons_fund_participation_icp_e8s :: "int option option"
  in_nns_proposal_id :: "int option"

record SnsSummarySwap =
  sw_init :: "SnsSwapInit option"
  sw_lifecycle :: SnsSwapLifecycle
  sw_decentralization_sale_isOpentimestamp_seconds :: "int option"
  sw_params :: SnsParams

record SnsSwapDerivedState =
  dv_sns_tokens_per_icp :: number
  dv_buyer_total_icp_e8s :: int
  dv_direct_participation_icp_e8s :: "int option"
  dv_neurons_fund_participation_icp_e8s :: "int option"

text \<open>
  The answer of get_derived_state.  buyer_total_icp_e8s is a candid opt that may itself be missing: None
  for a missing field, Some None for the empty array.
\<close>

record SnsGetDerivedStateResponse =
  dr_sns_tokens_per_icp :: "number option"
  dr_buyer_total_icp_e8s :: "int option option"
  dr_direct_participation_icp_e8s :: "int option"
  dr_neurons_fund_participation_icp_e8s :: "int option"

record SnsGetLifecycleResponse =
  lc_lifecycle :: "SnsSwapLifecycle option"
  lc_decentralization_sale_isOpentimestamp_seconds :: "int option"

record SnsSummary =
  su_rootCanisterId :: string
  su_swapCanisterId :: string
  su_governanceCanisterId :: string
  su_ledgerCanisterId :: string
  su_indexCanisterId :: string
  su_swap :: SnsSummarySwap
  su_derived :: SnsSwapDerivedState
  su_init :: "SnsSwapInit option"
  su_lifecycle :: SnsGetLifecycleResponse

text \<open>myCommitment.icp, a candid opt of a record with the amount.\<close>

record SnsSwapCommitment =
  sc_rootCanisterId :: string
  sc_myCommitment :: "int option option"

record SnsFullProject =
  fp_rootCanisterId :: string
  fp_summary :: SnsSummary
  fp_swapCommitment :: "SnsSwapCommitment option"

subsection \<open>types/sns-summary-wrapper.ts\<close>

definition getLifecycle :: "SnsSummary \<Rightarrow> SnsSwapLifecycle option" where
  "getLifecycle summary = lc_lifecycle (su_lifecycle summary)"

definition getSwapDueTimestampSeconds :: "SnsSummary \<Rightarrow> int" where
  "getSwapDueTimestampSeconds summary = sp_swap_due_timestamp_seconds (sw_params (su_swap summary))"

definition getMinIcpE8s :: "SnsSummary \<Rightarrow> int" where
  "getMinIcpE8s summary = sp_min_icp_e8s (sw_params (su_swap summary))"

definition getMaxIcpE8s :: "SnsSummary \<Rightarrow> int" where
  "getMaxIcpE8s summary = sp_max_icp_e8s (sw_params (su_swap summary))"

definition getMinParticipants :: "SnsSummary \<Rightarrow> int" where
  "getMinParticipants summary = sp_min_participants (sw_params (su_swap summary))"

definition getMinParticipantIcpE8s :: "SnsSummary \<Rightarrow> int" where
  "getMinParticipantIcpE8s summary = sp_min_participant_icp_e8s (sw_params (su_swap summary))"

definition getMaxParticipantIcpE8s :: "SnsSummary \<Rightarrow> int" where
  "getMaxParticipantIcpE8s summary = sp_max_participant_icp_e8s (sw_params (su_swap summary))"

definition getSnsTokenE8s :: "SnsSummary \<Rightarrow> int" where
  "getSnsTokenE8s summary = sp_sns_token_e8s (sw_params (su_swap summary))"

definition overrideDerivedState :: "SnsSwapDerivedState \<Rightarrow> SnsSummary \<Rightarrow> SnsSummary" where
  "overrideDerivedState newDerivedState summary = summary\<lparr>su_derived := newDerivedState\<rparr>"

definition overrideLifecycleResponse :: "SnsGetLifecycleResponse \<Rightarrow> SnsSummary \<Rightarrow> SnsSummary" where
  "overrideLifecycleResponse newLifecycle summary =
     (case lc_lifecycle newLifecycle of
        None \<Rightarrow> summary
      | Some lifecycle \<Rightarrow>
          summary\<lparr>su_swap := (su_swap summary)\<lparr>sw_lifecycle := lifecycle,
              sw_decentralization_sale_isOpentimestamp_seconds :=
                lc_decentralization_sale_isOpentimestamp_seconds newLifecycle\<rparr>,
            su_lifecycle := newLifecycle\<rparr>)"

definition overrideLifecycle :: "SnsSwapLifecycle \<Rightarrow> SnsSummary \<Rightarrow> SnsSummary" where
  "overrideLifecycle lifecycle summary =
     overrideLifecycleResponse ((su_lifecycle summary)\<lparr>lc_lifecycle := Some lifecycle\<rparr>) summary"

subsection \<open>getters/sns-summary.ts\<close>

definition getDeniedCountries :: "SnsSummary \<Rightarrow> string list" where
  "getDeniedCountries summary = nullish_or (Option.bind (sw_init (su_swap summary)) in_restricted_countries) []"

definition getConditionsToAccept :: "SnsSummary \<Rightarrow> string option" where
  "getConditionsToAccept summary = Option.bind (sw_init (su_swap summary)) in_confirmation_text"

definition getNeuronsFundParticipation :: "SnsSummary \<Rightarrow> int option" where
  "getNeuronsFundParticipation summary = dv_neurons_fund_participation_icp_e8s (su_derived summary)"

definition getMinDirectParticipation :: "SnsSummary \<Rightarrow> int option" where
  "getMinDirectParticipation summary = Option.bind (su_init summary) in_min_direct_participation_icp_e8s"

definition getMaxDirectParticipation :: "SnsSummary \<Rightarrow> int option" where
  "getMaxDirectParticipation summary = Option.bind (su_init summary) in_max_direct_participation_icp_e8s"

definition getMaxNeuronsFundParticipation :: "SnsSummary \<Rightarrow> int option" where
  "getMaxNeuronsFundParticipation summary =
     Option.bind (Option.bind (su_init summary) in_max_neurons_fund_participation_icp_e8s) id"

definition getProjectProposal :: "SnsSummary \<Rightarrow> int option" where
  "getProjectProposal summary = Option.bind (su_init summary) in_nns_proposal_id"

subsection \<open>utils/sns.utils.ts\<close>

text \<open>SubAccount.fromPrincipal and AccountIdentifier.fromPrincipal are of the ledger library.\<close>

definition getSwapCanisterAccount ::
  "(string \<Rightarrow> 'sub) \<Rightarrow> (string \<Rightarrow> 'sub \<Rightarrow> string) \<Rightarrow> string \<Rightarrow> string \<Rightarrow> string" where
  "getSwapCanisterAccount subAccountFromPrincipal accountIdentifier controller swapCanisterId =
     (let principalSubaccount = subAccountFromPrincipal controller
      in accountIdentifier swapCanisterId principalSubaccount)"

definition getCommitmentE8s :: "SnsSwapCommitment option \<Rightarrow> int option" where
  "getCommitmentE8s swapCommitment =
     (case swapCommitment of
        None \<Rightarrow> None
      | Some c \<Rightarrow> Some (nullish_or (Option.bind (sc_myCommitment c) id) 0))"

definition refresh_error_texts :: "string list" where
  "refresh_error_texts =
     [''The token amount can only be refreshed when the canister is in the OPEN state'',
      ''The ICP target for this token swap has already been reached.'',
      ''The swap has already reached its target'',
      ''Amount transferred:'',
      ''New balance:'',
      ''The available balance to be topped up'']"

text \<open>The message of an Error; None for a thrown value that is none.\<close>

definition isInternalRefreshBuyerTokensError :: "string option \<Rightarrow> bool" where
  "isInternalRefreshBuyerTokensError err =
     (case err of
        None \<Rightarrow> False
      | Some message \<Rightarrow> \<exists>text\<in>set refresh_error_texts. sublist text message)"

datatype TicketStatus = TicketStatusUnknown | TicketStatusOpen | TicketStatusNone | TicketStatusLoading

record ticket_account =
  ka_owner :: "string option"
  ka_subaccount :: "nat list option"

record SnsSwapTicket =
  tk_ticket_id :: int
  tk_creation_time :: int
  tk_amount_icp_e8s :: int
  tk_account :: "ticket_account option"

text \<open>The ticket of an entry is undefined, null or a ticket.\<close>

datatype TicketData = TicketUndefined | TicketNull | Ticket SnsSwapTicket

type_synonym SnsTicketsStoreData = "string \<rightharpoonup> TicketData"

definition setTicket :: "string \<Rightarrow> TicketData \<Rightarrow> SnsTicketsStoreData \<Rightarrow> SnsTicketsStoreData" where
  "setTicket rootCanisterId ticket currentState = currentState(rootCanisterId \<mapsto> ticket)"

definition setNoTicket :: "string \<Rightarrow> SnsTicketsStoreData \<Rightarrow> SnsTicketsStoreData" where
  "setNoTicket rootCanisterId currentState = currentState(rootCanisterId \<mapsto> TicketNull)"

definition resetTickets :: "SnsTicketsStoreData \<Rightarrow> SnsTicketsStoreData" where
  "resetTickets currentState = Map.empty"

definition hasOpenTicketInProcess :: "string option \<Rightarrow> SnsTicketsStoreData \<Rightarrow> TicketStatus" where
  "hasOpenTicketInProcess rootCanisterId ticketsStore =
     (case rootCanisterId of
        None \<Rightarrow> TicketStatusUnknown
      | Some i \<Rightarrow>
          (case ticketsStore i of
             None \<Rightarrow> TicketStatusUnknown
           | Some (Ticket t) \<Rightarrow> TicketStatusOpen
           | Some TicketNull \<Rightarrow> TicketStatusNone
           | Some TicketUndefined \<Rightarrow> TicketStatusLoading))"

text \<open>has_auto_finalize_been_attempted and whether auto_finalize_swap_response is present.\<close>

definition isSnsFinalizing :: "bool option \<Rightarrow> 'r option \<Rightarrow> bool" where
  "isSnsFinalizing has_auto_finalize_been_attempted auto_finalize_swap_response \<longleftrightarrow>
     nullish_or has_auto_finalize_been_attempted False \<and> auto_finalize_swap_response = None"

definition derivedStateOf :: "SnsGetDerivedStateResponse \<Rightarrow> number \<Rightarrow> int \<Rightarrow> SnsSwapDerivedState" where
  "derivedStateOf r tokens totalE8s =
     \<lparr>dv_sns_tokens_per_icp = tokens, dv_buyer_total_icp_e8s = totalE8s,
      dv_direct_participation_icp_e8s = dr_direct_participation_icp_e8s r,
      dv_neurons_fund_participation_icp_e8s = dr_neurons_fund_participation_icp_e8s r\<rparr>"

definition convertDerivedStateResponseToDerivedState ::
  "SnsGetDerivedStateResponse \<Rightarrow> SnsSwapDerivedState option" where
  "convertDerivedStateResponseToDerivedState derivedState =
     (case (dr_sns_tokens_per_icp derivedState, Option.bind (dr_buyer_total_icp_e8s derivedState) id) of
        (Some tokens, Some totalE8s) \<Rightarrow> Some (derivedStateOf derivedState tokens totalE8s)
      | _ \<Rightarrow> None)"

definition swapEndedMoreThanOneWeekAgo :: "SnsSummary \<Rightarrow> int \<Rightarrow> bool" where
  "swapEndedMoreThanOneWeekAgo summary now =
     (let oneWeekAgoInSeconds = now - SECONDS_IN_DAY * 7
      in oneWeekAgoInSeconds > getSwapDueTimestampSeconds summary)"

definition MIN_VALID_SNS_GENERIC_NERVOUS_SYSTEM_FUNCTION_ID :: int where
  "MIN_VALID_SNS_GENERIC_NERVOUS_SYSTEM_FUNCTION_ID = 1000"

definition isSnsNativeNervousSystemFunction :: "int \<Rightarrow> bool" where
  "isSnsNativeNervousSystemFunction i \<longleftrightarrow> i < MIN_VALID_SNS_GENERIC_NERVOUS_SYSTEM_FUNCTION_ID"

definition isSnsGenericNervousSystemFunction :: "int \<Rightarrow> bool" where
  "isSnsGenericNervousSystemFunction i \<longleftrightarrow> i \<ge> MIN_VALID_SNS_GENERIC_NERVOUS_SYSTEM_FUNCTION_ID"

definition isSnsGenericNervousSystemTypeProposal :: "int \<Rightarrow> bool" where
  "isSnsGenericNervousSystemTypeProposal action \<longleftrightarrow> action \<ge> MIN_VALID_SNS_GENERIC_NERVOUS_SYSTEM_FUNCTION_ID"

definition isSnsLedgerCanisterId :: "string option \<Rightarrow> SnsFullProject list option \<Rightarrow> bool" where
  "isSnsLedgerCanisterId ledgerCanisterId snsProjects =
     (case (ledgerCanisterId, snsProjects) of
        (Some l, Some ps) \<Rightarrow> (\<exists>p\<in>set ps. su_ledgerCanisterId (fp_summary p) = l)
      | _ \<Rightarrow> False)"

subsection \<open>stores/sns.store.ts and derived/sns/sns-projects.derived.ts\<close>

text \<open>
  The guard on buyer_total_icp_e8s tests the field, not its content: on the empty array fromDefinedNullable
  throws, the outer None.
\<close>

definition convertToDerivedState ::
  "SnsGetDerivedStateResponse \<Rightarrow> SnsSwapDerivedState option option" where
  "convertToDerivedState data =
     (if dr_sns_tokens_per_icp data = None \<or> dr_buyer_total_icp_e8s data = None then Some None
      else case (dr_sns_tokens_per_icp data, dr_buyer_total_icp_e8s data) of
             (Some tokens, Some (Some totalE8s)) \<Rightarrow> Some (Some (derivedStateOf data tokens totalE8s))
           | _ \<Rightarrow> None)"

definition overrideDerivedState_store ::
  "(string \<rightharpoonup> SnsGetDerivedStateResponse) \<Rightarrow> SnsSummary option \<Rightarrow> SnsSummary option option" where
  "overrideDerivedState_store derivedStore summary =
     (case summary of
        None \<Rightarrow> Some None
      | Some s \<Rightarrow>
          (case derivedStore (su_rootCanisterId s) of
             None \<Rightarrow> Some (Some s)
           | Some response \<Rightarrow>
               (case convertToDerivedState response of
                  None \<Rightarrow> None
                | Some None \<Rightarrow> Some (Some s)
                | Some (Some converted) \<Rightarrow> Some (Some (overrideDerivedState converted s)))))"

definition overrideLifecycle_store ::
  "(string \<rightharpoonup> SnsGetLifecycleResponse) \<Rightarrow> SnsSummary option \<Rightarrow> SnsSummary option" where
  "overrideLifecycle_store lifecycleStore summary =
     (case summary of
        None \<Rightarrow> None
      | Some s \<Rightarrow>
          (case lifecycleStore (su_rootCanisterId s) of
             None \<Rightarrow> Some s
           | Some response \<Rightarrow> Some (overrideLifecycleResponse response s)))"

text \<open>A map over an array whose function may throw.\<close>

fun map_throws :: "('a \<Rightarrow> 'b option) \<Rightarrow> 'a list \<Rightarrow> 'b list option" where
  "map_throws f [] = Some []"
| "map_throws f (x # xs) =
     (case f x of None \<Rightarrow> None | Some y \<Rightarrow> map_option (\<lambda>ys. y # ys) (map_throws f xs))"

fun filter_throws :: "('a \<Rightarrow> bool option) \<Rightarrow> 'a list \<Rightarrow> 'a list option" where
  "filter_throws f [] = Some []"
| "filter_throws f (x # xs) =
     (case f x of
        None \<Rightarrow> None
      | Some b \<Rightarrow> map_option (\<lambda>ys. if b then x # ys else ys) (filter_throws f xs))"

text \<open>aggregatorSummaries are the converted data of the aggregator, None before they are loaded.\<close>

definition snsSummariesStore ::
  "SnsSummary option list option \<Rightarrow> (string \<rightharpoonup> SnsGetDerivedStateResponse) \<Rightarrow>
     (string \<rightharpoonup> SnsGetLifecycleResponse) \<Rightarrow> SnsSummary list option" where
  "snsSummariesStore aggregatorSummaries derivedStates lifecycles =
     (case aggregatorSummaries of
        None \<Rightarrow> Some []
      | Some ss \<Rightarrow>
          map_option (\<lambda>overridden. List.map_filter id (map (overrideLifecycle_store lifecycles) overridden))
            (map_throws (overrideDerivedState_store derivedStates) ss))"

record commitment_entry =
  ce_swapCommitment :: SnsSwapCommitment
  ce_certified :: bool

definition setSwapCommitment ::
  "SnsSwapCommitment \<Rightarrow> bool \<Rightarrow> commitment_entry list option \<Rightarrow> commitment_entry list option" where
  "setSwapCommitment swapCommitment certified items =
     Some (filter (\<lambda>e. sc_rootCanisterId (ce_swapCommitment e) \<noteq> sc_rootCanisterId swapCommitment)
             (nullish_or items []) @ [\<lparr>ce_swapCommitment = swapCommitment, ce_certified = certified\<rparr>])"

definition snsProjectsStore ::
  "SnsSummary list \<Rightarrow> commitment_entry list option \<Rightarrow> SnsFullProject list" where
  "snsProjectsStore summaries swapStates =
     map (\<lambda>summary.
       (let entry = Option.bind swapStates (List.find (\<lambda>e.
              sc_rootCanisterId (ce_swapCommitment e) = su_rootCanisterId summary))
        in \<lparr>fp_rootCanisterId = su_rootCanisterId summary, fp_summary = summary,
             fp_swapCommitment = map_option ce_swapCommitment entry\<rparr>)) summaries"

text \<open>Object.fromEntries: the last of several entries with a key counts.\<close>

definition snsProjectsRecordStore :: "SnsFullProject list \<Rightarrow> (string \<rightharpoonup> SnsFullProject)" where
  "snsProjectsRecordStore projects =
     foldl (\<lambda>m p. m(fp_rootCanisterId p \<mapsto> p)) Map.empty projects"

subsection \<open>utils/projects.utils.ts\<close>

definition filterProjectsStatus :: "SnsSwapLifecycle \<Rightarrow> SnsFullProject list \<Rightarrow> SnsFullProject list option" where
  "filterProjectsStatus swapLifecycle projects =
     filter_throws (\<lambda>p. map_option (\<lambda>l. swapLifecycle = l) (getLifecycle (fp_summary p))) projects"

definition filterCommittedProjects :: "SnsFullProject list \<Rightarrow> SnsFullProject list option" where
  "filterCommittedProjects projects = filterProjectsStatus LifecycleCommitted projects"

definition filterActiveProjects :: "SnsFullProject list \<Rightarrow> SnsFullProject list option" where
  "filterActiveProjects projects =
     filter_throws (\<lambda>p. map_option (\<lambda>l. List.member [LifecycleCommitted, LifecycleOpen, LifecycleAdopted] l)
       (getLifecycle (fp_summary p))) projects"

definition snsProjectsAdoptedStore :: "SnsFullProject list \<Rightarrow> SnsFullProject list option" where
  "snsProjectsAdoptedStore projects = filterProjectsStatus LifecycleAdopted projects"

definition durationTillSwapDeadline :: "SnsSummarySwap \<Rightarrow> int \<Rightarrow> int" where
  "durationTillSwapDeadline swap now = sp_swap_due_timestamp_seconds (sw_params swap) - now"

definition durationTillSwapStart :: "SnsSummarySwap \<Rightarrow> int \<Rightarrow> int option" where
  "durationTillSwapStart swap now =
     map_option (\<lambda>t. t - now) (sw_decentralization_sale_isOpentimestamp_seconds swap)"

definition currentUserMaxCommitment :: "SnsSummary \<Rightarrow> SnsSwapCommitment option \<Rightarrow> int" where
  "currentUserMaxCommitment summary swapCommitment =
     (let remainingProjectCommitment = getMaxIcpE8s summary - dv_buyer_total_icp_e8s (su_derived summary);
          remainingUserCommitment =
            getMaxParticipantIcpE8s summary - nullish_or (getCommitmentE8s swapCommitment) 0
      in if remainingProjectCommitment < remainingUserCommitment then remainingProjectCommitment
         else remainingUserCommitment)"

definition projectRemainingAmount :: "SnsSummary \<Rightarrow> int" where
  "projectRemainingAmount summary = getMaxIcpE8s summary - dv_buyer_total_icp_e8s (su_derived summary)"

definition isProjectOpen :: "SnsSummary \<Rightarrow> bool option" where
  "isProjectOpen summary = map_option (\<lambda>l. l = LifecycleOpen) (getLifecycle summary)"

definition commitmentTooSmall :: "SnsFullProject \<Rightarrow> TokenAmount \<Rightarrow> bool" where
  "commitmentTooSmall project amount \<longleftrightarrow>
     getMinParticipantIcpE8s (fp_summary project) >
       ta_ulps amount + nullish_or (getCommitmentE8s (fp_swapCommitment project)) 0"

definition commitmentTooLarge :: "SnsSummary \<Rightarrow> int \<Rightarrow> bool" where
  "commitmentTooLarge summary amountE8s \<longleftrightarrow> getMaxParticipantIcpE8s summary < amountE8s"

definition commitmentExceedsAmountLeft :: "SnsSummary \<Rightarrow> int \<Rightarrow> bool" where
  "commitmentExceedsAmountLeft summary amountE8s \<longleftrightarrow> projectRemainingAmount summary < amountE8s"

definition canUserParticipateToSwap :: "SnsSummary option \<Rightarrow> SnsSwapCommitment option \<Rightarrow> bool option" where
  "canUserParticipateToSwap summary swapCommitment =
     (let myCommitment = nullish_or (getCommitmentE8s swapCommitment) 0
      in case summary of
           None \<Rightarrow> Some False
         | Some s \<Rightarrow> map_option (\<lambda>isOpen. isOpen \<and> \<not> commitmentTooLarge s (myCommitment + 1)) (isProjectOpen s))"

definition userCountryIsNeeded :: "SnsSummary option \<Rightarrow> SnsSwapCommitment option \<Rightarrow> bool \<Rightarrow> bool option" where
  "userCountryIsNeeded summary swapCommitment loggedIn =
     map_option (\<lambda>can. can \<and> loggedIn \<and> (case summary of None \<Rightarrow> False | Some s \<Rightarrow> length (getDeniedCountries s) > 0))
       (canUserParticipateToSwap summary swapCommitment)"

definition hasUserParticipatedToSwap :: "SnsSwapCommitment option \<Rightarrow> bool" where
  "hasUserParticipatedToSwap swapCommitment \<longleftrightarrow> nullish_or (getCommitmentE8s swapCommitment) 0 > 0"

record participation =
  pa_valid :: bool
  pa_labelKey :: "string option"
  pa_substitutions :: "(string \<times> string) list"

definition e8s_text :: "int \<Rightarrow> string" where
  "e8s_text v = formatTokenE8s v NotDetailed None True"

definition refused :: "string \<Rightarrow> (string \<times> string) list \<Rightarrow> participation" where
  "refused labelKey substitutions =
     \<lparr>pa_valid = False, pa_labelKey = Some labelKey, pa_substitutions = substitutions\<rparr>"

definition validParticipation :: "SnsFullProject option \<Rightarrow> TokenAmount \<Rightarrow> participation option" where
  "validParticipation project amount =
     (case project of
        None \<Rightarrow> Some (refused ''error__sns.project_not_found'' [])
      | Some p \<Rightarrow>
          (let summary = fp_summary p;
               currentCommitment = nullish_or (getCommitmentE8s (fp_swapCommitment p)) 0;
               totalCommitment = currentCommitment + ta_ulps amount
           in case isProjectOpen summary of
                None \<Rightarrow> None
              | Some isOpen \<Rightarrow> Some (
                  if \<not> isOpen then refused ''error__sns.project_not_open'' []
                  else if commitmentTooSmall p amount then
                    refused ''error__sns.not_enough_amount''
                      [(''$amount'', formatTokenE8s (getMinParticipantIcpE8s summary) Detailed None True)]
                  else if commitmentTooLarge summary totalCommitment then
                    refused ''error__sns.commitment_too_large''
                      [(''$newCommitment'', e8s_text (ta_ulps amount)),
                       (''$currentCommitment'', e8s_text currentCommitment),
                       (''$maxCommitment'', e8s_text (getMaxParticipantIcpE8s summary))]
                  else if commitmentExceedsAmountLeft summary (ta_ulps amount) then
                    refused ''error__sns.commitment_exceeds_current_allowed''
                      [(''$commitment'', e8s_text totalCommitment),
                       (''$remainingCommitment'',
                        e8s_text (getMaxIcpE8s summary - dv_buyer_total_icp_e8s (su_derived summary)))]
                  else \<lparr>pa_valid = True, pa_labelKey = None, pa_substitutions = []\<rparr>)))"

datatype ParticipationButtonStatus =
    DisabledMaxParticipation | DisabledNotEligible | DisabledNotOpen | ButtonEnabled | ButtonLoading | LoggedOut

text \<open>StoreData: not loaded, an Error, or the value; here the iso code of the country.\<close>

datatype 'a StoreData = NotLoaded | LoadError | Loaded 'a

definition participateButtonStatus ::
  "SnsSummary option \<Rightarrow> SnsSwapCommitment option \<Rightarrow> bool \<Rightarrow> TicketData \<Rightarrow> string StoreData \<Rightarrow>
     ParticipationButtonStatus option" where
  "participateButtonStatus summary swapCommitment loggedIn ticket userCountry =
     (if \<not> loggedIn then Some LoggedOut
      else case (summary, getCommitmentE8s swapCommitment) of
        (Some s, Some currentCommitment) \<Rightarrow>
          map_option (\<lambda>isOpen.
            if \<not> isOpen then DisabledNotOpen
            else if ticket = TicketUndefined \<or> ticket \<noteq> TicketNull then ButtonLoading
            else if commitmentTooLarge s (currentCommitment + 1) then DisabledMaxParticipation
            else (let projectDeniedCountries = getDeniedCountries s
                  in if length projectDeniedCountries > 0 then
                       (case userCountry of
                          LoadError \<Rightarrow> ButtonEnabled
                        | NotLoaded \<Rightarrow> ButtonLoading
                        | Loaded isoCode \<Rightarrow>
                            if List.member projectDeniedCountries isoCode then DisabledNotEligible else ButtonEnabled)
                     else ButtonEnabled)) (isProjectOpen s)
      | _ \<Rightarrow> Some ButtonLoading)"

record FullProjectCommitmentSplit =
  cs_totalCommitmentE8s :: int
  cs_directCommitmentE8s :: int
  cs_nfCommitmentE8s :: "int option"
  cs_minDirectCommitmentE8s :: int
  cs_maxDirectCommitmentE8s :: int
  cs_isNFParticipating :: bool

datatype ProjectCommitmentSplit = TotalCommitment int | FullCommitment FullProjectCommitmentSplit

definition getProjectCommitmentSplit :: "SnsSummary \<Rightarrow> ProjectCommitmentSplit" where
  "getProjectCommitmentSplit summary =
     (case (Option.bind (su_init summary) in_neurons_fund_participation,
            dv_direct_participation_icp_e8s (su_derived summary),
            getMinDirectParticipation summary, getMaxDirectParticipation summary) of
        (Some isNFParticipating, Some directCommitmentE8s, Some minDirect, Some maxDirect) \<Rightarrow>
          FullCommitment \<lparr>cs_totalCommitmentE8s = dv_buyer_total_icp_e8s (su_derived summary),
            cs_directCommitmentE8s = directCommitmentE8s,
            cs_nfCommitmentE8s = (if isNFParticipating then getNeuronsFundParticipation summary else None),
            cs_minDirectCommitmentE8s = minDirect, cs_maxDirectCommitmentE8s = maxDirect,
            cs_isNFParticipating = isNFParticipating\<rparr>
      | _ \<Rightarrow> TotalCommitment (dv_buyer_total_icp_e8s (su_derived summary)))"

fun isCommitmentSplitWithNeuronsFund :: "ProjectCommitmentSplit \<Rightarrow> bool" where
  "isCommitmentSplitWithNeuronsFund (FullCommitment s) \<longleftrightarrow> True"
| "isCommitmentSplitWithNeuronsFund (TotalCommitment t) \<longleftrightarrow> False"

subsection \<open>Lemmas\<close>

lemma getLifecycle_override [simp]:
  "getLifecycle (overrideLifecycleResponse r s) = nullish_alt (lc_lifecycle r) (getLifecycle s)"
  by (simp add: overrideLifecycleResponse_def getLifecycle_def nullish_alt_def split: option.split)

lemma rootCanisterId_override [simp]:
  "su_rootCanisterId (overrideLifecycleResponse r s) = su_rootCanisterId s"
  "su_rootCanisterId (overrideDerivedState d s) = su_rootCanisterId s"
  by (simp_all add: overrideLifecycleResponse_def overrideDerivedState_def split: option.split)

text \<open>A map that throws at no element is a map, and throws when it throws at one.\<close>

lemma map_throws_None_iff: "map_throws f xs = None \<longleftrightarrow> (\<exists>x\<in>set xs. f x = None)"
  by (induction xs) (auto split: option.split)

lemma filter_throws_Some:
  "filter_throws f xs = (if \<exists>x\<in>set xs. f x = None then None else Some (filter (\<lambda>x. f x = Some True) xs))"
  by (induction xs) (auto split: option.split)

lemma snsProjectsStore_commitment:
  assumes "items' = setSwapCommitment c certified items"
  shows "map fp_swapCommitment (snsProjectsStore summaries items') =
    map (\<lambda>s. if su_rootCanisterId s = sc_rootCanisterId c then Some c
       else map_option ce_swapCommitment (Option.bind items (List.find (\<lambda>e.
          sc_rootCanisterId (ce_swapCommitment e) = su_rootCanisterId s)))) summaries"
proof -
  have other: "List.find (\<lambda>e. sc_rootCanisterId (ce_swapCommitment e) = r) (filter (\<lambda>e. sc_rootCanisterId (ce_swapCommitment e) \<noteq> q) xs) =
      List.find (\<lambda>e. sc_rootCanisterId (ce_swapCommitment e) = r) xs" if "r \<noteq> q" for r q xs
    using that by (induction xs) auto
  have same: "List.find (\<lambda>e. sc_rootCanisterId (ce_swapCommitment e) = q) (filter (\<lambda>e. sc_rootCanisterId (ce_swapCommitment e) \<noteq> q) xs) = None" for q xs
    by (auto simp: js_simps)
  show ?thesis
    by (cases items) (auto simp: assms snsProjectsStore_def setSwapCommitment_def Let_def find_append other same
        split: option.split)
qed

subsection \<open>Properties\<close>

text \<open>
  An amount is accepted exactly when the swap is open, the commitment with the amount reaches the
  minimum of a participant, and the amount is at most currentUserMaxCommitment, the maximum that the form
  offers: the two computations of the limit agree.  Then neither the participant's nor the project's
  maximum is exceeded.
\<close>

lemma validParticipation_iff:
  "map_option pa_valid (validParticipation (Some p) amount) =
     map_option (\<lambda>lifecycle. lifecycle = LifecycleOpen \<and>
         getMinParticipantIcpE8s (fp_summary p)
           \<le> nullish_or (getCommitmentE8s (fp_swapCommitment p)) 0 + ta_ulps amount \<and>
         ta_ulps amount \<le> currentUserMaxCommitment (fp_summary p) (fp_swapCommitment p))
       (getLifecycle (fp_summary p)) \<and>
   (ta_ulps amount \<le> currentUserMaxCommitment (fp_summary p) (fp_swapCommitment p) \<longleftrightarrow>
      nullish_or (getCommitmentE8s (fp_swapCommitment p)) 0 + ta_ulps amount \<le> getMaxParticipantIcpE8s (fp_summary p) \<and>
      dv_buyer_total_icp_e8s (su_derived (fp_summary p)) + ta_ulps amount \<le> getMaxIcpE8s (fp_summary p))"
proof -
  let ?c = "nullish_or (getCommitmentE8s (fp_swapCommitment p)) 0"
  have limit: "ta_ulps amount \<le> currentUserMaxCommitment (fp_summary p) (fp_swapCommitment p) \<longleftrightarrow>
      \<not> commitmentTooLarge (fp_summary p) (?c + ta_ulps amount) \<and>
      \<not> commitmentExceedsAmountLeft (fp_summary p) (ta_ulps amount)"
    by (auto simp: currentUserMaxCommitment_def commitmentTooLarge_def commitmentExceedsAmountLeft_def
        projectRemainingAmount_def Let_def)
  show ?thesis
    unfolding limit
    by (cases "getLifecycle (fp_summary p)")
      (auto simp: validParticipation_def isProjectOpen_def refused_def commitmentTooSmall_def commitmentTooLarge_def
        commitmentExceedsAmountLeft_def projectRemainingAmount_def Let_def)
qed

text \<open>
  The button to participate is enabled exactly when the user is logged in, the commitment is loaded
  and there is no ticket, the user can still participate, and no country is denied or the country could not
  be found out or is none of the denied ones.
\<close>

lemma participateButton_enabled_iff:
  "participateButtonStatus summary swapCommitment loggedIn ticket userCountry = Some ButtonEnabled \<longleftrightarrow>
     loggedIn \<and> ticket = TicketNull \<and> (\<exists>c. swapCommitment = Some c) \<and>
     canUserParticipateToSwap summary swapCommitment = Some True \<and>
     (userCountryIsNeeded summary swapCommitment loggedIn = Some False \<or> userCountry = LoadError \<or>
      (\<exists>s isoCode. summary = Some s \<and> userCountry = Loaded isoCode \<and> isoCode \<notin> set (getDeniedCountries s)))"
  by (auto simp: participateButtonStatus_def userCountryIsNeeded_def canUserParticipateToSwap_def
      isProjectOpen_def getCommitmentE8s_def Let_def
      split: option.splits StoreData.splits TicketData.splits if_splits)

text \<open>
  The store of the summaries fails as a whole, for all projects, exactly when some loaded project has a
  derived state whose sns_tokens_per_icp is present and whose buyer_total_icp_e8s is the empty array: the
  guard of convertToDerivedState does not see it, although the conversion of utils/sns.utils.ts does.
\<close>

lemma snsSummariesStore_fails_iff:
  "snsSummariesStore (Some ss) derivedStates lifecycles = None \<longleftrightarrow>
     (\<exists>s response. Some s \<in> set ss \<and> derivedStates (su_rootCanisterId s) = Some response \<and>
        (\<exists>tokens. dr_sns_tokens_per_icp response = Some tokens) \<and> dr_buyer_total_icp_e8s response = Some None \<and>
        convertDerivedStateResponseToDerivedState response = None)"
proof -
  have "overrideDerivedState_store derivedStates x = None \<longleftrightarrow>
     (\<exists>s response. x = Some s \<and> derivedStates (su_rootCanisterId s) = Some response \<and>
        (\<exists>tokens. dr_sns_tokens_per_icp response = Some tokens) \<and> dr_buyer_total_icp_e8s response = Some None)" for x
    by (auto simp: overrideDerivedState_store_def convertToDerivedState_def split: option.splits)
  moreover have "dr_buyer_total_icp_e8s r = Some None \<Longrightarrow> convertDerivedStateResponseToDerivedState r = None" for r
    by (simp add: convertDerivedStateResponseToDerivedState_def split: option.split)
  ultimately show ?thesis
    by (auto simp: snsSummariesStore_def map_throws_None_iff)
qed

end
