(* ===== verification/SnsSale.thy ===== *)
theory SnsSale
  imports Effects SnsProjects Accounts
begin

text \<open>
  services/sns-sale.services.ts: the participation in the swap of an SNS.  A ticket is opened at the swap
  canister, its amount is transferred with the id and the creation time of the ticket, the swap canister is
  notified, balances are reloaded.  The canisters, the ledger library and the clock of the browser are
  parameters (record sale_env) that act on a world of their own; the calls, the toasts and the steps of
  the progress are logged.  Between the calls only the canisters' world moves.
\<close>

subsection \<open>Errors, events, state\<close>

datatype GetOpenTicketErrorType = GetTicketSaleClosed | GetTicketSaleNotOpen | GetTicketUnspecified

datatype NewSaleTicketResponseErrorType =
    NewTicketSaleClosed | NewTicketSaleNotOpen | NewTicketExists | NewTicketInvalidUserAmount
  | NewTicketInvalidSubaccount | NewTicketUnspecified

datatype transfer_error =
  InsufficientFundsError | TxDuplicateError | TxTooOldError | TxCreatedInFutureError | OtherTransferError

text \<open>
  A thrown value by its class and its message; None for a value that is not an Error.  A new-ticket error
  carries the existing ticket and the limits of an invalid amount.
\<close>

datatype error_class =
    SnsSwapGetOpenTicketError GetOpenTicketErrorType
  | SnsSwapNewTicketError NewSaleTicketResponseErrorType "SnsSwapTicket option" "(int \<times> int) option"
  | TransferError transfer_error
  | ApiErrorKey
  | LedgerErrorKey "(string \<times> string) list"
  | NotEnoughAmountClass
  | OtherClass

datatype sale_error = Thrown error_class "string option"

datatype SaleStep = StepInitialization | StepTransfer | StepNotify | StepReload | StepDone

record transfer_request =
  tr_to :: string
  tr_amount :: int
  tr_fromSubAccount :: "nat list option"
  tr_createdAt :: int
  tr_memo :: int
  tr_fee :: int

datatype sale_event =
    PollingToastShown nat string
  | PollingToastHidden nat
  | ErrorToast string "(string \<times> string) list"
  | WarnToast string "(string \<times> string) list"
  | SuccessToast string
  | HighLoadShown
  | HighLoadHidden
  | ProgressStep SaleStep
  | CallGetOpenTicket string bool
  | CallNewSaleTicket string int "nat list option"
  | CallTransfer transfer_request
  | CallNotify string string "string option"
  | CallPaymentFailure string
  | CallLoadBalance string
  | CallPostprocess

record 'w sale_env =
  en_identity :: string
  en_fee :: int
  en_project :: "string \<Rightarrow> SnsFullProject option"
  en_accounts :: "Account list"
  en_subAccountFromPrincipal :: "string \<Rightarrow> nat list"
  en_accountIdentifier :: "string \<Rightarrow> nat list \<Rightarrow> string"
  en_nanoSecondsToDateTime :: "int \<Rightarrow> string"
  en_translated :: "string \<Rightarrow> bool"
  en_getOpenTicket :: "string \<Rightarrow> bool \<Rightarrow> 'w \<Rightarrow> (sale_error + SnsSwapTicket option) \<times> 'w"
  en_newSaleTicket :: "string \<Rightarrow> int \<Rightarrow> nat list option \<Rightarrow> 'w \<Rightarrow> (sale_error + SnsSwapTicket) \<times> 'w"
  en_sendICP :: "transfer_request \<Rightarrow> 'w \<Rightarrow> (sale_error + int) \<times> 'w"
  en_notifyParticipation :: "string \<Rightarrow> string \<Rightarrow> string option \<Rightarrow> 'w \<Rightarrow> (sale_error + int) \<times> 'w"
  en_notifyPaymentFailure :: "string \<Rightarrow> 'w \<Rightarrow> (sale_error + unit) \<times> 'w"
  en_loadBalance :: "string \<Rightarrow> 'w \<Rightarrow> (sale_error + unit) \<times> 'w"
  en_postprocess :: "'w \<Rightarrow> (sale_error + unit) \<times> 'w"
  en_wait :: "'w \<Rightarrow> 'w"
  en_openTicketPollCancelled :: "'w \<Rightarrow> bool"

text \<open>
  sa_toastId is the variable toastId of the module, sa_nextToast numbers the toasts, sa_polling says whether
  the poll of the open ticket runs.
\<close>

record 'w sale_state =
  sa_world :: 'w
  sa_tickets :: SnsTicketsStoreData
  sa_toastId :: "nat option"
  sa_nextToast :: nat
  sa_polling :: bool
  sa_log :: "sale_event list"

type_synonym ('w, 'a) sale = "('w sale_state, sale_error poll_error, 'a) effect"

definition log_event :: "sale_event \<Rightarrow> 'w sale_state \<Rightarrow> 'w sale_state" where
  "log_event e s = s\<lparr>sa_log := sa_log s @ [e]\<rparr>"

definition external :: "sale_event \<Rightarrow> ('w \<Rightarrow> (sale_error + 'a) \<times> 'w) \<Rightarrow> ('w, 'a) sale" where
  "external e f s =
     (let (r, w) = f (sa_world s)
      in (case r of Inl err \<Rightarrow> Inl (FnError err) | Inr x \<Rightarrow> Inr x, log_event e (s\<lparr>sa_world := w\<rparr>)))"

definition put_ticket :: "string \<Rightarrow> TicketData \<Rightarrow> 'w sale_state \<Rightarrow> 'w sale_state" where
  "put_ticket rootCanisterId t s = s\<lparr>sa_tickets := setTicket rootCanisterId t (sa_tickets s)\<rparr>"

definition put_no_ticket :: "string \<Rightarrow> 'w sale_state \<Rightarrow> 'w sale_state" where
  "put_no_ticket rootCanisterId s = s\<lparr>sa_tickets := setNoTicket rootCanisterId (sa_tickets s)\<rparr>"

abbreviation toastsError :: "string \<Rightarrow> (string \<times> string) list \<Rightarrow> 'w sale_state \<Rightarrow> 'w sale_state" where
  "toastsError labelKey substitutions \<equiv> log_event (ErrorToast labelKey substitutions)"

abbreviation updateProgress :: "SaleStep \<Rightarrow> ('w, unit) sale" where
  "updateProgress step \<equiv> updateE (log_event (ProgressStep step))"

subsection \<open>Polling for a ticket\<close>

definition hidePollingToast :: "'w sale_state \<Rightarrow> 'w sale_state" where
  "hidePollingToast s =
     (case sa_toastId s of
        None \<Rightarrow> s
      | Some t \<Rightarrow> log_event (PollingToastHidden t) (s\<lparr>sa_toastId := None\<rparr>))"

definition shouldStopPollingTicket :: "sale_error poll_error \<Rightarrow> 'w sale_state \<Rightarrow> bool \<times> 'w sale_state" where
  "shouldStopPollingTicket err s =
     (case err of
        FnError (Thrown (SnsSwapGetOpenTicketError e) m) \<Rightarrow> (True, s)
      | _ \<Rightarrow> (False,
          if sa_toastId s = None
          then log_event (PollingToastShown (sa_nextToast s) ''sns_project_detail.getting_sns_open_ticket'')
                 (s\<lparr>sa_toastId := Some (sa_nextToast s), sa_nextToast := Suc (sa_nextToast s)\<rparr>)
          else s))"

definition WAIT_FOR_TICKET_MILLIS :: int where
  "WAIT_FOR_TICKET_MILLIS = 2 * 1000"

definition MAX_ATTEMPS_FOR_TICKET :: nat where
  "MAX_ATTEMPS_FOR_TICKET = 50"

definition sale_poll_options :: "nat option \<Rightarrow> poll_options" where
  "sale_poll_options attempts =
     \<lparr>maxAttempts = nullish_or attempts (maxAttempts poll_defaults), millisecondsToWait = WAIT_FOR_TICKET_MILLIS,
      useExponentialBackoff = True, failuresBeforeHighLoadMessage = Some 6\<rparr>"

definition sale_polling ::
  "'w sale_env \<Rightarrow> ('w, 'a) sale \<Rightarrow> (sale_error poll_error \<Rightarrow> 'w sale_state \<Rightarrow> bool \<times> 'w sale_state) \<Rightarrow>
     ('w \<Rightarrow> bool) \<Rightarrow> ('w sale_state, sale_error, 'a) polling" where
  "sale_polling env fn shouldExit cancelled =
     \<lparr>po_fn = fn, po_shouldExit = shouldExit, po_cancelled = (\<lambda>s. cancelled (sa_world s)),
      po_wait = (\<lambda>s. s\<lparr>sa_world := en_wait env (sa_world s)\<rparr>),
      po_highLoad = log_event HighLoadShown, po_hideHighLoad = log_event HighLoadHidden\<rparr>"

text \<open>A poll whose id is in use is refused at once.\<close>

definition pollGetOpenTicket ::
  "'w sale_env \<Rightarrow> string \<Rightarrow> bool \<Rightarrow> nat option \<Rightarrow> ('w, SnsSwapTicket option) sale" where
  "pollGetOpenTicket env swapCanisterId certified attempts =
     thenE (updateE (\<lambda>s. s\<lparr>sa_toastId := None\<rparr>))
       (catchE
         (bindE (getE sa_polling) (\<lambda>running.
            if running then throwE PollingCancelledError
            else thenE (updateE (\<lambda>s. s\<lparr>sa_polling := True\<rparr>))
                   (finallyE (pollE (sale_poll_options attempts)
                      (sale_polling env
                        (external (CallGetOpenTicket swapCanisterId certified) (en_getOpenTicket env swapCanisterId certified))
                        shouldStopPollingTicket (en_openTicketPollCancelled env)))
                     (\<lambda>s. s\<lparr>sa_polling := False\<rparr>))))
         (\<lambda>err. if err = PollingLimitExceededError
            then throwE (FnError (Thrown ApiErrorKey (Some ''error.limit_exceeded_getting_open_ticket'')))
            else throwE err))"

fun getTicketErrorMapper :: "GetOpenTicketErrorType \<Rightarrow> string" where
  "getTicketErrorMapper GetTicketSaleClosed = ''error__sns.sns_sale_closed''"
| "getTicketErrorMapper GetTicketSaleNotOpen = ''error__sns.sns_sale_not_open''"
| "getTicketErrorMapper GetTicketUnspecified = ''error__sns.sns_sale_final_error''"

definition loadOpenTicket_error :: "sale_error poll_error \<Rightarrow> string" where
  "loadOpenTicket_error err =
     (case err of
        FnError (Thrown (SnsSwapGetOpenTicketError errorType) _) \<Rightarrow> getTicketErrorMapper errorType
      | FnError (Thrown ApiErrorKey message) \<Rightarrow> nullish_or message []
      | _ \<Rightarrow> ''error__sns.sns_sale_final_error'')"

definition loadOpenTicket :: "'w sale_env \<Rightarrow> string \<Rightarrow> string \<Rightarrow> bool \<Rightarrow> nat option \<Rightarrow> ('w, unit) sale" where
  "loadOpenTicket env rootCanisterId swapCanisterId certified attempts =
     finallyE
       (catchE
         (bindE (pollGetOpenTicket env swapCanisterId certified (nullish_alt attempts (Some MAX_ATTEMPS_FOR_TICKET)))
            (\<lambda>ticket. thenE (updateE hidePollingToast)
               (updateE (case ticket of
                  None \<Rightarrow> put_no_ticket rootCanisterId
                | Some t \<Rightarrow> put_ticket rootCanisterId (Ticket t)))))
         (\<lambda>err. if err = PollingCancelledError then returnE ()
            else thenE (updateE (put_ticket rootCanisterId TicketNull))
                   (updateE (toastsError (loadOpenTicket_error err) []))))
       hidePollingToast"

subsection \<open>A new ticket\<close>

text \<open>
  Errors of other classes have no errorType: they end in the generic toast, as does an invalid amount
  without its limits, whose destructuring throws.  An existing ticket that is not given shows nothing.
\<close>

definition handleNewSaleTicketError ::
  "'w sale_env \<Rightarrow> sale_error poll_error \<Rightarrow> string \<Rightarrow> 'w sale_state \<Rightarrow> 'w sale_state" where
  "handleNewSaleTicketError env err rootCanisterId s =
     (let s' = put_no_ticket rootCanisterId s;
          unexpected = toastsError ''error__sns.sns_sale_unexpected_error'' [] s'
      in case err of
           FnError (Thrown (SnsSwapNewTicketError errorType existingTicket invalidUserAmount) _) \<Rightarrow>
             (case errorType of
                NewTicketSaleClosed \<Rightarrow> toastsError ''error__sns.sns_sale_closed'' [] s'
              | NewTicketSaleNotOpen \<Rightarrow> toastsError ''error__sns.sns_sale_not_open'' [] s'
              | NewTicketExists \<Rightarrow>
                  (case existingTicket of
                     None \<Rightarrow> s'
                   | Some t \<Rightarrow> put_ticket rootCanisterId (Ticket t)
                       (toastsError ''error__sns.sns_sale_proceed_with_existing_ticket''
                          [(''$time'', en_nanoSecondsToDateTime env (tk_creation_time t))] s'))
              | NewTicketInvalidUserAmount \<Rightarrow>
                  (case invalidUserAmount of
                     None \<Rightarrow> unexpected
                   | Some (minAmount, maxAmount) \<Rightarrow>
                       toastsError ''error__sns.sns_sale_invalid_amount''
                         [(''$min'', e8s_text minAmount), (''$max'', e8s_text maxAmount)] s')
              | NewTicketInvalidSubaccount \<Rightarrow> toastsError ''error__sns.sns_sale_invalid_subaccount'' [] s'
              | NewTicketUnspecified \<Rightarrow> toastsError ''error__sns.sns_sale_try_later'' [] s')
         | _ \<Rightarrow> unexpected)"

fun shoulStopPollingNewTicket :: "sale_error poll_error \<Rightarrow> bool" where
  "shoulStopPollingNewTicket (FnError (Thrown (SnsSwapNewTicketError t e i) m)) \<longleftrightarrow> True"
| "shoulStopPollingNewTicket err \<longleftrightarrow> False"

definition pollNewSaleTicket ::
  "'w sale_env \<Rightarrow> string \<Rightarrow> int \<Rightarrow> nat list option \<Rightarrow> ('w, SnsSwapTicket) sale" where
  "pollNewSaleTicket env rootCanisterId amount_icp_e8s subaccount =
     pollE (sale_poll_options None)
       (sale_polling env
          (external (CallNewSaleTicket rootCanisterId amount_icp_e8s subaccount)
             (en_newSaleTicket env rootCanisterId amount_icp_e8s subaccount))
          (\<lambda>err s. (shoulStopPollingNewTicket err, s)) (\<lambda>_. False))"

definition loadNewSaleTicket :: "'w sale_env \<Rightarrow> string \<Rightarrow> int \<Rightarrow> nat list option \<Rightarrow> ('w, unit) sale" where
  "loadNewSaleTicket env rootCanisterId amount_icp_e8s subaccount =
     catchE
       (bindE (pollNewSaleTicket env rootCanisterId amount_icp_e8s subaccount)
          (\<lambda>ticket. updateE (put_ticket rootCanisterId (Ticket ticket))))
       (\<lambda>err. updateE (handleNewSaleTicketError env err rootCanisterId))"

subsection \<open>The participation\<close>

fun error_message :: "sale_error poll_error \<Rightarrow> string option" where
  "error_message (FnError (Thrown c m)) = m"
| "error_message err = None"

text \<open>toToastError of utils/error.utils.ts, its label and its substitutions.\<close>

definition toToastError :: "(string \<Rightarrow> bool) \<Rightarrow> string \<Rightarrow> sale_error poll_error \<Rightarrow> string \<times> (string \<times> string) list" where
  "toToastError translated fallback err =
     ((case error_message err of None \<Rightarrow> fallback | Some m \<Rightarrow> if translated m then m else fallback),
      (case err of FnError (Thrown (LedgerErrorKey substitutions) m) \<Rightarrow> substitutions | _ \<Rightarrow> []))"

definition pollNotifyParticipation :: "'w sale_env \<Rightarrow> string \<Rightarrow> string \<Rightarrow> ('w, int) sale" where
  "pollNotifyParticipation env buyer rootCanisterId =
     (let confirmationText = Option.bind (en_project env rootCanisterId) (\<lambda>p. getConditionsToAccept (fp_summary p))
      in catchE
           (pollE (sale_poll_options None)
              (sale_polling env
                 (external (CallNotify buyer rootCanisterId confirmationText)
                    (en_notifyParticipation env buyer rootCanisterId confirmationText))
                 (\<lambda>err s. (isInternalRefreshBuyerTokensError (error_message err), s)) (\<lambda>_. False)))
           (\<lambda>err. if err = PollingLimitExceededError
              then throwE (FnError (Thrown ApiErrorKey (Some ''error.limit_exceeded_getting_open_ticket'')))
              else throwE err))"

definition removeOpenTicket :: "'w sale_env \<Rightarrow> string \<Rightarrow> ('w, unit) sale" where
  "removeOpenTicket env rootCanisterId =
     catchE (external (CallPaymentFailure rootCanisterId) (en_notifyPaymentFailure env rootCanisterId))
       (\<lambda>_. returnE ())"

definition notifyParticipationAndRemoveTicket ::
  "'w sale_env \<Rightarrow> string \<Rightarrow> bool \<Rightarrow> SnsSwapTicket \<Rightarrow> int \<Rightarrow> ('w, bool) sale" where
  "notifyParticipationAndRemoveTicket env rootCanisterId hasTooOldError ticket userCommitment =
     catchE
       (bindE (pollNotifyParticipation env (en_identity env) rootCanisterId)
          (\<lambda>icp_accepted_participation_e8s.
             if icp_accepted_participation_e8s \<noteq> tk_amount_icp_e8s ticket + userCommitment
             then thenE (updateE (log_event (WarnToast ''error__sns.sns_sale_committed_not_equal_to_amount''
                    [(''$amount'', e8s_text icp_accepted_participation_e8s)]))) (returnE True)
             else returnE True))
       (\<lambda>err. thenE
          (if hasTooOldError \<and> isInternalRefreshBuyerTokensError (error_message err)
           then removeOpenTicket env rootCanisterId else returnE ())
          (thenE (updateE (toastsError ''error__sns.sns_sale_unexpected_and_refresh'' [])) (returnE False)))"

text \<open>isTransferError(err) && !(err instanceof TxCreatedInFutureError)\<close>

fun stop_transfer :: "sale_error poll_error \<Rightarrow> bool" where
  "stop_transfer (FnError (Thrown (TransferError e) m)) \<longleftrightarrow> e \<noteq> TxCreatedInFutureError"
| "stop_transfer err \<longleftrightarrow> False"

definition pollTransfer :: "'w sale_env \<Rightarrow> transfer_request \<Rightarrow> ('w, int) sale" where
  "pollTransfer env request =
     pollE (sale_poll_options None)
       (sale_polling env (external (CallTransfer request) (en_sendICP env request))
          (\<lambda>err s. (stop_transfer err, s)) (\<lambda>_. False))"

definition ticket_request :: "'w sale_env \<Rightarrow> string \<Rightarrow> SnsSwapTicket \<Rightarrow> nat list option \<Rightarrow> transfer_request" where
  "ticket_request env swapCanisterId ticket subaccount =
     \<lparr>tr_to = getSwapCanisterAccount (en_subAccountFromPrincipal env) (en_accountIdentifier env)
        (en_identity env) swapCanisterId,
      tr_amount = tk_amount_icp_e8s ticket, tr_fromSubAccount = subaccount,
      tr_createdAt = tk_creation_time ticket, tr_memo = tk_ticket_id ticket, tr_fee = en_fee env\<rparr>"

text \<open>After the transfer: stop, or go on with hasTooOldError.\<close>

datatype after_transfer = StopFlow | ContinueFlow bool

definition transfer_step :: "'w sale_env \<Rightarrow> string \<Rightarrow> transfer_request \<Rightarrow> ('w, after_transfer) sale" where
  "transfer_step env rootCanisterId request =
     catchE (bindE (pollTransfer env request) (\<lambda>_. returnE (ContinueFlow False)))
       (\<lambda>err. case err of
            FnError (Thrown (TransferError TxDuplicateError) m) \<Rightarrow> returnE (ContinueFlow False)
          | FnError (Thrown (TransferError InsufficientFundsError) m) \<Rightarrow>
              thenE (removeOpenTicket env rootCanisterId)
                (thenE (updateE (toastsError ''error__sns.ledger_insufficient_funds'' []))
                  (thenE (updateE (put_no_ticket rootCanisterId)) (returnE StopFlow)))
          | FnError (Thrown (TransferError TxTooOldError) m) \<Rightarrow> returnE (ContinueFlow True)
          | _ \<Rightarrow>
              thenE (updateE (toastsError ''error__sns.sns_sale_unexpected_error'' []))
                (thenE (updateE (put_no_ticket rootCanisterId)) (returnE StopFlow)))"

definition source_account :: "nat list option \<Rightarrow> Account list \<Rightarrow> Account option" where
  "source_account subaccount accounts =
     List.find (\<lambda>account. case subaccount of
          None \<Rightarrow> ac_type account = AccountMain
        | Some sub \<Rightarrow>
            (case ac_subAccount account of
               None \<Rightarrow> False
             | Some a \<Rightarrow> bytesToHexString sub = bytesToHexString a)) accounts"

definition reload_step :: "'w sale_env \<Rightarrow> string \<Rightarrow> nat list option \<Rightarrow> ('w, bool) sale" where
  "reload_step env rootCanisterId subaccount =
     thenE (updateProgress StepReload)
       (thenE (case source_account subaccount (en_accounts env) of
                 None \<Rightarrow> returnE ()
               | Some account \<Rightarrow>
                   external (CallLoadBalance (ac_identifier account)) (en_loadBalance env (ac_identifier account)))
         (thenE (external CallPostprocess (en_postprocess env))
           (thenE (updateE (log_event (SuccessToast ''sns_project_detail.participate_success'')))
             (thenE (updateE (put_no_ticket rootCanisterId))
               (thenE (updateProgress StepDone) (returnE True))))))"

definition participateInSnsSale ::
  "'w sale_env \<Rightarrow> string \<Rightarrow> string \<Rightarrow> int \<Rightarrow> SnsSwapTicket \<Rightarrow> ('w, bool) sale" where
  "participateInSnsSale env rootCanisterId swapCanisterId userCommitment ticket =
     thenE (updateProgress StepTransfer)
       (case tk_account ticket of
          None \<Rightarrow> throwE (FnError (Thrown OtherClass None))
        | Some ticketAccount \<Rightarrow>
            (case ka_owner ticketAccount of
               None \<Rightarrow> throwE (FnError (Thrown OtherClass None))
             | Some ownerPrincipal \<Rightarrow>
                 if en_identity env \<noteq> ownerPrincipal
                 then thenE (updateE (toastsError ''error__sns.sns_sale_unexpected_error'' [])) (returnE False)
                 else bindE (transfer_step env rootCanisterId
                        (ticket_request env swapCanisterId ticket (ka_subaccount ticketAccount)))
                   (\<lambda>outcome. case outcome of
                        StopFlow \<Rightarrow> returnE False
                      | ContinueFlow hasTooOldError \<Rightarrow>
                          thenE (updateProgress StepNotify)
                            (bindE (notifyParticipationAndRemoveTicket env rootCanisterId hasTooOldError ticket userCommitment)
                              (\<lambda>success. if \<not> success then returnE False
                                 else reload_step env rootCanisterId (ka_subaccount ticketAccount))))))"

definition ticket_of :: "string \<Rightarrow> 'w sale_state \<Rightarrow> SnsSwapTicket option" where
  "ticket_of rootCanisterId s = (case sa_tickets s rootCanisterId of Some (Ticket t) \<Rightarrow> Some t | _ \<Rightarrow> None)"

definition restoreSnsSaleParticipation :: "'w sale_env \<Rightarrow> string \<Rightarrow> string \<Rightarrow> int \<Rightarrow> ('w, unit) sale" where
  "restoreSnsSaleParticipation env rootCanisterId swapCanisterId userCommitment =
     bindE (getE (ticket_of rootCanisterId)) (\<lambda>present.
       if present \<noteq> None then returnE ()
       else thenE (loadOpenTicket env rootCanisterId swapCanisterId True None)
         (bindE (getE (ticket_of rootCanisterId)) (\<lambda>ticket. case ticket of
              None \<Rightarrow> returnE ()
            | Some t \<Rightarrow>
                bindE (participateInSnsSale env rootCanisterId swapCanisterId userCommitment t) (\<lambda>_. returnE ()))))"

text \<open>The checks before a ticket is asked for: the funds of the account, then the limits of the swap.\<close>

definition check_participation :: "'w sale_env \<Rightarrow> TokenAmount \<Rightarrow> string \<Rightarrow> Account \<Rightarrow> ('w, SnsFullProject) sale" where
  "check_participation env amount rootCanisterId account =
     (case assertEnoughAccountFunds account (ta_ulps amount + en_fee env) of
        Inl _ \<Rightarrow> throwE (FnError (Thrown NotEnoughAmountClass (Some ''error.insufficient_funds'')))
      | Inr _ \<Rightarrow>
          (case validParticipation (en_project env rootCanisterId) amount of
             None \<Rightarrow> throwE (FnError (Thrown OtherClass None))
           | Some r \<Rightarrow>
               if \<not> pa_valid r
               then throwE (FnError (Thrown (LedgerErrorKey (pa_substitutions r)) (pa_labelKey r)))
               else (case en_project env rootCanisterId of
                       None \<Rightarrow> throwE (FnError (Thrown OtherClass None))
                     | Some p \<Rightarrow> returnE p)))"

definition initiateSnsSaleParticipation ::
  "'w sale_env \<Rightarrow> TokenAmount \<Rightarrow> string \<Rightarrow> Account \<Rightarrow> int \<Rightarrow> ('w, bool) sale" where
  "initiateSnsSaleParticipation env amount rootCanisterId account userCommitment =
     catchE
       (thenE (updateProgress StepInitialization)
         (bindE (check_participation env amount rootCanisterId account) (\<lambda>project.
            thenE (loadNewSaleTicket env rootCanisterId (ta_ulps amount) (ac_subAccount account))
              (bindE (getE (ticket_of rootCanisterId)) (\<lambda>ticket. case ticket of
                   None \<Rightarrow> returnE False
                 | Some t \<Rightarrow> participateInSnsSale env rootCanisterId (su_swapCanisterId (fp_summary project)) userCommitment t)))))
       (\<lambda>err. case toToastError (en_translated env) ''error__sns.sns_sale_unexpected_error'' err of
          (labelKey, substitutions) \<Rightarrow>
            thenE (updateE (toastsError labelKey substitutions))
              (thenE (updateE (put_no_ticket rootCanisterId)) (returnE False)))"

subsection \<open>What the log says\<close>

definition transfers :: "sale_event list \<Rightarrow> transfer_request list" where
  "transfers = List.map_filter (\<lambda>e. case e of CallTransfer r \<Rightarrow> Some r | _ \<Rightarrow> None)"

definition progress_steps :: "sale_event list \<Rightarrow> SaleStep list" where
  "progress_steps = List.map_filter (\<lambda>e. case e of ProgressStep st \<Rightarrow> Some st | _ \<Rightarrow> None)"

definition notifications :: "sale_event list \<Rightarrow> sale_event list" where
  "notifications = filter (\<lambda>e. case e of CallNotify b r c \<Rightarrow> True | _ \<Rightarrow> False)"

definition payment_failures :: "sale_event list \<Rightarrow> sale_event list" where
  "payment_failures = filter (\<lambda>e. case e of CallPaymentFailure r \<Rightarrow> True | _ \<Rightarrow> False)"

definition ticket_requests :: "sale_event list \<Rightarrow> sale_event list" where
  "ticket_requests = filter (\<lambda>e. case e of CallNewSaleTicket r a sub \<Rightarrow> True | _ \<Rightarrow> False)"

definition shown_toasts :: "sale_event list \<Rightarrow> nat list" where
  "shown_toasts = List.map_filter (\<lambda>e. case e of PollingToastShown t l \<Rightarrow> Some t | _ \<Rightarrow> None)"

definition hidden_toasts :: "sale_event list \<Rightarrow> nat list" where
  "hidden_toasts = List.map_filter (\<lambda>e. case e of PollingToastHidden t \<Rightarrow> Some t | _ \<Rightarrow> None)"

lemma map_filter_append: "List.map_filter f (xs @ ys) = List.map_filter f xs @ List.map_filter f ys"
  by (simp add: List.map_filter_def)

lemma log_append [simp]:
  "transfers (l @ m) = transfers l @ transfers m"
  "progress_steps (l @ m) = progress_steps l @ progress_steps m"
  "notifications (l @ m) = notifications l @ notifications m"
  "payment_failures (l @ m) = payment_failures l @ payment_failures m"
  "ticket_requests (l @ m) = ticket_requests l @ ticket_requests m"
  "shown_toasts (l @ m) = shown_toasts l @ shown_toasts m"
  "hidden_toasts (l @ m) = hidden_toasts l @ hidden_toasts m"
  by (simp_all add: transfers_def progress_steps_def notifications_def payment_failures_def ticket_requests_def
      shown_toasts_def hidden_toasts_def map_filter_append)

lemma log_Cons [simp]:
  "transfers (e # l) = (case e of CallTransfer r \<Rightarrow> [r] | _ \<Rightarrow> []) @ transfers l"
  "progress_steps (e # l) = (case e of ProgressStep st \<Rightarrow> [st] | _ \<Rightarrow> []) @ progress_steps l"
  "notifications (e # l) = (case e of CallNotify b r c \<Rightarrow> [e] | _ \<Rightarrow> []) @ notifications l"
  "payment_failures (e # l) = (case e of CallPaymentFailure r \<Rightarrow> [e] | _ \<Rightarrow> []) @ payment_failures l"
  "ticket_requests (e # l) = (case e of CallNewSaleTicket r a sub \<Rightarrow> [e] | _ \<Rightarrow> []) @ ticket_requests l"
  "shown_toasts (e # l) = (case e of PollingToastShown t m \<Rightarrow> [t] | _ \<Rightarrow> []) @ shown_toasts l"
  "hidden_toasts (e # l) = (case e of PollingToastHidden t \<Rightarrow> [t] | _ \<Rightarrow> []) @ hidden_toasts l"
  by (simp_all add: transfers_def progress_steps_def notifications_def payment_failures_def ticket_requests_def
      shown_toasts_def hidden_toasts_def List.map_filter_def split: sale_event.split)

lemma log_Nil [simp]:
  "transfers [] = []" "progress_steps [] = []" "notifications [] = []" "payment_failures [] = []"
  "ticket_requests [] = []" "shown_toasts [] = []" "hidden_toasts [] = []"
  by (simp_all add: transfers_def progress_steps_def notifications_def payment_failures_def ticket_requests_def
      shown_toasts_def hidden_toasts_def List.map_filter_def)

lemma sale_state_simps [simp]:
  "sa_log (log_event e s) = sa_log s @ [e]" "sa_tickets (log_event e s) = sa_tickets s"
  "sa_world (log_event e s) = sa_world s" "sa_toastId (log_event e s) = sa_toastId s"
  "sa_nextToast (log_event e s) = sa_nextToast s" "sa_polling (log_event e s) = sa_polling s"
  "sa_log (put_ticket r t s) = sa_log s" "sa_world (put_ticket r t s) = sa_world s"
  "sa_toastId (put_ticket r t s) = sa_toastId s" "sa_nextToast (put_ticket r t s) = sa_nextToast s"
  "sa_tickets (put_ticket r t s) = (sa_tickets s)(r \<mapsto> t)"
  "sa_log (put_no_ticket r s) = sa_log s" "sa_world (put_no_ticket r s) = sa_world s"
  "sa_toastId (put_no_ticket r s) = sa_toastId s" "sa_nextToast (put_no_ticket r s) = sa_nextToast s"
  "sa_tickets (put_no_ticket r s) = (sa_tickets s)(r \<mapsto> TicketNull)"
  by (simp_all add: log_event_def put_ticket_def put_no_ticket_def setTicket_def setNoTicket_def)

lemma keeps_external [keeps_intros]:
  assumes "\<And>s w r. P s \<Longrightarrow> f (sa_world s) = (r, w) \<Longrightarrow> P (log_event e (s\<lparr>sa_world := w\<rparr>))"
  shows "keeps P (external e f)"
  by (rule keepsI) (auto simp: external_def Let_def split: prod.split intro: assms)

text \<open>A predicate that the world's moves and the high load message leave alone is kept by a poll whose call
  and whose test on errors keep it.\<close>

lemma keeps_sale_poll [keeps_intros]:
  assumes "keeps P fn" "\<And>e s. P s \<Longrightarrow> P (snd (shouldExit e s))"
    and "\<And>s. P s \<Longrightarrow> P (s\<lparr>sa_world := en_wait env (sa_world s)\<rparr>)"
    and "\<And>s. P s \<Longrightarrow> P (log_event HighLoadShown s)" "\<And>s. P s \<Longrightarrow> P (log_event HighLoadHidden s)"
  shows "keeps P (pollE opts (sale_polling env fn shouldExit c))"
  by (rule keeps_pollE) (use assms in \<open>simp_all add: sale_polling_def\<close>)

lemma keeps_let [keeps_intros]: "keeps P (f x) \<Longrightarrow> keeps P (let y = x in f y)"
  by simp

lemmas participation_defs = participateInSnsSale_def transfer_step_def pollTransfer_def removeOpenTicket_def
  notifyParticipationAndRemoveTicket_def pollNotifyParticipation_def reload_step_def

lemma keeps_case_after_transfer [keeps_intros]:
  "keeps P m \<Longrightarrow> (\<And>b. keeps P (f b)) \<Longrightarrow> keeps P (case v of StopFlow \<Rightarrow> m | ContinueFlow b \<Rightarrow> f b)"
  by (cases v) simp_all

lemma keeps_transfer_errors:
  assumes "\<And>m. keeps P (f m)" "\<And>m. keeps P (g m)" "\<And>m. keeps P (h m)" "keeps P k"
  shows "keeps P (case err of FnError (Thrown (TransferError TxDuplicateError) m) \<Rightarrow> f m
      | FnError (Thrown (TransferError InsufficientFundsError) m) \<Rightarrow> g m
      | FnError (Thrown (TransferError TxTooOldError) m) \<Rightarrow> h m | _ \<Rightarrow> k)"
  using assms by (simp split: poll_error.split sale_error.split error_class.split transfer_error.split)

text \<open>The request of a participation is the one of the ticket; no other transfer is asked for.\<close>

definition request_of :: "'w sale_env \<Rightarrow> string \<Rightarrow> SnsSwapTicket \<Rightarrow> transfer_request option" where
  "request_of env swapCanisterId ticket =
     map_option (\<lambda>a. ticket_request env swapCanisterId ticket (ka_subaccount a)) (tk_account ticket)"

lemma keeps_participation:
  assumes "\<And>req. request_of env swapCanisterId t = Some req \<Longrightarrow> keeps P (external (CallTransfer req) (en_sendICP env req))"
    and "\<And>conf. keeps P (external (CallNotify (en_identity env) r conf) (en_notifyParticipation env (en_identity env) r conf))"
    and "keeps P (external (CallPaymentFailure r) (en_notifyPaymentFailure env r))"
    and "\<And>i. keeps P (external (CallLoadBalance i) (en_loadBalance env i))"
    and "keeps P (external CallPostprocess (en_postprocess env))"
    and "\<And>s. P s \<Longrightarrow> P (s\<lparr>sa_world := en_wait env (sa_world s)\<rparr>)"
    and "\<And>e s. \<lbrakk>\<And>x. e \<noteq> CallTransfer x; \<And>b q d. e \<noteq> CallNotify b q d; \<And>q. e \<noteq> CallPaymentFailure q;
           \<And>i l. e \<noteq> PollingToastShown i l; \<And>i. e \<noteq> PollingToastHidden i; \<And>q a d. e \<noteq> CallNewSaleTicket q a d;
           P s\<rbrakk> \<Longrightarrow> P (log_event e s)"
    and "\<And>s. P s \<Longrightarrow> P (put_no_ticket r s)"
  shows "keeps P (participateInSnsSale env r swapCanisterId c t)"
proof (cases "tk_account t")
  case None
  then show ?thesis
    unfolding participation_defs by simp (intro keeps_intros assms; simp)
next
  case (Some a)
  then have req: "request_of env swapCanisterId t = Some (ticket_request env swapCanisterId t (ka_subaccount a))"
    by (simp add: request_of_def)
  show ?thesis
    unfolding participation_defs Some option.case Let_def
    by (intro keeps_intros keeps_transfer_errors assms(1) [OF req] assms(2-5); simp add: assms(6-8))
qed

text \<open>
  The ledger executes a transfer at most once: a second one with the same content, memo and creation time
  is refused as a duplicate.  executed reads the transfers made off the canisters' world; the other calls
  make none.
\<close>

definition ledger_dedups :: "'w sale_env \<Rightarrow> ('w \<Rightarrow> transfer_request list) \<Rightarrow> bool" where
  "ledger_dedups env executed \<longleftrightarrow>
     (\<forall>req w. executed (snd (en_sendICP env req w)) = executed w \<or>
        req \<notin> set (executed w) \<and> executed (snd (en_sendICP env req w)) = executed w @ [req]) \<and>
     (\<forall>b r c w. executed (snd (en_notifyParticipation env b r c w)) = executed w) \<and>
     (\<forall>r w. executed (snd (en_notifyPaymentFailure env r w)) = executed w) \<and>
     (\<forall>i w. executed (snd (en_loadBalance env i w)) = executed w) \<and>
     (\<forall>w. executed (snd (en_postprocess env w)) = executed w) \<and>
     (\<forall>w. executed (en_wait env w) = executed w)"

text \<open>The participation repeated, after every failure, crash or reload, with the commitments then known.\<close>

definition participations ::
  "'w sale_env \<Rightarrow> string \<Rightarrow> string \<Rightarrow> SnsSwapTicket \<Rightarrow> int list \<Rightarrow> 'w sale_state \<Rightarrow> 'w sale_state" where
  "participations env r swapCanisterId t commitments s =
     foldl (\<lambda>s c. snd (participateInSnsSale env r swapCanisterId c t s)) s commitments"

definition paid_once :: "transfer_request option \<Rightarrow> transfer_request list \<Rightarrow> transfer_request list \<Rightarrow> bool" where
  "paid_once request made0 made \<longleftrightarrow> made = made0 \<or>
     (\<exists>req. request = Some req \<and> req \<notin> set made0 \<and> made = made0 @ [req])"

lemma ledger_dedupsD:
  assumes "ledger_dedups env executed"
  shows "en_sendICP env req w = (q, w') \<Longrightarrow>
      executed w' = executed w \<or> req \<notin> set (executed w) \<and> executed w' = executed w @ [req]"
    and "en_notifyParticipation env b r conf w = (q', w') \<Longrightarrow> executed w' = executed w"
    and "en_notifyPaymentFailure env r w = (q'', w') \<Longrightarrow> executed w' = executed w"
    and "en_loadBalance env i w = (q'', w') \<Longrightarrow> executed w' = executed w"
    and "en_postprocess env w = (q'', w') \<Longrightarrow> executed w' = executed w"
    and "executed (en_wait env w) = executed w"
  using assms unfolding ledger_dedups_def by (metis snd_conv)+

lemma keeps_paid_once:
  fixes env :: "'w sale_env"
  assumes "ledger_dedups env executed"
  shows "keeps (\<lambda>s. paid_once (request_of env swapCanisterId t) made0 (executed (sa_world s)))
    (participateInSnsSale env r swapCanisterId c t)"
proof (rule keeps_participation)
  fix req
  assume req: "request_of env swapCanisterId t = Some req"
  show "keeps (\<lambda>s. paid_once (request_of env swapCanisterId t) made0 (executed (sa_world s)))
      (external (CallTransfer req) (en_sendICP env req))"
    by (rule keeps_external) (auto simp: paid_once_def req dest: ledger_dedupsD(1) [OF assms])
qed (auto intro!: keeps_external simp: ledger_dedupsD(6) [OF assms]
      dest: ledger_dedupsD(2) [OF assms] ledger_dedupsD(3) [OF assms] ledger_dedupsD(4) [OF assms] ledger_dedupsD(5) [OF assms])

lemma keeps_paid_participations:
  assumes "ledger_dedups env executed" "paid_once (request_of env swapCanisterId t) made0 (executed (sa_world s))"
  shows "paid_once (request_of env swapCanisterId t) made0
    (executed (sa_world (participations env r swapCanisterId t commitments s)))"
  using assms(2) unfolding participations_def
proof (induction commitments arbitrary: s)
  case (Cons c cs)
  then show ?case using keeps_snd [OF keeps_paid_once [OF assms(1)]] by simp
qed simp

subsection \<open>The steps of a participation\<close>

lemma keeps_steps_transfer:
  "keeps (\<lambda>s. progress_steps (sa_log s) = S) (transfer_step env r request)"
  unfolding participation_defs by (intro keeps_intros keeps_transfer_errors; simp)

lemma keeps_steps_notify:
  "keeps (\<lambda>s. progress_steps (sa_log s) = S) (notifyParticipationAndRemoveTicket env r b t c)"
  unfolding participation_defs Let_def by (intro keeps_intros; simp)

definition sale_steps :: "SaleStep list" where
  "sale_steps = [StepTransfer, StepNotify, StepReload, StepDone]"

lemma reload_steps:
  assumes "reload_step env r sub s = (q, t)"
  shows "progress_steps (sa_log t) = progress_steps (sa_log s) @ [StepReload] \<and> q \<noteq> Inr True \<or>
    progress_steps (sa_log t) = progress_steps (sa_log s) @ [StepReload, StepDone] \<and> q = Inr True \<and>
      sa_tickets t r = Some TicketNull"
  using assms
  by (auto simp: reload_step_def thenE_def bindE_def updateE_def external_def returnE_def Let_def
      split: option.splits prod.splits sum.splits)

lemma participation_steps:
  assumes "participateInSnsSale env r swapCanisterId c t s = (q, s')"
  shows "\<exists>n>0. n \<le> 4 \<and> progress_steps (sa_log s') = progress_steps (sa_log s) @ take n sale_steps \<and>
    (q = Inr True \<longleftrightarrow> n = 4) \<and> (n = 4 \<longrightarrow> sa_tickets s' r = Some TicketNull)"
proof -
  define s1 where "s1 = log_event (ProgressStep StepTransfer) s"
  have s1: "progress_steps (sa_log s1) = progress_steps (sa_log s) @ [StepTransfer]" by (simp add: s1_def)
  have early: ?thesis
    if "q \<noteq> Inr True" "progress_steps (sa_log s') = progress_steps (sa_log s) @ [StepTransfer]"
    using that by (intro exI [of _ 1]) (simp add: sale_steps_def)
  have notified: ?thesis
    if "q \<noteq> Inr True" "progress_steps (sa_log s') = progress_steps (sa_log s) @ [StepTransfer, StepNotify]"
    using that by (intro exI [of _ 2]) (simp add: sale_steps_def)
  show ?thesis
  proof (cases "\<exists>a. tk_account t = Some a \<and> ka_owner a = Some (en_identity env)")
    case False
    with assms early show ?thesis
      by (auto simp: participateInSnsSale_def effect_defs split: option.splits if_splits)
  next
    case True
    then obtain a where a: "tk_account t = Some a" "ka_owner a = Some (en_identity env)" by auto
    obtain o1 s2 where tr: "transfer_step env r (ticket_request env swapCanisterId t (ka_subaccount a)) s1 = (o1, s2)"
      by force
    have s2: "progress_steps (sa_log s2) = progress_steps (sa_log s) @ [StepTransfer]"
      using keepsD [OF keeps_steps_transfer tr] s1 by simp
    show ?thesis
    proof (cases "\<exists>b. o1 = Inr (ContinueFlow b)")
      case False
      then have "q \<noteq> Inr True \<and> s' = s2"
        using assms a tr by (cases o1)
          (auto simp: participateInSnsSale_def s1_def bindE_def returnE_def split: after_transfer.splits)
      with early s2 show ?thesis by simp
    next
      case True
      then obtain b where b: "o1 = Inr (ContinueFlow b)" by auto
      define s3 where "s3 = log_event (ProgressStep StepNotify) s2"
      obtain o2 s4 where no: "notifyParticipationAndRemoveTicket env r b t c s3 = (o2, s4)" by force
      have s4: "progress_steps (sa_log s4) = progress_steps (sa_log s) @ [StepTransfer, StepNotify]"
        using keepsD [OF keeps_steps_notify no] s2 by (simp add: s3_def)
      have run: "participateInSnsSale env r swapCanisterId c t s =
          (case o2 of Inl e \<Rightarrow> (Inl e, s4)
           | Inr ok \<Rightarrow> if ok then reload_step env r (ka_subaccount a) s4 else (Inr False, s4))"
        using a tr no by (simp add: participateInSnsSale_def s1_def [symmetric] bindE_def b s3_def [symmetric]
            returnE_def split: sum.split)
      show ?thesis
      proof (cases "o2 = Inr True")
        case False
        then have "q \<noteq> Inr True \<and> s' = s4" using assms run by (auto split: sum.splits if_splits)
        with notified s4 show ?thesis by simp
      next
        case True
        then have "reload_step env r (ka_subaccount a) s4 = (q, s')" using assms run by simp
        from reload_steps [OF this] s4 show ?thesis
        proof (elim disjE conjE)
          assume "progress_steps (sa_log s') = progress_steps (sa_log s4) @ [StepReload]" "q \<noteq> Inr True"
          with s4 show ?thesis by (intro exI [of _ 3]) (simp add: sale_steps_def)
        next
          assume "progress_steps (sa_log s') = progress_steps (sa_log s4) @ [StepReload, StepDone]" "q = Inr True"
            "sa_tickets s' r = Some TicketNull"
          with s4 show ?thesis by (intro exI [of _ 4]) (simp add: sale_steps_def)
        qed
      qed
    qed
  qed
qed

subsection \<open>When the ticket is given up\<close>

lemma pollTransfer_result:
  assumes "pollTransfer env req s = (q, t)"
  shows "q = Inl PollingLimitExceededError \<or> q = Inl PollingCancelledError \<or>
    (\<exists>w. q = (case fst (en_sendICP env req w) of Inl err \<Rightarrow> Inl (FnError err) | Inr x \<Rightarrow> Inr x))"
proof -
  have "fst (external (CallTransfer req) (en_sendICP env req) u) =
      (case fst (en_sendICP env req (sa_world u)) of Inl err \<Rightarrow> Inl (FnError err) | Inr x \<Rightarrow> Inr x)" for u
    by (simp add: external_def Let_def split: prod.split)
  then show ?thesis
    using pollE_result [OF assms [unfolded pollTransfer_def]] fst_conv [of q]
    by (simp add: sale_polling_def) (metis fst_conv)
qed

lemma keeps_failures_transfer: "keeps (\<lambda>s. payment_failures (sa_log s) = F) (pollTransfer env req)"
  unfolding pollTransfer_def by (intro keeps_intros; simp)

lemma keeps_failures_notify: "keeps (\<lambda>s. payment_failures (sa_log s) = F) (notifyParticipationAndRemoveTicket env r False t c)"
  unfolding participation_defs Let_def simp_thms if_False by (intro keeps_intros; simp)

lemma keeps_failures_reload: "keeps (\<lambda>s. payment_failures (sa_log s) = F) (reload_step env r sub)"
  unfolding participation_defs by (intro keeps_intros; simp)

definition transfer_given_up :: "(sale_error + int) \<Rightarrow> bool" where
  "transfer_given_up q \<longleftrightarrow> (case q of
     Inl (Thrown (TransferError e) m) \<Rightarrow> e = InsufficientFundsError \<or> e = TxTooOldError | _ \<Rightarrow> False)"

lemma transfer_step_accepted:
  assumes "\<And>w. \<not> transfer_given_up (fst (en_sendICP env req w))" "transfer_step env r req s = (o1, s2)"
  shows "payment_failures (sa_log s2) = payment_failures (sa_log s) \<and> o1 \<noteq> Inr (ContinueFlow True)"
proof -
  obtain q s1 where poll: "pollTransfer env req s = (q, s1)" by force
  have kept: "payment_failures (sa_log s1) = payment_failures (sa_log s)"
    using keepsD [OF keeps_failures_transfer poll] by simp
  have error: "e \<noteq> FnError (Thrown (TransferError InsufficientFundsError) m) \<and>
      e \<noteq> FnError (Thrown (TransferError TxTooOldError) m)" if "q = Inl e" for e m
  proof -
    have False if w: "q = (case fst (en_sendICP env req w) of Inl err \<Rightarrow> Inl (FnError err) | Inr x \<Rightarrow> Inr x)"
        and e: "e = FnError (Thrown (TransferError k) m)" "k = InsufficientFundsError \<or> k = TxTooOldError" for w k
      using assms(1) [of w] w e \<open>q = Inl e\<close>
      by (cases "fst (en_sendICP env req w)") (auto simp: transfer_given_up_def)
    then show ?thesis using pollTransfer_result [OF poll] that by auto
  qed
  show ?thesis
    using assms(2) poll kept error
    by (cases q) (auto simp: transfer_step_def catchE_def bindE_def returnE_def thenE_def updateE_def
        split: poll_error.splits sale_error.splits error_class.splits transfer_error.splits)
qed

lemma after_transfer_cases:
  "x \<noteq> Inr (ContinueFlow True) \<Longrightarrow> (\<exists>e. x = Inl e) \<or> x = Inr StopFlow \<or> x = Inr (ContinueFlow False)"
  by (metis (full_types) after_transfer.exhaust sum.exhaust)

lemma participation_accepted:
  assumes "\<And>req w. \<not> transfer_given_up (fst (en_sendICP env req w))"
  shows "keeps (\<lambda>s. payment_failures (sa_log s) = F) (participateInSnsSale env r swapCanisterId c t)"
proof (rule keepsI)
  fix s :: "'a sale_state"
  assume F: "payment_failures (sa_log s) = F"
  define s1 where "s1 = log_event (ProgressStep StepTransfer) s"
  have s1: "payment_failures (sa_log s1) = F" using F by (simp add: s1_def)
  show "payment_failures (sa_log (snd (participateInSnsSale env r swapCanisterId c t s))) = F"
  proof (cases "tk_account t")
    case (Some a)
    let ?req = "ticket_request env swapCanisterId t (ka_subaccount a)"
    obtain o1 s2 where tr: "transfer_step env r ?req s1 = (o1, s2)" by force
    have s2: "payment_failures (sa_log s2) = F" and o1: "o1 \<noteq> Inr (ContinueFlow True)"
      using transfer_step_accepted [OF assms tr] s1 by auto
    define rest where "rest = bindE (notifyParticipationAndRemoveTicket env r False t c)
        (\<lambda>success. if \<not> success then returnE False else reload_step env r (ka_subaccount a))"
    have "keeps (\<lambda>s. payment_failures (sa_log s) = F) rest"
      unfolding rest_def by (intro keeps_intros keeps_failures_notify keeps_failures_reload)
    from keeps_snd [OF this, of "log_event (ProgressStep StepNotify) s2"] s2
    have rest: "payment_failures (sa_log (snd (rest (log_event (ProgressStep StepNotify) s2)))) = F" by simp
    show ?thesis
    proof (cases "ka_owner a = Some (en_identity env)")
      case False
      with Some s1 show ?thesis
        by (simp add: participateInSnsSale_def s1_def [symmetric] throwE_def returnE_def split: option.split)
    next
      case True
      have run: "participateInSnsSale env r swapCanisterId c t s =
          (case o1 of Inl e \<Rightarrow> (Inl e, s2) | Inr StopFlow \<Rightarrow> (Inr False, s2)
           | Inr (ContinueFlow b) \<Rightarrow> rest (log_event (ProgressStep StepNotify) s2))"
        using Some True tr after_transfer_cases [OF o1]
        by (elim disjE exE) (simp_all add: participateInSnsSale_def s1_def [symmetric] bindE_def [of "transfer_step env r ?req"]
            rest_def returnE_def)
      show ?thesis unfolding run using s2 rest by (simp split: sum.split after_transfer.split)
    qed
  qed (simp add: participateInSnsSale_def throwE_def F)
qed

subsection \<open>How many calls a participation makes\<close>

lemma raises_updateE: "(\<And>s. f (g s) = f s) \<Longrightarrow> raises f 0 (updateE g)"
  by (rule raisesI) (simp add: updateE_def)

lemma participation_transfer_count:
  "raises (\<lambda>s. length (transfers (sa_log s))) 10 (participateInSnsSale env r swapCanisterId c t)"
proof (cases "tk_account t")
  case (Some a)
  let ?f = "\<lambda>s. length (transfers (sa_log s))" and ?req = "ticket_request env swapCanisterId t (ka_subaccount a)"
  have poll: "raises ?f 10 (pollTransfer env ?req)"
  proof -
    have "raises ?f (maxAttempts (sale_poll_options None)) (pollTransfer env ?req)"
      unfolding pollTransfer_def
      by (rule raises_pollE) (auto simp: sale_polling_def external_def Let_def intro!: raisesI split: prod.split)
    then show ?thesis by (simp add: sale_poll_options_def poll_defaults_def)
  qed
  have step: "raises ?f (10 + 0) (transfer_step env r ?req)"
    unfolding transfer_step_def removeOpenTicket_def
    by (rule raises_catchE [where j = 10 and k = 0], rule raises_bindE [where j = 10 and k = 0, simplified], rule poll,
        rule raises_keeps, intro keeps_intros, rule raises_keeps,
        intro keeps_intros keeps_transfer_errors; simp)
  have later: "raises ?f 0 (thenE (updateProgress StepNotify)
      (bindE (notifyParticipationAndRemoveTicket env r b t c)
        (\<lambda>success. if \<not> success then returnE False else reload_step env r (ka_subaccount a))))" for b
    unfolding participation_defs Let_def by (rule raises_keeps) (intro keeps_intros; simp)
  have all: "raises ?f (10 + 0) (bindE (transfer_step env r ?req) (\<lambda>outcome. case outcome of
      StopFlow \<Rightarrow> returnE False
    | ContinueFlow hasTooOldError \<Rightarrow> thenE (updateProgress StepNotify)
        (bindE (notifyParticipationAndRemoveTicket env r hasTooOldError t c)
          (\<lambda>success. if \<not> success then returnE False else reload_step env r (ka_subaccount a)))))"
    by (rule raises_bindE) (use step later in \<open>auto split: after_transfer.split intro: raises_keeps keeps_intros\<close>)
  have none: "raises ?f 10 (thenE (updateE (toastsError l [])) (returnE False))" "raises ?f 10 (throwE e)" for l e
    by (rule raises_mono [where j = 0], rule raises_keeps, intro keeps_intros; simp)+
  have "raises ?f (0 + 10) (participateInSnsSale env r swapCanisterId c t)"
    unfolding participateInSnsSale_def Some option.case
    by (rule raises_thenE) (use all none in \<open>auto split: option.split intro: raises_updateE\<close>)
  then show ?thesis by simp
qed (simp add: participateInSnsSale_def raises_def effect_defs)

subsection \<open>The toast of the poll\<close>

definition visible_toasts :: "'w sale_state \<Rightarrow> nat set" where
  "visible_toasts s = set (shown_toasts (sa_log s)) - set (hidden_toasts (sa_log s))"

text \<open>The ids of the toasts in the log are below the next one.\<close>

definition toasts_numbered :: "'w sale_state \<Rightarrow> bool" where
  "toasts_numbered s \<longleftrightarrow>
     list_all (\<lambda>i. i < sa_nextToast s) (shown_toasts (sa_log s) @ hidden_toasts (sa_log s))"

text \<open>Besides the toasts V that were there, at most the one of the module's variable is visible.\<close>

definition polling_toast_ok :: "nat set \<Rightarrow> 'w sale_state \<Rightarrow> bool" where
  "polling_toast_ok V s \<longleftrightarrow> toasts_numbered s \<and> visible_toasts s = V \<union> set_option (sa_toastId s) \<and>
     (\<forall>i. sa_toastId s = Some i \<longrightarrow> i < sa_nextToast s \<and> i \<notin> V)"

lemma toast_facts:
  "visible_toasts (log_event e s) =
     (set (shown_toasts (sa_log s)) \<union> set (shown_toasts [e])) - (set (hidden_toasts (sa_log s)) \<union> set (hidden_toasts [e]))"
  "visible_toasts (s\<lparr>sa_world := w\<rparr>) = visible_toasts s" "visible_toasts (s\<lparr>sa_polling := b\<rparr>) = visible_toasts s"
  "visible_toasts (s\<lparr>sa_toastId := i\<rparr>) = visible_toasts s"
  "visible_toasts (put_ticket r t s) = visible_toasts s" "visible_toasts (put_no_ticket r s) = visible_toasts s"
  by (auto simp: visible_toasts_def)

lemma polling_toast_shown:
  assumes "polling_toast_ok V s"
  shows "polling_toast_ok V (snd (shouldStopPollingTicket err s))"
proof (cases "sa_toastId s")
  case None
  have "sa_nextToast s \<notin> V" "sa_nextToast s \<notin> set (hidden_toasts (sa_log s))"
    using assms by (auto simp: polling_toast_ok_def toasts_numbered_def visible_toasts_def list_all_iff)
  then have "polling_toast_ok V (log_event (PollingToastShown (sa_nextToast s) m)
      (s\<lparr>sa_toastId := Some (sa_nextToast s), sa_nextToast := Suc (sa_nextToast s)\<rparr>))" for m
    using assms None
    by (auto simp: polling_toast_ok_def toasts_numbered_def visible_toasts_def list_all_iff less_Suc_eq)
  with assms None show ?thesis
    by (auto simp: shouldStopPollingTicket_def split: poll_error.split sale_error.split error_class.split)
next
  case (Some i)
  with assms show ?thesis
    by (auto simp: shouldStopPollingTicket_def split: poll_error.split sale_error.split error_class.split)
qed

lemma polling_toast_other:
  assumes "polling_toast_ok V s" "shown_toasts [e] = []" "hidden_toasts [e] = []"
  shows "polling_toast_ok V (log_event e s)"
  using assms unfolding polling_toast_ok_def toasts_numbered_def toast_facts(1)
  by (simp add: visible_toasts_def del: log_Cons)

lemma polling_toast_same:
  assumes "polling_toast_ok V s" "sa_log t = sa_log s" "sa_toastId t = sa_toastId s" "sa_nextToast t = sa_nextToast s"
  shows "polling_toast_ok V t"
  using assms by (simp add: polling_toast_ok_def toasts_numbered_def visible_toasts_def)

lemma hidePollingToast_ok:
  assumes "polling_toast_ok V s"
  shows "polling_toast_ok V (hidePollingToast s)" "visible_toasts (hidePollingToast s) = V"
    "sa_toastId (hidePollingToast s) = None"
  using assms
  by (auto simp: hidePollingToast_def polling_toast_ok_def toasts_numbered_def visible_toasts_def list_all_iff
      split: option.split)

lemma keeps_polling_toast:
  "keeps (polling_toast_ok V)
     (finallyE (pollE opts (sale_polling env (external (CallGetOpenTicket i b) f) shouldStopPollingTicket c))
       (\<lambda>s. s\<lparr>sa_polling := False\<rparr>))"
proof (intro keeps_finallyE keeps_sale_poll keeps_external)
  show "polling_toast_ok V (log_event (CallGetOpenTicket i b) (s\<lparr>sa_world := w\<rparr>))" if "polling_toast_ok V s" for s w
    by (rule polling_toast_other [OF polling_toast_same [OF that]]) simp_all
qed (auto intro: polling_toast_shown polling_toast_other elim: polling_toast_same)

lemma keeps_loadOpenTicket_after_reset:
  fixes env :: "'w sale_env"
  assumes "polling_toast_ok V (s\<lparr>sa_toastId := None\<rparr>)"
  shows "visible_toasts (snd (loadOpenTicket env r i b n s)) = V \<and>
    sa_toastId (snd (loadOpenTicket env r i b n s)) = None"
proof -
  define body :: "('w, SnsSwapTicket option) sale" where "body =
    bindE (getE sa_polling) (\<lambda>running.
      if running then throwE PollingCancelledError
      else thenE (updateE (\<lambda>s. s\<lparr>sa_polling := True\<rparr>))
        (finallyE (pollE (sale_poll_options (nullish_alt n (Some MAX_ATTEMPS_FOR_TICKET)))
          (sale_polling env (external (CallGetOpenTicket i b) (en_getOpenTicket env i b))
            shouldStopPollingTicket (en_openTicketPollCancelled env)))
          (\<lambda>s. s\<lparr>sa_polling := False\<rparr>)))"
  define handled where "handled = catchE body (\<lambda>err. if err = PollingLimitExceededError
      then throwE (FnError (Thrown ApiErrorKey (Some ''error.limit_exceeded_getting_open_ticket'')))
      else throwE err)"
  define rest where "rest = catchE
      (bindE handled (\<lambda>ticket. thenE (updateE hidePollingToast)
         (updateE (case ticket of None \<Rightarrow> put_no_ticket r | Some t \<Rightarrow> put_ticket r (Ticket t)))))
      (\<lambda>err. if err = PollingCancelledError then returnE ()
         else thenE (updateE (put_ticket r TicketNull)) (updateE (toastsError (loadOpenTicket_error err) [])))"
  have body: "keeps (polling_toast_ok V) body"
    unfolding body_def by (intro keeps_intros keeps_polling_toast) (auto elim: polling_toast_same)
  have handled: "keeps (polling_toast_ok V) handled"
    unfolding handled_def by (intro keeps_intros body)
  have rest: "keeps (polling_toast_ok V) rest"
    unfolding rest_def
    by (intro keeps_intros handled)
      (auto intro: hidePollingToast_ok polling_toast_other elim: polling_toast_same split: option.split)
  have load: "loadOpenTicket env r i b n s = finallyE rest hidePollingToast (s\<lparr>sa_toastId := None\<rparr>)"
    by (simp add: loadOpenTicket_def pollGetOpenTicket_def rest_def handled_def body_def finallyE_def catchE_def
        bindE_def thenE_def updateE_def)
  have "polling_toast_ok V (snd (rest (s\<lparr>sa_toastId := None\<rparr>)))" by (rule keeps_snd [OF rest assms])
  from hidePollingToast_ok [OF this] show ?thesis
    unfolding load by (simp add: finallyE_def split_beta)
qed

text \<open>A toast that the variable has lost stays.\<close>

definition lost_toast :: "nat \<Rightarrow> 'w sale_state \<Rightarrow> bool" where
  "lost_toast i s \<longleftrightarrow> i \<in> visible_toasts s \<and> sa_toastId s \<noteq> Some i \<and> i < sa_nextToast s"

lemma lost_toast_shown: "lost_toast i s \<Longrightarrow> lost_toast i (snd (shouldStopPollingTicket err s))"
  by (auto simp: shouldStopPollingTicket_def lost_toast_def visible_toasts_def
      split: poll_error.split sale_error.split error_class.split)

lemma lost_toast_other: "lost_toast i s \<Longrightarrow> hidden_toasts [e] = [] \<Longrightarrow> lost_toast i (log_event e s)"
  by (simp add: lost_toast_def toast_facts(1) del: log_Cons) (simp add: visible_toasts_def)

lemma lost_toast_same:
  "lost_toast i s \<Longrightarrow> sa_log t = sa_log s \<Longrightarrow> sa_toastId t = sa_toastId s \<Longrightarrow> sa_nextToast t = sa_nextToast s \<Longrightarrow>
    lost_toast i t"
  by (simp add: lost_toast_def visible_toasts_def)

lemma lost_toast_hide: "lost_toast i s \<Longrightarrow> lost_toast i (hidePollingToast s)"
  by (auto simp: hidePollingToast_def lost_toast_def visible_toasts_def split: option.split)

text \<open>The rest of a load whose poll has begun.\<close>

definition rest_of_load :: "'w sale_env \<Rightarrow> string \<Rightarrow> bool \<Rightarrow> nat \<Rightarrow> nat \<Rightarrow> bool \<Rightarrow> 'w sale_state \<Rightarrow> 'w sale_state" where
  "rest_of_load env i b left counter toast s =
     hidePollingToast (snd (pollE_loop
       (sale_polling env (external (CallGetOpenTicket i b) (en_getOpenTicket env i b))
          shouldStopPollingTicket (en_openTicketPollCancelled env)) (Some 6) left counter toast s))"

lemma keeps_lost_toast:
  assumes "lost_toast t s"
  shows "lost_toast t (rest_of_load env i b left counter toast s)"
  unfolding rest_of_load_def
proof (rule lost_toast_hide, rule keeps_pollE_loop)
  show "keeps (lost_toast t) (po_fn (sale_polling env (external (CallGetOpenTicket i b) (en_getOpenTicket env i b))
      shouldStopPollingTicket (en_openTicketPollCancelled env)))"
    unfolding sale_polling_def polling.select_convs
    by (rule keeps_external, rule lost_toast_other, erule lost_toast_same) simp_all
qed (use assms in \<open>auto simp: sale_polling_def intro: lost_toast_shown lost_toast_other elim: lost_toast_same\<close>)

subsection \<open>Properties\<close>

text \<open>Canisters for the examples: the world is the list of the transfers made.\<close>

definition sale_example :: "SnsFullProject option \<Rightarrow> transfer_request list sale_env" where
  "sale_example project =
     \<lparr>en_identity = ''me'', en_fee = 10000, en_project = (\<lambda>_. project), en_accounts = [],
      en_subAccountFromPrincipal = (\<lambda>_. [1]), en_accountIdentifier = (\<lambda>p sub. p),
      en_nanoSecondsToDateTime = (\<lambda>_. []), en_translated = (\<lambda>_. True),
      en_getOpenTicket = (\<lambda>i b w. (Inr None, w)), en_newSaleTicket = (\<lambda>i a sub w. (Inl (Thrown OtherClass None), w)),
      en_sendICP = (\<lambda>req w. if List.member w req then (Inl (Thrown (TransferError TxDuplicateError) None), w)
         else (Inr 1, w @ [req])),
      en_notifyParticipation = (\<lambda>b i c w. (Inr 5, w)), en_notifyPaymentFailure = (\<lambda>i w. (Inr (), w)),
      en_loadBalance = (\<lambda>i w. (Inr (), w)), en_postprocess = (\<lambda>w. (Inr (), w)), en_wait = (\<lambda>w. w),
      en_openTicketPollCancelled = (\<lambda>w. False)\<rparr>"

definition ticket_example :: SnsSwapTicket where
  "ticket_example = \<lparr>tk_ticket_id = 7, tk_creation_time = 3, tk_amount_icp_e8s = 5,
     tk_account = Some \<lparr>ka_owner = Some ''me'', ka_subaccount = None\<rparr>\<rparr>"

definition fresh_sale :: "'w \<Rightarrow> 'w sale_state" where
  "fresh_sale w = \<lparr>sa_world = w, sa_tickets = Map.empty, sa_toastId = None, sa_nextToast = 0, sa_polling = False, sa_log = []\<rparr>"

lemma sale_example_dedups: "ledger_dedups (sale_example p) (\<lambda>w. w)"
  by (simp add: ledger_dedups_def sale_example_def)

text \<open>
  C11: However often the participation with a ticket is run, after failures, reloads or crashes, and
  whatever the canisters answer, the ledger debits the user at most once, by the transfer of the ticket's
  amount: every attempt sends the same request, with the ticket's id as memo and its creation time, and the
  ledger refuses the second as a duplicate.
\<close>

theorem participation_pays_once:
  assumes "ledger_dedups env executed"
  shows "executed (sa_world (participations env rootCanisterId swapCanisterId ticket commitments s)) = executed (sa_world s) \<or>
    (\<exists>a. tk_account ticket = Some a \<and>
       ticket_request env swapCanisterId ticket (ka_subaccount a) \<notin> set (executed (sa_world s)) \<and>
       executed (sa_world (participations env rootCanisterId swapCanisterId ticket commitments s)) =
         executed (sa_world s) @ [ticket_request env swapCanisterId ticket (ka_subaccount a)])"
proof -
  have "paid_once (request_of env swapCanisterId ticket) (executed (sa_world s)) (executed (sa_world s))"
    by (simp add: paid_once_def)
  from keeps_paid_participations [OF assms this] show ?thesis
    by (auto simp: paid_once_def request_of_def)
qed

theorem participation_pays_once_witness:
  "let s = participations (sale_example None) ''root'' ''swap'' ticket_example [0, 5] (fresh_sale [])
   in sa_world s = [] \<or> (\<exists>a. tk_account ticket_example = Some a \<and>
     sa_world s = [ticket_request (sale_example None) ''swap'' ticket_example (ka_subaccount a)])"
  using participation_pays_once [OF sale_example_dedups, of None "''root''" "''swap''" ticket_example "[0, 5]" "fresh_sale []"]
  unfolding Let_def by (auto simp: fresh_sale_def)

text \<open>
  C30: A participation goes through the steps transfer, notify, reload, done in this order and stops after
  one of them; it reports success exactly when it reaches the last, and then the store has no ticket for the
  project, so that the button is enabled again.
\<close>

theorem participation_progress:
  "case participateInSnsSale env rootCanisterId swapCanisterId userCommitment ticket s of (q, s') \<Rightarrow>
     \<exists>n. 0 < n \<and> n \<le> 4 \<and>
       progress_steps (sa_log s') =
         progress_steps (sa_log s) @ take n [StepTransfer, StepNotify, StepReload, StepDone] \<and>
       (q = Inr True \<longleftrightarrow> n = 4) \<and> (n < 4 \<or> sa_tickets s' rootCanisterId = Some TicketNull)"
  using participation_steps [of env rootCanisterId swapCanisterId userCommitment ticket s]
  by (auto simp: sale_steps_def le_less)

text \<open>
  C31: The ticket is given up (notify_payment_failure) only when the ledger refuses the transfer for lack of
  funds or as too old: as long as it gives neither answer, no participation gives a ticket up, whatever else
  fails.
\<close>

theorem ticket_kept_unless_transfer_refused:
  assumes "\<And>req w. \<not> transfer_given_up (fst (en_sendICP env req w))"
  shows "payment_failures (sa_log (snd (participateInSnsSale env rootCanisterId swapCanisterId c ticket s))) =
    payment_failures (sa_log s)"
  by (rule keeps_snd [OF participation_accepted [OF assms]]) simp

theorem ticket_kept_unless_transfer_refused_witness:
  "payment_failures (sa_log (snd (participateInSnsSale (sale_example None) ''root'' ''swap'' 0 ticket_example (fresh_sale [])))) = []"
  using ticket_kept_unless_transfer_refused [of "sale_example None" "''root''" "''swap''" 0 ticket_example "fresh_sale []"]
  by (simp add: sale_example_def transfer_given_up_def fresh_sale_def)

text \<open>
  C32: A participation asks the ledger for at most ten transfers, also when the ledger never answers or always
  asks to try again.
\<close>

theorem participation_call_bound:
  "length (transfers (sa_log (snd (participateInSnsSale env rootCanisterId swapCanisterId c ticket s))))
     \<le> length (transfers (sa_log s)) + 10"
  by (rule raises_snd [OF participation_transfer_count])

text \<open>
  Loading the open ticket leaves no polling toast behind: afterwards exactly the toasts are visible that
  were before, and the module's variable is empty, whether a ticket came, the poll failed or was cancelled.
\<close>

lemma polling_toast_removed:
  assumes "toasts_numbered s"
  shows "visible_toasts (snd (loadOpenTicket env rootCanisterId swapCanisterId certified attempts s)) = visible_toasts s \<and>
    sa_toastId (snd (loadOpenTicket env rootCanisterId swapCanisterId certified attempts s)) = None"
  by (rule keeps_loadOpenTicket_after_reset)
    (use assms in \<open>simp add: polling_toast_ok_def toasts_numbered_def visible_toasts_def\<close>)

theorem polling_toast_removed_witness:
  "visible_toasts (snd (loadOpenTicket (sale_example None) ''root'' ''swap'' True None (fresh_sale []))) = {} \<and>
   sa_toastId (snd (loadOpenTicket (sale_example None) ''root'' ''swap'' True None (fresh_sale []))) = None"
  using polling_toast_removed [of "fresh_sale []" "sale_example None" "''root''" "''swap''" True None]
  by (simp add: toasts_numbered_def fresh_sale_def visible_toasts_def)

text \<open>
  A second load of the open ticket while the first still polls is refused, but it resets the module's
  variable before it is refused; a toast that the first poll has shown is then never hidden, however that
  poll goes on.
\<close>

lemma second_load_loses_toast:
  assumes "sa_polling s" "sa_toastId s = Some i" "i \<in> visible_toasts s" "i < sa_nextToast s"
  shows "loadOpenTicket env rootCanisterId swapCanisterId certified attempts s = (Inr (), s\<lparr>sa_toastId := None\<rparr>) \<and>
    i \<in> visible_toasts (rest_of_load env' swapCanisterId' certified' left counter toast
      (snd (loadOpenTicket env rootCanisterId swapCanisterId certified attempts s)))"
proof -
  have load: "loadOpenTicket env rootCanisterId swapCanisterId certified attempts s = (Inr (), s\<lparr>sa_toastId := None\<rparr>)"
    using assms(1) by (simp add: loadOpenTicket_def pollGetOpenTicket_def effect_defs hidePollingToast_def)
  have "lost_toast i (s\<lparr>sa_toastId := None\<rparr>)"
    using assms by (simp add: lost_toast_def toast_facts)
  from keeps_lost_toast [OF this] load show ?thesis by (simp add: lost_toast_def)
qed

theorem second_load_loses_toast_witness:
  "let s = log_event (PollingToastShown 0 []) ((fresh_sale [])\<lparr>sa_polling := True, sa_toastId := Some 0, sa_nextToast := 1\<rparr>)
   in 0 \<in> visible_toasts (rest_of_load (sale_example None) ''swap'' True 49 1 False
      (snd (loadOpenTicket (sale_example None) ''root'' ''swap'' True None s)))"
  unfolding Let_def
  by (rule conjunct2 [OF second_load_loses_toast]) (simp_all add: visible_toasts_def fresh_sale_def)

text \<open>
  Without the funds for the amount and the fee, or with an amount that the swap does not accept, no
  canister is called: the participation reports failure, shows one error and leaves no ticket, so that the
  button is enabled again.
\<close>

lemma initiate_refused:
  assumes "ac_balanceUlps account < ta_ulps amount + en_fee env \<or>
    map_option pa_valid (validParticipation (en_project env rootCanisterId) amount) = Some False"
  shows "\<exists>labelKey substitutions.
    initiateSnsSaleParticipation env amount rootCanisterId account userCommitment s =
      (Inr False, put_no_ticket rootCanisterId (log_event (ErrorToast labelKey substitutions)
         (log_event (ProgressStep StepInitialization) s)))"
proof -
  have "\<exists>err. check_participation env amount rootCanisterId account = throwE err"
    using assms by (auto simp: check_participation_def assertEnoughAccountFunds_def)
  then obtain err where err: "check_participation env amount rootCanisterId account = throwE err" by auto
  then show ?thesis
    by (cases "toToastError (en_translated env) ''error__sns.sns_sale_unexpected_error'' err")
      (auto simp: initiateSnsSaleParticipation_def err effect_defs)
qed

theorem initiate_refused_witness:
  "\<exists>labelKey substitutions.
    initiateSnsSaleParticipation (sale_example None) \<lparr>ta_ulps = 5, ta_token = \<lparr>token_decimals = 8, token_symbol = ''ICP''\<rparr>\<rparr> ''root''
      \<lparr>ac_identifier = ''a'', ac_principal = None, ac_balanceUlps = 0, ac_name = None, ac_subAccount = None,
       ac_type = AccountMain, ac_icpIdentifier = None\<rparr> 0 (fresh_sale []) =
      (Inr False, put_no_ticket ''root'' (log_event (ErrorToast labelKey substitutions)
         (log_event (ProgressStep StepInitialization) (fresh_sale []))))"
  by (rule initiate_refused) (simp add: sale_example_def)

end
