(* ===== verification/NeuronServices.thy ===== *)
theory NeuronServices
  imports Effects QueryAndUpdate NeuronsStore SnsNeuronChecks
begin

text \<open>
  services/neurons.services.ts with the identities and transfers of services/icp-accounts.services.ts and the
  version check of services/icp-ledger.services.ts: the operations on NNS neurons.  The canisters, the Ledger
  device and the client libraries are parameters (record nns_env) that act on a world of their own; the calls,
  with the identity that signs them, the toasts and the busy screen are logged.  An identity is its class and
  its principal.  A promise that never settles is the error NeverSettles, which no handler catches.
\<close>

subsection \<open>Errors\<close>

text \<open>The classes that the services throw or tell apart; a message is None on a value that is not an Error.\<close>

datatype nns_error_class =
    NotFoundError | NotAuthorizedNeuronError | InvalidAmountError | CouldNotClaimNeuronError
  | InsufficientAmountNNSError | InvalidSenderError | InsufficientFundsErr | InvalidAccountIDError
  | InvalidPercentageError | GovernanceErrorClass | TransferErrorClass | CannotBeMergedError
  | NotEnoughAmount | LedgerErrorMessageClass | TxTooOldErr | TxCreatedInFutureErr | OtherErrorClass

datatype nns_error = NnsError nns_error_class "string option" | NeverSettles

text \<open>The label of mapNeuronErrorToToastMessage: the first class of the list that the error is an instance of.\<close>

fun neuronMapper :: "nns_error_class \<Rightarrow> string option" where
  "neuronMapper NotFoundError = Some ''error.neuron_not_found''"
| "neuronMapper NotAuthorizedNeuronError = Some ''error.not_authorized_neuron_action''"
| "neuronMapper InvalidAmountError = Some ''error.amount_not_valid''"
| "neuronMapper CouldNotClaimNeuronError = Some ''error.neuron_not_found''"
| "neuronMapper InsufficientAmountNNSError = Some ''error.amount_not_enough_stake_neuron''"
| "neuronMapper InvalidSenderError = Some ''error.invalid_sender''"
| "neuronMapper InsufficientFundsErr = Some ''error.insufficient_funds''"
| "neuronMapper InvalidAccountIDError = Some ''error.invalid_account_id''"
| "neuronMapper InvalidPercentageError = Some ''error.invalid_percentage''"
| "neuronMapper GovernanceErrorClass = Some ''error.governance_error''"
| "neuronMapper TransferErrorClass = Some ''error.transfer_error''"
| "neuronMapper TxTooOldErr = Some ''error.transfer_error''"
| "neuronMapper TxCreatedInFutureErr = Some ''error.transfer_error''"
| "neuronMapper CannotBeMergedError = Some ''error.cannot_merge''"
| "neuronMapper NotEnoughAmount = Some ''error.amount_not_enough_stake_neuron''"
| "neuronMapper LedgerErrorMessageClass = None"
| "neuronMapper OtherErrorClass = None"

text \<open>translated says which messages are keys of a translation.\<close>

fun mapNeuronErrorToToastMessage :: "(string \<Rightarrow> bool) \<Rightarrow> nns_error \<Rightarrow> string" where
  "mapNeuronErrorToToastMessage translated (NnsError c m) =
     (if c = LedgerErrorMessageClass then []
      else case m of
             Some key \<Rightarrow> if translated key then key else nullish_or (neuronMapper c) ''error.unknown''
           | None \<Rightarrow> nullish_or (neuronMapper c) ''error.unknown'')"
| "mapNeuronErrorToToastMessage translated NeverSettles = []"

subsection \<open>Identities, calls, state\<close>

datatype nns_identity = AuthIdentity string | LedgerIdentityOf string | AnonymousIdentity

datatype gov_call =
    GovStake int string "nat list option" int nns_identity
  | GovChangeVisibility int bool
  | GovIncreaseDissolveDelay int int
  | GovJoinCommunityFund int
  | GovLeaveCommunityFund int
  | GovAutoStakeMaturity int bool
  | GovMerge int int
  | GovSimulateMerge int int
  | GovAddHotkey int string
  | GovRemoveHotkey int string
  | GovSplit int int
  | GovDisburse int string
  | GovStakeMaturity int int
  | GovSpawn int "int option"
  | GovStartDissolving int
  | GovStopDissolving int
  | GovSetFollowees int Topic "int list"
  | GovClaimOrRefresh int
  | GovClaimByMemo int string

datatype nns_event =
    CallGov gov_call nns_identity
  | CallQueryNeuron int nns_identity bool
  | CallQueryNeurons nns_identity bool
  | CallBalance string nns_identity bool
  | CallSend string string int nns_identity
  | CallReloadBalance string
  | CallTypedTransfer string
  | ShowError string
  | ShowToast string
  | ShowSuccess string
  | StartBusy string
  | StopBusy string

text \<open>
  nv_auth is the principal of the signed-in user; nv_createLedger connects the device and answers its
  principal.  A governance call answers the id of the neuron where it gives one.
\<close>

record 'w nns_env =
  nv_auth :: "string option"
  nv_anonymous :: string
  nv_ownCanisterId :: string
  nv_accounts :: IcpAccountsStoreData
  nv_fee :: int
  nv_numberToE8s :: "number \<Rightarrow> int option"
  nv_translated :: "string \<Rightarrow> bool"
  nv_principalToAccountIdentifier :: "string \<Rightarrow> string"
  nv_validPrincipal :: "string \<Rightarrow> bool"
  nv_memoToNeuronAccountIdentifier :: "string \<Rightarrow> int \<Rightarrow> string"
  nv_validIcrc :: "string \<Rightarrow> bool"
  nv_validIcp :: "string \<Rightarrow> bool"
  nv_createLedger :: "'w \<Rightarrow> (nns_error + string) \<times> 'w"
  nv_ledgerVersion :: "string \<Rightarrow> 'w \<Rightarrow> (nns_error + int list) \<times> 'w"
  nv_governance :: "gov_call \<Rightarrow> nns_identity \<Rightarrow> 'w \<Rightarrow> (nns_error + int option) \<times> 'w"
  nv_simulateMerge :: "int \<Rightarrow> int \<Rightarrow> nns_identity \<Rightarrow> 'w \<Rightarrow> (nns_error + NeuronInfo) \<times> 'w"
  nv_queryNeuron :: "int \<Rightarrow> nns_identity \<Rightarrow> bool \<Rightarrow> 'w \<Rightarrow> (nns_error + NeuronInfo option) \<times> 'w"
  nv_queryNeurons :: "nns_identity \<Rightarrow> bool \<Rightarrow> 'w \<Rightarrow> (nns_error + NeuronInfo list) \<times> 'w"
  nv_queryBalance :: "string \<Rightarrow> 'w \<Rightarrow> (nns_error + int) \<times> 'w"
  nv_send :: "string \<Rightarrow> nat list option \<Rightarrow> int \<Rightarrow> nns_identity \<Rightarrow> 'w \<Rightarrow> (nns_error + unit) \<times> 'w"
  nv_reloadBalance :: "string \<Rightarrow> 'w \<Rightarrow> 'w"
  nv_updateFirst :: bool

record 'w nns_state =
  nn_world :: 'w
  nn_neurons :: NeuronsStore
  nn_checked :: checked_store
  nn_log :: "nns_event list"

type_synonym ('w, 'a) nns = "('w nns_state, nns_error, 'a) effect"

definition note_event :: "nns_event \<Rightarrow> 'w nns_state \<Rightarrow> 'w nns_state" where
  "note_event e s = s\<lparr>nn_log := nn_log s @ [e]\<rparr>"

definition outside :: "nns_event \<Rightarrow> ('w \<Rightarrow> (nns_error + 'a) \<times> 'w) \<Rightarrow> ('w, 'a) nns" where
  "outside e f s = (let (r, w) = f (nn_world s) in (r, note_event e (s\<lparr>nn_world := w\<rparr>)))"

definition device :: "('w \<Rightarrow> (nns_error + 'a) \<times> 'w) \<Rightarrow> ('w, 'a) nns" where
  "device f s = (let (r, w) = f (nn_world s) in (r, s\<lparr>nn_world := w\<rparr>))"

definition update_neurons :: "(NeuronsStore \<Rightarrow> NeuronsStore) \<Rightarrow> 'w nns_state \<Rightarrow> 'w nns_state" where
  "update_neurons f s = s\<lparr>nn_neurons := f (nn_neurons s)\<rparr>"

definition governance :: "'w nns_env \<Rightarrow> gov_call \<Rightarrow> nns_identity \<Rightarrow> ('w, int option) nns" where
  "governance env c i = outside (CallGov c i) (nv_governance env c i)"

text \<open>try and catch: a promise that never settles reaches no handler.\<close>

definition tryCatch :: "('w, 'a) nns \<Rightarrow> (nns_error \<Rightarrow> ('w, 'a) nns) \<Rightarrow> ('w, 'a) nns" where
  "tryCatch m h = catchE m (\<lambda>e. if e = NeverSettles then throwE NeverSettles else h e)"

abbreviation emit :: "nns_event \<Rightarrow> ('w, unit) nns" where
  "emit e \<equiv> updateE (note_event e)"

text \<open>toastsShow(mapNeuronErrorToToastMessage(err)) and a result.\<close>

definition toast_error :: "'w nns_env \<Rightarrow> 'a \<Rightarrow> nns_error \<Rightarrow> ('w, 'a) nns" where
  "toast_error env result err =
     thenE (emit (ShowToast (mapNeuronErrorToToastMessage (nv_translated env) err))) (returnE result)"

fun principal_of :: "'w nns_env \<Rightarrow> nns_identity \<Rightarrow> string" where
  "principal_of env (AuthIdentity p) = p"
| "principal_of env (LedgerIdentityOf p) = p"
| "principal_of env AnonymousIdentity = nv_anonymous env"

subsection \<open>Identities\<close>

text \<open>services/auth.services.ts: without a user the session is closed and the promise stays pending.\<close>

definition getAuthenticatedIdentity :: "'w nns_env \<Rightarrow> ('w, nns_identity) nns" where
  "getAuthenticatedIdentity env =
     (case nv_auth env of None \<Rightarrow> throwE NeverSettles | Some p \<Rightarrow> returnE (AuthIdentity p))"

text \<open>services/icp-ledger.services.ts\<close>

definition getLedgerIdentity :: "'w nns_env \<Rightarrow> string \<Rightarrow> ('w, nns_identity) nns" where
  "getLedgerIdentity env identifier =
     bindE (device (nv_createLedger env))
       (\<lambda>p. if nv_principalToAccountIdentifier env p \<noteq> identifier
          then throwE (NnsError LedgerErrorMessageClass None)
          else returnE (LedgerIdentityOf p))"

text \<open>smallerVersion of utils/utils.ts on the parts of the two versions.\<close>

fun parts_less :: "int list \<Rightarrow> int list \<Rightarrow> bool" where
  "parts_less (x # xs) (y # ys) \<longleftrightarrow> x < y \<or> x = y \<and> parts_less xs ys"
| "parts_less [] (y # ys) \<longleftrightarrow> True"
| "parts_less xs [] \<longleftrightarrow> False"

definition smallerVersion :: "int list \<Rightarrow> int list \<Rightarrow> bool" where
  "smallerVersion minVersion currentVersion =
     parts_less (addZeros currentVersion AMOUNT_VERSION_PARTS) (addZeros minVersion AMOUNT_VERSION_PARTS)"

definition CANDID_PARSER_VERSION :: "int list" where
  "CANDID_PARSER_VERSION = [2, 2, 1]"

definition SNS_SUPPORT_VERSION :: "int list" where
  "SNS_SUPPORT_VERSION = [2, 3, 0]"

definition assertLedgerVersion :: "'w nns_env \<Rightarrow> nns_identity \<Rightarrow> int list \<Rightarrow> ('w, unit) nns" where
  "assertLedgerVersion env i minVersion =
     (case i of
        LedgerIdentityOf p \<Rightarrow>
          bindE (device (nv_ledgerVersion env p))
            (\<lambda>currentVersion. if smallerVersion minVersion currentVersion
               then throwE (NnsError LedgerErrorMessageClass None) else returnE ())
      | _ \<Rightarrow> returnE ())"

text \<open>services/icp-accounts.services.ts\<close>

definition getAccountIdentity :: "'w nns_env \<Rightarrow> string \<Rightarrow> ('w, nns_identity) nns" where
  "getAccountIdentity env identifier =
     (let account = findAccount (Some identifier) (nnsAccountsListStore (nv_accounts env))
      in if map_option ac_type account = Some AccountHardwareWallet then getLedgerIdentity env identifier
         else getAuthenticatedIdentity env)"

definition getAccountIdentityByPrincipal :: "'w nns_env \<Rightarrow> string \<Rightarrow> ('w, nns_identity option) nns" where
  "getAccountIdentityByPrincipal env principalString =
     (case getAccountByPrincipal principalString (nv_accounts env) of
        None \<Rightarrow> returnE None
      | Some account \<Rightarrow> bindE (getAccountIdentity env (ac_identifier account)) (\<lambda>i. returnE (Some i)))"

subsection \<open>Neurons\<close>

definition getNeuronFromStore :: "int \<Rightarrow> 'w nns_state \<Rightarrow> NeuronInfo option" where
  "getNeuronFromStore neuronId s =
     List.find (\<lambda>neuron. ni_neuronId neuron = neuronId) (definedNeuronsStore (nn_neurons s))"

definition queryNeuron :: "'w nns_env \<Rightarrow> int \<Rightarrow> nns_identity \<Rightarrow> bool \<Rightarrow> ('w, NeuronInfo option) nns" where
  "queryNeuron env neuronId i certified =
     outside (CallQueryNeuron neuronId i certified) (nv_queryNeuron env neuronId i certified)"

definition getNeuron :: "'w nns_env \<Rightarrow> int \<Rightarrow> nns_identity \<Rightarrow> bool \<Rightarrow> bool \<Rightarrow> ('w, NeuronInfo option) nns" where
  "getNeuron env neuronId i certified forceFetch =
     (if forceFetch then queryNeuron env neuronId i certified
      else bindE (getE (getNeuronFromStore neuronId)) (\<lambda>neuron. case neuron of
             Some n \<Rightarrow> returnE (Some n)
           | None \<Rightarrow> queryNeuron env neuronId i certified))"

definition getIdentityAndNeuronHelper :: "'w nns_env \<Rightarrow> int \<Rightarrow> ('w, nns_identity \<times> NeuronInfo) nns" where
  "getIdentityAndNeuronHelper env neuronId =
     bindE (getAuthenticatedIdentity env) (\<lambda>currentIdentity.
       bindE (getNeuron env neuronId currentIdentity False False) (\<lambda>neuron. case neuron of
            None \<Rightarrow> throwE (NnsError NotFoundError None)
          | Some n \<Rightarrow> returnE (currentIdentity, n)))"

definition getIdentityOfControllerByNeuronId :: "'w nns_env \<Rightarrow> int \<Rightarrow> ('w, nns_identity) nns" where
  "getIdentityOfControllerByNeuronId env neuronId =
     bindE (getIdentityAndNeuronHelper env neuronId) (\<lambda>(i, neuron).
       case Option.bind (ni_fullNeuron neuron) fn_controller of
         None \<Rightarrow> throwE (NnsError NotAuthorizedNeuronError (Some ''Neuron has no controller''))
       | Some controller \<Rightarrow>
           if controller = principal_of env i then returnE i
           else bindE (getAccountIdentityByPrincipal env controller) (\<lambda>neuronIdentity.
             case neuronIdentity of
               None \<Rightarrow> throwE (NnsError NotAuthorizedNeuronError None)
             | Some j \<Rightarrow>
                 if isIdentityController neuron (Some (principal_of env j)) then returnE j
                 else throwE (NnsError NotAuthorizedNeuronError None)))"

definition userAuthorizedNeuron :: "NeuronInfo \<Rightarrow> bool" where
  "userAuthorizedNeuron neuron \<longleftrightarrow> ni_fullNeuron neuron \<noteq> None"

definition getAndLoadNeuron :: "'w nns_env \<Rightarrow> int \<Rightarrow> ('w, unit) nns" where
  "getAndLoadNeuron env neuronId =
     bindE (getAuthenticatedIdentity env) (\<lambda>i.
       bindE (getNeuron env neuronId i True True) (\<lambda>neuron. case neuron of
            None \<Rightarrow> throwE (NnsError NotFoundError None)
          | Some n \<Rightarrow>
              if \<not> userAuthorizedNeuron n
              then throwE (NnsError NotAuthorizedNeuronError
                     (Some (''User not authorized to access neuron '' @ int_to_string neuronId)))
              else updateE (update_neurons (pushNeurons [n] True))))"

text \<open>
  queryAndUpdate with callbacks that do not throw: the requests settle one after the other, in the order of
  the list, each before the code goes on.
\<close>

fun qau_run ::
  "(bool \<Rightarrow> ('s, 'e, 'r) effect) \<Rightarrow> (bool \<Rightarrow> 'r \<Rightarrow> 's \<Rightarrow> 's) \<Rightarrow>
     (bool \<Rightarrow> QueryAndUpdateStrategy \<Rightarrow> 'e \<Rightarrow> 's \<Rightarrow> 's) \<Rightarrow> QueryAndUpdateStrategy \<Rightarrow>
     bool list \<Rightarrow> bool \<times> 's \<Rightarrow> bool \<times> 's" where
  "qau_run request onLoad onError strat [] st = st"
| "qau_run request onLoad onError strat (certified # rest) (certifiedDone, s) =
     (let (outcome, s') = request certified s
      in qau_run request onLoad onError strat rest
           (fst (queryOrUpdate (\<lambda>c st x t. (onLoad c x t, None)) (Some (\<lambda>c st e t. (onError c st e t, None)))
              strat certified outcome (certifiedDone, s'))))"

definition isLastCall :: "QueryAndUpdateStrategy \<Rightarrow> bool \<Rightarrow> bool" where
  "isLastCall strat certified \<longleftrightarrow> certified \<or> strat \<noteq> QueryAndUpdate"

definition listNeurons :: "'w nns_env \<Rightarrow> QueryAndUpdateStrategy option \<Rightarrow> ('w, unit) nns" where
  "listNeurons env strat =
     bindE (getAuthenticatedIdentity env) (\<lambda>i.
       let currentStrategy = nullish_or strat QueryAndUpdate;
           requests = qau_requests currentStrategy
       in updateE (\<lambda>s. snd (qau_run
            (\<lambda>certified. outside (CallQueryNeurons i certified) (nv_queryNeurons env i certified))
            (\<lambda>certified neurons. update_neurons (setNeurons neurons certified))
            (\<lambda>certified st error s. if \<not> isLastCall st certified then s
               else note_event (ShowError ''error.get_neurons'') (update_neurons (setNeurons [] certified) s))
            currentStrategy (if nv_updateFirst env then rev requests else requests) (False, s))))"

subsection \<open>Staking\<close>

record stake_props =
  sk_ledgerCanisterIdentity :: nns_identity
  sk_identity :: nns_identity
  sk_controller :: string
  sk_fromSubAccount :: "nat list option"

definition getStakeNeuronPropsByAccount :: "'w nns_env \<Rightarrow> Account \<Rightarrow> nns_identity \<Rightarrow> stake_props" where
  "getStakeNeuronPropsByAccount env account accountIdentity =
     (if isAccountHardwareWallet (Some account)
      then \<lparr>sk_ledgerCanisterIdentity = accountIdentity, sk_identity = AnonymousIdentity,
            sk_controller = principal_of env accountIdentity, sk_fromSubAccount = None\<rparr>
      else \<lparr>sk_ledgerCanisterIdentity = accountIdentity, sk_identity = accountIdentity,
            sk_controller = principal_of env accountIdentity, sk_fromSubAccount = ac_subAccount account\<rparr>)"

text \<open>A number that is no amount of the token makes the library throw.\<close>

definition toE8s :: "'w nns_env \<Rightarrow> number \<Rightarrow> ('w, int) nns" where
  "toE8s env amount = (case nv_numberToE8s env amount of
     None \<Rightarrow> throwE (NnsError OtherErrorClass None) | Some e8s \<Rightarrow> returnE e8s)"

definition stakeNeuron :: "'w nns_env \<Rightarrow> number \<Rightarrow> Account \<Rightarrow> bool \<Rightarrow> bool \<Rightarrow> ('w, int option) nns" where
  "stakeNeuron env amount account loadIt asPublicNeuron =
     tryCatch
       (bindE (toE8s env amount) (\<lambda>stake.
          case assertEnoughAccountFunds account stake of
            Inl _ \<Rightarrow> throwE (NnsError NotEnoughAmount (Some ''error.insufficient_funds''))
          | Inr _ \<Rightarrow>
              if \<not> isEnoughToStakeNeuron stake None
              then thenE (emit (ShowError ''error.amount_not_enough_stake_neuron'')) (returnE None)
              else bindE (getAccountIdentity env (ac_identifier account)) (\<lambda>accountIdentity.
                let props = getStakeNeuronPropsByAccount env account accountIdentity
                in bindE (governance env (GovStake stake (sk_controller props) (sk_fromSubAccount props) (nv_fee env)
                       (sk_ledgerCanisterIdentity props)) (sk_identity props)) (\<lambda>newNeuronId.
                  thenE (case (asPublicNeuron, newNeuronId) of
                           (True, Some i) \<Rightarrow>
                             tryCatch (thenE (governance env (GovChangeVisibility i True) accountIdentity) (returnE ()))
                               (\<lambda>_. emit (ShowError ''neurons.create_as_public_neuron_failure''))
                         | _ \<Rightarrow> returnE ())
                    (thenE (case (loadIt, newNeuronId) of
                              (True, Some i) \<Rightarrow> getAndLoadNeuron env i
                            | _ \<Rightarrow> returnE ())
                      (returnE newNeuronId))))))
       (toast_error env None)"

subsection \<open>Operations of the controller\<close>

text \<open>An action as the controller of the neuron, then a reload; the result on success and on an error.\<close>

definition asController :: "'w nns_env \<Rightarrow> int \<Rightarrow> (nns_identity \<Rightarrow> ('w, 'b) nns) \<Rightarrow> ('w, 'b) nns" where
  "asController env neuronId f = bindE (getIdentityOfControllerByNeuronId env neuronId) f"

definition updateDelay :: "'w nns_env \<Rightarrow> int \<Rightarrow> int \<Rightarrow> ('w, int option) nns" where
  "updateDelay env neuronId dissolveDelayInSeconds =
     tryCatch
       (asController env neuronId (\<lambda>i.
          thenE (governance env (GovIncreaseDissolveDelay neuronId dissolveDelayInSeconds) i)
            (thenE (getAndLoadNeuron env neuronId) (returnE (Some neuronId)))))
       (toast_error env None)"

definition toggleCommunityFund :: "'w nns_env \<Rightarrow> NeuronInfo \<Rightarrow> ('w, int option) nns" where
  "toggleCommunityFund env neuron =
     (let neuronId = ni_neuronId neuron
      in tryCatch
           (bindE (getIdentityAndNeuronHelper env neuronId) (\<lambda>(i, _).
              thenE (if hasJoinedCommunityFund neuron then governance env (GovLeaveCommunityFund neuronId) i
                     else governance env (GovJoinCommunityFund neuronId) i)
                (thenE (getAndLoadNeuron env neuronId) (returnE (Some neuronId)))))
           (toast_error env None))"

definition toggleAutoStakeMaturity :: "'w nns_env \<Rightarrow> NeuronInfo \<Rightarrow> ('w, bool) nns" where
  "toggleAutoStakeMaturity env neuron =
     (let neuronId = ni_neuronId neuron
      in tryCatch
           (asController env neuronId (\<lambda>i.
              thenE (assertLedgerVersion env i CANDID_PARSER_VERSION)
                (thenE (governance env (GovAutoStakeMaturity neuronId (\<not> hasAutoStakeMaturityOn neuron)) i)
                  (thenE (getAndLoadNeuron env neuronId) (returnE True)))))
           (toast_error env False))"

definition checkCanBeMerged :: "'w nns_env \<Rightarrow> int \<Rightarrow> int \<Rightarrow> ('w, NeuronInfo \<times> NeuronInfo) nns" where
  "checkCanBeMerged env sourceNeuronId targetNeuronId =
     bindE (getIdentityAndNeuronHelper env sourceNeuronId) (\<lambda>(_, sourceNeuron).
       bindE (getIdentityAndNeuronHelper env targetNeuronId) (\<lambda>(_, targetNeuron).
         if \<not> fst (canBeMerged [sourceNeuron, targetNeuron])
         then throwE (NnsError CannotBeMergedError None)
         else returnE (sourceNeuron, targetNeuron)))"

text \<open>When the merge succeeded and only the reload failed the result is still the target.\<close>

definition mergeNeurons :: "'w nns_env \<Rightarrow> int \<Rightarrow> int \<Rightarrow> ('w, int option) nns" where
  "mergeNeurons env sourceNeuronId targetNeuronId =
     tryCatch
       (bindE (checkCanBeMerged env sourceNeuronId targetNeuronId) (\<lambda>(_, targetNeuron).
          asController env targetNeuronId (\<lambda>i.
            thenE (if isNeuronControlledByHardwareWallet targetNeuron (nv_accounts env)
                   then assertLedgerVersion env i CANDID_PARSER_VERSION else returnE ())
              (thenE (governance env (GovMerge sourceNeuronId targetNeuronId) i)
                (tryCatch (thenE (listNeurons env None) (returnE (Some targetNeuronId)))
                  (toast_error env (Some targetNeuronId)))))))
       (toast_error env None)"

definition simulateMergeNeurons :: "'w nns_env \<Rightarrow> int \<Rightarrow> int \<Rightarrow> ('w, NeuronInfo option) nns" where
  "simulateMergeNeurons env sourceNeuronId targetNeuronId =
     tryCatch
       (thenE (checkCanBeMerged env sourceNeuronId targetNeuronId)
         (bindE (getAuthenticatedIdentity env) (\<lambda>i.
           bindE (outside (CallGov (GovSimulateMerge sourceNeuronId targetNeuronId) i)
               (nv_simulateMerge env sourceNeuronId targetNeuronId i)) (\<lambda>n. returnE (Some n)))))
       (toast_error env None)"

definition addHotkeyForHardwareWalletNeuron :: "'w nns_env \<Rightarrow> int \<Rightarrow> string \<Rightarrow> ('w, bool) nns" where
  "addHotkeyForHardwareWalletNeuron env neuronId accountIdentifier =
     tryCatch
       (thenE (emit (StartBusy ''add-hotkey-neuron''))
         (bindE (getAuthenticatedIdentity env) (\<lambda>i.
           bindE (getLedgerIdentity env accountIdentifier) (\<lambda>ledgerIdentity.
             thenE (governance env (GovAddHotkey neuronId (principal_of env i)) ledgerIdentity)
               (thenE (getAndLoadNeuron env neuronId)
                 (thenE (emit (StopBusy ''add-hotkey-neuron''))
                   (thenE (emit (ShowSuccess ''neurons.add_user_as_hotkey_success'')) (returnE True))))))))
       (\<lambda>err. thenE (emit (StopBusy ''add-hotkey-neuron'')) (toast_error env False err))"

definition addHotkey :: "'w nns_env \<Rightarrow> int \<Rightarrow> string \<Rightarrow> ('w, int option) nns" where
  "addHotkey env neuronId principalText =
     tryCatch
       (asController env neuronId (\<lambda>i.
          thenE (governance env (GovAddHotkey neuronId principalText) i)
            (thenE (getAndLoadNeuron env neuronId) (returnE (Some neuronId)))))
       (toast_error env None)"

text \<open>A user who removed itself may no longer read the neuron, which is no failure.\<close>

definition removeHotkey :: "'w nns_env \<Rightarrow> int \<Rightarrow> string \<Rightarrow> ('w, int option) nns" where
  "removeHotkey env neuronId principalString =
     (if \<not> nv_validPrincipal env principalString
      then thenE (emit (ShowError ''neuron_detail.invalid_hotkey'')) (returnE None)
      else tryCatch
        (asController env neuronId (\<lambda>i.
           thenE (governance env (GovRemoveHotkey neuronId principalString) i)
             (tryCatch (thenE (getAndLoadNeuron env neuronId) (returnE (Some neuronId)))
               (\<lambda>err. case err of
                    NnsError NotAuthorizedNeuronError m \<Rightarrow>
                      bindE (getAuthenticatedIdentity env) (\<lambda>j.
                        returnE (if principalString = principal_of env j then Some neuronId else None))
                  | _ \<Rightarrow> toast_error env None err))))
        (toast_error env None))"

definition splitNeuron :: "'w nns_env \<Rightarrow> NeuronInfo \<Rightarrow> number \<Rightarrow> ('w, int option) nns" where
  "splitNeuron env neuron amount =
     (let neuronId = ni_neuronId neuron
      in tryCatch
           (asController env neuronId (\<lambda>i.
              thenE (if isNeuronControlledByHardwareWallet neuron (nv_accounts env)
                     then assertLedgerVersion env i SNS_SUPPORT_VERSION else returnE ())
                (bindE (toE8s env amount) (\<lambda>e8s.
                  let amountE8s = e8s + nv_fee env
                  in if \<not> isEnoughToStakeNeuron amountE8s (Some (nv_fee env))
                     then throwE (NnsError NotEnoughAmount None)
                     else thenE (governance env (GovSplit neuronId amountE8s) i)
                            (thenE (listNeurons env None) (returnE (Some neuronId)))))))
           (toast_error env None))"

definition loadBalance :: "'w nns_env \<Rightarrow> string \<Rightarrow> ('w, unit) nns" where
  "loadBalance env accountIdentifier =
     updateE (\<lambda>s. note_event (CallReloadBalance accountIdentifier) (s\<lparr>nn_world := nv_reloadBalance env accountIdentifier (nn_world s)\<rparr>))"

definition disburse :: "'w nns_env \<Rightarrow> int \<Rightarrow> string \<Rightarrow> ('w, bool) nns" where
  "disburse env neuronId toAccountId =
     tryCatch
       (asController env neuronId (\<lambda>i.
          thenE (governance env (GovDisburse neuronId toAccountId) i)
            (thenE (loadBalance env toAccountId)
              (thenE (listNeurons env None) (returnE True)))))
       (toast_error env False)"

definition stakeMaturity :: "'w nns_env \<Rightarrow> int \<Rightarrow> int \<Rightarrow> ('w, bool) nns" where
  "stakeMaturity env neuronId percentageToStake =
     tryCatch
       (asController env neuronId (\<lambda>i.
          thenE (assertLedgerVersion env i CANDID_PARSER_VERSION)
            (thenE (governance env (GovStakeMaturity neuronId percentageToStake) i)
              (thenE (getAndLoadNeuron env neuronId) (returnE True)))))
       (toast_error env False)"

definition spawnNeuron :: "'w nns_env \<Rightarrow> int \<Rightarrow> int option \<Rightarrow> ('w, int option) nns" where
  "spawnNeuron env neuronId percentageToSpawn =
     tryCatch
       (asController env neuronId (\<lambda>i.
          bindE (governance env (GovSpawn neuronId percentageToSpawn) i) (\<lambda>newNeuronId.
            thenE (listNeurons env None) (returnE newNeuronId))))
       (toast_error env None)"

definition startDissolving :: "'w nns_env \<Rightarrow> int \<Rightarrow> ('w, int option) nns" where
  "startDissolving env neuronId =
     tryCatch
       (asController env neuronId (\<lambda>i.
          thenE (governance env (GovStartDissolving neuronId) i)
            (thenE (getAndLoadNeuron env neuronId) (returnE (Some neuronId)))))
       (toast_error env None)"

definition stopDissolving :: "'w nns_env \<Rightarrow> int \<Rightarrow> ('w, int option) nns" where
  "stopDissolving env neuronId =
     tryCatch
       (asController env neuronId (\<lambda>i.
          thenE (governance env (GovStopDissolving neuronId) i)
            (thenE (getAndLoadNeuron env neuronId) (returnE (Some neuronId)))))
       (toast_error env None)"

subsection \<open>Following\<close>

text \<open>A hotkey will do, except for the topic of neuron management.\<close>

definition setFolloweesHelper :: "'w nns_env \<Rightarrow> NeuronInfo option \<Rightarrow> Topic \<Rightarrow> int list \<Rightarrow> ('w, unit) nns" where
  "setFolloweesHelper env neuron topic followees =
     tryCatch
       (case neuron of
          None \<Rightarrow> throwE (NnsError NotFoundError
            (Some ''Neuron not found in store. We can't check authorization to set followees.''))
        | Some n \<Rightarrow>
            bindE (getAuthenticatedIdentity env) (\<lambda>i0.
              bindE (if \<not> isHotKeyControllable n (Some (principal_of env i0))
                     then getIdentityOfControllerByNeuronId env (ni_neuronId n) else returnE i0) (\<lambda>i1.
                bindE (if topic = NeuronManagement
                       then getIdentityOfControllerByNeuronId env (ni_neuronId n) else returnE i1) (\<lambda>i2.
                  thenE (governance env (GovSetFollowees (ni_neuronId n) topic followees) i2)
                    (getAndLoadNeuron env (ni_neuronId n))))))
       (toast_error env ())"

definition addFollowee :: "'w nns_env \<Rightarrow> int \<Rightarrow> Topic \<Rightarrow> int \<Rightarrow> ('w, unit) nns" where
  "addFollowee env neuronId topic followee =
     bindE (getE (getNeuronFromStore neuronId)) (\<lambda>neuron.
       let topicFollowees = followeesByTopic neuron topic
       in if (case topicFollowees of None \<Rightarrow> False | Some fs \<Rightarrow> followee \<in> set fs)
          then emit (ShowError ''new_followee.already_followed'')
          else setFolloweesHelper env neuron topic
                 (case topicFollowees of None \<Rightarrow> [followee] | Some fs \<Rightarrow> fs @ [followee]))"

definition removeFollowee :: "'w nns_env \<Rightarrow> int \<Rightarrow> Topic \<Rightarrow> int \<Rightarrow> ('w, unit) nns" where
  "removeFollowee env neuronId topic followee =
     bindE (getE (getNeuronFromStore neuronId)) (\<lambda>neuron.
       case followeesByTopic neuron topic of
         None \<Rightarrow> emit (ShowError ''error.followee_does_not_exist'')
       | Some topicFollowees \<Rightarrow>
           setFolloweesHelper env neuron topic (filter (\<lambda>i. i \<noteq> followee) topicFollowees))"

subsection \<open>Loading one neuron, top-up, recovery\<close>

text \<open>
  loadNeuron: the callback setNeuron and handleError are state changes; the pushes of the callers.
\<close>

definition load_error :: "nns_error \<Rightarrow> nns_event" where
  "load_error err = ShowError (case err of NnsError NotFoundError m \<Rightarrow> ''error.neuron_not_found'' | _ \<Rightarrow> ''error.neuron_load'')"

definition loadNeuron_nns ::
  "'w nns_env \<Rightarrow> int \<Rightarrow> bool \<Rightarrow> QueryAndUpdateStrategy option \<Rightarrow> (NeuronInfo \<Rightarrow> bool \<Rightarrow> 'w nns_state \<Rightarrow> 'w nns_state) \<Rightarrow>
     ('w nns_state \<Rightarrow> 'w nns_state) \<Rightarrow> ('w, unit) nns" where
  "loadNeuron_nns env neuronId forceFetch strat setNeuron handleError =
     bindE (getAuthenticatedIdentity env) (\<lambda>i.
       let currentStrategy = nullish_or strat QueryAndUpdate;
           requests = qau_requests currentStrategy;
           catchError = (\<lambda>err s. handleError (note_event (load_error err) s))
       in updateE (\<lambda>s. snd (qau_run
            (\<lambda>certified. getNeuron env neuronId i certified forceFetch)
            (\<lambda>certified neuron s. case neuron of
                 None \<Rightarrow> catchError (NnsError NotFoundError None) s
               | Some n \<Rightarrow> setNeuron n certified s)
            (\<lambda>certified st error s. if \<not> isLastCall st certified then s else catchError error s)
            currentStrategy (if nv_updateFirst env then rev requests else requests) (False, s))))"

definition push_loaded :: "NeuronInfo \<Rightarrow> bool \<Rightarrow> 'w nns_state \<Rightarrow> 'w nns_state" where
  "push_loaded neuron certified = update_neurons (pushNeurons [neuron] certified)"

text \<open>
  The promise of reloadNeuron is resolved by the callbacks of the load alone: when the refresh is rejected
  nothing resolves or rejects it.
\<close>

definition reloadNeuron :: "'w nns_env \<Rightarrow> int \<Rightarrow> ('w, unit) nns" where
  "reloadNeuron env neuronId =
     catchE
       (bindE (getAuthenticatedIdentity env) (\<lambda>i.
          thenE (governance env (GovClaimOrRefresh neuronId) i)
            (loadNeuron_nns env neuronId True (Some UpdateOnly) push_loaded id)))
       (\<lambda>_. throwE NeverSettles)"

definition transferError :: "'w nns_env \<Rightarrow> nns_error \<Rightarrow> ('w, bool) nns" where
  "transferError env err =
     (let labelKey = (case err of
            NnsError TxTooOldErr m \<Rightarrow> ''error.transaction_too_old''
          | NnsError TxCreatedInFutureErr m \<Rightarrow> ''error.transaction_created_in_future''
          | _ \<Rightarrow> ''error.transaction_error'');
          message = (case err of NnsError c m \<Rightarrow> m | NeverSettles \<Rightarrow> None)
      in thenE (emit (ShowError (case message of None \<Rightarrow> labelKey | Some m \<Rightarrow> if nv_translated env m then m else labelKey)))
           (returnE False))"

definition transferICP :: "'w nns_env \<Rightarrow> Account \<Rightarrow> string \<Rightarrow> number \<Rightarrow> ('w, bool) nns" where
  "transferICP env sourceAccount destination amount =
     tryCatch
       (bindE (getAccountIdentity env (ac_identifier sourceAccount)) (\<lambda>i.
          bindE (toE8s env amount) (\<lambda>e8s.
            if \<not> nv_validIcrc env destination \<and> \<not> nv_validIcp env destination
            then thenE (emit (ShowError ''error.address_not_icp_icrc_valid'')) (returnE False)
            else thenE (outside (CallSend (ac_identifier sourceAccount) destination e8s i)
                    (nv_send env destination (ac_subAccount sourceAccount) e8s i))
                (thenE (loadBalance env (ac_identifier sourceAccount))
                  (thenE (case findAccount (Some destination) (nnsAccountsListStore (nv_accounts env)) of
                            None \<Rightarrow> returnE () | Some _ \<Rightarrow> loadBalance env destination)
                    (returnE True))))))
       (transferError env)"

definition topUpNeuron :: "'w nns_env \<Rightarrow> number \<Rightarrow> NeuronInfo \<Rightarrow> Account \<Rightarrow> ('w, bool) nns" where
  "topUpNeuron env amount neuron sourceAccount =
     (case ni_fullNeuron neuron of
        None \<Rightarrow> thenE (emit (ShowError ''error.neuron_account_not_found'')) (returnE False)
      | Some full \<Rightarrow>
          (case validTopUpAmount (nv_numberToE8s env) neuron amount of
             None \<Rightarrow> throwE (NnsError OtherErrorClass None)
           | Some False \<Rightarrow> thenE (emit (ShowError ''error.amount_not_enough_top_up_neuron'')) (returnE False)
           | Some True \<Rightarrow>
               bindE (transferICP env sourceAccount (fn_accountIdentifier full) amount) (\<lambda>success.
                 thenE (if success then reloadNeuron env (ni_neuronId neuron) else returnE ())
                   (returnE success))))"

definition neuronNeedsRefresh_nns :: "'w nns_env \<Rightarrow> Neuron \<Rightarrow> ('w, bool) nns" where
  "neuronNeedsRefresh_nns env fullNeuron =
     (let expectedBalance = fn_cachedNeuronStake fullNeuron
      in bindE (outside (CallBalance (fn_accountIdentifier fullNeuron) AnonymousIdentity False)
             (nv_queryBalance env (fn_accountIdentifier fullNeuron)))
           (\<lambda>actualBalance. returnE (expectedBalance \<noteq> actualBalance)))"

text \<open>addSubaccount of the store of checked neurons, with the account identifier as the subaccount.\<close>

definition add_checked :: "'w nns_env \<Rightarrow> string \<Rightarrow> ('w, bool) nns" where
  "add_checked env accountIdentifier s =
     (let (added, c) = addSubaccount (nv_ownCanisterId env) accountIdentifier (nn_checked s)
      in (Inr added, s\<lparr>nn_checked := c\<rparr>))"

definition refreshNeuronIfNeeded_nns :: "'w nns_env \<Rightarrow> NeuronInfo \<Rightarrow> ('w, unit) nns" where
  "refreshNeuronIfNeeded_nns env neuron =
     (case ni_fullNeuron neuron of
        None \<Rightarrow> returnE ()
      | Some full \<Rightarrow>
          bindE (add_checked env (fn_accountIdentifier full)) (\<lambda>added.
            if \<not> added then returnE ()
            else bindE (neuronNeedsRefresh_nns env full) (\<lambda>needs.
              if needs
              then thenE (reloadNeuron env (ni_neuronId neuron))
                     (emit (ShowSuccess ''neuron_detail.neuron_stake_refreshed''))
              else returnE ())))"

text \<open>The memo of a transaction and the destination of its operation when that is a transfer.\<close>

record staking_transaction =
  st_memo :: int
  st_transfer_to :: "string option"

definition getMemosFromStakingTransactions ::
  "'w nns_env \<Rightarrow> string \<Rightarrow> staking_transaction list \<Rightarrow> (int \<times> string) list" where
  "getMemosFromStakingTransactions env controller transactions =
     List.map_filter (\<lambda>t.
       (let memo = st_memo t
        in if memo = 0 then None
           else let accountIdentifier = nv_memoToNeuronAccountIdentifier env controller memo
                in if st_transfer_to t = Some accountIdentifier then Some (memo, accountIdentifier) else None))
       transactions"

definition claimNeuron_nns :: "'w nns_env \<Rightarrow> int \<Rightarrow> string \<Rightarrow> ('w, unit) nns" where
  "claimNeuron_nns env memo controller =
     bindE (governance env (GovClaimByMemo memo controller) AnonymousIdentity) (\<lambda>neuronId.
       case neuronId of
         None \<Rightarrow> throwE (NnsError OtherErrorClass
           (Some ''claimOrRefreshNeuronByMemo should either throw or return a neuronId.''))
       | Some i \<Rightarrow> loadNeuron_nns env i True (Some UpdateOnly) push_loaded id)"

fun claim_memos :: "'w nns_env \<Rightarrow> string \<Rightarrow> string set \<Rightarrow> (int \<times> string) list \<Rightarrow> ('w, unit) nns" where
  "claim_memos env controller neuronAccounts [] = returnE ()"
| "claim_memos env controller neuronAccounts ((memo, accountIdentifier) # memos) =
     bindE (add_checked env accountIdentifier) (\<lambda>added.
       if \<not> added then returnE ()
       else if accountIdentifier \<in> neuronAccounts then claim_memos env controller neuronAccounts memos
       else thenE (tryCatch (claimNeuron_nns env memo controller) (\<lambda>_. returnE ()))
              (claim_memos env controller neuronAccounts memos))"

definition claimNeuronsIfNeeded ::
  "'w nns_env \<Rightarrow> string \<Rightarrow> staking_transaction list \<Rightarrow> string set \<Rightarrow> ('w, unit) nns" where
  "claimNeuronsIfNeeded env controller transactions neuronAccounts =
     (let memos = getMemosFromStakingTransactions env controller transactions
      in claim_memos env controller neuronAccounts memos)"

text \<open>The neurons are changed one after the other here; the code starts all of them and waits for all.\<close>

definition change_one :: "'w nns_env \<Rightarrow> bool \<Rightarrow> NeuronInfo \<Rightarrow> ('w, bool) nns" where
  "change_one env makePublic neuron =
     tryCatch
       (asController env (ni_neuronId neuron) (\<lambda>i.
          thenE (governance env (GovChangeVisibility (ni_neuronId neuron) makePublic) i)
            (thenE (getAndLoadNeuron env (ni_neuronId neuron)) (returnE True))))
       (\<lambda>_. returnE False)"

fun change_all :: "'w nns_env \<Rightarrow> bool \<Rightarrow> NeuronInfo list \<Rightarrow> ('w, bool list) nns" where
  "change_all env makePublic [] = returnE []"
| "change_all env makePublic (n # ns) =
     bindE (change_one env makePublic n) (\<lambda>r. bindE (change_all env makePublic ns) (\<lambda>rs. returnE (r # rs)))"

definition changeNeuronVisibility :: "'w nns_env \<Rightarrow> NeuronInfo list \<Rightarrow> bool \<Rightarrow> ('w, bool) nns" where
  "changeNeuronVisibility env neurons makePublic =
     bindE (change_all env makePublic neurons) (\<lambda>results.
       let failedCount = length (filter (\<lambda>result. result = False) results)
       in if failedCount = 0 then returnE True
          else if failedCount < length neurons
          then thenE (emit (ShowError ''neuron_detail.change_neuron_visibility_partial_failure'')) (returnE False)
          else thenE (emit (ShowError ''neuron_detail.change_neuron_visibility_failure'')) (returnE False))"

subsection \<open>A session of operations\<close>

text \<open>The operations of the user interface, in any order and number.\<close>

datatype nns_op =
    StakeNeuron number Account bool bool
  | ListNeurons "QueryAndUpdateStrategy option"
  | UpdateDelay int int
  | ToggleCommunityFund NeuronInfo
  | ToggleAutoStakeMaturity NeuronInfo
  | MergeNeurons int int
  | SimulateMergeNeurons int int
  | AddHotkeyForHardwareWallet int string
  | AddHotkey int string
  | RemoveHotkey int string
  | SplitNeuron NeuronInfo number
  | Disburse int string
  | StakeMaturity int int
  | SpawnNeuron int "int option"
  | StartDissolving int
  | StopDissolving int
  | AddFollowee int Topic int
  | RemoveFollowee int Topic int
  | ClaimNeurons string "staking_transaction list" "string set"
  | ChangeVisibility "NeuronInfo list" bool

definition void :: "('w, 'a) nns \<Rightarrow> ('w, unit) nns" where
  "void m = bindE m (\<lambda>_. returnE ())"

fun run_op :: "'w nns_env \<Rightarrow> nns_op \<Rightarrow> ('w, unit) nns" where
  "run_op env (StakeNeuron a acc l p) = void (stakeNeuron env a acc l p)"
| "run_op env (ListNeurons st) = listNeurons env st"
| "run_op env (UpdateDelay i d) = void (updateDelay env i d)"
| "run_op env (ToggleCommunityFund n) = void (toggleCommunityFund env n)"
| "run_op env (ToggleAutoStakeMaturity n) = void (toggleAutoStakeMaturity env n)"
| "run_op env (MergeNeurons a b) = void (mergeNeurons env a b)"
| "run_op env (SimulateMergeNeurons a b) = void (simulateMergeNeurons env a b)"
| "run_op env (AddHotkeyForHardwareWallet i a) = void (addHotkeyForHardwareWalletNeuron env i a)"
| "run_op env (AddHotkey i p) = void (addHotkey env i p)"
| "run_op env (RemoveHotkey i p) = void (removeHotkey env i p)"
| "run_op env (SplitNeuron n a) = void (splitNeuron env n a)"
| "run_op env (Disburse i a) = void (disburse env i a)"
| "run_op env (StakeMaturity i p) = void (stakeMaturity env i p)"
| "run_op env (SpawnNeuron i p) = void (spawnNeuron env i p)"
| "run_op env (StartDissolving i) = void (startDissolving env i)"
| "run_op env (StopDissolving i) = void (stopDissolving env i)"
| "run_op env (AddFollowee i t f) = addFollowee env i t f"
| "run_op env (RemoveFollowee i t f) = removeFollowee env i t f"
| "run_op env (ClaimNeurons c ts as) = claimNeuronsIfNeeded env c ts as"
| "run_op env (ChangeVisibility ns p) = void (changeNeuronVisibility env ns p)"

definition run_ops :: "'w nns_env \<Rightarrow> nns_op list \<Rightarrow> 'w nns_state \<Rightarrow> 'w nns_state" where
  "run_ops env ops s = foldl (\<lambda>s op. snd (run_op env op s)) s ops"

subsection \<open>Who signs\<close>

text \<open>
  controllers gives the controller of every neuron.  Who must have signed a call: of the calls that only a
  controller may make, the controller, of both neurons for a merge; of the followees the controller or, except
  for neuron management, the user; of the community fund, the simulation of a merge and a refresh the user; a
  stake names the controller that signs the transfer, and is itself signed by it or, for a device, by
  nobody; and nobody signs a claim.
\<close>

fun signed_ok :: "'w nns_env \<Rightarrow> (int \<Rightarrow> string option) \<Rightarrow> nns_event \<Rightarrow> bool" where
  "signed_ok env controllers (CallGov c i) \<longleftrightarrow>
     (case c of
        GovIncreaseDissolveDelay n d \<Rightarrow> controllers n = Some (principal_of env i)
      | GovAutoStakeMaturity n b \<Rightarrow> controllers n = Some (principal_of env i)
      | GovMerge a n \<Rightarrow> controllers a = Some (principal_of env i) \<and> controllers n = Some (principal_of env i)
      | GovAddHotkey n p \<Rightarrow> controllers n = Some (principal_of env i)
      | GovRemoveHotkey n p \<Rightarrow> controllers n = Some (principal_of env i)
      | GovSplit n a \<Rightarrow> controllers n = Some (principal_of env i)
      | GovDisburse n a \<Rightarrow> controllers n = Some (principal_of env i)
      | GovStakeMaturity n p \<Rightarrow> controllers n = Some (principal_of env i)
      | GovSpawn n p \<Rightarrow> controllers n = Some (principal_of env i)
      | GovStartDissolving n \<Rightarrow> controllers n = Some (principal_of env i)
      | GovStopDissolving n \<Rightarrow> controllers n = Some (principal_of env i)
      | GovChangeVisibility n b \<Rightarrow> controllers n = Some (principal_of env i)
      | GovSetFollowees n topic fs \<Rightarrow> controllers n = Some (principal_of env i) \<or>
          topic \<noteq> NeuronManagement \<and> map_option AuthIdentity (nv_auth env) = Some i
      | GovJoinCommunityFund n \<Rightarrow> map_option AuthIdentity (nv_auth env) = Some i
      | GovLeaveCommunityFund n \<Rightarrow> map_option AuthIdentity (nv_auth env) = Some i
      | GovSimulateMerge a n \<Rightarrow> map_option AuthIdentity (nv_auth env) = Some i
      | GovClaimOrRefresh n \<Rightarrow> map_option AuthIdentity (nv_auth env) = Some i
      | GovStake stake controller sub fee j \<Rightarrow> controller = principal_of env j \<and> (i = j \<or> i = AnonymousIdentity)
      | GovClaimByMemo memo controller \<Rightarrow> i = AnonymousIdentity)"
| "signed_ok env controllers _ \<longleftrightarrow> True"

definition knows_controller :: "(int \<Rightarrow> string option) \<Rightarrow> NeuronInfo \<Rightarrow> bool" where
  "knows_controller controllers n \<longleftrightarrow>
     (case ni_fullNeuron n of None \<Rightarrow> True | Some f \<Rightarrow> fn_controller f = controllers (ni_neuronId n))"

text \<open>
  The governance canister answers the neuron asked for, with its controller when it gives the private data;
  the neuron of a stake has the controller that the stake named; and no principal is written as a number.
\<close>

definition honest_governance :: "'w nns_env \<Rightarrow> (int \<Rightarrow> string option) \<Rightarrow> bool" where
  "honest_governance env controllers \<longleftrightarrow>
     (\<forall>i j b w n. fst (nv_queryNeuron env i j b w) = Inr (Some n) \<longrightarrow> ni_neuronId n = i \<and> knows_controller controllers n) \<and>
     (\<forall>j b w ns. fst (nv_queryNeurons env j b w) = Inr ns \<longrightarrow> list_all (knows_controller controllers) ns) \<and>
     (\<forall>stake controller sub fee j i w n.
        fst (nv_governance env (GovStake stake controller sub fee j) i w) = Inr (Some n) \<longrightarrow> controllers n = Some controller) \<and>
     (\<forall>n k. controllers n \<noteq> Some (int_to_string k))"

text \<open>
  modals/accounts/HardwareWalletNeuronAddHotkeyModal.svelte offers the hot key for the neurons that the device of the
  account listed, and modals/neurons/NnsStakeNeuronModal.svelte for the one just staked from it: the device controls them.
\<close>

definition device_neurons :: "'w nns_env \<Rightarrow> (int \<Rightarrow> string option) \<Rightarrow> nns_op list \<Rightarrow> bool" where
  "device_neurons env controllers ops \<longleftrightarrow>
     (\<forall>neuronId accountIdentifier p.
        AddHotkeyForHardwareWallet neuronId accountIdentifier \<in> set ops \<longrightarrow>
        nv_principalToAccountIdentifier env p = accountIdentifier \<longrightarrow> controllers neuronId = Some p)"

definition session_safe :: "'w nns_env \<Rightarrow> (int \<Rightarrow> string option) \<Rightarrow> 'w nns_state \<Rightarrow> bool" where
  "session_safe env controllers s \<longleftrightarrow>
     list_all (signed_ok env controllers) (nn_log s) \<and>
     list_all (knows_controller controllers) (nullish_or (ns_neurons (nn_neurons s)) [])"

lemma nns_state_simps [simp]:
  "nn_log (note_event e s) = nn_log s @ [e]" "nn_neurons (note_event e s) = nn_neurons s"
  "nn_checked (note_event e s) = nn_checked s" "nn_world (note_event e s) = nn_world s"
  "nn_log (update_neurons f s) = nn_log s" "nn_neurons (update_neurons f s) = f (nn_neurons s)"
  "nn_checked (update_neurons f s) = nn_checked s" "nn_world (update_neurons f s) = nn_world s"
  by (simp_all add: note_event_def update_neurons_def)

lemma session_safe_event:
  "session_safe env ctl (note_event e s) \<longleftrightarrow> session_safe env ctl s \<and> signed_ok env ctl e"
  by (auto simp: session_safe_def)

lemma session_safe_world [simp]:
  "session_safe env ctl (s\<lparr>nn_world := w\<rparr>) = session_safe env ctl s"
  "session_safe env ctl (s\<lparr>nn_checked := c\<rparr>) = session_safe env ctl s"
  by (simp_all add: session_safe_def)

lemma keeps_outside [keeps_intros]:
  assumes "signed_ok env ctl e"
  shows "keeps (session_safe env ctl) (outside e f)"
  using assms by (intro keepsI) (simp add: outside_def Let_def session_safe_event split: prod.split)

lemma keeps_governance: "signed_ok env ctl (CallGov c i) \<Longrightarrow> keeps (session_safe env ctl) (governance env c i)"
  unfolding governance_def by (rule keeps_outside)

lemma keeps_tryCatch [keeps_intros]:
  "keeps P m \<Longrightarrow> (\<And>e. keeps P (h e)) \<Longrightarrow> keeps P (tryCatch m h)"
  unfolding tryCatch_def by (intro keeps_intros)

lemma keeps_toast_error [keeps_intros]: "keeps (session_safe env ctl) (toast_error env' r e)"
  unfolding toast_error_def by (intro keeps_intros) (simp add: session_safe_event)

lemma keeps_emit [keeps_intros]: "signed_ok env ctl e \<Longrightarrow> keeps (session_safe env ctl) (emit e)"
  by (intro keeps_updateE) (simp add: session_safe_event)

lemma keeps_device [keeps_intros]: "keeps (session_safe env ctl) (device f)"
  by (rule keepsI) (simp add: device_def split: prod.split)

lemma keeps_case_identity [keeps_intros]:
  "(\<And>p. keeps P (f p)) \<Longrightarrow> (\<And>p. keeps P (g p)) \<Longrightarrow> keeps P h \<Longrightarrow>
    keeps P (case i of AuthIdentity p \<Rightarrow> f p | LedgerIdentityOf p \<Rightarrow> g p | AnonymousIdentity \<Rightarrow> h)"
  by (cases i) simp_all

lemma keeps_identities [keeps_intros]:
  "keeps (session_safe env ctl) (getAuthenticatedIdentity env)"
  "keeps (session_safe env ctl) (getLedgerIdentity env a)"
  "keeps (session_safe env ctl) (getAccountIdentity env a)"
  "keeps (session_safe env ctl) (getAccountIdentityByPrincipal env p)"
  "keeps (session_safe env ctl) (assertLedgerVersion env i v)"
  "keeps (session_safe env ctl) (toE8s env x)"
  unfolding getAuthenticatedIdentity_def getLedgerIdentity_def getAccountIdentity_def
    getAccountIdentityByPrincipal_def assertLedgerVersion_def toE8s_def Let_def
  by (intro keeps_intros)+

lemma keeps_getNeuron [keeps_intros]:
  "keeps (session_safe env ctl) (getNeuron env i j b f)"
  "keeps (session_safe env ctl) (getIdentityAndNeuronHelper env i)"
  unfolding getNeuron_def queryNeuron_def getIdentityAndNeuronHelper_def
  by (intro keeps_intros; simp)+

text \<open>A neuron that getNeuron gives is the one asked for, with its controller.\<close>

lemma store_neuron_known:
  assumes "session_safe env ctl s" "getNeuronFromStore i s = Some n"
  shows "ni_neuronId n = i \<and> knows_controller ctl n"
  using find_SomeD [OF assms(2) [unfolded getNeuronFromStore_def]] assms(1)
  by (auto simp: definedNeuronsStore_def session_safe_def list_all_iff nullish_or_def split: option.splits)

lemma yields_getNeuron:
  assumes "honest_governance env ctl"
  shows "yields (session_safe env ctl) (getNeuron env i j b f)
    (\<lambda>n. \<forall>m. n = Some m \<longrightarrow> ni_neuronId m = i \<and> knows_controller ctl m)"
proof (rule yieldsI)
  fix s x t
  assume s: "session_safe env ctl s" and run: "getNeuron env i j b f s = (Inr x, t)"
  have query: "ni_neuronId m = i \<and> knows_controller ctl m"
    if "queryNeuron env i j b u = (Inr (Some m), t)" for u m
  proof -
    have "fst (nv_queryNeuron env i j b (nn_world u)) = Inr (Some m)"
      using that by (auto simp: queryNeuron_def outside_def Let_def split: prod.splits)
    moreover have "fst (nv_queryNeuron env i j b w) = Inr (Some m) \<Longrightarrow> ni_neuronId m = i \<and> knows_controller ctl m" for w
      using assms by (simp add: honest_governance_def)
    ultimately show ?thesis by simp
  qed
  show "\<forall>m. x = Some m \<longrightarrow> ni_neuronId m = i \<and> knows_controller ctl m"
  proof (cases "f \<or> getNeuronFromStore i s = None")
    case True
    then have "getNeuron env i j b f s = queryNeuron env i j b s"
      by (auto simp: getNeuron_def)
    with run query [of s] show ?thesis by (cases x) simp_all
  next
    case False
    then obtain n where n: "getNeuronFromStore i s = Some n" "\<not> f" by auto
    with run have "x = Some n" by (simp add: getNeuron_def returnE_def)
    with store_neuron_known [OF s n(1)] show ?thesis by simp
  qed
qed

lemma yields_bindE:
  assumes "keeps P m" "yields P m Q" "\<And>x. Q x \<Longrightarrow> yields P (f x) R"
  shows "yields P (bindE m f) R"
  using assms unfolding yields_def by (auto simp: bindE_def dest: keepsD split: prod.splits sum.splits) (metis keepsD)

lemma yields_basic: "R x \<Longrightarrow> yields P (returnE x) R" "yields P (throwE e) R" "yields P m (\<lambda>_. True)"
  by (simp_all add: yields_def returnE_def throwE_def)

lemma yields_helper:
  assumes "honest_governance env ctl"
  shows "yields (session_safe env ctl) (getIdentityAndNeuronHelper env i)
    (\<lambda>(j, n). ni_neuronId n = i \<and> knows_controller ctl n \<and> map_option AuthIdentity (nv_auth env) = Some j)"
  unfolding getIdentityAndNeuronHelper_def
proof (rule yields_bindE)
  show "yields (session_safe env ctl) (getAuthenticatedIdentity env) (\<lambda>j. map_option AuthIdentity (nv_auth env) = Some j)"
    by (rule yieldsI) (auto simp: getAuthenticatedIdentity_def returnE_def throwE_def split: option.splits)
  fix j
  assume j: "map_option AuthIdentity (nv_auth env) = Some j"
  show "yields (session_safe env ctl) (bindE (getNeuron env i j False False)
      (\<lambda>neuron. case neuron of None \<Rightarrow> throwE (NnsError NotFoundError None) | Some n \<Rightarrow> returnE (j, n)))
    (\<lambda>(j, n). ni_neuronId n = i \<and> knows_controller ctl n \<and> map_option AuthIdentity (nv_auth env) = Some j)"
    by (rule yields_bindE [OF keeps_getNeuron(1) yields_getNeuron [OF assms]])
      (auto simp: j intro: yields_basic split: option.split)
qed (rule keeps_intros)

lemma yields_controller:
  assumes "honest_governance env ctl"
  shows "yields (session_safe env ctl) (getIdentityOfControllerByNeuronId env i) (\<lambda>j. ctl i = Some (principal_of env j))"
  unfolding getIdentityOfControllerByNeuronId_def
proof (rule yields_bindE [OF keeps_getNeuron(2) yields_helper [OF assms]], clarify)
  fix j n
  assume n: "knows_controller ctl n" "i = ni_neuronId n"
  show "yields (session_safe env ctl)
     (case Option.bind (ni_fullNeuron n) fn_controller of
        None \<Rightarrow> throwE (NnsError NotAuthorizedNeuronError (Some ''Neuron has no controller''))
      | Some controller \<Rightarrow>
          if controller = principal_of env j then returnE j
          else bindE (getAccountIdentityByPrincipal env controller) (\<lambda>neuronIdentity.
             case neuronIdentity of
               None \<Rightarrow> throwE (NnsError NotAuthorizedNeuronError None)
             | Some j \<Rightarrow>
                 if isIdentityController n (Some (principal_of env j)) then returnE j
                 else throwE (NnsError NotAuthorizedNeuronError None)))
     (\<lambda>j. ctl (ni_neuronId n) = Some (principal_of env j))"
    using n
    by (auto simp: knows_controller_def isIdentityController_def split: option.splits
        intro!: yields_basic yields_bindE [where Q = "\<lambda>_. True"] keeps_intros)
qed

lemma keeps_controller: "keeps (session_safe env ctl) (getIdentityOfControllerByNeuronId env i)"
  unfolding getIdentityOfControllerByNeuronId_def
  by (intro keeps_intros) (auto intro!: keeps_intros split: option.split)

lemma keeps_asController:
  assumes "honest_governance env ctl"
    and "\<And>j. ctl i = Some (principal_of env j) \<Longrightarrow> keeps (session_safe env ctl) (f j)"
  shows "keeps (session_safe env ctl) (asController env i f)"
  unfolding asController_def
  by (rule keeps_bindE_yields [OF keeps_controller yields_controller [OF assms(1)] assms(2)])

lemma session_safe_push:
  assumes "session_safe env ctl s" "knows_controller ctl n"
  shows "session_safe env ctl (update_neurons (pushNeurons [n] b) s)"
  using assms by (auto simp: session_safe_def update_neurons_def pushNeurons_def list_all_iff)

lemma session_safe_set:
  assumes "session_safe env ctl s" "list_all (knows_controller ctl) ns"
  shows "session_safe env ctl (update_neurons (setNeurons ns b) s)"
  using assms by (simp add: session_safe_def update_neurons_def setNeurons_def)

lemma keeps_getAndLoad:
  assumes "honest_governance env ctl"
  shows "keeps (session_safe env ctl) (getAndLoadNeuron env i)"
  unfolding getAndLoadNeuron_def
  by (intro keeps_bindE keeps_identities keeps_bindE_yields [OF keeps_getNeuron(1) yields_getNeuron [OF assms]])
    (auto intro!: keeps_intros session_safe_push split: option.split)

lemma qau_run_safe:
  assumes "\<And>c. keeps P (request c)" "\<And>c. yields P (request c) Q"
    and "\<And>c x s. Q x \<Longrightarrow> P s \<Longrightarrow> P (onLoad c x s)" "\<And>c st e s. P s \<Longrightarrow> P (onError c st e s)"
  shows "P s \<Longrightarrow> P (snd (qau_run request onLoad onError strat cs (d, s)))"
proof (induction cs arbitrary: d s)
  case (Cons c cs)
  obtain r t where run: "request c s = (r, t)" by force
  have t: "P t" using keepsD [OF assms(1) run] Cons.prems by simp
  have Q: "r = Inr x \<Longrightarrow> Q x" for x
    using assms(2) [of c] run Cons.prems unfolding yields_def by blast
  have "P (snd (fst (queryOrUpdate (\<lambda>c st x t. (onLoad c x t, None)) (Some (\<lambda>c st e t. (onError c st e t, None))) strat c r (d, t))))"
    using t assms(3,4) Q by (cases r) (auto simp: qau_catch_def)
  then show ?case
    using Cons.IH [of "snd (fst (queryOrUpdate (\<lambda>c st x t. (onLoad c x t, None)) (Some (\<lambda>c st e t. (onError c st e t, None))) strat c r (d, t)))"
      "fst (fst (queryOrUpdate (\<lambda>c st x t. (onLoad c x t, None)) (Some (\<lambda>c st e t. (onError c st e t, None))) strat c r (d, t)))"]
    by (simp add: run Let_def)
qed simp

lemma keeps_listNeurons:
  assumes "honest_governance env ctl"
  shows "keeps (session_safe env ctl) (listNeurons env strat)"
proof -
  have "yields (session_safe env ctl) (outside (CallQueryNeurons j c) (nv_queryNeurons env j c)) (list_all (knows_controller ctl))" for j c
    using assms by (intro yieldsI) (auto simp: honest_governance_def outside_def Let_def split: prod.splits, metis fst_conv)
  then show ?thesis
    unfolding listNeurons_def Let_def
    by (intro keeps_intros)
      (rule qau_run_safe [where Q = "list_all (knows_controller ctl)"],
        auto intro!: keeps_intros session_safe_set simp: session_safe_event)
qed

lemma keeps_loadNeuron:
  assumes "honest_governance env ctl"
  shows "keeps (session_safe env ctl) (loadNeuron_nns env i f strat push_loaded id)"
  unfolding loadNeuron_nns_def Let_def
  by (intro keeps_intros)
    (rule qau_run_safe [OF keeps_getNeuron(1) yields_getNeuron [OF assms]],
      auto intro!: session_safe_push simp: session_safe_event push_loaded_def load_error_def split: option.splits)

lemmas keeps_calls = keeps_governance keeps_getAndLoad keeps_listNeurons keeps_loadNeuron keeps_asController

lemma keeps_let_op [keeps_intros]: "keeps P (f x) \<Longrightarrow> keeps P (Let x f)"
  by simp

lemma keeps_case_prod [keeps_intros]: "(\<And>x y. keeps P (f x y)) \<Longrightarrow> keeps P (case p of (x, y) \<Rightarrow> f x y)"
  by (cases p) simp

lemma keeps_void [keeps_intros]: "keeps P m \<Longrightarrow> keeps P (void m)"
  unfolding void_def by (intro keeps_intros)

lemma keeps_reload_balance [keeps_intros]: "keeps (session_safe env ctl) (loadBalance env' a)"
  unfolding loadBalance_def by (intro keeps_intros) (simp add: session_safe_event)

lemma keeps_controller_ops:
  assumes h: "honest_governance env ctl"
  shows "keeps (session_safe env ctl) (updateDelay env i d)"
    "keeps (session_safe env ctl) (toggleAutoStakeMaturity env n)"
    "keeps (session_safe env ctl) (addHotkey env i p)"
    "keeps (session_safe env ctl) (splitNeuron env n a)"
    "keeps (session_safe env ctl) (disburse env i acc)"
    "keeps (session_safe env ctl) (stakeMaturity env i pc)"
    "keeps (session_safe env ctl) (spawnNeuron env i sp)"
    "keeps (session_safe env ctl) (startDissolving env i)"
    "keeps (session_safe env ctl) (stopDissolving env i)"
    "keeps (session_safe env ctl) (checkCanBeMerged env a1 a2)"
  unfolding updateDelay_def toggleAutoStakeMaturity_def addHotkey_def splitNeuron_def
    disburse_def stakeMaturity_def spawnNeuron_def startDissolving_def stopDissolving_def checkCanBeMerged_def
  by (intro keeps_intros keeps_asController [OF h] keeps_governance keeps_getAndLoad [OF h] keeps_listNeurons [OF h]; simp)+

lemma keeps_fund:
  assumes h: "honest_governance env ctl"
  shows "keeps (session_safe env ctl) (toggleCommunityFund env n)"
  unfolding toggleCommunityFund_def Let_def
  by (intro keeps_tryCatch keeps_bindE_yields [OF keeps_getNeuron(2) yields_helper [OF h]] keeps_toast_error)
    (auto intro!: keeps_intros keeps_governance keeps_getAndLoad [OF h])

lemma two_in_set: "length (set_insertion_order [x, y]) = 1 \<longleftrightarrow> x = y"
  by simp

lemma merged_same_controller:
  assumes "honest_governance env ctl" "knows_controller ctl s" "knows_controller ctl t" "fst (canBeMerged [s, t])"
  shows "ctl (ni_neuronId s) = ctl (ni_neuronId t)"
proof -
  have "\<not> sameId [s, t]" "sameController [s, t]"
    using assms(4) by (auto simp: canBeMerged_def split: if_splits)
  moreover have "ctl i \<noteq> Some (int_to_string k)" for i k
    using assms(1) by (simp add: honest_governance_def)
  ultimately show ?thesis
    using assms(2,3) unfolding sameId_def sameController_def list.map two_in_set
    by (auto simp: knows_controller_def split: option.splits) (metis)+
qed

lemma yields_mergeable:
  assumes "honest_governance env ctl"
  shows "yields (session_safe env ctl) (checkCanBeMerged env i j) (\<lambda>_. ctl i = ctl j)"
  unfolding checkCanBeMerged_def
  by (rule yields_bindE [OF keeps_getNeuron(2) yields_helper [OF assms]], clarify,
      rule yields_bindE [OF keeps_getNeuron(2) yields_helper [OF assms]])
    (auto simp: yields_def returnE_def throwE_def intro: merged_same_controller [OF assms] split: if_splits)

lemma yields_device:
  "yields P (getLedgerIdentity env a) (\<lambda>l. \<exists>q. l = LedgerIdentityOf q \<and> nv_principalToAccountIdentifier env q = a)"
  by (auto simp: yields_def getLedgerIdentity_def bindE_def returnE_def throwE_def split: prod.splits sum.splits if_splits)

lemma yields_auth:
  "yields P (getAuthenticatedIdentity env) (\<lambda>j. map_option AuthIdentity (nv_auth env) = Some j)"
  by (rule yieldsI) (auto simp: getAuthenticatedIdentity_def returnE_def throwE_def split: option.splits)

lemma keeps_merge_ops:
  assumes h: "honest_governance env ctl"
  shows "keeps (session_safe env ctl) (mergeNeurons env i j)"
    "keeps (session_safe env ctl) (simulateMergeNeurons env i j)"
  subgoal
    unfolding mergeNeurons_def
    by (intro keeps_tryCatch keeps_bindE_yields [OF keeps_controller_ops(10) [OF h] yields_mergeable [OF h]] keeps_toast_error)
      (auto intro!: keeps_intros keeps_asController [OF h] keeps_governance keeps_listNeurons [OF h])
  subgoal
    unfolding simulateMergeNeurons_def
    by (intro keeps_tryCatch keeps_thenE keeps_controller_ops(10) [OF h] keeps_toast_error
          keeps_bindE_yields [OF keeps_identities(1) yields_auth] keeps_bindE keeps_outside keeps_basic; simp)
  done

lemma keeps_device_hotkey:
  assumes h: "honest_governance env ctl" and device: "device_neurons env ctl [AddHotkeyForHardwareWallet i a]"
  shows "keeps (session_safe env ctl) (addHotkeyForHardwareWalletNeuron env i a)"
proof -
  have add: "keeps (session_safe env ctl) (governance env (GovAddHotkey i p) l)"
    if "\<exists>q. l = LedgerIdentityOf q \<and> nv_principalToAccountIdentifier env q = a" for l p
    using that device by (auto simp: device_neurons_def intro!: keeps_governance)
  show ?thesis
    unfolding addHotkeyForHardwareWalletNeuron_def
    by (intro keeps_intros keeps_bindE_yields [OF keeps_identities(2) yields_device] add keeps_getAndLoad [OF h]; simp)
qed

lemma keeps_removeHotkey:
  assumes h: "honest_governance env ctl"
  shows "keeps (session_safe env ctl) (removeHotkey env i p)"
proof -
  have handler: "keeps (session_safe env ctl) (case err of NnsError NotAuthorizedNeuronError m \<Rightarrow>
      bindE (getAuthenticatedIdentity env) (\<lambda>j. returnE (if p = principal_of env j then Some i else None))
    | _ \<Rightarrow> toast_error env None err)" for err
    by (cases err rule: nns_error.exhaust) (auto intro!: keeps_intros split: nns_error_class.split)
  show ?thesis
    unfolding removeHotkey_def
    by (intro keeps_intros keeps_asController [OF h] keeps_governance keeps_getAndLoad [OF h] handler; simp)
qed

lemma keeps_followees:
  assumes h: "honest_governance env ctl"
  shows "keeps (session_safe env ctl) (setFolloweesHelper env neuron topic fs)"
proof (cases neuron)
  case None
  then show ?thesis unfolding setFolloweesHelper_def by (auto intro!: keeps_intros)
next
  case (Some n)
  let ?Q = "\<lambda>j. ctl (ni_neuronId n) = Some (principal_of env j) \<or> map_option AuthIdentity (nv_auth env) = Some j"
  let ?R = "\<lambda>j. ctl (ni_neuronId n) = Some (principal_of env j) \<or> topic \<noteq> NeuronManagement \<and> map_option AuthIdentity (nv_auth env) = Some j"
  have q: "yields (session_safe env ctl) (if b then getIdentityOfControllerByNeuronId env (ni_neuronId n) else returnE j) ?Q"
    if "map_option AuthIdentity (nv_auth env) = Some j" for b j
    using yields_controller [OF h, of "ni_neuronId n"] that by (auto simp: yields_def returnE_def)
  have r: "yields (session_safe env ctl) (if topic = NeuronManagement then getIdentityOfControllerByNeuronId env (ni_neuronId n) else returnE j) ?R"
    if "?Q j" for j
    using yields_controller [OF h, of "ni_neuronId n"] that by (auto simp: yields_def returnE_def)
  show ?thesis
    unfolding setFolloweesHelper_def Some option.case
    by (intro keeps_tryCatch keeps_bindE_yields [OF keeps_identities(1) yields_auth] keeps_bindE_yields [OF _ q]
        keeps_bindE_yields [OF _ r] keeps_thenE keeps_governance keeps_getAndLoad [OF h] keeps_toast_error)
      (auto intro: keeps_controller keeps_intros)
qed

lemma keeps_stake:
  assumes h: "honest_governance env ctl"
  shows "keeps (session_safe env ctl) (stakeNeuron env a acc l p)"
proof -
  have props: "signed_ok env ctl (CallGov (GovStake stake (sk_controller (getStakeNeuronPropsByAccount env acc j)) sub fee
      (sk_ledgerCanisterIdentity (getStakeNeuronPropsByAccount env acc j))) (sk_identity (getStakeNeuronPropsByAccount env acc j)))"
    for stake sub fee j
    by (simp add: getStakeNeuronPropsByAccount_def)
  have visible: "keeps (session_safe env ctl) (case (asPublic, newId) of (True, Some i) \<Rightarrow>
        tryCatch (thenE (governance env (GovChangeVisibility i True) j) (returnE ()))
          (\<lambda>_. emit (ShowError ''neurons.create_as_public_neuron_failure'')) | _ \<Rightarrow> returnE ())"
    if "\<forall>i. newId = Some i \<longrightarrow> ctl i = Some (principal_of env j)" for asPublic newId j
    using that by (cases asPublic; cases newId) (auto intro!: keeps_intros keeps_governance)
  have load: "keeps (session_safe env ctl) (case (l, newId) of (True, Some i) \<Rightarrow> getAndLoadNeuron env i | _ \<Rightarrow> returnE ())" for newId
    by (cases l; cases newId) (auto intro!: keeps_intros keeps_getAndLoad [OF h])
  have staked: "yields (session_safe env ctl) (governance env (GovStake stake (sk_controller (getStakeNeuronPropsByAccount env acc j)) sub fee k) k')
      (\<lambda>newId. \<forall>i. newId = Some i \<longrightarrow> ctl i = Some (principal_of env j))" for stake sub fee j k k'
  proof (rule yieldsI)
    fix s newId t
    let ?c = "GovStake stake (sk_controller (getStakeNeuronPropsByAccount env acc j)) sub fee k"
    assume "governance env ?c k' s = (Inr newId, t)"
    then have "fst (nv_governance env ?c k' (nn_world s)) = Inr newId"
      by (auto simp: governance_def outside_def Let_def split: prod.splits)
    moreover have "sk_controller (getStakeNeuronPropsByAccount env acc j) = principal_of env j"
      by (simp add: getStakeNeuronPropsByAccount_def)
    ultimately show "\<forall>i. newId = Some i \<longrightarrow> ctl i = Some (principal_of env j)"
      using h unfolding honest_governance_def by metis
  qed
  show ?thesis
    unfolding stakeNeuron_def Let_def
    by (intro keeps_intros keeps_bindE_yields [OF keeps_governance staked] props visible load; simp)
qed

lemma keeps_add_checked [keeps_intros]: "keeps (session_safe env ctl) (add_checked env' a)"
  by (rule keepsI) (simp add: add_checked_def Let_def split: prod.split)

lemma keeps_claim:
  assumes h: "honest_governance env ctl"
  shows "keeps (session_safe env ctl) (claim_memos env c accs memos)"
proof (induction memos)
  case Nil
  then show ?case by (auto intro: keeps_intros)
next
  case (Cons m memos)
  have "keeps (session_safe env ctl) (claimNeuron_nns env memo c)" for memo
    unfolding claimNeuron_nns_def by (intro keeps_intros keeps_governance keeps_loadNeuron [OF h]; simp)
  with Cons.IH show ?case by (cases m) (auto intro!: keeps_intros)
qed

lemma keeps_change_all:
  assumes h: "honest_governance env ctl"
  shows "keeps (session_safe env ctl) (change_all env p ns)"
proof (induction ns)
  case Nil
  then show ?case by (auto intro: keeps_intros)
next
  case (Cons n ns)
  have "keeps (session_safe env ctl) (change_one env p n)"
    unfolding change_one_def
    by (intro keeps_intros keeps_asController [OF h] keeps_governance keeps_getAndLoad [OF h]; simp)
  with Cons.IH show ?case by (auto intro!: keeps_intros)
qed

lemma keeps_run_op:
  assumes h: "honest_governance env ctl" and device: "device_neurons env ctl [op]"
  shows "keeps (session_safe env ctl) (run_op env op)"
proof (cases op)
  case (AddFollowee i t f)
  then show ?thesis
    unfolding AddFollowee run_op.simps addFollowee_def
    by (auto intro!: keeps_intros keeps_followees [OF h] split: option.split)
next
  case (RemoveFollowee i t f)
  then show ?thesis
    unfolding RemoveFollowee run_op.simps removeFollowee_def
    by (auto intro!: keeps_intros keeps_followees [OF h] split: option.split)
next
  case (ChangeVisibility ns p)
  then show ?thesis
    unfolding ChangeVisibility run_op.simps changeNeuronVisibility_def
    by (auto intro!: keeps_intros keeps_change_all [OF h])
next
  case (AddHotkeyForHardwareWallet i a)
  then show ?thesis
    unfolding AddHotkeyForHardwareWallet run_op.simps
    by (intro keeps_void keeps_device_hotkey [OF h]) (use device AddHotkeyForHardwareWallet in simp)
qed (simp_all add: keeps_void keeps_stake [OF h] keeps_listNeurons [OF h] keeps_controller_ops [OF h] keeps_fund [OF h] keeps_merge_ops [OF h]
    keeps_removeHotkey [OF h] claimNeuronsIfNeeded_def keeps_claim [OF h])

subsection \<open>No operation rejects\<close>

lemma throws_tryCatch [throws_intros]:
  "(\<And>e. throws_only {NeverSettles} (h e)) \<Longrightarrow> throws_only {NeverSettles} (tryCatch m h)"
  unfolding tryCatch_def
  by (rule throws_catchE) (auto simp: throws_only_def throwE_def split: if_splits)

lemma throws_toast [throws_intros]: "throws_only E (toast_error env r e)"
  unfolding toast_error_def by (intro throws_intros)

lemma throws_auth [throws_intros]: "throws_only {NeverSettles} (getAuthenticatedIdentity env)"
  by (simp add: getAuthenticatedIdentity_def throws_only_def effect_defs split: option.split)

lemma throws_add_checked [throws_intros]: "throws_only E (add_checked env a)"
  by (simp add: throws_only_def add_checked_def Let_def split: prod.split)

lemma throws_void [throws_intros]: "throws_only E m \<Longrightarrow> throws_only E (void m)"
  unfolding void_def by (intro throws_intros)

lemma throws_lists [throws_intros]:
  "throws_only {NeverSettles} (listNeurons env st)"
  "throws_only {NeverSettles} (claim_memos env c accs memos)"
  "throws_only {NeverSettles} (change_all env p ns)"
  subgoal unfolding listNeurons_def Let_def by (intro throws_intros)
  subgoal by (induction memos) (auto intro!: throws_intros)
  subgoal
  proof (induction ns)
    case (Cons n ns)
    have "throws_only {NeverSettles} (change_one env p n)" unfolding change_one_def by (intro throws_intros)
    with Cons show ?case by (auto intro!: throws_intros)
  qed (auto intro: throws_intros)
  done

lemma throws_removeHotkey [throws_intros]: "throws_only {NeverSettles} (removeHotkey env i p)"
  unfolding removeHotkey_def by (intro throws_intros)

lemma throws_run_op: "throws_only {NeverSettles} (run_op env op)"
  by (cases op)
    (auto simp: stakeNeuron_def updateDelay_def toggleCommunityFund_def toggleAutoStakeMaturity_def mergeNeurons_def
      simulateMergeNeurons_def addHotkeyForHardwareWalletNeuron_def addHotkey_def splitNeuron_def disburse_def
      stakeMaturity_def spawnNeuron_def startDissolving_def stopDissolving_def addFollowee_def removeFollowee_def
      setFolloweesHelper_def claimNeuronsIfNeeded_def changeNeuronVisibility_def Let_def
      intro!: throws_intros split: option.split)

subsection \<open>Claiming from the transactions\<close>

definition checked_accounts :: "'w nns_env \<Rightarrow> 'w nns_state \<Rightarrow> string set" where
  "checked_accounts env s = nullish_or (nn_checked s (nv_ownCanisterId env)) {}"

definition claimed_memos :: "nns_event list \<Rightarrow> int list" where
  "claimed_memos = List.map_filter (\<lambda>e. case e of CallGov (GovClaimByMemo memo c) i \<Rightarrow> Some memo | _ \<Rightarrow> None)"

text \<open>The memos up to the first whose account was checked before, in the session or earlier in the list.\<close>

fun fresh_prefix :: "string set \<Rightarrow> (int \<times> string) list \<Rightarrow> (int \<times> string) list" where
  "fresh_prefix C [] = []"
| "fresh_prefix C ((memo, a) # ms) = (if a \<in> C then [] else (memo, a) # fresh_prefix (insert a C) ms)"

lemma claimed_memos_simps [simp]:
  "claimed_memos (l @ m) = claimed_memos l @ claimed_memos m"
  "claimed_memos (e # l) = (case e of CallGov (GovClaimByMemo memo c) i \<Rightarrow> [memo] | _ \<Rightarrow> []) @ claimed_memos l"
  "claimed_memos [] = []"
  by (simp_all add: claimed_memos_def List.map_filter_def split: nns_event.split gov_call.split)

lemma add_checked_eq:
  obtains s' where "add_checked env a s = (Inr (a \<notin> checked_accounts env s), s')"
    "checked_accounts env s' = insert a (checked_accounts env s)" "nn_log s' = nn_log s"
proof -
  obtain s' where run: "add_checked env a s = (Inr (a \<notin> checked_accounts env s), s')"
    "checked_accounts env s' = insert a (checked_accounts env s)" "nn_log s' = nn_log s"
    by (cases "nn_checked s (nv_ownCanisterId env)")
      (auto simp: add_checked_def addSubaccount_def checked_accounts_def Let_def insert_absorb)
  then show ?thesis by (rule that)
qed

definition claims_are :: "checked_store \<Rightarrow> int list \<Rightarrow> 'w nns_state \<Rightarrow> bool" where
  "claims_are C L s \<longleftrightarrow> nn_checked s = C \<and> claimed_memos (nn_log s) = L"

lemma loadNeuron_claims:
  assumes "nv_auth env = Some p"
  shows "\<exists>t. loadNeuron_nns env i True (Some UpdateOnly) push_loaded id s = (Inr (), t) \<and>
    claims_are (nn_checked s) (claimed_memos (nn_log s)) t"
proof -
  let ?P = "claims_are (nn_checked s) (claimed_memos (nn_log s))"
  define t where "t = snd (loadNeuron_nns env i True (Some UpdateOnly) push_loaded id s)"
  have query: "keeps ?P (getNeuron env i (AuthIdentity p) c True)" for c
    by (rule keepsI) (auto simp: getNeuron_def queryNeuron_def outside_def claims_are_def Let_def split: prod.split)
  have load: "loadNeuron_nns env i True (Some UpdateOnly) push_loaded id =
    updateE (\<lambda>s. snd (qau_run (\<lambda>certified. getNeuron env i (AuthIdentity p) certified True)
      (\<lambda>certified neuron s. case neuron of
           None \<Rightarrow> id (note_event (load_error (NnsError NotFoundError None)) s)
         | Some n \<Rightarrow> push_loaded n certified s)
      (\<lambda>certified st error s. if \<not> isLastCall st certified then s else id (note_event (load_error error) s))
      UpdateOnly (if nv_updateFirst env then rev (qau_requests UpdateOnly) else qau_requests UpdateOnly) (False, s)))"
    by (simp only: loadNeuron_nns_def getAuthenticatedIdentity_def assms option.case bindE_simps Let_def nullish_or_def)
  have "?P t"
    unfolding t_def load updateE_def snd_conv
    by (rule qau_run_safe [where Q = "\<lambda>_. True"])
      (rule query, auto simp: claims_are_def yields_def push_loaded_def load_error_def split: option.split)
  moreover have "loadNeuron_nns env i True (Some UpdateOnly) push_loaded id s = (Inr (), t)"
    unfolding t_def load by (simp add: updateE_def)
  ultimately show ?thesis by blast
qed

lemma claimNeuron_claims:
  assumes "nv_auth env = Some p" "\<And>c i w. fst (nv_governance env c i w) \<noteq> Inl NeverSettles"
  shows "\<exists>t. tryCatch (claimNeuron_nns env memo c) (\<lambda>_. returnE ()) s = (Inr (), t) \<and>
    claims_are (nn_checked s) (claimed_memos (nn_log s) @ [memo]) t"
proof -
  obtain r w where call: "nv_governance env (GovClaimByMemo memo c) AnonymousIdentity (nn_world s) = (r, w)" by force
  let ?t = "note_event (CallGov (GovClaimByMemo memo c) AnonymousIdentity) (s\<lparr>nn_world := w\<rparr>)"
  have gov: "governance env (GovClaimByMemo memo c) AnonymousIdentity s = (r, ?t)"
    by (simp add: governance_def outside_def call)
  have t: "claims_are (nn_checked s) (claimed_memos (nn_log s) @ [memo]) ?t"
    by (simp add: claims_are_def)
  have "r \<noteq> Inl NeverSettles"
    using assms(2) [of "GovClaimByMemo memo c" AnonymousIdentity "nn_world s"] call by simp
  then consider (rejected) e where "r = Inl e" "e \<noteq> NeverSettles" | (none) "r = Inr None" | (claimed) i where "r = Inr (Some i)"
    by (cases r) auto
  then show ?thesis
  proof cases
    case claimed
    obtain u where u: "loadNeuron_nns env i True (Some UpdateOnly) push_loaded id ?t = (Inr (), u)"
        "claims_are (nn_checked ?t) (claimed_memos (nn_log ?t)) u"
      using loadNeuron_claims [OF assms(1)] by blast
    have "tryCatch (claimNeuron_nns env memo c) (\<lambda>_. returnE ()) s = (Inr (), u)"
      by (simp add: tryCatch_def catchE_def claimNeuron_nns_def bindE_def gov claimed u(1))
    with u(2) show ?thesis by (simp add: claims_are_def)
  qed (use t in \<open>simp_all add: tryCatch_def catchE_def claimNeuron_nns_def bindE_def gov throwE_def returnE_def\<close>)
qed

lemma claim_memos_claims:
  assumes "nv_auth env = Some p" "\<And>c i w. fst (nv_governance env c i w) \<noteq> Inl NeverSettles"
  shows "claimed_memos (nn_log (snd (claim_memos env c accs memos s))) = claimed_memos (nn_log s) @
    map fst (filter (\<lambda>(memo, a). a \<notin> accs) (fresh_prefix (checked_accounts env s) memos))"
proof (induction memos arbitrary: s)
  case Nil
  then show ?case by (simp add: returnE_def)
next
  case (Cons m memos)
  obtain memo a where m: "m = (memo, a)" by force
  obtain s' where s': "add_checked env a s = (Inr (a \<notin> checked_accounts env s), s')"
    "checked_accounts env s' = insert a (checked_accounts env s)" "nn_log s' = nn_log s"
    by (rule add_checked_eq)
  show ?case
  proof (cases "a \<in> checked_accounts env s \<or> a \<in> accs")
    case True
    then show ?thesis using Cons.IH [of s'] by (auto simp: m s' bindE_def returnE_def)
  next
    case False
    obtain t where t: "tryCatch (claimNeuron_nns env memo c) (\<lambda>_. returnE ()) s' = (Inr (), t)"
        "claims_are (nn_checked s') (claimed_memos (nn_log s') @ [memo]) t"
      using claimNeuron_claims [OF assms(1,2)] by blast
    then have "checked_accounts env t = checked_accounts env s'" by (simp add: claims_are_def checked_accounts_def)
    with t False show ?thesis
      using Cons.IH [of t] by (simp add: m s' bindE_def thenE_def claims_are_def)
  qed
qed

subsection \<open>The properties\<close>

definition example_account :: Account where
  "example_account = \<lparr>ac_identifier = ''u'', ac_principal = None, ac_balanceUlps = 0, ac_name = None,
     ac_subAccount = None, ac_type = AccountMain, ac_icpIdentifier = None\<rparr>"

definition example_env :: "unit nns_env" where
  "example_env = \<lparr>nv_auth = Some ''u'', nv_anonymous = ''a'', nv_ownCanisterId = ''o'',
     nv_accounts = \<lparr>acs_main = None, acs_subAccounts = None, acs_hardwareWallets = None\<rparr>, nv_fee = 10000,
     nv_numberToE8s = (\<lambda>_. Some 200000000), nv_translated = (\<lambda>_. False), nv_principalToAccountIdentifier = id,
     nv_validPrincipal = (\<lambda>_. True), nv_memoToNeuronAccountIdentifier = (\<lambda>c memo. c @ int_to_string memo),
     nv_validIcrc = (\<lambda>_. False), nv_validIcp = (\<lambda>_. True), nv_createLedger = (\<lambda>w. (Inr ''d'', w)),
     nv_ledgerVersion = (\<lambda>_ w. (Inr [2, 3, 0], w)),
     nv_governance = (\<lambda>c i w. (case c of GovClaimOrRefresh n \<Rightarrow> Inl (NnsError GovernanceErrorClass None)
        | GovStake stake controller sub fee j \<Rightarrow> if controller = ''u'' then Inr (Some 1) else Inl (NnsError GovernanceErrorClass None)
        | _ \<Rightarrow> Inr (Some 1), w)),
     nv_simulateMerge = (\<lambda>i j _ w. (Inr (plain_neuron j), w)),
     nv_queryNeuron = (\<lambda>i _ _ w. (Inr (Some ((plain_neuron i)\<lparr>ni_fullNeuron := Some (plain_full (if i = 8 then ''d'' else ''u'') 5)\<rparr>)), w)),
     nv_queryNeurons = (\<lambda>_ _ w. (Inr [], w)), nv_queryBalance = (\<lambda>_ w. (Inr 5, w)),
     nv_send = (\<lambda>_ _ _ _ w. (Inr (), w)), nv_reloadBalance = (\<lambda>_ w. w), nv_updateFirst = False\<rparr>"

definition example_state :: "unit nns_state" where
  "example_state = \<lparr>nn_world = (), nn_neurons = \<lparr>ns_neurons = None, ns_certified = None\<rparr>, nn_checked = Map.empty, nn_log = []\<rparr>"

definition example_controllers :: "int \<Rightarrow> string option" where
  "example_controllers n = Some (if n = 8 then ''d'' else ''u'')"

lemma letters_no_number:
  assumes "c \<in> {CHR ''u'', CHR ''d''}"
  shows "[c] \<noteq> int_to_string k"
proof
  assume n: "[c] = int_to_string k"
  have "c \<in> set (nat_to_string m) \<Longrightarrow> False" for m
  proof -
    assume "c \<in> set (nat_to_string m)"
    then obtain d where "d < 10" "c = digit_char d" using set_nat_to_string by blast
    then have "of_char c = (48 + d :: nat)" by (metis of_char_digit_char)
    with \<open>d < 10\<close> assms show False by auto
  qed
  then have "[c] \<noteq> nat_to_string m" for m by (metis list.set_intros(1))
  with n assms show False by (auto simp: int_to_string_def split: if_splits)
qed

lemma example_honest: "honest_governance example_env example_controllers"
proof -
  have "example_controllers n \<noteq> Some (int_to_string k)" for n k
    by (simp add: example_controllers_def letters_no_number)
  then show ?thesis
    by (auto simp: honest_governance_def example_env_def example_controllers_def knows_controller_def plain_neuron_def plain_full_def
        split: if_splits)
qed

lemma example_safe: "session_safe example_env example_controllers example_state"
  by (simp add: session_safe_def example_state_def nullish_or_def)

text \<open>
  C36: Whatever operations on neurons the user runs in a session, in any order, and however they fail, every
  governance call is signed by whom it needs: delays, maturity, splits, disbursals, spawning, dissolving,
  hot keys and visibility by the controller of the neuron, and a merge by the controller of both neurons; the followees for
  neuron management by the controller, those of other topics by it or by the user; a stake names as the controller the
  identity that pays.  This needs a governance canister that answers the neuron it is asked for, with its true controller, and
  gives a stake the controller it names; and the hot key of a device is asked for only of the neurons of that device.
\<close>

theorem controller_calls_signed:
  assumes "honest_governance env controllers" "session_safe env controllers s" "device_neurons env controllers ops"
  shows "list_all (signed_ok env controllers) (nn_log (run_ops env ops s))"
proof -
  have "session_safe env controllers (run_ops env ops s)"
    using assms(2,3)
  proof (induction ops arbitrary: s)
    case (Cons op ops)
    have op: "device_neurons env controllers [op]" and ops: "device_neurons env controllers ops"
      using Cons.prems(2) by (auto simp: device_neurons_def)
    show ?case
      using Cons.IH [OF keeps_snd [OF keeps_run_op [OF assms(1) op] Cons.prems(1)] ops] by (simp add: run_ops_def)
  qed (simp add: run_ops_def)
  then show ?thesis by (simp add: session_safe_def)
qed

theorem controller_calls_signed_witness:
  "list_all (signed_ok example_env example_controllers)
     (nn_log (run_ops example_env [MergeNeurons 7 9, AddHotkeyForHardwareWallet 8 ''d'', StakeNeuron 2 example_account True True] example_state))"
  by (rule controller_calls_signed [OF example_honest example_safe]) (simp add: device_neurons_def example_env_def example_controllers_def)

text \<open>
  none of the operations of nns_op rejects its promise: every error of a canister, of the Ledger device or of a
  check is caught and shown, so that the only outcome besides a result is a promise that never settles, when
  the session has no user.
\<close>

lemma operations_never_reject:
  "case fst (run_op env op s) of Inl e \<Rightarrow> e = NeverSettles | Inr _ \<Rightarrow> True"
proof (cases "run_op env op s")
  case (Pair r t)
  with throws_run_op [of env op] show ?thesis by (cases r) (auto simp: throws_only_def)
qed

text \<open>
  the recovery of interrupted stakes claims the memos of the staking transactions whose account has no
  neuron, but only up to the first whose account was checked before, in the session or earlier in the list;
  the memos behind it are skipped, although they were not checked (the loop returns where it should go on).
\<close>

lemma claims_stop_at_first_checked:
  assumes "nv_auth env = Some p" "\<And>c i w. fst (nv_governance env c i w) \<noteq> Inl NeverSettles"
  shows "claimed_memos (nn_log (snd (claimNeuronsIfNeeded env controller transactions accounts s))) =
    claimed_memos (nn_log s) @ map fst (filter (\<lambda>(memo, a). a \<notin> accounts)
      (fresh_prefix (checked_accounts env s) (getMemosFromStakingTransactions env controller transactions)))"
  unfolding claimNeuronsIfNeeded_def Let_def by (rule claim_memos_claims [OF assms])

text \<open>Two transactions of memo 1 and one of memo 2: the neuron of memo 2 is not claimed.\<close>

definition example_stakes :: "staking_transaction list" where
  "example_stakes = map (\<lambda>m. \<lparr>st_memo = m, st_transfer_to = Some (''u'' @ int_to_string m)\<rparr>) [1, 1, 2]"

theorem claims_stop_at_first_checked_witness:
  "claimed_memos (nn_log (snd (claimNeuronsIfNeeded example_env ''u'' example_stakes {} example_state))) = [1]"
  by (subst claims_stop_at_first_checked [where p = "''u''"])
    (auto simp: example_env_def example_state_def example_stakes_def getMemosFromStakingTransactions_def
      List.map_filter_def checked_accounts_def nullish_or_def split: gov_call.split)

text \<open>
  a top-up whose transfer succeeded and whose refresh of the neuron is then rejected by the governance
  canister never settles: reloadNeuron has no handler for that rejection, so neither a result nor an error
  reaches the caller, whose busy screen stays.
\<close>

lemma topUp_hangs_when_refresh_fails:
  assumes "ni_fullNeuron neuron = Some full" "validTopUpAmount (nv_numberToE8s env) neuron amount = Some True"
    and "transferICP env account (fn_accountIdentifier full) amount s = (Inr True, t)"
    and "nv_auth env = Some p"
    and "fst (nv_governance env (GovClaimOrRefresh (ni_neuronId neuron)) (AuthIdentity p) (nn_world t)) = Inl e"
  shows "fst (topUpNeuron env amount neuron account s) = Inl NeverSettles"
proof -
  obtain w where "nv_governance env (GovClaimOrRefresh (ni_neuronId neuron)) (AuthIdentity p) (nn_world t) = (Inl e, w)"
    using assms(5) by (metis prod.collapse)
  then have "fst (reloadNeuron env (ni_neuronId neuron) t) = Inl NeverSettles"
    by (simp add: reloadNeuron_def getAuthenticatedIdentity_def assms(4) catchE_def thenE_def bindE_def
        governance_def outside_def throwE_def)
  then show ?thesis
    by (cases "reloadNeuron env (ni_neuronId neuron) t") (simp add: topUpNeuron_def assms(1,2,3) bindE_def thenE_def)
qed

theorem topUp_hangs_when_refresh_fails_witness:
  "fst (topUpNeuron example_env 2 ((plain_neuron 7)\<lparr>ni_fullNeuron := Some (plain_full ''u'' 5)\<rparr>) example_account example_state)
     = Inl NeverSettles"
proof (rule topUp_hangs_when_refresh_fails [where full = "plain_full ''u'' 5" and p = "''u''"])
  show "transferICP example_env example_account (fn_accountIdentifier (plain_full ''u'' 5)) 2 example_state =
    (Inr True, snd (transferICP example_env example_account (fn_accountIdentifier (plain_full ''u'' 5)) 2 example_state))"
    by (simp add: transferICP_def tryCatch_def catchE_def bindE_def thenE_def getAccountIdentity_def example_env_def
        example_account_def nnsAccountsListStore_def findAccount_def getAuthenticatedIdentity_def returnE_def toE8s_def
        outside_def loadBalance_def updateE_def plain_full_def nullish_or_def Let_def)
qed (simp_all add: example_env_def validTopUpAmount_def plain_full_def MIN_NEURON_STAKE_def)

end
