(* ===== verification/WritableStored.thy ===== *)
theory WritableStored
  imports JsValue
begin

text \<open>
  stores/writable-stored.ts: stores whose value is kept in the browser's local storage, with a version.
  JSON.stringify and JSON.parse with the replacer and reviver of the library, the
  numeric grammar of Number(string) and the storage itself are parameters.
\<close>

subsection \<open>The store\<close>

record storage_env =
  se_numeral :: "string \<Rightarrow> number option"
  se_stringify :: "js_value \<Rightarrow> string option"
  se_parse :: "string \<Rightarrow> js_value option"
  se_getItem :: "(string \<rightharpoonup> string) \<Rightarrow> string \<Rightarrow> string option option"
  se_setItem :: "(string \<rightharpoonup> string) \<Rightarrow> string \<Rightarrow> string \<Rightarrow> (string \<rightharpoonup> string) option"
  se_browser :: bool

record VersionedData =
  vd_data :: js_value
  vd_version :: js_value

definition getVersion_stored :: "storage_env \<Rightarrow> js_value \<Rightarrow> number option" where
  "getVersion_stored env data =
     (if typeof_object data \<and> data \<noteq> JsNull
      then Option.bind (js_field data ''version'') (js_Number (se_numeral env)) else None)"

definition isVersionedData :: "storage_env \<Rightarrow> js_value \<Rightarrow> bool" where
  "isVersionedData env data \<longleftrightarrow>
     \<not> nullish_value data \<and> typeof_object data \<and> getVersion_stored env data \<noteq> None \<and> js_field data ''data'' \<noteq> None"

text \<open>
  A text that stringify does not give is undefined, which the storage keeps as its name; a stringify that
  throws is not modelled apart, since both end without a stored value that can be read.
\<close>

definition writeData :: "storage_env \<Rightarrow> string \<Rightarrow> js_value \<Rightarrow> js_value \<Rightarrow> (string \<rightharpoonup> string) \<Rightarrow> (string \<rightharpoonup> string)" where
  "writeData env key data version items =
     (let storeData = (if \<not> nullish_value version then JsObj [(''data'', data), (''version'', version)] else data);
          txt = nullish_or (se_stringify env storeData) ''undefined''
      in nullish_or (se_setItem env items key txt) items)"

definition readData :: "storage_env \<Rightarrow> string \<Rightarrow> (string \<rightharpoonup> string) \<Rightarrow> VersionedData" where
  "readData env key items =
     (let nothing = \<lparr>vd_data = JsUndefined, vd_version = JsUndefined\<rparr>
      in case se_getItem env items key of
           None \<Rightarrow> nothing
         | Some None \<Rightarrow> nothing
         | Some (Some storedValue) \<Rightarrow>
             if storedValue = ''undefined'' then nothing
             else (case se_parse env storedValue of
                None \<Rightarrow> nothing
              | Some parsedValue \<Rightarrow>
                  if isVersionedData env parsedValue
                  then \<lparr>vd_data = nullish_or (js_field parsedValue ''data'') JsUndefined,
                        vd_version = nullish_or (js_field parsedValue ''version'') JsUndefined\<rparr>
                  else \<lparr>vd_data = parsedValue, vd_version = JsUndefined\<rparr>))"

definition getInitialValue ::
  "storage_env \<Rightarrow> string \<Rightarrow> js_value \<Rightarrow> js_value \<Rightarrow> (string \<rightharpoonup> string) \<Rightarrow> VersionedData" where
  "getInitialValue env key defaultValue defaultVersion items =
     (let default_data = \<lparr>vd_data = defaultValue, vd_version = defaultVersion\<rparr>
      in if \<not> se_browser env then default_data
         else let storedValue = readData env key items
              in if vd_data storedValue = JsUndefined \<or> \<not> strict_eq defaultVersion (vd_version storedValue)
                 then default_data else storedValue)"

text \<open>A store: its value and the version it writes; every value is written when it is set.\<close>

record writable_stored =
  ws_value :: js_value
  ws_version :: js_value

definition stored_subscriber :: "storage_env \<Rightarrow> string \<Rightarrow> writable_stored \<Rightarrow> (string \<rightharpoonup> string) \<Rightarrow> (string \<rightharpoonup> string)" where
  "stored_subscriber env key store items =
     (if \<not> se_browser env then items else writeData env key (ws_value store) (ws_version store) items)"

definition writableStored ::
  "storage_env \<Rightarrow> string \<Rightarrow> js_value \<Rightarrow> js_value \<Rightarrow> (string \<rightharpoonup> string) \<Rightarrow> writable_stored \<times> (string \<rightharpoonup> string)" where
  "writableStored env key defaultValue defaultVersion items =
     (let initialValue = getInitialValue env key defaultValue defaultVersion items;
          store = \<lparr>ws_value = vd_data initialValue, ws_version = vd_version initialValue\<rparr>
      in (store, stored_subscriber env key store items))"

definition stored_set ::
  "storage_env \<Rightarrow> string \<Rightarrow> js_value \<Rightarrow> writable_stored \<times> (string \<rightharpoonup> string) \<Rightarrow> writable_stored \<times> (string \<rightharpoonup> string)" where
  "stored_set env key v st = (let store = (fst st)\<lparr>ws_value := v\<rparr> in (store, stored_subscriber env key store (snd st)))"

definition resetForTesting_stored ::
  "storage_env \<Rightarrow> string \<Rightarrow> js_value \<Rightarrow> writable_stored \<times> (string \<rightharpoonup> string) \<Rightarrow> writable_stored \<times> (string \<rightharpoonup> string)" where
  "resetForTesting_stored env key defaultValue st = stored_set env key defaultValue st"

subsection \<open>Reading back\<close>

text \<open>A storage that keeps texts, and a parser that reads back what the printer printed of a value.\<close>

definition working_storage :: "storage_env \<Rightarrow> bool" where
  "working_storage env \<longleftrightarrow> se_browser env \<and> (\<forall>items k. se_getItem env items k = Some (items k)) \<and>
     (\<forall>items k v. se_setItem env items k v = Some (items(k \<mapsto> v)))"

definition prints :: "storage_env \<Rightarrow> js_value \<Rightarrow> bool" where
  "prints env v \<longleftrightarrow> (\<exists>t. se_stringify env v = Some t \<and> t \<noteq> ''undefined'' \<and> se_parse env t = Some v)"

definition stored_value :: "js_value \<Rightarrow> js_value \<Rightarrow> js_value" where
  "stored_value v version = (if nullish_value version then v else JsObj [(''data'', v), (''version'', version)])"

definition version_ok :: "js_value \<Rightarrow> bool" where
  "version_ok version \<longleftrightarrow> version = JsUndefined \<or> (\<exists>n. version = JsNum n)"

lemma strict_eq_version [simp]: "version_ok v \<Longrightarrow> strict_eq v w \<longleftrightarrow> v = w"
  by (auto simp: version_ok_def)

lemma readData_written:
  assumes "working_storage env" "version_ok version" "prints env (stored_value v version)"
    and "version = JsUndefined \<longrightarrow> \<not> isVersionedData env v"
  shows "readData env key (writeData env key v version items) = \<lparr>vd_data = v, vd_version = version\<rparr>"
proof (cases "version = JsUndefined")
  case True
  with assms show ?thesis
    by (auto simp: readData_def writeData_def prints_def stored_value_def nullish_value_def working_storage_def Let_def)
next
  case False
  with assms(2) obtain n where n: "version = JsNum n" by (auto simp: version_ok_def)
  with assms(1,3) obtain t where t: "se_stringify env (JsObj [(''data'', v), (''version'', JsNum n)]) = Some t" "t \<noteq> ''undefined''"
      "se_parse env t = Some (JsObj [(''data'', v), (''version'', JsNum n)])"
    by (auto simp: prints_def stored_value_def nullish_value_def)
  have "isVersionedData env (JsObj [(''data'', v), (''version'', JsNum n)])"
    by (simp add: isVersionedData_def nullish_value_def getVersion_stored_def)
  with t assms(1) show ?thesis
    by (simp add: readData_def writeData_def n nullish_value_def working_storage_def)
qed

lemma ws_version_writableStored [simp]:
  assumes "version_ok version"
  shows "ws_version (fst (writableStored env key d version items)) = version"
  using assms by (simp add: writableStored_def getInitialValue_def Let_def)

text \<open>
  C38: what was set last in a stored store is what the store has after a reload of the page with the same
  version, and a page with another version starts with its default; it needs a local storage that works, a
  printer and a parser of JSON that agree on the value, and, for a store without a version, a value that does
  not look like versioned data.
\<close>

theorem stored_value_survives_reload:
  assumes "working_storage env" "version_ok version" "version_ok version'"
    and "prints env (stored_value v version)" "v \<noteq> JsUndefined" "version = JsUndefined \<longrightarrow> \<not> isVersionedData env v"
  shows "ws_value (fst (writableStored env key d' version'
      (snd (stored_set env key v (writableStored env key d version items))))) = (if version' = version then v else d')"
proof -
  let ?st = "writableStored env key d version items"
  have "snd (stored_set env key v ?st) = writeData env key v version (snd ?st)"
    using assms(1,2) by (simp add: stored_set_def stored_subscriber_def working_storage_def)
  then have "readData env key (snd (stored_set env key v ?st)) = \<lparr>vd_data = v, vd_version = version\<rparr>"
    by (simp add: readData_written [OF assms(1,2,4,6)])
  with assms(1,3,5) show ?thesis
    by (simp add: writableStored_def [of env key d' version'] getInitialValue_def Let_def working_storage_def)
qed

text \<open>Printing by one letter for each of two values.\<close>

definition example_storage :: storage_env where
  "example_storage = \<lparr>se_numeral = (\<lambda>_. None),
     se_stringify = (\<lambda>v. if v = JsObj [(''data'', JsBool True), (''version'', JsNum 1)] then Some ''a''
       else if v = JsUndefined then None else Some ''b''),
     se_parse = (\<lambda>t. if t = ''a'' then Some (JsObj [(''data'', JsBool True), (''version'', JsNum 1)]) else None),
     se_getItem = (\<lambda>items k. Some (items k)), se_setItem = (\<lambda>items k v. Some (items(k \<mapsto> v))), se_browser = True\<rparr>"

theorem stored_value_survives_reload_witness:
  "ws_value (fst (writableStored example_storage ''k'' JsNull (JsNum 1)
     (snd (stored_set example_storage ''k'' (JsBool True) (writableStored example_storage ''k'' JsNull (JsNum 1) Map.empty)))))
     = JsBool True"
  by (subst stored_value_survives_reload)
    (simp_all add: working_storage_def version_ok_def prints_def stored_value_def nullish_value_def example_storage_def)

text \<open>A failing storage costs only the persistence: the value that is set is the value of the store.\<close>

lemma stored_set_value: "ws_value (fst (stored_set env key v st)) = v"
  by (simp add: stored_set_def Let_def)

text \<open>
  The version that is compared is the field as it was stored, not the number that the check of the versioned
  shape converts it to: data stored under the version ''1'' counts as versioned and is dropped by version 1.
\<close>

lemma version_string_dropped:
  assumes "working_storage env" "se_numeral env ''1'' = Some 1"
    and "se_parse env t = Some (JsObj [(''data'', v), (''version'', JsStr ''1'')])" "t \<noteq> ''undefined''"
  shows "isVersionedData env (JsObj [(''data'', v), (''version'', JsStr ''1'')])"
    "getInitialValue env key d (JsNum 1) (items(key \<mapsto> t)) = \<lparr>vd_data = d, vd_version = JsNum 1\<rparr>"
  using assms by (simp_all add: isVersionedData_def nullish_value_def getVersion_stored_def getInitialValue_def
      readData_def working_storage_def Let_def)

end
