(* ===== verification/SnsProposals.thy ===== *)
theory SnsProposals
  imports SnsNeurons SnsProjects Proposals QueryAndUpdate
begin

text \<open>
  Proposals of SNS projects: utils/sns-proposals.utils.ts, stores/sns-proposals.store.ts, the filters of
  stores/sns-filters.store.ts and services/sns-filters.services.ts, the filtered list of
  derived/sns/sns-filtered-proposals.derived.ts, and the loading of pages of services/public/
  sns-proposals.services.ts.  Texts are parameters; the current time in seconds is an argument.  Names that
  other modules have too carry the suffix _sns.
\<close>

subsection \<open>Decision and rewards\<close>

datatype SnsProposalDecisionStatus =
  DecisionUnspecified | DecisionOpen | DecisionRejected | DecisionAdopted | DecisionExecuted | DecisionFailed

datatype SnsProposalRewardStatus = RewardUnspecified | RewardAcceptVotes | RewardReadyToSettle | RewardSettled

definition MINIMUM_YES_PROPORTION_OF_TOTAL_VOTING_POWER :: int where
  "MINIMUM_YES_PROPORTION_OF_TOTAL_VOTING_POWER = 300"

definition MINIMUM_YES_PROPORTION_OF_EXERCISED_VOTING_POWER :: int where
  "MINIMUM_YES_PROPORTION_OF_EXERCISED_VOTING_POWER = 5000"

definition fromPercentageBasisPoints :: "int option option \<Rightarrow> int option" where
  "fromPercentageBasisPoints value = (case value of None \<Rightarrow> None | Some percentage \<Rightarrow> percentage)"

definition minimumYesProportionOfTotal :: "SnsProposalData \<Rightarrow> int" where
  "minimumYesProportionOfTotal proposal =
     nullish_or (fromPercentageBasisPoints (sd_minimum_yes_proportion_of_total proposal))
       MINIMUM_YES_PROPORTION_OF_TOTAL_VOTING_POWER"

definition minimumYesProportionOfExercised :: "SnsProposalData \<Rightarrow> int" where
  "minimumYesProportionOfExercised proposal =
     nullish_or (fromPercentageBasisPoints (sd_minimum_yes_proportion_of_exercised proposal))
       MINIMUM_YES_PROPORTION_OF_EXERCISED_VOTING_POWER"

definition majorityDecision :: "int \<Rightarrow> int \<Rightarrow> int \<Rightarrow> int \<Rightarrow> Vote" where
  "majorityDecision yes no all requiredYesOfTotalBasisPoints =
     (let requiredNoOfTotalBasisPoints = 10000 - requiredYesOfTotalBasisPoints
      in if yes * 10000 > all * requiredYesOfTotalBasisPoints then VoteYes
         else if no * 10000 \<ge> all * requiredNoOfTotalBasisPoints then VoteNo
         else VoteUnspecified)"

definition isAccepted :: "SnsProposalData \<Rightarrow> bool" where
  "isAccepted proposal =
     (case sd_latest_tally proposal of
        None \<Rightarrow> False
      | Some tally \<Rightarrow>
          let yes = tl_yes tally; no = tl_no tally;
              majorityMet = (majorityDecision yes no (yes + no) (minimumYesProportionOfExercised proposal) = VoteYes);
              quorumMet = (yes * 10000 \<ge> tl_total tally * minimumYesProportionOfTotal proposal)
          in quorumMet \<and> majorityMet)"

definition snsDecisionStatus :: "SnsProposalData \<Rightarrow> SnsProposalDecisionStatus" where
  "snsDecisionStatus proposal =
     (if sd_decided_timestamp_seconds proposal = 0 then DecisionOpen
      else if isAccepted proposal
      then if sd_executed_timestamp_seconds proposal > 0 then DecisionExecuted
           else if sd_failed_timestamp_seconds proposal > 0 then DecisionFailed
           else DecisionAdopted
      else DecisionRejected)"

definition snsRewardStatus :: "int \<Rightarrow> SnsProposalData \<Rightarrow> SnsProposalRewardStatus" where
  "snsRewardStatus now proposal =
     (if sd_reward_event_end_timestamp_seconds proposal \<noteq> None \<or> sd_reward_event_round proposal > 0
      then RewardSettled
      else let deadline = nullish_or (sd_current_deadline proposal)
             (sd_proposal_creation_timestamp_seconds proposal + sd_initial_voting_period_seconds proposal)
        in if now < deadline then RewardAcceptVotes
           else if sd_is_eligible_for_rewards proposal then RewardReadyToSettle
           else RewardSettled)"

definition snsProposalAcceptingVotes :: "int \<Rightarrow> SnsProposalData \<Rightarrow> bool" where
  "snsProposalAcceptingVotes now proposal \<longleftrightarrow> snsRewardStatus now proposal = RewardAcceptVotes"

fun getUniversalProposalStatus_sns :: "SnsProposalData \<Rightarrow> UniversalProposalStatus" where
  "getUniversalProposalStatus_sns proposalData =
     (case snsDecisionStatus proposalData of
        DecisionUnspecified \<Rightarrow> UpUnknown
      | DecisionOpen \<Rightarrow> UpOpen
      | DecisionRejected \<Rightarrow> UpRejected
      | DecisionAdopted \<Rightarrow> UpAdopted
      | DecisionExecuted \<Rightarrow> UpExecuted
      | DecisionFailed \<Rightarrow> UpFailed)"

definition basisPointsToPercent :: "int \<Rightarrow> number" where
  "basisPointsToPercent basisPoints = num_div (to_number basisPoints) 100"

definition isCriticalProposal :: "number \<Rightarrow> bool" where
  "isCriticalProposal immediateMajorityPercent \<longleftrightarrow>
     immediateMajorityPercent \<noteq> basisPointsToPercent MINIMUM_YES_PROPORTION_OF_EXERCISED_VOTING_POWER"

subsection \<open>Ids and order\<close>

definition compare_sns_ids :: "SnsProposalData comparator_fun" where
  "compare_sns_ids a b = (if nullish_or (sd_id a) 0 > nullish_or (sd_id b) 0 then -1 else 1)"

definition sortSnsProposalsById :: "SnsProposalData list \<Rightarrow> SnsProposalData list" where
  "sortSnsProposalsById proposals = js_sort compare_sns_ids proposals"

definition lastProposalId_sns :: "SnsProposalData list \<Rightarrow> int option" where
  "lastProposalId_sns proposals =
     (let sorted = sortSnsProposalsById proposals
      in if proposals = [] then None else sd_id (sorted ! (length proposals - 1)))"

text \<open>fromDefinedNullable throws without an id: None.\<close>

definition snsProposalId :: "SnsProposalData \<Rightarrow> int option" where
  "snsProposalId proposal = sd_id proposal"

definition snsProposalIdString :: "SnsProposalData \<Rightarrow> string option" where
  "snsProposalIdString proposal = map_option int_to_string (sd_id proposal)"

definition snsNeuronToVotingNeuron :: "SnsNeuron \<Rightarrow> SnsProposalData \<Rightarrow> VotingNeuron" where
  "snsNeuronToVotingNeuron neuron proposal =
     \<lparr>vn_neuronIdString = getSnsNeuronIdAsHexString neuron, vn_votingPower = ballotVotingPower proposal neuron\<rparr>"

subsection \<open>The action of a proposal\<close>

definition getAction :: "SnsProposalData \<Rightarrow> (string \<times> js_value) list option" where
  "getAction proposal = Option.bind (sd_proposal proposal) spr_action"

text \<open>Inl when the action has more than one key.\<close>

definition proposalOnlyActionKey :: "SnsProposalData \<Rightarrow> unit + string option" where
  "proposalOnlyActionKey proposal =
     (let actionKeys = map fst (nullish_or (getAction proposal) [])
      in if length actionKeys > 1 then Inl ()
         else Inr (case actionKeys of [] \<Rightarrow> None | k # _ \<Rightarrow> Some k))"

fun shown_field :: "js_value \<Rightarrow> bool" where
  "shown_field JsNull \<longleftrightarrow> False"
| "shown_field (JsObj es) \<longleftrightarrow> es \<noteq> []"
| "shown_field _ \<longleftrightarrow> True"

definition proposalActionFields :: "SnsProposalData \<Rightarrow> unit + (string \<times> js_value) list" where
  "proposalActionFields proposal =
     (case proposalOnlyActionKey proposal of
        Inl e \<Rightarrow> Inl e
      | Inr None \<Rightarrow> Inr []
      | Inr (Some key) \<Rightarrow>
          let actionData = (case Option.bind (getAction proposal) (\<lambda>obj. map_of obj key) of
                None \<Rightarrow> JsObj []
              | Some v \<Rightarrow> if nullish_value v then JsObj [] else v)
          in Inr (filter (\<lambda>(_, v). shown_field v) (js_entries actionData)))"

text \<open>
  The texts of the states, and the row of a proposal; fields that are copied and that nothing else here reads
  (the rendered payload, the reject cost, the proposer and timestamps) are left out.
\<close>

record sns_texts =
  tx_status :: "SnsProposalDecisionStatus \<Rightarrow> string"
  tx_status_description :: "SnsProposalDecisionStatus \<Rightarrow> string"
  tx_rewards_status :: "SnsProposalRewardStatus \<Rightarrow> string"
  tx_rewards_description :: "SnsProposalRewardStatus \<Rightarrow> string"

record SnsProposalDataMap =
  pm_id :: "int option"
  pm_action :: int
  pm_ballots :: "(string \<times> SnsBallot) list"
  pm_latest_tally :: "SnsTally option"
  pm_current_deadline_timestamp_seconds :: "int option"
  pm_title :: string
  pm_url :: "string option"
  pm_summary :: string
  pm_actionData :: "(string \<times> js_value) list option"
  pm_status :: SnsProposalDecisionStatus
  pm_rewardStatus :: SnsProposalRewardStatus
  pm_statusString :: string
  pm_statusDescription :: string
  pm_rewardStatusString :: string
  pm_rewardStatusDescription :: string
  pm_type :: "string option"
  pm_typeDescription :: "string option"
  pm_minimumYesProportionOfTotal :: int
  pm_minimumYesProportionOfExercised :: int

definition mapProposalInfo_sns ::
  "sns_texts \<Rightarrow> int \<Rightarrow> SnsProposalData \<Rightarrow> SnsNervousSystemFunction list option \<Rightarrow> SnsProposalDataMap" where
  "mapProposalInfo_sns texts now proposalData nsFunctions =
     (let proposalInfo = sd_proposal proposalData;
          nsFunction = Option.bind nsFunctions (List.find (\<lambda>f. sf_id f = sd_action proposalData));
          rewardStatus = snsRewardStatus now proposalData;
          decisionStatus = snsDecisionStatus proposalData
      in \<lparr>pm_id = sd_id proposalData, pm_action = sd_action proposalData, pm_ballots = sd_ballots proposalData,
          pm_latest_tally = sd_latest_tally proposalData,
          pm_current_deadline_timestamp_seconds = sd_current_deadline proposalData,
          pm_title = nullish_or (map_option spr_title proposalInfo) [], pm_url = map_option spr_url proposalInfo,
          pm_summary = nullish_or (map_option spr_summary proposalInfo) [],
          pm_actionData = Option.bind proposalInfo spr_action,
          pm_status = decisionStatus, pm_rewardStatus = rewardStatus,
          pm_statusString = tx_status texts decisionStatus,
          pm_statusDescription = tx_status_description texts decisionStatus,
          pm_rewardStatusString = tx_rewards_status texts rewardStatus,
          pm_rewardStatusDescription = tx_rewards_description texts rewardStatus,
          pm_type = map_option sf_name nsFunction, pm_typeDescription = Option.bind nsFunction sf_description,
          pm_minimumYesProportionOfTotal = minimumYesProportionOfTotal proposalData,
          pm_minimumYesProportionOfExercised = minimumYesProportionOfExercised proposalData\<rparr>)"

subsection \<open>sns-proposals.store.ts\<close>

record ProjectProposalData =
  sp_proposals :: "SnsProposalData list"
  sp_certified :: "bool option"
  sp_completed :: bool

type_synonym SnsProposalsStoreData = "string \<rightharpoonup> ProjectProposalData"

definition setProposals_sns ::
  "string \<Rightarrow> SnsProposalData list \<Rightarrow> bool option \<Rightarrow> bool \<Rightarrow> SnsProposalsStoreData \<Rightarrow> SnsProposalsStoreData" where
  "setProposals_sns rootCanisterId proposals certified completed currentState =
     currentState(rootCanisterId \<mapsto> \<lparr>sp_proposals = proposals, sp_certified = certified, sp_completed = completed\<rparr>)"

definition addProposals_sns ::
  "string \<Rightarrow> SnsProposalData list \<Rightarrow> bool option \<Rightarrow> bool \<Rightarrow> SnsProposalsStoreData \<Rightarrow> SnsProposalsStoreData" where
  "addProposals_sns rootCanisterId proposals certified completed currentState =
     (let newIds = set_insertion_order (map sd_id proposals)
      in currentState(rootCanisterId \<mapsto>
           \<lparr>sp_proposals = proposals @ nullish_or (map_option (\<lambda>p.
                filter (\<lambda>proposal. sd_id proposal \<notin> set newIds) (sp_proposals p)) (currentState rootCanisterId)) [],
            sp_certified = certified, sp_completed = completed\<rparr>))"

subsection \<open>Filters\<close>

record 'v Filter =
  fl_name :: string
  fl_value :: 'v
  fl_id :: string
  fl_checked :: bool

definition ALL_SNS_GENERIC_PROPOSAL_TYPES_ID :: string where
  "ALL_SNS_GENERIC_PROPOSAL_TYPES_ID = ''all_sns_generic_types''"

definition ALL_SNS_PROPOSAL_TYPES_NS_FUNCTION_ID :: int where
  "ALL_SNS_PROPOSAL_TYPES_NS_FUNCTION_ID = 0"

definition toExcludeTypeParameter :: "string Filter list \<Rightarrow> SnsNervousSystemFunction list \<Rightarrow> int list" where
  "toExcludeTypeParameter flt snsFunctions =
     (if flt = [] then []
      else let nativeNsFunctionIds = map sf_id (filter (\<lambda>f. isSnsNativeNervousSystemFunction (sf_id f)) snsFunctions);
               isNativeNsFunctionSelected = (\<lambda>nsFunctionId.
                 list_ex (\<lambda>e. fl_id e = int_to_string nsFunctionId \<and> fl_checked e) flt);
               excludedNativeNsFunctionIds = filter (\<lambda>i. \<not> isNativeNsFunctionSelected i) nativeNsFunctionIds;
               genericNsFunctionIds = map sf_id (filter (\<lambda>f. isSnsGenericNervousSystemFunction (sf_id f)) snsFunctions);
               isSnsGenericNsFunctionChecked = list_ex (\<lambda>e. fl_id e = ALL_SNS_GENERIC_PROPOSAL_TYPES_ID \<and> fl_checked e) flt;
               excludedGenericNsFunctionIds = (if isSnsGenericNsFunctionChecked then [] else genericNsFunctionIds)
           in filter (\<lambda>i. i \<noteq> ALL_SNS_PROPOSAL_TYPES_NS_FUNCTION_ID)
                (excludedNativeNsFunctionIds @ excludedGenericNsFunctionIds))"

text \<open>genericLabel is the translated label of the entry for all generic types.\<close>

definition getCheckedState :: "string Filter list \<Rightarrow> string \<Rightarrow> bool" where
  "getCheckedState typesFilterState i \<longleftrightarrow>
     map_option fl_checked (List.find (\<lambda>e. i = fl_id e) typesFilterState) \<noteq> Some False"

definition generateSnsProposalTypesFilterData ::
  "string \<Rightarrow> SnsNervousSystemFunction list \<Rightarrow> string Filter list \<Rightarrow> string Filter list" where
  "generateSnsProposalTypesFilterData genericLabel nsFunctions typesFilterState =
     (let nativeNsFunctionEntries = map (\<lambda>f. let i = int_to_string (sf_id f)
              in \<lparr>fl_name = sf_name f, fl_value = i, fl_id = i, fl_checked = getCheckedState typesFilterState i\<rparr>)
            (filter (\<lambda>f. sf_id f \<noteq> ALL_SNS_PROPOSAL_TYPES_NS_FUNCTION_ID)
              (filter (\<lambda>f. isSnsNativeNervousSystemFunction (sf_id f)) nsFunctions));
          genericNsFunctionEntries =
            (if list_ex (\<lambda>f. isSnsGenericNervousSystemFunction (sf_id f)) nsFunctions
             then [\<lparr>fl_name = genericLabel, fl_value = ALL_SNS_GENERIC_PROPOSAL_TYPES_ID,
                    fl_id = ALL_SNS_GENERIC_PROPOSAL_TYPES_ID,
                    fl_checked = getCheckedState typesFilterState ALL_SNS_GENERIC_PROPOSAL_TYPES_ID\<rparr>]
             else [])
      in nativeNsFunctionEntries @ genericNsFunctionEntries)"

record ProjectFiltersStoreData =
  pf_types :: "string Filter list"
  pf_decisionStatus :: "SnsProposalDecisionStatus Filter list"

type_synonym SnsFiltersStoreData = "string \<rightharpoonup> ProjectFiltersStoreData"

definition defaultProjectData :: ProjectFiltersStoreData where
  "defaultProjectData = \<lparr>pf_types = [], pf_decisionStatus = []\<rparr>"

definition setTypes :: "string \<Rightarrow> string Filter list \<Rightarrow> SnsFiltersStoreData \<Rightarrow> SnsFiltersStoreData" where
  "setTypes rootCanisterId types currentState =
     (let projectFilters = nullish_or (currentState rootCanisterId) defaultProjectData
      in currentState(rootCanisterId \<mapsto> projectFilters\<lparr>pf_types := types\<rparr>))"

definition setCheckTypes :: "string \<Rightarrow> string list \<Rightarrow> SnsFiltersStoreData \<Rightarrow> SnsFiltersStoreData" where
  "setCheckTypes rootCanisterId checkedTypes currentState =
     (let projectFilters = nullish_or (currentState rootCanisterId) defaultProjectData
      in currentState(rootCanisterId \<mapsto> projectFilters\<lparr>pf_types :=
           map (\<lambda>type. type\<lparr>fl_checked := fl_value type \<in> set checkedTypes\<rparr>) (pf_types projectFilters)\<rparr>))"

definition setDecisionStatus ::
  "string \<Rightarrow> SnsProposalDecisionStatus Filter list \<Rightarrow> SnsFiltersStoreData \<Rightarrow> SnsFiltersStoreData" where
  "setDecisionStatus rootCanisterId decisionStatus currentState =
     (let projectFilters = nullish_or (currentState rootCanisterId) defaultProjectData
      in currentState(rootCanisterId \<mapsto> projectFilters\<lparr>pf_decisionStatus := decisionStatus\<rparr>))"

definition setCheckDecisionStatus ::
  "string \<Rightarrow> SnsProposalDecisionStatus list \<Rightarrow> SnsFiltersStoreData \<Rightarrow> SnsFiltersStoreData" where
  "setCheckDecisionStatus rootCanisterId checkedDecisionStatus currentState =
     (let projectFilters = nullish_or (currentState rootCanisterId) defaultProjectData
      in currentState(rootCanisterId \<mapsto> projectFilters\<lparr>pf_decisionStatus :=
           map (\<lambda>status. status\<lparr>fl_checked := fl_value status \<in> set checkedDecisionStatus\<rparr>)
             (pf_decisionStatus projectFilters)\<rparr>))"

definition snsSelectedFiltersStore :: "SnsFiltersStoreData \<Rightarrow> SnsFiltersStoreData" where
  "snsSelectedFiltersStore snsFilters rootCanisterIdText =
     map_option (\<lambda>filters. \<lparr>pf_types = filter fl_checked (pf_types filters),
         pf_decisionStatus = filter fl_checked (pf_decisionStatus filters)\<rparr>)
       (snsFilters rootCanisterIdText)"

text \<open>services/sns-filters.services.ts; the values of the enum in its order, and their numbers as ids.\<close>

definition decision_statuses :: "(SnsProposalDecisionStatus \<times> nat) list" where
  "decision_statuses = [(DecisionUnspecified, 0), (DecisionOpen, 1), (DecisionRejected, 2), (DecisionAdopted, 3),
     (DecisionExecuted, 4), (DecisionFailed, 5)]"

definition loadDecisionStatusFilters ::
  "(SnsProposalDecisionStatus \<Rightarrow> string) \<Rightarrow> string \<Rightarrow> SnsFiltersStoreData \<Rightarrow> SnsFiltersStoreData" where
  "loadDecisionStatusFilters name rootCanisterId =
     setDecisionStatus rootCanisterId
       (map (\<lambda>(v, n). \<lparr>fl_name = name v, fl_value = v, fl_id = nat_to_string n, fl_checked = False\<rparr>)
         (filter (\<lambda>(v, n). v \<noteq> DecisionUnspecified) decision_statuses))"

definition loadTypesFilters ::
  "string \<Rightarrow> string \<Rightarrow> SnsNervousSystemFunction list \<Rightarrow> SnsFiltersStoreData \<Rightarrow> SnsFiltersStoreData" where
  "loadTypesFilters genericLabel rootCanisterId nsFunctions store =
     (let currentTypesFilterData = nullish_or (map_option pf_types (store rootCanisterId)) [];
          updatedTypesFilterData = generateSnsProposalTypesFilterData genericLabel nsFunctions currentTypesFilterData
      in setTypes rootCanisterId updatedTypesFilterData store)"

definition loadSnsFilters ::
  "(SnsProposalDecisionStatus \<Rightarrow> string) \<Rightarrow> string \<Rightarrow> string \<Rightarrow> SnsNervousSystemFunction list \<Rightarrow>
     SnsFiltersStoreData \<Rightarrow> SnsFiltersStoreData" where
  "loadSnsFilters name genericLabel rootCanisterId nsFunctions store =
     (let initial = (if store rootCanisterId = None
            then loadDecisionStatusFilters name rootCanisterId (setTypes rootCanisterId [] store) else store)
      in loadTypesFilters genericLabel rootCanisterId nsFunctions initial)"

subsection \<open>The proposals that are shown\<close>

definition statusMatch :: "ProjectFiltersStoreData \<Rightarrow> SnsProposalData \<Rightarrow> bool" where
  "statusMatch selected proposal \<longleftrightarrow>
     pf_decisionStatus selected = [] \<or> snsDecisionStatus proposal \<in> set (map fl_value (pf_decisionStatus selected))"

definition nervousFunctionsMatch :: "ProjectFiltersStoreData \<Rightarrow> SnsProposalData \<Rightarrow> bool" where
  "nervousFunctionsMatch selected proposal \<longleftrightarrow>
     pf_types selected = [] \<or>
     (if isSnsGenericNervousSystemTypeProposal (sd_action proposal) then ALL_SNS_GENERIC_PROPOSAL_TYPES_ID
      else int_to_string (sd_action proposal)) \<in> set (map fl_value (pf_types selected))"

definition snsFilteredProposalsStore ::
  "SnsProposalsStoreData \<Rightarrow> SnsFiltersStoreData \<Rightarrow> string \<rightharpoonup> SnsProposalData list \<times> bool option" where
  "snsFilteredProposalsStore proposalsStore selectedFilters rootCanisterIdText =
     (case (proposalsStore rootCanisterIdText, selectedFilters rootCanisterIdText) of
        (Some projectProposals, Some selected) \<Rightarrow>
          Some (filter (\<lambda>proposal. statusMatch selected proposal \<and> nervousFunctionsMatch selected proposal)
                  (sp_proposals projectProposals), sp_certified projectProposals)
      | _ \<Rightarrow> None)"

subsection \<open>Loading pages\<close>

definition DEFAULT_SNS_PROPOSALS_PAGE_SIZE :: nat where
  "DEFAULT_SNS_PROPOSALS_PAGE_SIZE = 20"

record proposals_request =
  pr_limit :: nat
  pr_beforeProposal :: "int option"
  pr_includeStatus :: "SnsProposalDecisionStatus list"
  pr_excludeType :: "int list"

definition proposals_request ::
  "SnsFiltersStoreData \<Rightarrow> string \<Rightarrow> SnsNervousSystemFunction list \<Rightarrow> int option \<Rightarrow> proposals_request" where
  "proposals_request snsFilters rootCanisterId snsFunctions beforeProposalId =
     (let filters = snsSelectedFiltersStore snsFilters rootCanisterId
      in \<lparr>pr_limit = DEFAULT_SNS_PROPOSALS_PAGE_SIZE, pr_beforeProposal = beforeProposalId,
          pr_includeStatus = nullish_or (map_option (\<lambda>f. map fl_value (pf_decisionStatus f)) filters) [],
          pr_excludeType = toExcludeTypeParameter (nullish_or (map_option pf_types filters) []) snsFunctions\<rparr>)"

text \<open>
  The state is the store and the number of error toasts; responses are the settlements of the requests in the
  order in which they arrive.
\<close>

definition loadSnsProposals ::
  "string \<Rightarrow> QueryAndUpdateStrategy \<Rightarrow> (bool \<times> (string + SnsProposalData list)) list \<Rightarrow>
     SnsProposalsStoreData \<times> nat \<Rightarrow> SnsProposalsStoreData \<times> nat" where
  "loadSnsProposals rootCanisterId strat responses st =
     snd (qau_settle
       (\<lambda>certified _ proposals (store, toasts). ((addProposals_sns rootCanisterId proposals (Some certified)
            (length proposals < DEFAULT_SNS_PROPOSALS_PAGE_SIZE) store, toasts), None))
       (Some (\<lambda>certified _ err (store, toasts). ((store, Suc toasts), None)))
       strat responses (False, st))"

text \<open>pages/SnsProposals.svelte: where the next page starts, and when there is none.\<close>

definition nextPage_before :: "string \<Rightarrow> SnsProposalsStoreData \<Rightarrow> int option" where
  "nextPage_before rootCanisterId store =
     lastProposalId_sns (nullish_or (map_option sp_proposals (store rootCanisterId)) [])"

definition disableInfiniteScroll :: "string \<Rightarrow> SnsProposalsStoreData \<Rightarrow> bool" where
  "disableInfiniteScroll rootCanisterId store = nullish_or (map_option sp_completed (store rootCanisterId)) False"

text \<open>The next page, when the canister answers: no error, both responses alike.\<close>

definition loadNextPage ::
  "(proposals_request \<Rightarrow> SnsProposalData list) \<Rightarrow> SnsFiltersStoreData \<Rightarrow> string \<Rightarrow> SnsNervousSystemFunction list \<Rightarrow>
     QueryAndUpdateStrategy \<Rightarrow> SnsProposalsStoreData \<times> nat \<Rightarrow> SnsProposalsStoreData \<times> nat" where
  "loadNextPage canister snsFilters rootCanisterId snsFunctions strat st =
     (let beforeProposalId = nextPage_before rootCanisterId (fst st);
          page = canister (proposals_request snsFilters rootCanisterId snsFunctions beforeProposalId)
      in loadSnsProposals rootCanisterId strat (map (\<lambda>certified. (certified, Inr page)) (qau_requests strat)) st)"

subsection \<open>Acceptance\<close>

text \<open>Of the votes that were cast, one side decides.\<close>

lemma majorityDecision_of_votes:
  "majorityDecision yes no (yes + no) r = (if yes * 10000 > (yes + no) * r then VoteYes else VoteNo)"
  by (auto simp: majorityDecision_def Let_def algebra_simps)

text \<open>
  A proposal counts as accepted exactly when it has a tally, the yes votes are a larger share of the votes
  cast than the proposal's threshold and at least its minimal share of all voting power; an undecided
  proposal is open, a decided one is executed, failed or adopted when it is accepted, else rejected.
\<close>

lemma snsDecisionStatus_correct:
  "isAccepted proposal \<longleftrightarrow> (\<exists>t. sd_latest_tally proposal = Some t \<and>
     (tl_yes t + tl_no t) * minimumYesProportionOfExercised proposal < tl_yes t * 10000 \<and>
     tl_total t * minimumYesProportionOfTotal proposal \<le> tl_yes t * 10000)"
  "getUniversalProposalStatus_sns proposal =
     (if sd_decided_timestamp_seconds proposal = 0 then UpOpen
      else if \<not> isAccepted proposal then UpRejected
      else if sd_executed_timestamp_seconds proposal > 0 then UpExecuted
      else if sd_failed_timestamp_seconds proposal > 0 then UpFailed else UpAdopted)"
  by (auto simp: isAccepted_def majorityDecision_of_votes Let_def snsDecisionStatus_def split: option.splits)

text \<open>The states of the reward follow each other: accepting votes ends at the deadline, for good.\<close>

lemma reward_deadline_monotone:
  assumes "now \<le> later" "snsProposalAcceptingVotes later proposal"
  shows "snsProposalAcceptingVotes now proposal"
  using assms by (auto simp: snsProposalAcceptingVotes_def snsRewardStatus_def Let_def split: if_splits)

subsection \<open>Filters\<close>

text \<open>What the user interface does with the filters, from an empty store.\<close>

inductive filters_session :: "SnsFiltersStoreData \<Rightarrow> bool" where
  empty_filters: "filters_session Map.empty"
| load_filters: "filters_session s \<Longrightarrow> filters_session (loadSnsFilters name label r fs s)"
| check_types: "filters_session s \<Longrightarrow> filters_session (setCheckTypes r checked s)"
| check_status: "filters_session s \<Longrightarrow> filters_session (setCheckDecisionStatus r statuses s)"

definition filters_ok :: "SnsFiltersStoreData \<Rightarrow> bool" where
  "filters_ok s \<longleftrightarrow> (\<forall>r d. s r = Some d \<longrightarrow> list_all (\<lambda>e. fl_value e = fl_id e) (pf_types d))"

lemma generated_ok: "list_all (\<lambda>e. fl_value e = fl_id e) (generateSnsProposalTypesFilterData label fs ts)"
  by (auto simp: generateSnsProposalTypesFilterData_def list_all_iff Let_def)

lemma filters_ok_update:
  "filters_ok s \<Longrightarrow> list_all (\<lambda>e. fl_value e = fl_id e) (pf_types d) \<Longrightarrow> filters_ok (s(r \<mapsto> d))"
  by (simp add: filters_ok_def)

lemma filters_ok_current:
  "filters_ok s \<Longrightarrow> list_all (\<lambda>e. fl_value e = fl_id e) (pf_types (nullish_or (s r) defaultProjectData))"
  by (cases "s r") (simp_all add: filters_ok_def defaultProjectData_def)

lemma filters_session_ok: "filters_session s \<Longrightarrow> filters_ok s"
proof (induction rule: filters_session.induct)
  case empty_filters
  then show ?case by (simp add: filters_ok_def)
next
  case (load_filters s name label r fs)
  have types: "filters_ok t \<Longrightarrow> list_all (\<lambda>e. fl_value e = fl_id e) ts \<Longrightarrow> filters_ok (setTypes r ts t)" for t ts
    by (simp add: setTypes_def filters_ok_update Let_def)
  have status: "filters_ok t \<Longrightarrow> filters_ok (loadDecisionStatusFilters name r t)" for t
    by (simp add: loadDecisionStatusFilters_def setDecisionStatus_def filters_ok_update filters_ok_current Let_def)
  from load_filters.IH show ?case
    by (simp add: loadSnsFilters_def loadTypesFilters_def types status generated_ok Let_def)
next
  case (check_types s r checked)
  have checked: "list_all (\<lambda>e. fl_value e = fl_id e) (map (\<lambda>type. type\<lparr>fl_checked := fl_value type \<in> set checked\<rparr>) ts)"
    if "list_all (\<lambda>e. fl_value e = fl_id e) (ts :: string Filter list)" for ts
    using that by (simp add: list_all_iff)
  show ?case
    unfolding setCheckTypes_def Let_def
    by (rule filters_ok_update [OF check_types.IH]) (simp add: checked [OF filters_ok_current [OF check_types.IH]])
next
  case (check_status s r statuses)
  show ?case
    unfolding setCheckDecisionStatus_def Let_def
    by (rule filters_ok_update [OF check_status.IH]) (simp add: filters_ok_current [OF check_status.IH])
qed

lemma int_to_string_not_generic [simp]: "int_to_string i \<noteq> ALL_SNS_GENERIC_PROPOSAL_TYPES_ID"
proof
  assume h: "int_to_string i = ALL_SNS_GENERIC_PROPOSAL_TYPES_ID"
  have "CHR ''a'' \<notin> set (nat_to_string n)" for n
  proof
    assume "CHR ''a'' \<in> set (nat_to_string n)"
    then obtain d where "d < 10" "CHR ''a'' = digit_char d"
      using set_nat_to_string by blast
    then have "of_char (CHR ''a'') = (48 + d :: nat)"
      by (metis of_char_digit_char)
    with \<open>d < 10\<close> show False by simp
  qed
  moreover have "CHR ''a'' \<in> set (int_to_string i)"
    by (simp add: h ALL_SNS_GENERIC_PROPOSAL_TYPES_ID_def)
  ultimately show False by (auto simp: int_to_string_def split: if_splits)
qed

text \<open>
  C37: whatever the user has checked in the filters of a project and whichever functions were loaded, the list
  on the screen and the request to the canister agree: a proposal of a function of the project passes the
  filter by types exactly when the request does not exclude its type.  The function with id 0 stands for all
  topics and is never excluded.
\<close>

theorem type_filter_agrees_with_request:
  assumes "filters_session store" "snsSelectedFiltersStore store r = Some selected"
    and "f \<in> set fs" "sf_id f \<noteq> 0" "sd_action proposal = sf_id f"
  shows "nervousFunctionsMatch selected proposal \<longleftrightarrow>
    sd_action proposal \<notin> set (pr_excludeType (proposals_request store r fs before))"
proof -
  have sel: "list_all (\<lambda>e. fl_value e = fl_id e \<and> fl_checked e) (pf_types selected)"
    using filters_session_ok [OF assms(1)] assms(2)
    by (auto simp: filters_ok_def snsSelectedFiltersStore_def list_all_iff)
  have req: "pr_excludeType (proposals_request store r fs before) = toExcludeTypeParameter (pf_types selected) fs"
    by (simp add: proposals_request_def assms(2) Let_def)
  have "(v \<in> fl_value ` set (pf_types selected)) \<longleftrightarrow> list_ex (\<lambda>e. fl_id e = v \<and> fl_checked e) (pf_types selected)" for v
    using sel by (force simp: list_all_iff list_ex_iff)
  then show ?thesis
    unfolding req using assms(3-5)
    by (auto simp: nervousFunctionsMatch_def toExcludeTypeParameter_def Let_def isSnsGenericNervousSystemTypeProposal_def
        isSnsGenericNervousSystemFunction_def isSnsNativeNervousSystemFunction_def ALL_SNS_PROPOSAL_TYPES_NS_FUNCTION_ID_def)
qed

definition example_functions :: "SnsNervousSystemFunction list" where
  "example_functions = map (\<lambda>i. \<lparr>sf_id = i, sf_name = [], sf_description = None\<rparr>) [0, 1, 1000]"

theorem type_filter_agrees_with_request_witness:
  "let store = setCheckTypes ''r'' [''1''] (loadSnsFilters (\<lambda>_. []) [] ''r'' example_functions Map.empty);
       proposal = (plain_sns_proposal 7)\<lparr>sd_action := 1000\<rparr>
   in nervousFunctionsMatch (the (snsSelectedFiltersStore store ''r'')) proposal \<longleftrightarrow>
      1000 \<notin> set (pr_excludeType (proposals_request store ''r'' example_functions None))"
proof -
  let ?store = "setCheckTypes ''r'' [''1''] (loadSnsFilters (\<lambda>_. []) [] ''r'' example_functions Map.empty)"
  have "filters_session ?store" by (intro filters_session.intros)
  moreover have "snsSelectedFiltersStore ?store ''r'' = Some (the (snsSelectedFiltersStore ?store ''r''))"
    by (simp add: snsSelectedFiltersStore_def setCheckTypes_def Let_def)
  moreover have "\<lparr>sf_id = 1000, sf_name = [], sf_description = None\<rparr> \<in> set example_functions"
    by (simp add: example_functions_def)
  ultimately show ?thesis
    using type_filter_agrees_with_request [of ?store "''r''" _ "\<lparr>sf_id = 1000, sf_name = [], sf_description = None\<rparr>"
        example_functions "(plain_sns_proposal 7)\<lparr>sd_action := 1000\<rparr>" None]
    by (simp add: Let_def)
qed

subsection \<open>Order and pages\<close>

interpretation by_sns_id: weak_comparator compare_sns_ids
  by unfold_locales (auto simp: compare_sns_ids_def split: if_splits)

text \<open>The last proposal of the sorted list has the smallest id.\<close>

lemma lastProposalId_sns_least:
  assumes "list_all (\<lambda>p. sd_id p \<noteq> None) ps" "q \<in> set ps" "sd_id q = Some j"
  shows "\<exists>m. lastProposalId_sns ps = Some m \<and> m \<le> j"
proof -
  let ?s = "sortSnsProposalsById ps"
  have ne: "?s \<noteq> []" and len: "length ?s = length ps" and set: "set ?s = set ps"
    using assms(2) by (auto simp: sortSnsProposalsById_def)
  have last: "lastProposalId_sns ps = sd_id (last ?s)"
    using assms(2) ne len by (auto simp: lastProposalId_sns_def Let_def last_conv_nth)
  have "last ?s \<in> set ps" using ne set by (metis last_in_set)
  with assms(1) obtain m where m: "sd_id (last ?s) = Some m" by (auto simp: list_all_iff)
  have "sorted_wrt (\<lambda>x y. \<not> compare_sns_ids y x < 0) (butlast ?s @ [last ?s])"
    using by_sns_id.sorted_js_sort [of ps] ne by (simp add: sortSnsProposalsById_def cmp_sorted_def)
  then have "\<forall>x\<in>set (butlast ?s). \<not> compare_sns_ids (last ?s) x < 0"
    by (simp only: sorted_wrt_append) simp
  moreover have "q \<in> set (butlast ?s @ [last ?s])"
    using assms(2) ne set by simp
  ultimately have "\<not> compare_sns_ids (last ?s) q < 0 \<or> q = last ?s" by auto
  then have "m \<le> j" using m assms(3) by (auto simp: compare_sns_ids_def split: if_splits)
  with last m show ?thesis by auto
qed

text \<open>What a load keeps: Q of every proposal, and an id that is there.\<close>

definition store_holds :: "string \<Rightarrow> (SnsProposalData \<Rightarrow> bool) \<Rightarrow> int \<Rightarrow> SnsProposalsStoreData \<Rightarrow> bool" where
  "store_holds r Q j store \<longleftrightarrow>
     (\<exists>d. store r = Some d \<and> list_all Q (sp_proposals d) \<and> Some j \<in> sd_id ` set (sp_proposals d))"

lemma addProposals_holds:
  assumes "store_holds r Q j store" "list_all Q ps"
  shows "store_holds r Q j (addProposals_sns r ps c b store)"
proof -
  obtain d q where d: "store r = Some d" "list_all Q (sp_proposals d)" "q \<in> set (sp_proposals d)" "sd_id q = Some j"
    using assms(1) by (auto simp: store_holds_def)
  let ?new = "ps @ filter (\<lambda>p. sd_id p \<notin> sd_id ` set ps) (sp_proposals d)"
  have "list_all Q ?new" using assms(2) d(2) by (auto simp: list_all_iff)
  moreover have "sd_id q \<in> sd_id ` set ?new"
    using d(3) by (cases "sd_id q \<in> sd_id ` set ps") auto
  ultimately show ?thesis
    by (simp add: store_holds_def addProposals_sns_def d(1,4))
qed

lemma loadSnsProposals_holds:
  assumes "\<And>c ps. (c, Inr ps) \<in> set responses \<Longrightarrow> list_all Q ps" "store_holds r Q j (fst st)"
  shows "store_holds r Q j (fst (loadSnsProposals r strat responses st))"
  unfolding loadSnsProposals_def
  by (rule qau_settle_invariant [where P = "\<lambda>st. store_holds r Q j (fst st)"])
    (use assms in \<open>auto intro: addProposals_holds split: prod.splits\<close>)

text \<open>
  the next page of proposals starts below the oldest proposal in the store, whatever filter that proposal
  was loaded with.  So a proposal that is newer than one in the store and is not there itself is not loaded by
  any number of next pages, although it may pass the filters now in force: after a filter was set and removed
  the list has gaps.
\<close>

lemma next_pages_skip_gap:
  assumes "store_holds r (\<lambda>p. sd_id p \<noteq> None \<and> sd_id p \<noteq> Some i) j (fst st)" "j < i"
    and "\<And>req p b. p \<in> set (canister req) \<Longrightarrow> pr_beforeProposal req = Some b \<Longrightarrow> \<exists>k. sd_id p = Some k \<and> k < b"
  shows "\<exists>d. fst (((loadNextPage canister snsFilters r fs strat) ^^ n) st) r = Some d \<and>
    Some i \<notin> sd_id ` set (sp_proposals d)"
proof -
  let ?Q = "\<lambda>p. sd_id p \<noteq> None \<and> sd_id p \<noteq> Some i"
  have step: "store_holds r ?Q j (fst (loadNextPage canister snsFilters r fs strat u))" if u: "store_holds r ?Q j (fst u)" for u
  proof -
    obtain d q where d: "fst u r = Some d" "list_all ?Q (sp_proposals d)" "q \<in> set (sp_proposals d)" "sd_id q = Some j"
      using u by (auto simp: store_holds_def)
    moreover have "list_all (\<lambda>p. sd_id p \<noteq> None) (sp_proposals d)" using d(2) by (auto simp: list_all_iff)
    ultimately obtain m where m: "lastProposalId_sns (sp_proposals d) = Some m" "m \<le> j"
      using lastProposalId_sns_least by blast
    then have "nextPage_before r (fst u) = Some m" by (simp add: nextPage_before_def d(1))
    moreover have "list_all ?Q (canister (proposals_request snsFilters r fs (Some m)))"
      using assms(2,3) m(2) by (fastforce simp: list_all_iff proposals_request_def Let_def)
    ultimately show ?thesis
      unfolding loadNextPage_def Let_def
      by (intro loadSnsProposals_holds [OF _ u]) auto
  qed
  have "store_holds r ?Q j (fst (((loadNextPage canister snsFilters r fs strat) ^^ n) st))"
  proof (induction n)
    case 0
    show ?case using assms(1) by simp
  next
    case (Suc n)
    show ?case using step [OF Suc] by simp
  qed
  then show ?thesis by (fastforce simp: store_holds_def list_all_iff)
qed

text \<open>Proposals 1 and 3 were loaded; proposal 2 fits no filter but the empty one, which is set now.\<close>

lemma sd_id_plain [simp]: "sd_id (plain_sns_proposal i) = Some i"
  by (simp add: plain_sns_proposal_def)

definition example_canister :: "proposals_request \<Rightarrow> SnsProposalData list" where
  "example_canister req = filter (\<lambda>p. case (sd_id p, pr_beforeProposal req) of (Some k, Some b) \<Rightarrow> k < b | _ \<Rightarrow> True)
     (map plain_sns_proposal [3, 2, 1])"

theorem next_pages_skip_gap_witness:
  "\<exists>d. fst (((loadNextPage example_canister Map.empty ''r'' [] QueryAndUpdate) ^^ 5)
      (addProposals_sns ''r'' (map plain_sns_proposal [3, 1]) (Some True) False Map.empty, 0)) ''r'' = Some d \<and>
    Some 2 \<notin> sd_id ` set (sp_proposals d)"
proof (rule next_pages_skip_gap [where j = 1])
  show "store_holds ''r'' (\<lambda>p. sd_id p \<noteq> None \<and> sd_id p \<noteq> Some 2) 1
      (fst (addProposals_sns ''r'' (map plain_sns_proposal [3, 1]) (Some True) False Map.empty, 0))"
    by (simp add: store_holds_def addProposals_sns_def)
qed (auto simp: example_canister_def split: if_splits)

end
