(* ===== verification/ActionableProposals.thy ===== *)
theory ActionableProposals
  imports SnsProposals NeuronServices
begin

text \<open>
  The proposals a user can vote on: services/actionable-proposals.services.ts,
  services/actionable-sns-proposals.services.ts, their stores and derived/actionable-proposals.derived.ts.
  Proposals are fetched page by page; the locale paged_list states what the pages need of the order of the
  proposals and proves once that they amount to the newest proposals, for the NNS and for the SNS projects.
\<close>

subsection \<open>Pages\<close>

definition MAX_ACTIONABLE_REQUEST_COUNT :: nat where
  "MAX_ACTIONABLE_REQUEST_COUNT = 5"

definition DEFAULT_LIST_PAGINATION_LIMIT :: nat where
  "DEFAULT_LIST_PAGINATION_LIMIT = 100"

text \<open>The loop over the pages: at most n more of them; a rejected request ends it.\<close>

fun fetch_pages ::
  "('p list \<Rightarrow> 'p list) \<Rightarrow> ('p list \<Rightarrow> int option) \<Rightarrow> (int option \<Rightarrow> 'e + 'p list) \<Rightarrow> nat \<Rightarrow> nat \<Rightarrow> 'p list \<Rightarrow>
     'e + 'p list" where
  "fetch_pages srt lastId fetch limit 0 sortedProposals = Inr sortedProposals"
| "fetch_pages srt lastId fetch limit (Suc n) sortedProposals =
     (case fetch (lastId sortedProposals) of
        Inl e \<Rightarrow> Inl e
      | Inr page \<Rightarrow>
          let sorted' = srt (sortedProposals @ page)
          in if length page \<noteq> limit then Inr sorted' else fetch_pages srt lastId fetch limit n sorted')"

text \<open>A canister with the proposals ps, newest first, answers the first ones below the id asked for.\<close>

definition page_of :: "('p \<Rightarrow> int) \<Rightarrow> 'p list \<Rightarrow> nat \<Rightarrow> int option \<Rightarrow> 'p list" where
  "page_of key ps limit before = take limit (filter (\<lambda>p. case before of None \<Rightarrow> True | Some b \<Rightarrow> key p < b) ps)"

definition newest_by :: "('p \<Rightarrow> int) \<Rightarrow> 'p list \<Rightarrow> bool" where
  "newest_by key ps \<longleftrightarrow> sorted_wrt (\<lambda>p q. key q < key p) ps"

lemma newest_by_take: "newest_by key ps \<Longrightarrow> newest_by key (take n ps)"
  by (simp add: newest_by_def sorted_wrt_take)

lemma filter_below_nth:
  assumes "newest_by key ps" "0 < j" "j \<le> length ps"
  shows "filter (\<lambda>p. key p < key (ps ! (j - 1))) ps = drop j ps"
proof -
  have older: "key (ps ! i) < key (ps ! (j - 1)) \<longleftrightarrow> j \<le> i" if i: "i < length ps" for i
  proof (cases "i < j")
    case True
    then consider "i = j - 1" | "i < j - 1" by linarith
    then show ?thesis
    proof cases
      case 2
      have "j - 1 < length ps" using assms(2,3) by linarith
      then have "key (ps ! (j - 1)) < key (ps ! i)"
        using sorted_wrt_nth_less [OF assms(1) [unfolded newest_by_def] 2] by simp
      with True show ?thesis by simp
    qed (use True in simp)
  next
    case False
    then have "j - 1 < i" using assms(2) by auto
    then have "key (ps ! i) < key (ps ! (j - 1))"
      using sorted_wrt_nth_less [OF assms(1) [unfolded newest_by_def] _ i] by simp
    with False show ?thesis by simp
  qed
  have "filter (\<lambda>p. key p < key (ps ! (j - 1))) (take j ps @ drop j ps) = drop j ps"
    unfolding filter_append
  proof -
    have "\<forall>p\<in>set (take j ps). \<not> key p < key (ps ! (j - 1))"
      using older assms(3) by (auto simp: in_set_conv_nth)
    moreover have "\<forall>p\<in>set (drop j ps). key p < key (ps ! (j - 1))"
    proof
      fix p assume "p \<in> set (drop j ps)"
      then obtain i where "i < length ps - j" "p = ps ! (j + i)" by (auto simp: in_set_conv_nth)
      then show "key p < key (ps ! (j - 1))" using older [of "j + i"] by simp
    qed
    ultimately show "filter (\<lambda>p. key p < key (ps ! (j - 1))) (take j ps) @
        filter (\<lambda>p. key p < key (ps ! (j - 1))) (drop j ps) = drop j ps"
      by (simp add: filter_empty_conv)
  qed
  then show ?thesis by simp
qed

locale paged_list =
  fixes key :: "'p \<Rightarrow> int" and has_id :: "'p \<Rightarrow> bool" and srt :: "'p list \<Rightarrow> 'p list" and lastId :: "'p list \<Rightarrow> int option"
  assumes sort_sorted: "newest_by key ps \<Longrightarrow> srt ps = ps"
    and last_empty: "lastId [] = None"
    and last_sorted: "newest_by key ps \<Longrightarrow> list_all has_id ps \<Longrightarrow> ps \<noteq> [] \<Longrightarrow> lastId ps = Some (key (last ps))"
begin

lemma next_page:
  assumes "newest_by key ps" "list_all has_id ps"
  shows "page_of key ps limit (lastId (take j ps)) = take limit (drop j ps)"
proof (cases "take j ps = []")
  case True
  then show ?thesis by (auto simp: page_of_def last_empty)
next
  case False
  define m where "m = min j (length ps)"
  have m: "0 < m" "m \<le> length ps" "take j ps = take m ps" "drop j ps = drop m ps"
    using False by (auto simp: m_def min_def)
  have "list_all has_id (take m ps)" using assms(2) by (auto simp: list_all_iff dest: in_set_takeD)
  then have "lastId (take m ps) = Some (key (last (take m ps)))"
    using last_sorted [OF newest_by_take [OF assms(1), of m]] m(3) False by simp
  also have "last (take m ps) = ps ! (m - 1)"
    using m(1,2) by (subst last_conv_nth) auto
  finally have "lastId (take j ps) = Some (key (ps ! (m - 1)))" by (simp only: m(3))
  then show ?thesis
    using filter_below_nth [OF assms(1) m(1,2)] m(4) by (simp add: page_of_def)
qed

lemma fetch_pages_newest:
  assumes "newest_by key ps" "list_all has_id ps" "\<And>b. fetch b = Inr (page_of key ps limit b)"
  shows "fetch_pages srt lastId fetch limit n (take (m * limit) ps) = Inr (take ((m + n) * limit) ps)"
proof (induction n arbitrary: m)
  case 0
  then show ?case by simp
next
  case (Suc n)
  define page where "page = take limit (drop (m * limit) ps)"
  have fetch: "fetch (lastId (take (m * limit) ps)) = Inr page"
    by (simp add: assms(3) next_page [OF assms(1,2)] page_def)
  have all: "take (m * limit) ps @ page = take (Suc m * limit) ps"
    using take_add [of "m * limit" limit ps] by (simp add: add.commute page_def)
  have sorted: "srt (take (Suc m * limit) ps) = take (Suc m * limit) ps"
    by (rule sort_sorted) (rule newest_by_take [OF assms(1)])
  have run: "fetch_pages srt lastId fetch limit (Suc n) (take (m * limit) ps) =
      (if length page \<noteq> limit then Inr (take (Suc m * limit) ps)
       else fetch_pages srt lastId fetch limit n (take (Suc m * limit) ps))"
    by (simp only: fetch_pages.simps fetch sum.case all sorted Let_def)
  show ?case
  proof (cases "length page = limit")
    case True
    then show ?thesis unfolding run using Suc.IH [of "Suc m"] by simp
  next
    case False
    then have "length ps \<le> Suc m * limit" by (auto simp: page_def)
    moreover have "Suc m * limit \<le> (m + Suc n) * limit" by (rule mult_le_mono1) simp
    ultimately have "take (Suc m * limit) ps = ps" "take ((m + Suc n) * limit) ps = ps" by (simp_all only: take_all le_trans)
    then show ?thesis unfolding run using False by simp
  qed
qed

end

lemma sort_sns_newest: "newest_by (\<lambda>p. nullish_or (sd_id p) 0) ps \<Longrightarrow> sortSnsProposalsById ps = ps"
  unfolding sortSnsProposalsById_def
  by (rule by_sns_id.js_sort_sorted_id)
    (auto simp: cmp_sorted_def newest_by_def compare_sns_ids_def elim!: sorted_wrt_mono_rel [rotated])

interpretation sns_pages: paged_list "\<lambda>p. nullish_or (sd_id p) 0" "\<lambda>p. sd_id p \<noteq> None" sortSnsProposalsById lastProposalId_sns
proof (unfold_locales, goal_cases)
  case (1 ps)
  then show ?case by (rule sort_sns_newest)
next
  case 2
  show ?case by (simp add: lastProposalId_sns_def)
next
  case (3 ps)
  have "last ps \<in> set ps" using 3(3) by simp
  with 3(2) obtain i where "sd_id (last ps) = Some i" by (auto simp: list_all_iff)
  with 3(1,3) show ?case by (simp add: lastProposalId_sns_def sort_sns_newest last_conv_nth)
qed

lemma sort_nns_newest: "newest_by (\<lambda>p. nullish_or (pi_id p) 0) ps \<Longrightarrow> sortProposalsByIdDescendingOrder ps = ps"
  unfolding sortProposalsByIdDescendingOrder_def
  by (rule by_proposal_id.js_sort_sorted_id)
    (auto simp: cmp_sorted_def newest_by_def compare_proposal_ids_def Let_def elim!: sorted_wrt_mono_rel [rotated])

interpretation nns_pages: paged_list "\<lambda>p. nullish_or (pi_id p) 0" "\<lambda>p. pi_id p \<noteq> None"
    sortProposalsByIdDescendingOrder lastProposalId
proof (unfold_locales, goal_cases)
  case (1 ps)
  then show ?case by (rule sort_nns_newest)
next
  case 2
  show ?case by (simp add: lastProposalId_def)
next
  case (3 ps)
  have "last ps \<in> set ps" using 3(3) by simp
  with 3(2) obtain i where "pi_id (last ps) = Some i" by (auto simp: list_all_iff)
  with 3(3) show ?case by (simp add: lastProposalId_def)
qed

subsection \<open>Stores\<close>

text \<open>An object with one entry per project, in the order of insertion.\<close>

type_synonym ActionableSnsProposalsStoreData = "(string \<times> SnsProposalData list) list"

definition setActionable_sns :: "string \<Rightarrow> SnsProposalData list \<Rightarrow> ActionableSnsProposalsStoreData \<Rightarrow> ActionableSnsProposalsStoreData" where
  "setActionable_sns rootCanisterId proposals currentState = object_set currentState rootCanisterId proposals"

definition resetForSns :: "string \<Rightarrow> ActionableSnsProposalsStoreData \<Rightarrow> ActionableSnsProposalsStoreData" where
  "resetForSns rootCanisterId currentState = removeKeys currentState [rootCanisterId]"

definition addFailed :: "string \<Rightarrow> string list \<Rightarrow> string list" where
  "addFailed rootCanisterId currentState = set_insertion_order (currentState @ [rootCanisterId])"

definition removeFailed :: "string \<Rightarrow> string list \<Rightarrow> string list" where
  "removeFailed rootCanisterId currentState = filter (\<lambda>i. i \<noteq> rootCanisterId) currentState"

subsection \<open>SNS proposals\<close>

text \<open>The params of a request for proposals.\<close>

record sns_query =
  aq_limit :: nat
  aq_includeRewardStatus :: "SnsProposalRewardStatus list"
  aq_beforeProposal :: "int option"

text \<open>
  ae_query answers a request for the proposals of a project; ae_loadNeurons is what loadSnsNeurons makes of the
  store of SNS neurons, or its rejection.
\<close>

record act_env =
  ae_identity :: "string option"
  ae_query :: "string \<Rightarrow> sns_query \<Rightarrow> string + SnsProposalData list"
  ae_loadNeurons :: "string \<Rightarrow> SnsNeuronsStore \<Rightarrow> string + SnsNeuronsStore"

record act_state =
  as_failed :: "string list"
  as_actionable :: ActionableSnsProposalsStoreData
  as_neurons :: SnsNeuronsStore

definition querySnsProposals :: "act_env \<Rightarrow> string \<Rightarrow> string + SnsProposalData list" where
  "querySnsProposals env rootCanisterId =
     fetch_pages sortSnsProposalsById lastProposalId_sns
       (\<lambda>beforeProposal. ae_query env rootCanisterId
          \<lparr>aq_limit = DEFAULT_SNS_PROPOSALS_PAGE_SIZE, aq_includeRewardStatus = [RewardAcceptVotes],
           aq_beforeProposal = beforeProposal\<rparr>)
       DEFAULT_SNS_PROPOSALS_PAGE_SIZE MAX_ACTIONABLE_REQUEST_COUNT []"

definition storeNeurons :: "string \<Rightarrow> SnsNeuronsStore \<Rightarrow> SnsNeuron list option" where
  "storeNeurons rootCanisterId store = map_option pn_neurons (store rootCanisterId)"

definition queryNeurons_sns :: "act_env \<Rightarrow> string \<Rightarrow> (act_state, string, SnsNeuron list option) effect" where
  "queryNeurons_sns env rootCanisterId s =
     (if storeNeurons rootCanisterId (as_neurons s) \<noteq> None then (Inr (storeNeurons rootCanisterId (as_neurons s)), s)
      else (case ae_loadNeurons env rootCanisterId (as_neurons s) of
              Inl e \<Rightarrow> (Inl e, s)
            | Inr store \<Rightarrow> (Inr (storeNeurons rootCanisterId store), s\<lparr>as_neurons := store\<rparr>)))"

text \<open>
  Without neurons the filter throws at the first proposal.  Without a user the promise stays pending.
  A proposal that the canister lists has an id.
\<close>

definition votableProposals :: "SnsNeuron list option \<Rightarrow> SnsProposalData list \<Rightarrow> string \<Rightarrow> SnsProposalData list option" where
  "votableProposals neurons allProposals user =
     (if allProposals = [] then Some []
      else map_option (\<lambda>ns. filter (\<lambda>proposal. length (votableSnsNeurons ns proposal (Some user)) > 0) allProposals) neurons)"

definition failActionable :: "string \<Rightarrow> act_state \<Rightarrow> act_state" where
  "failActionable rootCanisterId s = s\<lparr>as_failed := addFailed rootCanisterId (as_failed s)\<rparr>"

definition loadActionableProposalsForSns :: "act_env \<Rightarrow> string \<Rightarrow> act_state \<Rightarrow> act_state" where
  "loadActionableProposalsForSns env rootCanisterId s =
     (case ae_identity env of
        None \<Rightarrow> s
      | Some user \<Rightarrow>
          (case querySnsProposals env rootCanisterId of
             Inl e \<Rightarrow> failActionable rootCanisterId s
           | Inr allProposals \<Rightarrow>
               let s1 = s\<lparr>as_failed := removeFailed rootCanisterId (as_failed s)\<rparr>;
                   (neurons, s2) = queryNeurons_sns env rootCanisterId s1
               in (case Option.bind (case neurons of Inl e \<Rightarrow> None | Inr ns \<Rightarrow> Some ns)
                       (\<lambda>ns. votableProposals ns allProposals user) of
                     None \<Rightarrow> failActionable rootCanisterId s2
                   | Some votable \<Rightarrow>
                       s2\<lparr>as_actionable := setActionable_sns rootCanisterId votable (as_actionable s2)\<rparr>)))"

text \<open>All projects at once in the code; each one touches the entries of its own project only.\<close>

definition loadActionableSnsProposals :: "act_env \<Rightarrow> string list \<Rightarrow> act_state \<Rightarrow> act_state" where
  "loadActionableSnsProposals env rootCanisterIds s =
     foldl (\<lambda>s rootCanisterId. loadActionableProposalsForSns env rootCanisterId s) s rootCanisterIds"

subsection \<open>NNS proposals\<close>

datatype ProposalRewardStatus =
  NnsRewardUnknown | NnsAcceptVotes | NnsReadyToSettle | NnsSettled | NnsIneligible

record nns_query =
  nq_includeTopics :: "Topic list option"
  nq_includeRewardStatus :: "ProposalRewardStatus list option"
  nq_includeStatus :: "ProposalStatus list option"

text \<open>query answers a page of the proposals of a request; votable is votableNeurons of the library.\<close>

definition queryProposals_nns ::
  "(nns_query \<Rightarrow> int option \<Rightarrow> nns_error + ProposalInfo list) \<Rightarrow> nns_query \<Rightarrow> ('w, ProposalInfo list) nns" where
  "queryProposals_nns query req =
     liftE (fetch_pages sortProposalsByIdDescendingOrder lastProposalId (query req)
       DEFAULT_LIST_PAGINATION_LIMIT MAX_ACTIONABLE_REQUEST_COUNT [])"

definition queryNeurons_nns :: "'w nns_env \<Rightarrow> ('w, NeuronInfo list) nns" where
  "queryNeurons_nns env =
     bindE (getE (\<lambda>s. ns_neurons (nn_neurons s))) (\<lambda>neurons.
       thenE (if neurons = None then listNeurons env (Some QueryOnly) else returnE ())
         (getE (\<lambda>s. definedNeuronsStore (nn_neurons s))))"

text \<open>The result is what the store of actionable proposals is set to.\<close>

definition loadActionableProposals ::
  "'w nns_env \<Rightarrow> (nns_query \<Rightarrow> int option \<Rightarrow> nns_error + ProposalInfo list) \<Rightarrow>
     (NeuronInfo list \<Rightarrow> ProposalInfo \<Rightarrow> NeuronInfo list) \<Rightarrow> ('w, ProposalInfo list) nns" where
  "loadActionableProposals env query votable =
     bindE (queryNeurons_nns env) (\<lambda>neurons.
       if neurons = [] then returnE []
       else bindE (queryProposals_nns query
              \<lparr>nq_includeTopics = None, nq_includeRewardStatus = Some [NnsAcceptVotes], nq_includeStatus = None\<rparr>)
            (\<lambda>acceptVotesProposals.
          bindE (queryProposals_nns query
              \<lparr>nq_includeTopics = Some [NeuronManagement], nq_includeRewardStatus = Some [NnsIneligible],
               nq_includeStatus = Some [StatusOpen]\<rparr>) (\<lambda>neuronManagementProposals.
            let votableProposals = filter (\<lambda>proposal. length (votable neurons proposal) > 0)
                  (acceptVotesProposals @ neuronManagementProposals)
            in returnE (sortProposalsByIdDescendingOrder votableProposals))))"

subsection \<open>Derived stores\<close>

definition actionableProposalCountStore ::
  "string \<Rightarrow> ProposalInfo list option \<Rightarrow> ActionableSnsProposalsStoreData \<Rightarrow> (string \<times> nat) list" where
  "actionableProposalCountStore own nnsProposals actionableSnsProposals =
     foldl (\<lambda>acc (k, v). object_set acc k v)
       (case nnsProposals of None \<Rightarrow> [] | Some ps \<Rightarrow> [(own, length ps)])
       (mapEntries actionableSnsProposals (\<lambda>(canisterId, proposals). Some (canisterId, length proposals)))"

definition actionableProposalTotalCountStore :: "(string \<times> nat) list \<Rightarrow> nat" where
  "actionableProposalTotalCountStore counts = foldl (\<lambda>acc count. acc + count) 0 (map snd counts)"

text \<open>A universe is its canister id here.\<close>

definition actionableSnsProposalsByUniverseStore ::
  "string list \<Rightarrow> ActionableSnsProposalsStoreData \<Rightarrow> (string \<times> SnsProposalData list) list" where
  "actionableSnsProposalsByUniverseStore universes actionableSnsProposals =
     List.map_filter (\<lambda>canisterId. map_option (Pair canisterId) (map_of actionableSnsProposals canisterId)) universes"

definition actionableProposalsLoadedStore ::
  "ProposalInfo list option \<Rightarrow> ActionableSnsProposalsStoreData \<Rightarrow> string list \<Rightarrow> string list \<Rightarrow> bool" where
  "actionableProposalsLoadedStore nnsProposals snsProposals committedSnsProjects failedSnses \<longleftrightarrow>
     nnsProposals \<noteq> None \<and> length committedSnsProjects > 0 \<and>
     length committedSnsProjects = length snsProposals + length failedSnses"

text \<open>A proposal without an id makes it throw: None.\<close>

definition actionableProposalsNavigationIdsStore ::
  "string \<Rightarrow> string list \<Rightarrow> ProposalInfo list option \<Rightarrow> ActionableSnsProposalsStoreData \<Rightarrow> (string \<times> int option) list option" where
  "actionableProposalsNavigationIdsStore own universes nnsProposals actionableSnsProposals =
     (if list_all (\<lambda>canisterId. canisterId = own \<or> list_all (\<lambda>p. sd_id p \<noteq> None)
           (nullish_or (map_of actionableSnsProposals canisterId) [])) universes
      then Some (concat (map (\<lambda>canisterId.
             if canisterId = own then map (\<lambda>p. (own, pi_id p)) (nullish_or nnsProposals [])
             else map (\<lambda>p. (canisterId, sd_id p)) (nullish_or (map_of actionableSnsProposals canisterId) [])) universes))
      else None)"

text \<open>derived/sns/sns-filtered-actionable-proposals.derived.ts, on the proposals of one project.\<close>

definition isActionable :: "ActionableSnsProposalsStoreData \<Rightarrow> string \<Rightarrow> SnsProposalData \<Rightarrow> bool option" where
  "isActionable actionableProposalsStore rootCanisterIdText proposal =
     map_option (list_ex (\<lambda>actionable. sd_id actionable = sd_id proposal)) (map_of actionableProposalsStore rootCanisterIdText)"

subsection \<open>What is loaded\<close>

text \<open>
  The governance canister of a project with the proposals ps, newest first, answers a request with the newest
  ones that have one of the reward statuses asked for and are older than the given one, at most as many as the
  limit; no status asked for means all of them.
\<close>

definition answers_sns :: "act_env \<Rightarrow> string \<Rightarrow> (SnsProposalData \<Rightarrow> SnsProposalRewardStatus) \<Rightarrow> SnsProposalData list \<Rightarrow> bool" where
  "answers_sns env r status ps \<longleftrightarrow> newest_by (\<lambda>p. nullish_or (sd_id p) 0) ps \<and> list_all (\<lambda>p. sd_id p \<noteq> None) ps \<and>
     (\<forall>req. ae_query env r req = Inr (page_of (\<lambda>p. nullish_or (sd_id p) 0)
        (filter (\<lambda>p. aq_includeRewardStatus req = [] \<or> status p \<in> set (aq_includeRewardStatus req)) ps)
        (aq_limit req) (aq_beforeProposal req)))"

lemma newest_by_filter: "newest_by key ps \<Longrightarrow> newest_by key (filter P ps)"
  by (simp add: newest_by_def sorted_wrt_filter)

lemma querySnsProposals_newest:
  assumes "answers_sns env r status ps"
  shows "querySnsProposals env r = Inr (take 100 (filter (\<lambda>p. status p = RewardAcceptVotes) ps))"
proof -
  let ?ps = "filter (\<lambda>p. status p = RewardAcceptVotes) ps"
  let ?fetch = "\<lambda>b. ae_query env r \<lparr>aq_limit = DEFAULT_SNS_PROPOSALS_PAGE_SIZE, aq_includeRewardStatus = [RewardAcceptVotes],
    aq_beforeProposal = b\<rparr>"
  have sorted: "newest_by (\<lambda>p. nullish_or (sd_id p) 0) ?ps"
    using assms by (auto simp: answers_sns_def intro: newest_by_filter)
  have ids: "list_all (\<lambda>p. sd_id p \<noteq> None) ?ps"
    using assms by (auto simp: answers_sns_def list_all_iff)
  have "?fetch b = Inr (page_of (\<lambda>p. nullish_or (sd_id p) 0) ?ps DEFAULT_SNS_PROPOSALS_PAGE_SIZE b)" for b
    using assms by (simp add: answers_sns_def)
  from sns_pages.fetch_pages_newest [of ?ps ?fetch DEFAULT_SNS_PROPOSALS_PAGE_SIZE MAX_ACTIONABLE_REQUEST_COUNT 0, OF sorted ids this]
  show ?thesis by (simp add: querySnsProposals_def DEFAULT_SNS_PROPOSALS_PAGE_SIZE_def MAX_ACTIONABLE_REQUEST_COUNT_def)
qed

lemma queryProposals_nns_newest:
  assumes "newest_by (\<lambda>p. nullish_or (pi_id p) 0) ps" "list_all (\<lambda>p. pi_id p \<noteq> None) ps"
    and "\<And>b. query req b = Inr (page_of (\<lambda>p. nullish_or (pi_id p) 0) ps DEFAULT_LIST_PAGINATION_LIMIT b)"
  shows "queryProposals_nns query req s = (Inr (take 500 ps), s)"
  using nns_pages.fetch_pages_newest [of ps "query req" DEFAULT_LIST_PAGINATION_LIMIT MAX_ACTIONABLE_REQUEST_COUNT 0, OF assms]
  by (simp add: queryProposals_nns_def liftE_def DEFAULT_LIST_PAGINATION_LIMIT_def MAX_ACTIONABLE_REQUEST_COUNT_def)

lemma removeFailed_iff [simp]: "x \<in> set (removeFailed r fs) \<longleftrightarrow> x \<in> set fs \<and> x \<noteq> r"
  by (auto simp: removeFailed_def)

text \<open>
  C39: When a project's canister answers requests as documented and the neurons of the user are known, loading puts
  into the store exactly those of the 100 newest proposals that accept votes that one of the neurons can vote on,
  takes the project off the list of failed ones and leaves the entries of other projects alone.  Which proposals accept
  votes is for the canister to say, which gets the status in the request.
\<close>

theorem actionable_sns_loaded:
  assumes "ae_identity env = Some user" "answers_sns env r status ps"
    and "fst (queryNeurons_sns env r s) = Inr (Some ns)"
  shows "map_of (as_actionable (loadActionableProposalsForSns env r s)) =
      (map_of (as_actionable s))(r \<mapsto> filter (\<lambda>p. votableSnsNeurons ns p (Some user) \<noteq> [])
         (take 100 (filter (\<lambda>p. status p = RewardAcceptVotes) ps))) \<and>
    set (as_failed (loadActionableProposalsForSns env r s)) = set (as_failed s) - {r}"
proof -
  define s1 where "s1 = s\<lparr>as_failed := removeFailed r (as_failed s)\<rparr>"
  obtain neurons s2 where q: "queryNeurons_sns env r s1 = (neurons, s2)" by force
  then have "neurons = Inr (Some ns)" "as_actionable s2 = as_actionable s" "as_failed s2 = removeFailed r (as_failed s)"
    using assms(3) by (auto simp: queryNeurons_sns_def s1_def split: if_splits sum.splits)
  then show ?thesis
    using q by (auto simp: loadActionableProposalsForSns_def assms(1) querySnsProposals_newest [OF assms(2)] Let_def
        s1_def [symmetric] votableProposals_def setActionable_sns_def map_of_object_set)
qed

text \<open>
  the page of actionable proposals is shown once every committed project has been loaded or has failed,
  which is counted by adding the projects with proposals and the failed ones.  A project that was loaded before
  and fails to reload, as after every vote, is counted twice: the page then shows its loading state although
  everything is there, until a reload of that project succeeds.
\<close>

lemma failed_reload_hides_actionable:
  assumes "actionableProposalsLoadedStore nns (as_actionable s) committed (as_failed s)"
    and "r \<notin> set (as_failed s)" "distinct (as_failed s)"
    and "ae_identity env = Some user" "querySnsProposals env r = Inl e"
  shows "\<not> actionableProposalsLoadedStore nns (as_actionable (loadActionableProposalsForSns env r s)) committed
    (as_failed (loadActionableProposalsForSns env r s))"
proof -
  have "length (addFailed r (as_failed s)) = Suc (length (as_failed s))"
    using assms(2,3) by (simp add: addFailed_def set_insertion_order_snoc)
  then show ?thesis
    using assms(1) by (simp add: loadActionableProposalsForSns_def assms(4,5) failActionable_def actionableProposalsLoadedStore_def)
qed

definition example_act_env :: "string + SnsProposalData list \<Rightarrow> act_env" where
  "example_act_env answer = \<lparr>ae_identity = Some ''u'', ae_query = (\<lambda>_ req. if aq_beforeProposal req = None then answer else Inr []),
     ae_loadNeurons = (\<lambda>r store. Inr (store(r \<mapsto> \<lparr>pn_neurons = [], pn_certified = Some False\<rparr>)))\<rparr>"

definition example_act_state :: act_state where
  "example_act_state = \<lparr>as_failed = [], as_actionable = [(''r'', [])], as_neurons = Map.empty\<rparr>"

text \<open>Of the three proposals the newest has been decided.\<close>

definition example_proposals_env :: act_env where
  "example_proposals_env = (example_act_env (Inr []))\<lparr>ae_query := \<lambda>_ req.
     Inr (page_of (\<lambda>p. nullish_or (sd_id p) 0)
       (filter (\<lambda>p. aq_includeRewardStatus req = [] \<or>
            (if sd_id p = Some 3 then RewardSettled else RewardAcceptVotes) \<in> set (aq_includeRewardStatus req))
          [plain_sns_proposal 3, plain_sns_proposal 2, plain_sns_proposal 1])
       (aq_limit req) (aq_beforeProposal req))\<rparr>"

theorem actionable_sns_loaded_witness:
  "map_of (as_actionable (loadActionableProposalsForSns example_proposals_env ''r'' example_act_state)) ''r'' = Some []"
proof -
  let ?status = "\<lambda>p. if sd_id p = Some 3 then RewardSettled else RewardAcceptVotes"
  have "answers_sns example_proposals_env ''r'' ?status [plain_sns_proposal 3, plain_sns_proposal 2, plain_sns_proposal 1]"
    by (simp add: answers_sns_def newest_by_def example_proposals_env_def)
  moreover have "fst (queryNeurons_sns example_proposals_env ''r'' example_act_state) = Inr (Some [])"
    by (simp add: storeNeurons_def queryNeurons_sns_def example_proposals_env_def example_act_env_def example_act_state_def)
  ultimately show ?thesis
    using actionable_sns_loaded [of example_proposals_env "''u''" "''r''" ?status
        "[plain_sns_proposal 3, plain_sns_proposal 2, plain_sns_proposal 1]" example_act_state "[]"]
    by (simp add: example_proposals_env_def example_act_env_def votableSnsNeurons_def)
qed

lemma failing_query:
  assumes "\<And>req. aq_beforeProposal req = None \<Longrightarrow> ae_query env r req = Inl e"
  shows "querySnsProposals env r = Inl e"
proof -
  have max: "MAX_ACTIONABLE_REQUEST_COUNT = Suc 4" by (simp add: MAX_ACTIONABLE_REQUEST_COUNT_def)
  show ?thesis
    unfolding querySnsProposals_def max fetch_pages.simps sns_pages.last_empty by (subst assms) simp_all
qed

theorem failed_reload_hides_actionable_witness:
  "\<not> actionableProposalsLoadedStore (Some []) (as_actionable (loadActionableProposalsForSns (example_act_env (Inl [])) ''r'' example_act_state))
     [''r''] (as_failed (loadActionableProposalsForSns (example_act_env (Inl [])) ''r'' example_act_state))"
proof (rule failed_reload_hides_actionable)
  show "querySnsProposals (example_act_env (Inl [])) ''r'' = Inl []"
    by (rule failing_query) (simp add: example_act_env_def)
  show "ae_identity (example_act_env (Inl [])) = Some ''u''" by (simp add: example_act_env_def)
qed (simp_all add: actionableProposalsLoadedStore_def example_act_state_def)

end
