(* ===== verification/SnsNeuronServices.thy ===== *)
theory SnsNeuronServices
  imports Effects SnsNeurons QueryAndUpdate
begin

text \<open>
  services/sns-neurons.services.ts: loading SNS neurons and the operations on them, with the mapping of the
  ledger's errors of utils/sns-ledger.utils.ts.  The SNS canisters are parameters that act on a world of their
  own; calls, with the user that signs, reloads of accounts and toasts are logged.  A promise that never settles
  is the error SnsPending, which no handler catches.  makeDummyProposals, for test networks, is left out.  Names
  that other services have too carry the suffix _sns.
\<close>

subsection \<open>Errors\<close>

datatype icrc_transfer_error =
    IcrcGenericError | IcrcTemporarilyUnavailable | IcrcDuplicate | IcrcBadFee | IcrcCreatedInFuture | IcrcTooOld
  | IcrcInsufficientFunds | IcrcOtherError

text \<open>SnsThrown with the message of the error.\<close>

datatype sns_service_error = IcrcTransfer icrc_transfer_error | SnsThrown "string option" | SnsPending

definition sns_error_label :: "(string \<Rightarrow> bool) \<Rightarrow> string option \<Rightarrow> string \<Rightarrow> string" where
  "sns_error_label translated message fallback =
     (case message of None \<Rightarrow> fallback | Some m \<Rightarrow> if translated m then m else fallback)"

fun ledgerErrorToToastError :: "(string \<Rightarrow> bool) \<Rightarrow> sns_service_error \<Rightarrow> string \<Rightarrow> string" where
  "ledgerErrorToToastError translated (IcrcTransfer e) fallback =
     (case e of
        IcrcGenericError \<Rightarrow> ''error.transaction_error''
      | IcrcTemporarilyUnavailable \<Rightarrow> ''error__sns.ledger_temporarily_unavailable''
      | IcrcDuplicate \<Rightarrow> ''error__sns.ledger_duplicate''
      | IcrcBadFee \<Rightarrow> ''error__sns.ledger_bad_fee''
      | IcrcCreatedInFuture \<Rightarrow> ''error__sns.ledger_created_future''
      | IcrcTooOld \<Rightarrow> ''error__sns.ledger_too_old''
      | IcrcInsufficientFunds \<Rightarrow> ''error__sns.ledger_insufficient_funds''
      | IcrcOtherError \<Rightarrow> fallback)"
| "ledgerErrorToToastError translated (SnsThrown m) fallback = sns_error_label translated m fallback"
| "ledgerErrorToToastError translated SnsPending fallback = fallback"

subsection \<open>Calls and state\<close>

datatype sns_call =
    SnsAddPermissions string "nat list" string "int list"
  | SnsRemovePermissions string "nat list" string "int list"
  | SnsSplit string "nat list" int int
  | SnsDisburse string "nat list"
  | SnsStartDissolving string "nat list"
  | SnsStopDissolving string "nat list"
  | SnsIncreaseDissolveDelay string "nat list" number
  | SnsIncreaseStake string "nat list" int string
  | SnsStake string string int string int
  | SnsSetFollowees string "nat list option" int "nat list list"
  | SnsStakeMaturity string "nat list" number
  | SnsDisburseMaturity string "nat list" number "string option"
  | SnsAutoStakeMaturity string "nat list" bool

datatype sns_service_event =
    SnsCalled sns_call string
  | SnsQueriedNeurons string bool string
  | SnsQueriedNeuron string "nat list" string
  | SnsReloadedAccounts string
  | SnsToast string

text \<open>
  nw_decode is decodeIcrcAccount, None when it throws; nw_neuronSubaccount gives the id of the neuron of an index.
\<close>

record 'w sns_env =
  nw_user :: "string option"
  nw_call :: "sns_call \<Rightarrow> string \<Rightarrow> 'w \<Rightarrow> (sns_service_error + unit) \<times> 'w"
  nw_neurons :: "string \<Rightarrow> bool \<Rightarrow> string \<Rightarrow> 'w \<Rightarrow> (sns_service_error + SnsNeuron list) \<times> 'w"
  nw_neuron :: "string \<Rightarrow> nat list \<Rightarrow> string \<Rightarrow> 'w \<Rightarrow> (sns_service_error + SnsNeuron option) \<times> 'w"
  nw_accounts :: "string \<Rightarrow> 'w \<Rightarrow> 'w"
  nw_token :: "string option"
  nw_fees :: "string \<rightharpoonup> int"
  nw_minimumStakes :: "string \<rightharpoonup> int"
  nw_numberToE8s :: "number \<Rightarrow> int option"
  nw_decode :: "string \<Rightarrow> string option"
  nw_validPrincipal :: "string \<Rightarrow> bool"
  nw_neuronSubaccount :: "string \<Rightarrow> nat \<Rightarrow> nat list"
  nw_translated :: "string \<Rightarrow> bool"

record 'w sns_state =
  sw_world :: 'w
  sw_store :: SnsNeuronsStore
  sw_log :: "sns_service_event list"

type_synonym ('w, 'a) sns = "('w sns_state, sns_service_error, 'a) effect"

definition note_sns :: "sns_service_event \<Rightarrow> 'w sns_state \<Rightarrow> 'w sns_state" where
  "note_sns e s = s\<lparr>sw_log := sw_log s @ [e]\<rparr>"

definition outside_sns :: "sns_service_event \<Rightarrow> ('w \<Rightarrow> (sns_service_error + 'a) \<times> 'w) \<Rightarrow> ('w, 'a) sns" where
  "outside_sns e f s = (let (r, w) = f (sw_world s) in (r, note_sns e (s\<lparr>sw_world := w\<rparr>)))"

abbreviation sns_call :: "'w sns_env \<Rightarrow> sns_call \<Rightarrow> string \<Rightarrow> ('w, unit) sns" where
  "sns_call env c user \<equiv> outside_sns (SnsCalled c user) (nw_call env c user)"

abbreviation toast_sns :: "string \<Rightarrow> ('w, unit) sns" where
  "toast_sns labelKey \<equiv> updateE (note_sns (SnsToast labelKey))"

text \<open>The catch blocks: a toast and no success; a promise that never settles reaches no handler.\<close>

definition orToast :: "(sns_service_error \<Rightarrow> string) \<Rightarrow> ('w, bool) sns \<Rightarrow> ('w, bool) sns" where
  "orToast labelOf m =
     catchE m (\<lambda>err. if err = SnsPending then throwE SnsPending else thenE (toast_sns (labelOf err)) (returnE False))"

text \<open>A nullish value where one is required throws.\<close>

definition required :: "'a option \<Rightarrow> ('w, 'a) sns" where
  "required x = (case x of None \<Rightarrow> throwE (SnsThrown None) | Some v \<Rightarrow> returnE v)"

subsection \<open>Loading\<close>

definition getSnsNeuronIdentity :: "'w sns_env \<Rightarrow> ('w, string) sns" where
  "getSnsNeuronIdentity env = (case nw_user env of None \<Rightarrow> throwE SnsPending | Some user \<Rightarrow> returnE user)"

text \<open>The state is the store and the number of toasts; the responses come in the order of their arrival.\<close>

definition syncSnsNeurons ::
  "string \<Rightarrow> QueryAndUpdateStrategy \<Rightarrow> (bool \<times> (sns_service_error + SnsNeuron list)) list \<Rightarrow>
     SnsNeuronsStore \<times> nat \<Rightarrow> SnsNeuronsStore \<times> nat" where
  "syncSnsNeurons rootCanisterId strat responses st =
     snd (qau_settle
       (\<lambda>certified _ neurons (store, toasts). ((setNeurons_sns rootCanisterId neurons (Some certified) store, toasts), None))
       (Some (\<lambda>certified strat err (store, toasts).
          if \<not> (certified \<or> strat \<noteq> QueryAndUpdate) then ((store, toasts), None)
          else ((resetProject rootCanisterId store, Suc toasts), None)))
       strat responses (False, st))"

definition loadSnsNeurons :: "'w sns_env \<Rightarrow> string \<Rightarrow> bool \<Rightarrow> ('w, unit) sns" where
  "loadSnsNeurons env rootCanisterId certified =
     bindE (getSnsNeuronIdentity env) (\<lambda>user.
       bindE (outside_sns (SnsQueriedNeurons rootCanisterId certified user) (nw_neurons env rootCanisterId certified user)) (\<lambda>neurons.
         updateE (\<lambda>s. s\<lparr>sw_store := setNeurons_sns rootCanisterId neurons (Some certified) (sw_store s)\<rparr>)))"

definition getNeuronFromStoreByIdHex :: "string \<Rightarrow> string \<Rightarrow> SnsNeuronsStore \<Rightarrow> SnsNeuron option \<times> bool" where
  "getNeuronFromStoreByIdHex neuronIdHex rootCanisterId store =
     (let projectData = store rootCanisterId;
          neuron = getSnsNeuronByHexId neuronIdHex (map_option pn_neurons projectData)
      in (neuron, nullish_or (Option.bind projectData pn_certified) False))"

text \<open>The callbacks of the caller change a state of its own; the store is only read.\<close>

definition getSnsNeuron ::
  "string \<Rightarrow> string \<Rightarrow> bool \<Rightarrow> (bool \<Rightarrow> SnsNeuron \<Rightarrow> 's \<Rightarrow> 's) \<Rightarrow> (bool \<Rightarrow> sns_service_error \<Rightarrow> 's \<Rightarrow> 's) \<Rightarrow>
     QueryAndUpdateStrategy \<Rightarrow> (bool \<times> (sns_service_error + SnsNeuron)) list \<Rightarrow> SnsNeuronsStore \<Rightarrow> 's \<Rightarrow> 's" where
  "getSnsNeuron neuronIdHex rootCanisterId forceFetch onLoad onError strat responses store s =
     (case (if forceFetch then None else fst (getNeuronFromStoreByIdHex neuronIdHex rootCanisterId store)) of
        Some neuron \<Rightarrow> onLoad (snd (getNeuronFromStoreByIdHex neuronIdHex rootCanisterId store)) neuron s
      | None \<Rightarrow> snd (qau_settle (\<lambda>certified _ neuron s. (onLoad certified neuron s, None))
          (Some (\<lambda>certified _ error s. (onError certified error s, None))) strat responses (False, s)))"

subsection \<open>Operations\<close>

definition addHotkey_sns :: "'w sns_env \<Rightarrow> nat list \<Rightarrow> string \<Rightarrow> string \<Rightarrow> ('w, bool) sns" where
  "addHotkey_sns env neuronId hotkey rootCanisterId =
     orToast (\<lambda>_. ''error__sns.sns_add_hotkey'')
       (bindE (getSnsNeuronIdentity env) (\<lambda>user.
          thenE (sns_call env (SnsAddPermissions rootCanisterId neuronId hotkey HOTKEY_PERMISSIONS) user) (returnE True)))"

definition removeHotkey_sns :: "'w sns_env \<Rightarrow> nat list \<Rightarrow> string \<Rightarrow> string \<Rightarrow> ('w, bool) sns" where
  "removeHotkey_sns env neuronId hotkey rootCanisterId =
     orToast (\<lambda>_. ''error__sns.sns_remove_hotkey'')
       (bindE (getSnsNeuronIdentity env) (\<lambda>user.
          if \<not> nw_validPrincipal env hotkey then throwE (SnsThrown None)
          else thenE (sns_call env (SnsRemovePermissions rootCanisterId neuronId hotkey HOTKEY_PERMISSIONS) user) (returnE True)))"

definition splitNeuron_sns :: "'w sns_env \<Rightarrow> string \<Rightarrow> nat list \<Rightarrow> number \<Rightarrow> int \<Rightarrow> ('w, bool) sns" where
  "splitNeuron_sns env rootCanisterId neuronId amount neuronMinimumStake =
     orToast (\<lambda>_. ''error__sns.sns_split_neuron'')
       (bindE (required (nw_token env)) (\<lambda>_.
        bindE (required (nw_fees env rootCanisterId)) (\<lambda>transactionFee.
        bindE (required (nw_numberToE8s env amount)) (\<lambda>amountE8s.
          let amountAndFee = amountE8s + transactionFee
          in if \<not> isEnoughAmountToSplit amountAndFee transactionFee neuronMinimumStake
             then thenE (toast_sns ''error__sns.sns_amount_not_enough_stake_neuron'') (returnE False)
             else bindE (getSnsNeuronIdentity env) (\<lambda>user.
               thenE (loadSnsNeurons env rootCanisterId True)
                (bindE (getE (\<lambda>s. sw_store s rootCanisterId)) (\<lambda>project.
                 bindE (required project) (\<lambda>p.
                   case nextMemo (nw_neuronSubaccount env) user (pn_neurons p) of
                     Inl _ \<Rightarrow> throwE (SnsThrown None)
                   | Inr memo \<Rightarrow>
                       thenE (sns_call env (SnsSplit rootCanisterId neuronId amountAndFee memo) user) (returnE True)))))))))"

text \<open>The operations that make one call with nothing but their arguments.\<close>

definition one_call :: "'w sns_env \<Rightarrow> string \<Rightarrow> sns_call \<Rightarrow> ('w, bool) sns" where
  "one_call env labelKey c =
     orToast (\<lambda>_. labelKey) (bindE (getSnsNeuronIdentity env) (\<lambda>user. thenE (sns_call env c user) (returnE True)))"

definition disburse_sns :: "'w sns_env \<Rightarrow> string \<Rightarrow> nat list \<Rightarrow> ('w, bool) sns" where
  "disburse_sns env rootCanisterId neuronId = one_call env ''error__sns.sns_disburse'' (SnsDisburse rootCanisterId neuronId)"

definition startDissolving_sns :: "'w sns_env \<Rightarrow> string \<Rightarrow> nat list \<Rightarrow> ('w, bool) sns" where
  "startDissolving_sns env rootCanisterId neuronId =
     one_call env ''error__sns.sns_start_dissolving'' (SnsStartDissolving rootCanisterId neuronId)"

definition stopDissolving_sns :: "'w sns_env \<Rightarrow> string \<Rightarrow> nat list \<Rightarrow> ('w, bool) sns" where
  "stopDissolving_sns env rootCanisterId neuronId =
     one_call env ''error__sns.sns_stop_dissolving'' (SnsStopDissolving rootCanisterId neuronId)"

definition stakeMaturity_sns :: "'w sns_env \<Rightarrow> nat list \<Rightarrow> string \<Rightarrow> number \<Rightarrow> ('w, bool) sns" where
  "stakeMaturity_sns env neuronId rootCanisterId percentageToStake =
     one_call env ''error__sns.sns_stake_maturity'' (SnsStakeMaturity rootCanisterId neuronId percentageToStake)"

definition toggleAutoStakeMaturity_sns :: "'w sns_env \<Rightarrow> SnsNeuron \<Rightarrow> nat list \<Rightarrow> string \<Rightarrow> ('w, bool) sns" where
  "toggleAutoStakeMaturity_sns env neuron neuronId rootCanisterId =
     one_call env ''error__sns.sns_stake_maturity''
       (SnsAutoStakeMaturity rootCanisterId neuronId (\<not> hasAutoStakeMaturityOn_sns (Some neuron)))"

definition existingDissolveDelay :: "int \<Rightarrow> SnsNeuron \<Rightarrow> number" where
  "existingDissolveDelay now neuron =
     to_number (nullish_or (nullish_alt (getSnsLockedTimeInSeconds now neuron) (getSnsDissolvingTimeInSeconds now neuron)) 0)"

definition updateDelay_sns :: "'w sns_env \<Rightarrow> int \<Rightarrow> string \<Rightarrow> SnsNeuron \<Rightarrow> number \<Rightarrow> ('w, bool) sns" where
  "updateDelay_sns env now rootCanisterId neuron dissolveDelaySeconds =
     orToast (\<lambda>_. ''error__sns.sns_dissolve_delay_action'')
       (bindE (getSnsNeuronIdentity env) (\<lambda>user.
        bindE (required (sn_id neuron)) (\<lambda>neuronId.
          thenE (sns_call env (SnsIncreaseDissolveDelay rootCanisterId neuronId
                  (num_sub dissolveDelaySeconds (existingDissolveDelay now neuron))) user)
            (returnE True))))"

definition reload_accounts :: "'w sns_env \<Rightarrow> string \<Rightarrow> ('w, unit) sns" where
  "reload_accounts env rootCanisterId =
     updateE (\<lambda>s. note_sns (SnsReloadedAccounts rootCanisterId) (s\<lparr>sw_world := nw_accounts env rootCanisterId (sw_world s)\<rparr>))"

definition increaseStakeNeuron :: "'w sns_env \<Rightarrow> string \<Rightarrow> number \<Rightarrow> string \<Rightarrow> nat list \<Rightarrow> ('w, bool) sns" where
  "increaseStakeNeuron env rootCanisterId amount accountIdentifier neuronId =
     orToast (\<lambda>err. ledgerErrorToToastError (nw_translated env) err ''error__sns.sns_increase_stake'')
       (bindE (getSnsNeuronIdentity env) (\<lambda>user.
        bindE (required (nw_numberToE8s env amount)) (\<lambda>stakeE8s.
        bindE (required (nw_decode env accountIdentifier)) (\<lambda>source.
          thenE (sns_call env (SnsIncreaseStake rootCanisterId neuronId stakeE8s source) user)
            (thenE (reload_accounts env rootCanisterId) (returnE True))))))"

definition stakeNeuron_sns :: "'w sns_env \<Rightarrow> string \<Rightarrow> number \<Rightarrow> string \<Rightarrow> ('w, bool) sns" where
  "stakeNeuron_sns env rootCanisterId amount accountIdentifier =
     orToast (\<lambda>err. ledgerErrorToToastError (nw_translated env) err ''error__sns.sns_stake'')
       (bindE (getSnsNeuronIdentity env) (\<lambda>user.
        bindE (required (nw_numberToE8s env amount)) (\<lambda>stakeE8s.
        bindE (required (nw_minimumStakes env rootCanisterId)) (\<lambda>minimumStakeE8s.
          if stakeE8s < minimumStakeE8s
          then throwE (SnsThrown (Some ''The caller should make sure the amount is at least the minimum stake''))
          else (case nw_fees env rootCanisterId of
                  None \<Rightarrow> throwE (SnsThrown (Some ''error.transaction_fee_not_found''))
                | Some fee \<Rightarrow>
                    bindE (required (nw_decode env accountIdentifier)) (\<lambda>source.
                      thenE (sns_call env (SnsStake rootCanisterId user stakeE8s source fee) user)
                        (thenE (reload_accounts env rootCanisterId)
                          (thenE (loadSnsNeurons env rootCanisterId True) (returnE True)))))))))"

text \<open>The lists of followees hold byte arrays; hexId is the array of the bytes of a hex string.\<close>

definition hexId :: "string \<Rightarrow> nat list" where
  "hexId hex = map (\<lambda>b. nat (nullish_or b 0)) (hexStringToBytes hex)"

definition addFollowee_sns :: "'w sns_env \<Rightarrow> SnsNeuron \<Rightarrow> int \<Rightarrow> string \<Rightarrow> string \<Rightarrow> ('w, bool) sns" where
  "addFollowee_sns env neuron functionId followeeHex rootCanisterId =
     bindE (getSnsNeuronIdentity env) (\<lambda>user.
       let followee = hexId followeeHex;
           topicFollowees = followeesByFunction neuron functionId
       in if List.find (\<lambda>i. subaccountToHexString i = followeeHex) topicFollowees \<noteq> None
          then thenE (toast_sns ''new_followee.already_followed'') (returnE False)
          else orToast (\<lambda>_. ''error__sns.sns_add_followee'')
            (bindE (outside_sns (SnsQueriedNeuron rootCanisterId followee user) (nw_neuron env rootCanisterId followee user))
              (\<lambda>followeeNeuron.
                 if followeeNeuron = None
                 then thenE (toast_sns ''new_followee.followee_does_not_exist'') (returnE False)
                 else thenE (sns_call env (SnsSetFollowees rootCanisterId (sn_id neuron) functionId
                        (topicFollowees @ [followee])) user) (returnE True))))"

definition removeFollowee_sns :: "'w sns_env \<Rightarrow> SnsNeuron \<Rightarrow> int \<Rightarrow> nat list \<Rightarrow> string \<Rightarrow> ('w, bool) sns" where
  "removeFollowee_sns env neuron functionId followee rootCanisterId =
     bindE (getSnsNeuronIdentity env) (\<lambda>user.
       let followeeHex = subaccountToHexString followee;
           topicFollowees = followeesByFunction neuron functionId
       in if List.find (\<lambda>i. subaccountToHexString i = followeeHex) topicFollowees = None
          then thenE (toast_sns ''new_followee.neuron_not_followee'') (returnE False)
          else orToast (\<lambda>_. ''error__sns.sns_remove_followee'')
            (thenE (sns_call env (SnsSetFollowees rootCanisterId (sn_id neuron) functionId
               (filter (\<lambda>i. subaccountToHexString i \<noteq> followeeHex) topicFollowees)) user) (returnE True)))"

definition disburseMaturity :: "'w sns_env \<Rightarrow> nat list \<Rightarrow> string \<Rightarrow> number \<Rightarrow> string option \<Rightarrow> ('w, bool) sns" where
  "disburseMaturity env neuronId rootCanisterId percentageToDisburse toAccountAddress =
     orToast (\<lambda>_. ''error__sns.sns_disburse_maturity'')
       (bindE (getSnsNeuronIdentity env) (\<lambda>user.
        bindE (case toAccountAddress of None \<Rightarrow> returnE None
               | Some a \<Rightarrow> bindE (required (nw_decode env a)) (\<lambda>d. returnE (Some d))) (\<lambda>toAccount.
          thenE (sns_call env (SnsDisburseMaturity rootCanisterId neuronId percentageToDisburse toAccount) user) (returnE True))))"

subsection \<open>Sessions\<close>

datatype sns_op =
    SnsOpAddHotkey "nat list" string string
  | SnsOpRemoveHotkey "nat list" string string
  | SnsOpSplit string "nat list" number int
  | SnsOpDisburse string "nat list"
  | SnsOpStartDissolving string "nat list"
  | SnsOpStopDissolving string "nat list"
  | SnsOpUpdateDelay int string SnsNeuron number
  | SnsOpIncreaseStake string number string "nat list"
  | SnsOpStake string number string
  | SnsOpAddFollowee SnsNeuron int string string
  | SnsOpRemoveFollowee SnsNeuron int "nat list" string
  | SnsOpStakeMaturity "nat list" string number
  | SnsOpDisburseMaturity "nat list" string number "string option"
  | SnsOpAutoStake SnsNeuron "nat list" string

fun run_sns_op :: "'w sns_env \<Rightarrow> sns_op \<Rightarrow> ('w, bool) sns" where
  "run_sns_op env (SnsOpAddHotkey i h r) = addHotkey_sns env i h r"
| "run_sns_op env (SnsOpRemoveHotkey i h r) = removeHotkey_sns env i h r"
| "run_sns_op env (SnsOpSplit r i a m) = splitNeuron_sns env r i a m"
| "run_sns_op env (SnsOpDisburse r i) = disburse_sns env r i"
| "run_sns_op env (SnsOpStartDissolving r i) = startDissolving_sns env r i"
| "run_sns_op env (SnsOpStopDissolving r i) = stopDissolving_sns env r i"
| "run_sns_op env (SnsOpUpdateDelay now r n d) = updateDelay_sns env now r n d"
| "run_sns_op env (SnsOpIncreaseStake r a acc i) = increaseStakeNeuron env r a acc i"
| "run_sns_op env (SnsOpStake r a acc) = stakeNeuron_sns env r a acc"
| "run_sns_op env (SnsOpAddFollowee n f h r) = addFollowee_sns env n f h r"
| "run_sns_op env (SnsOpRemoveFollowee n f i r) = removeFollowee_sns env n f i r"
| "run_sns_op env (SnsOpStakeMaturity i r p) = stakeMaturity_sns env i r p"
| "run_sns_op env (SnsOpDisburseMaturity i r p a) = disburseMaturity env i r p a"
| "run_sns_op env (SnsOpAutoStake n i r) = toggleAutoStakeMaturity_sns env n i r"

text \<open>
  The call that an operation asks for, to the last argument.  A split asks for the amount and the fee on top, when the
  amount is at least the minimum stake, under a memo within the range of the subaccounts; a top-up for the amount, from
  the account given; a stake is in the name of the user, at least the minimum of the project, and pays the fee of the project; a
  delay is increased by the difference between the new delay and the one that is left; a followee is
  added at the end, once, or all its occurrences removed; hot keys get and lose the permissions to vote and to
  submit proposals.
\<close>

fun requested :: "'w sns_env \<Rightarrow> string \<Rightarrow> sns_op \<Rightarrow> sns_call \<Rightarrow> bool" where
  "requested env user (SnsOpAddHotkey i h r) c \<longleftrightarrow> c = SnsAddPermissions r i h [NEURON_PERMISSION_TYPE_VOTE, NEURON_PERMISSION_TYPE_SUBMIT_PROPOSAL]"
| "requested env user (SnsOpRemoveHotkey i h r) c \<longleftrightarrow> nw_validPrincipal env h \<and>
     c = SnsRemovePermissions r i h [NEURON_PERMISSION_TYPE_VOTE, NEURON_PERMISSION_TYPE_SUBMIT_PROPOSAL]"
| "requested env user (SnsOpSplit r i amount minimumStake) c \<longleftrightarrow>
     (\<exists>e8s fee memo. nw_numberToE8s env amount = Some e8s \<and> nw_fees env r = Some fee \<and> minimumStake \<le> e8s \<and>
        0 \<le> memo \<and> memo < 65536 \<and> c = SnsSplit r i (e8s + fee) memo)"
| "requested env user (SnsOpDisburse r i) c \<longleftrightarrow> c = SnsDisburse r i"
| "requested env user (SnsOpStartDissolving r i) c \<longleftrightarrow> c = SnsStartDissolving r i"
| "requested env user (SnsOpStopDissolving r i) c \<longleftrightarrow> c = SnsStopDissolving r i"
| "requested env user (SnsOpUpdateDelay now r neuron seconds) c \<longleftrightarrow>
     (\<exists>i. sn_id neuron = Some i \<and>
        c = SnsIncreaseDissolveDelay r i (num_sub seconds (to_number
              (case getSnsLockedTimeInSeconds now neuron of Some locked \<Rightarrow> locked
               | None \<Rightarrow> (case getSnsDissolvingTimeInSeconds now neuron of Some left \<Rightarrow> left | None \<Rightarrow> 0)))))"
| "requested env user (SnsOpIncreaseStake r amount account i) c \<longleftrightarrow>
     (\<exists>e8s source. nw_numberToE8s env amount = Some e8s \<and> nw_decode env account = Some source \<and> c = SnsIncreaseStake r i e8s source)"
| "requested env user (SnsOpStake r amount account) c \<longleftrightarrow>
     (\<exists>e8s minimumStake fee source. nw_numberToE8s env amount = Some e8s \<and> nw_minimumStakes env r = Some minimumStake \<and>
        minimumStake \<le> e8s \<and> nw_fees env r = Some fee \<and> nw_decode env account = Some source \<and> c = SnsStake r user e8s source fee)"
| "requested env user (SnsOpAddFollowee neuron f hex r) c \<longleftrightarrow>
     hex \<notin> subaccountToHexString ` set (followeesByFunction neuron f) \<and>
     c = SnsSetFollowees r (sn_id neuron) f (followeesByFunction neuron f @ [hexId hex])"
| "requested env user (SnsOpRemoveFollowee neuron f i r) c \<longleftrightarrow>
     subaccountToHexString i \<in> subaccountToHexString ` set (followeesByFunction neuron f) \<and>
     c = SnsSetFollowees r (sn_id neuron) f
           (filter (\<lambda>j. subaccountToHexString j \<noteq> subaccountToHexString i) (followeesByFunction neuron f))"
| "requested env user (SnsOpStakeMaturity i r percentage) c \<longleftrightarrow> c = SnsStakeMaturity r i percentage"
| "requested env user (SnsOpDisburseMaturity i r percentage account) c \<longleftrightarrow>
     (case account of None \<Rightarrow> c = SnsDisburseMaturity r i percentage None
      | Some a \<Rightarrow> (\<exists>d. nw_decode env a = Some d \<and> c = SnsDisburseMaturity r i percentage (Some d)))"
| "requested env user (SnsOpAutoStake neuron i r) c \<longleftrightarrow>
     c = SnsAutoStakeMaturity r i (\<not> hasAutoStakeMaturityOn_sns (Some neuron))"

definition sns_calls_of :: "sns_service_event list \<Rightarrow> (sns_call \<times> string) list" where
  "sns_calls_of = List.map_filter (\<lambda>e. case e of SnsCalled c user \<Rightarrow> Some (c, user) | _ \<Rightarrow> None)"

fun query_signed :: "'w sns_env \<Rightarrow> sns_service_event \<Rightarrow> bool" where
  "query_signed env (SnsQueriedNeurons r c user) \<longleftrightarrow> nw_user env = Some user"
| "query_signed env (SnsQueriedNeuron r i user) \<longleftrightarrow> nw_user env = Some user"
| "query_signed env e \<longleftrightarrow> True"

lemma sns_calls_of_simps [simp]:
  "sns_calls_of [] = []" "sns_calls_of (xs @ ys) = sns_calls_of xs @ sns_calls_of ys"
  "sns_calls_of (e # es) = (case e of SnsCalled c user \<Rightarrow> [(c, user)] | _ \<Rightarrow> []) @ sns_calls_of es"
  by (simp_all add: sns_calls_of_def List.map_filter_def split: sns_service_event.split)

lemma sw_log_simps [simp]:
  "sw_log (note_sns e s) = sw_log s @ [e]" "sw_world (note_sns e s) = sw_world s" "sw_store (note_sns e s) = sw_store s"
  by (simp_all add: note_sns_def)

text \<open>No call; or none without success, or one call as the operation asks for it.\<close>

definition quiet :: "'w sns_env \<Rightarrow> ('w, 'a) sns \<Rightarrow> bool" where
  "quiet env m \<longleftrightarrow> (\<forall>s. \<exists>new. sw_log (snd (m s)) = sw_log s @ new \<and> sns_calls_of new = [] \<and> list_all (query_signed env) new)"

definition asks :: "'w sns_env \<Rightarrow> (string \<Rightarrow> sns_call \<Rightarrow> bool) \<Rightarrow> ('w, bool) sns \<Rightarrow> bool" where
  "asks env P m \<longleftrightarrow> (\<forall>s. \<exists>new. sw_log (snd (m s)) = sw_log s @ new \<and> list_all (query_signed env) new \<and>
     (sns_calls_of new = [] \<and> fst (m s) \<noteq> Inr True \<or>
      (\<exists>user c. sns_calls_of new = [(c, user)] \<and> nw_user env = Some user \<and> P user c)))"

named_theorems asks_intros "the calls of composed operations"

lemma quiet_basic [asks_intros]:
  "quiet env (returnE x)" "quiet env (throwE e)" "quiet env (getE g)" "quiet env (required v)"
  "quiet env (getSnsNeuronIdentity env')" "quiet env (reload_accounts env' r)" "quiet env (toast_sns l)"
  by (simp_all add: quiet_def effect_defs required_def getSnsNeuronIdentity_def reload_accounts_def split: option.split)

lemma quiet_outside:
  "nw_user env = Some user \<Longrightarrow> quiet env (outside_sns (SnsQueriedNeurons r c user) f)"
  "nw_user env = Some user \<Longrightarrow> quiet env (outside_sns (SnsQueriedNeuron r i user) g)"
  by (simp_all add: quiet_def outside_sns_def Let_def split: prod.split)

lemma quiet_bindE [asks_intros]:
  assumes "quiet env m" "\<And>x. quiet env (f x)"
  shows "quiet env (bindE m f)"
  unfolding quiet_def
proof
  fix s
  obtain r t where m: "m s = (r, t)" by force
  obtain new where new: "sw_log t = sw_log s @ new" "sns_calls_of new = []" "list_all (query_signed env) new"
    using assms(1) [unfolded quiet_def, rule_format, of s] by (auto simp: m)
  show "\<exists>new. sw_log (snd (bindE m f s)) = sw_log s @ new \<and> sns_calls_of new = [] \<and> list_all (query_signed env) new"
  proof (cases r)
    case (Inr x)
    obtain more where "sw_log (snd (f x t)) = sw_log t @ more" "sns_calls_of more = []" "list_all (query_signed env) more"
      using assms(2) [of x, unfolded quiet_def, rule_format, of t] by blast
    then show ?thesis using new by (intro exI [of _ "new @ more"]) (simp add: bindE_def m Inr)
  qed (use new in \<open>simp add: bindE_def m\<close>)
qed

lemma quiet_thenE [asks_intros]: "quiet env m \<Longrightarrow> quiet env n \<Longrightarrow> quiet env (thenE m n)"
  unfolding thenE_def by (rule quiet_bindE)

lemma asks_bindE:
  assumes "quiet env m" "yields (\<lambda>_. True) m Q" "\<And>x. Q x \<Longrightarrow> asks env P (f x)"
  shows "asks env P (bindE m f)"
  unfolding asks_def
proof
  fix s
  obtain r t where m: "m s = (r, t)" by force
  obtain new where new: "sw_log t = sw_log s @ new" "sns_calls_of new = []" "list_all (query_signed env) new"
    using assms(1) [unfolded quiet_def, rule_format, of s] by (auto simp: m)
  show "\<exists>new. sw_log (snd (bindE m f s)) = sw_log s @ new \<and> list_all (query_signed env) new \<and>
     (sns_calls_of new = [] \<and> fst (bindE m f s) \<noteq> Inr True \<or>
      (\<exists>user c. sns_calls_of new = [(c, user)] \<and> nw_user env = Some user \<and> P user c))"
  proof (cases r)
    case (Inr x)
    have "Q x" using assms(2) m Inr by (auto simp: yields_def)
    from assms(3) [OF this, unfolded asks_def, rule_format, of t] obtain more where
      "sw_log (snd (f x t)) = sw_log t @ more" "list_all (query_signed env) more"
      "sns_calls_of more = [] \<and> fst (f x t) \<noteq> Inr True \<or>
        (\<exists>user c. sns_calls_of more = [(c, user)] \<and> nw_user env = Some user \<and> P user c)"
      by blast
    then show ?thesis using new by (intro exI [of _ "new @ more"]) (simp add: bindE_def m Inr)
  qed (use new in \<open>simp add: bindE_def m\<close>)
qed

lemma yields_any: "yields P m (\<lambda>_. True)"
  by (simp add: yields_def)

lemma asks_thenE: "quiet env m \<Longrightarrow> asks env P n \<Longrightarrow> asks env P (thenE m n)"
  unfolding thenE_def by (rule asks_bindE [OF _ yields_any])

lemma asks_call:
  fixes env :: "'w sns_env"
  assumes "nw_user env = Some user" "P user c" "quiet env n"
  shows "asks env P (thenE (sns_call env c user) n)"
  unfolding asks_def
proof
  fix s :: "'w sns_state"
  obtain r w where call: "nw_call env c user (sw_world s) = (r, w)" by force
  define t where "t = note_sns (SnsCalled c user) (s\<lparr>sw_world := w\<rparr>)"
  obtain more where more: "sw_log (snd (n t)) = sw_log t @ more" "sns_calls_of more = []" "list_all (query_signed env) more"
    using assms(3) [unfolded quiet_def, rule_format, of t] by blast
  have run: "thenE (sns_call env c user) n s = (case r of Inl e \<Rightarrow> (Inl e, t) | Inr _ \<Rightarrow> n t)"
    by (simp add: thenE_def bindE_def outside_sns_def call t_def Let_def split: sum.split)
  show "\<exists>new. sw_log (snd (thenE (sns_call env c user) n s)) = sw_log s @ new \<and> list_all (query_signed env) new \<and>
     (sns_calls_of new = [] \<and> fst (thenE (sns_call env c user) n s) \<noteq> Inr True \<or>
      (\<exists>user c. sns_calls_of new = [(c, user)] \<and> nw_user env = Some user \<and> P user c))"
    using assms(1,2) more
    by (intro exI [of _ "SnsCalled c user # (case r of Inl e \<Rightarrow> [] | Inr _ \<Rightarrow> more)"]) (cases r; simp add: run t_def)
qed

lemma asks_none [asks_intros]: "asks env P (throwE e)" "asks env P (thenE (toast_sns l) (returnE False))"
  by (simp_all add: asks_def effect_defs)

lemma asks_if [asks_intros]: "(b \<Longrightarrow> asks env P m) \<Longrightarrow> (\<not> b \<Longrightarrow> asks env P n) \<Longrightarrow> asks env P (if b then m else n)"
  by simp

lemma asks_orToast [asks_intros]:
  assumes "asks env P m"
  shows "asks env P (orToast l m)"
  unfolding asks_def
proof
  fix s
  obtain r t where m: "m s = (r, t)" by force
  obtain new where new: "sw_log t = sw_log s @ new" "list_all (query_signed env) new"
      "sns_calls_of new = [] \<and> r \<noteq> Inr True \<or> (\<exists>user c. sns_calls_of new = [(c, user)] \<and> nw_user env = Some user \<and> P user c)"
    using assms [unfolded asks_def, rule_format, of s] by (auto simp: m)
  define toast where "toast = (case r of Inl e \<Rightarrow> if e = SnsPending then [] else [SnsToast (l e)] | Inr _ \<Rightarrow> [])"
  have "sns_calls_of toast = []" "list_all (query_signed env) toast"
    by (simp_all add: toast_def split: sum.split)
  moreover have "sw_log (snd (orToast l m s)) = sw_log t @ toast" "fst (orToast l m s) = Inr True \<longleftrightarrow> r = Inr True"
    by (cases r; simp add: orToast_def catchE_def m effect_defs toast_def)+
  ultimately show "\<exists>new. sw_log (snd (orToast l m s)) = sw_log s @ new \<and> list_all (query_signed env) new \<and>
     (sns_calls_of new = [] \<and> fst (orToast l m s) \<noteq> Inr True \<or>
      (\<exists>user c. sns_calls_of new = [(c, user)] \<and> nw_user env = Some user \<and> P user c))"
    using new by (intro exI [of _ "new @ toast"]) simp
qed

lemma identity_is_user: "yields P (getSnsNeuronIdentity env) (\<lambda>u. nw_user env = Some u)"
  by (auto simp: yields_def getSnsNeuronIdentity_def returnE_def throwE_def split: option.splits)

lemma required_yields: "yields P (required x) (\<lambda>v. x = Some v)"
  by (auto simp: yields_def required_def returnE_def throwE_def split: option.splits)

lemmas with_user [asks_intros] = asks_bindE [OF quiet_basic(5) identity_is_user]
  and with_required [asks_intros] = asks_bindE [OF quiet_basic(4) required_yields]

lemma quiet_loadSnsNeurons: "quiet env (loadSnsNeurons env r c)"
proof (cases "nw_user env")
  case None
  then show ?thesis by (simp add: loadSnsNeurons_def getSnsNeuronIdentity_def quiet_def effect_defs)
next
  case (Some user)
  have "quiet env (updateE (\<lambda>s. s\<lparr>sw_store := g s\<rparr>))" for g by (simp add: quiet_def updateE_def)
  with Some show ?thesis
    by (auto simp: loadSnsNeurons_def getSnsNeuronIdentity_def bindE_simps intro!: quiet_bindE quiet_outside)
qed

lemma quiet_query [asks_intros]: "nw_user env = Some user \<Longrightarrow> quiet env (outside_sns (SnsQueriedNeuron r i user) g)"
  by (rule quiet_outside)

lemma asks_after [asks_intros]:
  "quiet env m \<Longrightarrow> (\<And>x. asks env P (f x)) \<Longrightarrow> asks env P (bindE m f)"
  by (rule asks_bindE [OF _ yields_any])

lemma asks_one_call:
  "(\<And>u. nw_user env = Some u \<Longrightarrow> P u c) \<Longrightarrow> asks env P (one_call env l c)"
  unfolding one_call_def by (intro asks_orToast with_user asks_call quiet_basic)

lemma nextMemo_loop_bounded:
  "nextMemo_loop sub c ns is = Inr m \<Longrightarrow> \<exists>i\<in>set is. m = int i"
  by (induction "is") (auto split: if_splits)

lemma nextMemo_bounded: "nextMemo sub c ns = Inr m \<Longrightarrow> 0 \<le> m \<and> m < 65536"
  unfolding nextMemo_def MAX_NEURONS_SUBACCOUNTS_def by (drule nextMemo_loop_bounded) auto

lemma asks_split: "asks env (\<lambda>user. requested env user (SnsOpSplit r i amount m)) (splitNeuron_sns env r i amount m)"
proof -
  let ?P = "\<lambda>user. requested env user (SnsOpSplit r i amount m)"
  have memo: "asks env ?P (case nextMemo (nw_neuronSubaccount env) user ns of
      Inl _ \<Rightarrow> throwE (SnsThrown None)
    | Inr memo \<Rightarrow> thenE (sns_call env (SnsSplit r i (e8s + fee) memo) user) (returnE True))"
    if "nw_user env = Some user" "nw_fees env r = Some fee" "nw_numberToE8s env amount = Some e8s"
      "isEnoughAmountToSplit (e8s + fee) fee m" for user ns fee e8s
    using that nextMemo_bounded [of "nw_neuronSubaccount env" user ns]
    by (auto simp: isEnoughAmountToSplit_def split: sum.split intro!: asks_none asks_call quiet_basic)
  show ?thesis
    unfolding splitNeuron_sns_def Let_def
    by (intro asks_orToast with_required asks_if asks_none with_user asks_thenE quiet_loadSnsNeurons
        asks_after [OF quiet_basic(3)] memo) simp_all
qed

lemma asks_stake: "asks env (\<lambda>user. requested env user (SnsOpStake r amount acc)) (stakeNeuron_sns env r amount acc)"
proof -
  let ?P = "\<lambda>user. requested env user (SnsOpStake r amount acc)"
  have stake: "asks env ?P (case nw_fees env r of
      None \<Rightarrow> throwE (SnsThrown (Some msg))
    | Some fee \<Rightarrow> bindE (required (nw_decode env acc)) (\<lambda>source.
        thenE (sns_call env (SnsStake r user e8s source fee) user)
          (thenE (reload_accounts env r) (thenE (loadSnsNeurons env r True) (returnE True)))))"
    if "nw_user env = Some user" "nw_numberToE8s env amount = Some e8s" "nw_minimumStakes env r = Some m" "\<not> e8s < m" for user m e8s msg
    using that
    by (auto split: option.split intro!: asks_none with_required asks_call quiet_thenE quiet_basic quiet_loadSnsNeurons)
  show ?thesis
    unfolding stakeNeuron_sns_def by (intro asks_orToast with_user with_required asks_if asks_none stake)
qed

lemma found_in_image: "List.find (\<lambda>i. f i = x) xs = None \<longleftrightarrow> x \<notin> f ` set xs"
  by (auto simp: find_None_iff image_iff)

lemma asks_followees:
  "asks env (\<lambda>user. requested env user (SnsOpAddFollowee n f h r)) (addFollowee_sns env n f h r)"
  "asks env (\<lambda>user. requested env user (SnsOpRemoveFollowee n f i r)) (removeFollowee_sns env n f i r)"
  unfolding addFollowee_sns_def removeFollowee_sns_def Let_def found_in_image not_not
  by (intro with_user asks_if asks_orToast asks_after [OF quiet_query] asks_none asks_call quiet_basic; simp)+

lemma asks_updateDelay:
  "asks env (\<lambda>user. requested env user (SnsOpUpdateDelay now r n d)) (updateDelay_sns env now r n d)"
  unfolding updateDelay_sns_def
  by (intro asks_orToast with_user with_required asks_call quiet_basic)
    (auto simp: existingDissolveDelay_def nullish_or_def nullish_alt_def split: option.splits)

lemma asks_disburseMaturity:
  "asks env (\<lambda>user. requested env user (SnsOpDisburseMaturity i r p acc)) (disburseMaturity env i r p acc)"
proof (cases acc)
  case None
  then show ?thesis
    unfolding disburseMaturity_def by (auto intro!: asks_orToast with_user asks_call quiet_basic)
next
  case (Some a)
  have "asks env (\<lambda>user. requested env user (SnsOpDisburseMaturity i r p (Some a)))
    (thenE (sns_call env (SnsDisburseMaturity r i p d) user) (returnE True))"
    if "nw_user env = Some user" "\<exists>x. nw_decode env a = Some x \<and> d = Some x" for user d
    using that by (auto intro!: asks_call quiet_basic)
  moreover have "yields (\<lambda>_. True) (bindE (required (nw_decode env a)) (\<lambda>d. returnE (Some d)))
      (\<lambda>d. \<exists>x. nw_decode env a = Some x \<and> d = Some x)"
    by (auto simp: yields_def required_def returnE_def throwE_def bindE_def split: option.splits)
  ultimately show ?thesis
    unfolding disburseMaturity_def Some option.case
    by (intro asks_orToast with_user asks_bindE [OF quiet_bindE [OF quiet_basic(4) quiet_basic(1)]])
qed

lemma asks_run_sns_op: "asks env (\<lambda>user. requested env user op) (run_sns_op env op)"
proof (cases op)
  case (SnsOpIncreaseStake r a acc i)
  then show ?thesis
    unfolding SnsOpIncreaseStake run_sns_op.simps increaseStakeNeuron_def
    by (intro asks_orToast with_user with_required asks_call quiet_thenE quiet_basic) simp_all
next
  case (SnsOpAddHotkey i h r)
  then show ?thesis
    unfolding SnsOpAddHotkey run_sns_op.simps addHotkey_sns_def
    by (intro asks_orToast with_user asks_call quiet_basic) (simp_all add: HOTKEY_PERMISSIONS_def)
next
  case (SnsOpRemoveHotkey i h r)
  then show ?thesis
    unfolding SnsOpRemoveHotkey run_sns_op.simps removeHotkey_sns_def
    by (intro asks_orToast with_user asks_if asks_none asks_call quiet_basic) (simp_all add: HOTKEY_PERMISSIONS_def)
qed (simp_all only: run_sns_op.simps asks_split asks_stake asks_followees asks_updateDelay asks_disburseMaturity,
    unfold disburse_sns_def startDissolving_sns_def stopDissolving_sns_def stakeMaturity_sns_def toggleAutoStakeMaturity_sns_def,
    (intro asks_one_call, simp)+)

subsection \<open>Every failure is shown once\<close>

definition toasts_of :: "'w sns_state \<Rightarrow> nat" where
  "toasts_of s = length (filter (\<lambda>e. case e of SnsToast l \<Rightarrow> True | _ \<Rightarrow> False) (sw_log s))"

definition silent :: "('w, 'a) sns \<Rightarrow> bool" where
  "silent m \<longleftrightarrow> (\<forall>s. toasts_of (snd (m s)) = toasts_of s)"

text \<open>One toast more exactly when the result is no success.\<close>

definition reports :: "('w, bool) sns \<Rightarrow> bool" where
  "reports m \<longleftrightarrow> (\<forall>s. toasts_of (snd (m s)) = toasts_of s + (if fst (m s) = Inr False then 1 else 0))"

lemma toasts_of_note [simp]:
  "toasts_of (note_sns e s) = toasts_of s + (case e of SnsToast l \<Rightarrow> 1 | _ \<Rightarrow> 0)"
  "toasts_of (s\<lparr>sw_world := w\<rparr>) = toasts_of s" "toasts_of (s\<lparr>sw_store := st\<rparr>) = toasts_of s"
  by (simp_all add: toasts_of_def split: sns_service_event.split)

lemma silent_basic:
  "silent (returnE x)" "silent (throwE e)" "silent (getE g)" "silent (required v)" "silent (getSnsNeuronIdentity env)"
  "silent (reload_accounts env r)" "silent (sns_call env c u)"
  "silent (outside_sns (SnsQueriedNeurons r b u) f)" "silent (outside_sns (SnsQueriedNeuron r i u) g')"
  by (simp_all add: silent_def effect_defs required_def getSnsNeuronIdentity_def reload_accounts_def outside_sns_def Let_def
      split: option.split prod.split)

lemma silent_bindE:
  assumes "silent m" "\<And>x. silent (f x)"
  shows "silent (bindE m f)"
  unfolding silent_def
proof
  fix s
  obtain r t where m: "m s = (r, t)" by force
  have "toasts_of t = toasts_of s" using assms(1) m by (auto simp: silent_def dest: spec [of _ s])
  with assms(2) show "toasts_of (snd (bindE m f s)) = toasts_of s"
    by (cases r) (simp_all add: bindE_def m silent_def)
qed

lemma silent_loadSnsNeurons: "silent (loadSnsNeurons env r c)"
  unfolding loadSnsNeurons_def
  by (intro silent_bindE silent_basic) (simp add: silent_def updateE_def)

lemma reports_basic: "reports (returnE True)" "reports (throwE e)" "reports (thenE (toast_sns l) (returnE False))"
  by (simp_all add: reports_def effect_defs)

lemma reports_bindE:
  assumes "silent m" "\<And>x. reports (f x)"
  shows "reports (bindE m f)"
  unfolding reports_def
proof
  fix s
  obtain r t where m: "m s = (r, t)" by force
  have "toasts_of t = toasts_of s" using assms(1) m by (auto simp: silent_def dest: spec [of _ s])
  with assms(2) show "toasts_of (snd (bindE m f s)) = toasts_of s + (if fst (bindE m f s) = Inr False then 1 else 0)"
    by (cases r) (simp_all add: bindE_def m reports_def)
qed

lemma reports_thenE: "silent m \<Longrightarrow> reports n \<Longrightarrow> reports (thenE m n)"
  unfolding thenE_def by (rule reports_bindE)

lemma reports_if: "reports m \<Longrightarrow> reports n \<Longrightarrow> reports (if b then m else n)"
  by simp

lemma reports_case:
  "reports m \<Longrightarrow> (\<And>x. reports (f x)) \<Longrightarrow> reports (case v of None \<Rightarrow> m | Some x \<Rightarrow> f x)"
  "(\<And>e. reports (g e)) \<Longrightarrow> (\<And>x. reports (h x)) \<Longrightarrow> reports (case w of Inl e \<Rightarrow> g e | Inr x \<Rightarrow> h x)"
  by (simp_all split: option.split sum.split)

lemma reports_orToast:
  assumes "reports m"
  shows "reports (orToast f m)"
  unfolding reports_def
proof
  fix s
  obtain r t where m: "m s = (r, t)" by force
  have "toasts_of t = toasts_of s + (if r = Inr False then 1 else 0)"
    using assms m by (auto simp: reports_def dest: spec [of _ s])
  then show "toasts_of (snd (orToast f m s)) = toasts_of s + (if fst (orToast f m s) = Inr False then 1 else 0)"
    by (cases r) (auto simp: orToast_def catchE_def m effect_defs)
qed

lemmas report_intros = reports_orToast reports_bindE reports_thenE reports_if reports_case reports_basic silent_basic
  silent_bindE silent_loadSnsNeurons

lemma reports_run_sns_op: "reports (run_sns_op env op)"
proof (cases op)
  case (SnsOpDisburseMaturity i r p a)
  have "silent (case a of None \<Rightarrow> returnE None | Some a \<Rightarrow> bindE (required (nw_decode env a)) (\<lambda>d. returnE (Some d)))"
    by (cases a) (auto intro!: silent_bindE silent_basic)
  then show ?thesis
    unfolding SnsOpDisburseMaturity run_sns_op.simps disburseMaturity_def by (intro report_intros)
qed (simp only: run_sns_op.simps addHotkey_sns_def removeHotkey_sns_def splitNeuron_sns_def disburse_sns_def
    startDissolving_sns_def stopDissolving_sns_def one_call_def updateDelay_sns_def increaseStakeNeuron_def stakeNeuron_sns_def
    addFollowee_sns_def removeFollowee_sns_def stakeMaturity_sns_def toggleAutoStakeMaturity_sns_def Let_def,
    intro report_intros)+

lemma throws_orToast: "throws_only {SnsPending} (orToast f m)"
  unfolding orToast_def
  by (rule throws_catchE) (auto simp: throws_only_def effect_defs split: if_splits)

lemma throws_identity: "throws_only {SnsPending} (getSnsNeuronIdentity env)"
  by (simp add: throws_only_def getSnsNeuronIdentity_def effect_defs split: option.split)

lemma throws_run_sns_op: "throws_only {SnsPending} (run_sns_op env op)"
  by (cases op)
    (simp_all only: run_sns_op.simps addHotkey_sns_def removeHotkey_sns_def splitNeuron_sns_def disburse_sns_def
      startDissolving_sns_def stopDissolving_sns_def one_call_def updateDelay_sns_def increaseStakeNeuron_def stakeNeuron_sns_def
      addFollowee_sns_def removeFollowee_sns_def stakeMaturity_sns_def toggleAutoStakeMaturity_sns_def disburseMaturity_def Let_def
      throws_orToast, (intro throws_bindE throws_identity throws_if throws_orToast throws_thenE throws_basic)+)

subsection \<open>The properties\<close>

text \<open>
  C40: An operation on SNS neurons, in whatever state it starts and however the canisters answer, makes at most one call that
  changes something, and with success exactly one.  It is signed by the user of the session, as every query is, and asks
  for what the operation says, to the last argument: stakes of at least the project's minimum in the user's name with
  the project's fee, top-ups of the amount entered, splits of the amount and the fee under a memo in range, delays increased
  by what is missing, the followees with the one added or removed, hot keys with the permissions of hot keys.
\<close>

theorem sns_calls_well_formed:
  "\<exists>new. sw_log (snd (run_sns_op env op s)) = sw_log s @ new \<and> list_all (query_signed env) new \<and>
     (sns_calls_of new = [] \<and> fst (run_sns_op env op s) \<noteq> Inr True \<or>
      (\<exists>user c. sns_calls_of new = [(c, user)] \<and> nw_user env = Some user \<and> requested env user op c))"
  using asks_run_sns_op [of env op] by (simp add: asks_def)

text \<open>
  no operation on SNS neurons rejects its promise: it returns whether it succeeded, with exactly one toast more
  when it did not and none when it did, unless its promise never settles.
\<close>

lemma sns_operations_report:
  "case run_sns_op env op s of
     (Inl e, t) \<Rightarrow> e = SnsPending \<and> toasts_of t = toasts_of s
   | (Inr success, t) \<Rightarrow> toasts_of t = toasts_of s + (if success then 0 else 1)"
proof -
  obtain r t where run: "run_sns_op env op s = (r, t)" by force
  have "toasts_of t = toasts_of s + (if r = Inr False then 1 else 0)"
    using reports_run_sns_op [of env op] run by (auto simp: reports_def dest: spec [of _ s])
  moreover have "r = Inl e \<Longrightarrow> e = SnsPending" for e
    using throws_run_sns_op [of env op] run by (auto simp: throws_only_def)
  ultimately show ?thesis by (cases r) (auto simp: run)
qed

text \<open>
  a split of an SNS neuron first reloads the user's neurons with a certified call, and, when fewer than all of
  the 65536 subaccounts are taken, asks for the amount and the fee under a memo whose subaccount is the id of none of
  the neurons in the response.
\<close>

lemma split_memo_is_free:
  assumes "nw_user env = Some user" "nw_token env = Some token" "nw_fees env r = Some fee" "nw_numberToE8s env amount = Some e8s"
    and "neuronMinimumStake \<le> e8s"
    and "nw_neurons env r True user (sw_world s) = (Inr ns, w)" "length ns < 65536"
    and "inj_on (nw_neuronSubaccount env user) {..<65536}" "\<forall>i. \<forall>b\<in>set (nw_neuronSubaccount env user i). b < 256"
  shows "\<exists>memo log. sw_log (snd (splitNeuron_sns env r neuronId amount neuronMinimumStake s)) =
      sw_log s @ [SnsQueriedNeurons r True user, SnsCalled (SnsSplit r neuronId (e8s + fee) (int memo)) user] @ log \<and>
    subaccountToHexString (nw_neuronSubaccount env user memo) \<notin> getSnsNeuronIdAsHexString ` set ns"
proof -
  obtain memo where memo: "nextMemo (nw_neuronSubaccount env) user ns = Inr (int memo)"
      "subaccountToHexString (nw_neuronSubaccount env user memo) \<notin> getSnsNeuronIdAsHexString ` set ns"
    using nextMemo_correct [where sub = "nw_neuronSubaccount env" and c = user and neurons = ns, OF assms(8,9,7)]
    by (auto simp: subaccountToHexString_def)
  define t where "t = note_sns (SnsQueriedNeurons r True user)
    (s\<lparr>sw_world := w, sw_store := setNeurons_sns r ns (Some True) (sw_store s)\<rparr>)"
  have load: "loadSnsNeurons env r True s = (Inr (), t)"
    by (simp add: loadSnsNeurons_def getSnsNeuronIdentity_def assms(1,6) outside_sns_def bindE_def updateE_def t_def note_sns_def)
  obtain o' w' where call: "nw_call env (SnsSplit r neuronId (e8s + fee) (int memo)) user (sw_world t) = (o', w')" by force
  have store: "sw_store t r = Some \<lparr>pn_neurons = ns, pn_certified = Some True\<rparr>"
    by (simp add: t_def setNeurons_sns_def)
  have enough: "isEnoughAmountToSplit (e8s + fee) fee neuronMinimumStake"
    using assms(5) by (simp add: isEnoughAmountToSplit_def)
  define body where "body = thenE (loadSnsNeurons env r True)
    (bindE (getE (\<lambda>s. sw_store s r)) (\<lambda>project.
       bindE (required project) (\<lambda>p.
         case nextMemo (nw_neuronSubaccount env) user (pn_neurons p) of
           Inl _ \<Rightarrow> throwE (SnsThrown None)
         | Inr memo \<Rightarrow> thenE (sns_call env (SnsSplit r neuronId (e8s + fee) memo) user) (returnE True))))"
  have split: "splitNeuron_sns env r neuronId amount neuronMinimumStake = orToast (\<lambda>_. ''error__sns.sns_split_neuron'') body"
    by (simp add: splitNeuron_sns_def required_def getSnsNeuronIdentity_def assms(1-4) enough body_def Let_def)
  have run: "body s = (case o' of Inl e \<Rightarrow> Inl e | Inr _ \<Rightarrow> Inr True,
      note_sns (SnsCalled (SnsSplit r neuronId (e8s + fee) (int memo)) user) (t\<lparr>sw_world := w'\<rparr>))"
    by (simp add: body_def thenE_def bindE_def load store required_def getE_def returnE_def memo(1) outside_sns_def call
        split: sum.split)
  have log: "sw_log t = sw_log s @ [SnsQueriedNeurons r True user]" by (simp add: t_def)
  show ?thesis
  proof (intro exI conjI)
    show "sw_log (snd (splitNeuron_sns env r neuronId amount neuronMinimumStake s)) =
      sw_log s @ [SnsQueriedNeurons r True user, SnsCalled (SnsSplit r neuronId (e8s + fee) (int memo)) user] @
      (case o' of Inl e \<Rightarrow> if e = SnsPending then [] else [SnsToast ''error__sns.sns_split_neuron''] | Inr _ \<Rightarrow> [])"
      by (cases o') (auto simp: split orToast_def catchE_def run log effect_defs)
  qed (rule memo(2))
qed

definition example_sns_env :: "unit sns_env" where
  "example_sns_env = \<lparr>nw_user = Some ''u'', nw_call = (\<lambda>c u w. (Inr (), w)),
     nw_neurons = (\<lambda>r c u w. (Inr [plain_sns [0, 0] []], w)), nw_neuron = (\<lambda>r i u w. (Inr None, w)), nw_accounts = (\<lambda>r w. w),
     nw_token = Some ''T'', nw_fees = [''r'' \<mapsto> 10], nw_minimumStakes = [''r'' \<mapsto> 100], nw_numberToE8s = (\<lambda>_. Some 500),
     nw_decode = Some, nw_validPrincipal = (\<lambda>_. True), nw_neuronSubaccount = two_bytes, nw_translated = (\<lambda>_. False)\<rparr>"

lemma two_bytes_inj: "inj_on (two_bytes c) {..<65536}"
proof (rule inj_onI)
  fix x y :: nat
  assume "x \<in> {..<65536}" "y \<in> {..<65536}" "two_bytes c x = two_bytes c y"
  then show "x = y" by (simp add: two_bytes_def) (metis div_mult_mod_eq)
qed

definition example_sns_state :: "unit sns_state" where
  "example_sns_state = \<lparr>sw_world = (), sw_store = Map.empty, sw_log = []\<rparr>"

theorem split_memo_is_free_witness:
  "\<exists>memo log. sw_log (snd (splitNeuron_sns example_sns_env ''r'' [0, 0] 1 100 example_sns_state)) =
      [SnsQueriedNeurons ''r'' True ''u'', SnsCalled (SnsSplit ''r'' [0, 0] 510 (int memo)) ''u''] @ log"
proof -
  have "\<exists>memo log. sw_log (snd (splitNeuron_sns example_sns_env ''r'' [0, 0] 1 100 example_sns_state)) =
      sw_log example_sns_state @ [SnsQueriedNeurons ''r'' True ''u'', SnsCalled (SnsSplit ''r'' [0, 0] (500 + 10) (int memo)) ''u''] @ log \<and>
    subaccountToHexString (nw_neuronSubaccount example_sns_env ''u'' memo) \<notin> getSnsNeuronIdAsHexString ` set [plain_sns [0, 0] []]"
    by (rule split_memo_is_free) (simp_all add: example_sns_env_def two_bytes_inj, simp_all add: two_bytes_def)
  then show ?thesis by (auto simp: example_sns_state_def)
qed

text \<open>
  when the neuron was staked and the list of neurons then fails to load, the stake is reported as failed: the
  result is no success and the toast is that of a failed stake, although the tokens are gone.
\<close>

lemma stake_reported_failed:
  assumes "nw_user env = Some user" "nw_numberToE8s env amount = Some e8s" "nw_minimumStakes env r = Some m" "m \<le> e8s"
    and "nw_fees env r = Some fee" "nw_decode env acc = Some source"
    and "nw_call env (SnsStake r user e8s source fee) user (sw_world s) = (Inr (), w)"
    and "nw_neurons env r True user (nw_accounts env r w) = (Inl e, w')" "e \<noteq> SnsPending"
  shows "fst (stakeNeuron_sns env r amount acc s) = Inr False \<and>
    SnsCalled (SnsStake r user e8s source fee) user \<in> set (sw_log (snd (stakeNeuron_sns env r amount acc s)))"
proof -
  let ?l = "ledgerErrorToToastError (nw_translated env) e ''error__sns.sns_stake''"
  have "stakeNeuron_sns env r amount acc s = (Inr False, note_sns (SnsToast ?l) (note_sns (SnsQueriedNeurons r True user)
     ((note_sns (SnsReloadedAccounts r) (note_sns (SnsCalled (SnsStake r user e8s source fee) user) (s\<lparr>sw_world := w\<rparr>)))
        \<lparr>sw_world := w'\<rparr>)))"
    using assms by (simp add: stakeNeuron_sns_def orToast_def catchE_def getSnsNeuronIdentity_def required_def bindE_def thenE_def
        returnE_def throwE_def outside_sns_def reload_accounts_def updateE_def loadSnsNeurons_def note_sns_def)
  then show ?thesis by simp
qed

theorem stake_reported_failed_witness:
  "fst (stakeNeuron_sns (example_sns_env\<lparr>nw_neurons := \<lambda>r c u w. (Inl (SnsThrown None), w)\<rparr>) ''r'' 5 ''a'' example_sns_state) = Inr False"
proof -
  let ?env = "example_sns_env\<lparr>nw_neurons := \<lambda>r c u w. (Inl (SnsThrown None), w)\<rparr>"
  have "fst (stakeNeuron_sns ?env ''r'' 5 ''a'' example_sns_state) = Inr False \<and>
    SnsCalled (SnsStake ''r'' ''u'' 500 (the (nw_decode ?env ''a'')) 10) ''u'' \<in> set (sw_log (snd (stakeNeuron_sns ?env ''r'' 5 ''a'' example_sns_state)))"
    by (rule stake_reported_failed [where m = 100 and e = "SnsThrown None"]) (simp_all add: example_sns_env_def)
  then show ?thesis by simp
qed

end
