(* ===== verification/SnsVoteRegistration.thy ===== *)
theory SnsVoteRegistration
  imports VoteRegistration SnsProposals
begin

text \<open>
  Voting with the neurons of an SNS: frontend/src/lib/services/sns-vote-registration.services.ts, over the life of
  a vote in services/vote-registration.services.ts.  The calls settle in the order of a list of positions with
  the time in milliseconds at which each does; what the page and the stores are told is part of the state.
\<close>

definition SNS_NEURON_ID_DISPLAY_LENGTH :: nat where
  "SNS_NEURON_ID_DISPLAY_LENGTH = 14"

text \<open>
  Beside the registrations and the toasts: the calls made, by signer, neuron, proposal and vote; the proposals
  given to updateProposalCallback; the store of proposals; the universes whose actionable proposals are reloaded.
\<close>

record sns_vote_state = vote_state +
  sv_calls :: "(string \<times> nat list \<times> string \<times> Vote) list"
  sv_contexts :: "SnsProposalData list"
  sv_store :: SnsProposalsStoreData
  sv_reloaded :: "string list"

subsection \<open>The optimistic proposal\<close>

text \<open>Math.round of the seconds, for a time in milliseconds.\<close>

definition rounded_seconds :: "int \<Rightarrow> int" where
  "rounded_seconds now = (now + 500) div 1000"

definition optimistic_ballot :: "int \<Rightarrow> SnsProposalData \<Rightarrow> Vote \<Rightarrow> SnsNeuron \<Rightarrow> string \<times> SnsBallot" where
  "optimistic_ballot now proposal vote neuron =
     (getSnsNeuronIdAsHexString neuron,
      \<lparr>sb_vote = vote, sb_cast_timestamp_seconds = rounded_seconds now,
       sb_voting_power = ballotVotingPower proposal neuron\<rparr>)"

definition proposalAfterVote :: "int \<Rightarrow> SnsProposalData \<Rightarrow> SnsNeuron list \<Rightarrow> Vote \<Rightarrow> SnsProposalData" where
  "proposalAfterVote now proposal neurons vote =
     (let optimisticBallots = map (optimistic_ballot now proposal vote) neurons;
          votedNeuronsIds = set (map getSnsNeuronIdAsHexString neurons)
      in proposal\<lparr>sd_ballots := filter (\<lambda>(id, _). id \<notin> votedNeuronsIds) (sd_ballots proposal) @ optimisticBallots\<rparr>)"

subsection \<open>One neuron\<close>

text \<open>
  snsNeuronRegistrationComplete is not awaited: an error it throws leaves what it did so far and is lost.
\<close>

definition snsNeuronRegistrationComplete ::
  "string \<Rightarrow> SnsNeuron \<Rightarrow> string \<Rightarrow> nat \<Rightarrow> 'w vote_state_scheme \<Rightarrow> 'w vote_state_scheme" where
  "snsNeuronRegistrationComplete universeCanisterId neuron proposalIdString toastId s =
     (case voteRegistrationByProposal universeCanisterId proposalIdString s of
        Inl _ \<Rightarrow> s
      | Inr entry \<Rightarrow>
         (case lift_store (addSuccessfullyVotedNeuronId proposalIdString (getSnsNeuronIdAsHexString neuron) universeCanisterId) s of
            (Completed, s1) \<Rightarrow>
              (case voteRegistrationByProposal universeCanisterId proposalIdString s1 of
                 Inl _ \<Rightarrow> s1
               | Inr entry1 \<Rightarrow> updateVoteRegistrationToastMessage toastId proposalIdString
                   (vr_neuronIdStrings entry) (vr_successfullyVotedNeuronIdStrings entry1) False (vr_vote entry) s1)
          | (_, s1) \<Rightarrow> s1))"

text \<open>A neuron that has already voted counts as voted.\<close>

definition vote_accepted :: "settled \<Rightarrow> bool" where
  "vote_accepted response \<longleftrightarrow> response = Fulfilled \<or> isAlreadyVotedError response"

text \<open>
  The calls settle one after the other: successfulVotedNeurons collects the neurons that voted and the page is shown
  the proposal with their ballots.
\<close>

fun settle_sns_votes ::
  "string \<Rightarrow> SnsProposalData \<Rightarrow> string \<Rightarrow> Vote \<Rightarrow> nat \<Rightarrow> (SnsNeuron \<Rightarrow> settled) \<Rightarrow> SnsNeuron list \<Rightarrow> (nat \<times> int) list
     \<Rightarrow> SnsNeuron list \<Rightarrow> settled list \<Rightarrow> sns_vote_state \<Rightarrow> settled list \<times> sns_vote_state" where
  "settle_sns_votes u proposal p vote toastId response_of neurons [] successful responses s = (responses, s)"
| "settle_sns_votes u proposal p vote toastId response_of neurons ((i, now) # arrivals) successful responses s =
     (if vote_accepted (response_of (neurons ! i))
      then let successful' = successful @ [neurons ! i];
               s1 = snsNeuronRegistrationComplete u (neurons ! i) p toastId s
           in settle_sns_votes u proposal p vote toastId response_of neurons arrivals successful' (responses[i := Fulfilled])
                (s1\<lparr>sv_contexts := sv_contexts s1 @ [proposalAfterVote now proposal successful' vote]\<rparr>)
      else settle_sns_votes u proposal p vote toastId response_of neurons arrivals successful
             (responses[i := response_of (neurons ! i)]) s)"

subsection \<open>registerSnsNeuronsVote\<close>

definition vote_call :: "string \<Rightarrow> string \<Rightarrow> Vote \<Rightarrow> SnsNeuron \<Rightarrow> string \<times> nat list \<times> string \<times> Vote" where
  "vote_call identity proposalId vote neuron = (identity, the (sn_id neuron), proposalId, vote)"

text \<open>
  Without a user getSnsNeuronIdentity never resolves.  A neuron without an id makes the list of calls fail: the calls
  for the neurons before it are made, and left to themselves.
\<close>

definition registerSnsNeuronsVote ::
  "string option \<Rightarrow> string \<Rightarrow> (SnsNeuron \<Rightarrow> settled) \<Rightarrow> (nat \<times> int) list \<Rightarrow> SnsNeuron list \<Rightarrow> SnsProposalData \<Rightarrow> string \<Rightarrow> Vote
     \<Rightarrow> nat \<Rightarrow> sns_vote_state \<Rightarrow> action_result \<times> sns_vote_state" where
  "registerSnsNeuronsVote user universeCanisterId response_of arrivals neurons proposal proposalIdString vote toastId s =
     (case user of
        None \<Rightarrow> (Pending, s)
      | Some identity \<Rightarrow>
          let called = takeWhile (\<lambda>neuron. sn_id neuron \<noteq> None) neurons;
              s0 = s\<lparr>sv_calls := sv_calls s @ map (vote_call identity proposalIdString vote) called\<rparr>
          in if length called < length neurons
             then (Completed, snd (toastsShow (RegisterVoteUnknown (RegisterCallFailed [])) s0))
             else (case settle_sns_votes universeCanisterId proposal proposalIdString vote toastId response_of neurons
                       arrivals [] (replicate (length neurons) Fulfilled) s0 of
                     (registerVoteResponses, s1) \<Rightarrow>
                       (Completed, processRegisterVoteErrors registerVoteResponses
                          (map (\<lambda>neuron. shortenWithMiddleEllipsis (getSnsNeuronIdAsHexString neuron) SNS_NEURON_ID_DISPLAY_LENGTH) neurons)
                          proposalIdString s1)))"

subsection \<open>registerSnsVotes\<close>

text \<open>The text of every object that is no primitive, which String gives for a neuron.\<close>

definition string_of_object :: string where
  "string_of_object = ''[object Object]''"

definition postRegistration_sns ::
  "string \<Rightarrow> int \<Rightarrow> SnsProposalData \<Rightarrow> SnsNeuron list \<Rightarrow> Vote \<Rightarrow> sns_vote_state \<Rightarrow> action_result \<times> sns_vote_state" where
  "postRegistration_sns universeCanisterId now proposal neurons vote s =
     (Completed, s\<lparr>sv_store := addProposals_sns universeCanisterId [proposalAfterVote now proposal neurons vote] (Some False) True (sv_store s),
                   sv_reloaded := sv_reloaded s @ [universeCanisterId]\<rparr>)"

text \<open>None when the promise is rejected: the proposal has no id.\<close>

definition registerSnsVotes ::
  "string option \<Rightarrow> string \<Rightarrow> (SnsNeuron \<Rightarrow> settled) \<Rightarrow> (nat \<times> int) list \<Rightarrow> int \<Rightarrow> SnsNeuron list \<Rightarrow> SnsProposalData \<Rightarrow> Vote
     \<Rightarrow> sns_vote_state \<Rightarrow> sns_vote_state option" where
  "registerSnsVotes user universeCanisterId response_of arrivals later neurons proposal vote s =
     map_option (\<lambda>proposalIdString.
       manageVotesRegistration universeCanisterId (map (\<lambda>_. string_of_object) neurons) proposalIdString vote
         (\<lambda>toastId. registerSnsNeuronsVote user universeCanisterId response_of arrivals neurons proposal proposalIdString vote toastId)
         (postRegistration_sns universeCanisterId later proposal neurons vote) s)
       (snsProposalIdString proposal)"

subsection \<open>The optimistic ballots\<close>

lemma find_ballot_filter:
  "List.find (\<lambda>(id, _). id = h) (filter (\<lambda>(id, _). id \<notin> V) bs) =
     (if h \<in> V then None else List.find (\<lambda>(id, _). id = h) bs)"
  by (induction bs) (auto simp: find_None_iff)

lemma find_optimistic:
  "List.find (\<lambda>(id, _). id = h) (map (optimistic_ballot now proposal vote) ns) =
     map_option (optimistic_ballot now proposal vote) (List.find (\<lambda>n. getSnsNeuronIdAsHexString n = h) ns)"
  by (induction ns) (auto simp: optimistic_ballot_def)

lemma find_ballot_after:
  "List.find (\<lambda>(id, _). id = h) (sd_ballots (proposalAfterVote now proposal ns vote)) =
     (case List.find (\<lambda>n. getSnsNeuronIdAsHexString n = h) ns of
        Some n \<Rightarrow> Some (optimistic_ballot now proposal vote n)
      | None \<Rightarrow> List.find (\<lambda>(id, _). id = h) (sd_ballots proposal))"
proof (cases "List.find (\<lambda>n. getSnsNeuronIdAsHexString n = h) ns")
  case None
  then have "h \<notin> getSnsNeuronIdAsHexString ` set ns" by (auto simp: find_None_iff)
  then show ?thesis
    by (simp add: proposalAfterVote_def find_append find_ballot_filter find_optimistic None split: option.split)
next
  case (Some n)
  then have "h \<in> getSnsNeuronIdAsHexString ` set ns" by (auto simp: find_Some_iff)
  then show ?thesis
    by (simp add: proposalAfterVote_def find_append find_ballot_filter find_optimistic Some)
qed

text \<open>The optimistic proposal has the vote of the neurons, and the voting power and the other votes as they were.\<close>

lemma vote_after:
  "getSnsNeuronVote n (proposalAfterVote now proposal ns vote) =
     (if getSnsNeuronIdAsHexString n \<in> getSnsNeuronIdAsHexString ` set ns then Some vote else getSnsNeuronVote n proposal)"
proof (cases "List.find (\<lambda>m. getSnsNeuronIdAsHexString m = getSnsNeuronIdAsHexString n) ns")
  case None
  then have "getSnsNeuronIdAsHexString n \<notin> getSnsNeuronIdAsHexString ` set ns" by (auto simp: find_None_iff)
  then show ?thesis by (simp add: getSnsNeuronVote_def find_ballot_after None)
next
  case (Some m)
  then have "m \<in> set ns" "getSnsNeuronIdAsHexString m = getSnsNeuronIdAsHexString n" by (auto simp: find_Some_iff)
  then have "getSnsNeuronIdAsHexString n \<in> getSnsNeuronIdAsHexString ` set ns" by (metis imageI)
  then show ?thesis by (simp add: getSnsNeuronVote_def find_ballot_after Some optimistic_ballot_def)
qed

lemma voting_power_after:
  "ballotVotingPower (proposalAfterVote now proposal ns vote) n = ballotVotingPower proposal n"
proof (cases "List.find (\<lambda>m. getSnsNeuronIdAsHexString m = getSnsNeuronIdAsHexString n) ns")
  case None
  then show ?thesis by (simp add: ballotVotingPower_def find_ballot_after)
next
  case (Some m)
  then have "getSnsNeuronIdAsHexString m = getSnsNeuronIdAsHexString n" by (auto simp: find_Some_iff)
  then show ?thesis by (simp add: ballotVotingPower_def find_ballot_after Some optimistic_ballot_def)
qed

subsection \<open>The calls settle\<close>

lemma registrationComplete_step:
  assumes "voting u m es p nids v ts tid s"
  shows "voting u m es p nids v ts tid (snsNeuronRegistrationComplete u n p tid s)"
    "vote_state.more (snsNeuronRegistrationComplete u n p tid s) = vote_state.more s"
  using assms
  by (auto simp: voting_def snsNeuronRegistrationComplete_def voteRegistrationByProposal_def
      voting_entry_def lift_store_def addSuccessfullyVotedNeuronId_def
      updateVoteRegistrationToastMessage_def toastsUpdate_def map_toast_fresh)

text \<open>The neurons that voted, with the times, in the order of the answers.\<close>

definition accepted_votes :: "(SnsNeuron \<Rightarrow> settled) \<Rightarrow> SnsNeuron list \<Rightarrow> (nat \<times> int) list \<Rightarrow> (SnsNeuron \<times> int) list" where
  "accepted_votes response_of neurons arrivals =
     filter (\<lambda>(n, _). vote_accepted (response_of n)) (map (\<lambda>(i, now). (neurons ! i, now)) arrivals)"

text \<open>What the page is shown: after each neuron that voted, the proposal with its ballot and those before.\<close>

fun shown_proposals ::
  "SnsProposalData \<Rightarrow> Vote \<Rightarrow> SnsNeuron list \<Rightarrow> (SnsNeuron \<times> int) list \<Rightarrow> SnsProposalData list" where
  "shown_proposals proposal vote ns [] = []"
| "shown_proposals proposal vote ns ((n, now) # rest) =
     proposalAfterVote now proposal (ns @ [n]) vote # shown_proposals proposal vote (ns @ [n]) rest"

definition final_response :: "(SnsNeuron \<Rightarrow> settled) \<Rightarrow> SnsNeuron \<Rightarrow> settled" where
  "final_response response_of n = (if vote_accepted (response_of n) then Fulfilled else response_of n)"

lemma more_eq_iff:
  "vote_state.more (s :: sns_vote_state) = vote_state.more t \<longleftrightarrow>
     sv_calls s = sv_calls t \<and> sv_contexts s = sv_contexts t \<and> sv_store s = sv_store t \<and> sv_reloaded s = sv_reloaded t"
  by (cases s; cases t) auto

lemma voting_contexts [simp]: "voting u m es p nids v ts tid (s\<lparr>sv_contexts := c\<rparr>) = voting u m es p nids v ts tid s"
  "voting u m es p nids v ts tid (s\<lparr>sv_calls := d\<rparr>) = voting u m es p nids v ts tid s"
  by (simp_all add: voting_def)

lemma settle_sns_votes_result:
  assumes "voting u m es p nids v ts tid s" "\<forall>a\<in>set arrivals. fst a < length responses"
  shows "\<exists>s'. settle_sns_votes u proposal p vote tid response_of neurons arrivals successful responses s =
       (map (\<lambda>i. if i \<in> fst ` set arrivals then final_response response_of (neurons ! i) else responses ! i)
          [0..<length responses], s') \<and>
     voting u m es p nids v ts tid s' \<and>
     sv_contexts s' = sv_contexts s @ shown_proposals proposal vote successful (accepted_votes response_of neurons arrivals) \<and>
     sv_calls s' = sv_calls s \<and> sv_store s' = sv_store s \<and> sv_reloaded s' = sv_reloaded s"
  using assms
proof (induction arrivals arbitrary: successful responses s)
  case Nil
  then show ?case by (auto simp: map_nth accepted_votes_def)
next
  case (Cons a arrivals)
  obtain i now where a: "a = (i, now)" by force
  let ?r = "responses[i := final_response response_of (neurons ! i)]"
  have r: "map (\<lambda>j. if j \<in> fst ` set arrivals then final_response response_of (neurons ! j) else ?r ! j) [0..<length ?r] =
      map (\<lambda>j. if j \<in> fst ` set (a # arrivals) then final_response response_of (neurons ! j) else responses ! j)
        [0..<length responses]"
    using Cons.prems(2) by (auto simp: nth_list_update a)
  have bound: "\<forall>j\<in>set arrivals. fst j < length ?r" using Cons.prems(2) by simp
  show ?case
  proof (cases "vote_accepted (response_of (neurons ! i))")
    case True
    let ?s = "snsNeuronRegistrationComplete u (neurons ! i) p tid s"
    let ?s1 = "?s\<lparr>sv_contexts := sv_contexts ?s @ [proposalAfterVote now proposal (successful @ [neurons ! i]) vote]\<rparr>"
    have "voting u m es p nids v ts tid ?s1" using registrationComplete_step(1) [OF Cons.prems(1)] by simp
    from Cons.IH [OF this bound, of "successful @ [neurons ! i]"] True
      registrationComplete_step(2) [OF Cons.prems(1), of "neurons ! i"]
    show ?thesis unfolding r by (simp add: a accepted_votes_def final_response_def Let_def more_eq_iff)
  next
    case False
    with Cons.IH [OF Cons.prems(1) bound, of successful] show ?thesis
      unfolding r by (simp add: a accepted_votes_def final_response_def)
  qed
qed

subsection \<open>The whole vote\<close>

definition short_id :: "SnsNeuron \<Rightarrow> string" where
  "short_id neuron = shortenWithMiddleEllipsis (getSnsNeuronIdAsHexString neuron) SNS_NEURON_ID_DISPLAY_LENGTH"

lemma registerSnsNeuronsVote_result:
  assumes v: "voting u m es p nids v ts tid s"
    and a: "fst ` set arrivals = {..<length neurons}" and ids: "\<forall>n\<in>set neurons. sn_id n \<noteq> None"
  shows "\<exists>s' c voted. registerSnsNeuronsVote (Some user) u response_of arrivals neurons proposal p vote tid s = (Completed, s') \<and>
     vs_registrations s' = m(u \<mapsto> es @ [voting_entry p nids v voted VoteRegistrationPhase]) \<and>
     vs_toasts s' = ts @ (tid, c) # error_toasts_of short_id (final_response response_of) neurons p (Suc tid) \<and>
     sv_contexts s' = sv_contexts s @ shown_proposals proposal vote [] (accepted_votes response_of neurons arrivals) \<and>
     sv_calls s' = sv_calls s @ map (vote_call user p vote) neurons \<and> sv_store s' = sv_store s \<and> sv_reloaded s' = sv_reloaded s"
proof -
  have all: "map (\<lambda>i. if i \<in> fst ` set arrivals then final_response response_of (neurons ! i)
      else replicate (length neurons) Fulfilled ! i) [0..<length neurons] = map (final_response response_of) neurons"
    using a by (intro nth_equalityI) auto
  have called: "takeWhile (\<lambda>n. sn_id n \<noteq> None) neurons = neurons" using ids by (simp add: takeWhile_eq_all_conv)
  let ?s0 = "s\<lparr>sv_calls := sv_calls s @ map (vote_call user p vote) neurons\<rparr>"
  have v0: "voting u m es p nids v ts tid ?s0" using v by simp
  have "\<forall>x\<in>set arrivals. fst x < length (replicate (length neurons) Fulfilled)" using a by auto
  from settle_sns_votes_result [OF v0 this, of proposal vote response_of neurons "[]"] obtain s1 where s1:
    "settle_sns_votes u proposal p vote tid response_of neurons arrivals [] (replicate (length neurons) Fulfilled) ?s0 =
       (map (final_response response_of) neurons, s1)" "voting u m es p nids v ts tid s1"
    "sv_contexts s1 = sv_contexts s @ shown_proposals proposal vote [] (accepted_votes response_of neurons arrivals)"
    "sv_calls s1 = sv_calls s @ map (vote_call user p vote) neurons" "sv_store s1 = sv_store s" "sv_reloaded s1 = sv_reloaded s"
    unfolding length_replicate all by auto
  have "registerSnsNeuronsVote (Some user) u response_of arrivals neurons proposal p vote tid s =
      (Completed, processRegisterVoteErrors (map (final_response response_of) neurons) (map short_id neurons) p s1)"
    unfolding registerSnsNeuronsVote_def Let_def called by (simp add: s1(1) short_id_def [abs_def])
  then show ?thesis
    using s1(2-) by (auto simp: processRegisterVoteErrors_result error_toasts_of_def toastsShow_def voting_def)
qed

lemma registerSnsVotes_result:
  assumes p: "snsProposalIdString proposal = Some p"
    and none: "find_entry p (votes_registered u s) = None" and ok: "vote_state_ok s"
    and a: "fst ` set arrivals = {..<length neurons}" and ids: "\<forall>n\<in>set neurons. sn_id n \<noteq> None"
  shows "\<exists>t. registerSnsVotes (Some user) u response_of arrivals later neurons proposal vote s = Some t \<and>
    vs_registrations t = (vs_registrations s)(u \<mapsto> votes_registered u s) \<and>
    vs_toasts t = vs_toasts s @ error_toasts_of short_id (final_response response_of) neurons p (Suc (vs_nextToast s)) \<and>
    sv_calls t = sv_calls s @ map (vote_call user p vote) neurons \<and>
    sv_contexts t = sv_contexts s @ shown_proposals proposal vote [] (accepted_votes response_of neurons arrivals) \<and>
    sv_store t = addProposals_sns u [proposalAfterVote later proposal neurons vote] (Some False) True (sv_store s)"
proof -
  let ?nids = "map (\<lambda>_. string_of_object) neurons" and ?tid = "vs_nextToast s"
  let ?extra = "error_toasts_of short_id (final_response response_of) neurons p (Suc ?tid)"
  let ?Q = "\<lambda>more. \<forall>x :: sns_vote_state. vote_state.more x = more \<longrightarrow>
     sv_contexts x = sv_contexts s @ shown_proposals proposal vote [] (accepted_votes response_of neurons arrivals) \<and>
     sv_calls x = sv_calls s @ map (vote_call user p vote) neurons \<and> sv_store x = sv_store s"
  let ?reg = "\<lambda>toastId. registerSnsNeuronsVote (Some user) u response_of arrivals neurons proposal p vote toastId"
  let ?post = "postRegistration_sns u later proposal neurons vote"
  obtain s4 voted where s4: "manageVotes_try u ?nids p vote ?reg ?post ?tid (snd (createRegisterVotesToast vote p ?nids s)) =
      and_then ?post (and_then (\<lambda>s1. (Completed, toastsHide ?tid s1)) (lift_store (voteRegistration_remove p u))) s4"
    "vs_registrations s4 = (vs_registrations s)(u \<mapsto> votes_registered u s @ [voting_entry p ?nids vote voted PostUpdatePhase])"
    "vs_toasts s4 = vs_toasts s @ (?tid, UpdatingToast (vote = VoteYes) p) # ?extra" "?Q (vote_state.more s4)"
  proof -
    have "\<exists>s3 c voted. ?reg ?tid s2 = (Completed, s3) \<and>
        vs_registrations s3 = (vs_registrations s)(u \<mapsto> votes_registered u s @ [voting_entry p ?nids vote voted VoteRegistrationPhase]) \<and>
        vs_toasts s3 = vs_toasts s @ (?tid, c) # ?extra \<and> ?Q (vote_state.more s3)"
      if "voting u (vs_registrations s) (votes_registered u s) p ?nids vote (vs_toasts s) ?tid s2"
        "vote_state.more s2 = vote_state.more s" for s2 :: sns_vote_state
      using registerSnsNeuronsVote_result [OF that(1) a ids, of user response_of proposal vote] that(2)
      unfolding more_eq_iff by (metis (no_types, lifting))
    note run = this
    show ?thesis
      using manageVotes_try_run [where nids = ?nids and registerNeuronVotes = ?reg and post = ?post and Q = ?Q and v = vote,
          OF none ok run error_toasts_fresh] that by blast
  qed
  have fresh: "?tid \<notin> fst ` set (vs_toasts s)" "?tid \<notin> fst ` set ?extra"
    using ok by (auto simp: vote_state_ok_def error_toasts_of_def)
  show ?thesis
    unfolding registerSnsVotes_def manageVotes_toast s4(1) using none fresh s4(4)
    by (simp add: p s4(1) manageVotes_toast and_then_def postRegistration_sns_def toastsHide_def
        lift_store_def voteRegistration_remove_def s4(2,3) filter_toast_fresh voting_entry_def)
qed

subsection \<open>The properties\<close>

text \<open>
  C12: voting with neurons of an SNS makes one call per neuron, in the name of the user; the page is shown, after each
  answer that counts as a vote, the proposal with the ballots of the neurons that voted so far; at the end the entry
  of the vote and its progress toast are gone, and one error toast names the neurons whose calls were refused, if any.
\<close>

theorem sns_vote_calls_and_cleans_up:
  assumes "snsProposalIdString proposal = Some p" "find_entry p (votes_registered u s) = None" "vote_state_ok s"
    and "fst ` set arrivals = {..<length neurons}" "\<forall>n\<in>set neurons. sn_id n \<noteq> None"
  shows "\<exists>t. registerSnsVotes (Some user) u response_of arrivals later neurons proposal vote s = Some t \<and>
    sv_calls t = sv_calls s @ map (\<lambda>n. (user, the (sn_id n), p, vote)) neurons \<and>
    sv_contexts t = sv_contexts s @ shown_proposals proposal vote [] (accepted_votes response_of neurons arrivals) \<and>
    vs_registrations t = (vs_registrations s)(u \<mapsto> votes_registered u s) \<and>
    vs_toasts t = vs_toasts s @ error_toasts_of short_id (final_response response_of) neurons p (Suc (vs_nextToast s))"
proof -
  have "map (vote_call user p vote) neurons = map (\<lambda>n. (user, the (sn_id n), p, vote)) neurons"
    by (simp add: vote_call_def [abs_def])
  with registerSnsVotes_result [OF assms, of user response_of later vote] show ?thesis by auto
qed

definition sns_votes_start :: sns_vote_state where
  "sns_votes_start = \<lparr>vs_registrations = Map.empty, vs_toasts = [], vs_nextToast = 0, sv_calls = [], sv_contexts = [],
     sv_store = Map.empty, sv_reloaded = []\<rparr>"

theorem sns_vote_calls_and_cleans_up_witness:
  "\<exists>t. registerSnsVotes (Some ''u'') ''r'' (\<lambda>n. if sn_id n = Some [1] then Fulfilled else RejectedOther) [(1, 7000), (0, 9000)] 9500
      [plain_sns [1] [], plain_sns [2] []] (plain_sns_proposal 3) VoteYes sns_votes_start = Some t \<and>
    sv_calls t = [(''u'', [1], ''3'', VoteYes), (''u'', [2], ''3'', VoteYes)] \<and>
    sv_contexts t = [proposalAfterVote 9000 (plain_sns_proposal 3) [plain_sns [1] []] VoteYes]"
proof -
  have three: "snsProposalIdString (plain_sns_proposal 3) = Some ''3''"
    by (simp add: snsProposalIdString_def plain_sns_proposal_def) code_simp
  have "fst ` set [(1, 7000 :: int), (0, 9000)] = {..<length [plain_sns [1] [], plain_sns [2] []]}" by auto
  from sns_vote_calls_and_cleans_up [OF three _ _ this, of "''r''" sns_votes_start "''u''"
      "\<lambda>n. if sn_id n = Some [1] then Fulfilled else RejectedOther" 9500 VoteYes]
  show ?thesis
    by (auto simp: sns_votes_start_def votes_registered_def find_entry_def vote_state_ok_def plain_sns_def accepted_votes_def
        vote_accepted_def isAlreadyVotedError_def)
qed

text \<open>
  after a vote the store of proposals holds the proposal with the vote of every neuron that was selected, also of
  those whose calls were refused, and the list of proposals is marked as complete, so that the page loads no more.
\<close>

lemma sns_refused_votes_stored_as_cast:
  assumes "snsProposalIdString proposal = Some p" "find_entry p (votes_registered u s) = None" "vote_state_ok s"
    and "fst ` set arrivals = {..<length neurons}" "\<forall>n\<in>set neurons. sn_id n \<noteq> None"
    and "n \<in> set neurons" "response_of n = RejectedError reason"
  shows "\<exists>t d q. registerSnsVotes (Some user) u response_of arrivals later neurons proposal vote s = Some t \<and>
    sv_store t u = Some d \<and> q \<in> set (sp_proposals d) \<and> sd_id q = sd_id proposal \<and> getSnsNeuronVote n q = Some vote \<and>
    disableInfiniteScroll u (sv_store t)"
proof -
  obtain t where t: "registerSnsVotes (Some user) u response_of arrivals later neurons proposal vote s = Some t"
    "sv_store t = addProposals_sns u [proposalAfterVote later proposal neurons vote] (Some False) True (sv_store s)"
    using registerSnsVotes_result [OF assms(1-5), of user response_of later vote] by blast
  have "getSnsNeuronVote n (proposalAfterVote later proposal neurons vote) = Some vote"
    using assms(6) by (simp add: vote_after)
  moreover have "sd_id (proposalAfterVote later proposal neurons vote) = sd_id proposal" by (simp add: proposalAfterVote_def)
  ultimately show ?thesis
    using t(1) by (simp add: t(2) addProposals_sns_def disableInfiniteScroll_def)
      (rule exI [where x = "proposalAfterVote later proposal neurons vote"], simp)
qed

theorem sns_refused_votes_stored_as_cast_witness:
  "\<exists>t d q. registerSnsVotes (Some ''u'') ''r'' (\<lambda>_. RejectedError ''no'') [(0, 7000)] 9500
      [plain_sns [1] []] (plain_sns_proposal 3) VoteYes sns_votes_start = Some t \<and>
    sv_store t ''r'' = Some d \<and> q \<in> set (sp_proposals d) \<and> sd_id q = Some 3 \<and>
    getSnsNeuronVote (plain_sns [1] []) q = Some VoteYes \<and> disableInfiniteScroll ''r'' (sv_store t)"
proof -
  have three: "snsProposalIdString (plain_sns_proposal 3) = Some ''3''"
    by (simp add: snsProposalIdString_def plain_sns_proposal_def) code_simp
  have "fst ` set [(0, 7000 :: int)] = {..<length [plain_sns [1] []]}" by auto
  from sns_refused_votes_stored_as_cast [OF three _ _ this, of "''r''" sns_votes_start "plain_sns [1] []"
      "\<lambda>_. RejectedError ''no''" "''no''" "''u''" 9500 VoteYes]
  show ?thesis
    by (simp add: sns_votes_start_def votes_registered_def find_entry_def vote_state_ok_def plain_sns_def plain_sns_proposal_def)
qed

end
