(* ===== verification/IcpAccounts.thy ===== *)
theory IcpAccounts
  imports Accounts QueryAndUpdate Effects
begin

text \<open>
  Loading and polling of the ICP accounts, subaccounts and their names: frontend/src/lib/services/icp-accounts.services.ts
  on the two queued stores of stores/icp-account-details.store.ts and stores/icp-account-balances.store.ts.
  The canisters are functions of a world; the strategy FORCE_CALL_STRATEGY, which the session draws, is a parameter.
\<close>

subsection \<open>State and parameters\<close>

text \<open>An error with its message; QueueFailed is thrown by a queued store.\<close>

datatype accounts_error =
    AccountNotFoundError "string option"
  | AccountsFailed "string option"
  | QueueFailed queue_error

record IcpAccountDetailsStoreData =
  dd_accountDetails :: AccountDetails
  dd_certified :: bool

record AccountStoresData =
  asd_accountDetailsData :: IcpAccountDetailsStoreData
  asd_balancesData :: IcpAccountBalancesStoreData
  asd_certified :: bool

record accounts_state =
  as_details :: "IcpAccountDetailsStoreData option queued_store"
  as_balances :: "IcpAccountBalancesStoreData queued_store"
  as_toasts :: "string list"

definition accounts_start :: accounts_state where
  "accounts_start = \<lparr>as_details = queuedStore None, as_balances = initIcpAccountBalancesStore, as_toasts = []\<rparr>"

record 'w accounts_env =
  ae_queryAccount :: "bool \<Rightarrow> ('w, accounts_error, AccountDetails) effect"
  ae_addAccount :: "('w, accounts_error, unit) effect"
  ae_queryAccountBalance :: "bool \<Rightarrow> string \<Rightarrow> ('w, accounts_error, int) effect"
  ae_createSubAccount :: "string \<Rightarrow> ('w, accounts_error, unit) effect"
  ae_renameSubAccount :: "string \<Rightarrow> string \<Rightarrow> ('w, accounts_error, unit) effect"
  ae_toIcpAccountIdentifier :: "string \<Rightarrow> string"
  ae_translated :: "string \<Rightarrow> bool"
  ae_force :: "QueryAndUpdateStrategy option"
  ae_cancelled :: "'w \<Rightarrow> bool"
  ae_wait :: "'w \<Rightarrow> 'w"

definition isForceCallStrategy :: "'w accounts_env \<Rightarrow> bool" where
  "isForceCallStrategy env \<longleftrightarrow> ae_force env = Some QueryOnly"

text \<open>toToastError: the message of the error when it has a translation, else the fallback.\<close>

fun accounts_error_label :: "'w accounts_env \<Rightarrow> accounts_error \<Rightarrow> string \<Rightarrow> string" where
  "accounts_error_label env (AccountNotFoundError m) fallback =
     (case m of None \<Rightarrow> fallback | Some t \<Rightarrow> if ae_translated env t then t else fallback)"
| "accounts_error_label env (AccountsFailed m) fallback =
     (case m of None \<Rightarrow> fallback | Some t \<Rightarrow> if ae_translated env t then t else fallback)"
| "accounts_error_label env (QueueFailed e) fallback = fallback"

definition accounts_toast :: "string \<Rightarrow> accounts_state \<Rightarrow> accounts_state" where
  "accounts_toast label s = s\<lparr>as_toasts := as_toasts s @ [label]\<rparr>"

subsection \<open>Loading\<close>

definition getOrCreateAccount :: "'w accounts_env \<Rightarrow> bool \<Rightarrow> ('w, accounts_error, AccountDetails) effect" where
  "getOrCreateAccount env certified =
     catchE (ae_queryAccount env certified)
       (\<lambda>err. case err of
          AccountNotFoundError _ \<Rightarrow> thenE (ae_addAccount env) (ae_queryAccount env certified)
        | _ \<Rightarrow> throwE err)"

definition getAccountIdentifiers :: "AccountDetails \<Rightarrow> string list" where
  "getAccountIdentifiers accountDetails =
     [ad_account_identifier accountDetails] @
     map sa_account_identifier (ad_sub_accounts accountDetails) @
     map hw_account_identifier (ad_hardware_wallet_accounts accountDetails)"

text \<open>
  Promise.all of the balances, asked in order, which rejects with the first error; and Object.fromEntries, where the last
  entry of an identifier wins.
\<close>

fun queryBalances :: "'w accounts_env \<Rightarrow> bool \<Rightarrow> string list \<Rightarrow> IcpAccountBalancesStoreData
    \<Rightarrow> ('w, accounts_error, IcpAccountBalancesStoreData) effect" where
  "queryBalances env certified [] entries = returnE entries"
| "queryBalances env certified (accountIdentifier # rest) entries =
     bindE (ae_queryAccountBalance env certified accountIdentifier) (\<lambda>balanceE8s.
       queryBalances env certified rest
         (entries(accountIdentifier \<mapsto> \<lparr>ab_balanceE8s = balanceE8s, ab_certified = certified\<rparr>)))"

definition loadAccountsStoresData :: "'w accounts_env \<Rightarrow> bool \<Rightarrow> ('w, accounts_error, AccountStoresData) effect" where
  "loadAccountsStoresData env certified =
     bindE (getOrCreateAccount env certified) (\<lambda>accountDetails.
     bindE (queryBalances env certified (getAccountIdentifiers accountDetails) Map.empty) (\<lambda>balancesData.
       returnE \<lparr>asd_accountDetailsData = \<lparr>dd_accountDetails = accountDetails, dd_certified = certified\<rparr>,
         asd_balancesData = balancesData, asd_certified = certified\<rparr>))"

subsection \<open>Writing both stores\<close>

text \<open>The two keys of a request; an error of the first store leaves the second as it was.\<close>

definition set_both ::
  "nat \<Rightarrow> nat \<Rightarrow> IcpAccountDetailsStoreData option \<Rightarrow> IcpAccountBalancesStoreData \<Rightarrow> bool \<Rightarrow> accounts_state
     \<Rightarrow> accounts_state \<times> accounts_error option" where
  "set_both keyD keyB details balances certified s =
     (case single_set keyD details certified (as_details s) of
        Inl e \<Rightarrow> (s, Some (QueueFailed e))
      | Inr d \<Rightarrow> (case single_set keyB balances certified (as_balances s) of
          Inl e \<Rightarrow> (s\<lparr>as_details := d\<rparr>, Some (QueueFailed e))
        | Inr b \<Rightarrow> (s\<lparr>as_details := d, as_balances := b\<rparr>, None)))"

definition sync_onLoad :: "nat \<Rightarrow> nat \<Rightarrow> (AccountStoresData, accounts_state, accounts_error) qau_callback" where
  "sync_onLoad keyD keyB certified currentStrategy response s =
     set_both keyD keyB (Some (asd_accountDetailsData response)) (asd_balancesData response) (asd_certified response) s"

type_synonym accounts_handler = "nat \<Rightarrow> nat \<Rightarrow> (accounts_error, accounts_state, accounts_error) qau_callback"

definition defaultErrorHandlerAccounts :: "'w accounts_env \<Rightarrow> accounts_handler" where
  "defaultErrorHandlerAccounts env keyD keyB certified currentStrategy err s =
     (if \<not> certified then (s, None)
      else (case set_both keyD keyB None Map.empty certified s of
              (s', Some e) \<Rightarrow> (s', Some e)
            | (s', None) \<Rightarrow> (accounts_toast (accounts_error_label env err ''error.accounts_not_found'') s', None)))"

definition ignoreErrors :: accounts_handler where
  "ignoreErrors keyD keyB certified currentStrategy err s = (s, None)"

subsection \<open>syncAccounts\<close>

text \<open>A request: its keys, its strategy, whether its certified call has settled, and which calls have.\<close>

record accounts_request =
  rq_details :: nat
  rq_balances :: nat
  rq_strategy :: QueryAndUpdateStrategy
  rq_done :: bool
  rq_arrived :: "bool set"

definition reserve_both :: "QueryAndUpdateStrategy option \<Rightarrow> accounts_state \<Rightarrow> accounts_request \<times> accounts_state" where
  "reserve_both strat s =
     (let (keyB, b) = getSingleMutationStore strat (as_balances s);
          (keyD, d) = getSingleMutationStore strat (as_details s)
      in (\<lparr>rq_details = keyD, rq_balances = keyB, rq_strategy = nullish_or strat QueryAndUpdate, rq_done = False, rq_arrived = {}\<rparr>,
          s\<lparr>as_details := d, as_balances := b\<rparr>))"

text \<open>One of the calls of a request settles.\<close>

definition sync_settled ::
  "accounts_handler \<Rightarrow> accounts_request \<Rightarrow> bool \<Rightarrow> accounts_error + AccountStoresData \<Rightarrow> accounts_state
     \<Rightarrow> accounts_request \<times> accounts_state \<times> accounts_error option" where
  "sync_settled handler r certified outcome s =
     (case queryOrUpdate (sync_onLoad (rq_details r) (rq_balances r)) (Some (handler (rq_details r) (rq_balances r)))
             (rq_strategy r) certified outcome (rq_done r, s) of
        ((d, s'), thrown) \<Rightarrow> (r\<lparr>rq_done := d, rq_arrived := insert certified (rq_arrived r)\<rparr>, s', thrown))"

fun sync_settle_all ::
  "accounts_handler \<Rightarrow> accounts_request \<Rightarrow> (bool \<times> (accounts_error + AccountStoresData)) list \<Rightarrow> accounts_state \<Rightarrow> accounts_state" where
  "sync_settle_all handler r [] s = s"
| "sync_settle_all handler r ((certified, outcome) # rest) s =
     (case sync_settled handler r certified outcome s of (r', s', _) \<Rightarrow> sync_settle_all handler r' rest s')"

definition syncAccountsWithErrorHandler ::
  "'w accounts_env \<Rightarrow> accounts_handler \<Rightarrow> (bool \<times> (accounts_error + AccountStoresData)) list \<Rightarrow> accounts_state \<Rightarrow> accounts_state" where
  "syncAccountsWithErrorHandler env handler responses s =
     (case reserve_both (ae_force env) s of (r, s') \<Rightarrow> sync_settle_all handler r responses s')"

definition syncAccounts ::
  "'w accounts_env \<Rightarrow> (bool \<times> (accounts_error + AccountStoresData)) list \<Rightarrow> accounts_state \<Rightarrow> accounts_state" where
  "syncAccounts env = syncAccountsWithErrorHandler env (defaultErrorHandlerAccounts env)"

definition initAccounts ::
  "'w accounts_env \<Rightarrow> (bool \<times> (accounts_error + AccountStoresData)) list \<Rightarrow> accounts_state \<Rightarrow> accounts_state" where
  "initAccounts env = syncAccountsWithErrorHandler env ignoreErrors"

subsection \<open>loadBalance\<close>

definition balance_onLoad :: "nat \<Rightarrow> string \<Rightarrow> (int, accounts_state, accounts_error) qau_callback" where
  "balance_onLoad key accountIdentifier certified currentStrategy balanceE8s s =
     (case setBalance key accountIdentifier balanceE8s certified (as_balances s) of
        Inl e \<Rightarrow> (s, Some (QueueFailed e)) | Inr b \<Rightarrow> (s\<lparr>as_balances := b\<rparr>, None))"

definition balance_onError :: "'w accounts_env \<Rightarrow> (accounts_error, accounts_state, accounts_error) qau_callback" where
  "balance_onError env certified currentStrategy err s =
     (if \<not> certified \<and> ae_force env \<noteq> Some QueryOnly then (s, None)
      else (accounts_toast (accounts_error_label env err ''error.query_balance'') s, None))"

definition reserve_balance ::
  "QueryAndUpdateStrategy option \<Rightarrow> accounts_state \<Rightarrow> accounts_request \<times> accounts_state" where
  "reserve_balance strat s =
     (let (keyB, b) = getSingleMutationStore strat (as_balances s)
      in (\<lparr>rq_details = 0, rq_balances = keyB, rq_strategy = nullish_or strat QueryAndUpdate, rq_done = False, rq_arrived = {}\<rparr>,
          s\<lparr>as_balances := b\<rparr>))"

definition balance_settled ::
  "'w accounts_env \<Rightarrow> string \<Rightarrow> accounts_request \<Rightarrow> bool \<Rightarrow> accounts_error + int \<Rightarrow> accounts_state
     \<Rightarrow> accounts_request \<times> accounts_state \<times> accounts_error option" where
  "balance_settled env accountIdentifier r certified outcome s =
     (case queryOrUpdate (balance_onLoad (rq_balances r) accountIdentifier) (Some (balance_onError env))
             (rq_strategy r) certified outcome (rq_done r, s) of
        ((d, s'), thrown) \<Rightarrow> (r\<lparr>rq_done := d, rq_arrived := insert certified (rq_arrived r)\<rparr>, s', thrown))"

fun balance_settle_all ::
  "'w accounts_env \<Rightarrow> string \<Rightarrow> accounts_request \<Rightarrow> (bool \<times> (accounts_error + int)) list \<Rightarrow> accounts_state \<Rightarrow> accounts_state" where
  "balance_settle_all env i r [] s = s"
| "balance_settle_all env i r ((certified, outcome) # rest) s =
     (case balance_settled env i r certified outcome s of (r', s', _) \<Rightarrow> balance_settle_all env i r' rest s')"

definition loadBalance_icp ::
  "'w accounts_env \<Rightarrow> string \<Rightarrow> (bool \<times> (accounts_error + int)) list \<Rightarrow> accounts_state \<Rightarrow> accounts_state" where
  "loadBalance_icp env accountIdentifier responses s =
     (case reserve_balance (ae_force env) s of (r, s') \<Rightarrow> balance_settle_all env accountIdentifier r responses s')"

subsection \<open>Subaccounts\<close>

text \<open>The API call of a world, then the reload with the responses it gets.\<close>

definition addSubAccount ::
  "'w accounts_env \<Rightarrow> string \<Rightarrow> (bool \<times> (accounts_error + AccountStoresData)) list \<Rightarrow> 'w \<times> accounts_state \<Rightarrow> 'w \<times> accounts_state" where
  "addSubAccount env name responses ws =
     (case ae_createSubAccount env name (fst ws) of
        (Inl err, w) \<Rightarrow> (w, accounts_toast (accounts_error_label env err ''error__account.create_subaccount'') (snd ws))
      | (Inr _, w) \<Rightarrow> (w, syncAccounts env responses (snd ws)))"

definition renameError :: "'w accounts_env \<Rightarrow> string \<Rightarrow> accounts_error option \<Rightarrow> accounts_state \<Rightarrow> string option \<times> accounts_state" where
  "renameError env labelKey err s =
     (Some labelKey, accounts_toast (case err of None \<Rightarrow> labelKey | Some e \<Rightarrow> accounts_error_label env e labelKey) s)"

text \<open>The result is the error label, None for success.\<close>

definition renameSubAccount ::
  "'w accounts_env \<Rightarrow> string \<Rightarrow> Account option \<Rightarrow> (bool \<times> (accounts_error + AccountStoresData)) list \<Rightarrow> 'w \<times> accounts_state
     \<Rightarrow> string option \<times> 'w \<times> accounts_state" where
  "renameSubAccount env newName selectedAccount responses ws =
     (case selectedAccount of
        None \<Rightarrow> (case renameError env ''error.rename_subaccount_no_account'' None (snd ws) of (r, s) \<Rightarrow> (r, fst ws, s))
      | Some account \<Rightarrow>
          if ac_type account \<noteq> AccountSubAccount
          then (case renameError env ''error.rename_subaccount_type'' None (snd ws) of (r, s) \<Rightarrow> (r, fst ws, s))
          else (case ae_renameSubAccount env newName (ae_toIcpAccountIdentifier env (ac_identifier account)) (fst ws) of
                  (Inl err, w) \<Rightarrow> (case renameError env ''error.rename_subaccount'' (Some err) (snd ws) of (r, s) \<Rightarrow> (r, w, s))
                | (Inr _, w) \<Rightarrow> (None, w, syncAccounts env responses (snd ws))))"

subsection \<open>pollAccounts\<close>

definition accountsHaveBalance :: "'w accounts_env \<Rightarrow> AccountDetails \<Rightarrow> IcpAccountBalancesStoreData \<Rightarrow> bool" where
  "accountsHaveBalance env accountDetails balances =
     list_all (\<lambda>accountIdentifier. case balances accountIdentifier of
         None \<Rightarrow> False | Some balanceData \<Rightarrow> ab_certified balanceData \<or> isForceCallStrategy env)
       (getAccountIdentifiers accountDetails)"

definition SYNC_ACCOUNTS_RETRY_SECONDS :: int where
  "SYNC_ACCOUNTS_RETRY_SECONDS = 2"

definition SYNC_ACCOUNTS_RETRY_MAX_ATTEMPTS :: nat where
  "SYNC_ACCOUNTS_RETRY_MAX_ATTEMPTS = 50"

definition accounts_poll_options :: poll_options where
  "accounts_poll_options = poll_defaults\<lparr>useExponentialBackoff := True, maxAttempts := SYNC_ACCOUNTS_RETRY_MAX_ATTEMPTS,
     millisecondsToWait := SYNC_ACCOUNTS_RETRY_SECONDS * 1000\<rparr>"

text \<open>running: a poll with the same id is under way, and poll refuses another one.\<close>

definition pollLoadAccounts ::
  "'w accounts_env \<Rightarrow> bool \<Rightarrow> bool \<Rightarrow> ('w, accounts_error poll_error, AccountStoresData) effect" where
  "pollLoadAccounts env running certified =
     (if running then throwE PollingCancelledError
      else pollE accounts_poll_options
        \<lparr>po_fn = (\<lambda>w. case loadAccountsStoresData env certified w of
             (Inl e, w') \<Rightarrow> (Inl (FnError e), w') | (Inr d, w') \<Rightarrow> (Inr d, w')),
         po_shouldExit = (\<lambda>_ w. (False, w)), po_cancelled = ae_cancelled env, po_wait = ae_wait env,
         po_highLoad = (\<lambda>w. w), po_hideHighLoad = (\<lambda>w. w)\<rparr>)"

definition poll_skipped :: "'w accounts_env \<Rightarrow> accounts_state \<Rightarrow> bool" where
  "poll_skipped env s \<longleftrightarrow>
     (case exposed (as_details s) of
        None \<Rightarrow> False
      | Some accountDetailsData \<Rightarrow> (dd_certified accountDetailsData \<or> isForceCallStrategy env) \<and>
          accountsHaveBalance env (dd_accountDetails accountDetailsData) (exposed (as_balances s)))"

definition overrideCertified :: "'w accounts_env \<Rightarrow> bool \<Rightarrow> bool" where
  "overrideCertified env certified = (if isForceCallStrategy env then False else certified)"

definition poll_strategy :: "'w accounts_env \<Rightarrow> bool \<Rightarrow> QueryAndUpdateStrategy" where
  "poll_strategy env certified = (if overrideCertified env certified then UpdateOnly else QueryOnly)"

text \<open>The catch block: the reservation in the balances store is cancelled; cancel may throw, and then pollAccounts rejects.\<close>

definition poll_failed :: "'w accounts_env \<Rightarrow> accounts_request \<Rightarrow> accounts_error poll_error \<Rightarrow> accounts_state \<Rightarrow> accounts_state" where
  "poll_failed env r err s =
     (case cancel (rq_balances r) (as_balances s) of
        Inl e \<Rightarrow> s
      | Inr b \<Rightarrow>
          (let s' = s\<lparr>as_balances := b\<rparr>
           in if err = PollingCancelledError then s'
              else let errorKey = (if err = PollingLimitExceededError then ''error.accounts_not_found_poll'' else ''error.accounts_not_found'')
                in accounts_toast (case err of FnError e \<Rightarrow> accounts_error_label env e errorKey | _ \<Rightarrow> errorKey) s'))"

definition poll_finished ::
  "'w accounts_env \<Rightarrow> bool \<Rightarrow> accounts_request \<Rightarrow> accounts_error poll_error + AccountStoresData \<Rightarrow> accounts_state \<Rightarrow> accounts_state" where
  "poll_finished env certified r outcome s =
     (case outcome of
        Inl err \<Rightarrow> poll_failed env r err s
      | Inr data \<Rightarrow>
          (case set_both (rq_details r) (rq_balances r) (Some (asd_accountDetailsData data)) (asd_balancesData data)
                  (overrideCertified env certified) s of
             (s', None) \<Rightarrow> s'
           | (s', Some e) \<Rightarrow> poll_failed env r (FnError e) s'))"

definition pollAccounts :: "'w accounts_env \<Rightarrow> bool \<Rightarrow> bool \<Rightarrow> 'w \<times> accounts_state \<Rightarrow> 'w \<times> accounts_state" where
  "pollAccounts env running certified ws =
     (if poll_skipped env (snd ws) then ws
      else (case reserve_both (Some (poll_strategy env certified)) (snd ws) of
              (r, s) \<Rightarrow> (case pollLoadAccounts env running (overrideCertified env certified) (fst ws) of
                 (outcome, w) \<Rightarrow> (w, poll_finished env certified r outcome s))))"

subsection \<open>The data a request brings\<close>

lemma queryBalances_covers:
  "queryBalances env c ids entries w = (Inr b, w') \<Longrightarrow> set ids \<union> dom entries \<subseteq> dom b"
  by (induction env c ids entries arbitrary: w rule: queryBalances.induct)
    (fastforce simp: bindE_def returnE_def split: prod.splits sum.splits)+

text \<open>The balances cover the accounts.\<close>

definition covers :: "IcpAccountDetailsStoreData option \<Rightarrow> IcpAccountBalancesStoreData \<Rightarrow> bool" where
  "covers details balances \<longleftrightarrow>
     (\<forall>d. details = Some d \<longrightarrow> set (getAccountIdentifiers (dd_accountDetails d)) \<subseteq> dom balances)"

definition loaded_ok :: "bool \<Rightarrow> AccountStoresData \<Rightarrow> bool" where
  "loaded_ok c data \<longleftrightarrow> covers (Some (asd_accountDetailsData data)) (asd_balancesData data) \<and> asd_certified data = c"

lemma loadAccountsStoresData_ok:
  "loadAccountsStoresData env c w = (Inr data, w') \<Longrightarrow> loaded_ok c data"
  by (auto simp: loadAccountsStoresData_def bindE_def returnE_def loaded_ok_def covers_def
      dest!: queryBalances_covers split: prod.splits sum.splits)

lemma pollLoadAccounts_ok:
  "pollLoadAccounts env running c w = (Inr data, w') \<Longrightarrow> loaded_ok c data"
  unfolding pollLoadAccounts_def
  by (cases running) (auto simp: throwE_def dest!: pollE_result loadAccountsStoresData_ok split: prod.splits sum.splits)

subsection \<open>The two logs in step\<close>

text \<open>
  Every request but a reload of one balance and a failed poll is in the logs of both stores, at the same place: a
  list of such pairs, of details alone and of balances alone.
\<close>

datatype joint =
    Both "IcpAccountDetailsStoreData option mutation_entry" "IcpAccountBalancesStoreData mutation_entry"
  | OnlyDetails "IcpAccountDetailsStoreData option mutation_entry"
  | OnlyBalances "IcpAccountBalancesStoreData mutation_entry"

fun details_of :: "joint \<Rightarrow> IcpAccountDetailsStoreData option mutation_entry list" where
  "details_of (Both e e') = [e]" | "details_of (OnlyDetails e) = [e]" | "details_of (OnlyBalances e) = []"

fun balances_of :: "joint \<Rightarrow> IcpAccountBalancesStoreData mutation_entry list" where
  "balances_of (Both e e') = [e']" | "balances_of (OnlyDetails e) = []" | "balances_of (OnlyBalances e) = [e]"

abbreviation details_log :: "joint list \<Rightarrow> IcpAccountDetailsStoreData option mutation_entry list" where
  "details_log J \<equiv> concat (map details_of J)"

abbreviation balances_log :: "joint list \<Rightarrow> IcpAccountBalancesStoreData mutation_entry list" where
  "balances_log J \<equiv> concat (map balances_of J)"

text \<open>A pair of mutations sets both stores, the balances covering the details.\<close>

definition slots_ok ::
  "IcpAccountDetailsStoreData option mutation option \<Rightarrow> IcpAccountBalancesStoreData mutation option \<Rightarrow> bool" where
  "slots_ok m m' \<longleftrightarrow> (m = None \<and> m' = None) \<or> (\<exists>x y. m = Some (\<lambda>_. x) \<and> m' = Some (\<lambda>_. y) \<and> covers x y)"

fun joint_ok :: "joint \<Rightarrow> bool" where
  "joint_ok (Both e e') \<longleftrightarrow> (\<forall>c. slots_ok (entry_slot c e) (entry_slot c e'))"
| "joint_ok (OnlyDetails e) \<longleftrightarrow> entry_mutation e = None"
| "joint_ok (OnlyBalances e) \<longleftrightarrow> (\<forall>c m b. entry_slot c e = Some m \<longrightarrow> dom b \<subseteq> dom (m b))"

lemma entry_mutation_slots:
  "entry_mutation e = (case entry_slot True e of None \<Rightarrow> entry_slot False e | Some m \<Rightarrow> Some m)"
  by (simp add: entry_mutation_def entry_slot_def split: option.split)

lemma covers_mono: "covers x b \<Longrightarrow> dom b \<subseteq> dom b' \<Longrightarrow> covers x b'"
  unfolding covers_def by blast

lemma covers_joint:
  assumes "joint_ok j" "covers x b"
  shows "covers (foldl apply_entry x (details_of j)) (foldl apply_entry b (balances_of j))"
proof (cases j)
  case (Both e e')
  then have "slots_ok (entry_slot True e) (entry_slot True e')" "slots_ok (entry_slot False e) (entry_slot False e')"
    using assms(1) by auto
  then show ?thesis using assms(2) by (auto simp: Both slots_ok_def apply_entry_def entry_mutation_slots)
next
  case (OnlyDetails e)
  then show ?thesis using assms by (simp add: apply_entry_None)
next
  case (OnlyBalances e)
  then have grows: "\<And>m. entry_mutation e = Some m \<Longrightarrow> dom b \<subseteq> dom (m b)"
    using assms(1) by (auto simp: entry_mutation_slots split: option.splits)
  show ?thesis
    using covers_mono [OF assms(2) grows] assms(2)
    by (auto simp: OnlyBalances apply_entry_def split: option.split)
qed

lemma covers_replay:
  "list_all joint_ok J \<Longrightarrow> covers x b \<Longrightarrow> covers (replay x (details_log J)) (replay b (balances_log J))"
  by (induction J arbitrary: x b) (auto simp: replay_def covers_joint)

text \<open>Setting a pair.\<close>

definition slot_of_key :: "nat \<Rightarrow> bool \<Rightarrow> 'd mutation \<Rightarrow> 'd mutation_entry \<Rightarrow> 'd mutation_entry" where
  "slot_of_key k c m e = (if mutationKey e = k then set_entry_slot c m e else e)"

lemma set_queue_slot_map:
  "distinct (map mutationKey q) \<Longrightarrow> set_queue_slot k c m q = map (slot_of_key k c m) q"
proof (induction q)
  case (Cons e q)
  have "mutationKey e \<notin> mutationKey ` set q" using Cons.prems by simp
  then have "mutationKey e = k \<Longrightarrow> \<forall>x\<in>set q. mutationKey x \<noteq> k" by (metis imageI)
  then have "mutationKey e = k \<Longrightarrow> map (slot_of_key k c m) q = q" by (auto simp: slot_of_key_def intro!: map_idI)
  with Cons show ?case by (cases "mutationKey e = k") (simp_all add: slot_of_key_def [of k c m e])
qed simp

fun joint_map ::
  "(IcpAccountDetailsStoreData option mutation_entry \<Rightarrow> IcpAccountDetailsStoreData option mutation_entry) \<Rightarrow>
   (IcpAccountBalancesStoreData mutation_entry \<Rightarrow> IcpAccountBalancesStoreData mutation_entry) \<Rightarrow> joint \<Rightarrow> joint" where
  "joint_map f g (Both e e') = Both (f e) (g e')"
| "joint_map f g (OnlyDetails e) = OnlyDetails (f e)"
| "joint_map f g (OnlyBalances e) = OnlyBalances (g e)"

lemma logs_joint_map:
  "details_log (map (joint_map f g) J) = map f (details_log J)"
  "balances_log (map (joint_map f g) J) = map g (balances_log J)"
proof (induction J)
  case (Cons j J)
  case 1
  with Cons show ?case by (cases j) auto
  case 2
  with Cons show ?case by (cases j) auto
qed simp_all

lemma in_logs:
  "Both e e' \<in> set J \<Longrightarrow> e \<in> set (details_log J)" "Both e e' \<in> set J \<Longrightarrow> e' \<in> set (balances_log J)"
  "OnlyBalances e' \<in> set J \<Longrightarrow> e' \<in> set (balances_log J)" "OnlyDetails e \<in> set J \<Longrightarrow> e \<in> set (details_log J)"
  by force+

definition distinct_keys :: "joint list \<Rightarrow> bool" where
  "distinct_keys J \<longleftrightarrow> distinct (map mutationKey (details_log J)) \<and> distinct (map mutationKey (balances_log J))"

lemma joint_of_key:
  assumes "distinct_keys J" "Both e e' \<in> set J" "j \<in> set J"
    and "j = Both f f' \<and> (mutationKey f = mutationKey e \<or> mutationKey f' = mutationKey e') \<or>
      j = OnlyBalances f' \<and> mutationKey f' = mutationKey e' \<or> j = OnlyDetails f \<and> mutationKey f = mutationKey e"
  shows "j = Both e e'"
  using assms
proof (induction J)
  case (Cons h J)
  have d: "distinct_keys J" using Cons.prems(1) by (auto simp: distinct_keys_def)
  consider "Both e e' = h" "j = h" | "Both e e' = h" "j \<in> set J" | "Both e e' \<in> set J" "j = h" | "Both e e' \<in> set J" "j \<in> set J"
    using Cons.prems(2,3) by auto
  then show ?case
  proof cases
    case 2
    then have "mutationKey e \<notin> mutationKey ` set (details_log J)" "mutationKey e' \<notin> mutationKey ` set (balances_log J)"
      using Cons.prems(1) by (auto simp: distinct_keys_def 2(1) [symmetric])
    then show ?thesis using Cons.prems(4) 2(2) in_logs by (metis image_eqI)
  next
    case 3
    define DK where "DK = mutationKey ` set (details_log J)"
    define BK where "BK = mutationKey ` set (balances_log J)"
    have "mutationKey e \<in> DK" "mutationKey e' \<in> BK" using in_logs(1,2) [OF 3(1)] by (simp_all add: DK_def BK_def)
    moreover have "j = Both f f' \<Longrightarrow> mutationKey f \<notin> DK \<and> mutationKey f' \<notin> BK" "j = OnlyBalances f' \<Longrightarrow> mutationKey f' \<notin> BK"
      "j = OnlyDetails f \<Longrightarrow> mutationKey f \<notin> DK"
      using Cons.prems(1) by (simp_all add: distinct_keys_def 3(2) DK_def BK_def)
    ultimately show ?thesis using Cons.prems(4) by metis
  qed (use Cons.IH [OF d _ _ Cons.prems(4)] in auto)
qed simp

subsection \<open>Runs\<close>

text \<open>
  The states that requests reach, whatever the order in which they start and settle: syncs with either handler,
  polls with their argument, reloads of one balance with its account.  A request brings what the load of some
  world gives.
\<close>

datatype job = Sync accounts_request | Poll accounts_request bool | LoadBalance accounts_request string

fun job_request :: "job \<Rightarrow> accounts_request" where
  "job_request (Sync r) = r" | "job_request (Poll r c) = r" | "job_request (LoadBalance r i) = r"

inductive accounts_run :: "'w accounts_env \<Rightarrow> accounts_state \<Rightarrow> job set \<Rightarrow> bool" for env where
  started: "accounts_run env accounts_start {}"
| sync_started: "accounts_run env s jobs \<Longrightarrow> reserve_both (ae_force env) s = (r, s') \<Longrightarrow> accounts_run env s' (insert (Sync r) jobs)"
| sync_answered: "accounts_run env s jobs \<Longrightarrow> Sync r \<in> jobs \<Longrightarrow> c \<in> set (qau_requests (rq_strategy r)) \<Longrightarrow> c \<notin> rq_arrived r \<Longrightarrow>
    loadAccountsStoresData env c w = (outcome, w') \<Longrightarrow> handler \<in> {defaultErrorHandlerAccounts env, ignoreErrors} \<Longrightarrow>
    sync_settled handler r c outcome s = (r', s', thrown) \<Longrightarrow> accounts_run env s' (insert (Sync r') (jobs - {Sync r}))"
| poll_started: "accounts_run env s jobs \<Longrightarrow> \<not> poll_skipped env s \<Longrightarrow>
    reserve_both (Some (poll_strategy env c)) s = (r, s') \<Longrightarrow> accounts_run env s' (insert (Poll r c) jobs)"
| poll_answered: "accounts_run env s jobs \<Longrightarrow> Poll r c \<in> jobs \<Longrightarrow>
    pollLoadAccounts env running (overrideCertified env c) w = (outcome, w') \<Longrightarrow>
    accounts_run env (poll_finished env c r outcome s) (jobs - {Poll r c})"
| balance_started: "accounts_run env s jobs \<Longrightarrow> reserve_balance (ae_force env) s = (r, s') \<Longrightarrow>
    accounts_run env s' (insert (LoadBalance r i) jobs)"
| balance_answered: "accounts_run env s jobs \<Longrightarrow> LoadBalance r i \<in> jobs \<Longrightarrow> c \<in> set (qau_requests (rq_strategy r)) \<Longrightarrow>
    c \<notin> rq_arrived r \<Longrightarrow> balance_settled env i r c outcome s = (r', s', thrown) \<Longrightarrow>
    accounts_run env s' (insert (LoadBalance r' i) (jobs - {LoadBalance r i}))"

text \<open>What is known of an open request: its entries hold no mutation of a call that has not settled.\<close>

definition tracked :: "joint list \<Rightarrow> accounts_request \<Rightarrow> bool" where
  "tracked J r \<longleftrightarrow> (\<exists>e e'. Both e e' \<in> set J \<and> mutationKey e = rq_details r \<and> mutationKey e' = rq_balances r \<and>
     strategy e = rq_strategy r \<and> strategy e' = rq_strategy r \<and> (\<forall>c. entry_slot c e' \<noteq> None \<longrightarrow> c \<in> rq_arrived r)) \<and>
     (rq_done r \<longleftrightarrow> True \<in> rq_arrived r)"

definition tracked_balance :: "joint list \<Rightarrow> accounts_request \<Rightarrow> bool" where
  "tracked_balance J r \<longleftrightarrow> (\<exists>e'. OnlyBalances e' \<in> set J \<and> mutationKey e' = rq_balances r \<and>
     strategy e' = rq_strategy r \<and> (\<forall>c. entry_slot c e' \<noteq> None \<longrightarrow> c \<in> rq_arrived r)) \<and>
     (rq_done r \<longleftrightarrow> True \<in> rq_arrived r)"

definition joint_state :: "joint list \<Rightarrow> accounts_state \<Rightarrow> bool" where
  "joint_state J s \<longleftrightarrow> store_run None (details_log J) (as_details s) \<and> store_run Map.empty (balances_log J) (as_balances s) \<and>
     list_all joint_ok J"

lemma joint_state_distinct: "joint_state J s \<Longrightarrow> distinct_keys J"
  unfolding joint_state_def distinct_keys_def by (blast dest: store_run_distinct)

text \<open>An open slot of an entry that is not final.\<close>

lemma log_add_open:
  assumes "distinct (map mutationKey entries)" "e \<in> set entries" "mutationKey e = k" "strategy e = strat"
    and "c \<in> set (qau_requests strat)" "entry_slot c e = None" "entry_slot True e = None"
  shows "log_add k c m entries = Some (map (slot_of_key k c m) entries)"
proof -
  have "List.find (\<lambda>x. mutationKey x = k) entries = Some e" using find_distinct_key [OF assms(1,2)] assms(3) by simp
  moreover have "\<not> isFinal e"
    using assms(4-7) by (cases strat) (simp_all add: isFinal_slot qau_requests_def)
  ultimately show ?thesis using assms(1,6) by (simp add: log_add_def set_queue_slot_map)
qed

definition joint_set ::
  "nat \<Rightarrow> nat \<Rightarrow> bool \<Rightarrow> IcpAccountDetailsStoreData option mutation \<Rightarrow> IcpAccountBalancesStoreData mutation \<Rightarrow> joint list \<Rightarrow> joint list" where
  "joint_set kd kb c m m' J = map (joint_map (slot_of_key kd c m) (slot_of_key kb c m')) J"

lemma joint_set_ok:
  assumes "distinct_keys J" "Both e e' \<in> set J" "mutationKey e = kd" "mutationKey e' = kb" "list_all joint_ok J"
    and "slots_ok (Some m) (Some m')"
  shows "list_all joint_ok (joint_set kd kb c m m' J)"
  unfolding joint_set_def list.pred_map
proof (rule list.pred_mono_strong [OF assms(5)])
  fix j assume j: "j \<in> set J" "joint_ok j"
  show "(joint_ok \<circ> joint_map (slot_of_key kd c m) (slot_of_key kb c m')) j"
  proof (cases j)
    case (Both f f')
    then have "mutationKey f = kd \<longleftrightarrow> mutationKey f' = kb"
      using joint_of_key [OF assms(1,2) j(1), of f f'] assms(3,4) by auto
    then show ?thesis using j(2) assms(6) by (auto simp: Both slot_of_key_def)
  next
    case (OnlyDetails f)
    then have "mutationKey f \<noteq> kd" using joint_of_key [OF assms(1,2) j(1), of f] assms(3) by auto
    then show ?thesis using j(2) by (simp add: OnlyDetails slot_of_key_def)
  next
    case (OnlyBalances f')
    then have "mutationKey f' \<noteq> kb" using joint_of_key [OF assms(1,2) j(1), of undefined f'] assms(4) by auto
    then show ?thesis using j(2) by (simp add: OnlyBalances slot_of_key_def)
  qed
qed

text \<open>A request whose call c has settled.\<close>

definition arrived :: "bool \<Rightarrow> accounts_request \<Rightarrow> accounts_request" where
  "arrived c r = r\<lparr>rq_done := rq_done r \<or> c, rq_arrived := insert c (rq_arrived r)\<rparr>"

lemma arrived_simps [simp]: "rq_details (arrived c r) = rq_details r" "rq_balances (arrived c r) = rq_balances r"
  "rq_strategy (arrived c r) = rq_strategy r" "rq_arrived (arrived c r) = insert c (rq_arrived r)"
  "rq_done (arrived c r) = (rq_done r \<or> c)"
  by (simp_all add: arrived_def)

lemma tracked_arrived: "tracked J r \<Longrightarrow> tracked J (arrived c r)" "tracked_balance J r \<Longrightarrow> tracked_balance J (arrived c r)"
  unfolding tracked_def tracked_balance_def arrived_simps by blast+

lemma tracked_append: "tracked J r \<Longrightarrow> tracked (J @ [j]) r" "tracked_balance J r \<Longrightarrow> tracked_balance (J @ [j]) r"
  unfolding tracked_def tracked_balance_def by auto

lemma tracked_other:
  assumes "distinct_keys J" "Both e e' \<in> set J" "tracked J r" "rq_balances r \<noteq> mutationKey e'"
  shows "tracked (joint_set (mutationKey e) (mutationKey e') c m m' J) r"
proof -
  obtain f f' where f: "Both f f' \<in> set J" "mutationKey f = rq_details r" "mutationKey f' = rq_balances r"
    "strategy f = rq_strategy r" "strategy f' = rq_strategy r" "\<forall>c. entry_slot c f' \<noteq> None \<longrightarrow> c \<in> rq_arrived r"
    using assms(3) by (auto simp: tracked_def)
  have "mutationKey f \<noteq> mutationKey e"
    using joint_of_key [OF assms(1,2) f(1), of f f'] f(3) assms(4) by auto
  then have "joint_map (slot_of_key (mutationKey e) c m) (slot_of_key (mutationKey e') c m') (Both f f') = Both f f'"
    using f(3) assms(4) by (simp add: slot_of_key_def)
  then have "Both f f' \<in> set (joint_set (mutationKey e) (mutationKey e') c m m' J)"
    using f(1) unfolding joint_set_def set_map by (metis imageI)
  then show ?thesis using f(2-) assms(3) unfolding tracked_def by blast
qed

lemma tracked_balance_other:
  assumes "distinct_keys J" "Both e e' \<in> set J" "tracked_balance J r"
  shows "tracked_balance (joint_set (mutationKey e) (mutationKey e') c m m' J) r"
proof -
  obtain f' where f: "OnlyBalances f' \<in> set J" "mutationKey f' = rq_balances r"
    "strategy f' = rq_strategy r" "\<forall>c. entry_slot c f' \<noteq> None \<longrightarrow> c \<in> rq_arrived r"
    using assms(3) by (auto simp: tracked_balance_def)
  have "mutationKey f' \<noteq> mutationKey e'" using joint_of_key [OF assms(1,2) f(1), of undefined f'] by auto
  then have "joint_map (slot_of_key (mutationKey e) c m) (slot_of_key (mutationKey e') c m') (OnlyBalances f') = OnlyBalances f'"
    by (simp add: slot_of_key_def)
  then have "OnlyBalances f' \<in> set (joint_set (mutationKey e) (mutationKey e') c m m' J)"
    using f(1) unfolding joint_set_def set_map by (metis imageI)
  then show ?thesis using f(2-) assms(3) unfolding tracked_balance_def by blast
qed

text \<open>An expected answer is written to both stores.\<close>

lemma set_both_step:
  assumes s: "joint_state J s" and t: "tracked J r" and c: "c \<in> set (qau_requests (rq_strategy r))"
    and open_slots: "c \<notin> rq_arrived r" "\<not> rq_done r" and cov: "covers x y"
  obtains s' where "set_both (rq_details r) (rq_balances r) x y c s = (s', None)" "as_toasts s' = as_toasts s"
    "joint_state (joint_set (rq_details r) (rq_balances r) c (\<lambda>_. x) (\<lambda>_. y) J) s'"
    "tracked (joint_set (rq_details r) (rq_balances r) c (\<lambda>_. x) (\<lambda>_. y) J) (arrived c r)"
    "\<And>r'. tracked J r' \<Longrightarrow> rq_balances r' \<noteq> rq_balances r \<Longrightarrow> tracked (joint_set (rq_details r) (rq_balances r) c (\<lambda>_. x) (\<lambda>_. y) J) r'"
    "\<And>r'. tracked_balance J r' \<Longrightarrow> tracked_balance (joint_set (rq_details r) (rq_balances r) c (\<lambda>_. x) (\<lambda>_. y) J) r'"
proof -
  let ?J = "joint_set (rq_details r) (rq_balances r) c (\<lambda>_. x) (\<lambda>_. y) J"
  obtain e e' where e: "Both e e' \<in> set J" "mutationKey e = rq_details r" "mutationKey e' = rq_balances r"
    "strategy e = rq_strategy r" "strategy e' = rq_strategy r" "\<forall>c. entry_slot c e' \<noteq> None \<longrightarrow> c \<in> rq_arrived r"
    using t by (auto simp: tracked_def)
  have True_open: "True \<notin> rq_arrived r" using t open_slots(2) by (simp add: tracked_def)
  have d: "distinct_keys J" by (rule joint_state_distinct [OF s])
  have none': "entry_slot c e' = None" "entry_slot True e' = None" using e(6) open_slots(1) True_open by blast+
  have "joint_ok (Both e e')" using s e(1) by (auto simp: joint_state_def list_all_iff)
  then have none: "entry_slot c e = None" "entry_slot True e = None"
    using none' by (auto simp: slots_ok_def)
  have logs: "details_log ?J = map (slot_of_key (rq_details r) c (\<lambda>_. x)) (details_log J)"
    "balances_log ?J = map (slot_of_key (rq_balances r) c (\<lambda>_. y)) (balances_log J)"
    unfolding joint_set_def logs_joint_map by simp_all
  have addD: "log_add (rq_details r) c (\<lambda>_. x) (details_log J) = Some (details_log ?J)"
    unfolding logs using d in_logs(1) [OF e(1)] e(2,4) c none
    by (intro log_add_open) (auto simp: distinct_keys_def)
  have addB: "log_add (rq_balances r) c (\<lambda>_. y) (balances_log J) = Some (balances_log ?J)"
    unfolding logs using d in_logs(2) [OF e(1)] e(3,5) c none'
    by (intro log_add_open) (auto simp: distinct_keys_def)
  obtain sd where sd: "addMutation (rq_details r) c (\<lambda>_. x) (as_details s) = Inr sd" "store_run None (details_log ?J) sd"
    using store_run_accepts [OF _ addD] s by (auto simp: joint_state_def)
  obtain sb where sb: "addMutation (rq_balances r) c (\<lambda>_. y) (as_balances s) = Inr sb" "store_run Map.empty (balances_log ?J) sb"
    using store_run_accepts [OF _ addB] s by (auto simp: joint_state_def)
  have ok: "list_all joint_ok ?J"
    by (rule joint_set_ok [OF d e(1,2,3)]) (use s cov in \<open>auto simp: joint_state_def slots_ok_def\<close>)
  have "Both (slot_of_key (rq_details r) c (\<lambda>_. x) e) (slot_of_key (rq_balances r) c (\<lambda>_. y) e') \<in> set ?J"
    using imageI [OF e(1), of "joint_map (slot_of_key (rq_details r) c (\<lambda>_. x)) (slot_of_key (rq_balances r) c (\<lambda>_. y))"]
    by (simp add: joint_set_def)
  then have "Both (set_entry_slot c (\<lambda>_. x) e) (set_entry_slot c (\<lambda>_. y) e') \<in> set ?J"
    using e(2,3) by (simp add: slot_of_key_def)
  moreover have "\<forall>c'. entry_slot c' (set_entry_slot c (\<lambda>_. y) e') \<noteq> None \<longrightarrow> c' \<in> rq_arrived (arrived c r)"
    "mutationKey (set_entry_slot c (\<lambda>_. x) e) = rq_details (arrived c r)"
    "mutationKey (set_entry_slot c (\<lambda>_. y) e') = rq_balances (arrived c r)"
    "strategy (set_entry_slot c (\<lambda>_. x) e) = rq_strategy (arrived c r)"
    "strategy (set_entry_slot c (\<lambda>_. y) e') = rq_strategy (arrived c r)" using e(2-6) by auto
  ultimately have self: "tracked ?J (arrived c r)"
    using t unfolding tracked_def arrived_simps by blast
  show thesis
  proof (rule that)
    show "set_both (rq_details r) (rq_balances r) x y c s = (s\<lparr>as_details := sd, as_balances := sb\<rparr>, None)"
      by (simp add: set_both_def single_set_def sd sb)
  qed (use sd sb ok self tracked_other [OF d e(1)] tracked_balance_other [OF d e(1)] e(2,3) in \<open>auto simp: joint_state_def\<close>)
qed

text \<open>A reload of one balance.\<close>

lemma setBalance_step:
  assumes s: "joint_state J s" and t: "tracked_balance J r" and c: "c \<in> set (qau_requests (rq_strategy r))"
    and open_slots: "c \<notin> rq_arrived r" "\<not> rq_done r"
  obtains sb J' where "setBalance (rq_balances r) i b c (as_balances s) = Inr sb"
    "joint_state J' (s\<lparr>as_balances := sb\<rparr>)" "tracked_balance J' (arrived c r)"
    "\<And>r'. tracked_balance J r' \<Longrightarrow> rq_balances r' \<noteq> rq_balances r \<Longrightarrow> tracked_balance J' r'"
    "\<And>r'. tracked J r' \<Longrightarrow> tracked J' r'"
proof -
  let ?g = "slot_of_key (rq_balances r) c (setBalance_mutation i b c)"
  let ?J = "map (joint_map id ?g) J"
  obtain e' where e: "OnlyBalances e' \<in> set J" "mutationKey e' = rq_balances r"
    "strategy e' = rq_strategy r" "\<forall>c. entry_slot c e' \<noteq> None \<longrightarrow> c \<in> rq_arrived r"
    using t by (auto simp: tracked_balance_def)
  have d: "distinct_keys J" by (rule joint_state_distinct [OF s])
  have "True \<notin> rq_arrived r" using t open_slots(2) by (simp add: tracked_balance_def)
  then have none: "entry_slot c e' = None" "entry_slot True e' = None" using e(4) open_slots(1) by blast+
  have logs: "details_log ?J = details_log J" "balances_log ?J = map ?g (balances_log J)"
    unfolding logs_joint_map by simp_all
  have add: "log_add (rq_balances r) c (setBalance_mutation i b c) (balances_log J) = Some (balances_log ?J)"
    unfolding logs using d in_logs(3) [OF e(1)] e(2,3) c none
    by (intro log_add_open) (auto simp: distinct_keys_def)
  obtain sb where sb: "addMutation (rq_balances r) c (setBalance_mutation i b c) (as_balances s) = Inr sb"
    "store_run Map.empty (balances_log ?J) sb"
    using store_run_accepts [OF _ add] s by (auto simp: joint_state_def)
  have other: "joint_map id ?g (Both f f') = Both f f'" if "Both f f' \<in> set J" for f f'
  proof -
    have "mutationKey f' \<noteq> mutationKey e'" using joint_of_key [OF d that e(1), of undefined e'] by auto
    then show ?thesis using e(2) by (simp add: slot_of_key_def)
  qed
  have ok: "list_all joint_ok ?J"
    unfolding list.pred_map
  proof (rule list.pred_mono_strong)
    show "list_all joint_ok J" using s by (simp add: joint_state_def)
    fix j assume j: "j \<in> set J" "joint_ok j"
    show "(joint_ok \<circ> joint_map id ?g) j"
      by (rule joint.exhaust [of j]) (use j other in \<open>auto simp: slot_of_key_def setBalance_mutation_def split: if_splits\<close>)
  qed
  let ?e = "set_entry_slot c (setBalance_mutation i b c) e'"
  have "joint_map id ?g (OnlyBalances e') \<in> set ?J" using e(1) by (simp only: set_map imageI)
  then have "OnlyBalances ?e \<in> set ?J" using e(2) by (simp add: slot_of_key_def)
  moreover have "mutationKey ?e = rq_balances (arrived c r)" "strategy ?e = rq_strategy (arrived c r)"
    "\<forall>c'. entry_slot c' ?e \<noteq> None \<longrightarrow> c' \<in> rq_arrived (arrived c r)" using e(2-4) by auto
  ultimately have self: "tracked_balance ?J (arrived c r)"
    using t unfolding tracked_balance_def arrived_simps by blast
  show thesis
  proof (rule that)
    show "setBalance (rq_balances r) i b c (as_balances s) = Inr sb" by (simp add: setBalance_def single_update_def sb)
    show "joint_state ?J (s\<lparr>as_balances := sb\<rparr>)" using s sb(2) ok by (simp add: joint_state_def logs(1) del: map_map)
    show "tracked_balance ?J (arrived c r)" by (rule self)
    show "tracked_balance ?J r'" if tr: "tracked_balance J r'" "rq_balances r' \<noteq> rq_balances r" for r'
    proof -
      obtain f' where f: "OnlyBalances f' \<in> set J" "mutationKey f' = rq_balances r'"
        "strategy f' = rq_strategy r'" "\<forall>c. entry_slot c f' \<noteq> None \<longrightarrow> c \<in> rq_arrived r'"
        using tr(1) by (auto simp: tracked_balance_def)
      have "joint_map id ?g (OnlyBalances f') = OnlyBalances f'" using f(2) tr(2) by (simp add: slot_of_key_def)
      then have "OnlyBalances f' \<in> set ?J" using f(1) by (metis imageI set_map)
      then show ?thesis using f(2-) tr(1) unfolding tracked_balance_def by blast
    qed
    show "tracked ?J r'" if tr: "tracked J r'" for r'
    proof -
      obtain f f' where f: "Both f f' \<in> set J" "mutationKey f = rq_details r'" "mutationKey f' = rq_balances r'"
        "strategy f = rq_strategy r'" "strategy f' = rq_strategy r'" "\<forall>c. entry_slot c f' \<noteq> None \<longrightarrow> c \<in> rq_arrived r'"
        using tr by (auto simp: tracked_def)
      have "Both f f' \<in> set ?J" using f(1) other [OF f(1)] by (metis imageI set_map)
      then show ?thesis using f(2-) tr unfolding tracked_def by blast
    qed
  qed
qed

text \<open>A poll that failed: its pair loses the entry of the balances.\<close>

fun drop_balances :: "nat \<Rightarrow> joint \<Rightarrow> joint" where
  "drop_balances kb (Both e e') = (if mutationKey e' = kb then OnlyDetails e else Both e e')"
| "drop_balances kb j = j"

lemma cancel_step:
  assumes s: "joint_state J s" and t: "tracked J r" and none: "rq_arrived r = {}"
  obtains sb J' where "cancel (rq_balances r) (as_balances s) = Inr sb" "joint_state J' (s\<lparr>as_balances := sb\<rparr>)"
    "\<And>r'. tracked J r' \<Longrightarrow> rq_balances r' \<noteq> rq_balances r \<Longrightarrow> tracked J' r'"
    "\<And>r'. tracked_balance J r' \<Longrightarrow> tracked_balance J' r'"
proof -
  let ?kb = "rq_balances r"
  let ?J = "map (drop_balances ?kb) J"
  obtain e e' where e: "Both e e' \<in> set J" "mutationKey e' = ?kb" "\<forall>c. entry_slot c e' \<noteq> None \<longrightarrow> c \<in> rq_arrived r"
    using t by (auto simp: tracked_def)
  have d: "distinct_keys J" by (rule joint_state_distinct [OF s])
  have empty: "entry_slot c e' = None" for c using e(3) none by auto
  have pair: "f' = e' \<and> f = e" if "Both f f' \<in> set J" "mutationKey f' = ?kb" for f f'
    using joint_of_key [OF d e(1) that(1), of f f'] that(2) e(2) by auto
  have alone: "mutationKey f' \<noteq> ?kb" if "OnlyBalances f' \<in> set J" for f'
    using joint_of_key [OF d e(1) that, of undefined f'] e(2) by auto
  have logD: "details_log (map (drop_balances k) K) = details_log K" for k K
  proof (induction K)
    case (Cons j K)
    then show ?case by (cases j) auto
  qed simp
  have logB: "balances_log (map (drop_balances ?kb) K) = filter (\<lambda>f. mutationKey f \<noteq> ?kb) (balances_log K)"
    if "set K \<subseteq> set J" for K
    using that
  proof (induction K)
    case (Cons j K)
    then show ?case using alone by (cases j) auto
  qed simp
  have "List.find (\<lambda>f. mutationKey f = ?kb) (balances_log J) = Some e'"
    using find_distinct_key [of mutationKey "balances_log J" e'] d in_logs(2) [OF e(1)] e(2) by (simp add: distinct_keys_def)
  then have can: "log_cancel ?kb (balances_log J) = Some (balances_log ?J)"
    using empty by (simp add: log_cancel_def logB entry_mutation_slots del: map_map)
  have "queue_rel Map.empty (balances_log J) (as_balances s)" using s by (auto simp: joint_state_def dest: store_run_rel)
  then obtain sb where sb: "cancel ?kb (as_balances s) = Inr sb"
    using queued.rel_cancel [OF _ can] by blast
  have run: "store_run Map.empty (balances_log ?J) sb"
    using store_run.cancelled [OF _ can sb] s by (auto simp: joint_state_def)
  have "joint_ok (Both e e')" using s e(1) by (auto simp: joint_state_def list_all_iff)
  then have e_none: "entry_mutation e = None" using empty by (auto simp: slots_ok_def entry_mutation_slots)
  have ok: "list_all joint_ok ?J"
    unfolding list.pred_map
  proof (rule list.pred_mono_strong)
    show "list_all joint_ok J" using s by (simp add: joint_state_def)
    fix j assume j: "j \<in> set J" "joint_ok j"
    show "(joint_ok \<circ> drop_balances ?kb) j"
      by (rule joint.exhaust [of j]) (use j e_none in \<open>auto dest: pair\<close>)
  qed
  show thesis
  proof (rule that [OF sb])
    show "joint_state ?J (s\<lparr>as_balances := sb\<rparr>)" using s run ok by (simp add: joint_state_def logD del: map_map)
    show "tracked ?J r'" if tr: "tracked J r'" "rq_balances r' \<noteq> ?kb" for r'
    proof -
      obtain f f' where f: "Both f f' \<in> set J" "mutationKey f = rq_details r'" "mutationKey f' = rq_balances r'"
        "strategy f = rq_strategy r'" "strategy f' = rq_strategy r'" "\<forall>c. entry_slot c f' \<noteq> None \<longrightarrow> c \<in> rq_arrived r'"
        using tr(1) by (auto simp: tracked_def)
      have "drop_balances ?kb (Both f f') = Both f f'" using f(3) tr(2) by simp
      then have "Both f f' \<in> set ?J" using f(1) by (metis imageI set_map)
      then show ?thesis using f(2-) tr(1) unfolding tracked_def by blast
    qed
    show "tracked_balance ?J r'" if tr: "tracked_balance J r'" for r'
    proof -
      obtain f' where f: "OnlyBalances f' \<in> set J" "mutationKey f' = rq_balances r'"
        "strategy f' = rq_strategy r'" "\<forall>c. entry_slot c f' \<noteq> None \<longrightarrow> c \<in> rq_arrived r'"
        using tr by (auto simp: tracked_balance_def)
      have "OnlyBalances f' \<in> set ?J" using f(1) by (metis drop_balances.simps(3) imageI set_map)
      then show ?thesis using f(2-) tr unfolding tracked_balance_def by blast
    qed
  qed
qed

subsection \<open>The invariant of the runs\<close>

lemma joint_state_toast [simp]: "joint_state J (accounts_toast l s) = joint_state J s"
  by (simp add: joint_state_def accounts_toast_def)

text \<open>Every step on the request r leaves what is known of the other requests.\<close>

definition step_ok :: "joint list \<Rightarrow> accounts_request \<Rightarrow> joint list \<Rightarrow> bool" where
  "step_ok J r J' \<longleftrightarrow> (\<forall>r'. rq_balances r' \<noteq> rq_balances r \<longrightarrow>
     (tracked J r' \<longrightarrow> tracked J' r') \<and> (tracked_balance J r' \<longrightarrow> tracked_balance J' r'))"

lemma step_ok_refl: "step_ok J r J" by (simp add: step_ok_def)

lemma sync_answer_step:
  assumes s: "joint_state J s" and t: "tracked J r" and c: "c \<in> set (qau_requests (rq_strategy r))" "c \<notin> rq_arrived r"
    and outcome: "\<And>data. outcome = Inr data \<Longrightarrow> loaded_ok c data"
    and handler: "handler \<in> {defaultErrorHandlerAccounts env, ignoreErrors}"
  obtains s' J' where "sync_settled handler r c outcome s = (arrived c r, s', None)" "joint_state J' s'"
    "tracked J' (arrived c r)" "step_ok J r J'"
proof (cases "rq_done r")
  case True
  then have "sync_settled handler r c outcome s = (arrived c r, s, None)"
    by (cases outcome) (simp_all add: sync_settled_def qau_catch_def arrived_def)
  then show ?thesis using that s tracked_arrived(1) [OF t] step_ok_refl by blast
next
  case False
  note set_both = set_both_step [OF s t c False]
  show ?thesis
  proof (cases outcome)
    case (Inr data)
    have "covers (Some (asd_accountDetailsData data)) (asd_balancesData data)" "asd_certified data = c"
      using outcome [OF Inr] by (simp_all add: loaded_ok_def)
    from set_both [OF this(1)] this(2) obtain s' J' where
      "set_both (rq_details r) (rq_balances r) (Some (asd_accountDetailsData data)) (asd_balancesData data) c s = (s', None)"
      "joint_state J' s'" "tracked J' (arrived c r)" "step_ok J r J'" "asd_certified data = c"
      unfolding step_ok_def by metis
    then show ?thesis
      using False that by (simp add: sync_settled_def Inr sync_onLoad_def arrived_def)
  next
    case (Inl err)
    show ?thesis
    proof (cases "c \<and> handler = defaultErrorHandlerAccounts env")
      case True
      have "covers None Map.empty" by (simp add: covers_def)
      from set_both [OF this] obtain s' J' where
        "set_both (rq_details r) (rq_balances r) None Map.empty c s = (s', None)"
        "joint_state J' s'" "tracked J' (arrived c r)" "step_ok J r J'"
        unfolding step_ok_def by metis
      then show ?thesis
        using True False that [of "accounts_toast (accounts_error_label env err ''error.accounts_not_found'') s'" J']
        by (simp add: sync_settled_def Inl qau_catch_def defaultErrorHandlerAccounts_def arrived_def)
    next
      case no_set: False
      then have "sync_settled handler r c outcome s = (arrived c r, s, None)"
        using handler False by (auto simp: sync_settled_def Inl qau_catch_def defaultErrorHandlerAccounts_def ignoreErrors_def arrived_def)
      then show ?thesis using that s tracked_arrived(1) [OF t] step_ok_refl by blast
    qed
  qed
qed

lemma balance_answer_step:
  assumes s: "joint_state J s" and t: "tracked_balance J r" and c: "c \<in> set (qau_requests (rq_strategy r))" "c \<notin> rq_arrived r"
  obtains s' J' where "balance_settled env i r c outcome s = (arrived c r, s', None)" "joint_state J' s'"
    "tracked_balance J' (arrived c r)" "step_ok J r J'"
proof (cases "rq_done r \<or> (\<exists>err. outcome = Inl err)")
  case True
  then have "balance_settled env i r c outcome s = (arrived c r, s, None) \<or>
      (\<exists>l. balance_settled env i r c outcome s = (arrived c r, accounts_toast l s, None))"
    by (cases outcome) (auto simp: balance_settled_def qau_catch_def arrived_def balance_onError_def)
  then show ?thesis using that s tracked_arrived(2) [OF t] step_ok_refl joint_state_toast by metis
next
  case False
  then obtain b where b: "outcome = Inr b" by (cases outcome) auto
  obtain sb J' where step: "setBalance (rq_balances r) i b c (as_balances s) = Inr sb"
    "joint_state J' (s\<lparr>as_balances := sb\<rparr>)" "tracked_balance J' (arrived c r)" "step_ok J r J'"
    using setBalance_step [OF s t c] False unfolding step_ok_def by metis
  have "balance_settled env i r c outcome s = (arrived c r, s\<lparr>as_balances := sb\<rparr>, None)"
    using False by (simp add: balance_settled_def b balance_onLoad_def step(1) arrived_def)
  then show ?thesis using that step by blast
qed

lemma poll_answer_step:
  assumes s: "joint_state J s" and t: "tracked J r" "rq_arrived r = {}" "rq_strategy r = poll_strategy env c"
    and outcome: "\<And>data. outcome = Inr data \<Longrightarrow> loaded_ok (overrideCertified env c) data"
  obtains J' where "joint_state J' (poll_finished env c r outcome s)" "step_ok J r J'"
proof (cases outcome)
  case (Inr data)
  let ?c = "overrideCertified env c"
  have "?c \<in> set (qau_requests (rq_strategy r))" by (simp add: t(3) poll_strategy_def qau_requests_def)
  moreover have "\<not> rq_done r" using t(1,2) by (simp add: tracked_def)
  moreover have "covers (Some (asd_accountDetailsData data)) (asd_balancesData data)" "?c \<notin> rq_arrived r"
    using outcome [OF Inr] t(2) by (simp_all add: loaded_ok_def)
  ultimately obtain s' J' where
    "set_both (rq_details r) (rq_balances r) (Some (asd_accountDetailsData data)) (asd_balancesData data) ?c s = (s', None)"
    "joint_state J' s'" "step_ok J r J'"
    using set_both_step [OF s t(1)] unfolding step_ok_def by metis
  then show ?thesis using that by (simp add: poll_finished_def Inr)
next
  case (Inl err)
  obtain sb J' where step: "cancel (rq_balances r) (as_balances s) = Inr sb" "joint_state J' (s\<lparr>as_balances := sb\<rparr>)" "step_ok J r J'"
    using cancel_step [OF s t(1,2)] unfolding step_ok_def by metis
  then have "joint_state J' (poll_finished env c r outcome s)"
    by (simp add: poll_finished_def Inl poll_failed_def Let_def)
  then show ?thesis using that step(3) by blast
qed

fun job_tracked :: "'w accounts_env \<Rightarrow> joint list \<Rightarrow> job \<Rightarrow> bool" where
  "job_tracked env J (Sync r) \<longleftrightarrow> tracked J r"
| "job_tracked env J (Poll r c) \<longleftrightarrow> tracked J r \<and> rq_arrived r = {} \<and> rq_strategy r = poll_strategy env c"
| "job_tracked env J (LoadBalance r i) \<longleftrightarrow> tracked_balance J r"

abbreviation job_key :: "job \<Rightarrow> nat" where
  "job_key j \<equiv> rq_balances (job_request j)"

definition accounts_inv :: "'w accounts_env \<Rightarrow> accounts_state \<Rightarrow> job set \<Rightarrow> bool" where
  "accounts_inv env s jobs \<longleftrightarrow> (\<exists>J. joint_state J s \<and> (\<forall>j\<in>jobs. job_tracked env J j) \<and> inj_on job_key jobs)"

lemma job_tracked_step:
  "step_ok J (job_request j) J' \<Longrightarrow> job_tracked env J j' \<Longrightarrow> job_key j' \<noteq> job_key j \<Longrightarrow> job_tracked env J' j'"
  by (cases j') (auto simp: step_ok_def)

lemma others_tracked:
  assumes "\<forall>j\<in>jobs. job_tracked env J j" "inj_on job_key jobs" "j \<in> jobs" "step_ok J (job_request j) J'"
  shows "\<forall>k\<in>jobs - {j}. job_tracked env J' k"
proof
  fix k assume k: "k \<in> jobs - {j}"
  then have "job_key k \<noteq> job_key j" using assms(2,3) by (auto simp: inj_on_def)
  with k assms(1,4) show "job_tracked env J' k" by (auto intro: job_tracked_step)
qed

lemma inv_replace:
  assumes "joint_state J' s'" "\<forall>j\<in>jobs. job_tracked env J j" "inj_on job_key jobs" "j \<in> jobs"
    and "step_ok J (job_request j) J'" "job_tracked env J' j'" "job_key j' = job_key j"
  shows "accounts_inv env s' (insert j' (jobs - {j}))"
proof -
  have "\<forall>k\<in>jobs - {j}. job_tracked env J' k"
    by (rule others_tracked [OF assms(2-5)])
  moreover have "inj_on job_key (insert j' (jobs - {j}))" using assms(3,4,7) by (auto simp: inj_on_def)
  ultimately show ?thesis using assms(1,6) unfolding accounts_inv_def by blast
qed

lemma inv_remove:
  assumes "joint_state J' s'" "\<forall>j\<in>jobs. job_tracked env J j" "inj_on job_key jobs" "j \<in> jobs" "step_ok J (job_request j) J'"
  shows "accounts_inv env s' (jobs - {j})"
proof -
  have "\<forall>k\<in>jobs - {j}. job_tracked env J' k"
    by (rule others_tracked [OF assms(2-5)])
  moreover have "inj_on job_key (jobs - {j})" using assms(3) by (rule inj_on_subset) auto
  ultimately show ?thesis using assms(1) unfolding accounts_inv_def by blast
qed

text \<open>A new request.\<close>

lemma job_tracked_key: "job_tracked env J j \<Longrightarrow> job_key j \<in> mutationKey ` set (balances_log J)"
  by (cases j) (auto simp: tracked_def tracked_balance_def intro!: image_eqI dest!: in_logs(2,3))

lemma job_tracked_append: "job_tracked env J j \<Longrightarrow> job_tracked env (J @ [x]) j"
  by (cases j) (auto intro: tracked_append)

lemma inv_insert:
  assumes "joint_state (J @ [x]) s'" "\<forall>j\<in>jobs. job_tracked env J j" "inj_on job_key jobs"
    and "job_tracked env (J @ [x]) j'" "job_key j' \<notin> mutationKey ` set (balances_log J)"
  shows "accounts_inv env s' (insert j' jobs)"
proof -
  have "\<forall>j\<in>jobs. job_key j \<noteq> job_key j'" using assms(2,5) job_tracked_key by metis
  then have "inj_on job_key (insert j' jobs)" using assms(3) by (auto simp: inj_on_def)
  moreover have "\<forall>j\<in>insert j' jobs. job_tracked env (J @ [x]) j" using assms(2,4) job_tracked_append by (metis insert_iff)
  ultimately show ?thesis using assms(1) unfolding accounts_inv_def by blast
qed

lemma new_entry_slots: "entry_slot c (new_entry k strat) = None" "mutationKey (new_entry k strat) = k"
  "strategy (new_entry k strat) = nullish_or strat QueryAndUpdate" "entry_mutation (new_entry k strat) = None"
  by (simp_all add: new_entry_def entry_slot_def entry_mutation_def)

lemma reserve_fresh:
  assumes "store_run d entries st" "getSingleMutationStore strat st = (k, st')"
  shows "k \<notin> mutationKey ` set entries" "store_run d (entries @ [new_entry k strat]) st'"
  using queued.rel_reserve [OF store_run_rel [OF assms(1)] assms(2)] store_run.reserved [OF assms] by auto

lemma reserve_both_step:
  assumes s: "joint_state J s" and "reserve_both strat s = (r, s')"
  obtains x where "joint_state (J @ [x]) s'" "tracked (J @ [x]) r" "rq_arrived r = {}" "rq_strategy r = nullish_or strat QueryAndUpdate"
    "rq_balances r \<notin> mutationKey ` set (balances_log J)"
proof -
  obtain kb sb where b: "getSingleMutationStore strat (as_balances s) = (kb, sb)" by force
  obtain kd sd where d: "getSingleMutationStore strat (as_details s) = (kd, sd)" by force
  have r: "r = \<lparr>rq_details = kd, rq_balances = kb, rq_strategy = nullish_or strat QueryAndUpdate, rq_done = False, rq_arrived = {}\<rparr>"
    "s' = s\<lparr>as_details := sd, as_balances := sb\<rparr>"
    using assms(2) by (simp_all add: reserve_both_def b d)
  let ?x = "Both (new_entry kd strat) (new_entry kb strat)"
  have "joint_state (J @ [?x]) s'"
    using s reserve_fresh(2) [OF _ b] reserve_fresh(2) [OF _ d]
    by (auto simp: joint_state_def r(2) slots_ok_def new_entry_slots)
  moreover have "tracked (J @ [?x]) r"
    unfolding tracked_def by (intro conjI exI [of _ "new_entry kd strat"] exI [of _ "new_entry kb strat"])
      (simp_all add: r(1) new_entry_slots)
  moreover have "kb \<notin> mutationKey ` set (balances_log J)"
    using s reserve_fresh(1) [OF _ b] unfolding joint_state_def by blast
  ultimately show ?thesis using that r(1) by simp
qed

lemma reserve_balance_step:
  assumes s: "joint_state J s" and "reserve_balance strat s = (r, s')"
  obtains x where "joint_state (J @ [x]) s'" "tracked_balance (J @ [x]) r" "rq_balances r \<notin> mutationKey ` set (balances_log J)"
proof -
  obtain kb sb where b: "getSingleMutationStore strat (as_balances s) = (kb, sb)" by force
  have r: "r = \<lparr>rq_details = 0, rq_balances = kb, rq_strategy = nullish_or strat QueryAndUpdate, rq_done = False, rq_arrived = {}\<rparr>"
    "s' = s\<lparr>as_balances := sb\<rparr>"
    using assms(2) by (simp_all add: reserve_balance_def b)
  let ?x = "OnlyBalances (new_entry kb strat)"
  have "joint_state (J @ [?x]) s'"
    using s reserve_fresh(2) [OF _ b] by (auto simp: joint_state_def r(2) new_entry_slots)
  moreover have "tracked_balance (J @ [?x]) r"
    unfolding tracked_balance_def by (intro conjI exI [of _ "new_entry kb strat"]) (simp_all add: r(1) new_entry_slots)
  moreover have "kb \<notin> mutationKey ` set (balances_log J)"
    using s reserve_fresh(1) [OF _ b] unfolding joint_state_def by blast
  ultimately show ?thesis using that r(1) by simp
qed

lemma accounts_run_inv: "accounts_run env s jobs \<Longrightarrow> accounts_inv env s jobs"
proof (induction rule: accounts_run.induct)
  case started
  have "joint_state [] accounts_start"
    by (simp add: joint_state_def accounts_start_def initIcpAccountBalancesStore_def store_run.created)
  then show ?case unfolding accounts_inv_def by auto
next
  case (sync_started s jobs r s')
  then obtain J where J: "joint_state J s" "\<forall>j\<in>jobs. job_tracked env J j" "inj_on job_key jobs" unfolding accounts_inv_def by blast
  obtain x where "joint_state (J @ [x]) s'" "tracked (J @ [x]) r" "rq_arrived r = {}"
    "rq_strategy r = nullish_or (ae_force env) QueryAndUpdate" "rq_balances r \<notin> mutationKey ` set (balances_log J)"
    by (rule reserve_both_step [OF J(1) sync_started.hyps(2)])
  then show ?case using inv_insert [OF _ J(2,3), of x s' "Sync r"] by simp
next
  case (poll_started s jobs c r s')
  then obtain J where J: "joint_state J s" "\<forall>j\<in>jobs. job_tracked env J j" "inj_on job_key jobs" unfolding accounts_inv_def by blast
  obtain x where "joint_state (J @ [x]) s'" "tracked (J @ [x]) r" "rq_arrived r = {}"
    "rq_strategy r = nullish_or (Some (poll_strategy env c)) QueryAndUpdate" "rq_balances r \<notin> mutationKey ` set (balances_log J)"
    by (rule reserve_both_step [OF J(1) poll_started.hyps(3)])
  then show ?case using inv_insert [OF _ J(2,3), of x s' "Poll r c"] by simp
next
  case (balance_started s jobs r s' i)
  then obtain J where J: "joint_state J s" "\<forall>j\<in>jobs. job_tracked env J j" "inj_on job_key jobs" unfolding accounts_inv_def by blast
  obtain x where "joint_state (J @ [x]) s'" "tracked_balance (J @ [x]) r" "rq_balances r \<notin> mutationKey ` set (balances_log J)"
    by (rule reserve_balance_step [OF J(1) balance_started.hyps(2)])
  then show ?case using inv_insert [OF _ J(2,3), of x s' "LoadBalance r i"] by simp
next
  case (sync_answered s jobs r c w outcome w' handler r' s' thrown)
  then obtain J where J: "joint_state J s" "\<forall>j\<in>jobs. job_tracked env J j" "inj_on job_key jobs" unfolding accounts_inv_def by blast
  have t: "tracked J r" using J(2) sync_answered.hyps(2) by force
  have ok: "\<And>data. outcome = Inr data \<Longrightarrow> loaded_ok c data" using sync_answered.hyps(5) by (auto dest: loadAccountsStoresData_ok)
  obtain t' J' where "sync_settled handler r c outcome s = (arrived c r, t', None)" "joint_state J' t'"
    "tracked J' (arrived c r)" "step_ok J r J'"
    by (rule sync_answer_step [OF J(1) t sync_answered.hyps(3,4) ok sync_answered.hyps(6)])
  then show ?case
    using inv_replace [OF _ J(2,3) sync_answered.hyps(2), of J' s' "Sync r'"] sync_answered.hyps(7) by auto
next
  case (balance_answered s jobs r i c outcome r' s' thrown)
  then obtain J where J: "joint_state J s" "\<forall>j\<in>jobs. job_tracked env J j" "inj_on job_key jobs" unfolding accounts_inv_def by blast
  have t: "tracked_balance J r" using J(2) balance_answered.hyps(2) by force
  obtain t' J' where "balance_settled env i r c outcome s = (arrived c r, t', None)" "joint_state J' t'"
    "tracked_balance J' (arrived c r)" "step_ok J r J'"
    by (rule balance_answer_step [OF J(1) t balance_answered.hyps(3,4)])
  then show ?case
    using inv_replace [OF _ J(2,3) balance_answered.hyps(2), of J' s' "LoadBalance r' i"] balance_answered.hyps(5) by auto
next
  case (poll_answered s jobs r c running w outcome w')
  then obtain J where J: "joint_state J s" "\<forall>j\<in>jobs. job_tracked env J j" "inj_on job_key jobs" unfolding accounts_inv_def by blast
  have t: "tracked J r" "rq_arrived r = {}" "rq_strategy r = poll_strategy env c" using J(2) poll_answered.hyps(2) by force+
  have ok: "\<And>data. outcome = Inr data \<Longrightarrow> loaded_ok (overrideCertified env c) data"
    using poll_answered.hyps(3) by (auto dest: pollLoadAccounts_ok)
  obtain J' where "joint_state J' (poll_finished env c r outcome s)" "step_ok J r J'"
    by (rule poll_answer_step [OF J(1) t ok])
  then show ?case
    using inv_remove [OF _ J(2,3) poll_answered.hyps(2)] by simp
qed

subsection \<open>The properties\<close>

lemma accounts_run_covers:
  assumes "accounts_run env s jobs"
  shows "covers (exposed (as_details s)) (exposed (as_balances s))"
proof -
  obtain J where J: "store_run None (details_log J) (as_details s)" "store_run Map.empty (balances_log J) (as_balances s)"
    "list_all joint_ok J"
    using accounts_run_inv [OF assms] unfolding accounts_inv_def joint_state_def by blast
  have "covers (replay None (details_log J)) (replay Map.empty (balances_log J))"
    by (rule covers_replay [OF J(3)]) (simp add: covers_def)
  then show ?thesis
    using queued.rel_view [OF store_run_rel [OF J(1)]] queued.rel_view [OF store_run_rel [OF J(2)]] by simp
qed

text \<open>
  C8: however the syncs, polls and reloads of balances of a session start and settle, whenever the details of the accounts are
  known, every account of the user has a balance: the list shows them all, the main account first, then the
  subaccounts, then the hardware wallets.
\<close>

theorem accounts_shown_complete:
  assumes "accounts_run env s jobs" "exposed (as_details s) = Some d"
  shows "map ac_identifier (nnsAccountsListStore (icpAccountsStore (Some (dd_accountDetails d)) (exposed (as_balances s)))) =
    getAccountIdentifiers (dd_accountDetails d)"
proof -
  let ?b = "exposed (as_balances s)" and ?d = "dd_accountDetails d"
  have cov: "\<forall>i\<in>set (getAccountIdentifiers ?d). ?b i \<noteq> None"
    using accounts_run_covers [OF assms(1)] assms(2) by (auto simp: covers_def)
  then have "map fst (map (\<lambda>a. (ac_identifier a, Some (ac_balanceUlps a))) (nnsAccountsListStore (icpAccountsStore (Some ?d) ?b))) =
      getAccountIdentifiers ?d"
    unfolding accounts_list_correct by (simp add: getAccountIdentifiers_def filter_id_conv comp_def)
  then show ?thesis by (simp add: comp_def)
qed

definition example_details :: AccountDetails where
  "example_details = \<lparr>ad_principal = ''p'', ad_account_identifier = ''main'', ad_hardware_wallet_accounts = [],
     ad_sub_accounts = [\<lparr>sa_name = ''savings'', sa_sub_account = [1], sa_account_identifier = ''sub''\<rparr>]\<rparr>"

definition example_accounts_env :: "unit accounts_env" where
  "example_accounts_env = \<lparr>ae_queryAccount = (\<lambda>_. returnE example_details), ae_addAccount = returnE (),
     ae_queryAccountBalance = (\<lambda>_ i. returnE 5), ae_createSubAccount = (\<lambda>_. returnE ()), ae_renameSubAccount = (\<lambda>_ _. returnE ()),
     ae_toIcpAccountIdentifier = id, ae_translated = (\<lambda>_. False), ae_force = None, ae_cancelled = (\<lambda>_. False), ae_wait = id\<rparr>"

theorem accounts_shown_complete_witness:
  "\<exists>s jobs. accounts_run example_accounts_env s jobs \<and> exposed (as_details s) \<noteq> None \<and>
    map ac_identifier (nnsAccountsListStore (icpAccountsStore (Some example_details) (exposed (as_balances s)))) = [''main'', ''sub'']"
proof -
  obtain r s1 where r: "reserve_both (ae_force example_accounts_env) accounts_start = (r, s1)" by force
  obtain data where data: "loadAccountsStoresData example_accounts_env True () = (Inr data, ())"
    "dd_accountDetails (asd_accountDetailsData data) = example_details" "asd_certified data"
    by (simp add: loadAccountsStoresData_def getOrCreateAccount_def example_accounts_env_def effect_defs getAccountIdentifiers_def
        example_details_def)
  obtain r' s' t where settled: "sync_settled ignoreErrors r True (Inr data) s1 = (r', s', t)" by (metis prod_cases3)
  have run1: "accounts_run example_accounts_env s1 {Sync r}"
    using accounts_run.sync_started [OF accounts_run.started r] by simp
  have rs: "r = \<lparr>rq_details = 1, rq_balances = 1, rq_strategy = QueryAndUpdate, rq_done = False, rq_arrived = {}\<rparr>"
    "s1 = \<lparr>as_details = snd (getSingleMutationStore None (queuedStore None)),
       as_balances = snd (getSingleMutationStore None (queuedStore Map.empty)), as_toasts = []\<rparr>"
    using r by (simp_all add: reserve_both_def example_accounts_env_def accounts_start_def initIcpAccountBalancesStore_def
        getSingleMutationStore_def queuedStore_def)
  have run: "accounts_run example_accounts_env s' (insert (Sync r') ({Sync r} - {Sync r}))"
    by (rule accounts_run.sync_answered [OF run1 _ _ _ data(1) _ settled]) (simp_all add: rs(1) qau_requests_def)
  have d: "exposed (as_details s') = Some (asd_accountDetailsData data)"
    using settled data(3)
    by (auto simp: rs sync_settled_def sync_onLoad_def set_both_def single_set_def queue_eval data)
  then show ?thesis
    using accounts_shown_complete [OF run d] run data(2)
    by (auto simp: example_details_def getAccountIdentifiers_def)
qed

text \<open>
  in the sessions that only query (FORCE_CALL_STRATEGY), an error of the sync of the accounts is shown to nobody:
  no toast, nothing changes in what the stores expose, and the reservations in both stores stay for ever.
\<close>

lemma query_only_sync_error_silent:
  assumes "ae_force env = Some QueryOnly"
  shows "as_toasts (syncAccounts env [(False, Inl err)] s) = as_toasts s \<and>
    exposed (as_details (syncAccounts env [(False, Inl err)] s)) = exposed (as_details s) \<and>
    exposed (as_balances (syncAccounts env [(False, Inl err)] s)) = exposed (as_balances s) \<and>
    length (mutationQueue (as_details (syncAccounts env [(False, Inl err)] s))) = Suc (length (mutationQueue (as_details s)))"
  by (simp add: syncAccounts_def syncAccountsWithErrorHandler_def reserve_both_def assms sync_settled_def qau_catch_def
      defaultErrorHandlerAccounts_def getSingleMutationStore_def)

theorem query_only_sync_error_silent_witness:
  "as_toasts (syncAccounts (example_accounts_env\<lparr>ae_force := Some QueryOnly\<rparr>) [(False, Inl (AccountsFailed None))] accounts_start) = []"
  using query_only_sync_error_silent [of "example_accounts_env\<lparr>ae_force := Some QueryOnly\<rparr>" "AccountsFailed None" accounts_start]
  by (simp add: accounts_start_def)

text \<open>A poll that fails gives back its reservation in the store of balances, not the one in the store of details.\<close>

lemma failed_poll_keeps_details_entry:
  assumes "cancel (rq_balances r) (as_balances s) = Inr b"
  shows "as_details (poll_finished env c r (Inl err) s) = as_details s \<and> as_balances (poll_finished env c r (Inl err) s) = b"
  by (simp add: poll_finished_def poll_failed_def assms accounts_toast_def Let_def)

end
