(* ===== verification/Transactions.thy ===== *)
theory Transactions
  imports Comparators JsNumber Accounts
begin

text \<open>
  The transactions of an account: frontend/src/lib/utils/transactions.utils.ts, utils/icp-transactions.utils.ts and
  utils/icrc-transactions.utils.ts (what a transaction looks like in the list of a wallet, ckBTC conversions included),
  stores/icp-transactions.store.ts and stores/icrc-transactions.store.ts, and the loading of pages in
  services/icp-transactions.services.ts and services/icrc-transactions.services.ts.  The index canister, the CBOR
  decoder and encodeIcrcAccount are parameters; an amount is a number of units of the token.
\<close>

subsection \<open>types/transaction.ts and transactions.utils.ts\<close>

datatype AccountTransactionType =
    TypeApprove | TypeBurn | TypeMint | TypeSend | TypeReceive | TypeStakeNeuron | TypeStakeNeuronNotification
  | TypeTopUpNeuron | TypeCreateCanister | TypeTopUpCanister | TypeParticipateSwap | TypeRefundSwap

text \<open>The texts the lists use.\<close>

record transaction_texts =
  tt_names :: "AccountTransactionType \<Rightarrow> string"
  tt_btc_network :: string
  tt_reimbursement :: string
  tt_btc_received :: string
  tt_btc_sent :: string
  tt_sending_btc :: string
  tt_sending_btc_failed :: string
  tt_receiving_btc :: string

text \<open>timestamp: the time value of the Date.  isFailed and isReimbursement are optional.\<close>

record UiTransaction =
  ui_domKey :: string
  ui_isIncoming :: bool
  ui_isPending :: bool
  ui_isFailed :: "bool option"
  ui_isReimbursement :: "bool option"
  ui_headline :: string
  ui_otherParty :: "string option"
  ui_tokenAmount :: int
  ui_timestamp :: "int option"

text \<open>None: the error is thrown.\<close>

definition transactionDisplayAmount :: "bool \<Rightarrow> int \<Rightarrow> int option \<Rightarrow> int option" where
  "transactionDisplayAmount useFee amount fee =
     (if useFee then (case fee of None \<Rightarrow> None | Some f \<Rightarrow> Some (amount + f)) else Some amount)"

definition transactionName :: "AccountTransactionType \<Rightarrow> transaction_texts \<Rightarrow> string" where
  "transactionName type i18n = tt_names i18n type"

fun unique_loop :: "('t \<Rightarrow> int) \<Rightarrow> int set \<Rightarrow> 't list \<Rightarrow> 't list" where
  "unique_loop tx_id txIds [] = []"
| "unique_loop tx_id txIds (tx # rest) =
     (if tx_id tx \<notin> txIds then tx # unique_loop tx_id (insert (tx_id tx) txIds) rest else unique_loop tx_id txIds rest)"

definition getUniqueTransactions :: "('t \<Rightarrow> int) \<Rightarrow> 't list \<Rightarrow> 't list" where
  "getUniqueTransactions tx_id transactions = unique_loop tx_id {} transactions"

definition NANO_SECONDS_IN_MILLISECOND :: number where
  "NANO_SECONDS_IN_MILLISECOND = 1000000"

text \<open>new Date of Number(nanoseconds) / NANO_SECONDS_IN_MILLISECOND: the time value has no fraction.\<close>

definition date_of_nanos :: "int \<Rightarrow> int" where
  "date_of_nanos nanos = (let ms = num_div (to_number nanos) NANO_SECONDS_IN_MILLISECOND in if 0 \<le> ms then \<lfloor>ms\<rfloor> else \<lceil>ms\<rceil>)"

definition dom_key :: "int \<Rightarrow> bool \<Rightarrow> string" where
  "dom_key i toSelfTransaction = int_to_string i @ ''-'' @ (if toSelfTransaction then ''0'' else ''1'')"

subsection \<open>icp-transactions.utils.ts\<close>

text \<open>
  The operations of the ICP ledger with the fields the code reads; OtherOperation is one that the code does not know.
\<close>

datatype Operation =
    ApproveOp (op_from: string) (op_fee: int)
  | BurnOp (op_from: string) (op_amount: int)
  | MintOp (op_to: string) (op_amount: int)
  | TransferOp (op_to: string) (op_fee: int) (op_from: string) (op_amount: int)
  | OtherOperation

record IcpTransaction =
  ix_id :: int
  ix_memo :: int
  ix_operation :: Operation
  ix_timestamp :: "int option"
  ix_created_at_time :: "int option"

fun isToSelf_icp :: "Operation \<Rightarrow> bool" where
  "isToSelf_icp (TransferOp to fee from amount) \<longleftrightarrow> to = from"
| "isToSelf_icp _ \<longleftrightarrow> False"

definition mapToSelfTransactions_icp :: "IcpTransaction list \<Rightarrow> (IcpTransaction \<times> bool) list" where
  "mapToSelfTransactions_icp transactions =
     concat (map (\<lambda>t. if isToSelf_icp (ix_operation t) then [(t, True), (t, False)] else [(t, False)]) transactions)"

definition sortTransactionsByIdDescendingOrder :: "IcpTransaction list \<Rightarrow> IcpTransaction list" where
  "sortTransactionsByIdDescendingOrder transactions = js_sort (\<lambda>a b. if ix_id a > ix_id b then -1 else 1) transactions"

definition CREATE_CANISTER_MEMO :: int where
  "CREATE_CANISTER_MEMO = 0x41455243"

definition TOP_UP_CANISTER_MEMO :: int where
  "TOP_UP_CANISTER_MEMO = 0x50555054"

text \<open>Inl: the TypeError of reading a field of undefined.\<close>

fun getTransactionType :: "Operation \<Rightarrow> int \<Rightarrow> string set \<Rightarrow> string set \<Rightarrow> bool \<Rightarrow> unit + AccountTransactionType" where
  "getTransactionType (BurnOp from amount) memo neuronAccounts swapCanisterAccounts isReceive = Inr TypeBurn"
| "getTransactionType (MintOp to amount) memo neuronAccounts swapCanisterAccounts isReceive = Inr TypeMint"
| "getTransactionType (ApproveOp from fee) memo neuronAccounts swapCanisterAccounts isReceive = Inr TypeApprove"
| "getTransactionType (TransferOp to fee from amount) memo neuronAccounts swapCanisterAccounts isReceive =
     Inr (if to \<in> swapCanisterAccounts then TypeParticipateSwap
          else if from \<in> swapCanisterAccounts then TypeRefundSwap
          else if memo = CREATE_CANISTER_MEMO then TypeCreateCanister
          else if memo = TOP_UP_CANISTER_MEMO then TypeTopUpCanister
          else if to \<in> neuronAccounts then (if memo > 0 then TypeStakeNeuron else TypeTopUpNeuron)
          else if isReceive then TypeReceive else TypeSend)"
| "getTransactionType OtherOperation memo neuronAccounts swapCanisterAccounts isReceive = Inl ()"

record IcpTransactionInfo =
  ii_to :: "string option"
  ii_from :: "string option"
  ii_amount :: int
  ii_fee :: int

fun getTransactionInformation_icp :: "Operation \<Rightarrow> unit + IcpTransactionInfo" where
  "getTransactionInformation_icp (ApproveOp from fee) = Inr \<lparr>ii_to = None, ii_from = Some from, ii_amount = 0, ii_fee = fee\<rparr>"
| "getTransactionInformation_icp (BurnOp from amount) = Inr \<lparr>ii_to = None, ii_from = Some from, ii_amount = amount, ii_fee = 0\<rparr>"
| "getTransactionInformation_icp (MintOp to amount) = Inr \<lparr>ii_to = Some to, ii_from = None, ii_amount = amount, ii_fee = 0\<rparr>"
| "getTransactionInformation_icp (TransferOp to fee from amount) =
     Inr \<lparr>ii_to = Some to, ii_from = Some from, ii_amount = amount, ii_fee = fee\<rparr>"
| "getTransactionInformation_icp OtherOperation = Inl ()"

record IcpTransactionReport =
  rp_type :: AccountTransactionType
  rp_to :: "string option"
  rp_from :: "string option"
  rp_tokenAmount :: int
  rp_timestampNanos :: "int option"

definition timestamp_nanos :: "IcpTransaction \<Rightarrow> int option" where
  "timestamp_nanos t = nullish_alt (ix_timestamp t) (ix_created_at_time t)"

definition mapIcpTransactionToReport :: "IcpTransaction \<Rightarrow> string \<Rightarrow> string set \<Rightarrow> string set \<Rightarrow> unit + IcpTransactionReport" where
  "mapIcpTransactionToReport transaction accountIdentifier neuronAccounts swapCanisterAccounts =
     (case getTransactionInformation_icp (ix_operation transaction) of
        Inl e \<Rightarrow> Inl e
      | Inr txInfo \<Rightarrow>
          (let isSelfTransaction = isToSelf_icp (ix_operation transaction);
               isReceive = (isSelfTransaction \<or> ii_from txInfo \<noteq> Some accountIdentifier);
               useFee = (\<not> isReceive);
               feeApplied = (if useFee \<and> ii_fee txInfo \<noteq> 0 then ii_fee txInfo else 0)
           in case getTransactionType (ix_operation transaction) (ix_memo transaction) neuronAccounts swapCanisterAccounts isReceive of
                Inl e \<Rightarrow> Inl e
              | Inr type \<Rightarrow> Inr \<lparr>rp_type = type, rp_to = ii_to txInfo, rp_from = ii_from txInfo,
                  rp_tokenAmount = ii_amount txInfo + feeApplied, rp_timestampNanos = timestamp_nanos transaction\<rparr>))"

text \<open>Inl: the error is caught and shown in a toast, and the result is undefined.\<close>

definition mapIcpTransactionToUi ::
  "IcpTransaction \<Rightarrow> string \<Rightarrow> bool \<Rightarrow> string set \<Rightarrow> string set \<Rightarrow> transaction_texts \<Rightarrow> unit + UiTransaction" where
  "mapIcpTransactionToUi transaction accountIdentifier toSelfTransaction neuronAccounts swapCanisterAccounts i18n =
     (case getTransactionInformation_icp (ix_operation transaction) of
        Inl e \<Rightarrow> Inl e
      | Inr txInfo \<Rightarrow>
          (let isReceive = (toSelfTransaction \<or> ii_from txInfo \<noteq> Some accountIdentifier);
               useFee = (\<not> isReceive);
               feeApplied = (if useFee then ii_fee txInfo else 0)
           in case getTransactionType (ix_operation transaction) (ix_memo transaction) neuronAccounts swapCanisterAccounts isReceive of
                Inl e \<Rightarrow> Inl e
              | Inr type \<Rightarrow> Inr \<lparr>ui_domKey = dom_key (ix_id transaction) toSelfTransaction,
                  ui_isIncoming = isReceive, ui_isPending = False, ui_isFailed = Some False, ui_isReimbursement = Some False,
                  ui_headline = transactionName type i18n,
                  ui_otherParty = (if isReceive then ii_from txInfo else ii_to txInfo),
                  ui_tokenAmount = ii_amount txInfo + feeApplied,
                  ui_timestamp = map_option date_of_nanos (timestamp_nanos transaction)\<rparr>))"

subsection \<open>icp-transactions.store.ts\<close>

record 't TransactionsOfAccount =
  ta_transactions :: "'t list"
  ta_oldestTxId :: "int option"
  ta_completed :: bool

text \<open>The entry of an account after a page: the ids seen before win, and the oldest id known is kept.\<close>

definition add_page ::
  "('t \<Rightarrow> int) \<Rightarrow> 't TransactionsOfAccount option \<Rightarrow> 't list \<Rightarrow> int option \<Rightarrow> bool \<Rightarrow> 't TransactionsOfAccount" where
  "add_page tx_id accountState transactions oldestTxId completed =
     (let oldest = Option.bind accountState ta_oldestTxId
      in \<lparr>ta_transactions = getUniqueTransactions tx_id (nullish_or (map_option ta_transactions accountState) [] @ transactions),
          ta_oldestTxId = (case oldestTxId of
             None \<Rightarrow> oldest
           | Some i \<Rightarrow> if i \<le> nullish_or oldest i then Some i else oldest),
          ta_completed = completed\<rparr>)"

type_synonym IcpTransactionsStoreData = "string \<rightharpoonup> IcpTransaction TransactionsOfAccount"

definition addTransactions_icp ::
  "string \<Rightarrow> IcpTransaction list \<Rightarrow> int option \<Rightarrow> bool \<Rightarrow> IcpTransactionsStoreData \<Rightarrow> IcpTransactionsStoreData" where
  "addTransactions_icp accountIdentifier transactions oldestTxId completed currentState =
     currentState(accountIdentifier \<mapsto> add_page ix_id (currentState accountIdentifier) transactions oldestTxId completed)"

definition resetAccount_icp :: "string \<Rightarrow> IcpTransactionsStoreData \<Rightarrow> IcpTransactionsStoreData" where
  "resetAccount_icp accountIdentifier currentState = currentState(accountIdentifier := None)"

subsection \<open>icp-transactions.services.ts\<close>

definition DEFAULT_INDEX_TRANSACTION_PAGE_LIMIT :: nat where
  "DEFAULT_INDEX_TRANSACTION_PAGE_LIMIT = 20"

text \<open>
  getTransactions of the index canister: an account, the most results and where to start give a page and the oldest id
  of the account, or an error.  The second component of the state counts the error toasts.
\<close>

type_synonym 't index_api = "string \<Rightarrow> nat \<Rightarrow> int option \<Rightarrow> unit + 't list \<times> int option"

definition loadIcpAccountTransactions ::
  "IcpTransaction index_api \<Rightarrow> string \<Rightarrow> int option \<Rightarrow> IcpTransactionsStoreData \<times> nat \<Rightarrow> IcpTransactionsStoreData \<times> nat" where
  "loadIcpAccountTransactions getTransactions accountIdentifier start st =
     (case getTransactions accountIdentifier DEFAULT_INDEX_TRANSACTION_PAGE_LIMIT start of
        Inl _ \<Rightarrow> (fst st, Suc (snd st))
      | Inr (transactions, oldestTxId) \<Rightarrow>
          (let completed = (oldestTxId = None \<or> (\<exists>t\<in>set transactions. Some (ix_id t) = oldestTxId))
           in (addTransactions_icp accountIdentifier transactions oldestTxId completed (fst st), snd st)))"

text \<open>sort sorts the array of the store in place.\<close>

definition loadIcpAccountNextTransactions ::
  "IcpTransaction index_api \<Rightarrow> string \<Rightarrow> IcpTransactionsStoreData \<times> nat \<Rightarrow> IcpTransactionsStoreData \<times> nat" where
  "loadIcpAccountNextTransactions getTransactions accountIdentifier st =
     (case fst st accountIdentifier of
        None \<Rightarrow> loadIcpAccountTransactions getTransactions accountIdentifier None st
      | Some entry \<Rightarrow>
          (let sorted = sortTransactionsByIdDescendingOrder (ta_transactions entry);
               lastTxIdStore = (if sorted = [] then None else Some (ix_id (last sorted)))
           in loadIcpAccountTransactions getTransactions accountIdentifier lastTxIdStore
                ((fst st)(accountIdentifier \<mapsto> entry\<lparr>ta_transactions := sorted\<rparr>), snd st)))"

text \<open>pages/NnsWallet.svelte: the rows of an account, None while nothing is loaded.\<close>

definition makeUiTransactions ::
  "string option \<Rightarrow> IcpTransactionsStoreData \<Rightarrow> string set \<Rightarrow> string set \<Rightarrow> transaction_texts \<Rightarrow> UiTransaction list option" where
  "makeUiTransactions account transactionsStore swapCanisterAccounts neuronAccounts i18n =
     Option.bind account (\<lambda>identifier. map_option (\<lambda>entry.
       concat (map (\<lambda>(transaction, toSelfTransaction).
           case mapIcpTransactionToUi transaction identifier toSelfTransaction neuronAccounts swapCanisterAccounts i18n of
             Inl _ \<Rightarrow> [] | Inr ui \<Rightarrow> [ui])
         (mapToSelfTransactions_icp (sortTransactionsByIdDescendingOrder (ta_transactions entry)))))
       (transactionsStore identifier))"

subsection \<open>icrc-transactions.utils.ts\<close>

type_synonym icrc_owner = "string \<times> nat list option"

record icrc_approve =
  ap_from :: icrc_owner
  ap_amount :: int
  ap_fee :: "int option"

record icrc_burn =
  bu_from :: icrc_owner
  bu_amount :: int
  bu_memo :: "nat list option"

record icrc_mint =
  mi_to :: icrc_owner
  mi_amount :: int
  mi_memo :: "nat list option"

record icrc_transfer =
  tf_from :: icrc_owner
  tf_to :: icrc_owner
  tf_amount :: int
  tf_fee :: "int option"
  tf_memo :: "nat list option"

text \<open>The optional parts of a transaction are lists of at most one element in Candid.\<close>

record IcrcLedgerTransaction =
  it_id :: int
  it_timestamp :: int
  it_approve :: "icrc_approve option"
  it_burn :: "icrc_burn option"
  it_mint :: "icrc_mint option"
  it_transfer :: "icrc_transfer option"

text \<open>Byte arrays are compared by their hex texts, which differ when the bytes do.\<close>

definition isToSelf_icrc :: "IcrcLedgerTransaction \<Rightarrow> bool" where
  "isToSelf_icrc transaction =
     (case it_transfer transaction of
        None \<Rightarrow> False
      | Some t \<Rightarrow>
          if fst (tf_from t) \<noteq> fst (tf_to t) then False
          else (case snd (tf_from t) of
                  None \<Rightarrow> snd (tf_to t) = None
                | Some fromSub \<Rightarrow> (case snd (tf_to t) of None \<Rightarrow> False
                    | Some toSub \<Rightarrow> fromSub = toSub)))"

definition mapToSelfTransactions_icrc :: "IcrcLedgerTransaction list \<Rightarrow> (IcrcLedgerTransaction \<times> bool) list" where
  "mapToSelfTransactions_icrc transactions =
     concat (map (\<lambda>t. if isToSelf_icrc t then [(t, True), (t, False)] else [(t, False)]) transactions)"

type_synonym IcrcTransactionsStoreData = "string \<rightharpoonup> (string \<rightharpoonup> IcrcLedgerTransaction TransactionsOfAccount)"

definition account_entry ::
  "IcrcTransactionsStoreData \<Rightarrow> string \<Rightarrow> string \<Rightarrow> IcrcLedgerTransaction TransactionsOfAccount option" where
  "account_entry store canisterId identifier = Option.bind (store canisterId) (\<lambda>project. project identifier)"

definition getSortedTransactionsFromStore ::
  "IcrcTransactionsStoreData \<Rightarrow> string \<Rightarrow> string \<Rightarrow> (IcrcLedgerTransaction \<times> bool) list" where
  "getSortedTransactionsFromStore store canisterId identifier =
     js_sort (\<lambda>(txA, _) (txB, _). it_timestamp txB - it_timestamp txA)
       (mapToSelfTransactions_icrc (nullish_or (map_option ta_transactions (account_entry store canisterId identifier)) []))"

definition isIcrcTransactionsCompleted :: "IcrcTransactionsStoreData \<Rightarrow> string \<Rightarrow> string \<Rightarrow> bool" where
  "isIcrcTransactionsCompleted store canisterId identifier =
     nullish_or (map_option ta_completed (account_entry store canisterId identifier)) False"

text \<open>Inl: the error is thrown.\<close>

definition getIcrcTransactionType ::
  "IcrcLedgerTransaction \<Rightarrow> string option \<Rightarrow> bool \<Rightarrow> unit + AccountTransactionType" where
  "getIcrcTransactionType transaction governanceCanisterId isReceive =
     (if it_approve transaction \<noteq> None then Inr TypeApprove
      else if it_burn transaction \<noteq> None then Inr TypeBurn
      else if it_mint transaction \<noteq> None then Inr TypeMint
      else (case it_transfer transaction of
              Some transfer \<Rightarrow>
                if Some (fst (tf_to transfer)) = governanceCanisterId
                then Inr (if tf_memo transfer \<noteq> None then TypeStakeNeuron else TypeTopUpNeuron)
                else Inr (if isReceive then TypeReceive else TypeSend)
            | None \<Rightarrow> Inl ()))"

record IcrcTransactionInfo =
  ri_to :: "icrc_owner option"
  ri_from :: "icrc_owner option"
  ri_amount :: int
  ri_fee :: "int option"

definition getTransactionInformation_icrc :: "IcrcLedgerTransaction \<Rightarrow> unit + IcrcTransactionInfo" where
  "getTransactionInformation_icrc transaction =
     (case it_approve transaction of
        Some a \<Rightarrow> Inr \<lparr>ri_to = None, ri_from = Some (ap_from a), ri_amount = 0, ri_fee = ap_fee a\<rparr>
      | None \<Rightarrow> (case it_burn transaction of
          Some b \<Rightarrow> Inr \<lparr>ri_to = None, ri_from = Some (bu_from b), ri_amount = bu_amount b, ri_fee = None\<rparr>
        | None \<Rightarrow> (case it_mint transaction of
            Some m \<Rightarrow> Inr \<lparr>ri_to = Some (mi_to m), ri_from = None, ri_amount = mi_amount m, ri_fee = None\<rparr>
          | None \<Rightarrow> (case it_transfer transaction of
              Some t \<Rightarrow> Inr \<lparr>ri_to = Some (tf_to t), ri_from = Some (tf_from t), ri_amount = tf_amount t, ri_fee = tf_fee t\<rparr>
            | None \<Rightarrow> Inl ()))))"

text \<open>
  The identifier of an account is the text of encodeIcrcAccount.  Inl: an error toast and undefined; without a token
  the result is undefined.
\<close>

definition mapIcrcTransaction ::
  "(icrc_owner \<Rightarrow> string) \<Rightarrow> IcrcLedgerTransaction \<Rightarrow> string \<Rightarrow> bool \<Rightarrow> string option \<Rightarrow> 'token option \<Rightarrow> transaction_texts
     \<Rightarrow> unit + UiTransaction option" where
  "mapIcrcTransaction encode transaction identifier toSelfTransaction governanceCanisterId token i18n =
     (if token = None then Inr None
      else case getTransactionInformation_icrc transaction of
        Inl e \<Rightarrow> Inl e
      | Inr txInfo \<Rightarrow>
          (let isReceive = (toSelfTransaction \<or> map_option encode (ri_from txInfo) \<noteq> Some identifier);
               useFee = (\<not> isReceive);
               feeApplied = (if useFee then nullish_or (ri_fee txInfo) 0 else 0)
           in case getIcrcTransactionType transaction governanceCanisterId isReceive of
                Inl e \<Rightarrow> Inl e
              | Inr type \<Rightarrow> Inr (Some \<lparr>ui_domKey = dom_key (it_id transaction) toSelfTransaction,
                  ui_isIncoming = isReceive, ui_isPending = False, ui_isFailed = None, ui_isReimbursement = None,
                  ui_headline = transactionName type i18n,
                  ui_otherParty = map_option encode (if isReceive then ri_from txInfo else ri_to txInfo),
                  ui_tokenAmount = ri_amount txInfo + feeApplied,
                  ui_timestamp = Some (date_of_nanos (it_timestamp transaction))\<rparr>)))"

subsection \<open>ckBTC\<close>

datatype RetrieveBtcStatusV2 =
    StatusReimbursed | StatusAmountTooLow | StatusPending | StatusSigning | StatusSending | StatusSubmitted
  | StatusWillReimburse | StatusConfirmed | StatusUnknown

definition MINT_TYPE_KYT_FAIL :: int where
  "MINT_TYPE_KYT_FAIL = 2"

text \<open>
  decodeMint gives the first element of the decoded memo of a mint, decodeBurn the address in that of a burn; None when decoding or
  reading throws.
\<close>

record ckbtc_memos =
  cm_decodeMint :: "nat list \<Rightarrow> int option"
  cm_decodeBurn :: "nat list option \<Rightarrow> string option option"

definition isCkbtcReimbursementMintMemo :: "ckbtc_memos \<Rightarrow> nat list option \<Rightarrow> bool" where
  "isCkbtcReimbursementMintMemo cbor memo =
     (case memo of
        None \<Rightarrow> False
      | Some bytes \<Rightarrow>
          if length bytes = 0 \<or> length bytes = 32 then False
          else (case cm_decodeMint cbor bytes of None \<Rightarrow> False | Some mintType \<Rightarrow> mintType = MINT_TYPE_KYT_FAIL))"

text \<open>What the state of the conversion makes of a burn.\<close>

fun burn_status :: "transaction_texts \<Rightarrow> RetrieveBtcStatusV2 option \<Rightarrow> UiTransaction \<Rightarrow> UiTransaction" where
  "burn_status i18n None ui = ui"
| "burn_status i18n (Some status) ui =
     (if status \<in> {StatusReimbursed, StatusAmountTooLow}
      then ui\<lparr>ui_headline := tt_sending_btc_failed i18n, ui_isFailed := Some True\<rparr>
      else if status \<in> {StatusPending, StatusSigning, StatusSending, StatusSubmitted, StatusWillReimburse}
      then ui\<lparr>ui_headline := tt_sending_btc i18n, ui_isPending := True\<rparr>
      else ui)"

definition mapCkbtcTransaction ::
  "(icrc_owner \<Rightarrow> string) \<Rightarrow> ckbtc_memos \<Rightarrow> IcrcLedgerTransaction \<Rightarrow> string \<Rightarrow> bool \<Rightarrow> string option \<Rightarrow> 'token option \<Rightarrow> transaction_texts
     \<Rightarrow> RetrieveBtcStatusV2 option \<Rightarrow> unit + UiTransaction option" where
  "mapCkbtcTransaction encode cbor transaction identifier toSelfTransaction governanceCanisterId token i18n retrieveBtcStatus =
     map_sum id (map_option (\<lambda>ui.
       case it_mint transaction of
         Some mint \<Rightarrow>
           (if isCkbtcReimbursementMintMemo cbor (mi_memo mint)
            then ui\<lparr>ui_otherParty := Some (tt_btc_network i18n), ui_headline := tt_reimbursement i18n, ui_isReimbursement := Some True\<rparr>
            else ui\<lparr>ui_otherParty := Some (tt_btc_network i18n), ui_headline := tt_btc_received i18n\<rparr>)
       | None \<Rightarrow> (case it_burn transaction of
           None \<Rightarrow> ui
         | Some burn \<Rightarrow> (burn_status i18n retrieveBtcStatus (ui\<lparr>ui_headline := tt_btc_sent i18n\<rparr>))\<lparr>ui_otherParty :=
             (case cm_decodeBurn cbor (bu_memo burn) of Some withdrawalAddress \<Rightarrow> withdrawalAddress
              | None \<Rightarrow> Some (tt_btc_network i18n))\<rparr>)))
     (mapIcrcTransaction encode transaction identifier toSelfTransaction governanceCanisterId token i18n)"

text \<open>
  The loop of mapCkbtcTransactions: the rows so far, the transaction before, and whether it gave the last row (prevUiTransaction is
  that row, which the loop changes in place; it stays the same after a merge).
\<close>

record ckbtc_rows =
  cr_rows :: "UiTransaction list"
  cr_prevTransaction :: "IcrcLedgerTransaction option"
  cr_prevUi :: bool

definition addFee :: "int \<Rightarrow> UiTransaction \<Rightarrow> UiTransaction" where
  "addFee fee ui = ui\<lparr>ui_tokenAmount := ui_tokenAmount ui + fee\<rparr>"

definition ckbtc_row ::
  "(IcrcLedgerTransaction \<Rightarrow> bool \<Rightarrow> RetrieveBtcStatusV2 option \<Rightarrow> unit + UiTransaction option) \<Rightarrow> (int \<rightharpoonup> RetrieveBtcStatusV2)
     \<Rightarrow> ckbtc_rows \<Rightarrow> IcrcLedgerTransaction \<times> bool \<Rightarrow> ckbtc_rows" where
  "ckbtc_row mapTransaction statusById st row =
     (case row of (transaction, toSelfTransaction) \<Rightarrow>
      case Option.bind (it_approve transaction) ap_fee of
        Some fee \<Rightarrow>
          if Option.bind (cr_prevTransaction st) it_burn \<noteq> None \<and> cr_prevUi st
          then st\<lparr>cr_rows := butlast (cr_rows st) @ [addFee fee (last (cr_rows st))], cr_prevTransaction := Some transaction\<rparr>
          else (case mapTransaction transaction toSelfTransaction (statusById (it_id transaction)) of
                  Inr (Some ui) \<Rightarrow> \<lparr>cr_rows = cr_rows st @ [ui], cr_prevTransaction = Some transaction, cr_prevUi = True\<rparr>
                | _ \<Rightarrow> \<lparr>cr_rows = cr_rows st, cr_prevTransaction = Some transaction, cr_prevUi = False\<rparr>)
      | None \<Rightarrow>
          (case mapTransaction transaction toSelfTransaction (statusById (it_id transaction)) of
             Inr (Some ui) \<Rightarrow> \<lparr>cr_rows = cr_rows st @ [ui], cr_prevTransaction = Some transaction, cr_prevUi = True\<rparr>
           | _ \<Rightarrow> \<lparr>cr_rows = cr_rows st, cr_prevTransaction = Some transaction, cr_prevUi = False\<rparr>))"

definition status_map :: "(int \<times> RetrieveBtcStatusV2 option) list \<Rightarrow> (int \<rightharpoonup> RetrieveBtcStatusV2)" where
  "status_map retrieveBtcStatuses = foldl (\<lambda>m (id, status). case status of None \<Rightarrow> m | Some s \<Rightarrow> m(id \<mapsto> s)) Map.empty retrieveBtcStatuses"

definition mapCkbtcTransactions ::
  "(icrc_owner \<Rightarrow> string) \<Rightarrow> ckbtc_memos \<Rightarrow> (IcrcLedgerTransaction \<times> bool) list \<Rightarrow> string \<Rightarrow> 'token option \<Rightarrow> transaction_texts
     \<Rightarrow> (int \<times> RetrieveBtcStatusV2 option) list \<Rightarrow> UiTransaction list" where
  "mapCkbtcTransactions encode cbor transactionData identifier token i18n retrieveBtcStatuses =
     (let statusById = status_map retrieveBtcStatuses
      in cr_rows (foldl (ckbtc_row (\<lambda>t self. mapCkbtcTransaction encode cbor t identifier self None token i18n) statusById)
           \<lparr>cr_rows = [], cr_prevTransaction = None, cr_prevUi = False\<rparr> transactionData))"

definition mapCkbtcPendingUtxo :: "string \<Rightarrow> int \<Rightarrow> int \<Rightarrow> int \<Rightarrow> transaction_texts \<Rightarrow> UiTransaction" where
  "mapCkbtcPendingUtxo txidHex vout utxo_value kytFee i18n =
     \<lparr>ui_domKey = txidHex @ ''-'' @ int_to_string vout, ui_isIncoming = True, ui_isPending = True, ui_isFailed = None,
      ui_isReimbursement = None, ui_headline = tt_receiving_btc i18n, ui_otherParty = Some (tt_btc_network i18n),
      ui_tokenAmount = utxo_value - kytFee, ui_timestamp = None\<rparr>"

subsection \<open>icrc-transactions.store.ts and icrc-transactions.services.ts\<close>

definition addTransactions_icrc ::
  "string \<Rightarrow> string \<Rightarrow> IcrcLedgerTransaction list \<Rightarrow> int option \<Rightarrow> bool \<Rightarrow> IcrcTransactionsStoreData \<Rightarrow> IcrcTransactionsStoreData" where
  "addTransactions_icrc accountIdentifier canisterId transactions oldestTxId completed currentState =
     (let projectState = nullish_or (currentState canisterId) Map.empty
      in currentState(canisterId \<mapsto> projectState(accountIdentifier \<mapsto>
           add_page it_id (projectState accountIdentifier) transactions oldestTxId completed)))"

definition resetUniverse_icrc :: "string \<Rightarrow> IcrcTransactionsStoreData \<Rightarrow> IcrcTransactionsStoreData" where
  "resetUniverse_icrc canisterId currentState = currentState(canisterId := None)"

definition resetAccount_icrc :: "string \<Rightarrow> string \<Rightarrow> IcrcTransactionsStoreData \<Rightarrow> IcrcTransactionsStoreData" where
  "resetAccount_icrc canisterId accountIdentifier currentState =
     currentState(canisterId := map_option (\<lambda>project. project(accountIdentifier := None)) (currentState canisterId))"

text \<open>sort sorts the array of the store in place: the entry with its transactions oldest first, and the first of them.\<close>

definition getOldestTxIdFromStore ::
  "IcrcTransactionsStoreData \<Rightarrow> string \<Rightarrow> string \<Rightarrow> int option \<times> IcrcTransactionsStoreData" where
  "getOldestTxIdFromStore store ledgerCanisterId identifier =
     (case account_entry store ledgerCanisterId identifier of
        None \<Rightarrow> (None, store)
      | Some accountData \<Rightarrow>
          (let sorted = js_sort (\<lambda>a b. it_timestamp a - it_timestamp b) (ta_transactions accountData)
           in (case sorted of [] \<Rightarrow> None | t # _ \<Rightarrow> Some (it_id t),
               store(ledgerCanisterId \<mapsto> (the (store ledgerCanisterId))(identifier \<mapsto> accountData\<lparr>ta_transactions := sorted\<rparr>)))))"

definition loadIcrcAccountTransactions ::
  "IcrcLedgerTransaction index_api \<Rightarrow> string \<Rightarrow> string \<Rightarrow> int option \<Rightarrow> IcrcTransactionsStoreData \<times> nat \<Rightarrow> IcrcTransactionsStoreData \<times> nat" where
  "loadIcrcAccountTransactions getTransactions identifier ledgerCanisterId start st =
     (let maxResults = DEFAULT_INDEX_TRANSACTION_PAGE_LIMIT
      in case getTransactions identifier maxResults start of
           Inl _ \<Rightarrow> (fst st, Suc (snd st))
         | Inr (transactions, oldestTxId) \<Rightarrow>
             (let completed = (length transactions < maxResults)
              in (addTransactions_icrc identifier ledgerCanisterId transactions oldestTxId completed (fst st), snd st)))"

definition loadIcrcAccountNextTransactions ::
  "IcrcLedgerTransaction index_api \<Rightarrow> string \<Rightarrow> string \<Rightarrow> IcrcTransactionsStoreData \<times> nat \<Rightarrow> IcrcTransactionsStoreData \<times> nat" where
  "loadIcrcAccountNextTransactions getTransactions identifier ledgerCanisterId st =
     (case getOldestTxIdFromStore (fst st) ledgerCanisterId identifier of
        (currentOldestTxId, store) \<Rightarrow>
          loadIcrcAccountTransactions getTransactions identifier ledgerCanisterId currentOldestTxId (store, snd st))"

text \<open>observer.services.ts: what a worker found, one entry per account with its transactions and the oldest id.\<close>

definition addObservedIcrcTransactionsToStore ::
  "string \<Rightarrow> bool \<Rightarrow> (string \<times> IcrcLedgerTransaction list \<times> int option) list \<Rightarrow> IcrcTransactionsStoreData \<Rightarrow> IcrcTransactionsStoreData" where
  "addObservedIcrcTransactionsToStore ledgerCanisterId completed transactions store =
     foldl (\<lambda>s (accountIdentifier, jsonTransactions, oldestTxId).
       addTransactions_icrc accountIdentifier ledgerCanisterId jsonTransactions oldestTxId completed s) store transactions"

subsection \<open>The rows of a wallet and the balance\<close>

text \<open>What an operation does to the balance of an account of the ledger.\<close>

fun ledger_effect :: "string \<Rightarrow> Operation \<Rightarrow> int" where
  "ledger_effect a (ApproveOp from fee) = (if from = a then - fee else 0)"
| "ledger_effect a (BurnOp from amount) = (if from = a then - amount else 0)"
| "ledger_effect a (MintOp to amount) = (if to = a then amount else 0)"
| "ledger_effect a (TransferOp to fee from amount) = (if to = a then amount else 0) - (if from = a then amount + fee else 0)"
| "ledger_effect a OtherOperation = 0"

text \<open>The transactions the index canister lists for an account: it is where tokens come from or go to, or it approves.\<close>

fun party :: "string \<Rightarrow> Operation \<Rightarrow> bool" where
  "party a (ApproveOp from fee) \<longleftrightarrow> True"
| "party a (BurnOp from amount) \<longleftrightarrow> from = a"
| "party a (MintOp to amount) \<longleftrightarrow> to = a"
| "party a (TransferOp to fee from amount) \<longleftrightarrow> to = a \<or> from = a"
| "party a OtherOperation \<longleftrightarrow> False"

definition signed_amount :: "UiTransaction \<Rightarrow> int" where
  "signed_amount ui = (if ui_isIncoming ui then ui_tokenAmount ui else - ui_tokenAmount ui)"

definition ui_rows :: "string \<Rightarrow> string set \<Rightarrow> string set \<Rightarrow> transaction_texts \<Rightarrow> IcpTransaction list \<Rightarrow> UiTransaction list" where
  "ui_rows a neuronAccounts swapCanisterAccounts i18n transactions =
     concat (map (\<lambda>(t, self). case mapIcpTransactionToUi t a self neuronAccounts swapCanisterAccounts i18n of
         Inl _ \<Rightarrow> [] | Inr ui \<Rightarrow> [ui]) (mapToSelfTransactions_icp transactions))"

lemma ui_rows_Cons:
  "ui_rows a N S i18n (t # ts) = ui_rows a N S i18n [t] @ ui_rows a N S i18n ts"
  by (simp add: ui_rows_def mapToSelfTransactions_icp_def)

lemma ui_rows_one:
  "party a (ix_operation t) \<Longrightarrow> sum_list (map signed_amount (ui_rows a N S i18n [t])) = ledger_effect a (ix_operation t)"
  by (cases "ix_operation t")
    (auto simp: ui_rows_def mapToSelfTransactions_icp_def mapIcpTransactionToUi_def signed_amount_def)

lemma ui_rows_sum:
  "list_all (\<lambda>t. party a (ix_operation t)) ts \<Longrightarrow>
     sum_list (map signed_amount (ui_rows a N S i18n ts)) = sum_list (map (\<lambda>t. ledger_effect a (ix_operation t)) ts)"
proof (induction ts)
  case (Cons t ts)
  then show ?case using ui_rows_one [of a t] unfolding ui_rows_Cons [of _ _ _ _ t ts] by simp
qed (simp add: ui_rows_def mapToSelfTransactions_icp_def)

lemma sum_list_perm: "mset xs = mset ys \<Longrightarrow> sum_list (map f xs) = (sum_list (map f ys) :: int)"
  by (metis mset_map sum_mset_sum_list)

subsection \<open>Merged fees of ckBTC\<close>

definition rows_total :: "UiTransaction list \<Rightarrow> int" where
  "rows_total rows = sum_list (map signed_amount rows)"

text \<open>The rows without the merge.\<close>

definition plain_rows ::
  "(IcrcLedgerTransaction \<Rightarrow> bool \<Rightarrow> RetrieveBtcStatusV2 option \<Rightarrow> unit + UiTransaction option) \<Rightarrow> (int \<rightharpoonup> RetrieveBtcStatusV2)
     \<Rightarrow> (IcrcLedgerTransaction \<times> bool) list \<Rightarrow> UiTransaction list" where
  "plain_rows f statusById data = concat (map (\<lambda>(t, self). case f t self (statusById (it_id t)) of
      Inr (Some ui) \<Rightarrow> [ui] | _ \<Rightarrow> []) data)"

definition own_spending :: "(icrc_owner \<Rightarrow> string) \<Rightarrow> string \<Rightarrow> IcrcLedgerTransaction \<Rightarrow> bool" where
  "own_spending encode identifier t \<longleftrightarrow>
     (\<forall>a. it_approve t = Some a \<longrightarrow> encode (ap_from a) = identifier) \<and> (\<forall>b. it_burn t = Some b \<longrightarrow> encode (bu_from b) = identifier)"

lemma burn_status_keeps [simp]:
  "ui_isIncoming (burn_status i18n status ui) = ui_isIncoming ui"
  "ui_tokenAmount (burn_status i18n status ui) = ui_tokenAmount ui"
  by (cases status; simp)+

lemma signed_amount_addFee: "\<not> ui_isIncoming ui \<Longrightarrow> signed_amount (addFee fee ui) = signed_amount ui - fee"
  by (simp add: signed_amount_def addFee_def)

text \<open>A row of ckBTC has the direction and the amount of the plain row.\<close>

lemma mapCkbtc_same:
  "mapCkbtcTransaction encode cbor t i self g token i18n status = Inr (Some ui) \<Longrightarrow>
     \<exists>plain. mapIcrcTransaction encode t i self g token i18n = Inr (Some plain) \<and>
       ui_isIncoming ui = ui_isIncoming plain \<and> ui_tokenAmount ui = ui_tokenAmount plain"
  by (cases "mapIcrcTransaction encode t i self g token i18n")
    (auto simp: mapCkbtcTransaction_def split: option.splits if_splits)

lemma own_row_outgoing:
  assumes "own_spending encode i t" "it_approve t \<noteq> None \<or> it_burn t \<noteq> None"
    and "mapCkbtcTransaction encode cbor t i False g token i18n status = Inr (Some ui)"
  shows "\<not> ui_isIncoming ui"
  using mapCkbtc_same [OF assms(3)] assms(1,2)
  by (auto simp: mapIcrcTransaction_def getTransactionInformation_icrc_def own_spending_def Let_def
      split: if_splits option.splits sum.splits)

lemma approve_row:
  assumes "own_spending encode i t" "it_approve t = Some a" "ap_fee a = Some fee" "token \<noteq> None"
  shows "\<exists>ui. mapCkbtcTransaction encode cbor t i False g token i18n status = Inr (Some ui) \<and> signed_amount ui = - fee"
proof -
  obtain plain where plain: "mapIcrcTransaction encode t i False g token i18n = Inr (Some plain)"
    "\<not> ui_isIncoming plain" "ui_tokenAmount plain = fee"
    using assms
    by (auto simp: mapIcrcTransaction_def getTransactionInformation_icrc_def own_spending_def Let_def getIcrcTransactionType_def)
  then obtain ui where ui: "mapCkbtcTransaction encode cbor t i False g token i18n status = Inr (Some ui)"
    by (simp add: mapCkbtcTransaction_def)
  then show ?thesis using mapCkbtc_same [OF ui] plain by (auto simp: signed_amount_def)
qed

definition spent_by :: "(icrc_owner \<Rightarrow> string) \<Rightarrow> string \<Rightarrow> IcrcLedgerTransaction \<times> bool \<Rightarrow> bool" where
  "spent_by encode i row \<longleftrightarrow> own_spending encode i (fst row) \<and>
     (it_approve (fst row) \<noteq> None \<or> it_burn (fst row) \<noteq> None \<longrightarrow> \<not> snd row)"

definition rows_inv :: "int \<Rightarrow> ckbtc_rows \<Rightarrow> bool" where
  "rows_inv amount st \<longleftrightarrow> rows_total (cr_rows st) = amount \<and>
     (Option.bind (cr_prevTransaction st) it_burn \<noteq> None \<and> cr_prevUi st \<longrightarrow>
        cr_rows st \<noteq> [] \<and> \<not> ui_isIncoming (last (cr_rows st)))"

lemma rows_total_append: "rows_total (xs @ ys) = rows_total xs + rows_total ys"
  by (simp add: rows_total_def)

lemma ckbtc_row_step:
  assumes inv: "rows_inv amount st" and own: "spent_by encode i (t, self)" and token: "token \<noteq> None"
  shows "rows_inv (amount + rows_total (plain_rows (\<lambda>t self. mapCkbtcTransaction encode cbor t i self g token i18n) statuses [(t, self)]))
    (ckbtc_row (\<lambda>t self. mapCkbtcTransaction encode cbor t i self g token i18n) statuses st (t, self))"
proof -
  let ?f = "mapCkbtcTransaction encode cbor t i self g token i18n (statuses (it_id t))"
  show ?thesis
  proof (cases "Option.bind (it_approve t) ap_fee \<noteq> None \<and> Option.bind (cr_prevTransaction st) it_burn \<noteq> None \<and> cr_prevUi st")
    case True
    then obtain a fee where a: "it_approve t = Some a" "ap_fee a = Some fee" by (cases "it_approve t") auto
    have own': "own_spending encode i t" "\<not> self" using own a by (simp_all add: spent_by_def)
    obtain ui where ui: "?f = Inr (Some ui)" "signed_amount ui = - fee"
      using approve_row [OF own'(1) a token, of cbor g i18n "statuses (it_id t)"] own'(2) by auto
    have last: "cr_rows st \<noteq> []" "\<not> ui_isIncoming (last (cr_rows st))" "rows_total (cr_rows st) = amount"
      using inv True by (auto simp: rows_inv_def)
    have "rows_total (butlast (cr_rows st) @ [last (cr_rows st)]) = amount" using last(1,3) by simp
    then have "rows_total (butlast (cr_rows st) @ [addFee fee (last (cr_rows st))]) = amount - fee"
      unfolding rows_total_append using signed_amount_addFee [OF last(2)] by (simp add: rows_total_def)
    moreover have "\<not> ui_isIncoming (addFee fee (last (cr_rows st)))" using last(2) by (simp add: addFee_def)
    moreover have "rows_total (plain_rows (\<lambda>t self. mapCkbtcTransaction encode cbor t i self g token i18n) statuses [(t, self)]) = - fee"
      using ui by (simp add: plain_rows_def rows_total_def)
    ultimately show ?thesis
      using True by (simp add: ckbtc_row_def a rows_inv_def)
  next
    case False
    have step: "ckbtc_row (\<lambda>t self. mapCkbtcTransaction encode cbor t i self g token i18n) statuses st (t, self) =
        (case ?f of Inr (Some ui) \<Rightarrow> \<lparr>cr_rows = cr_rows st @ [ui], cr_prevTransaction = Some t, cr_prevUi = True\<rparr>
         | _ \<Rightarrow> \<lparr>cr_rows = cr_rows st, cr_prevTransaction = Some t, cr_prevUi = False\<rparr>)"
      using False by (auto simp: ckbtc_row_def split: option.split)
    have out: "\<not> ui_isIncoming ui" if "?f = Inr (Some ui)" "it_burn t \<noteq> None" for ui
      using own_row_outgoing [of encode i t cbor g token i18n "statuses (it_id t)" ui] that own by (auto simp: spent_by_def)
    show ?thesis
      unfolding step using inv out
      by (auto simp: rows_inv_def plain_rows_def rows_total_def split: sum.split option.split)
  qed
qed

lemma ckbtc_rows_total:
  assumes "\<forall>row\<in>set data. spent_by encode i row" "token \<noteq> None" "rows_inv amount st"
  shows "rows_inv (amount + rows_total (plain_rows (\<lambda>t self. mapCkbtcTransaction encode cbor t i self g token i18n) statuses data))
    (foldl (ckbtc_row (\<lambda>t self. mapCkbtcTransaction encode cbor t i self g token i18n) statuses) st data)"
  using assms(1,3)
proof (induction data arbitrary: amount st)
  case (Cons row data)
  obtain t self where row: "row = (t, self)" by force
  have split: "plain_rows f s (row # data) = plain_rows f s [row] @ plain_rows f s data" for f s
    by (simp add: plain_rows_def)
  from ckbtc_row_step [OF Cons.prems(2) _ assms(2), of encode i t self cbor g i18n statuses] Cons.prems(1)
  have "rows_inv (amount + rows_total (plain_rows (\<lambda>t self. mapCkbtcTransaction encode cbor t i self g token i18n) statuses [row]))
    (ckbtc_row (\<lambda>t self. mapCkbtcTransaction encode cbor t i self g token i18n) statuses st row)" by (simp add: row)
  from Cons.IH [OF _ this] Cons.prems(1) show ?case
    unfolding split [of _ _] rows_total_append by (simp add: add.assoc)
qed (simp add: plain_rows_def rows_total_def rows_inv_def)

subsection \<open>Pages\<close>

text \<open>
  The index canister of an account whose transactions are the list ledger, newest first: the first ones older than
  start, at most as many as asked for, and the id of the oldest.
\<close>

definition index_of_ledger :: "('t \<Rightarrow> int) \<Rightarrow> 't list \<Rightarrow> nat \<Rightarrow> int option \<Rightarrow> unit + 't list \<times> int option" where
  "index_of_ledger tx_id ledger maxResults start =
     Inr (take maxResults (filter (\<lambda>t. case start of None \<Rightarrow> True | Some s \<Rightarrow> tx_id t < s) ledger),
       if ledger = [] then None else Some (tx_id (last ledger)))"

definition descending_by :: "('t \<Rightarrow> int) \<Rightarrow> 't list \<Rightarrow> bool" where
  "descending_by tx_id ledger \<longleftrightarrow> sorted_wrt (>) (map tx_id ledger)"

fun load_pages :: "IcpTransaction index_api \<Rightarrow> string \<Rightarrow> nat \<Rightarrow> IcpTransactionsStoreData \<times> nat \<Rightarrow> IcpTransactionsStoreData \<times> nat" where
  "load_pages api a 0 st = loadIcpAccountTransactions api a None st"
| "load_pages api a (Suc n) st = loadIcpAccountNextTransactions api a (load_pages api a n st)"

lemma unique_loop_distinct:
  "distinct (map f xs) \<Longrightarrow> f ` set xs \<inter> S = {} \<Longrightarrow> unique_loop f S xs = xs"
  by (induction xs arbitrary: S) auto

lemma unique_distinct: "distinct (map f xs) \<Longrightarrow> getUniqueTransactions f xs = xs"
  by (simp add: getUniqueTransactions_def unique_loop_distinct)

lemma descending_by_distinct: "descending_by f xs \<Longrightarrow> distinct (map f xs)"
  unfolding descending_by_def by (induction xs) (auto simp: image_iff)

lemma descending_by_append:
  "descending_by f (xs @ ys) \<longleftrightarrow> descending_by f xs \<and> descending_by f ys \<and> (\<forall>x\<in>set xs. \<forall>y\<in>set ys. f y < f x)"
  by (auto simp: descending_by_def sorted_wrt_append)

lemma descending_by_take: "descending_by f xs \<Longrightarrow> descending_by f (take n xs)"
  using descending_by_append [of f "take n xs" "drop n xs"] by simp

interpretation by_id: weak_comparator "\<lambda>a b :: IcpTransaction. if ix_id a > ix_id b then -1 else 1"
  by unfold_locales (auto split: if_splits)

lemma sort_descending_by: "descending_by ix_id xs \<Longrightarrow> sortTransactionsByIdDescendingOrder xs = xs"
  unfolding sortTransactionsByIdDescendingOrder_def
proof (rule by_id.js_sort_sorted_id)
  assume "descending_by ix_id xs"
  then show "cmp_sorted (\<lambda>a b. if ix_id a > ix_id b then -1 else 1) xs"
    by (induction xs) (auto simp: descending_by_def)
qed

text \<open>What is older than the last of the transactions loaded.\<close>

lemma older_than_loaded:
  assumes "descending_by f ledger" "0 < k" "k \<le> length ledger"
  shows "filter (\<lambda>t. f t < f (last (take k ledger))) ledger = drop k ledger"
proof -
  have ne: "take k ledger \<noteq> []" using assms(2,3) by auto
  have nf: "descending_by f (take k ledger @ drop k ledger)" using assms(1) by simp
  have "f t < f (last (take k ledger))" if "t \<in> set (drop k ledger)" for t
    using nf that ne unfolding descending_by_append by (meson last_in_set)
  moreover have "\<not> f t < f (last (take k ledger))" if "t \<in> set (take k ledger)" for t
  proof -
    have "descending_by f (butlast (take k ledger) @ [last (take k ledger)])" using descending_by_take [OF assms(1)] ne by simp
    moreover have "t \<in> set (butlast (take k ledger)) \<or> t = last (take k ledger)"
      using that ne by (metis append_butlast_last_id in_set_butlast_appendI rotate1.simps(2) set_ConsD set_rotate1)
    ultimately show ?thesis unfolding descending_by_append by auto
  qed
  ultimately have "filter (\<lambda>t. f t < f (last (take k ledger))) (take k ledger @ drop k ledger) = drop k ledger"
    unfolding filter_append by (simp add: filter_False filter_True)
  then show ?thesis by simp
qed

lemma first_wallet_page:
  assumes "descending_by ix_id ledger" "api a = index_of_ledger ix_id ledger" "fst st a = None"
  shows "\<exists>entry. fst (loadIcpAccountTransactions api a None st) a = Some entry \<and>
    ta_transactions entry = take DEFAULT_INDEX_TRANSACTION_PAGE_LIMIT ledger \<and>
    (ta_completed entry \<longleftrightarrow> length ledger \<le> DEFAULT_INDEX_TRANSACTION_PAGE_LIMIT) \<and>
    snd (loadIcpAccountTransactions api a None st) = snd st"
proof -
  let ?n = DEFAULT_INDEX_TRANSACTION_PAGE_LIMIT
  have unique: "getUniqueTransactions ix_id (take ?n ledger) = take ?n ledger"
    by (intro unique_distinct descending_by_distinct descending_by_take assms(1))
  have complete: "(\<exists>t\<in>set (take ?n ledger). ix_id t = ix_id (last ledger)) \<longleftrightarrow> length ledger \<le> ?n" if "ledger \<noteq> []"
  proof
    assume "\<exists>t\<in>set (take ?n ledger). ix_id t = ix_id (last ledger)"
    then obtain t where t: "t \<in> set (take ?n ledger)" "ix_id t = ix_id (last ledger)" by blast
    show "length ledger \<le> ?n"
    proof (rule ccontr)
      assume "\<not> length ledger \<le> ?n"
      then have "last ledger \<in> set (drop ?n ledger)" by (metis drop_eq_Nil last_drop last_in_set not_le)
      then have "ix_id (last ledger) < ix_id t"
        using assms(1) t(1) descending_by_append [of ix_id "take ?n ledger" "drop ?n ledger"] by auto
      with t(2) show False by simp
    qed
  next
    assume "length ledger \<le> ?n"
    then show "\<exists>t\<in>set (take ?n ledger). ix_id t = ix_id (last ledger)" using that by auto
  qed
  show ?thesis
    using complete
    by (cases "ledger = []")
      (auto simp: loadIcpAccountTransactions_def assms(2,3) index_of_ledger_def addTransactions_icp_def add_page_def Let_def unique
        unique_distinct)
qed

lemma next_wallet_page:
  assumes "descending_by ix_id ledger" "api a = index_of_ledger ix_id ledger"
    and "fst st a = Some entry" "ta_transactions entry = take k ledger" "0 < k" "k < length ledger"
  shows "\<exists>entry'. fst (loadIcpAccountNextTransactions api a st) a = Some entry' \<and>
    ta_transactions entry' = take (k + DEFAULT_INDEX_TRANSACTION_PAGE_LIMIT) ledger \<and>
    (ta_completed entry' \<longleftrightarrow> length ledger \<le> k + DEFAULT_INDEX_TRANSACTION_PAGE_LIMIT) \<and>
    snd (loadIcpAccountNextTransactions api a st) = snd st"
proof -
  let ?n = DEFAULT_INDEX_TRANSACTION_PAGE_LIMIT
  let ?page = "take ?n (drop k ledger)"
  have ne: "take k ledger \<noteq> []" "ledger \<noteq> []" using assms(5,6) by auto
  have sorted: "sortTransactionsByIdDescendingOrder (ta_transactions entry) = take k ledger"
    unfolding assms(4) by (intro sort_descending_by descending_by_take assms(1))
  have older: "filter (\<lambda>t. ix_id t < ix_id (last (take k ledger))) ledger = drop k ledger"
    using older_than_loaded [OF assms(1,5)] assms(6) by simp
  have both: "take k ledger @ ?page = take (k + ?n) ledger" by (simp add: take_add)
  have unique: "getUniqueTransactions ix_id (take k ledger @ ?page) = take k ledger @ ?page"
    unfolding both by (intro unique_distinct descending_by_distinct descending_by_take assms(1))
  have complete: "(\<exists>t\<in>set ?page. ix_id t = ix_id (last ledger)) \<longleftrightarrow> length ledger \<le> k + ?n"
  proof
    assume "\<exists>t\<in>set ?page. ix_id t = ix_id (last ledger)"
    then obtain t where t: "t \<in> set ?page" "ix_id t = ix_id (last ledger)" by blast
    then have t': "t \<in> set (take (k + ?n) ledger)" by (metis Un_iff both set_append)
    show "length ledger \<le> k + ?n"
    proof (rule ccontr)
      assume "\<not> length ledger \<le> k + ?n"
      then have "last ledger \<in> set (drop (k + ?n) ledger)" by (metis drop_eq_Nil last_drop last_in_set not_le)
      then have "ix_id (last ledger) < ix_id t"
        using assms(1) t' descending_by_append [of ix_id "take (k + ?n) ledger" "drop (k + ?n) ledger"] by auto
      with t(2) show False by simp
    qed
  next
    assume "length ledger \<le> k + ?n"
    then have "?page = drop k ledger" by simp
    moreover have "last ledger \<in> set (drop k ledger)" using assms(6) by (metis drop_eq_Nil last_drop last_in_set not_le)
    ultimately show "\<exists>t\<in>set ?page. ix_id t = ix_id (last ledger)" by auto
  qed
  show ?thesis
    using unique complete ne
    by (auto simp: loadIcpAccountNextTransactions_def assms(3) sorted Let_def loadIcpAccountTransactions_def assms(2)
        index_of_ledger_def older addTransactions_icp_def add_page_def both)
qed

subsection \<open>A reload of the first page\<close>

text \<open>Nothing is older than the oldest transaction, and a next page that is empty completes nothing.\<close>

definition stuck :: "IcpTransaction list \<Rightarrow> IcpTransaction set \<Rightarrow> IcpTransaction TransactionsOfAccount option \<Rightarrow> bool" where
  "stuck ledger loaded entry \<longleftrightarrow> (\<exists>e. entry = Some e \<and> set (ta_transactions e) = loaded \<and> distinct (map ix_id (ta_transactions e)) \<and>
     last ledger \<in> loaded \<and> loaded \<subseteq> set ledger \<and> \<not> ta_completed e)"

lemma oldest_of_sorted:
  assumes "descending_by ix_id ledger" "ledger \<noteq> []" "last ledger \<in> set xs" "set xs \<subseteq> set ledger"
  shows "ix_id (last (sortTransactionsByIdDescendingOrder xs)) = ix_id (last ledger)"
proof -
  let ?s = "sortTransactionsByIdDescendingOrder xs"
  have set: "set ?s = set xs" by (simp add: sortTransactionsByIdDescendingOrder_def)
  have ne: "?s \<noteq> []" using assms(3) set by auto
  have "cmp_sorted (\<lambda>a b. if ix_id a > ix_id b then -1 else 1) (butlast ?s @ [last ?s])"
    using by_id.sorted_js_sort [of xs] ne by (simp add: sortTransactionsByIdDescendingOrder_def)
  then have least: "ix_id (last ?s) \<le> ix_id t" if "t \<in> set (butlast ?s)" for t
    using that by (auto simp: cmp_sorted_def sorted_wrt_append split: if_splits)
  have "last ledger \<in> set (butlast ?s @ [last ?s])" using assms(3) set ne by simp
  then have "ix_id (last ?s) \<le> ix_id (last ledger)" using least by auto
  moreover have "ix_id (last ledger) \<le> ix_id t" if "t \<in> set ledger" for t
  proof -
    have "descending_by ix_id (butlast ledger @ [last ledger])" "t \<in> set (butlast ledger @ [last ledger])"
      using assms(1,2) that by simp_all
    then show ?thesis unfolding descending_by_append by auto
  qed
  ultimately show ?thesis using assms(4) set ne by (metis last_in_set order_antisym subsetD)
qed

lemma stuck_next:
  assumes "descending_by ix_id ledger" "ledger \<noteq> []" "api a = index_of_ledger ix_id ledger" "stuck ledger loaded (fst st a)"
  shows "stuck ledger loaded (fst (loadIcpAccountNextTransactions api a st) a)"
proof -
  obtain e where e: "fst st a = Some e" "set (ta_transactions e) = loaded" "distinct (map ix_id (ta_transactions e))"
    "last ledger \<in> loaded" "loaded \<subseteq> set ledger"
    using assms(4) by (auto simp: stuck_def)
  let ?s = "sortTransactionsByIdDescendingOrder (ta_transactions e)"
  have set: "set ?s = loaded" by (simp add: sortTransactionsByIdDescendingOrder_def e(2))
  have "mset (map ix_id ?s) = mset (map ix_id (ta_transactions e))" by (simp add: sortTransactionsByIdDescendingOrder_def)
  then have distinct: "distinct (map ix_id ?s)" using e(3) by (metis mset_eq_imp_distinct_iff)
  have ne: "?s \<noteq> []" using e(4) set by auto
  have oldest: "ix_id (last ?s) = ix_id (last ledger)"
    by (rule oldest_of_sorted [OF assms(1,2)]) (simp_all add: e)
  have "filter (\<lambda>t. ix_id t < ix_id (last ledger)) ledger = []"
    using older_than_loaded [OF assms(1), of "length ledger"] assms(2) by simp
  then show ?thesis
    using set distinct ne oldest e(4,5) assms(2)
    by (auto simp: stuck_def loadIcpAccountNextTransactions_def e(1) Let_def loadIcpAccountTransactions_def assms(3) index_of_ledger_def
        addTransactions_icp_def add_page_def unique_distinct)
qed

lemma stuck_pages:
  assumes "descending_by ix_id ledger" "ledger \<noteq> []" "api a = index_of_ledger ix_id ledger" "stuck ledger loaded (fst st a)"
  shows "stuck ledger loaded (fst ((loadIcpAccountNextTransactions api a ^^ m) st) a)"
  by (induction m) (simp_all add: assms stuck_next)

lemma stuck_reload:
  assumes "descending_by ix_id (new @ old)" "old \<noteq> []" "DEFAULT_INDEX_TRANSACTION_PAGE_LIMIT \<le> length new"
    and "api a = index_of_ledger ix_id (new @ old)" "fst st a = Some entry" "ta_transactions entry = old"
  shows "stuck (new @ old) (set (take DEFAULT_INDEX_TRANSACTION_PAGE_LIMIT new) \<union> set old) (fst (loadIcpAccountTransactions api a None st) a)"
proof -
  let ?n = DEFAULT_INDEX_TRANSACTION_PAGE_LIMIT
  have d: "distinct (map ix_id (new @ old))" by (rule descending_by_distinct [OF assms(1)])
  have "distinct (map ix_id (take ?n new))" using d by (simp add: take_map [symmetric] distinct_take)
  moreover have "ix_id ` set old \<inter> ix_id ` set (take ?n new) = {}" using d by (auto dest: in_set_takeD)
  ultimately have distinct: "distinct (map ix_id (old @ take ?n new))" using d by auto
  have page: "take ?n (new @ old) = take ?n new" using assms(3) by simp
  have "\<not> (\<exists>t\<in>set (take ?n new). ix_id t = ix_id (last old))"
  proof
    assume "\<exists>t\<in>set (take ?n new). ix_id t = ix_id (last old)"
    then obtain t where "t \<in> set new" "ix_id t = ix_id (last old)" by (auto dest: in_set_takeD)
    then show False using assms(1,2) unfolding descending_by_append by (metis last_in_set less_irrefl)
  qed
  then show ?thesis
    using distinct assms(2) page
    by (auto simp: stuck_def loadIcpAccountTransactions_def assms(4-6) index_of_ledger_def addTransactions_icp_def add_page_def Let_def
        unique_distinct dest: in_set_takeD)
qed

subsection \<open>The properties\<close>

text \<open>
  C13: the rows of a wallet add up: over the transactions the index canister lists for an account, the amounts of the
  incoming rows less those of the outgoing rows are what the ledger adds to the balance of the account, transfers
  to itself, fees, approvals, burns and mints included.
\<close>

theorem wallet_rows_add_up:
  assumes "list_all (\<lambda>t. party a (ix_operation t)) (ta_transactions entry)" "store a = Some entry"
  shows "\<exists>rows. makeUiTransactions (Some a) store swapCanisterAccounts neuronAccounts i18n = Some rows \<and>
    sum_list (map signed_amount rows) = sum_list (map (\<lambda>t. ledger_effect a (ix_operation t)) (ta_transactions entry))"
proof -
  let ?s = "sortTransactionsByIdDescendingOrder (ta_transactions entry)"
  have same: "mset ?s = mset (ta_transactions entry)" by (simp add: sortTransactionsByIdDescendingOrder_def)
  then have "list_all (\<lambda>t. party a (ix_operation t)) ?s" using assms(1) by (metis list.pred_set mset_eq_setD)
  from ui_rows_sum [OF this, of neuronAccounts swapCanisterAccounts i18n] sum_list_perm [OF same]
  show ?thesis by (simp add: makeUiTransactions_def assms(2) ui_rows_def)
qed

definition example_texts :: transaction_texts where
  "example_texts = \<lparr>tt_names = (\<lambda>_. ''name''), tt_btc_network = ''BTC Network'', tt_reimbursement = ''Reimbursement'',
     tt_btc_received = ''BTC Received'', tt_btc_sent = ''BTC Sent'', tt_sending_btc = ''Sending BTC'',
     tt_sending_btc_failed = ''Sending BTC failed'', tt_receiving_btc = ''Receiving BTC''\<rparr>"

definition example_tx :: "int \<Rightarrow> Operation \<Rightarrow> IcpTransaction" where
  "example_tx i operation = \<lparr>ix_id = i, ix_memo = 0, ix_operation = operation, ix_timestamp = Some 7, ix_created_at_time = None\<rparr>"

definition example_txs :: "IcpTransaction list" where
  "example_txs = [example_tx 1 (MintOp ''a'' 100), example_tx 2 (TransferOp ''a'' 1 ''a'' 50), example_tx 3 (TransferOp ''b'' 1 ''a'' 20)]"

theorem wallet_rows_add_up_witness:
  "\<exists>rows. makeUiTransactions (Some ''a'') [''a'' \<mapsto> \<lparr>ta_transactions = example_txs, ta_oldestTxId = None, ta_completed = True\<rparr>] {} {} example_texts = Some rows \<and>
    sum_list (map signed_amount rows) = 78"
proof -
  let ?e = "\<lparr>ta_transactions = example_txs, ta_oldestTxId = None, ta_completed = True\<rparr>"
  have "list_all (\<lambda>t. party ''a'' (ix_operation t)) (ta_transactions ?e)" by (simp add: example_txs_def example_tx_def)
  from wallet_rows_add_up [OF this, of "[''a'' \<mapsto> ?e]" "{}" "{}" example_texts] show ?thesis
    by (simp add: example_txs_def example_tx_def)
qed

text \<open>
  C29: the ckBTC list merges the fee of an approval into the row of the burn after it; the incoming less the outgoing
  amounts of the merged rows are those of one row per transaction, when the approvals and burns are the account's own.
\<close>

theorem ckbtc_merge_keeps_total:
  assumes "\<forall>row\<in>set data. spent_by encode i row" "token \<noteq> None"
  shows "rows_total (mapCkbtcTransactions encode cbor data i token i18n statuses) =
    rows_total (plain_rows (\<lambda>t self. mapCkbtcTransaction encode cbor t i self None token i18n) (status_map statuses) data)"
proof -
  have start: "rows_inv 0 \<lparr>cr_rows = [], cr_prevTransaction = None, cr_prevUi = False\<rparr>" by (simp add: rows_inv_def rows_total_def)
  show ?thesis
    using ckbtc_rows_total [OF assms start, of cbor None i18n] unfolding mapCkbtcTransactions_def Let_def rows_inv_def by auto
qed

definition example_icrc :: "int \<Rightarrow> icrc_approve option \<Rightarrow> icrc_burn option \<Rightarrow> IcrcLedgerTransaction" where
  "example_icrc i a b = \<lparr>it_id = i, it_timestamp = i, it_approve = a, it_burn = b, it_mint = None, it_transfer = None\<rparr>"

theorem ckbtc_merge_keeps_total_witness:
  "rows_total (mapCkbtcTransactions fst \<lparr>cm_decodeMint = (\<lambda>_. None), cm_decodeBurn = (\<lambda>_. None)\<rparr>
      [(example_icrc 2 None (Some \<lparr>bu_from = (''a'', None), bu_amount = 50, bu_memo = None\<rparr>), False),
       (example_icrc 1 (Some \<lparr>ap_from = (''a'', None), ap_amount = 50, ap_fee = Some 10\<rparr>) None, False)] ''a'' (Some ()) example_texts []) =
    rows_total (plain_rows (\<lambda>t self. mapCkbtcTransaction fst \<lparr>cm_decodeMint = (\<lambda>_. None), cm_decodeBurn = (\<lambda>_. None)\<rparr> t ''a'' self None (Some ()) example_texts) (status_map [])
      [(example_icrc 2 None (Some \<lparr>bu_from = (''a'', None), bu_amount = 50, bu_memo = None\<rparr>), False),
       (example_icrc 1 (Some \<lparr>ap_from = (''a'', None), ap_amount = 50, ap_fee = Some 10\<rparr>) None, False)])"
  by (rule ckbtc_merge_keeps_total) (simp_all add: spent_by_def own_spending_def example_icrc_def)

text \<open>
  C14: loading an account and then n next pages gives the newest 20 (n + 1) transactions of the account, newest first, and
  the account is marked as completed exactly when these are all.
\<close>

theorem wallet_pages_complete:
  assumes "descending_by ix_id ledger" "api a = index_of_ledger ix_id ledger" "fst st a = None"
    and "n = 0 \<or> DEFAULT_INDEX_TRANSACTION_PAGE_LIMIT * n < length ledger"
  shows "\<exists>entry. fst (load_pages api a n st) a = Some entry \<and>
    ta_transactions entry = take (DEFAULT_INDEX_TRANSACTION_PAGE_LIMIT * Suc n) ledger \<and>
    (ta_completed entry \<longleftrightarrow> length ledger \<le> DEFAULT_INDEX_TRANSACTION_PAGE_LIMIT * Suc n) \<and>
    snd (load_pages api a n st) = snd st"
  using assms(4)
proof (induction n)
  case 0
  then show ?case using first_wallet_page [where api = api and a = a and st = st, OF assms(1-3)] by simp
next
  case (Suc n)
  let ?n = DEFAULT_INDEX_TRANSACTION_PAGE_LIMIT
  have less: "?n * Suc n < length ledger" using Suc.prems by simp
  then have "n = 0 \<or> ?n * n < length ledger" by auto
  from Suc.IH [OF this] obtain entry where e: "fst (load_pages api a n st) a = Some entry" "ta_transactions entry = take (?n * Suc n) ledger"
    "snd (load_pages api a n st) = snd st" by blast
  have "0 < ?n * Suc n" by (simp add: DEFAULT_INDEX_TRANSACTION_PAGE_LIMIT_def)
  from next_wallet_page [where api = api and a = a, OF assms(1,2) e(1,2) this less] e(3) show ?case
    unfolding load_pages.simps by (metis add.commute mult_Suc_right)
qed

definition example_ledger :: "nat \<Rightarrow> IcpTransaction list" where
  "example_ledger n = map (\<lambda>k. example_tx (int n - int k) (MintOp ''a'' 1)) [0..<n]"

lemma example_newest: "descending_by ix_id (example_ledger n)"
  by (simp add: descending_by_def example_ledger_def sorted_wrt_map example_tx_def sorted_wrt_iff_nth_less)

theorem wallet_pages_complete_witness:
  "\<exists>entry. fst (load_pages (\<lambda>_. index_of_ledger ix_id (example_ledger 30)) ''a'' 1 (Map.empty, 0)) ''a'' = Some entry \<and>
    ta_transactions entry = example_ledger 30 \<and> ta_completed entry"
proof -
  have len: "length (example_ledger 30) = 30" by (simp add: example_ledger_def)
  have "1 = 0 \<or> DEFAULT_INDEX_TRANSACTION_PAGE_LIMIT * 1 < length (example_ledger 30)"
    by (simp add: len DEFAULT_INDEX_TRANSACTION_PAGE_LIMIT_def)
  from wallet_pages_complete [where api = "\<lambda>_. index_of_ledger ix_id (example_ledger 30)" and a = "''a''" and st = "(Map.empty, 0)",
      OF example_newest refl _ this]
  show ?thesis by (auto simp: len DEFAULT_INDEX_TRANSACTION_PAGE_LIMIT_def)
qed

text \<open>
  C15: when more than a page of transactions has been made since an account was loaded, reloading its first page leaves a gap: however
  many next pages are loaded, the transaction after the first page is never loaded, and the account is never
  marked as completed.
\<close>

theorem wallet_reload_leaves_gap:
  assumes "descending_by ix_id (new @ old)" "old \<noteq> []" "DEFAULT_INDEX_TRANSACTION_PAGE_LIMIT < length new"
    and "api a = index_of_ledger ix_id (new @ old)" "fst st a = Some entry" "ta_transactions entry = old"
  shows "\<exists>e. fst ((loadIcpAccountNextTransactions api a ^^ m) (loadIcpAccountTransactions api a None st)) a = Some e \<and>
    new ! DEFAULT_INDEX_TRANSACTION_PAGE_LIMIT \<notin> set (ta_transactions e) \<and> \<not> ta_completed e"
proof -
  let ?n = DEFAULT_INDEX_TRANSACTION_PAGE_LIMIT
  have "stuck (new @ old) (set (take ?n new) \<union> set old) (fst (loadIcpAccountTransactions api a None st) a)"
    by (rule stuck_reload [where api = api and a = a, OF assms(1,2) _ assms(4-6)]) (use assms(3) in simp)
  from stuck_pages [where api = api and a = a and m = m, OF assms(1) _ assms(4) this] assms(2)
  obtain e where e: "fst ((loadIcpAccountNextTransactions api a ^^ m) (loadIcpAccountTransactions api a None st)) a = Some e"
    "set (ta_transactions e) = set (take ?n new) \<union> set old" "\<not> ta_completed e"
    by (auto simp: stuck_def)
  have "new ! ?n \<in> set (drop ?n new)" using assms(3) by (metis Cons_nth_drop_Suc list.set_intros(1))
  moreover have "descending_by ix_id (take ?n new @ (drop ?n new @ old))" using assms(1) by (simp flip: append_assoc)
  ultimately have "new ! ?n \<notin> set (take ?n new)" unfolding descending_by_append by (metis Un_iff less_irrefl set_append)
  moreover have "new ! ?n \<notin> set old"
    using assms(1,3) unfolding descending_by_append by (metis less_irrefl nth_mem)
  ultimately show ?thesis using e by auto
qed

theorem wallet_reload_leaves_gap_witness:
  "\<exists>e. fst ((loadIcpAccountNextTransactions (\<lambda>_. index_of_ledger ix_id (example_ledger 30)) ''a'' ^^ 5)
      (loadIcpAccountTransactions (\<lambda>_. index_of_ledger ix_id (example_ledger 30)) ''a'' None
        ([''a'' \<mapsto> \<lparr>ta_transactions = drop 25 (example_ledger 30), ta_oldestTxId = None, ta_completed = True\<rparr>], 0))) ''a'' = Some e \<and>
    take 25 (example_ledger 30) ! DEFAULT_INDEX_TRANSACTION_PAGE_LIMIT \<notin> set (ta_transactions e) \<and> \<not> ta_completed e"
proof -
  have len: "length (example_ledger 30) = 30" by (simp add: example_ledger_def)
  have "descending_by ix_id (take 25 (example_ledger 30) @ drop 25 (example_ledger 30))" by (simp add: example_newest)
  from wallet_reload_leaves_gap [where api = "\<lambda>_. index_of_ledger ix_id (example_ledger 30)" and a = "''a''" and m = 5
      and st = "([''a'' \<mapsto> \<lparr>ta_transactions = drop 25 (example_ledger 30), ta_oldestTxId = None, ta_completed = True\<rparr>], 0)",
      OF this]
  show ?thesis by (simp add: len DEFAULT_INDEX_TRANSACTION_PAGE_LIMIT_def)
qed

end
