(* ===== verification/NeuronsTable.thy ===== *)
theory NeuronsTable
  imports NnsNeurons SnsNeurons Tokens
begin

text \<open>
  The neurons table: utils/neurons-table.utils.ts, utils/responsive-table.utils.ts, stores/neurons-table.store.ts,
  utils/neurons-table-order-sorted-neuron-ids-store.utils.ts and the stores of sorted ids that the arrows of a neuron's
  page follow, components/neurons/NeuronsTable/NeuronsTable.svelte and the sorting of components/ui/ResponsiveTable.svelte.
\<close>

subsection \<open>Rows\<close>

text \<open>rowHref is the universe and the neuron of the page it leads to.\<close>

record TableNeuron =
  tn_rowHref :: "(string \<times> string) option"
  tn_domKey :: string
  tn_neuronId :: string
  tn_stake :: TokenAmount
  tn_availableMaturity :: int
  tn_stakedMaturity :: int
  tn_dissolveDelaySeconds :: int
  tn_state :: NeuronState
  tn_tags :: "NeuronTag list"
  tn_isPublic :: bool

definition ICPToken :: Token where
  "ICPToken = \<lparr>token_decimals = 8, token_symbol = ''ICP''\<rparr>"

definition tableNeuronsFromNeuronInfos ::
  "string \<Rightarrow> NeuronInfo list \<Rightarrow> string option \<Rightarrow> IcpAccountsStoreData \<Rightarrow> TableNeuron list" where
  "tableNeuronsFromNeuronInfos ownCanisterId neuronInfos identity accounts = map (\<lambda>neuronInfo.
     let neuronIdString = int_to_string (ni_neuronId neuronInfo);
         isSpawningNeuron = isSpawning neuronInfo
     in \<lparr>tn_rowHref = (if isSpawningNeuron then None else Some (ownCanisterId, neuronIdString)),
         tn_domKey = neuronIdString, tn_neuronId = neuronIdString,
         tn_stake = \<lparr>ta_ulps = neuronStake neuronInfo, ta_token = ICPToken\<rparr>,
         tn_availableMaturity = neuronAvailableMaturity neuronInfo,
         tn_stakedMaturity = neuronStakedMaturity neuronInfo,
         tn_dissolveDelaySeconds = ni_dissolveDelaySeconds neuronInfo,
         tn_state = ni_state neuronInfo,
         tn_tags = getNeuronTags neuronInfo identity accounts,
         tn_isPublic = isPublicNeuron neuronInfo\<rparr>) neuronInfos"

definition tableNeuronsFromSnsNeurons ::
  "int \<Rightarrow> SnsNeuron list \<Rightarrow> string \<Rightarrow> Token \<Rightarrow> string option \<Rightarrow> TableNeuron list" where
  "tableNeuronsFromSnsNeurons now snsNeurons universe token identity = map (\<lambda>snsNeuron.
     let dissolveDelaySeconds = getSnsDissolveDelaySeconds now snsNeuron;
         neuronIdString = getSnsNeuronIdAsHexString snsNeuron
     in \<lparr>tn_rowHref = Some (universe, neuronIdString),
         tn_domKey = neuronIdString, tn_neuronId = neuronIdString,
         tn_stake = \<lparr>ta_ulps = getSnsNeuronStake snsNeuron, ta_token = token\<rparr>,
         tn_availableMaturity = getSnsNeuronAvailableMaturity snsNeuron,
         tn_stakedMaturity = getSnsNeuronStakedMaturity snsNeuron,
         tn_dissolveDelaySeconds = dissolveDelaySeconds,
         tn_state = getSnsNeuronState now snsNeuron,
         tn_tags = getSnsNeuronTags snsNeuron identity,
         tn_isPublic = False\<rparr>) snsNeurons"

subsection \<open>Comparators\<close>

datatype NeuronsTableColumnId = ColumnId | ColumnStake | ColumnMaturity | ColumnDissolveDelay | ColumnState

definition compareByStake :: "TableNeuron comparator_fun" where
  "compareByStake = createDescendingComparator (\<lambda>neuron. ta_ulps (tn_stake neuron))"

definition compareByMaturity :: "TableNeuron comparator_fun" where
  "compareByMaturity = createDescendingComparator (\<lambda>neuron. tn_availableMaturity neuron + tn_stakedMaturity neuron)"

definition compareByDissolveDelay :: "TableNeuron comparator_fun" where
  "compareByDissolveDelay = createDescendingComparator tn_dissolveDelaySeconds"

definition compareByState :: "TableNeuron comparator_fun" where
  "compareByState = createDescendingComparator (\<lambda>neuron. js_indexOf [Spawning, Dissolved, Dissolving, Locked] (tn_state neuron))"

definition compareById :: "TableNeuron comparator_fun" where
  "compareById = mergeComparators
     [createAscendingComparator (\<lambda>neuron. length (tn_neuronId neuron)), createAscendingComparator tn_neuronId]"

fun comparatorsByColumnId :: "NeuronsTableColumnId \<Rightarrow> TableNeuron comparator_fun option" where
  "comparatorsByColumnId ColumnStake = Some compareByStake"
| "comparatorsByColumnId ColumnMaturity = Some compareByMaturity"
| "comparatorsByColumnId ColumnDissolveDelay = Some compareByDissolveDelay"
| "comparatorsByColumnId ColumnState = Some compareByState"
| "comparatorsByColumnId ColumnId = None"

subsection \<open>The order of a table\<close>

record 'c OrderEntry =
  oe_columnId :: 'c
  oe_reversed :: bool

type_synonym 'c ResponsiveTableOrder = "'c OrderEntry list"

text \<open>None: the TypeError of reading the first entry of an empty order.\<close>

fun selectPrimaryOrder :: "'c ResponsiveTableOrder \<Rightarrow> 'c \<Rightarrow> 'c ResponsiveTableOrder option" where
  "selectPrimaryOrder [] selectedColumnId = None"
| "selectPrimaryOrder (e # es) selectedColumnId =
     Some (if oe_columnId e = selectedColumnId
           then \<lparr>oe_columnId = oe_columnId e, oe_reversed = \<not> oe_reversed e\<rparr> # es
           else \<lparr>oe_columnId = selectedColumnId, oe_reversed = False\<rparr> #
             filter (\<lambda>order. oe_columnId order \<noteq> selectedColumnId) (e # es))"

record ('c, 'r) ResponsiveTableColumn =
  rc_id :: "'c option"
  rc_comparator :: "'r comparator_fun option"

text \<open>
  Object.fromEntries keeps the last of the columns with an id.  None: an order with a column that has no comparator,
  which throws when it is called to compare two rows.
\<close>

definition comparator_of_column :: "('c, 'r) ResponsiveTableColumn list \<Rightarrow> 'c \<Rightarrow> 'r comparator_fun option" where
  "comparator_of_column columns columnId =
     Option.bind (List.find (\<lambda>c. rc_id c = Some columnId \<and> rc_comparator c \<noteq> None) (rev columns)) rc_comparator"

definition order_comparators :: "('c \<Rightarrow> 'r comparator_fun option) \<Rightarrow> 'c ResponsiveTableOrder \<Rightarrow> 'r comparator_fun list option" where
  "order_comparators comparatorBy order =
     those (map (\<lambda>e. map_option (\<lambda>comparator. if oe_reversed e then negate comparator else comparator)
       (comparatorBy (oe_columnId e))) order)"

definition sortTableData ::
  "'r list \<Rightarrow> 'c ResponsiveTableOrder \<Rightarrow> ('c, 'r) ResponsiveTableColumn list \<Rightarrow> 'r list option" where
  "sortTableData tableData order columns =
     map_option (\<lambda>comparators. js_sort (mergeComparators comparators) tableData)
       (order_comparators (comparator_of_column columns) order)"

text \<open>None: the error of a column without comparator.\<close>

definition getSortedNeuronIds :: "NeuronsTableColumnId ResponsiveTableOrder \<Rightarrow> TableNeuron list \<Rightarrow> string list option" where
  "getSortedNeuronIds order neurons =
     map_option (\<lambda>comparatorsArray. map tn_neuronId (js_sort (mergeComparators comparatorsArray) neurons))
       (order_comparators comparatorsByColumnId order)"

definition initialNeuronsTableOrder :: "NeuronsTableColumnId ResponsiveTableOrder" where
  "initialNeuronsTableOrder = [\<lparr>oe_columnId = ColumnStake, oe_reversed = False\<rparr>, \<lparr>oe_columnId = ColumnDissolveDelay, oe_reversed = False\<rparr>]"

subsection \<open>The table and the stores of ids\<close>

definition neurons_table_columns :: "(NeuronsTableColumnId, TableNeuron) ResponsiveTableColumn list" where
  "neurons_table_columns = map (\<lambda>i. \<lparr>rc_id = i, rc_comparator = Option.bind i comparatorsByColumnId\<rparr>)
     [Some ColumnId, None, Some ColumnStake, None, Some ColumnMaturity, None, Some ColumnDissolveDelay, None, Some ColumnState, None]"

text \<open>The rows that NeuronsTable shows.\<close>

definition shown_rows :: "TableNeuron list \<Rightarrow> NeuronsTableColumnId ResponsiveTableOrder \<Rightarrow> TableNeuron list option" where
  "shown_rows neurons order = sortTableData (js_sort compareById neurons) order neurons_table_columns"

text \<open>The ids that the page of a neuron goes through, for the NNS and for an SNS (None: no project is selected).\<close>

definition neuronsTableOrderSortedNeuronIdsStore ::
  "string \<Rightarrow> NeuronsTableColumnId ResponsiveTableOrder \<Rightarrow> NeuronInfo list \<Rightarrow> string option \<Rightarrow> IcpAccountsStoreData \<Rightarrow> string list option" where
  "neuronsTableOrderSortedNeuronIdsStore ownCanisterId order definedNeurons identity accounts =
     getSortedNeuronIds order
       (js_sort compareById (tableNeuronsFromNeuronInfos ownCanisterId definedNeurons identity accounts))"

definition snsNeuronsTableOrderSortedNeuronIdsStore ::
  "int \<Rightarrow> NeuronsTableColumnId ResponsiveTableOrder \<Rightarrow> SnsNeuron list \<Rightarrow> Token option \<Rightarrow> string \<Rightarrow> string option \<Rightarrow> string list option" where
  "snsNeuronsTableOrderSortedNeuronIdsStore now order definedNeurons token universe identity =
     getSortedNeuronIds order (js_sort compareById
       (case token of None \<Rightarrow> [] | Some t \<Rightarrow> tableNeuronsFromSnsNeurons now definedNeurons universe t identity))"

text \<open>
  A click on the header of a column, or on its entry of the sort modal: only columns with a comparator have one.
\<close>

fun table_clicks :: "('c, 'r) ResponsiveTableColumn list \<Rightarrow> 'c list \<Rightarrow> 'c ResponsiveTableOrder \<Rightarrow> 'c ResponsiveTableOrder option" where
  "table_clicks columns [] order = Some order"
| "table_clicks columns (c # cs) order =
     (if comparator_of_column columns c = None then table_clicks columns cs order
      else Option.bind (selectPrimaryOrder order c) (table_clicks columns cs))"

subsection \<open>Sorting with a comparator that separates the rows\<close>

context weak_comparator
begin

lemma sorted_unique:
  "cmp_sorted cmp xs \<Longrightarrow> cmp_sorted cmp ys \<Longrightarrow> mset xs = mset ys \<Longrightarrow>
     (\<And>x y. x \<in> set xs \<Longrightarrow> y \<in> set xs \<Longrightarrow> tie x y \<Longrightarrow> x = y) \<Longrightarrow> xs = ys"
proof (induction xs arbitrary: ys)
  case (Cons x xs)
  from Cons.prems(3) obtain y ys' where ys: "ys = y # ys'" by (cases ys) auto
  have sets: "set (x # xs) = set ys" using Cons.prems(3) by (metis set_mset_mset)
  have "\<not> cmp y x < 0"
    using Cons.prems(1) sets ys less_irrefl by (metis cmp_sorted_simps(2) list.set_intros(1) set_ConsD)
  moreover have "\<not> cmp x y < 0"
    using Cons.prems(2) sets ys less_irrefl by (metis cmp_sorted_simps(2) list.set_intros(1) set_ConsD)
  ultimately have "x = y" using Cons.prems(4) [of x y] sets ys by (auto simp: tie_def)
  moreover have "xs = ys'"
    by (rule Cons.IH) (use Cons.prems ys \<open>x = y\<close> in auto)
  ultimately show ?case by (simp add: ys)
qed simp

lemma js_sort_permuted:
  assumes "mset xs = mset ys" "\<And>x y. x \<in> set xs \<Longrightarrow> y \<in> set xs \<Longrightarrow> tie x y \<Longrightarrow> x = y"
  shows "js_sort cmp xs = js_sort cmp ys"
  by (rule sorted_unique) (use assms sorted_js_sort in auto)

end

interpretation by_table_id: comparator compareById
  unfolding compareById_def by (rule comparator_merge) (auto intro: ascending.comparator_axioms)

lemma compareById_sign: "compareById a b < 0 \<longleftrightarrow> length (tn_neuronId a) < length (tn_neuronId b) \<or>
    length (tn_neuronId a) = length (tn_neuronId b) \<and> tn_neuronId a < tn_neuronId b"
  by (auto simp: compareById_def Let_def asc_sign)

lemma compareById_tie: "by_table_id.tie a b \<longleftrightarrow> tn_neuronId a = tn_neuronId b"
  by (auto simp: by_table_id.tie_def compareById_sign)

lemma rows_by_id_permuted:
  assumes "distinct (map tn_neuronId neurons)" "mset neurons' = mset neurons"
  shows "js_sort compareById neurons' = js_sort compareById neurons"
proof (rule by_table_id.js_sort_permuted [OF assms(2)])
  fix x y assume "x \<in> set neurons'" "y \<in> set neurons'" "by_table_id.tie x y"
  then show "x = y"
    using assms by (auto simp: compareById_tie distinct_map inj_on_def dest: mset_eq_setD)
qed

subsection \<open>The order after clicks\<close>

definition order_sortable :: "NeuronsTableColumnId ResponsiveTableOrder \<Rightarrow> bool" where
  "order_sortable order \<longleftrightarrow> order \<noteq> [] \<and> distinct (map oe_columnId order) \<and> (\<forall>e\<in>set order. comparatorsByColumnId (oe_columnId e) \<noteq> None)"

lemma columns_comparator: "comparator_of_column neurons_table_columns = comparatorsByColumnId"
proof
  fix c show "comparator_of_column neurons_table_columns c = comparatorsByColumnId c"
    by (cases c) (simp_all add: comparator_of_column_def neurons_table_columns_def)
qed

lemma click_sortable:
  assumes "order_sortable order" "comparatorsByColumnId c \<noteq> None"
  shows "\<exists>order'. selectPrimaryOrder order c = Some order' \<and> order_sortable order'"
  using assms by (cases order) (auto simp: order_sortable_def distinct_map_filter)

lemma clicks_sortable:
  "order_sortable order \<Longrightarrow> \<exists>order'. table_clicks neurons_table_columns cs order = Some order' \<and> order_sortable order'"
proof (induction cs arbitrary: order)
  case (Cons c cs)
  show ?case
  proof (cases "comparatorsByColumnId c = None")
    case True
    then show ?thesis using Cons by (simp add: columns_comparator)
  next
    case False
    from click_sortable [OF Cons.prems False] obtain order' where "selectPrimaryOrder order c = Some order'" "order_sortable order'"
      by blast
    then show ?thesis using Cons.IH [of order'] False by (auto simp: columns_comparator)
  qed
qed simp

lemma those_Some: "(\<forall>x\<in>set xs. f x \<noteq> None) \<Longrightarrow> those (map f xs) \<noteq> None"
  by (induction xs) auto

lemma order_comparators_sortable: "order_sortable order \<Longrightarrow> order_comparators comparatorsByColumnId order \<noteq> None"
  unfolding order_comparators_def by (rule those_Some) (auto simp: order_sortable_def)

text \<open>C26: Whatever headers the user clicks, starting from the initial order, the order stays usable and the ids that a neuron's page goes
  through are those of the rows of the table, in the order shown, even when the table got the neurons in another
  order.\<close>

theorem navigation_follows_table:
  assumes "distinct (map tn_neuronId neurons)" "mset neurons' = mset neurons"
  shows "\<exists>order rows. table_clicks neurons_table_columns clicks initialNeuronsTableOrder = Some order \<and>
    order \<noteq> [] \<and> distinct (map oe_columnId order) \<and>
    shown_rows neurons order = Some rows \<and> mset rows = mset neurons \<and>
    getSortedNeuronIds order (js_sort compareById neurons') = Some (map tn_neuronId rows)"
proof -
  have "order_sortable initialNeuronsTableOrder" by (simp add: order_sortable_def initialNeuronsTableOrder_def)
  from clicks_sortable [OF this] obtain order
    where order: "table_clicks neurons_table_columns clicks initialNeuronsTableOrder = Some order" "order_sortable order" by blast
  from order_comparators_sortable [OF this(2)] obtain cs where cs: "order_comparators comparatorsByColumnId order = Some cs" by blast
  have "shown_rows neurons order = Some (js_sort (mergeComparators cs) (js_sort compareById neurons))"
    by (simp add: shown_rows_def sortTableData_def columns_comparator cs)
  moreover have "getSortedNeuronIds order (js_sort compareById neurons') =
      Some (map tn_neuronId (js_sort (mergeComparators cs) (js_sort compareById neurons)))"
    by (simp add: getSortedNeuronIds_def cs rows_by_id_permuted [OF assms])
  ultimately show ?thesis using order by (auto simp: order_sortable_def)
qed

definition example_row :: "string \<Rightarrow> int \<Rightarrow> TableNeuron" where
  "example_row i stake = \<lparr>tn_rowHref = None, tn_domKey = i, tn_neuronId = i, tn_stake = \<lparr>ta_ulps = stake, ta_token = ICPToken\<rparr>,
     tn_availableMaturity = 0, tn_stakedMaturity = 0, tn_dissolveDelaySeconds = 0, tn_state = Locked, tn_tags = [], tn_isPublic = False\<rparr>"

theorem navigation_follows_table_witness:
  "\<exists>order rows. table_clicks neurons_table_columns [ColumnStake, ColumnId, ColumnState] initialNeuronsTableOrder = Some order \<and>
    shown_rows [example_row ''10'' 5, example_row ''9'' 5] order = Some rows \<and>
    getSortedNeuronIds order (js_sort compareById [example_row ''9'' 5, example_row ''10'' 5]) = Some (map tn_neuronId rows)"
  using navigation_follows_table [of "[example_row ''10'' 5, example_row ''9'' 5]" "[example_row ''9'' 5, example_row ''10'' 5]"
    "[ColumnStake, ColumnId, ColumnState]"]
  by (auto simp: example_row_def)


subsection \<open>Ids as numbers\<close>

lemma nat_to_string_length_lower: "10 \<le> n \<Longrightarrow> 10 ^ (length (nat_to_string n) - 1) \<le> n"
proof (induction n rule: nat_to_string.induct)
  case (1 n)
  then have unfold: "nat_to_string n = nat_to_string (n div 10) @ [digit_char (n mod 10)]"
    by (simp add: nat_to_string.simps [of n])
  have "10 ^ (length (nat_to_string (n div 10)) - 1) \<le> n div 10"
  proof (cases "10 \<le> n div 10")
    case True
    then show ?thesis using 1 by simp
  next
    case False
    then show ?thesis using 1(2) by (simp add: nat_to_string.simps [of "n div 10"])
  qed
  then have "10 * 10 ^ (length (nat_to_string (n div 10)) - 1) \<le> n" by linarith
  moreover have "length (nat_to_string (n div 10)) \<noteq> 0" by simp
  ultimately show ?case
    by (simp add: unfold) (metis Suc_pred length_greater_0_conv nat_to_string_not_Nil power_Suc)
qed

definition digits :: "string \<Rightarrow> bool" where
  "digits s \<longleftrightarrow> set s \<subseteq> digit_char ` {..<10}"

lemma digits_upper: "digits s \<Longrightarrow> string_to_nat s < 10 ^ length s"
proof (induction s rule: rev_induct)
  case (snoc c s)
  then have "digits s" "digit_of c < 10" by (auto simp: digits_def)
  with snoc.IH show ?case by (simp add: string_to_nat_snoc)
qed (simp add: string_to_nat_def)

lemma digit_char_less: "a < 10 \<Longrightarrow> b < 10 \<Longrightarrow> digit_char a < digit_char b \<longleftrightarrow> a < b"
  by (simp add: less_char_def of_char_digit_char)

lemma snoc_less: "length xs = length ys \<Longrightarrow> xs @ [a] < ys @ [b] \<longleftrightarrow> xs < ys \<or> xs = ys \<and> a < b"
  for a b :: "'a::linorder"
  by (induction xs ys rule: list_induct2) auto

lemma digits_less:
  assumes "length s = length t" "digits s" "digits t"
  shows "(s < t \<longleftrightarrow> string_to_nat s < string_to_nat t) \<and> (t < s \<longleftrightarrow> string_to_nat t < string_to_nat s)"
  using assms
proof (induction s arbitrary: t rule: rev_induct)
  case (snoc c s)
  then obtain u d where t: "t = u @ [d]" "length s = length u" by (cases t rule: rev_cases) auto
  with snoc.prems have d: "digits s" "digits u" by (auto simp: digits_def)
  obtain a b where ab: "c = digit_char a" "d = digit_char b" "a < 10" "b < 10"
    using snoc.prems t(1) by (auto simp: digits_def)
  have less: "s < u \<longleftrightarrow> string_to_nat s < string_to_nat u" "u < s \<longleftrightarrow> string_to_nat u < string_to_nat s"
    using snoc.IH [OF t(2) d] by blast+
  then have eq: "s = u \<longleftrightarrow> string_to_nat s = string_to_nat u" by (metis linorder_less_linear less_irrefl)
  show ?case
    unfolding t(1) ab snoc_less [OF t(2)] snoc_less [OF t(2) [symmetric]] string_to_nat_snoc less eq
      eq_commute [of u s]
    using ab(3,4) by (auto simp: digit_char_less)
qed simp

lemma nat_to_string_shorter:
  assumes "length (nat_to_string m) < length (nat_to_string n)"
  shows "m < n"
proof -
  have "0 < length (nat_to_string m)" by simp
  with assms have two: "1 < length (nat_to_string n)" by linarith
  then have n: "10 \<le> n" by (auto simp: nat_to_string.simps [of n] split: if_splits)
  have "m < 10 ^ length (nat_to_string m)"
    using digits_upper [of "nat_to_string m"] set_nat_to_string [of m] by (simp add: digits_def)
  also have "\<dots> \<le> 10 ^ (length (nat_to_string n) - 1)" using assms by (intro power_increasing) auto
  also have "\<dots> \<le> n" by (rule nat_to_string_length_lower) (rule n)
  finally show ?thesis .
qed

lemma compareById_numbers:
  assumes "tn_neuronId a = nat_to_string m" "tn_neuronId b = nat_to_string n"
  shows "compareById a b < 0 \<longleftrightarrow> m < n"
proof -
  have d: "digits (nat_to_string k)" for k using set_nat_to_string [of k] by (simp add: digits_def)
  have same: "nat_to_string m < nat_to_string n \<longleftrightarrow> m < n" if "length (nat_to_string m) = length (nat_to_string n)"
    using digits_less [OF that d d] by simp
  show ?thesis
    using nat_to_string_shorter [of m n] nat_to_string_shorter [of n m] same
    unfolding compareById_sign assms by (metis less_asym linorder_neqE_nat)
qed

lemma sorted_by_number:
  assumes "\<And>r. r \<in> set rows \<Longrightarrow> tn_neuronId r = nat_to_string (key r)"
  shows "map key (js_sort compareById rows) = sort (map key rows)"
proof (rule properties_for_sort [symmetric])
  show "mset (map key (js_sort compareById rows)) = mset (map key rows)" by simp
  have less: "\<not> compareById y x < 0 \<longleftrightarrow> key x \<le> key y" if "x \<in> set rows" "y \<in> set rows" for x y
    using compareById_numbers [OF assms assms] that by (auto simp: not_less)
  have "sorted_wrt (\<lambda>x y. key x \<le> key y) (js_sort compareById rows)"
    using by_table_id.sorted_js_sort [of rows] unfolding cmp_sorted_def
    by (rule sorted_wrt_mono_rel [rotated]) (use less in auto)
  then show "sorted (map key (js_sort compareById rows))" by (simp add: sorted_map)
qed

text \<open>The neurons of the NNS are put in the order of their ids as numbers, although the ids are compared as texts.\<close>

lemma nns_rows_in_id_order:
  assumes "\<forall>n\<in>set neuronInfos. 0 \<le> ni_neuronId n"
  shows "map tn_neuronId (js_sort compareById (tableNeuronsFromNeuronInfos ownCanisterId neuronInfos identity accounts)) =
    map int_to_string (sort (map ni_neuronId neuronInfos))"
proof -
  let ?rows = "tableNeuronsFromNeuronInfos ownCanisterId neuronInfos identity accounts"
  let ?key = "\<lambda>r. string_to_nat (tn_neuronId r)"
  have ids: "map tn_neuronId ?rows = map (\<lambda>n. nat_to_string (nat (ni_neuronId n))) neuronInfos"
    using assms by (auto simp: tableNeuronsFromNeuronInfos_def Let_def int_to_string_def)
  have own: "tn_neuronId r = nat_to_string (?key r)" if "r \<in> set ?rows" for r
  proof -
    have "tn_neuronId r \<in> set (map tn_neuronId ?rows)" using that by simp
    then show ?thesis unfolding ids by auto
  qed
  have "map tn_neuronId (js_sort compareById ?rows) = map nat_to_string (map ?key (js_sort compareById ?rows))"
    using own by (simp add: comp_def)
  also have "map ?key (js_sort compareById ?rows) = sort (map ?key ?rows)" by (rule sorted_by_number) (rule own)
  also have "map ?key ?rows = map nat (map ni_neuronId neuronInfos)"
    using arg_cong [OF ids, of "map string_to_nat"] by (simp add: comp_def)
  also have "sort (map nat (map ni_neuronId neuronInfos)) = map nat (sort (map ni_neuronId neuronInfos))"
    by (rule properties_for_sort) (auto simp: sorted_map image_mset.compositionality intro: sorted_wrt_mono_rel [OF _ sorted_sort] nat_mono)
  also have "map nat_to_string (map nat (sort (map ni_neuronId neuronInfos))) = map int_to_string (sort (map ni_neuronId neuronInfos))"
    using assms by (auto simp: int_to_string_def)
  finally show ?thesis .
qed

theorem nns_rows_in_id_order_witness:
  "map tn_neuronId (js_sort compareById (tableNeuronsFromNeuronInfos ''o'' [plain_neuron 10, plain_neuron 9, plain_neuron 100]
     None \<lparr>acs_main = None, acs_subAccounts = None, acs_hardwareWallets = None\<rparr>)) = [''9'', ''10'', ''100'']"
proof -
  have "ni_neuronId (plain_neuron i) = i" for i by (simp add: plain_neuron_def)
  moreover have "char_of (57 :: nat) = CHR ''9''" "char_of (49 :: nat) = CHR ''1''" "char_of (48 :: nat) = CHR ''0''"
    by code_simp+
  ultimately show ?thesis
    using nns_rows_in_id_order [of "[plain_neuron 10, plain_neuron 9, plain_neuron 100]" "''o''" None
      "\<lparr>acs_main = None, acs_subAccounts = None, acs_hardwareWallets = None\<rparr>"]
    by (simp add: int_to_string_def nat_to_string.simps digit_char_def)
qed

end
