(* ===== verification/CsvExport.thy ===== *)
theory CsvExport
  imports NeuronsTable Transactions
begin

text \<open>
  The export of tables as CSV files: utils/export-to-csv.utils.ts, services/export-data.services.ts and the export in
  components/header/ExportNeuronsButton.svelte.  The format is specified by csv_parse, a reader of RFC 4180
  text; what it reads back from a file is compared with the table that was exported.
\<close>

subsection \<open>Cells and files\<close>

definition special_characters :: "char set" where
  "special_characters = set ''\",=@|'' \<union> {CHR 0x0D, CHR 0x0A}"

definition characters_to_quote :: "char set" where
  "characters_to_quote = set ''\",'' \<union> {CHR 0x0D, CHR 0x0A}"

definition double_quotes :: "string \<Rightarrow> string" where
  "double_quotes s = concat (map (\<lambda>c. if c = CHR 0x22 then [CHR 0x22, CHR 0x22] else [c]) s)"

text \<open>The value is the string that String(value) gives, None for a nullish value.\<close>

definition escapeCsvValue :: "string option \<Rightarrow> string" where
  "escapeCsvValue value =
     (case value of
        None \<Rightarrow> ''''
      | Some stringValue \<Rightarrow>
          if set stringValue \<inter> special_characters = {} then stringValue
          else
            let guarded = (if hd stringValue \<in> set ''=@|'' then CHR 0x27 # stringValue else stringValue)
            in if set guarded \<inter> characters_to_quote \<noteq> {} then CHR 0x22 # double_quotes guarded @ [CHR 0x22]
               else guarded)"

record CsvMetadata =
  md_label :: string
  md_value :: string

record CsvHeader =
  ch_id :: string
  ch_label :: string

text \<open>A row maps the ids of the headers to values.\<close>

type_synonym csv_row = "string \<Rightarrow> string option"

definition convertToCsv :: "csv_row list \<Rightarrow> CsvHeader list \<Rightarrow> CsvMetadata list \<Rightarrow> string" where
  "convertToCsv data headers metadata =
     (if headers = [] then ''''
      else
        let metadataRows =
              (if metadata \<noteq> [] then
                 [join_with [CHR 0x0A]
                    (map (\<lambda>m. escapeCsvValue (Some (md_label m)) @ '','' @ escapeCsvValue (Some (md_value m))) metadata),
                  '''']
               else []);
            emptyPrefix = replicate (if metadata \<noteq> [] then 2 else 0) '''';
            sanitizedHeaders = map (\<lambda>h. escapeCsvValue (Some (ch_label h))) headers
        in join_with [CHR 0x0A]
             (metadataRows @ [join_with '','' (emptyPrefix @ sanitizedHeaders)] @
              map (\<lambda>row. join_with '','' (emptyPrefix @ map (\<lambda>h. escapeCsvValue (row (ch_id h))) headers)) data))"

record CsvDataset =
  ds_data :: "csv_row list"
  ds_metadata :: "CsvMetadata list"

definition combineDatasetsToCsv :: "CsvDataset list \<Rightarrow> CsvHeader list \<Rightarrow> string" where
  "combineDatasetsToCsv datasets headers =
     join_with [CHR 0x0A, CHR 0x0A, CHR 0x0A] (map (\<lambda>d. convertToCsv (ds_data d) headers (ds_metadata d)) datasets)"

subsection \<open>Saving\<close>

text \<open>
  saveFileWithPicker and saveFileWithAnchor: what the browser does is a parameter, an error name or success.  The
  exceptions of generateCsvFileToSave are the two classes of the module.
\<close>

datatype export_error = FileSystemAccessError | CsvGenerationError

definition saveFileWithPicker :: "string + unit \<Rightarrow> export_error + unit" where
  "saveFileWithPicker outcome =
     (case outcome of
        Inr u \<Rightarrow> Inr u
      | Inl name \<Rightarrow> if name = ''AbortError'' then Inr () else Inl FileSystemAccessError)"

definition saveFileWithAnchor :: "string + unit \<Rightarrow> export_error + unit" where
  "saveFileWithAnchor outcome = (case outcome of Inr u \<Rightarrow> Inr u | Inl name \<Rightarrow> Inl FileSystemAccessError)"

text \<open>The browser: whether it has a file picker, and what making the blob and saving it give for a content.\<close>

record browser =
  br_hasPicker :: bool
  br_blob :: "string \<Rightarrow> string + unit"
  br_picker :: "string \<Rightarrow> string + unit"
  br_anchor :: "string \<Rightarrow> string + unit"

definition generateCsvFileToSave :: "browser \<Rightarrow> CsvDataset list \<Rightarrow> CsvHeader list \<Rightarrow> export_error + unit" where
  "generateCsvFileToSave b datasets headers =
     (let csvContent = combineDatasetsToCsv datasets headers
      in case br_blob b csvContent of
           Inl name \<Rightarrow> Inl CsvGenerationError
         | Inr _ \<Rightarrow>
             if br_hasPicker b then saveFileWithPicker (br_picker b csvContent)
             else saveFileWithAnchor (br_anchor b csvContent))"

subsection \<open>The export of the neurons\<close>

text \<open>Texts and dates are given: the words of the states, durations and dates.\<close>

record export_texts =
  xt_state :: "NeuronState \<Rightarrow> string"
  xt_duration :: "int \<Rightarrow> string"
  xt_secondsToDate :: "number \<Rightarrow> string"
  xt_not_applicable :: string
  xt_label :: "string \<Rightarrow> string"

definition ICP_TOKEN_NAME :: string where
  "ICP_TOKEN_NAME = ''Internet Computer''"

text \<open>None: the error of a negative delay.  nowInSeconds is the time now.\<close>

definition getFutureDateFromDelayInSeconds :: "export_texts \<Rightarrow> number \<Rightarrow> int \<Rightarrow> string option" where
  "getFutureDateFromDelayInSeconds txt nowInSeconds seconds =
     (if seconds < 0 then None else Some (xt_secondsToDate txt (num_add nowInSeconds (to_number seconds))))"

definition nnsNeuronToHumanReadableFormat :: "export_texts \<Rightarrow> number \<Rightarrow> NeuronInfo \<Rightarrow> csv_row option" where
  "nnsNeuronToHumanReadableFormat txt nowInSeconds neuron =
     (let stake = \<lparr>ta_ulps = neuronStake neuron, ta_token = ICPToken\<rparr>;
          dissolveDate = (if ni_state neuron = Dissolving
                          then map_option Some (getFutureDateFromDelayInSeconds txt nowInSeconds (ni_dissolveDelaySeconds neuron))
                          else Some None)
      in map_option (\<lambda>date. (\<lambda>_. None)
           (''controllerId'' := Option.bind (ni_fullNeuron neuron) fn_controller,
            ''project'' := Some ICP_TOKEN_NAME,
            ''symbol'' := Some (token_symbol ICPToken),
            ''neuronId'' := Some (int_to_string (ni_neuronId neuron)),
            ''neuronAccountId'' := map_option fn_accountIdentifier (ni_fullNeuron neuron),
            ''stake'' := Some (formatTokenV2 stake Detailed None True),
            ''availableMaturity'' := Some (formatMaturity (Some (neuronAvailableMaturity neuron))),
            ''stakedMaturity'' := Some (formatMaturity (Some (neuronStakedMaturity neuron))),
            ''dissolveDelaySeconds'' := Some (xt_duration txt (ni_dissolveDelaySeconds neuron)),
            ''dissolveDate'' := Some (nullish_or date (xt_not_applicable txt)),
            ''creationDate'' := Some (xt_secondsToDate txt (to_number (ni_createdTimestampSeconds neuron))),
            ''state'' := Some (xt_state txt (ni_state neuron)))) dissolveDate)"

definition neuron_headers :: "export_texts \<Rightarrow> CsvHeader list" where
  "neuron_headers txt = map (\<lambda>(i, l). \<lparr>ch_id = i, ch_label = xt_label txt l\<rparr>)
     [(''neuronId'', ''neuron_id''), (''project'', ''project''), (''symbol'', ''symbol''),
      (''neuronAccountId'', ''neuron_account_id''), (''controllerId'', ''controller_id''), (''stake'', ''stake''),
      (''availableMaturity'', ''available_maturity''), (''stakedMaturity'', ''staked_maturity''),
      (''dissolveDelaySeconds'', ''dissolve_delay''), (''dissolveDate'', ''dissolve_date''),
      (''creationDate'', ''creation_date''), (''state'', ''state'')]"

text \<open>
  What a click leaves: the error shown, if any, and whether the event of the export was dispatched.  The button is
  disabled without neurons or without a principal; exportNeurons itself checks the principal only.
\<close>

definition export_isDisabled :: "NeuronInfo list \<Rightarrow> string option \<Rightarrow> bool" where
  "export_isDisabled neurons nnsAccountPrincipal \<longleftrightarrow> neurons = [] \<or> nnsAccountPrincipal = None"

definition neurons_dataset :: "export_texts \<Rightarrow> string \<Rightarrow> string \<Rightarrow> csv_row list \<Rightarrow> CsvDataset" where
  "neurons_dataset txt owner date rows =
     \<lparr>ds_data = rows,
      ds_metadata = [\<lparr>md_label = xt_label txt ''account_id_label'', md_value = owner\<rparr>,
                     \<lparr>md_label = xt_label txt ''date_label'', md_value = date\<rparr>]\<rparr>"

definition exportNeurons ::
  "browser \<Rightarrow> export_texts \<Rightarrow> number \<Rightarrow> string \<Rightarrow> string option \<Rightarrow> NeuronInfo list \<Rightarrow> string option \<times> bool" where
  "exportNeurons b txt nowInSeconds metadataDate nnsAccountPrincipal neurons =
     (case nnsAccountPrincipal of
        None \<Rightarrow> (None, False)
      | Some owner \<Rightarrow>
          if owner = [] then (None, False)
          else
            (case those (map (nnsNeuronToHumanReadableFormat txt nowInSeconds) neurons) of
               None \<Rightarrow> (Some ''export_error.neurons'', True)
             | Some rows \<Rightarrow>
                 (case generateCsvFileToSave b [neurons_dataset txt owner metadataDate rows] (neuron_headers txt) of
                    Inl FileSystemAccessError \<Rightarrow> (Some ''export_error.file_system_access'', True)
                  | Inl CsvGenerationError \<Rightarrow> (Some ''export_error.csv_generation'', True)
                  | Inr _ \<Rightarrow> (None, True))))"

subsection \<open>Reading a file back\<close>

datatype csv_mode = CellStart | InPlain | InQuoted | AfterQuote

text \<open>A reader of RFC 4180 text that takes CR and LF as ends of a row; a quote inside a plain cell is kept.\<close>

fun csv_read :: "csv_mode \<Rightarrow> string \<Rightarrow> string list \<Rightarrow> string \<Rightarrow> string list list" where
  "csv_read m cell row [] = [row @ [cell]]"
| "csv_read m cell row (c # cs) =
     (if m = InQuoted then
        (if c = CHR 0x22 then csv_read AfterQuote cell row cs else csv_read InQuoted (cell @ [c]) row cs)
      else if c = CHR '','' then csv_read CellStart [] (row @ [cell]) cs
      else if c \<in> {CHR 0x0D, CHR 0x0A} then (row @ [cell]) # csv_read CellStart [] [] cs
      else if c = CHR 0x22 \<and> m = CellStart then csv_read InQuoted [] row cs
      else if c = CHR 0x22 \<and> m = AfterQuote then csv_read InQuoted (cell @ [c]) row cs
      else csv_read InPlain (cell @ [c]) row cs)"

definition csv_parse :: "string \<Rightarrow> string list list" where
  "csv_parse s = csv_read CellStart [] [] s"

text \<open>What a cell shows: the value, with an apostrophe before a first character that would start a formula.\<close>

definition shown_value :: "string option \<Rightarrow> string" where
  "shown_value v =
     (case v of None \<Rightarrow> [] | Some s \<Rightarrow> if s \<noteq> [] \<and> hd s \<in> set ''=@|'' then CHR 0x27 # s else s)"

definition ends_cell :: "string \<Rightarrow> bool" where
  "ends_cell rest \<longleftrightarrow> rest = [] \<or> hd rest \<in> {CHR '','', CHR 0x0D, CHR 0x0A}"

lemma read_end: "m \<noteq> InQuoted \<Longrightarrow> ends_cell rest \<Longrightarrow> csv_read m cell row rest = csv_read InPlain cell row rest"
  by (cases rest) (auto simp: ends_cell_def)

lemma read_plain:
  assumes "set s \<inter> characters_to_quote = {}" "m = CellStart \<or> m = InPlain" "ends_cell rest"
  shows "csv_read m cell row (s @ rest) = csv_read InPlain (cell @ s) row rest"
  using assms(1,2)
proof (induction s arbitrary: m cell)
  case Nil
  then show ?case using read_end [OF _ assms(3), of m cell row] by auto
next
  case (Cons c s)
  then have "c \<notin> {CHR 0x22, CHR '','', CHR 0x0D, CHR 0x0A}" by (auto simp: characters_to_quote_def)
  then show ?case using Cons.IH [of InPlain "cell @ [c]"] Cons.prems by auto
qed

lemma read_quoted:
  "csv_read InQuoted cell row (double_quotes s @ CHR 0x22 # rest) = csv_read AfterQuote (cell @ s) row rest"
  by (induction s arbitrary: cell) (simp_all add: double_quotes_def)

lemma read_cell:
  assumes "ends_cell rest"
  shows "csv_read CellStart [] row (escapeCsvValue v @ rest) = csv_read InPlain (shown_value v) row rest"
proof (cases v)
  case None
  then show ?thesis using read_end [OF _ assms, of CellStart] by (simp add: escapeCsvValue_def shown_value_def)
next
  case (Some s)
  have plain: "csv_read CellStart [] row (s' @ rest) = csv_read InPlain s' row rest"
    if "set s' \<inter> characters_to_quote = {}" for s'
    using read_plain [OF that _ assms, of CellStart "[]" row] by simp
  have quoted: "csv_read CellStart [] row (CHR 0x22 # double_quotes s' @ CHR 0x22 # rest) = csv_read InPlain s' row rest" for s'
    using read_quoted [of "[]" row s' rest] read_end [OF _ assms, of AfterQuote s' row] by simp
  have sub: "characters_to_quote \<subseteq> special_characters" by (auto simp: characters_to_quote_def special_characters_def)
  show ?thesis
  proof (cases "set s \<inter> special_characters = {}")
    case True
    then have "\<not> (s \<noteq> [] \<and> hd s \<in> set ''=@|'')" by (cases s) (auto simp: special_characters_def)
    then have "shown_value v = s" using Some by (simp add: shown_value_def)
    moreover have "escapeCsvValue v = s" using Some True by (simp add: escapeCsvValue_def)
    moreover have "set s \<inter> characters_to_quote = {}" using True sub by auto
    ultimately show ?thesis using plain by simp
  next
    case False
    then have "s \<noteq> []" by auto
    then have e: "escapeCsvValue v = (if set (shown_value v) \<inter> characters_to_quote \<noteq> {}
        then CHR 0x22 # double_quotes (shown_value v) @ [CHR 0x22] else shown_value v)"
      using Some False by (simp add: escapeCsvValue_def shown_value_def)
    show ?thesis unfolding e using plain [of "shown_value v"] quoted [of "shown_value v"] by simp
  qed
qed

subsection \<open>Rows\<close>

definition csv_line :: "string option list \<Rightarrow> string" where
  "csv_line vs = join_with '','' (map escapeCsvValue vs)"

lemma read_row:
  assumes "vs \<noteq> []" "rest = [] \<or> hd rest = CHR 0x0A"
  shows "csv_read CellStart [] row (csv_line vs @ rest) =
    (row @ map shown_value vs) # (if rest = [] then [] else csv_read CellStart [] [] (tl rest))"
  using assms(1)
proof (induction vs arbitrary: row)
  case (Cons v vs)
  show ?case
  proof (cases vs)
    case Nil
    have "ends_cell rest" using assms(2) by (auto simp: ends_cell_def)
    then show ?thesis using assms(2) Nil read_cell [of rest row v] by (cases rest) (auto simp: csv_line_def)
  next
    case (Cons v' vs')
    have "csv_line (v # vs) @ rest = escapeCsvValue v @ CHR '','' # csv_line vs @ rest" by (simp add: csv_line_def Cons)
    moreover have "ends_cell (CHR '','' # csv_line vs @ rest)" by (simp add: ends_cell_def)
    ultimately show ?thesis using Cons.IH [of "row @ [shown_value v]"] Cons by (simp add: read_cell)
  qed
qed simp

lemma read_rows:
  assumes "rows \<noteq> []" "[] \<notin> set rows"
  shows "csv_parse (join_with [CHR 0x0A] (map csv_line rows)) = map (map shown_value) rows"
  using assms unfolding csv_parse_def
proof (induction rows)
  case (Cons r rows)
  show ?case
  proof (cases rows)
    case Nil
    then show ?thesis using Cons.prems read_row [of r "[]" "[]"] by simp
  next
    case (Cons q rs)
    let ?rest = "join_with [CHR 0x0A] (map csv_line rows)"
    have "csv_read CellStart [] [] ?rest = map (map shown_value) rows" using Cons.IH Cons.prems Cons by simp
    moreover have "join_with [CHR 0x0A] (map csv_line (r # rows)) = csv_line r @ CHR 0x0A # ?rest" by (simp add: Cons)
    moreover have "r \<noteq> []" using Cons.prems by auto
    ultimately show ?thesis using read_row [of r "CHR 0x0A # ?rest" "[]"] by simp
  qed
qed simp


text \<open>
  The rows of the file of a dataset: the metadata and an empty row, then the header and the data, moved two columns to
  the right when there is metadata.
\<close>

definition csv_rows :: "CsvHeader list \<Rightarrow> CsvDataset \<Rightarrow> string option list list" where
  "csv_rows headers d =
     (let pad = (if ds_metadata d = [] then [] else [None, None])
      in (if ds_metadata d = [] then [] else map (\<lambda>m. [Some (md_label m), Some (md_value m)]) (ds_metadata d) @ [[None]]) @
         map ((@) pad) (map (\<lambda>h. Some (ch_label h)) headers # map (\<lambda>row. map (\<lambda>h. row (ch_id h)) headers) (ds_data d)))"

fun combined_rows :: "CsvHeader list \<Rightarrow> CsvDataset list \<Rightarrow> string option list list" where
  "combined_rows headers [] = [[None]]"
| "combined_rows headers [d] = csv_rows headers d"
| "combined_rows headers (d # e # ds) = csv_rows headers d @ [None] # [None] # combined_rows headers (e # ds)"

lemma join_nested: "xs \<noteq> [] \<Longrightarrow> join_with s (join_with s xs # ys) = join_with s (xs @ ys)"
proof (induction s xs rule: join_with.induct)
  case (2 s x)
  then show ?case by simp
next
  case (3 s x y xs)
  then show ?case by (cases ys) simp_all
qed simp

lemma escape_None [simp]: "escapeCsvValue None = []"
  by (simp add: escapeCsvValue_def)

lemma csv_line_pair: "csv_line [Some a, Some b] = escapeCsvValue (Some a) @ '','' @ escapeCsvValue (Some b)"
  by (simp add: csv_line_def)

lemma csv_line_None: "csv_line [None] = []"
  by (simp add: csv_line_def)

lemma convertToCsv_text:
  assumes "headers \<noteq> []"
  shows "convertToCsv (ds_data d) headers (ds_metadata d) = join_with [CHR 0x0A] (map csv_line (csv_rows headers d))"
proof (cases "ds_metadata d = []")
  case True
  then show ?thesis using assms by (simp add: convertToCsv_def csv_rows_def csv_line_def comp_def)
next
  case False
  let ?meta = "map (\<lambda>m. csv_line [Some (md_label m), Some (md_value m)]) (ds_metadata d)"
  let ?table = "map (\<lambda>vs. csv_line ([None, None] @ vs))
    (map (\<lambda>h. Some (ch_label h)) headers # map (\<lambda>row. map (\<lambda>h. row (ch_id h)) headers) (ds_data d))"
  have "convertToCsv (ds_data d) headers (ds_metadata d) = join_with [CHR 0x0A] (join_with [CHR 0x0A] ?meta # [] # ?table)"
    using assms False by (simp add: convertToCsv_def csv_line_pair csv_line_def comp_def numeral_2_eq_2)
  also have "\<dots> = join_with [CHR 0x0A] (?meta @ [] # ?table)" by (rule join_nested) (use False in simp)
  also have "?meta @ [] # ?table = map csv_line (csv_rows headers d)"
    using False by (simp add: csv_rows_def csv_line_None comp_def)
  finally show ?thesis .
qed

lemma csv_rows_wf: "headers \<noteq> [] \<Longrightarrow> csv_rows headers d \<noteq> [] \<and> [] \<notin> set (csv_rows headers d)"
  by (auto simp: csv_rows_def Let_def)

lemma combined_rows_wf: "headers \<noteq> [] \<Longrightarrow> combined_rows headers ds \<noteq> [] \<and> [] \<notin> set (combined_rows headers ds)"
  by (induction headers ds rule: combined_rows.induct) (use csv_rows_wf in auto)

lemma combineDatasetsToCsv_text:
  assumes "headers \<noteq> []"
  shows "combineDatasetsToCsv ds headers = join_with [CHR 0x0A] (map csv_line (combined_rows headers ds))"
  using assms
proof (induction headers ds rule: combined_rows.induct)
  case (1 headers)
  then show ?case by (simp add: combineDatasetsToCsv_def csv_line_None)
next
  case (2 headers d)
  then show ?case by (simp add: combineDatasetsToCsv_def convertToCsv_text)
next
  case (3 headers d e ds)
  let ?d = "map csv_line (csv_rows headers d)" and ?rest = "map csv_line (combined_rows headers (e # ds))"
  have wf: "?d \<noteq> []" "?rest \<noteq> []" using 3 csv_rows_wf combined_rows_wf by auto
  have "combineDatasetsToCsv (d # e # ds) headers =
      join_with [CHR 0x0A] ?d @ [CHR 0x0A, CHR 0x0A, CHR 0x0A] @ join_with [CHR 0x0A] ?rest"
    using 3 by (simp add: combineDatasetsToCsv_def convertToCsv_text)
  also have "\<dots> = join_with [CHR 0x0A] (join_with [CHR 0x0A] ?d # [] # [] # ?rest)"
    using wf by (cases ?rest) auto
  also have "\<dots> = join_with [CHR 0x0A] (?d @ [] # [] # ?rest)" by (rule join_nested) (rule wf(1))
  finally show ?case by (simp add: csv_line_None)
qed

text \<open>C27: A reader of RFC 4180 text reads back the exported tables: for every dataset the metadata, then the header and one row per item,
  whatever quotes, commas and line breaks the values have.  A missing value is an empty cell, and a value that starts with
  =, @ or | has an apostrophe in front, so that no cell starts with one of these three; every other value is read
  back as it is.  Spreadsheets also take values that start with + or - for formulas: those are not guarded.\<close>

theorem csv_export_reads_back:
  assumes "headers \<noteq> []"
  shows "csv_parse (combineDatasetsToCsv datasets headers) =
      map (map (\<lambda>v. case v of None \<Rightarrow> [] | Some s \<Rightarrow> if s \<noteq> [] \<and> hd s \<in> {CHR ''='', CHR ''@'', CHR ''|''} then CHR 0x27 # s else s))
        (combined_rows headers datasets) \<and>
    (\<forall>row\<in>set (csv_parse (combineDatasetsToCsv datasets headers)). \<forall>cell\<in>set row.
       cell = [] \<or> hd cell \<notin> {CHR ''='', CHR ''@'', CHR ''|''})"
proof -
  have "csv_parse (combineDatasetsToCsv datasets headers) = map (map shown_value) (combined_rows headers datasets)"
    unfolding combineDatasetsToCsv_text [OF assms] by (rule read_rows) (use combined_rows_wf [OF assms] in auto)
  moreover have "shown_value =
      (\<lambda>v. case v of None \<Rightarrow> [] | Some s \<Rightarrow> if s \<noteq> [] \<and> hd s \<in> {CHR ''='', CHR ''@'', CHR ''|''} then CHR 0x27 # s else s)"
    by (rule ext) (simp add: shown_value_def split: option.split)
  moreover have "shown_value v = [] \<or> hd (shown_value v) \<notin> {CHR ''='', CHR ''@'', CHR ''|''}" for v
    by (auto simp: shown_value_def split: option.split)
  ultimately show ?thesis by auto
qed

definition example_table :: CsvDataset where
  "example_table = \<lparr>ds_data = [(\<lambda>_. None)(''a'' := Some ''=x'', ''b'' := Some [CHR 0x22, CHR '','', CHR 0x0A])],
     ds_metadata = [\<lparr>md_label = ''l'', md_value = ''v,w''\<rparr>]\<rparr>"

lemma csv_export_reads_back_witness:
  "csv_parse (combineDatasetsToCsv [example_table] [\<lparr>ch_id = ''a'', ch_label = ''A''\<rparr>, \<lparr>ch_id = ''b'', ch_label = ''B''\<rparr>]) =
     [[''l'', ''v,w''], [[]], [[], [], ''A'', ''B''], [[], [], [CHR 0x27, CHR ''='', CHR ''x''], [CHR 0x22, CHR '','', CHR 0x0A]]]"
  using csv_export_reads_back [of "[\<lparr>ch_id = ''a'', ch_label = ''A''\<rparr>, \<lparr>ch_id = ''b'', ch_label = ''B''\<rparr>]" "[example_table]"]
  by (simp add: example_table_def csv_rows_def)


subsection \<open>services/export-data.services.ts\<close>

definition export_pageSize :: nat where
  "export_pageSize = 100"

definition export_maxNumberOfPages :: nat where
  "export_maxNumberOfPages = 10"

text \<open>An error of a page, the TypeError of an empty page included, ends with the transactions of the pages before.\<close>

function getAllTransactionsFromAccountAndIdentity ::
  "IcpTransaction index_api \<Rightarrow> string \<Rightarrow> int option \<Rightarrow> IcpTransaction list \<Rightarrow> nat \<Rightarrow> IcpTransaction list" where
  "getAllTransactionsFromAccountAndIdentity getTransactions accountId lastTransactionId allTransactions currentPageIndex =
     (if currentPageIndex > export_maxNumberOfPages then allTransactions
      else case getTransactions accountId export_pageSize lastTransactionId of
             Inl _ \<Rightarrow> allTransactions
           | Inr (transactions, oldestTxId) \<Rightarrow>
               (let updatedTransactions = allTransactions @ transactions;
                    completed = (oldestTxId = None \<or> (\<exists>t\<in>set transactions. Some (ix_id t) = oldestTxId))
                in if completed then updatedTransactions
                   else if transactions = [] then allTransactions
                   else getAllTransactionsFromAccountAndIdentity getTransactions accountId (Some (ix_id (last transactions)))
                          updatedTransactions (currentPageIndex + 1)))"
  by pat_completeness auto
termination
  by (relation "measure (\<lambda>(_, _, _, _, currentPageIndex). Suc export_maxNumberOfPages - currentPageIndex)") auto

declare getAllTransactionsFromAccountAndIdentity.simps [simp del]

record AccountTransactions =
  at_account :: Account
  at_transactions :: "IcpTransaction list"
  at_error :: "string option"

text \<open>An entry of Promise.allSettled: the reason of a rejection, with a message or not, or the value of the request.\<close>

definition settled_entry :: "Account \<Rightarrow> string option + IcpTransaction list option \<Rightarrow> AccountTransactions" where
  "settled_entry account result =
     (case result of
        Inr transactions \<Rightarrow> \<lparr>at_account = account, at_transactions = nullish_or transactions [], at_error = None\<rparr>
      | Inl message \<Rightarrow>
          \<lparr>at_account = account, at_transactions = [],
           at_error = Some (case message of Some m \<Rightarrow> if m = [] then ''Failed to fetch transactions'' else m
                                          | None \<Rightarrow> ''Failed to fetch transactions'')\<rparr>)"

text \<open>The request of an account catches every error of its own, so its promise is fulfilled.\<close>

definition account_request :: "IcpTransaction index_api \<Rightarrow> Account \<Rightarrow> string option + IcpTransaction list option" where
  "account_request getTransactions account =
     Inr (Some (getAllTransactionsFromAccountAndIdentity getTransactions (ac_identifier account) None [] 1))"

definition getAccountTransactionsConcurrently :: "IcpTransaction index_api \<Rightarrow> Account list \<Rightarrow> AccountTransactions list" where
  "getAccountTransactionsConcurrently getTransactions accounts =
     map (\<lambda>account. settled_entry account (account_request getTransactions account)) accounts"

text \<open>An index canister that answers as documented, or not at all.\<close>

definition index_of_account :: "IcpTransaction list \<Rightarrow> IcpTransaction index_api \<Rightarrow> string \<Rightarrow> bool" where
  "index_of_account ledger getTransactions accountId \<longleftrightarrow>
     (\<forall>maxResults start. getTransactions accountId maxResults start \<in> {Inl (), index_of_ledger ix_id ledger maxResults start})"

lemma ledger_page:
  assumes "descending_by ix_id ledger" "n \<le> length ledger" "n \<noteq> 0"
  shows "filter (\<lambda>t. ix_id t < ix_id (last (take n ledger))) ledger = drop n ledger"
proof -
  have sorted: "descending_by ix_id (take n ledger @ drop n ledger)" using assms(1) by simp
  have ne: "take n ledger \<noteq> []" using assms(2,3) by (cases ledger) auto
  have "\<not> ix_id t < ix_id (last (take n ledger))" if "t \<in> set (take n ledger)" for t
  proof -
    have "descending_by ix_id (butlast (take n ledger) @ [last (take n ledger)])"
      using descending_by_take [OF assms(1), of n] ne by simp
    then have "\<forall>x\<in>set (butlast (take n ledger)). ix_id (last (take n ledger)) < ix_id x"
      unfolding descending_by_append by simp
    moreover have "t \<in> set (butlast (take n ledger)) \<or> t = last (take n ledger)"
      using that ne by (metis append_butlast_last_id in_set_conv_decomp rotate1.simps(2) set_ConsD set_rotate1)
    ultimately show ?thesis by auto
  qed
  moreover have "ix_id t < ix_id (last (take n ledger))" if "t \<in> set (drop n ledger)" for t
    using sorted that last_in_set [OF ne] unfolding descending_by_append by blast
  ultimately have "filter (\<lambda>t. ix_id t < ix_id (last (take n ledger))) (take n ledger @ drop n ledger) = drop n ledger"
    unfolding filter_append by (simp add: filter_empty_conv)
  then show ?thesis by simp
qed

lemma export_pages:
  assumes "descending_by ix_id ledger" "index_of_account ledger api a"
  shows "k \<le> 10 \<Longrightarrow> 100 * k < length ledger \<or> k = 0 \<Longrightarrow>
    \<exists>j\<le>10. getAllTransactionsFromAccountAndIdentity api a (if k = 0 then None else Some (ix_id (last (take (100 * k) ledger))))
        (take (100 * k) ledger) (k + 1) = take (100 * j) ledger \<and>
      ((\<forall>m start. api a m start = index_of_ledger ix_id ledger m start) \<longrightarrow> take (100 * j) ledger = take 1000 ledger)"
proof (induction "10 - k" arbitrary: k)
  case 0
  then have "k = 10" by simp
  then show ?case
    by (intro exI [of _ 10]) (simp add: getAllTransactionsFromAccountAndIdentity.simps export_maxNumberOfPages_def)
next
  case (Suc n)
  let ?start = "if k = 0 then None else Some (ix_id (last (take (100 * k) ledger)))"
  let ?run = "getAllTransactionsFromAccountAndIdentity api a ?start (take (100 * k) ledger) (k + 1)"
  define page where "page = take 100 (drop (100 * k) ledger)"
  have k: "k < 10" using Suc.hyps(2) by simp
  have older: "filter (\<lambda>t. case ?start of None \<Rightarrow> True | Some s \<Rightarrow> ix_id t < s) ledger = drop (100 * k) ledger"
    using ledger_page [OF assms(1), of "100 * k"] Suc.prems(2) by auto
  have answer: "index_of_ledger ix_id ledger 100 ?start = Inr (page, if ledger = [] then None else Some (ix_id (last ledger)))"
    unfolding index_of_ledger_def older page_def ..
  have all: "take (100 * k) ledger @ page = take (100 * Suc k) ledger"
    unfolding page_def by (simp add: take_add [symmetric] add.commute)
  consider "api a 100 ?start = Inl ()" | "api a 100 ?start = index_of_ledger ix_id ledger 100 ?start"
    using assms(2) by (auto simp: index_of_account_def)
  then show ?case
  proof cases
    case 1
    have "index_of_ledger ix_id ledger 100 ?start \<noteq> Inl ()" by (simp add: answer)
    then have bad: "\<not> (\<forall>m start. api a m start = index_of_ledger ix_id ledger m start)" using 1 by metis
    have "?run = take (100 * k) ledger"
      using 1 by (simp add: getAllTransactionsFromAccountAndIdentity.simps [of api a] export_pageSize_def export_maxNumberOfPages_def)
    then show ?thesis using bad k by (intro exI [of _ k]) auto
  next
    case 2
    define completed where "completed = (ledger = [] \<or> (\<exists>t\<in>set page. ix_id t = ix_id (last ledger)))"
    have run: "?run = (if completed then take (100 * Suc k) ledger else if page = [] then take (100 * k) ledger
        else getAllTransactionsFromAccountAndIdentity api a (Some (ix_id (last page))) (take (100 * Suc k) ledger) (Suc k + 1))"
      unfolding getAllTransactionsFromAccountAndIdentity.simps [of api a ?start] export_pageSize_def 2 answer sum.case prod.case Let_def all
      using k by (auto simp: completed_def export_maxNumberOfPages_def)
    show ?thesis
    proof (cases "length ledger \<le> 100 * Suc k")
      case True
      have "completed"
      proof (cases "ledger = []")
        case False
        then have "drop (100 * k) ledger \<noteq> []" using Suc.prems(2) by auto
        moreover have "page = drop (100 * k) ledger" using True by (simp add: page_def)
        ultimately have "last ledger \<in> set page" by (metis last_drop last_in_set drop_eq_Nil not_le)
        then show ?thesis by (auto simp: completed_def)
      qed (simp add: completed_def)
      moreover have "take (100 * Suc k) ledger = take 1000 ledger" using True k by (simp add: take_all)
      ultimately show ?thesis using run k by (intro exI [of _ "Suc k"]) auto
    next
      case False
      have len: "length page = 100" using False by (simp add: page_def)
      then have ne: "page \<noteq> []" by auto
      have split: "descending_by ix_id (take (100 * Suc k) ledger @ drop (100 * Suc k) ledger)" using assms(1) by simp
      have "last ledger \<in> set (drop (100 * Suc k) ledger)"
        using False by (metis last_drop last_in_set drop_eq_Nil not_le)
      then have "\<forall>t\<in>set (take (100 * Suc k) ledger). ix_id (last ledger) < ix_id t"
        using split unfolding descending_by_append by blast
      then have "\<forall>t\<in>set page. ix_id (last ledger) < ix_id t" unfolding all [symmetric] by simp
      then have "\<not> completed" using False unfolding completed_def by (metis length_0_conv less_irrefl not_less zero_le)
      moreover have "last page = last (take (100 * Suc k) ledger)" using ne unfolding all [symmetric] by simp
      ultimately have "?run = getAllTransactionsFromAccountAndIdentity api a
          (if Suc k = 0 then None else Some (ix_id (last (take (100 * Suc k) ledger)))) (take (100 * Suc k) ledger) (Suc k + 1)"
        using run ne by simp
      then show ?thesis using Suc.hyps(1) [of "Suc k"] Suc.hyps(2) k False by auto
    qed
  qed
qed

definition main_account :: Account where
  "main_account = \<lparr>ac_identifier = ''a'', ac_principal = None, ac_balanceUlps = 0, ac_name = None, ac_subAccount = None,
     ac_type = AccountMain, ac_icpIdentifier = None\<rparr>"

text \<open>C28: An export of the transactions of an account is a number of whole pages of its newest transactions, of a thousand transactions when
  every page is answered; a page that fails cuts the export short without an error, and so does the limit of ten
  pages.\<close>

theorem export_is_silently_cut:
  assumes "descending_by ix_id ledger" "index_of_account ledger api (ac_identifier account)"
  shows "\<exists>j\<le>10. getAccountTransactionsConcurrently api [account] =
      [\<lparr>at_account = account, at_transactions = take (100 * j) ledger, at_error = None\<rparr>] \<and>
    ((\<forall>m start. api (ac_identifier account) m start = index_of_ledger ix_id ledger m start) \<longrightarrow>
       take (100 * j) ledger = take 1000 ledger)"
  using export_pages [OF assms, of 0] by (simp add: getAccountTransactionsConcurrently_def account_request_def settled_entry_def)


theorem export_is_silently_cut_witness:
  "\<exists>j\<le>10. getAccountTransactionsConcurrently (\<lambda>a m start. index_of_ledger ix_id (example_ledger 1500) m start) [main_account] =
      [\<lparr>at_account = main_account, at_transactions = take (100 * j) (example_ledger 1500), at_error = None\<rparr>] \<and>
    take (100 * j) (example_ledger 1500) = take 1000 (example_ledger 1500)"
  using export_is_silently_cut [of "example_ledger 1500" "\<lambda>a m start. index_of_ledger ix_id (example_ledger 1500) m start" main_account]
  by (auto simp: index_of_account_def example_newest)

end
