(* ===== verification/Canisters.thy ===== *)
theory Canisters
  imports NeuronServices Transactions
begin

text \<open>
  The canisters of a user: services/canisters.services.ts, api/canisters.api.ts, utils/canisters.utils.ts,
  stores/canisters.store.ts, the errors of canisters/nns-dapp/nns-dapp.canister.ts and the label lookup of
  utils/i18n.utils.ts.  The ledger, the cycles minting canister, the management canister and the canister of the
  dapp are parameters that act on a world of their own; every call is logged with its outcome.
\<close>

subsection \<open>utils/i18n.utils.ts\<close>

datatype i18n_tree = I18nText string | I18nGroup "(string \<times> i18n_tree) list"

text \<open>String.prototype.split(''.'')\<close>

fun split_dots :: "string \<Rightarrow> string list" where
  "split_dots [] = [[]]"
| "split_dots (c # cs) =
     (if c = CHR ''.'' then [] # split_dots cs
      else case split_dots cs of [] \<Rightarrow> [[c]] | p # ps \<Rightarrow> (c # p) # ps)"

text \<open>The walk along the parts of the key; a text ends it, whatever parts are left.\<close>

fun translate_in :: "(string \<times> i18n_tree) list \<Rightarrow> string \<Rightarrow> string list \<Rightarrow> string" where
  "translate_in translations labelKey [] = labelKey"
| "translate_in translations labelKey (firstKey # rest) =
     (if firstKey = [] then labelKey
      else case map_of translations firstKey of
             None \<Rightarrow> labelKey
           | Some (I18nText text) \<Rightarrow> text
           | Some (I18nGroup texts) \<Rightarrow> if rest = [] then labelKey else translate_in texts labelKey rest)"

definition translate :: "(string \<times> i18n_tree) list \<Rightarrow> string \<Rightarrow> string" where
  "translate i18n labelKey = translate_in i18n labelKey (split_dots labelKey)"

subsection \<open>Errors\<close>

datatype canister_error_class =
    ProcessingErr | RefundedErr | InvalidTransactionErr | UserNotTheControllerErr | NotEnoughAmountErr
  | LedgerErrorMessageErr | CanisterAlreadyAttachedErr | CanisterNameAlreadyTakenErr | CanisterNameTooLongErr
  | CanisterLimitExceededErr | CanisterNotFoundErr | ApiErrorKeyErr | OtherCanisterErr

text \<open>CanisterPending: the promise stays pending because the user is being logged out.\<close>

datatype canister_error = CanisterError canister_error_class "string option" | CanisterPending

fun canister_message :: "canister_error poll_error \<Rightarrow> string option" where
  "canister_message (FnError (CanisterError c m)) = m"
| "canister_message err = None"

fun canisterMapper :: "canister_error_class \<Rightarrow> string option" where
  "canisterMapper RefundedErr = Some ''error.canister_refund''"
| "canisterMapper InvalidTransactionErr = Some ''error.canister_invalid_transaction''"
| "canisterMapper UserNotTheControllerErr = Some ''error.not_canister_controller_to_update''"
| "canisterMapper NotEnoughAmountErr = Some ''error.insufficient_funds''"
| "canisterMapper _ = None"

text \<open>toToastError of utils/error.utils.ts, its label.\<close>

definition toastLabel :: "(string \<times> i18n_tree) list \<Rightarrow> string \<Rightarrow> canister_error poll_error \<Rightarrow> string" where
  "toastLabel i18n fallback err =
     (case canister_message err of
        None \<Rightarrow> fallback
      | Some message \<Rightarrow> if translate i18n message \<noteq> message then message else fallback)"

text \<open>mapCanisterErrorToToastMessage, its label; that of a LedgerErrorMessage is empty.\<close>

definition mapCanisterErrorToToastMessage :: "(string \<times> i18n_tree) list \<Rightarrow> canister_error poll_error \<Rightarrow> string \<Rightarrow> string" where
  "mapCanisterErrorToToastMessage i18n err fallbackKey =
     (let testFallbackKey = ''fallback'';
          labelKey = toastLabel i18n testFallbackKey err
      in case err of
           FnError (CanisterError LedgerErrorMessageErr m) \<Rightarrow> []
         | _ \<Rightarrow>
             if labelKey \<noteq> testFallbackKey then labelKey
             else case err of
                    FnError (CanisterError c m) \<Rightarrow> nullish_or (canisterMapper c) fallbackKey
                  | _ \<Rightarrow> fallbackKey)"

text \<open>The answers of the dapp's canister and the errors that the client makes of them.\<close>

datatype attach_response =
  AttachOk | AttachCanisterAlreadyAttached | AttachNameAlreadyTaken | AttachNameTooLong | AttachCanisterLimitExceeded | AttachOther

fun attach_outcome :: "attach_response \<Rightarrow> canister_error + unit" where
  "attach_outcome AttachOk = Inr ()"
| "attach_outcome AttachCanisterAlreadyAttached =
     Inl (CanisterError CanisterAlreadyAttachedErr (Some ''error__canister.already_attached''))"
| "attach_outcome AttachNameAlreadyTaken = Inl (CanisterError CanisterNameAlreadyTakenErr (Some ''error__canister.name_taken''))"
| "attach_outcome AttachNameTooLong = Inl (CanisterError CanisterNameTooLongErr (Some ''error__canister.name_too_long''))"
| "attach_outcome AttachCanisterLimitExceeded = Inl (CanisterError CanisterLimitExceededErr (Some ''error__canister.limit_exceeded''))"
| "attach_outcome AttachOther = Inl (CanisterError OtherCanisterErr (Some ''Error attaching canister''))"

datatype rename_response = RenameOk | RenameNameAlreadyTaken | RenameNameTooLong | RenameCanisterNotFound | RenameOther

fun rename_outcome :: "rename_response \<Rightarrow> canister_error + unit" where
  "rename_outcome RenameOk = Inr ()"
| "rename_outcome RenameNameAlreadyTaken = Inl (CanisterError CanisterNameAlreadyTakenErr (Some ''error__canister.name_taken''))"
| "rename_outcome RenameNameTooLong = Inl (CanisterError CanisterNameTooLongErr (Some ''error__canister.name_too_long''))"
| "rename_outcome RenameCanisterNotFound = Inl (CanisterError CanisterNotFoundErr (Some ''error__canister.unlink_not_found''))"
| "rename_outcome RenameOther = Inl (CanisterError OtherCanisterErr (Some ''Error renaming canister''))"

datatype detach_response = DetachOk | DetachCanisterNotFound | DetachOther

fun detach_outcome :: "detach_response \<Rightarrow> canister_error + unit" where
  "detach_outcome DetachOk = Inr ()"
| "detach_outcome DetachCanisterNotFound = Inl (CanisterError CanisterNotFoundErr (Some ''error__canister.unlink_not_found''))"
| "detach_outcome DetachOther = Inl (CanisterError OtherCanisterErr (Some ''Error detaching canister''))"

subsection \<open>Canisters\<close>

record CanisterInfo =
  ci_name :: string
  ci_canister_id :: string

record CanisterSettings =
  cs_controllers :: "string list"
  cs_freezingThreshold :: int
  cs_memoryAllocation :: int
  cs_computeAllocation :: int

record CanisterDetails =
  cd_id :: string
  cd_settings :: CanisterSettings

record CanistersStore =
  ct_canisters :: "CanisterInfo list option"
  ct_certified :: "bool option"

definition getCanisterFromStore :: "string option \<Rightarrow> CanistersStore \<Rightarrow> CanisterInfo option" where
  "getCanisterFromStore canisterId store =
     Option.bind (ct_canisters store) (List.find (\<lambda>c. Some (ci_canister_id c) = canisterId))"

definition isController :: "string \<Rightarrow> CanisterDetails \<Rightarrow> bool" where
  "isController controller canisterDetails \<longleftrightarrow> controller \<in> set (cs_controllers (cd_settings canisterDetails))"

definition isUserController :: "string \<Rightarrow> string option \<Rightarrow> bool" where
  "isUserController controller identity \<longleftrightarrow> Some controller = identity"

definition mapCanisterDetails :: "CanisterInfo \<Rightarrow> string \<times> bool \<times> string" where
  "mapCanisterDetails info = (ci_name info, length (ci_name info) > 0, ci_canister_id info)"

definition areEnoughCyclesSelected :: "number option \<Rightarrow> number option \<Rightarrow> bool" where
  "areEnoughCyclesSelected amountCycles minimumCycles \<longleftrightarrow>
     nullish_or amountCycles 0 \<ge> nullish_or minimumCycles 0 \<and> nullish_or amountCycles 0 > 0"

definition MAX_CANISTER_NAME_LENGTH :: nat where
  "MAX_CANISTER_NAME_LENGTH = 24"

definition isNameTooLong :: "string option \<Rightarrow> bool" where
  "isNameTooLong name = (case name of None \<Rightarrow> False | Some n \<Rightarrow> length n > MAX_CANISTER_NAME_LENGTH)"

subsection \<open>Calls and state\<close>

record icp_transfer =
  tr_memo :: int
  tr_to :: string
  tr_amount :: int
  tr_fromSubAccount :: "nat list option"
  tr_fee :: int

datatype canister_event =
    CnTransfer icp_transfer nns_identity "canister_error + int"
  | CnNotifyCreate string int "canister_error + string"
  | CnNotifyTopUp string int "canister_error + int"
  | CnAttach string string "canister_error + unit"
  | CnRename string string "canister_error + unit"
  | CnDetach string "canister_error + unit"
  | CnUpdateSettings string CanisterSettings "canister_error + unit"
  | CnQueryCanisters bool "canister_error + CanisterInfo list"
  | CnReloadBalance string
  | CnToast string
  | CnHighLoad bool

text \<open>
  cn_cmcAccount gives the account of the cycles minting canister for the subaccount of a principal;
  cn_ledgerIdentity is getLedgerIdentity of services/icp-ledger.services.ts, which asks the device.
\<close>

record 'w canister_env =
  cn_user :: "string option"
  cn_accounts :: IcpAccountsStoreData
  cn_ledgerIdentity :: "string \<Rightarrow> 'w \<Rightarrow> (canister_error + nns_identity) \<times> 'w"
  cn_principal :: "nns_identity \<Rightarrow> string"
  cn_cmcAccount :: "string \<Rightarrow> string"
  cn_numberToE8s :: "number \<Rightarrow> int option"
  cn_fee :: int
  cn_i18n :: "(string \<times> i18n_tree) list"
  cn_strategy :: "QueryAndUpdateStrategy option"
  cn_updateFirst :: bool
  cn_transfer :: "icp_transfer \<Rightarrow> nns_identity \<Rightarrow> 'w \<Rightarrow> (canister_error + int) \<times> 'w"
  cn_notifyCreate :: "string \<Rightarrow> int \<Rightarrow> 'w \<Rightarrow> (canister_error + string) \<times> 'w"
  cn_notifyTopUp :: "string \<Rightarrow> int \<Rightarrow> 'w \<Rightarrow> (canister_error + int) \<times> 'w"
  cn_attach :: "string \<Rightarrow> string \<Rightarrow> 'w \<Rightarrow> attach_response \<times> 'w"
  cn_rename :: "string \<Rightarrow> string \<Rightarrow> 'w \<Rightarrow> rename_response \<times> 'w"
  cn_detach :: "string \<Rightarrow> 'w \<Rightarrow> detach_response \<times> 'w"
  cn_updateSettings :: "string \<Rightarrow> CanisterSettings \<Rightarrow> 'w \<Rightarrow> (canister_error + unit) \<times> 'w"
  cn_queryCanisters :: "bool \<Rightarrow> 'w \<Rightarrow> (canister_error + CanisterInfo list) \<times> 'w"
  cn_wait :: "'w \<Rightarrow> 'w"

record 'w canister_state =
  cw_world :: 'w
  cw_store :: CanistersStore
  cw_log :: "canister_event list"

type_synonym ('w, 'a) cn = "('w canister_state, canister_error poll_error, 'a) effect"

definition note_cn :: "canister_event \<Rightarrow> 'w canister_state \<Rightarrow> 'w canister_state" where
  "note_cn e s = s\<lparr>cw_log := cw_log s @ [e]\<rparr>"

definition call_cn :: "(canister_error + 'a \<Rightarrow> canister_event) \<Rightarrow> ('w \<Rightarrow> (canister_error + 'a) \<times> 'w) \<Rightarrow> ('w, 'a) cn" where
  "call_cn event f s =
     (let (r, w) = f (cw_world s)
      in (case r of Inl e \<Rightarrow> Inl (FnError e) | Inr x \<Rightarrow> Inr x, note_cn (event r) (s\<lparr>cw_world := w\<rparr>)))"

text \<open>A call whose answer is a variant that the client turns into an error.\<close>

definition answered :: "('r \<Rightarrow> canister_error + unit) \<Rightarrow> ('w \<Rightarrow> 'r \<times> 'w) \<Rightarrow> 'w \<Rightarrow> (canister_error + unit) \<times> 'w" where
  "answered outcome f w = (let (r, w') = f w in (outcome r, w'))"

definition throw_cn :: "canister_error_class \<Rightarrow> string option \<Rightarrow> ('w, 'a) cn" where
  "throw_cn c m = throwE (FnError (CanisterError c m))"

text \<open>try and catch: a promise that never settles reaches no handler.\<close>

definition catch_cn :: "('w, 'a) cn \<Rightarrow> (canister_error poll_error \<Rightarrow> ('w, 'a) cn) \<Rightarrow> ('w, 'a) cn" where
  "catch_cn m h = catchE m (\<lambda>e. if e = FnError CanisterPending then throwE e else h e)"

definition toast_cn :: "'w canister_env \<Rightarrow> string \<Rightarrow> 'a \<Rightarrow> canister_error poll_error \<Rightarrow> ('w, 'a) cn" where
  "toast_cn env fallbackKey result err =
     thenE (updateE (note_cn (CnToast (mapCanisterErrorToToastMessage (cn_i18n env) err fallbackKey)))) (returnE result)"

definition getAuthenticatedIdentity_cn :: "'w canister_env \<Rightarrow> ('w, nns_identity) cn" where
  "getAuthenticatedIdentity_cn env =
     (case cn_user env of None \<Rightarrow> throwE (FnError CanisterPending) | Some p \<Rightarrow> returnE (AuthIdentity p))"

definition getAccountIdentity_cn :: "'w canister_env \<Rightarrow> string \<Rightarrow> ('w, nns_identity) cn" where
  "getAccountIdentity_cn env identifier =
     (let account = findAccount (Some identifier) (nnsAccountsListStore (cn_accounts env))
      in if map_option ac_type account = Some AccountHardwareWallet
         then (\<lambda>s. let (r, w) = cn_ledgerIdentity env identifier (cw_world s)
                   in (case r of Inl e \<Rightarrow> Inl (FnError e) | Inr i \<Rightarrow> Inr i, s\<lparr>cw_world := w\<rparr>))
         else getAuthenticatedIdentity_cn env)"

subsection \<open>api/canisters.api.ts\<close>

definition notProcessingError :: "canister_error poll_error \<Rightarrow> bool" where
  "notProcessingError err = (case err of FnError (CanisterError ProcessingErr m) \<Rightarrow> False | _ \<Rightarrow> True)"

definition cmc_polling :: "'w canister_env \<Rightarrow> ('w, 'a) cn \<Rightarrow> ('w canister_state, canister_error, 'a) polling" where
  "cmc_polling env fn =
     \<lparr>po_fn = fn, po_shouldExit = (\<lambda>err s. (notProcessingError err, s)), po_cancelled = (\<lambda>s. False),
      po_wait = (\<lambda>s. s\<lparr>cw_world := cn_wait env (cw_world s)\<rparr>),
      po_highLoad = note_cn (CnHighLoad True), po_hideHighLoad = note_cn (CnHighLoad False)\<rparr>"

text \<open>The catch block of both polls: the limit becomes an error with a label of its own.\<close>

definition limit_error :: "string \<Rightarrow> canister_error poll_error \<Rightarrow> ('w, 'a) cn" where
  "limit_error key err = (if err = PollingLimitExceededError then throw_cn ApiErrorKeyErr (Some key) else throwE err)"

definition pollNotifyCreateCanister :: "'w canister_env \<Rightarrow> string \<Rightarrow> int \<Rightarrow> ('w, string) cn" where
  "pollNotifyCreateCanister env controller blockHeight =
     catchE (pollE poll_defaults (cmc_polling env (call_cn (CnNotifyCreate controller blockHeight) (cn_notifyCreate env controller blockHeight))))
       (limit_error ''error.limit_exceeded_creating_canister'')"

definition pollNotifyTopUpCanister :: "'w canister_env \<Rightarrow> string \<Rightarrow> int \<Rightarrow> ('w, int) cn" where
  "pollNotifyTopUpCanister env canisterId blockHeight =
     catchE (pollE poll_defaults (cmc_polling env (call_cn (CnNotifyTopUp canisterId blockHeight) (cn_notifyTopUp env canisterId blockHeight))))
       (limit_error ''error.limit_exceeded_topping_up_canister.'')"

definition sendICP :: "'w canister_env \<Rightarrow> nns_identity \<Rightarrow> icp_transfer \<Rightarrow> ('w, int) cn" where
  "sendICP env i t = call_cn (CnTransfer t i) (cn_transfer env t i)"

definition attachCanister_api :: "'w canister_env \<Rightarrow> string option \<Rightarrow> string \<Rightarrow> ('w, unit) cn" where
  "attachCanister_api env name canisterId =
     (if isNameTooLong name then throw_cn CanisterNameTooLongErr (Some ''error__canister.name_too_long'')
      else call_cn (CnAttach (nullish_or name []) canisterId) (answered attach_outcome (cn_attach env (nullish_or name []) canisterId)))"

definition renameCanister_api :: "'w canister_env \<Rightarrow> string \<Rightarrow> string \<Rightarrow> ('w, unit) cn" where
  "renameCanister_api env name canisterId =
     (if isNameTooLong (Some name) then throw_cn CanisterNameTooLongErr (Some ''error__canister.name_too_long'')
      else call_cn (CnRename name canisterId) (answered rename_outcome (cn_rename env name canisterId)))"

definition alreadyAttached :: "canister_error poll_error \<Rightarrow> bool" where
  "alreadyAttached err = (case err of FnError (CanisterError CanisterAlreadyAttachedErr m) \<Rightarrow> True | _ \<Rightarrow> False)"

definition createCanister_api ::
  "'w canister_env \<Rightarrow> nns_identity \<Rightarrow> int \<Rightarrow> string option \<Rightarrow> nat list option \<Rightarrow> int \<Rightarrow> ('w, string) cn" where
  "createCanister_api env i amount name fromSubAccount fee =
     (if isNameTooLong name then throw_cn CanisterNameTooLongErr (Some ''error__canister.name_too_long'')
      else
        bindE (sendICP env i \<lparr>tr_memo = CREATE_CANISTER_MEMO, tr_to = cn_cmcAccount env (cn_principal env i), tr_amount = amount,
                 tr_fromSubAccount = fromSubAccount, tr_fee = fee\<rparr>) (\<lambda>blockHeight.
        bindE (pollNotifyCreateCanister env (cn_principal env i) blockHeight) (\<lambda>canisterId.
        thenE (catchE (call_cn (CnAttach (nullish_or name []) canisterId)
                 (answered attach_outcome (cn_attach env (nullish_or name []) canisterId)))
                 (\<lambda>err. if alreadyAttached err then returnE () else throwE err))
          (returnE canisterId))))"

definition topUpCanister_api ::
  "'w canister_env \<Rightarrow> nns_identity \<Rightarrow> string \<Rightarrow> int \<Rightarrow> nat list option \<Rightarrow> int \<Rightarrow> ('w, unit) cn" where
  "topUpCanister_api env i canisterId amount fromSubAccount fee =
     bindE (sendICP env i \<lparr>tr_memo = TOP_UP_CANISTER_MEMO, tr_to = cn_cmcAccount env canisterId, tr_amount = amount,
              tr_fromSubAccount = fromSubAccount, tr_fee = fee\<rparr>) (\<lambda>blockHeight.
       thenE (pollNotifyTopUpCanister env canisterId blockHeight) (returnE ()))"


subsection \<open>services/canisters.services.ts\<close>

definition setCanisters :: "CanisterInfo list option \<Rightarrow> bool \<Rightarrow> 'w canister_state \<Rightarrow> 'w canister_state" where
  "setCanisters canisters certified s = s\<lparr>cw_store := \<lparr>ct_canisters = canisters, ct_certified = Some certified\<rparr>\<rparr>"

definition listCanisters :: "'w canister_env \<Rightarrow> bool \<Rightarrow> ('w, unit) cn" where
  "listCanisters env clearBeforeQuery =
     thenE (updateE (\<lambda>s. if clearBeforeQuery then setCanisters None True s else s))
       (bindE (getAuthenticatedIdentity_cn env) (\<lambda>i.
          let currentStrategy = nullish_or (cn_strategy env) QueryAndUpdate;
              requests = qau_requests currentStrategy
          in updateE (\<lambda>s. snd (qau_run
               (\<lambda>certified. call_cn (CnQueryCanisters certified) (cn_queryCanisters env certified))
               (\<lambda>certified canisters. setCanisters (Some canisters) certified)
               (\<lambda>certified st err s. if \<not> isLastCall st certified then s
                  else note_cn (CnToast ''error.list_canisters'') (setCanisters (Some []) True s))
               currentStrategy (if cn_updateFirst env then rev requests else requests) (False, s)))))"

definition loadBalance_cn :: "string \<Rightarrow> ('w, unit) cn" where
  "loadBalance_cn accountIdentifier = updateE (note_cn (CnReloadBalance accountIdentifier))"

text \<open>The amount in e8s: fromNumber fails on amounts with too many decimals.\<close>

definition checked_amount :: "'w canister_env \<Rightarrow> number \<Rightarrow> Account \<Rightarrow> ('w, int) cn" where
  "checked_amount env amount account =
     (case cn_numberToE8s env amount of
        None \<Rightarrow> throw_cn LedgerErrorMessageErr (Some ''error.amount_not_valid'')
      | Some icpAmount \<Rightarrow>
          (case assertEnoughAccountFunds account icpAmount of
             Inl _ \<Rightarrow> throw_cn NotEnoughAmountErr (Some ''error.insufficient_funds'')
           | Inr _ \<Rightarrow> returnE icpAmount))"

definition createCanister :: "'w canister_env \<Rightarrow> number \<Rightarrow> Account \<Rightarrow> string option \<Rightarrow> ('w, string option) cn" where
  "createCanister env amount account name =
     catch_cn
       (bindE (checked_amount env amount account) (\<lambda>icpAmount.
        bindE (getAccountIdentity_cn env (ac_identifier account)) (\<lambda>i.
        bindE (createCanister_api env i icpAmount name (ac_subAccount account) (cn_fee env)) (\<lambda>canisterId.
        thenE (listCanisters env False)
          (thenE (loadBalance_cn (ac_identifier account)) (returnE (Some canisterId)))))))
       (toast_cn env ''error.canister_creation_unknown'' None)"

definition renameCanister :: "'w canister_env \<Rightarrow> string \<Rightarrow> string \<Rightarrow> ('w, bool) cn" where
  "renameCanister env name canisterId =
     catch_cn
       (bindE (getAuthenticatedIdentity_cn env) (\<lambda>_.
        thenE (renameCanister_api env name canisterId) (thenE (listCanisters env False) (returnE True))))
       (toast_cn env ''error.canister_creation_unknown'' False)"

definition topUpCanister :: "'w canister_env \<Rightarrow> number \<Rightarrow> string \<Rightarrow> Account \<Rightarrow> ('w, bool) cn" where
  "topUpCanister env amount canisterId account =
     catch_cn
       (bindE (checked_amount env amount account) (\<lambda>icpAmount.
        bindE (getAccountIdentity_cn env (ac_identifier account)) (\<lambda>i.
        thenE (topUpCanister_api env i canisterId icpAmount (ac_subAccount account) (cn_fee env))
          (thenE (loadBalance_cn (ac_identifier account)) (returnE True)))))
       (toast_cn env ''error.canister_top_up_unknown'' False)"

text \<open>
  notifyTopUpIfNeeded: index answers the balance and the newest transactions of the account of the canister; a
  rejection of it rejects the service, one of the notification is ignored.
\<close>

definition getBlockHeightFromCanisterTopUp :: "IcpTransaction \<Rightarrow> int option" where
  "getBlockHeightFromCanisterTopUp t =
     (if ix_memo t \<noteq> TOP_UP_CANISTER_MEMO \<or> \<not> (case ix_operation t of TransferOp to fee from amount \<Rightarrow> True | _ \<Rightarrow> False)
      then None else Some (ix_id t))"

definition notifyTopUpIfNeeded ::
  "'w canister_env \<Rightarrow> (string \<Rightarrow> 'w \<Rightarrow> (canister_error + int \<times> IcpTransaction list) \<times> 'w) \<Rightarrow> string \<Rightarrow> ('w, bool) cn" where
  "notifyTopUpIfNeeded env index canisterId =
     bindE (\<lambda>s. let (r, w) = index (cn_cmcAccount env canisterId) (cw_world s)
                in (case r of Inl e \<Rightarrow> Inl (FnError e) | Inr x \<Rightarrow> Inr x, s\<lparr>cw_world := w\<rparr>)) (\<lambda>(balance, transactions).
       if balance = 0 \<or> transactions = [] then returnE False
       else case getBlockHeightFromCanisterTopUp (hd transactions) of
              None \<Rightarrow> returnE False
            | Some blockHeight \<Rightarrow>
                catchE (thenE (call_cn (CnNotifyTopUp canisterId blockHeight) (cn_notifyTopUp env canisterId blockHeight)) (returnE True))
                  (\<lambda>_. returnE True))"

definition updateSettings :: "'w canister_env \<Rightarrow> CanisterSettings \<Rightarrow> string \<Rightarrow> ('w, bool) cn" where
  "updateSettings env settings canisterId =
     catch_cn
       (bindE (getAuthenticatedIdentity_cn env) (\<lambda>_.
        thenE (call_cn (CnUpdateSettings canisterId settings) (cn_updateSettings env canisterId settings)) (returnE True)))
       (toast_cn env ''error.canister_update_settings'' False)"

definition addController :: "'w canister_env \<Rightarrow> string \<Rightarrow> CanisterDetails \<Rightarrow> ('w, bool) cn" where
  "addController env controller canisterDetails =
     (if isController controller canisterDetails
      then thenE (updateE (note_cn (CnToast ''error.controller_already_present''))) (returnE False)
      else let newControllers = cs_controllers (cd_settings canisterDetails) @ [controller]
           in updateSettings env ((cd_settings canisterDetails)\<lparr>cs_controllers := newControllers\<rparr>) (cd_id canisterDetails))"

definition removeController :: "'w canister_env \<Rightarrow> string \<Rightarrow> CanisterDetails \<Rightarrow> ('w, bool) cn" where
  "removeController env controller canisterDetails =
     (if \<not> isController controller canisterDetails
      then thenE (updateE (note_cn (CnToast ''error.controller_not_present''))) (returnE False)
      else let newControllers = filter (\<lambda>c. c \<noteq> controller) (cs_controllers (cd_settings canisterDetails))
           in updateSettings env ((cd_settings canisterDetails)\<lparr>cs_controllers := newControllers\<rparr>) (cd_id canisterDetails))"

definition attachCanister :: "'w canister_env \<Rightarrow> string option \<Rightarrow> string \<Rightarrow> ('w, bool) cn" where
  "attachCanister env name canisterId =
     catch_cn
       (bindE (getAuthenticatedIdentity_cn env) (\<lambda>_.
        thenE (attachCanister_api env name canisterId) (thenE (listCanisters env False) (returnE True))))
       (\<lambda>err. thenE (updateE (note_cn (CnToast (toastLabel (cn_i18n env) ''error__canister.unknown_link'' err)))) (returnE False))"

text \<open>The variable success of the code is set once the call has succeeded.\<close>

definition detachCanister :: "'w canister_env \<Rightarrow> string \<Rightarrow> ('w, bool) cn" where
  "detachCanister env canisterId =
     (let failed = (\<lambda>success err. thenE (updateE (note_cn (CnToast (toastLabel (cn_i18n env) ''error__canister.unknown_unlink'' err))))
                      (returnE success))
      in bindE (catch_cn
              (bindE (getAuthenticatedIdentity_cn env) (\<lambda>_.
               thenE (call_cn (CnDetach canisterId) (answered detach_outcome (cn_detach env canisterId))) (returnE True)))
              (failed False))
           (\<lambda>success. if success then catch_cn (thenE (listCanisters env False) (returnE True)) (failed True)
                      else returnE False))"

subsection \<open>What the log of a payment shows\<close>

definition transfers_of :: "canister_event list \<Rightarrow> (icp_transfer \<times> (canister_error + int)) list" where
  "transfers_of es = List.map_filter (\<lambda>e. case e of CnTransfer t i r \<Rightarrow> Some (t, r) | _ \<Rightarrow> None) es"

definition create_notes :: "canister_event list \<Rightarrow> (string \<times> int \<times> (canister_error + string)) list" where
  "create_notes es = List.map_filter (\<lambda>e. case e of CnNotifyCreate c b r \<Rightarrow> Some (c, b, r) | _ \<Rightarrow> None) es"

definition topup_notes :: "canister_event list \<Rightarrow> (string \<times> int \<times> (canister_error + int)) list" where
  "topup_notes es = List.map_filter (\<lambda>e. case e of CnNotifyTopUp c b r \<Rightarrow> Some (c, b, r) | _ \<Rightarrow> None) es"

lemma map_filter_snoc: "List.map_filter f (xs @ [x]) = List.map_filter f xs @ (case f x of None \<Rightarrow> [] | Some y \<Rightarrow> [y])"
  by (simp add: List.map_filter_def split: option.split)

lemma cw_log_simps [simp]:
  "cw_log (note_cn e s) = cw_log s @ [e]" "cw_log (s\<lparr>cw_world := w\<rparr>) = cw_log s" "cw_log (setCanisters c b s) = cw_log s"
  by (simp_all add: note_cn_def setCanisters_def)

lemma keeps_call_cn: "(\<And>s r w. P s \<Longrightarrow> P (note_cn (event r) (s\<lparr>cw_world := w\<rparr>))) \<Longrightarrow> keeps P (call_cn event f)"
  by (rule keepsI) (auto simp: call_cn_def split: prod.split)

text \<open>What listCanisters does to the log is not a payment.\<close>

definition payment_free :: "('w canister_state \<Rightarrow> bool) \<Rightarrow> bool" where
  "payment_free P \<longleftrightarrow>
     (\<forall>s. P s \<longrightarrow> (\<forall>w. P (s\<lparr>cw_world := w\<rparr>)) \<and> (\<forall>c b. P (setCanisters c b s)) \<and> (\<forall>l. P (note_cn (CnToast l) s)) \<and>
        (\<forall>a. P (note_cn (CnReloadBalance a) s)) \<and> (\<forall>c r. P (note_cn (CnQueryCanisters c r) s)) \<and> (\<forall>b. P (note_cn (CnHighLoad b) s)))"

lemma keeps_identity_cn: "payment_free P \<Longrightarrow> keeps P (getAccountIdentity_cn env i)" "keeps P (getAuthenticatedIdentity_cn env)"
proof -
  show auth: "keeps P (getAuthenticatedIdentity_cn env)"
    by (auto simp: getAuthenticatedIdentity_cn_def intro: keeps_intros split: option.split)
  show "payment_free P \<Longrightarrow> keeps P (getAccountIdentity_cn env i)"
    unfolding getAccountIdentity_cn_def Let_def
    by (intro keeps_if auth keepsI) (auto simp: payment_free_def split: prod.split)
qed

lemma keeps_listCanisters:
  assumes "payment_free P"
  shows "keeps P (listCanisters env clear)"
proof -
  have run: "P (snd (qau_run (\<lambda>certified. call_cn (CnQueryCanisters certified) (cn_queryCanisters env certified))
      (\<lambda>certified canisters. setCanisters (Some canisters) certified)
      (\<lambda>certified st err s. if \<not> isLastCall st certified then s
         else note_cn (CnToast ''error.list_canisters'') (setCanisters (Some []) True s)) st cs (d, s)))" if "P s" for st cs d s
    by (rule qau_run_safe [where Q = "\<lambda>_. True"]) (use assms that in \<open>auto simp: payment_free_def yields_def intro!: keeps_call_cn\<close>)
  show ?thesis
    unfolding listCanisters_def Let_def
    by (intro keeps_thenE keeps_bindE keeps_identity_cn keeps_updateE run) (use assms in \<open>auto simp: payment_free_def\<close>)
qed

lemma keeps_toast_cn: "payment_free P \<Longrightarrow> keeps P (toast_cn env k r err)"
  unfolding toast_cn_def by (intro keeps_intros) (auto simp: payment_free_def)

lemma keeps_catch_cn: "keeps P m \<Longrightarrow> (\<And>e. keeps P (h e)) \<Longrightarrow> keeps P (catch_cn m h)"
  unfolding catch_cn_def by (intro keeps_intros) auto


lemma logs_snoc [simp]:
  "transfers_of (es @ [e]) = transfers_of es @ (case e of CnTransfer t i r \<Rightarrow> [(t, r)] | _ \<Rightarrow> [])"
  "create_notes (es @ [e]) = create_notes es @ (case e of CnNotifyCreate c b r \<Rightarrow> [(c, b, r)] | _ \<Rightarrow> [])"
  by (simp_all add: transfers_of_def create_notes_def map_filter_snoc split: canister_event.split)

lemma pollE_loop_returned:
  assumes "\<And>s x t. po_fn p s = (Inr x, t) \<Longrightarrow> Q x t" "\<And>x s. Q x s \<Longrightarrow> Q x (po_hideHighLoad p s)"
  shows "pollE_loop p h left counter toast s = (Inr x, t) \<Longrightarrow> Q x t"
proof (induction left arbitrary: counter toast s)
  case (Suc left)
  define s0 where "s0 = (if counter > 0 \<and> h = Some counter then po_highLoad p s else s)"
  define s1 where "s1 = (if counter > 0 then po_wait p s0 else s0)"
  obtain q s2 where call: "race_call p s1 = (q, s2)" by force
  have q: "Q y s2" if "q = Inr y" for y
    using call that assms(1) [of s1 y] by (auto simp: race_call_def Let_def split: prod.splits if_splits)
  obtain exit s3 where exit: "po_shouldExit p (projl q) s2 = (exit, s3)" by force
  show ?case
    using Suc.prems q exit Suc.IH assms(2)
    unfolding pollE_loop.simps Let_def s0_def [symmetric] s1_def [symmetric] call
    by (cases q) (auto split: if_splits)
qed simp

lemma pollE_returned:
  assumes "\<And>s x t. po_fn p s = (Inr x, t) \<Longrightarrow> Q x t" "\<And>x s. Q x s \<Longrightarrow> Q x (po_hideHighLoad p s)"
  shows "pollE opts p s = (Inr x, t) \<Longrightarrow> Q x t"
  unfolding pollE_def by (rule pollE_loop_returned [of p Q]) (use assms in blast)+

lemma pollE_first:
  assumes "po_fn p u = (Inr i, v)" "\<not> po_cancelled p v" "maxAttempts opts \<noteq> 0"
  shows "pollE opts p u = (Inr i, v)"
  using assms by (cases "maxAttempts opts") (auto simp: pollE_def race_call_def Let_def)

subsection \<open>Creating a canister\<close>

definition notes_of :: "string \<Rightarrow> int \<Rightarrow> (string \<times> int \<times> (canister_error + string)) list \<Rightarrow> bool" where
  "notes_of c b ns \<longleftrightarrow> (\<forall>(c', b', r)\<in>set ns. c' = c \<and> b' = b)"

lemma pollNotifyCreate_log:
  assumes "pollNotifyCreateCanister env c b s = (r, t)" "create_notes (cw_log s) = []"
  shows "transfers_of (cw_log t) = transfers_of (cw_log s) \<and> notes_of c b (create_notes (cw_log t)) \<and>
    length (create_notes (cw_log t)) \<le> 10 \<and> (\<forall>x. r = Inr x \<longrightarrow> (c, b, Inr x) \<in> set (create_notes (cw_log t)))"
proof -
  let ?p = "cmc_polling env (call_cn (CnNotifyCreate c b) (cn_notifyCreate env c b))"
  obtain q where poll: "pollE poll_defaults ?p s = (q, t)" "\<And>x. r = Inr x \<Longrightarrow> q = Inr x"
    using assms(1) by (auto simp: pollNotifyCreateCanister_def catchE_def limit_error_def throw_cn_def throwE_def split: prod.splits sum.splits if_splits)
  let ?P = "\<lambda>u. transfers_of (cw_log u) = transfers_of (cw_log s) \<and> notes_of c b (create_notes (cw_log u))"
  have "keeps ?P (pollE poll_defaults ?p)"
    by (rule keeps_pollE) (auto simp: cmc_polling_def notes_of_def intro!: keeps_call_cn)
  then have "?P t" using poll(1) assms(2) by (auto dest: keepsD simp: notes_of_def)
  moreover have "length (create_notes (cw_log (snd (pollE poll_defaults ?p s)))) \<le> length (create_notes (cw_log s)) + maxAttempts poll_defaults"
    by (rule pollE_count) (auto simp: cmc_polling_def call_cn_def split: prod.split)
  moreover have "(c, b, Inr x) \<in> set (create_notes (cw_log t))" if "q = Inr x" for x
    using poll(1) unfolding that
    by (rule pollE_returned [where Q = "\<lambda>x u. (c, b, Inr x) \<in> set (create_notes (cw_log u))", rotated 2])
      (auto simp: cmc_polling_def call_cn_def split: prod.splits sum.splits)
  ultimately show ?thesis using poll assms(2) by (simp add: poll_defaults_def)
qed

text \<open>
  The payment of a creation: at most one transfer, of the amount, to the account of the principal that is notified; at
  most ten notifications, of the block of that transfer.
\<close>

definition canister_paid_once :: "'w canister_env \<Rightarrow> int \<Rightarrow> canister_event list \<Rightarrow> bool" where
  "canister_paid_once env amount es \<longleftrightarrow>
     length (transfers_of es) \<le> 1 \<and> (\<forall>(t, r)\<in>set (transfers_of es). tr_amount t = amount) \<and>
     length (create_notes es) \<le> 10 \<and>
     (\<forall>(c, b, r)\<in>set (create_notes es). \<exists>t. (t, Inr b) \<in> set (transfers_of es) \<and> tr_to t = cn_cmcAccount env c)"

definition created_canister :: "string option \<Rightarrow> string \<Rightarrow> canister_event list \<Rightarrow> bool" where
  "created_canister name canisterId es \<longleftrightarrow>
     (\<exists>c b. (c, b, Inr canisterId) \<in> set (create_notes es)) \<and> (\<exists>r. CnAttach (nullish_or name []) canisterId r \<in> set es)"

lemma payment_free_paid:
  "payment_free (\<lambda>s. canister_paid_once env a (cw_log s))"
  "payment_free (\<lambda>s. canister_paid_once env a (cw_log s) \<and> created_canister name i (cw_log s))"
  by (auto simp: payment_free_def canister_paid_once_def created_canister_def)

lemma createCanister_api_log:
  assumes "createCanister_api env i a name sub fee s = (r, t)" "transfers_of (cw_log s) = []" "create_notes (cw_log s) = []"
  shows "canister_paid_once env a (cw_log t) \<and> (\<forall>x. r = Inr x \<longrightarrow> created_canister name x (cw_log t)) \<and> (isNameTooLong name \<longrightarrow> t = s)"
proof (cases "isNameTooLong name")
  case True
  then show ?thesis using assms by (auto simp: createCanister_api_def throw_cn_def throwE_def canister_paid_once_def)
next
  case False
  define tr where "tr = \<lparr>tr_memo = CREATE_CANISTER_MEMO, tr_to = cn_cmcAccount env (cn_principal env i), tr_amount = a,
    tr_fromSubAccount = sub, tr_fee = fee\<rparr>"
  obtain q s1 where send: "sendICP env i tr s = (q, s1)" by force
  obtain q' where s1: "transfers_of (cw_log s1) = [(tr, q')]" "create_notes (cw_log s1) = []" "\<And>b. q = Inr b \<Longrightarrow> q' = Inr b"
    using send assms(2,3) by (auto simp: sendICP_def call_cn_def split: prod.splits sum.splits)
  show ?thesis
  proof (cases q)
    case (Inl e)
    then have "t = s1" "r = Inl e"
      using assms(1) False send by (auto simp: createCanister_api_def bindE_def tr_def [symmetric])
    then show ?thesis using s1 False by (simp add: canister_paid_once_def tr_def)
  next
    case (Inr b)
    obtain q2 s2 where poll: "pollNotifyCreateCanister env (cn_principal env i) b s1 = (q2, s2)" by force
    have s2: "transfers_of (cw_log s2) = [(tr, Inr b)]" "notes_of (cn_principal env i) b (create_notes (cw_log s2))"
        "length (create_notes (cw_log s2)) \<le> 10" "\<And>x. q2 = Inr x \<Longrightarrow> (cn_principal env i, b, Inr x) \<in> set (create_notes (cw_log s2))"
      using pollNotifyCreate_log [OF poll s1(2)] s1(1,3) Inr by auto
    have paid: "canister_paid_once env a (cw_log s2)"
      using s2(1,2,3) by (auto simp: canister_paid_once_def notes_of_def tr_def)
    show ?thesis
    proof (cases q2)
      case (Inl e)
      then have "t = s2" "r = Inl e"
        using assms(1) False send Inr poll by (auto simp: createCanister_api_def bindE_def tr_def [symmetric])
      then show ?thesis using paid False by simp
    next
      case Id: (Inr x)
      obtain o3 w where attach: "answered attach_outcome (cn_attach env (nullish_or name []) x) (cw_world s2) = (o3, w)" by force
      have run: "createCanister_api env i a name sub fee s = thenE (catchE (call_cn (CnAttach (nullish_or name []) x)
          (answered attach_outcome (cn_attach env (nullish_or name []) x)))
          (\<lambda>err. if alreadyAttached err then returnE () else throwE err)) (returnE x) s2"
        using False send Inr poll Id by (simp add: createCanister_api_def bindE_def tr_def [symmetric])
      have "t = note_cn (CnAttach (nullish_or name []) x o3) (s2\<lparr>cw_world := w\<rparr>)" "\<And>y. r = Inr y \<Longrightarrow> y = x"
        using assms(1) unfolding run
        by (auto simp: thenE_def bindE_def catchE_def call_cn_def attach returnE_def throwE_def split: sum.splits if_splits)
      then show ?thesis
        using paid s2(4) [OF Id] False by (auto simp: canister_paid_once_def created_canister_def)
    qed
  qed
qed


lemma checked_amount_cases:
  "checked_amount env amount account s = (x, t) \<Longrightarrow>
     t = s \<and> (\<forall>a. x = Inr a \<longrightarrow> cn_numberToE8s env amount = Some a \<and> a \<le> ac_balanceUlps account)"
  by (auto simp: checked_amount_def assertEnoughAccountFunds_def throw_cn_def throwE_def returnE_def split: option.splits if_splits)

lemma identity_log: "getAccountIdentity_cn env i s = (x, t) \<Longrightarrow> cw_log t = cw_log s"
  by (auto simp: getAccountIdentity_cn_def getAuthenticatedIdentity_cn_def throwE_def returnE_def Let_def
      split: if_splits prod.splits option.splits)

lemma catch_cn_error:
  assumes "m s = (Inl e, s')" "\<And>f. keeps P (h f)" "P s'" "catch_cn m h s = (r, t)"
  shows "P t"
  using assms by (auto simp: catch_cn_def catchE_def throwE_def split: if_splits dest: keepsD)

definition payment_ok :: "'w canister_env \<Rightarrow> number \<Rightarrow> Account \<Rightarrow> string option \<Rightarrow> canister_event list \<Rightarrow> bool" where
  "payment_ok env amount account name es \<longleftrightarrow>
     (\<exists>a. canister_paid_once env a es \<and>
        (transfers_of es \<noteq> [] \<longrightarrow> cn_numberToE8s env amount = Some a \<and> a \<le> ac_balanceUlps account \<and> \<not> isNameTooLong name))"

lemma payment_free_ok:
  "payment_free (\<lambda>s. payment_ok env amount account name (cw_log s))"
  "payment_free (\<lambda>s. payment_ok env amount account name (cw_log s) \<and> created_canister name i (cw_log s))"
  by (auto simp: payment_free_def payment_ok_def canister_paid_once_def created_canister_def)

text \<open>The try block of the service, and what it does once the canister was created.\<close>

definition create_body :: "'w canister_env \<Rightarrow> number \<Rightarrow> Account \<Rightarrow> string option \<Rightarrow> ('w, string option) cn" where
  "create_body env amount account name =
     bindE (checked_amount env amount account) (\<lambda>icpAmount.
        bindE (getAccountIdentity_cn env (ac_identifier account)) (\<lambda>i.
        bindE (createCanister_api env i icpAmount name (ac_subAccount account) (cn_fee env)) (\<lambda>canisterId.
        thenE (listCanisters env False)
          (thenE (loadBalance_cn (ac_identifier account)) (returnE (Some canisterId))))))"

lemma createCanister_body:
  "createCanister env amount account name = catch_cn (create_body env amount account name) (toast_cn env ''error.canister_creation_unknown'' None)"
  by (simp add: createCanister_def create_body_def)

lemma payment_ok_empty: "es = [] \<Longrightarrow> payment_ok env amount account name es"
  by (auto simp: payment_ok_def canister_paid_once_def transfers_of_def create_notes_def List.map_filter_def)

lemma reloads_after_creation:
  assumes "thenE (listCanisters env False) (thenE (loadBalance_cn l) (returnE (Some x))) s = (q, u)"
    and "payment_ok env amount account name (cw_log s)" "created_canister name x (cw_log s)"
  shows "payment_ok env amount account name (cw_log u) \<and> created_canister name x (cw_log u) \<and> (\<forall>y. q = Inr y \<longrightarrow> y = Some x)"
proof -
  let ?Q = "\<lambda>s. payment_ok env amount account name (cw_log s) \<and> created_canister name x (cw_log s)"
  have "keeps ?Q (thenE (listCanisters env False) (thenE (loadBalance_cn l) (returnE (Some x))))"
    unfolding loadBalance_cn_def
    by (intro keeps_thenE keeps_listCanisters keeps_updateE keeps_basic payment_free_ok)
      (use payment_free_ok(2) [of env amount account name x] in \<open>auto simp: payment_free_def\<close>)
  then have "?Q u" using assms by (auto dest: keepsD)
  moreover have "\<forall>y. q = Inr y \<longrightarrow> y = Some x"
    using assms(1) by (auto simp: thenE_def bindE_def loadBalance_cn_def updateE_def returnE_def split: prod.splits sum.splits)
  ultimately show ?thesis by blast
qed

lemma create_body_ok:
  assumes "create_body env amount account name s = (q, u)" "cw_log s = []"
  shows "payment_ok env amount account name (cw_log u) \<and> (\<forall>x. q = Inr (Some x) \<longrightarrow> created_canister name x (cw_log u))"
proof -
  obtain x1 where c: "checked_amount env amount account s = (x1, s)"
      "\<And>a. x1 = Inr a \<Longrightarrow> cn_numberToE8s env amount = Some a \<and> a \<le> ac_balanceUlps account"
    using checked_amount_cases [of env amount account s] by (metis surj_pair)
  obtain x2 s2 where i: "getAccountIdentity_cn env (ac_identifier account) s = (x2, s2)" by force
  then have log2: "cw_log s2 = []" using identity_log [OF i] assms(2) by simp
  note run = assms(1) [unfolded create_body_def bindE_def [of "checked_amount env amount account"] c(1)]
  show ?thesis
  proof (cases "\<exists>a j. x1 = Inr a \<and> x2 = Inr j")
    case False
    then have "u = s \<and> isl q \<or> u = s2 \<and> isl q"
      using run i by (cases x1; cases x2) (auto simp: bindE_def)
    then show ?thesis using payment_ok_empty assms(2) log2 by (auto simp: isl_def)
  next
    case True
    then obtain a j where ok: "x1 = Inr a" "x2 = Inr j" by blast
    obtain x3 s3 where api: "createCanister_api env j a name (ac_subAccount account) (cn_fee env) s2 = (x3, s3)" by force
    have ok3: "payment_ok env amount account name (cw_log s3)" "\<And>x. x3 = Inr x \<Longrightarrow> created_canister name x (cw_log s3)"
      using createCanister_api_log [OF api] log2 c(2) [OF ok(1)] payment_ok_empty [OF log2]
      by (auto simp: payment_ok_def transfers_of_def create_notes_def List.map_filter_def)
    show ?thesis
    proof (cases x3)
      case (Inl e)
      then show ?thesis using run i ok api ok3(1) by (auto simp: bindE_def)
    next
      case (Inr x)
      then have "thenE (listCanisters env False) (thenE (loadBalance_cn (ac_identifier account)) (returnE (Some x))) s3 = (q, u)"
        using run i ok api by (simp add: bindE_def)
      from reloads_after_creation [OF this ok3(1) ok3(2) [OF Inr]] show ?thesis by auto
    qed
  qed
qed

text \<open>C18: Creating a canister pays at most once, the amount asked for, which the account has, to the account of the principal that is
  then notified; a name that is too long stops it before the transfer; at most ten notifications are sent, all of the
  block of the transfer; and a canister is reported only if a notification gave it and its attachment was asked
  for.\<close>

theorem create_canister_pays_once:
  assumes "cw_log s = []" "createCanister env amount account name s = (r, t)"
  shows "payment_ok env amount account name (cw_log t) \<and>
    (\<forall>x. r = Inr (Some x) \<longrightarrow> created_canister name x (cw_log t))"
proof -
  let ?h = "toast_cn env ''error.canister_creation_unknown'' (None :: string option)"
  let ?P = "\<lambda>s. payment_ok env amount account name (cw_log s)"
  obtain q u where body: "create_body env amount account name s = (q, u)" by force
  note run = assms(2) [unfolded createCanister_body] and ok = create_body_ok [OF body assms(1)]
  show ?thesis
  proof (cases q)
    case (Inl e)
    have "keeps ?P (?h e')" for e' by (rule keeps_toast_cn [OF payment_free_ok(1)])
    then have "?P t" using catch_cn_error [OF _ _ _ run] body Inl ok by blast
    moreover have "fst (?h e' s') = Inr None" for e' s' by (simp add: toast_cn_def thenE_def bindE_def updateE_def returnE_def)
    then have "\<forall>x. r \<noteq> Inr (Some x)"
      using run body Inl by (auto simp: catch_cn_def catchE_def throwE_def split: if_splits) (metis fst_conv old.sum.inject(2) option.distinct(1))
    ultimately show ?thesis by simp
  next
    case (Inr y)
    then show ?thesis using run body ok by (auto simp: catch_cn_def catchE_def)
  qed
qed

text \<open>C19: A canister is paid for and created although its name is taken: the answer to the attachment is the first that tells so.  The
  service then reports the failure, and reloads neither the list of canisters nor the balance.\<close>

theorem taken_name_pays_first:
  assumes "cn_user env = Some user" "findAccount (Some (ac_identifier account)) (nnsAccountsListStore (cn_accounts env)) = Some account"
    and "ac_type account = AccountMain" "cn_numberToE8s env amount = Some e8s" "e8s \<le> ac_balanceUlps account"
    and "length name \<le> 24" "transfer = \<lparr>tr_memo = CREATE_CANISTER_MEMO, tr_to = cn_cmcAccount env (cn_principal env (AuthIdentity user)),
      tr_amount = e8s, tr_fromSubAccount = ac_subAccount account, tr_fee = cn_fee env\<rparr>"
    and "cn_transfer env transfer (AuthIdentity user) (cw_world s) = (Inr block, w1)"
    and "cn_notifyCreate env (cn_principal env (AuthIdentity user)) block w1 = (Inr canisterId, w2)"
    and "cn_attach env name canisterId w2 = (AttachNameAlreadyTaken, w3)"
    and "translate (cn_i18n env) ''error__canister.name_taken'' \<noteq> ''error__canister.name_taken''"
  shows "createCanister env amount account (Some name) s =
    (Inr None, s\<lparr>cw_world := w3, cw_log := cw_log s @
       [CnTransfer transfer (AuthIdentity user) (Inr block),
        CnNotifyCreate (cn_principal env (AuthIdentity user)) block (Inr canisterId),
        CnAttach name canisterId (Inl (CanisterError CanisterNameAlreadyTakenErr (Some ''error__canister.name_taken''))),
        CnToast ''error__canister.name_taken'']\<rparr>)"
proof -
  have poll: "pollNotifyCreateCanister env c b u =
      (Inr i, note_cn (CnNotifyCreate c b (Inr i)) (u\<lparr>cw_world := w\<rparr>))"
    if "cn_notifyCreate env c b (cw_world u) = (Inr i, w)" for c b i w and u :: "'a canister_state"
    using that pollE_first [of "cmc_polling env (call_cn (CnNotifyCreate c b) (cn_notifyCreate env c b))" u i _ poll_defaults]
    by (simp add: pollNotifyCreateCanister_def cmc_polling_def call_cn_def catchE_def poll_defaults_def)
  have identity: "getAccountIdentity_cn env (ac_identifier account) = returnE (AuthIdentity user)"
    using assms(1-3) by (simp add: getAccountIdentity_cn_def getAuthenticatedIdentity_cn_def)
  have amount: "checked_amount env amount account = returnE e8s"
    using assms(4,5) by (simp add: checked_amount_def assertEnoughAccountFunds_def)
  define s1 where "s1 = note_cn (CnTransfer transfer (AuthIdentity user) (Inr block)) (s\<lparr>cw_world := w1\<rparr>)"
  define s2 where "s2 = note_cn (CnNotifyCreate (cn_principal env (AuthIdentity user)) block (Inr canisterId)) (s1\<lparr>cw_world := w2\<rparr>)"
  have send: "sendICP env (AuthIdentity user) transfer s = (Inr block, s1)"
    using assms(8) by (simp add: sendICP_def call_cn_def s1_def)
  have notify: "pollNotifyCreateCanister env (cn_principal env (AuthIdentity user)) block s1 = (Inr canisterId, s2)"
    unfolding s2_def by (rule poll) (use assms(9) in \<open>simp add: s1_def note_cn_def\<close>)
  have w2: "cw_world s2 = w2" by (simp add: s2_def note_cn_def)
  have api: "createCanister_api env (AuthIdentity user) e8s (Some name) (ac_subAccount account) (cn_fee env) s =
      (Inl (FnError (CanisterError CanisterNameAlreadyTakenErr (Some ''error__canister.name_taken''))),
       note_cn (CnAttach name canisterId (Inl (CanisterError CanisterNameAlreadyTakenErr (Some ''error__canister.name_taken''))))
         (s2\<lparr>cw_world := w3\<rparr>))"
    using assms(6,10) send notify
    by (simp add: createCanister_api_def isNameTooLong_def MAX_CANISTER_NAME_LENGTH_def assms(7) [symmetric] bindE_def thenE_def
        catchE_def call_cn_def answered_def w2 alreadyAttached_def throwE_def)
  show ?thesis
    unfolding createCanister_def amount bindE_simps identity
    using assms(11)
    by (simp add: catch_cn_def catchE_def bindE_def [of "createCanister_api _ _ _ _ _ _"] api toast_cn_def thenE_def updateE_def returnE_def
        bindE_def mapCanisterErrorToToastMessage_def toastLabel_def s1_def s2_def note_cn_def)
qed

text \<open>A pending top-up is notified exactly when the account of the canister still holds ICP and its newest transaction is a transfer
  with the memo of a top-up; the block notified is that transaction, once, and a refusal changes nothing of the
  result.\<close>

lemma pending_topup_notified:
  assumes "index (cn_cmcAccount env canisterId) (cw_world s) = (Inr (balance, transactions), w)" "cw_log s = []"
  shows "\<exists>r t. notifyTopUpIfNeeded env index canisterId s = (Inr r, t) \<and>
    (r \<longleftrightarrow> balance \<noteq> 0 \<and> (\<exists>tx rest to fee from a. transactions = tx # rest \<and> ix_memo tx = TOP_UP_CANISTER_MEMO \<and>
       ix_operation tx = TransferOp to fee from a)) \<and>
    (if r then \<exists>o1. cw_log t = [CnNotifyTopUp canisterId (ix_id (hd transactions)) o1] else cw_log t = [])"
proof (cases "balance = 0 \<or> transactions = [] \<or> getBlockHeightFromCanisterTopUp (hd transactions) = None")
  case True
  then show ?thesis
    using assms by (cases transactions)
      (auto simp: notifyTopUpIfNeeded_def bindE_def returnE_def getBlockHeightFromCanisterTopUp_def split: if_splits Operation.splits)
next
  case False
  then obtain tx rest block where tx: "transactions = tx # rest" "getBlockHeightFromCanisterTopUp tx = Some block" "balance \<noteq> 0"
    by (cases transactions) auto
  then have "ix_id tx = block" "ix_memo tx = TOP_UP_CANISTER_MEMO" "\<exists>to fee from a. ix_operation tx = TransferOp to fee from a"
    by (auto simp: getBlockHeightFromCanisterTopUp_def split: if_splits Operation.splits)
  then show ?thesis
    using assms tx
    by (auto simp: notifyTopUpIfNeeded_def bindE_def returnE_def thenE_def catchE_def call_cn_def split: prod.split sum.split)
qed

subsection \<open>An example\<close>

definition canister_account :: Account where
  "canister_account = \<lparr>ac_identifier = ''a'', ac_principal = None, ac_balanceUlps = 1000, ac_name = None, ac_subAccount = None,
     ac_type = AccountMain, ac_icpIdentifier = None\<rparr>"

text \<open>A minting canister that creates the canister c for every block; names are taken.\<close>

definition example_canisters :: "unit canister_env" where
  "example_canisters = \<lparr>cn_user = Some ''u'',
     cn_accounts = \<lparr>acs_main = Some canister_account, acs_subAccounts = None, acs_hardwareWallets = None\<rparr>,
     cn_ledgerIdentity = (\<lambda>i w. (Inl (CanisterError OtherCanisterErr None), w)), cn_principal = (\<lambda>i. ''u''),
     cn_cmcAccount = (\<lambda>p. ''cmc'' @ p), cn_numberToE8s = (\<lambda>n. Some \<lfloor>n * 100000000\<rfloor>), cn_fee = 10,
     cn_i18n = [(''error__canister'', I18nGroup [(''name_taken'', I18nText ''Taken'')])],
     cn_strategy = None, cn_updateFirst = False, cn_transfer = (\<lambda>t i w. (Inr 7, w)),
     cn_notifyCreate = (\<lambda>c b w. (Inr ''c'', w)), cn_notifyTopUp = (\<lambda>c b w. (Inr 1, w)),
     cn_attach = (\<lambda>n c w. (AttachNameAlreadyTaken, w)), cn_rename = (\<lambda>n c w. (RenameOk, w)), cn_detach = (\<lambda>c w. (DetachOk, w)),
     cn_updateSettings = (\<lambda>c st w. (Inr (), w)), cn_queryCanisters = (\<lambda>c w. (Inr [], w)), cn_wait = id\<rparr>"

definition canister_start :: "unit canister_state" where
  "canister_start = \<lparr>cw_world = (), cw_store = \<lparr>ct_canisters = None, ct_certified = None\<rparr>, cw_log = []\<rparr>"

lemma start_log: "cw_log canister_start = []"
  by (simp add: canister_start_def)

theorem create_canister_pays_once_witness:
  "\<exists>r t. createCanister example_canisters (1 / 1000000) canister_account (Some ''n'') canister_start = (r, t) \<and>
     payment_ok example_canisters (1 / 1000000) canister_account (Some ''n'') (cw_log t)"
proof -
  obtain r t where run: "createCanister example_canisters (1 / 1000000) canister_account (Some ''n'') canister_start = (r, t)" by force
  show ?thesis using create_canister_pays_once [OF start_log run] run by blast
qed

theorem taken_name_pays_first_witness:
  "fst (createCanister example_canisters (1 / 1000000) canister_account (Some ''n'') canister_start) = Inr None \<and>
   length (transfers_of (cw_log (snd (createCanister example_canisters (1 / 1000000) canister_account (Some ''n'') canister_start)))) = 1"
proof -
  have "createCanister example_canisters (1 / 1000000) canister_account (Some ''n'') canister_start =
    (Inr None, canister_start\<lparr>cw_world := (), cw_log := cw_log canister_start @
       [CnTransfer \<lparr>tr_memo = CREATE_CANISTER_MEMO, tr_to = ''cmcu'', tr_amount = 100, tr_fromSubAccount = None, tr_fee = 10\<rparr> (AuthIdentity ''u'') (Inr 7),
        CnNotifyCreate (cn_principal example_canisters (AuthIdentity ''u'')) 7 (Inr ''c''),
        CnAttach ''n'' ''c'' (Inl (CanisterError CanisterNameAlreadyTakenErr (Some ''error__canister.name_taken''))),
        CnToast ''error__canister.name_taken'']\<rparr>)"
    by (rule taken_name_pays_first [where e8s = 100])
      (simp_all add: example_canisters_def canister_account_def canister_start_def findAccount_def nnsAccountsListStore_def
         translate_def)
  then show ?thesis by (simp add: transfers_of_def List.map_filter_def canister_start_def)
qed

theorem pending_topup_notified_witness:
  "\<exists>r t. notifyTopUpIfNeeded example_canisters (\<lambda>a w. (Inr (5, [\<lparr>ix_id = 3, ix_memo = TOP_UP_CANISTER_MEMO,
      ix_operation = TransferOp ''x'' 1 ''y'' 2, ix_timestamp = None, ix_created_at_time = None\<rparr>]), w)) ''c'' canister_start = (Inr r, t) \<and> r"
  using pending_topup_notified [of "\<lambda>a w. (Inr (5, [\<lparr>ix_id = 3, ix_memo = TOP_UP_CANISTER_MEMO,
      ix_operation = TransferOp ''x'' 1 ''y'' 2, ix_timestamp = None, ix_created_at_time = None\<rparr>]), w)" example_canisters "''c''" canister_start]
  using start_log by auto

end
