(* ===== verification/ImportedTokens.thy ===== *)
theory ImportedTokens
  imports NeuronServices
begin

text \<open>
  Imported tokens: services/imported-tokens.services.ts, utils/imported-tokens.utils.ts,
  stores/imported-tokens.store.ts, derived/imported-tokens.derived.ts, the methods of
  canisters/nns-dapp/nns-dapp.canister.ts behind them and the confirmations of the modals that call the services.  The
  dapp's canister is part of the state: it keeps the list of the account, or no account yet, and answers a call unless
  the call fails, which depends on its number only.
\<close>

subsection \<open>Data\<close>

record ImportedToken =
  imp_ledger_canister_id :: string
  imp_index_canister_id :: "string list"

record ImportedTokenData =
  it_ledgerCanisterId :: string
  it_indexCanisterId :: "string option"

text \<open>A candid opt is an array with at most one element.\<close>

definition toImportedTokenData :: "ImportedToken \<Rightarrow> ImportedTokenData" where
  "toImportedTokenData t =
     \<lparr>it_ledgerCanisterId = imp_ledger_canister_id t,
      it_indexCanisterId = (case imp_index_canister_id t of [] \<Rightarrow> None | i # _ \<Rightarrow> Some i)\<rparr>"

definition fromImportedTokenData :: "ImportedTokenData \<Rightarrow> ImportedToken" where
  "fromImportedTokenData t =
     \<lparr>imp_ledger_canister_id = it_ledgerCanisterId t,
      imp_index_canister_id = (case it_indexCanisterId t of None \<Rightarrow> [] | Some i \<Rightarrow> [i])\<rparr>"

definition isImportedToken :: "string option \<Rightarrow> ImportedTokenData list option \<Rightarrow> bool" where
  "isImportedToken ledgerCanisterId importedTokens \<longleftrightarrow>
     (case (ledgerCanisterId, importedTokens) of
        (Some l, Some ts) \<Rightarrow> \<exists>t\<in>set ts. it_ledgerCanisterId t = l
      | _ \<Rightarrow> False)"

record ImportedTokensStore =
  is_importedTokens :: "ImportedTokenData list option"
  is_certified :: "bool option"

definition MAX_IMPORTED_TOKENS :: nat where
  "MAX_IMPORTED_TOKENS = 20"

definition importedTokensStore_remove :: "string \<Rightarrow> ImportedTokensStore \<Rightarrow> ImportedTokensStore" where
  "importedTokensStore_remove ledgerCanisterId st =
     st\<lparr>is_importedTokens := map_option (filter (\<lambda>t. it_ledgerCanisterId t \<noteq> ledgerCanisterId)) (is_importedTokens st)\<rparr>"

definition importedTokensStore_empty :: ImportedTokensStore where
  "importedTokensStore_empty = \<lparr>is_importedTokens = None, is_certified = None\<rparr>"

definition failedLedgerIds_add :: "string \<Rightarrow> string list \<Rightarrow> string list" where
  "failedLedgerIds_add ledgerCanisterId failed =
     (if ledgerCanisterId \<in> set failed then failed else failed @ [ledgerCanisterId])"

definition failedLedgerIds_remove :: "string \<Rightarrow> string list \<Rightarrow> string list" where
  "failedLedgerIds_remove ledgerCanisterId failed = filter (\<lambda>i. i \<noteq> ledgerCanisterId) failed"

definition failedExistentImportedTokenLedgerIdsStore :: "ImportedTokensStore \<Rightarrow> string list \<Rightarrow> string list" where
  "failedExistentImportedTokenLedgerIdsStore st failedIds =
     filter (\<lambda>l. \<exists>t\<in>set (nullish_or (is_importedTokens st) []). it_ledgerCanisterId t = l) failedIds"

definition loadedImportedTokensStore :: "ImportedTokensStore \<Rightarrow> string list \<Rightarrow> ImportedTokenData list" where
  "loadedImportedTokensStore st failedIds =
     filter (\<lambda>t. it_ledgerCanisterId t \<notin> set (failedExistentImportedTokenLedgerIdsStore st failedIds))
       (nullish_or (is_importedTokens st) [])"

subsection \<open>The canister and the state\<close>

datatype imported_error = AccountNotFound_im | TooManyImportedTokens | OtherImportedError | ImPending

record imported_env =
  im_user :: "string option"
  im_strategy :: "QueryAndUpdateStrategy option"
  im_updateFirst :: bool
  im_limit :: nat
  im_fails :: "nat \<Rightarrow> bool"

record imported_state =
  ih_account :: "ImportedToken list option"
  ih_calls :: nat
  ih_store :: ImportedTokensStore
  ih_failed :: "string list"
  ih_busy :: bool
  ih_toasts :: "string list"

type_synonym 'a im = "(imported_state, imported_error, 'a) effect"

definition toast_im :: "string \<Rightarrow> imported_state \<Rightarrow> imported_state" where
  "toast_im labelKey s = s\<lparr>ih_toasts := ih_toasts s @ [labelKey]\<rparr>"

definition setTokens_im :: "ImportedTokenData list option \<Rightarrow> bool option \<Rightarrow> imported_state \<Rightarrow> imported_state" where
  "setTokens_im tokens certified s = s\<lparr>ih_store := \<lparr>is_importedTokens = tokens, is_certified = certified\<rparr>\<rparr>"

text \<open>The answers and the errors that NNSDappCanister makes of them; a call that fails does nothing.\<close>

definition getImportedTokens :: "imported_env \<Rightarrow> ImportedToken list im" where
  "getImportedTokens env s =
     (if im_fails env (ih_calls s) then Inl OtherImportedError
      else case ih_account s of None \<Rightarrow> Inl AccountNotFound_im | Some ts \<Rightarrow> Inr ts,
      s\<lparr>ih_calls := Suc (ih_calls s)\<rparr>)"

definition setImportedTokens :: "imported_env \<Rightarrow> ImportedToken list \<Rightarrow> unit im" where
  "setImportedTokens env ts s =
     (let s' = s\<lparr>ih_calls := Suc (ih_calls s)\<rparr>
      in if im_fails env (ih_calls s) then (Inl OtherImportedError, s')
         else if ih_account s = None then (Inl AccountNotFound_im, s')
         else if length ts > im_limit env then (Inl TooManyImportedTokens, s')
         else (Inr (), s'\<lparr>ih_account := Some ts\<rparr>))"

definition identity_im :: "imported_env \<Rightarrow> string im" where
  "identity_im env = (case im_user env of None \<Rightarrow> throwE ImPending | Some p \<Rightarrow> returnE p)"

subsection \<open>Services\<close>

definition onLoad_im :: "bool \<Rightarrow> ImportedToken list \<Rightarrow> imported_state \<Rightarrow> imported_state" where
  "onLoad_im certified tokens s = (setTokens_im (Some (map toImportedTokenData tokens)) (Some certified) s)\<lparr>ih_failed := []\<rparr>"

definition onError_im :: "bool \<Rightarrow> bool \<Rightarrow> QueryAndUpdateStrategy \<Rightarrow> imported_error \<Rightarrow> imported_state \<Rightarrow> imported_state" where
  "onError_im ignoreAccountNotFoundError certified st err s =
     (if ignoreAccountNotFoundError \<and> err = AccountNotFound_im then setTokens_im (Some []) (Some certified) s
      else if \<not> isLastCall st certified then s
      else toast_im ''error__imported_tokens.load_imported_tokens'' ((setTokens_im None None s)\<lparr>ih_failed := []\<rparr>))"

definition loadImportedTokens :: "imported_env \<Rightarrow> bool \<Rightarrow> unit im" where
  "loadImportedTokens env ignoreAccountNotFoundError =
     bindE (identity_im env) (\<lambda>_.
       let currentStrategy = nullish_or (im_strategy env) QueryAndUpdate;
           requests = qau_requests currentStrategy
       in updateE (\<lambda>s. snd (qau_run (\<lambda>certified. getImportedTokens env) onLoad_im (onError_im ignoreAccountNotFoundError)
            currentStrategy (if im_updateFirst env then rev requests else requests) (False, s))))"

text \<open>The error that a failed save returns.\<close>

definition saveImportedToken :: "imported_env \<Rightarrow> ImportedTokenData list \<Rightarrow> imported_error option im" where
  "saveImportedToken env tokens =
     catchE (bindE (identity_im env) (\<lambda>_.
               thenE (setImportedTokens env (map fromImportedTokenData tokens)) (returnE None)))
       (\<lambda>err. if err = ImPending then throwE ImPending else returnE (Some err))"

definition addImportedToken :: "imported_env \<Rightarrow> ImportedTokenData \<Rightarrow> ImportedTokenData list \<Rightarrow> bool im" where
  "addImportedToken env tokenToAdd importedTokens =
     bindE (saveImportedToken env (importedTokens @ [tokenToAdd])) (\<lambda>err. case err of
        None \<Rightarrow> thenE (loadImportedTokens env False)
                 (thenE (updateE (toast_im ''tokens.add_imported_token_success'')) (returnE True))
      | Some TooManyImportedTokens \<Rightarrow> thenE (updateE (toast_im ''error__imported_tokens.too_many'')) (returnE False)
      | Some _ \<Rightarrow> thenE (updateE (toast_im ''error__imported_tokens.add_imported_token'')) (returnE False))"

definition with_index :: "string \<Rightarrow> string \<Rightarrow> ImportedTokenData \<Rightarrow> ImportedTokenData" where
  "with_index ledgerCanisterId indexCanisterId token =
     (if it_ledgerCanisterId token = ledgerCanisterId then token\<lparr>it_indexCanisterId := Some indexCanisterId\<rparr> else token)"

definition addIndexCanister :: "imported_env \<Rightarrow> string \<Rightarrow> string \<Rightarrow> ImportedTokenData list \<Rightarrow> bool im" where
  "addIndexCanister env ledgerCanisterId indexCanisterId importedTokens =
     bindE (saveImportedToken env (map (with_index ledgerCanisterId indexCanisterId) importedTokens)) (\<lambda>err. case err of
        None \<Rightarrow> thenE (loadImportedTokens env False)
                 (thenE (updateE (toast_im ''tokens.update_imported_token_success'')) (returnE True))
      | Some _ \<Rightarrow> thenE (updateE (toast_im ''error__imported_tokens.update_imported_token'')) (returnE False))"

definition removeImportedTokens :: "imported_env \<Rightarrow> string \<Rightarrow> bool im" where
  "removeImportedTokens env ledgerCanisterId =
     thenE (updateE (\<lambda>s. s\<lparr>ih_busy := True\<rparr>))
      (bindE (getE (\<lambda>s. filter (\<lambda>t. it_ledgerCanisterId t \<noteq> ledgerCanisterId) (nullish_or (is_importedTokens (ih_store s)) []))) (\<lambda>remainingTokens.
       bindE (saveImportedToken env remainingTokens) (\<lambda>err.
         thenE (case err of
             None \<Rightarrow> updateE (\<lambda>s. toast_im ''tokens.remove_imported_token_success''
                 (s\<lparr>ih_store := importedTokensStore_remove ledgerCanisterId (ih_store s),
                    ih_failed := failedLedgerIds_remove ledgerCanisterId (ih_failed s)\<rparr>))
           | Some _ \<Rightarrow> updateE (toast_im ''error__imported_tokens.remove_imported_token''))
          (thenE (updateE (\<lambda>s. s\<lparr>ih_busy := False\<rparr>)) (returnE (err = None))))))"

subsection \<open>A session\<close>

text \<open>
  What the user interface does with the services: the confirmation of a new token and of an index canister passes the
  list of the store, and nothing when there is none; a new token is refused when the store already has it; a token is
  removed from its page.
\<close>

datatype imported_op =
    LoadTokens bool
  | ImportToken ImportedTokenData
  | AddIndex string string
  | RemoveToken string
  | AccountCreated

fun run_imported_op :: "imported_env \<Rightarrow> imported_op \<Rightarrow> bool im" where
  "run_imported_op env (LoadTokens ignore) = thenE (loadImportedTokens env ignore) (returnE False)"
| "run_imported_op env (ImportToken t) =
     bindE (getE (\<lambda>s. is_importedTokens (ih_store s))) (\<lambda>tokens. case tokens of
        None \<Rightarrow> returnE False
      | Some ts \<Rightarrow> if isImportedToken (Some (it_ledgerCanisterId t)) tokens then returnE False else addImportedToken env t ts)"
| "run_imported_op env (AddIndex l i) =
     bindE (getE (\<lambda>s. is_importedTokens (ih_store s))) (\<lambda>tokens. case tokens of
        None \<Rightarrow> returnE False
      | Some ts \<Rightarrow> addIndexCanister env l i ts)"
| "run_imported_op env (RemoveToken l) =
     bindE (getE (\<lambda>s. is_importedTokens (ih_store s))) (\<lambda>tokens.
        if isImportedToken (Some l) tokens then removeImportedTokens env l else returnE False)"
| "run_imported_op env AccountCreated =
     thenE (updateE (\<lambda>s. if ih_account s = None then s\<lparr>ih_account := Some []\<rparr> else s)) (returnE False)"

text \<open>The state after a session and the operations that reported success.\<close>

fun run_imported_session :: "imported_env \<Rightarrow> imported_op list \<Rightarrow> imported_state \<Rightarrow> imported_op list \<times> imported_state" where
  "run_imported_session env [] s = ([], s)"
| "run_imported_session env (opn # ops) s =
     (let (r, s') = run_imported_op env opn s;
          (succeeded, t) = run_imported_session env ops s'
      in (if r = Inr True then opn # succeeded else succeeded, t))"

text \<open>What the operations promise of the list of the account.\<close>

fun promised :: "imported_op \<Rightarrow> ImportedTokenData list \<Rightarrow> ImportedTokenData list" where
  "promised (ImportToken t) ts = ts @ [t]"
| "promised (AddIndex l i) ts = map (with_index l i) ts"
| "promised (RemoveToken l) ts = filter (\<lambda>t. it_ledgerCanisterId t \<noteq> l) ts"
| "promised _ ts = ts"

definition account_tokens :: "imported_state \<Rightarrow> ImportedTokenData list" where
  "account_tokens s = map toImportedTokenData (nullish_or (ih_account s) [])"

lemma imported_roundtrip [simp]: "toImportedTokenData (fromImportedTokenData t) = t"
  by (simp add: toImportedTokenData_def fromImportedTokenData_def split: option.split)

text \<open>The store has the list of the account whenever it has a list.\<close>

definition store_follows :: "imported_state \<Rightarrow> bool" where
  "store_follows s \<longleftrightarrow> (\<forall>ts. is_importedTokens (ih_store s) = Some ts \<longrightarrow> ts = account_tokens s)"

definition tokens_distinct :: "imported_state \<Rightarrow> bool" where
  "tokens_distinct s \<longleftrightarrow> distinct (map it_ledgerCanisterId (account_tokens s))"

lemma getImportedTokens_result:
  "getImportedTokens env s = (r, t) \<Longrightarrow>
     t = s\<lparr>ih_calls := Suc (ih_calls s)\<rparr> \<and> (\<forall>ts. r = Inr ts \<longrightarrow> ih_account s = Some ts) \<and> (r = Inl AccountNotFound_im \<longrightarrow> ih_account s = None)"
  by (auto simp: getImportedTokens_def split: if_splits option.splits)

text \<open>What a load keeps: the list of the account, and that the store follows it.\<close>

definition loads_ok :: "ImportedToken list option \<Rightarrow> imported_state \<Rightarrow> bool" where
  "loads_ok account s \<longleftrightarrow> ih_account s = account \<and> store_follows s"

lemmas load_defs = onLoad_im_def onError_im_def setTokens_im_def toast_im_def loads_ok_def store_follows_def account_tokens_def

text \<open>One response: it keeps what holds, and the last call establishes it unless a certified response came before.\<close>

lemma load_step:
  assumes "getImportedTokens env s = (r, t)" "ih_account s = account"
    and "queryOrUpdate (\<lambda>c st x t. (onLoad_im c x t, None)) (Some (\<lambda>c st e t. (onError_im ignore c st e t, None))) st c r (d, t) = ((d', u), x)"
  shows "ih_account u = account" "store_follows s \<or> \<not> d \<and> isLastCall st c \<Longrightarrow> store_follows u" "d' \<longrightarrow> d \<or> c"
proof -
  have t: "t = s\<lparr>ih_calls := Suc (ih_calls s)\<rparr>" "\<And>ts. r = Inr ts \<Longrightarrow> ih_account s = Some ts" "r = Inl AccountNotFound_im \<Longrightarrow> ih_account s = None"
    using getImportedTokens_result [OF assms(1)] by auto
  show "ih_account u = account" "d' \<longrightarrow> d \<or> c"
    using assms(2,3) t(1) by (cases r; auto simp: qau_catch_def load_defs split: if_splits)+
  show "store_follows u" if "store_follows s \<or> \<not> d \<and> isLastCall st c"
  proof (cases r)
    case (Inl e)
    then show ?thesis using assms(3) t that by (auto simp: qau_catch_def load_defs split: if_splits)
  next
    case (Inr ts)
    then show ?thesis using assms(3) t(1) t(2) [OF Inr] that by (auto simp: load_defs split: if_splits)
  qed
qed

lemma load_run:
  assumes "ih_account s = account" "store_follows s \<or> \<not> d \<and> (\<exists>c\<in>set cs. isLastCall st c)" "st = QueryAndUpdate \<or> length cs \<le> 1"
  shows "ih_account (snd (qau_run (\<lambda>_. getImportedTokens env) onLoad_im (onError_im ignore) st cs (d, s))) = account \<and>
    store_follows (snd (qau_run (\<lambda>_. getImportedTokens env) onLoad_im (onError_im ignore) st cs (d, s)))"
  using assms
proof (induction cs arbitrary: d s)
  case (Cons c cs)
  obtain r t where run: "getImportedTokens env s = (r, t)" by force
  obtain d' u x where out: "queryOrUpdate (\<lambda>c st x t. (onLoad_im c x t, None)) (Some (\<lambda>c st e t. (onError_im ignore c st e t, None))) st c r (d, t)
      = ((d', u), x)" by (metis surj_pair)
  note step = load_step [OF run Cons.prems(1) out]
  have "store_follows u \<or> \<not> d' \<and> (\<exists>c\<in>set cs. isLastCall st c)"
    using Cons.prems(2,3) step(2,3) by (auto simp: isLastCall_def)
  from Cons.IH [OF step(1) this] Cons.prems(3) show ?case by (auto simp: run Let_def out)
qed simp

lemma load_pending: "im_user env = None \<Longrightarrow> loadImportedTokens env ignore s = (Inl ImPending, s)"
  unfolding loadImportedTokens_def identity_im_def by (simp only: option.case bindE_simps throwE_def)

definition load_strategy :: "imported_env \<Rightarrow> QueryAndUpdateStrategy" where
  "load_strategy env = nullish_or (im_strategy env) QueryAndUpdate"

definition load_order :: "imported_env \<Rightarrow> bool list" where
  "load_order env = (if im_updateFirst env then rev (qau_requests (load_strategy env)) else qau_requests (load_strategy env))"

lemma load_order_last:
  "(load_strategy env = QueryAndUpdate \<or> length (load_order env) \<le> 1) \<and> (\<exists>c\<in>set (load_order env). isLastCall (load_strategy env) c)"
  by (cases "load_strategy env") (auto simp: load_order_def qau_requests_def isLastCall_def)

lemma load_unfold:
  "im_user env = Some p \<Longrightarrow> loadImportedTokens env ignore s =
     (Inr (), snd (qau_run (\<lambda>_. getImportedTokens env) onLoad_im (onError_im ignore) (load_strategy env) (load_order env) (False, s)))"
  unfolding loadImportedTokens_def identity_im_def load_strategy_def load_order_def
  by (simp only: option.case bindE_simps Let_def updateE_def)

lemma load_follows:
  assumes "loadImportedTokens env ignore s = (r, t)" "im_user env = Some p"
  shows "ih_account t = ih_account s" "store_follows t" "r = Inr ()"
proof -
  have "store_follows s \<or> \<not> False \<and> (\<exists>c\<in>set (load_order env). isLastCall (load_strategy env) c)"
    using load_order_last [of env] by blast
  note run = load_run [OF refl this conjunct1 [OF load_order_last], of env ignore]
  show "ih_account t = ih_account s" "store_follows t" "r = Inr ()"
    using run assms(1) unfolding load_unfold [OF assms(2)] by blast+
qed

lemma save_cases:
  assumes "saveImportedToken env tokens s = (r, t)"
  shows "ih_store t = ih_store s"
    and "r = Inr None \<Longrightarrow> account_tokens t = tokens \<and> im_user env \<noteq> None"
    and "r \<noteq> Inr None \<Longrightarrow> ih_account t = ih_account s"
  using assms
  by (auto simp: saveImportedToken_def identity_im_def setImportedTokens_def catchE_def bindE_def thenE_def returnE_def throwE_def
      account_tokens_def Let_def comp_def split: option.splits if_splits)


lemma unchanged:
  "ih_account t = ih_account s \<Longrightarrow> account_tokens t = account_tokens s"
  "ih_account t = ih_account s \<Longrightarrow> ih_store t = ih_store s \<Longrightarrow> store_follows s \<Longrightarrow> store_follows t"
  by (simp_all add: account_tokens_def store_follows_def)

lemma toast_im_simps [simp]:
  "account_tokens (toast_im l s) = account_tokens s" "store_follows (toast_im l s) = store_follows s"
  "ih_account (toast_im l s) = ih_account s" "ih_store (toast_im l s) = ih_store s"
  by (simp_all add: toast_im_def account_tokens_def store_follows_def)

text \<open>A list that is saved and then loaded, as by the services that add a token or an index canister.\<close>

lemma saved_and_loaded:
  assumes "bindE (saveImportedToken env tokens) (\<lambda>err. case err of
        None \<Rightarrow> thenE (loadImportedTokens env False) (thenE (updateE (toast_im l)) (returnE True))
      | Some e \<Rightarrow> h e) s = (r, t)" "store_follows s" "\<And>e. \<exists>l'. h e = thenE (updateE (toast_im l')) (returnE False)"
  shows "store_follows t \<and> account_tokens t = (if r = Inr True then tokens else account_tokens s)"
proof -
  obtain q s1 where save: "saveImportedToken env tokens s = (q, s1)" by force
  note c = save_cases [OF save]
  show ?thesis
  proof (cases "q = Inr None")
    case True
    then obtain p where p: "account_tokens s1 = tokens" "im_user env = Some p" using c(2) by blast
    obtain q' s2 where load: "loadImportedTokens env False s1 = (q', s2)" by force
    note f = load_follows [OF load p(2)]
    have "r = Inr True" "t = toast_im l s2"
      using assms(1) True f(3) by (auto simp: bindE_def thenE_def save load updateE_def returnE_def)
    then show ?thesis using f(1,2) p(1) unchanged(1) [OF f(1)] by simp
  next
    case False
    have failed: "h e s1 = (r, t) \<Longrightarrow> r \<noteq> Inr True \<and> ih_account t = ih_account s1 \<and> ih_store t = ih_store s1" for e
      using assms(3) [of e] by (auto simp: returnE_def)
    have "r \<noteq> Inr True \<and> ih_account t = ih_account s1 \<and> ih_store t = ih_store s1"
      using assms(1) False failed by (auto simp: bindE_def [of "saveImportedToken _ _"] save split: sum.splits option.splits)
    then show ?thesis
      using unchanged [of t s] assms(2) c(1) c(3) [OF False] by simp
  qed
qed

lemma add_result:
  "addImportedToken env tok ts s = (r, t) \<Longrightarrow> store_follows s \<Longrightarrow>
     store_follows t \<and> account_tokens t = (if r = Inr True then ts @ [tok] else account_tokens s)"
  unfolding addImportedToken_def by (rule saved_and_loaded) (auto split: imported_error.split)

lemma index_result:
  "addIndexCanister env l i ts s = (r, t) \<Longrightarrow> store_follows s \<Longrightarrow>
     store_follows t \<and> account_tokens t = (if r = Inr True then map (with_index l i) ts else account_tokens s)"
  unfolding addIndexCanister_def by (rule saved_and_loaded) auto

lemma remove_result:
  assumes "removeImportedTokens env l s = (r, t)" "store_follows s" "is_importedTokens (ih_store s) = Some ts"
  shows "store_follows t \<and> account_tokens t = (if r = Inr True then filter (\<lambda>t. it_ledgerCanisterId t \<noteq> l) ts else account_tokens s)"
proof -
  let ?left = "filter (\<lambda>t. it_ledgerCanisterId t \<noteq> l) ts" and ?s = "s\<lparr>ih_busy := True\<rparr>"
  obtain q s1 where save: "saveImportedToken env ?left ?s = (q, s1)" by force
  note c = save_cases [OF save]
  show ?thesis
  proof (cases "q = Inr None")
    case True
    then have "account_tokens s1 = ?left" using c(2) by blast
    moreover have "r = Inr True" "ih_account t = ih_account s1" "ih_store t = importedTokensStore_remove l (ih_store s1)"
      using assms(1,3) True save by (auto simp: removeImportedTokens_def bindE_def thenE_def updateE_def getE_def returnE_def)
    ultimately show ?thesis
      using c(1) assms(3) by (simp add: account_tokens_def store_follows_def importedTokensStore_remove_def)
  next
    case False
    have "r \<noteq> Inr True" "ih_account t = ih_account s1" "ih_store t = ih_store s1"
      using assms(1,3) False save by (auto simp: removeImportedTokens_def bindE_def thenE_def updateE_def getE_def returnE_def
          split: sum.splits option.splits)
    then show ?thesis
      using unchanged [of t s] assms(2) c(1) c(3) [OF False] by simp
  qed
qed

lemma with_index_id [simp]: "it_ledgerCanisterId (with_index l i t) = it_ledgerCanisterId t"
  by (simp add: with_index_def)

lemma op_step:
  assumes "store_follows s" "tokens_distinct s" "run_imported_op env opn s = (r, t)"
  shows "store_follows t \<and> tokens_distinct t \<and>
    account_tokens t = (if r = Inr True then promised opn (account_tokens s) else account_tokens s)"
proof -
  have own: "ts = account_tokens s" if "is_importedTokens (ih_store s) = Some ts" for ts
    using assms(1) that by (simp add: store_follows_def)
  have "store_follows t \<and> account_tokens t = (if r = Inr True then promised opn (account_tokens s) else account_tokens s)"
  proof (cases opn)
    case (LoadTokens ignore)
    obtain q s1 where load: "loadImportedTokens env ignore s = (q, s1)" by force
    have "store_follows s1" "ih_account s1 = ih_account s"
      using load_follows [OF load] load_pending [of env ignore s] load assms(1) by (cases "im_user env"; auto)+
    then show ?thesis
      using assms(3) LoadTokens unchanged(1) [of s1 s] by (auto simp: thenE_def bindE_def load returnE_def split: sum.splits)
  next
    case (ImportToken tok)
    then show ?thesis
      using assms(1,3) add_result [of env tok "account_tokens s" s r t]
      by (auto simp: returnE_def dest: own split: option.splits if_splits)
  next
    case (AddIndex l i)
    then show ?thesis
      using assms(1,3) index_result [of env l i "account_tokens s" s r t] by (auto simp: returnE_def dest: own split: option.splits)
  next
    case (RemoveToken l)
    then show ?thesis
      using assms(1,3) remove_result [of env l s r t "account_tokens s"]
      by (auto simp: returnE_def isImportedToken_def dest: own split: option.splits if_splits)
  next
    case AccountCreated
    then show ?thesis
      using assms(1,3) by (auto simp: returnE_def account_tokens_def store_follows_def split: if_splits)
  qed
  moreover have "opn = ImportToken tok \<Longrightarrow> r = Inr True \<Longrightarrow> it_ledgerCanisterId tok \<notin> it_ledgerCanisterId ` set (account_tokens s)" for tok
    using assms(3) by (auto simp: returnE_def isImportedToken_def dest: own split: option.splits if_splits)
  ultimately show ?thesis
    using assms(2) by (cases opn) (auto simp: tokens_distinct_def comp_def distinct_map_filter)
qed

text \<open>C16: In a session the list of the account is what the operations that reported success promise, applied in their order, whatever
  calls fail; the store shows that list whenever it shows one; and no ledger is imported twice.\<close>

theorem imported_tokens_as_promised:
  assumes "store_follows s" "tokens_distinct s" "run_imported_session env ops s = (succeeded, t)"
  shows "account_tokens t = foldl (\<lambda>ts opn. promised opn ts) (account_tokens s) succeeded \<and>
    (\<forall>ts. is_importedTokens (ih_store t) = Some ts \<longrightarrow> ts = account_tokens t) \<and>
    distinct (map it_ledgerCanisterId (account_tokens t))"
  using assms
proof (induction ops arbitrary: s succeeded)
  case Nil
  then show ?case by (auto simp: store_follows_def tokens_distinct_def)
next
  case (Cons opn ops)
  obtain r s1 where step: "run_imported_op env opn s = (r, s1)" by force
  obtain d where rest: "run_imported_session env ops s1 = (d, t)" "succeeded = (if r = Inr True then opn # d else d)"
    using Cons.prems(3) by (auto simp: step Let_def split: prod.splits)
  from op_step [OF Cons.prems(1,2) step] Cons.IH [OF _ _ rest(1)] show ?case by (auto simp: rest(2))
qed

lemma save_succeeds:
  assumes "im_user env = Some p" "ih_account s \<noteq> None" "\<not> im_fails env (ih_calls s)" "length tokens \<le> im_limit env"
  shows "saveImportedToken env tokens s =
    (Inr None, s\<lparr>ih_calls := Suc (ih_calls s), ih_account := Some (map fromImportedTokenData tokens)\<rparr>)"
  using assms
  by (simp add: saveImportedToken_def identity_im_def setImportedTokens_def catchE_def thenE_def bindE_def returnE_def Let_def)

text \<open>C17: Removing a token while the store has no list, after a load that failed, erases every imported token of the account; and a list
  that another session has changed meanwhile is overwritten with the one of the store.\<close>

theorem stale_list_overwrites:
  assumes "im_user env = Some p" "ih_account s \<noteq> None" "\<not> im_fails env (ih_calls s)"
  shows "(is_importedTokens (ih_store s) = None \<longrightarrow> account_tokens (snd (removeImportedTokens env l s)) = []) \<and>
    (\<forall>ts. is_importedTokens (ih_store s) = Some ts \<and> length ts < im_limit env \<and>
        \<not> isImportedToken (Some (it_ledgerCanisterId tok)) (Some ts) \<longrightarrow>
      account_tokens (snd (run_imported_op env (ImportToken tok) s)) = ts @ [tok])"
proof (intro conjI impI allI)
  assume none: "is_importedTokens (ih_store s) = None"
  let ?s = "s\<lparr>ih_busy := True\<rparr>"
  have "saveImportedToken env [] ?s = (Inr None, ?s\<lparr>ih_calls := Suc (ih_calls s), ih_account := Some []\<rparr>)"
    using save_succeeds [of env p ?s "[]"] assms by simp
  then show "account_tokens (snd (removeImportedTokens env l s)) = []"
    by (simp add: removeImportedTokens_def thenE_def bindE_def updateE_def getE_def returnE_def none account_tokens_def)
next
  fix ts
  assume ts: "is_importedTokens (ih_store s) = Some ts \<and> length ts < im_limit env \<and>
        \<not> isImportedToken (Some (it_ledgerCanisterId tok)) (Some ts)"
  define s1 where "s1 = s\<lparr>ih_calls := Suc (ih_calls s), ih_account := Some (map fromImportedTokenData (ts @ [tok]))\<rparr>"
  have save: "saveImportedToken env (ts @ [tok]) s = (Inr None, s1)"
    unfolding s1_def by (rule save_succeeds [OF assms]) (use ts in simp)
  obtain r s2 where load: "loadImportedTokens env False s1 = (r, s2)" by force
  note f = load_follows [OF load assms(1)]
  have "run_imported_op env (ImportToken tok) s = addImportedToken env tok ts s" using ts by simp
  also have "\<dots> = (Inr True, toast_im ''tokens.add_imported_token_success'' s2)"
    by (simp add: addImportedToken_def thenE_def bindE_def save load f(3) updateE_def returnE_def)
  finally show "account_tokens (snd (run_imported_op env (ImportToken tok) s)) = ts @ [tok]"
    using unchanged(1) [OF f(1)] by (simp add: s1_def account_tokens_def comp_def)
qed

subsection \<open>Examples\<close>

definition example_imported_env :: imported_env where
  "example_imported_env = \<lparr>im_user = Some ''u'', im_strategy = None, im_updateFirst = False, im_limit = 20, im_fails = (\<lambda>n. n = 6)\<rparr>"

definition example_imported_state :: imported_state where
  "example_imported_state = \<lparr>ih_account = Some [], ih_calls = 0, ih_store = importedTokensStore_empty, ih_failed = [],
     ih_busy = False, ih_toasts = []\<rparr>"

definition example_token :: "string \<Rightarrow> ImportedTokenData" where
  "example_token l = \<lparr>it_ledgerCanisterId = l, it_indexCanisterId = None\<rparr>"

theorem imported_tokens_as_promised_witness:
  "\<exists>succeeded t. run_imported_session example_imported_env [LoadTokens False, ImportToken (example_token ''a''), ImportToken (example_token ''a''), RemoveToken ''a'']
      example_imported_state = (succeeded, t) \<and>
    account_tokens t = foldl (\<lambda>ts opn. promised opn ts) [] succeeded"
proof -
  obtain succeeded t where run: "run_imported_session example_imported_env
      [LoadTokens False, ImportToken (example_token ''a''), ImportToken (example_token ''a''), RemoveToken ''a''] example_imported_state = (succeeded, t)"
    by force
  have "account_tokens example_imported_state = []" "store_follows example_imported_state" "tokens_distinct example_imported_state"
    by (simp_all add: example_imported_state_def account_tokens_def store_follows_def tokens_distinct_def importedTokensStore_empty_def)
  with imported_tokens_as_promised [OF _ _ run] run show ?thesis by auto
qed

theorem stale_list_overwrites_witness:
  "account_tokens (snd (removeImportedTokens example_imported_env ''x''
     (example_imported_state\<lparr>ih_account := Some [fromImportedTokenData (example_token ''a'')]\<rparr>))) = []"
  using stale_list_overwrites [of example_imported_env "''u''" "example_imported_state\<lparr>ih_account := Some [fromImportedTokenData (example_token ''a'')]\<rparr>" "''x''"]
  by (simp add: example_imported_env_def example_imported_state_def importedTokensStore_empty_def)

end
