(* ===== verification/Bitcoin.thy ===== *)
theory Bitcoin
  imports NeuronServices Tokens
begin

text \<open>
  The conversion between bitcoin and ckBTC: services/ckbtc-minter.services.ts,
  services/ckbtc-convert.services.ts, services/ckbtc-info.services.ts, utils/ckbtc.utils.ts, the wrappers of
  api/ckbtc-minter.api.ts and the stores they write.  The minter and the ledger are parameters that act on a
  world of their own; every call is logged with its outcome.  A principal and an address are texts; a UTXO that
  was credited is the text of its outpoint.
\<close>

subsection \<open>Errors of the minter\<close>

record pending_utxo =
  pu_outpoint :: string
  pu_amount :: int
  pu_confirmations :: int

datatype minter_class =
    MinterTemporaryUnavailable | MinterAlreadyProcessing | MinterNoNewUtxos "pending_utxo list"
  | MinterMalformedAddress | MinterAmountTooLow | MinterInsufficientFunds | OtherMinterClass

text \<open>me_generic: whether the error is an instance of MinterGenericError, whatever its own class.\<close>

record minter_error =
  me_class :: minter_class
  me_generic :: bool
  me_message :: string

text \<open>BtcPending: the promise stays pending because the user is being logged out.\<close>

datatype btc_error = BtcError minter_error | BtcPending

record MinterInfo =
  mi_retrieve_btc_min_amount :: int
  mi_min_confirmations :: int
  mi_kyt_fee :: int

record EstimateWithdrawalFee =
  wf_minter_fee :: int
  wf_bitcoin_fee :: int

record RetrieveBtcStatus =
  rb_id :: int
  rb_status :: string

record CkBTCInfoStoreUniverseData =
  in_info :: MinterInfo
  in_certified :: bool

subsection \<open>Calls and state\<close>

datatype btc_call =
    CallGetBtcAddress string string "minter_error + string"
  | CallUpdateBalance string string "minter_error + string list"
  | CallApprove string string int int "minter_error + unit"
  | CallRetrieve string string int "minter_error + unit"
  | CallStatuses string "minter_error + RetrieveBtcStatus list"
  | CallMinterInfo string bool "minter_error + MinterInfo"
  | CallEstimateFee string bool "minter_error + EstimateWithdrawalFee"
  | CallReload "minter_error + unit"

datatype ConvertBtcStep = StepApproveTransfer | StepSendBtc | StepReload | StepDone

datatype btc_toast = ToastSuccess_bt string | ToastError_bt string

record 'w btc_state =
  bt_world :: 'w
  bt_calls :: "btc_call list"
  bt_addresses :: "(string \<times> string) list"
  bt_pendingUtxos :: "(string \<times> pending_utxo list) list"
  bt_statuses :: "(string \<times> RetrieveBtcStatus list) list"
  bt_info :: "(string \<times> CkBTCInfoStoreUniverseData) list"
  bt_fee :: "EstimateWithdrawalFee option"
  bt_busy :: "string set"
  bt_toasts :: "btc_toast list"
  bt_progress :: "ConvertBtcStep list"

text \<open>
  bv_estimateFee has the amount of its parameters applied; bv_reload is what the caller gives to reload, and for
  a conversion the loading of accounts and transactions; bv_updateFirst: the update call settles first.
\<close>

record 'w btc_env =
  bv_user :: "string option"
  bv_strategy :: "QueryAndUpdateStrategy option"
  bv_updateFirst :: bool
  bv_getBtcAddress :: "'w \<Rightarrow> (minter_error + string) \<times> 'w"
  bv_updateBalance :: "'w \<Rightarrow> (minter_error + string list) \<times> 'w"
  bv_approve :: "string \<Rightarrow> int \<Rightarrow> int \<Rightarrow> 'w \<Rightarrow> (minter_error + unit) \<times> 'w"
  bv_retrieve :: "string \<Rightarrow> int \<Rightarrow> 'w \<Rightarrow> (minter_error + unit) \<times> 'w"
  bv_statuses :: "'w \<Rightarrow> (minter_error + RetrieveBtcStatus list) \<times> 'w"
  bv_minterInfo :: "bool \<Rightarrow> 'w \<Rightarrow> (minter_error + MinterInfo) \<times> 'w"
  bv_estimateFee :: "bool \<Rightarrow> 'w \<Rightarrow> (minter_error + EstimateWithdrawalFee) \<times> 'w"
  bv_reload :: "'w \<Rightarrow> (minter_error + unit) \<times> 'w"
  bv_wait :: "'w \<Rightarrow> 'w"
  bv_nowMillis :: "'w \<Rightarrow> int"
  bv_numberToE8s :: "number \<Rightarrow> minter_error + int"
  bv_text :: "string \<Rightarrow> string"
  bv_ckBTCUniverses :: "string list"

type_synonym ('w, 'a) bt = "('w btc_state, btc_error, 'a) effect"

definition call_bt ::
  "('w \<Rightarrow> (minter_error + 'a) \<times> 'w) \<Rightarrow> (minter_error + 'a \<Rightarrow> btc_call) \<Rightarrow> ('w, 'a) bt" where
  "call_bt f entry s =
     (case f (bt_world s) of
        (r, w) \<Rightarrow> (map_sum BtcError id r, s\<lparr>bt_world := w, bt_calls := bt_calls s @ [entry r]\<rparr>))"

definition toast_bt :: "btc_toast \<Rightarrow> 'w btc_state \<Rightarrow> 'w btc_state" where
  "toast_bt toast s = s\<lparr>bt_toasts := bt_toasts s @ [toast]\<rparr>"

definition updateProgress_bt :: "ConvertBtcStep \<Rightarrow> 'w btc_state \<Rightarrow> 'w btc_state" where
  "updateProgress_bt step s = s\<lparr>bt_progress := bt_progress s @ [step]\<rparr>"

definition identity_bt :: "'w btc_env \<Rightarrow> ('w, string) bt" where
  "identity_bt env = (case bv_user env of None \<Rightarrow> throwE BtcPending | Some p \<Rightarrow> returnE p)"

text \<open>try/catch and finally: a promise that stays pending reaches neither.\<close>

definition catch_bt :: "('w, 'a) bt \<Rightarrow> (minter_error \<Rightarrow> ('w, 'a) bt) \<Rightarrow> ('w, 'a) bt" where
  "catch_bt m h = catchE m (\<lambda>e. case e of BtcPending \<Rightarrow> throwE BtcPending | BtcError err \<Rightarrow> h err)"

definition finally_bt :: "('w, 'a) bt \<Rightarrow> ('w, unit) bt \<Rightarrow> ('w, 'a) bt" where
  "finally_bt m f s =
     (case m s of
        (Inl BtcPending, t) \<Rightarrow> (Inl BtcPending, t)
      | (r, t) \<Rightarrow> (case f t of (Inl e, u) \<Rightarrow> (Inl e, u) | (Inr _, u) \<Rightarrow> (r, u)))"

subsection \<open>Address\<close>

definition getBTCAddress :: "'w btc_env \<Rightarrow> string \<Rightarrow> ('w, string) bt" where
  "getBTCAddress env minterCanisterId =
     bindE (identity_bt env) (\<lambda>i. call_bt (bv_getBtcAddress env) (CallGetBtcAddress i minterCanisterId))"

definition loadBtcAddress :: "'w btc_env \<Rightarrow> string \<Rightarrow> string \<Rightarrow> ('w, unit) bt" where
  "loadBtcAddress env minterCanisterId identifier =
     bindE (getE (\<lambda>s. map_of (bt_addresses s) identifier)) (\<lambda>loaded.
       if loaded \<noteq> None then returnE ()
       else catch_bt
         (bindE (getBTCAddress env minterCanisterId) (\<lambda>btcAddress.
            updateE (\<lambda>s. s\<lparr>bt_addresses := object_set (bt_addresses s) identifier btcAddress\<rparr>)))
         (\<lambda>err. updateE (toast_bt (ToastError_bt ''error__ckbtc.get_btc_address''))))"

subsection \<open>Crediting bitcoin\<close>

fun mapUpdateBalanceError :: "('w btc_env) \<Rightarrow> minter_error \<Rightarrow> minter_error + string" where
  "mapUpdateBalanceError env err =
     (case me_class err of
        MinterTemporaryUnavailable \<Rightarrow>
          Inr (bv_text env ''error__ckbtc.temporary_unavailable'' @ '' ('' @ me_message err @ '')'')
      | MinterAlreadyProcessing \<Rightarrow> Inr (bv_text env ''error__ckbtc.already_process'')
      | MinterNoNewUtxos utxos \<Rightarrow> Inr (bv_text env ''error__ckbtc.no_new_confirmed_btc'')
      | _ \<Rightarrow> if me_generic err then Inr (me_message err) else Inl err)"

definition setUtxos :: "string \<Rightarrow> pending_utxo list \<Rightarrow> 'w btc_state \<Rightarrow> 'w btc_state" where
  "setUtxos universeId utxos s =
     s\<lparr>bt_pendingUtxos := object_set (bt_pendingUtxos s) universeId
          (js_sort (\<lambda>a b. pu_confirmations a - pu_confirmations b) utxos)\<rparr>"

text \<open>The rounds that are left, and what was credited so far.\<close>

fun utxo_rounds :: "'w btc_env \<Rightarrow> string \<Rightarrow> string \<Rightarrow> nat \<Rightarrow> string list \<Rightarrow> ('w, string list \<times> pending_utxo list) bt" where
  "utxo_rounds env i minterCanisterId 0 completedUtxos = returnE (completedUtxos, [])"
| "utxo_rounds env i minterCanisterId (Suc left) completedUtxos =
     bindE (catch_bt
        (bindE (call_bt (bv_updateBalance env) (CallUpdateBalance i minterCanisterId)) (\<lambda>response. returnE (Inr response)))
        (\<lambda>err. case me_class err of MinterNoNewUtxos pending \<Rightarrow> returnE (Inl pending) | _ \<Rightarrow> throwE (BtcError err)))
       (\<lambda>outcome. case outcome of
          Inl pending \<Rightarrow> returnE (completedUtxos, pending)
        | Inr response \<Rightarrow> utxo_rounds env i minterCanisterId left (completedUtxos @ response))"

definition getPendingAndCompletedUtxos :: "'w btc_env \<Rightarrow> string \<Rightarrow> ('w, string list \<times> pending_utxo list) bt" where
  "getPendingAndCompletedUtxos env minterCanisterId =
     bindE (identity_bt env) (\<lambda>i. utxo_rounds env i minterCanisterId 3 [])"

text \<open>The result: success, and otherwise the mapped error.\<close>

definition updateBalance ::
  "'w btc_env \<Rightarrow> string \<Rightarrow> string \<Rightarrow> bool \<Rightarrow> bool \<Rightarrow> bool \<Rightarrow> ('w, (minter_error + string) option) bt" where
  "updateBalance env universeId minterCanisterId hasReload deferReload uiIndicators =
     thenE (updateE (\<lambda>s. if uiIndicators then s\<lparr>bt_busy := insert ''update-ckbtc-balance'' (bt_busy s)\<rparr> else s))
       (finally_bt
          (catch_bt
             (bindE (getPendingAndCompletedUtxos env minterCanisterId) (\<lambda>(completed, pending).
                thenE (updateE (setUtxos universeId pending))
                  (thenE (updateE (\<lambda>s. if deferReload then s\<lparr>bt_world := bv_wait env (bt_world s)\<rparr> else s))
                     (thenE (updateE (\<lambda>s. if \<not> uiIndicators then s
                         else if length completed > 0 then toast_bt (ToastSuccess_bt ''ckbtc.ckbtc_balance_updated'') s
                         else toast_bt (ToastSuccess_bt ''error__ckbtc.no_new_confirmed_btc'') s))
                       (returnE None)))))
             (\<lambda>error. let err = mapUpdateBalanceError env error
                in thenE (updateE (\<lambda>s. if uiIndicators then toast_bt (ToastError_bt ''error__ckbtc.update_balance'') s else s))
                     (returnE (Some err))))
          (bindE (if hasReload then call_bt (bv_reload env) CallReload else returnE ()) (\<lambda>_.
             updateE (\<lambda>s. if uiIndicators then s\<lparr>bt_busy := bt_busy s - {''update-ckbtc-balance''}\<rparr> else s))))"

definition loadRetrieveBtcStatuses :: "'w btc_env \<Rightarrow> string \<Rightarrow> string \<Rightarrow> ('w, unit) bt" where
  "loadRetrieveBtcStatuses env universeId minterCanisterId =
     bindE (identity_bt env) (\<lambda>i.
       bindE (call_bt (bv_statuses env) (CallStatuses minterCanisterId)) (\<lambda>statuses.
         updateE (\<lambda>s. s\<lparr>bt_statuses := object_set (bt_statuses s) universeId statuses\<rparr>)))"

text \<open>The fee that is shown: the callback of the user interface.\<close>

definition estimateFee :: "'w btc_env \<Rightarrow> string \<Rightarrow> ('w, unit) bt" where
  "estimateFee env minterCanisterId =
     bindE (identity_bt env) (\<lambda>_.
       let requests = qau_requests QueryAndUpdate
       in updateE (\<lambda>s. snd (qau_run
            (\<lambda>certified. call_bt (bv_estimateFee env certified) (CallEstimateFee minterCanisterId certified))
            (\<lambda>certified fee s. s\<lparr>bt_fee := Some fee\<rparr>)
            (\<lambda>certified st error s.
               let s' = s\<lparr>bt_fee := None\<rparr>
               in if \<not> certified then s' else toast_bt (ToastError_bt ''error__ckbtc.estimated_fee'') s')
            QueryAndUpdate (if bv_updateFirst env then rev requests else requests) (False, s))))"

subsection \<open>The parameters of the minter\<close>

definition setInfo :: "string \<Rightarrow> MinterInfo \<Rightarrow> bool \<Rightarrow> 'w btc_state \<Rightarrow> 'w btc_state" where
  "setInfo canisterId info certified s =
     s\<lparr>bt_info := object_set (bt_info s) canisterId \<lparr>in_info = info, in_certified = certified\<rparr>\<rparr>"

definition resetUniverse_info :: "string \<Rightarrow> 'w btc_state \<Rightarrow> 'w btc_state" where
  "resetUniverse_info canisterId s = s\<lparr>bt_info := removeKeys (bt_info s) [canisterId]\<rparr>"

definition isUniverseCkBTC :: "'w btc_env \<Rightarrow> string \<Rightarrow> bool" where
  "isUniverseCkBTC env canisterId \<longleftrightarrow> canisterId \<in> set (bv_ckBTCUniverses env)"

definition loadCkBTCInfo :: "'w btc_env \<Rightarrow> string option \<Rightarrow> string option \<Rightarrow> ('w, unit) bt" where
  "loadCkBTCInfo env universeId minterCanisterId =
     (case universeId of
        None \<Rightarrow> returnE ()
      | Some uni \<Rightarrow>
          if \<not> isUniverseCkBTC env uni then returnE ()
          else bindE (getE (\<lambda>s. map_option in_certified (map_of (bt_info s) uni))) (\<lambda>known.
            if known = Some True then returnE ()
            else (case minterCanisterId of
              None \<Rightarrow> returnE ()
            | Some minter \<Rightarrow>
                bindE (identity_bt env) (\<lambda>_.
                  let currentStrategy = nullish_or (bv_strategy env) QueryAndUpdate;
                      requests = qau_requests currentStrategy
                  in updateE (\<lambda>s. snd (qau_run
                       (\<lambda>certified. call_bt (bv_minterInfo env certified) (CallMinterInfo minter certified))
                       (\<lambda>certified info. setInfo uni info certified)
                       (\<lambda>certified st error s.
                          if \<not> isLastCall st certified then s
                          else resetUniverse_info uni (toast_bt (ToastError_bt ''error__ckbtc.info_not_found'') s))
                       currentStrategy (if bv_updateFirst env then rev requests else requests) (False, s)))))))"

subsection \<open>Withdrawing bitcoin\<close>

datatype btc_amount_error =
    RetrieveMinAmountUnknown | RetrieveMinAmount string | BtcInsufficientFunds | WaitForCertifiedInfo | BtcAmountInvalid

text \<open>None: numberToE8s throws for an amount that is none of the token.\<close>

definition assertCkBTCUserInputAmount ::
  "'w btc_env \<Rightarrow> bool \<Rightarrow> Account option \<Rightarrow> number option \<Rightarrow> int \<Rightarrow> CkBTCInfoStoreUniverseData option
     \<Rightarrow> btc_amount_error + unit" where
  "assertCkBTCUserInputAmount env networkBtc sourceAccount amount transactionFee infoData =
     (if \<not> networkBtc then Inr ()
      else case sourceAccount of None \<Rightarrow> Inr ()
      | Some account \<Rightarrow> (case amount of None \<Rightarrow> Inr ()
      | Some n \<Rightarrow> (case bv_numberToE8s env n of Inl _ \<Rightarrow> Inl BtcAmountInvalid
      | Inr amountE8s \<Rightarrow>
          if amountE8s = 0 then Inr ()
          else (case infoData of None \<Rightarrow> Inl RetrieveMinAmountUnknown
          | Some info \<Rightarrow>
              let retrieveBtcMinAmount = mi_retrieve_btc_min_amount (in_info info)
              in if amountE8s < retrieveBtcMinAmount
                 then Inl (RetrieveMinAmount (formatTokenE8s retrieveBtcMinAmount Detailed None True))
                 else (case assertEnoughAccountFunds account (amountE8s + transactionFee) of
                         Inl _ \<Rightarrow> Inl BtcInsufficientFunds
                       | Inr _ \<Rightarrow>
                           if \<not> in_certified info \<and> bv_strategy env \<noteq> Some QueryOnly
                           then Inl WaitForCertifiedInfo else Inr ())))))"

definition nowInBigIntNanoSeconds :: "'w btc_env \<Rightarrow> 'w btc_state \<Rightarrow> int" where
  "nowInBigIntNanoSeconds env s = bv_nowMillis env (bt_world s) * 1000000"

text \<open>BigInt(5 * NANO_SECONDS_IN_MINUTE)\<close>

definition APPROVAL_NANOS :: int where
  "APPROVAL_NANOS = 5 * (1000000 * 1000 * 60)"

fun toastRetrieveBtcError :: "minter_error \<Rightarrow> string" where
  "toastRetrieveBtcError err =
     (case me_class err of
        MinterTemporaryUnavailable \<Rightarrow> ''error__ckbtc.temporary_unavailable''
      | MinterAlreadyProcessing \<Rightarrow> ''error__ckbtc.already_process''
      | MinterMalformedAddress \<Rightarrow> ''error__ckbtc.malformed_address''
      | MinterAmountTooLow \<Rightarrow> ''error__ckbtc.amount_too_low''
      | MinterInsufficientFunds \<Rightarrow> ''error__ckbtc.insufficient_funds''
      | _ \<Rightarrow> if me_generic err then ''error__ckbtc.retrieve_btc'' else ''error__ckbtc.retrieve_btc_unknown'')"

definition e8s_bt :: "'w btc_env \<Rightarrow> number \<Rightarrow> ('w, int) bt" where
  "e8s_bt env amount = liftE (map_sum BtcError id (bv_numberToE8s env amount))"

definition reload_bt :: "'w btc_env \<Rightarrow> ('w, unit) bt" where
  "reload_bt env = thenE (updateE (updateProgress_bt StepReload)) (call_bt (bv_reload env) CallReload)"

definition convertCkBTCToBtcIcrc2 :: "'w btc_env \<Rightarrow> string \<Rightarrow> number \<Rightarrow> string \<Rightarrow> string \<Rightarrow> ('w, bool) bt" where
  "convertCkBTCToBtcIcrc2 env destinationAddress amount universeId minterCanisterId =
     bindE
       (finally_bt
          (catch_bt
             (bindE (identity_bt env) (\<lambda>i.
                thenE (updateE (updateProgress_bt StepApproveTransfer))
                  (bindE (e8s_bt env amount) (\<lambda>approved.
                   bindE (getE (\<lambda>s. nowInBigIntNanoSeconds env s + APPROVAL_NANOS)) (\<lambda>expiresAt.
                   bindE (call_bt (bv_approve env minterCanisterId approved expiresAt)
                            (CallApprove universeId minterCanisterId approved expiresAt)) (\<lambda>_.
                   thenE (updateE (updateProgress_bt StepSendBtc))
                     (bindE (e8s_bt env amount) (\<lambda>sent.
                      bindE (call_bt (bv_retrieve env destinationAddress sent)
                               (CallRetrieve minterCanisterId destinationAddress sent)) (\<lambda>_.
                      returnE True)))))))))
             (\<lambda>err. thenE (updateE (toast_bt (ToastError_bt (toastRetrieveBtcError err)))) (returnE False)))
          (reload_bt env))
       (\<lambda>success. if success then thenE (updateE (updateProgress_bt StepDone)) (returnE True) else returnE False)"

subsection \<open>What the calls leave behind\<close>

lemmas bt_defs = call_bt_def catch_bt_def finally_bt_def identity_bt_def e8s_bt_def reload_bt_def effect_defs

text \<open>How the rounds end: with the UTXOs that are still pending, or with an error.\<close>

fun rounds_end :: "(minter_error + string list) list \<Rightarrow> minter_error + pending_utxo list" where
  "rounds_end [] = Inr []"
| "rounds_end (Inr _ # os) = rounds_end os"
| "rounds_end (Inl e # os) = (case me_class e of MinterNoNewUtxos pending \<Rightarrow> Inr pending | _ \<Rightarrow> Inl e)"

definition credited :: "(minter_error + string list) list \<Rightarrow> string list" where
  "credited os = concat (map (\<lambda>r. case r of Inl _ \<Rightarrow> [] | Inr utxos \<Rightarrow> utxos) os)"

lemma rounds_end_error: "rounds_end os = Inl e \<Longrightarrow> me_class e \<noteq> MinterNoNewUtxos pending"
  by (induction os rule: rounds_end.induct) (auto split: minter_class.splits)

lemma utxo_rounds_run:
  "\<exists>os w. length os \<le> n \<and> (\<forall>a\<in>set (butlast os). \<not> isl a) \<and>
     utxo_rounds env i m n c s =
       (case rounds_end os of Inl e \<Rightarrow> Inl (BtcError e) | Inr pending \<Rightarrow> Inr (c @ credited os, pending),
        s\<lparr>bt_world := w, bt_calls := bt_calls s @ map (CallUpdateBalance i m) os\<rparr>)"
proof (induction n arbitrary: c s)
  case 0
  show ?case by (rule exI [of _ "[]"], rule exI [of _ "bt_world s"]) (simp add: effect_defs credited_def)
next
  case (Suc n)
  obtain r w where call: "bv_updateBalance env (bt_world s) = (r, w)" by force
  show ?case
  proof (cases r)
    case (Inl e)
    then show ?thesis
      by (intro exI [of _ "[r]"] exI [of _ w])
        (auto simp: bt_defs call credited_def split: minter_class.split)
  next
    case (Inr response)
    let ?s = "s\<lparr>bt_world := w, bt_calls := bt_calls s @ [CallUpdateBalance i m r]\<rparr>"
    obtain os w' where os: "length os \<le> n" "\<forall>a\<in>set (butlast os). \<not> isl a"
      and run: "utxo_rounds env i m n (c @ response) ?s =
       (case rounds_end os of Inl e \<Rightarrow> Inl (BtcError e) | Inr pending \<Rightarrow> Inr ((c @ response) @ credited os, pending),
        ?s\<lparr>bt_world := w', bt_calls := bt_calls ?s @ map (CallUpdateBalance i m) os\<rparr>)"
      using Suc.IH [of "c @ response" ?s] by blast
    show ?thesis
      by (intro exI [of _ "r # os"] exI [of _ w'])
        (use os run in \<open>auto simp: bt_defs call Inr credited_def split: sum.split\<close>)
  qed
qed

text \<open>How the reload of a finally block ends.\<close>

definition reload_outcome :: "'w btc_env \<Rightarrow> bool \<Rightarrow> 'w \<Rightarrow> minter_error + unit" where
  "reload_outcome env hasReload w = (if hasReload then fst (bv_reload env w) else Inr ())"

definition pending_of :: "'w btc_state \<Rightarrow> string \<Rightarrow> pending_utxo list option" where
  "pending_of s universeId = map_of (bt_pendingUtxos s) universeId"

definition byConfirmations :: "pending_utxo comparator_fun" where
  "byConfirmations a b = pu_confirmations a - pu_confirmations b"

lemma setUtxos_eq: "setUtxos uni utxos s = s\<lparr>bt_pendingUtxos := object_set (bt_pendingUtxos s) uni (js_sort byConfirmations utxos)\<rparr>"
  by (simp add: setUtxos_def byConfirmations_def [abs_def])

lemma getPendingAndCompletedUtxos_run:
  assumes "bv_user env = Some i"
  shows "\<exists>os w. length os \<le> 3 \<and> (\<forall>a\<in>set (butlast os). \<not> isl a) \<and>
     getPendingAndCompletedUtxos env minter s =
       (case rounds_end os of Inl e \<Rightarrow> Inl (BtcError e) | Inr pending \<Rightarrow> Inr (credited os, pending),
        s\<lparr>bt_world := w, bt_calls := bt_calls s @ map (CallUpdateBalance i minter) os\<rparr>)"
  using utxo_rounds_run [of 3 env i minter "[]" s] unfolding append_Nil
  by (simp add: getPendingAndCompletedUtxos_def assms identity_bt_def)

text \<open>C20: updateBalance of services/ckbtc-minter.services.ts, for every behaviour of the minter and every
  outcome of the reload: it asks the minter at most three times and stops at the first error; the error that
  ends the rounds is the one reported, unless it is the one that carries the pending UTXOs, which replace those of the
  universe (none when all three calls credited something) and which is therefore never mapped to a message; the
  reload happens exactly once in either case; and when the reload is rejected the error of the reload is what
  the service throws and the busy screen stays.\<close>

theorem update_balance_settles:
  assumes "bv_user env = Some i" "updateBalance env uni minter hasReload deferReload uiIndicators s = (r, t)"
  shows "\<exists>os reloaded. length os \<le> 3 \<and> (\<forall>a\<in>set (butlast os). \<not> isl a) \<and>
     bt_calls t = bt_calls s @ map (CallUpdateBalance i minter) os @ (if hasReload then [CallReload reloaded] else []) \<and>
     (case rounds_end os of
        Inl e \<Rightarrow> bt_pendingUtxos t = bt_pendingUtxos s \<and> (\<forall>utxos. me_class e \<noteq> MinterNoNewUtxos utxos)
      | Inr pending \<Rightarrow> pending_of t uni = Some (js_sort byConfirmations pending)) \<and>
     (case reloaded of
        Inl e \<Rightarrow> hasReload \<and> r = Inl (BtcError e) \<and> (uiIndicators \<longrightarrow> ''update-ckbtc-balance'' \<in> bt_busy t)
      | Inr _ \<Rightarrow> (uiIndicators \<longrightarrow> ''update-ckbtc-balance'' \<notin> bt_busy t) \<and>
          r = Inr (case rounds_end os of Inl e \<Rightarrow> Some (mapUpdateBalanceError env e) | Inr _ \<Rightarrow> None))"
proof -
  define s0 where "s0 = (if uiIndicators then s\<lparr>bt_busy := insert ''update-ckbtc-balance'' (bt_busy s)\<rparr> else s)"
  obtain os w where os: "length os \<le> 3" "\<forall>a\<in>set (butlast os). \<not> isl a"
    and run: "getPendingAndCompletedUtxos env minter s0 =
       (case rounds_end os of Inl e \<Rightarrow> Inl (BtcError e) | Inr pending \<Rightarrow> Inr (credited os, pending),
        s0\<lparr>bt_world := w, bt_calls := bt_calls s0 @ map (CallUpdateBalance i minter) os\<rparr>)"
    using getPendingAndCompletedUtxos_run [OF assms(1), of minter s0] by blast
  define w' where "w' = (case rounds_end os of Inl _ \<Rightarrow> w | Inr _ \<Rightarrow> if deferReload then bv_wait env w else w)"
  obtain rl w'' where rl: "bv_reload env w' = (rl, w'')" by force
  define reloaded where "reloaded = (if hasReload then rl else Inr ())"
  show ?thesis
    using assms(2) os run rl
    by (intro exI [of _ os] exI [of _ reloaded])
      (cases "rounds_end os"; cases hasReload; cases uiIndicators; cases rl; cases deferReload; cases "credited os = []";
        auto simp: updateBalance_def bt_defs s0_def [symmetric] reloaded_def
          w'_def setUtxos_eq toast_bt_def s0_def pending_of_def map_of_object_set Let_def dest: rounds_end_error)
qed

text \<open>A minter that credits once and then has one UTXO pending.\<close>

definition example_btc :: "nat btc_env" where
  "example_btc =
     \<lparr>bv_user = Some ''me'', bv_strategy = None, bv_updateFirst = False,
      bv_getBtcAddress = (\<lambda>w. (Inr ''bc1'', w)),
      bv_updateBalance = (\<lambda>w. if w = 0 then (Inr [''u''], 1)
         else (Inl \<lparr>me_class = MinterNoNewUtxos [\<lparr>pu_outpoint = ''p'', pu_amount = 5, pu_confirmations = 2\<rparr>],
                     me_generic = True, me_message = []\<rparr>, w)),
      bv_approve = (\<lambda>_ _ _ w. (Inr (), w)), bv_retrieve = (\<lambda>_ _ w. (Inr (), w)), bv_statuses = (\<lambda>w. (Inr [], w)),
      bv_minterInfo = (\<lambda>_ w. (Inr \<lparr>mi_retrieve_btc_min_amount = 1000, mi_min_confirmations = 6, mi_kyt_fee = 0\<rparr>, w)),
      bv_estimateFee = (\<lambda>_ w. (Inr \<lparr>wf_minter_fee = 1, wf_bitcoin_fee = 2\<rparr>, w)), bv_reload = (\<lambda>w. (Inr (), w)),
      bv_wait = id, bv_nowMillis = (\<lambda>_. 1000), bv_numberToE8s = (\<lambda>n. Inr \<lfloor>n * 100000000\<rfloor>), bv_text = id,
      bv_ckBTCUniverses = [''ckbtc'']\<rparr>"

definition start_btc :: "nat btc_state" where
  "start_btc = \<lparr>bt_world = 0, bt_calls = [], bt_addresses = [], bt_pendingUtxos = [], bt_statuses = [], bt_info = [],
     bt_fee = None, bt_busy = {}, bt_toasts = [], bt_progress = []\<rparr>"

text \<open>The example reports success after two calls, and the pending UTXO is stored.\<close>

theorem update_balance_settles_witness:
  "\<exists>os r. fst (updateBalance example_btc ''ckbtc'' ''minter'' True True True start_btc) = r \<and> length os \<le> 3 \<and>
     bt_calls (snd (updateBalance example_btc ''ckbtc'' ''minter'' True True True start_btc)) =
       map (CallUpdateBalance ''me'' ''minter'') os @ [CallReload (Inr ())] \<and> r = Inr None"
proof -
  let ?run = "updateBalance example_btc ''ckbtc'' ''minter'' True True True start_btc"
  have u: "bv_user example_btc = Some ''me''" by (simp add: example_btc_def)
  have r: "fst ?run = Inr None"
    by (simp add: updateBalance_def getPendingAndCompletedUtxos_def bt_defs example_btc_def start_btc_def eval_nat_numeral setUtxos_eq toast_bt_def)
  have c: "\<exists>cs. bt_calls (snd ?run) = cs @ [CallReload (Inr ())]"
    by (simp add: updateBalance_def getPendingAndCompletedUtxos_def bt_defs example_btc_def start_btc_def eval_nat_numeral setUtxos_eq toast_bt_def)
  show ?thesis
    using update_balance_settles [OF u, of "''ckbtc''" "''minter''" True True True start_btc "fst ?run" "snd ?run"] r c
    by (auto simp: start_btc_def)
qed

text \<open>Whether a sequence of calls took the amount from the user: the minter accepted the request.\<close>

definition withdrawn :: "btc_call list \<Rightarrow> bool" where
  "withdrawn cs = list_ex (\<lambda>c. case c of CallRetrieve minter address amount (Inr _) \<Rightarrow> True | _ \<Rightarrow> False) cs"

text \<open>C21: convertCkBTCToBtcIcrc2 of services/ckbtc-convert.services.ts, for every behaviour of the ledger and of
  the minter: the only calls are one approval, to the minter, of the amount entered, valid for five minutes, and,
  only after the ledger accepted it, one request of the same amount to the address entered; the accounts are reloaded once in any case;
  the service reports whether the minter accepted the request, with one error shown when it did not; but a
  rejected reload is thrown instead, also after the bitcoin was sent.\<close>

theorem conversion_approves_then_sends:
  assumes "bv_user env = Some i" "convertCkBTCToBtcIcrc2 env address amount uni minter s = (r, t)"
  shows "\<exists>cs reloaded.
     bt_calls t = bt_calls s @ cs @ [CallReload reloaded] \<and>
     (case bv_numberToE8s env amount of
        Inl _ \<Rightarrow> cs = []
      | Inr e8s \<Rightarrow>
          (let expires = bv_nowMillis env (bt_world s) * 10 ^ 6 + 5 * 60 * 10 ^ 9
           in (\<exists>e. cs = [CallApprove uni minter e8s expires (Inl e)]) \<or>
              (\<exists>answer. cs = [CallApprove uni minter e8s expires (Inr ()), CallRetrieve minter address e8s answer]))) \<and>
     r = (case reloaded of Inl e \<Rightarrow> Inl (BtcError e) | Inr _ \<Rightarrow> Inr (withdrawn cs)) \<and>
     length (bt_toasts t) = length (bt_toasts s) + (if withdrawn cs then 0 else 1)"
proof (cases "bv_numberToE8s env amount")
  case (Inl e)
  obtain rl w where "bv_reload env (bt_world s) = (rl, w)" by force
  then show ?thesis
    using assms Inl
    by (intro exI [of _ "[]"] exI [of _ rl]) (cases rl;
      auto simp: convertCkBTCToBtcIcrc2_def bt_defs toast_bt_def updateProgress_bt_def withdrawn_def)
next
  case (Inr e8s)
  define expires where "expires = nowInBigIntNanoSeconds env s + APPROVAL_NANOS"
  have expires: "expires = bv_nowMillis env (bt_world s) * 10 ^ 6 + 5 * 60 * 10 ^ 9"
    by (simp add: expires_def nowInBigIntNanoSeconds_def APPROVAL_NANOS_def)
  have now: "nowInBigIntNanoSeconds env (updateProgress_bt StepApproveTransfer s) + APPROVAL_NANOS = expires"
    by (simp add: expires_def nowInBigIntNanoSeconds_def updateProgress_bt_def)
  obtain a w where a: "bv_approve env minter e8s expires (bt_world s) = (a, w)" by force
  obtain b w' where b: "bv_retrieve env address e8s w = (b, w')" by force
  obtain rl w'' where rl: "bv_reload env (if isl a then w else w') = (rl, w'')" by force
  show ?thesis
    using assms Inr a b rl now
    by (intro exI [of _ "CallApprove uni minter e8s expires a # (if isl a then [] else [CallRetrieve minter address e8s b])"]
          exI [of _ rl])
      (cases a; cases b; cases rl;
        auto simp: convertCkBTCToBtcIcrc2_def bt_defs toast_bt_def updateProgress_bt_def withdrawn_def expires Let_def)
qed

theorem conversion_approves_then_sends_witness:
  "\<exists>cs reloaded. fst (convertCkBTCToBtcIcrc2 example_btc ''bc1q'' 2 ''ckbtc'' ''minter'' start_btc) = Inr True \<and>
     bt_calls (snd (convertCkBTCToBtcIcrc2 example_btc ''bc1q'' 2 ''ckbtc'' ''minter'' start_btc)) = cs @ [CallReload reloaded] \<and>
     withdrawn cs"
proof -
  let ?run = "convertCkBTCToBtcIcrc2 example_btc ''bc1q'' 2 ''ckbtc'' ''minter'' start_btc"
  have u: "bv_user example_btc = Some ''me''" by (simp add: example_btc_def)
  have r: "fst ?run = Inr True"
    by (simp add: convertCkBTCToBtcIcrc2_def bt_defs example_btc_def start_btc_def updateProgress_bt_def)
  have "bt_calls start_btc = []" by (simp add: start_btc_def)
  then obtain cs reloaded where "bt_calls (snd ?run) = cs @ [CallReload reloaded]"
    and "fst ?run = (case reloaded of Inl e \<Rightarrow> Inl (BtcError e) | Inr _ \<Rightarrow> Inr (withdrawn cs))"
    using conversion_approves_then_sends [OF u, of "''bc1q''" 2 "''ckbtc''" "''minter''" start_btc "fst ?run" "snd ?run"] by auto
  with r show ?thesis by (intro exI [of _ cs] exI [of _ reloaded]) (cases reloaded; simp)
qed

subsection \<open>Addresses, fees and parameters\<close>

text \<open>A known address is not asked for again, and an address that was asked for is known.\<close>

lemma address_loaded_once:
  "map_of (bt_addresses s) identifier \<noteq> None \<Longrightarrow> loadBtcAddress env minter identifier s = (Inr (), s)"
  "loadBtcAddress env minter identifier s = (Inr (), t) \<Longrightarrow>
     map_of (bt_addresses t) identifier \<noteq> None \<or> length (bt_toasts t) = Suc (length (bt_toasts s))"
  by (auto simp: loadBtcAddress_def getBTCAddress_def bt_defs toast_bt_def map_of_object_set
      split: prod.splits sum.splits option.splits if_splits btc_error.splits)

text \<open>What an amount that the form accepts satisfies; zero is accepted, for a user who is still typing.\<close>

lemma accepted_btc_amount:
  "bv_numberToE8s env n = Inr e8s \<Longrightarrow>
   assertCkBTCUserInputAmount env True (Some account) (Some n) fee infoData = Inr () \<longleftrightarrow>
     e8s = 0 \<or> (\<exists>info. infoData = Some info \<and> mi_retrieve_btc_min_amount (in_info info) \<le> e8s \<and>
       e8s + fee \<le> ac_balanceUlps account \<and> (in_certified info \<or> bv_strategy env = Some QueryOnly))"
  by (auto simp: assertCkBTCUserInputAmount_def assertEnoughAccountFunds_def Let_def split: option.split)

lemma js_indexOf_absent: "js_indexOf ks k = -1 \<longleftrightarrow> k \<notin> set ks"
proof -
  have "length (takeWhile (\<lambda>y. y \<noteq> k) ks) < length ks \<longleftrightarrow> k \<in> set ks"
    by (induction ks) auto
  then show ?thesis by (simp add: js_indexOf_def Let_def)
qed

lemma map_of_removeKeys: "map_of (removeKeys obj ks) k = (if k \<in> set ks then None else map_of (rev obj) k)"
proof -
  have step: "map_of (foldl (\<lambda>acc (k, v). object_set acc k v) acc es) = map_of acc ++ map_of (rev es)" for acc and es :: "(string \<times> 'a) list"
    by (induction es arbitrary: acc) (auto simp: map_of_object_set fun_eq_iff map_add_def split: option.split)
  have "map_of (rev (filter (\<lambda>(key, _). js_indexOf ks key = -1) obj)) k = (if k \<in> set ks then None else map_of (rev obj) k)"
    by (induction obj rule: rev_induct) (auto simp: js_indexOf_absent split: option.splits)
  then show ?thesis by (simp add: removeKeys_def fromEntries_def step)
qed

text \<open>The state after one answer: its callback, or, after the certified one, only the call.\<close>

definition called_bt :: "('w \<Rightarrow> (minter_error + 'a) \<times> 'w) \<Rightarrow> (minter_error + 'a \<Rightarrow> btc_call) \<Rightarrow> 'w btc_state \<Rightarrow> 'w btc_state" where
  "called_bt f entry s = snd (call_bt f entry s)"

lemma called_bt_simps [simp]:
  "bt_info (called_bt f g s) = bt_info s" "bt_toasts (called_bt f g s) = bt_toasts s" "bt_fee (called_bt f g s) = bt_fee s"
  "bt_calls (called_bt f g s) = bt_calls s @ [g (fst (f (bt_world s)))]"
  by (simp_all add: called_bt_def call_bt_def split: prod.split)

lemma qau_run_call:
  "qau_run (\<lambda>c. call_bt (f c) (g c)) onLoad onError st (c # cs) (False, s) =
     qau_run (\<lambda>c. call_bt (f c) (g c)) onLoad onError st cs (c,
       case fst (f c (bt_world s)) of
         Inr x \<Rightarrow> onLoad c x (called_bt (f c) (g c) s)
       | Inl e \<Rightarrow> onError c st (BtcError e) (called_bt (f c) (g c) s))"
  "qau_run (\<lambda>c. call_bt (f c) (g c)) onLoad onError st (c # cs) (True, s) =
     qau_run (\<lambda>c. call_bt (f c) (g c)) onLoad onError st cs (True, called_bt (f c) (g c) s)"
  by (cases "f c (bt_world s)"; cases "fst (f c (bt_world s))"; simp add: called_bt_def call_bt_def qau_catch_def Let_def)+

text \<open>loadCkBTCInfo of services/ckbtc-info.services.ts, for either order of the two answers and every
  behaviour of the minter: unless calls are forced to be queries, the parameters of the universe in the store
  are certified afterwards, or absent with an error shown; parameters that were certified are kept and
  not asked for again; the entries of other universes keep their values when the minter answers, and the
  minter is asked once by a query and once by an update call at most.\<close>

lemma btc_info_certified_or_hidden:
  assumes "bv_user env = Some i" "isUniverseCkBTC env uni" "bv_strategy env \<noteq> Some QueryOnly"
    and "loadCkBTCInfo env (Some uni) (Some minter) s = (r, t)"
  shows "(case map_of (bt_info t) uni of
       None \<Rightarrow> length (bt_toasts t) = Suc (length (bt_toasts s))
     | Some info \<Rightarrow> in_certified info \<and> bt_toasts t = bt_toasts s) \<and>
     (map_option in_certified (map_of (bt_info s) uni) = Some True \<longrightarrow> t = s) \<and>
     (\<exists>cs. bt_calls t = bt_calls s @ cs \<and> length cs \<le> 2)"
proof (cases "map_option in_certified (map_of (bt_info s) uni) = Some True")
  case True
  then show ?thesis using assms(2,4) by (auto simp: loadCkBTCInfo_def effect_defs)
next
  case False
  let ?f = "bv_minterInfo env" and ?g = "CallMinterInfo minter"
  let ?onLoad = "\<lambda>certified info. setInfo uni info certified"
  let ?onError = "\<lambda>certified st (error :: btc_error) s. if \<not> isLastCall st certified then s
     else resetUniverse_info uni (toast_bt (ToastError_bt ''error__ckbtc.info_not_found'') s)"
  define st where "st = nullish_or (bv_strategy env) QueryAndUpdate"
  define cs where "cs = (if bv_updateFirst env then rev (qau_requests st) else qau_requests st)"
  have "st \<noteq> QueryOnly" using assms(3) by (cases "bv_strategy env") (simp_all add: st_def)
  then have cs: "cs = [True] \<or> cs = [False, True] \<and> st = QueryAndUpdate \<or> cs = [True, False]"
    by (cases st) (simp_all add: cs_def qau_requests_def)
  have t: "t = snd (qau_run (\<lambda>c. call_bt (?f c) (?g c)) ?onLoad ?onError st cs (False, s))"
    using assms(1,2,4) False unfolding cs_def st_def
    by (simp add: loadCkBTCInfo_def identity_bt_def Let_def effect_defs del: map_option_eq_Some split del: if_split)
  note effects = setInfo_def resetUniverse_info_def toast_bt_def map_of_object_set map_of_removeKeys isLastCall_def
  show ?thesis
    using cs False unfolding t
    by (elim disjE conjE) (simp_all add: qau_run_call effects del: qau_run.simps(2) map_option_eq_Some split: sum.split)
qed

lemma btc_info_certified_or_hidden_witness:
  "in_certified (the (map_of (bt_info (snd (loadCkBTCInfo example_btc (Some ''ckbtc'') (Some ''minter'') start_btc))) ''ckbtc''))"
proof -
  let ?run = "loadCkBTCInfo example_btc (Some ''ckbtc'') (Some ''minter'') start_btc"
  have c: "bv_user example_btc = Some ''me''" "isUniverseCkBTC example_btc ''ckbtc''" "bv_strategy example_btc \<noteq> Some QueryOnly"
    by (simp_all add: example_btc_def isUniverseCkBTC_def)
  have "bt_toasts (snd ?run) = []"
    by (simp add: loadCkBTCInfo_def bt_defs qau_requests_def example_btc_def start_btc_def isUniverseCkBTC_def setInfo_def)
  then show ?thesis
    using btc_info_certified_or_hidden [OF c, of "''minter''" start_btc "fst ?run" "snd ?run"]
    by (auto split: option.splits)
qed

text \<open>The fee shown is the one that the update call answered, and none when it failed.\<close>

lemma estimated_fee_is_certified:
  assumes "bv_user env = Some i" "estimateFee env minter s = (r, t)"
  shows "\<exists>answer cs. bt_calls t = bt_calls s @ cs \<and> CallEstimateFee minter True answer \<in> set cs \<and>
     bt_fee t = (case answer of Inl _ \<Rightarrow> None | Inr fee \<Rightarrow> Some fee)"
proof -
  define cs where "cs = (if bv_updateFirst env then rev (qau_requests QueryAndUpdate) else qau_requests QueryAndUpdate)"
  have cs: "cs = [False, True] \<or> cs = [True, False]" by (simp add: cs_def qau_requests_def)
  have t: "t = snd (qau_run (\<lambda>c. call_bt (bv_estimateFee env c) (CallEstimateFee minter c)) (\<lambda>certified fee s. s\<lparr>bt_fee := Some fee\<rparr>)
      (\<lambda>certified st (error :: btc_error) s. let s' = s\<lparr>bt_fee := None\<rparr>
         in if \<not> certified then s' else toast_bt (ToastError_bt ''error__ckbtc.estimated_fee'') s')
      QueryAndUpdate cs (False, s))"
    using assms by (simp add: estimateFee_def identity_bt_def Let_def cs_def effect_defs split del: if_split)
  show ?thesis
    using cs unfolding t
    by (elim disjE) (auto simp: qau_run_call toast_bt_def Let_def simp del: qau_run.simps(2) split: sum.split)
qed

end
