(* ===== verification/SnsAggregator.thy ===== *)
theory SnsAggregator
  imports SnsProjects Utils "HOL-Library.Monad_Syntax"
begin

text \<open>
  The data of the SNS aggregator: stores/sns-aggregator.store.ts, derived/sns-aggregator.derived.ts,
  derived/sns-parameters.derived.ts, derived/sns-functions.derived.ts, utils/sns-aggregator-converters.utils.ts
  and the token metadata of utils/icrc-tokens.utils.ts.

  The records have one shape before and after the conversion: 'n is number in what the aggregator sends and int,
  for bigint, in what the converters return.  A candid opt and a field that may be null or absent are both an
  option.  The fields that a converter always sets to the empty array, and the fields that no converter reads,
  are left out.  None: the conversion throws.  A principal is its text; ag_principal says which texts are one.
  The number of a candid array is a library function, ag_toBigInt.
\<close>

subsection \<open>Numbers\<close>

text \<open>BigInt of a number: a RangeError for a number that is no integer.\<close>

definition BigInt_of :: "number \<Rightarrow> int option" where
  "BigInt_of num = (if of_int \<lfloor>num\<rfloor> = num then Some \<lfloor>num\<rfloor> else None)"

definition convertOptionalNumToBigInt :: "number option \<Rightarrow> int option option" where
  "convertOptionalNumToBigInt num = (case num of None \<Rightarrow> Some None | Some n \<Rightarrow> map_option Some (BigInt_of n))"

record sns_aggregator_env =
  ag_principal :: "string \<Rightarrow> bool"
  ag_toBigInt :: "number list \<Rightarrow> int"
  ag_url :: string
  ag_version :: string
  ag_defaultLogo :: string

definition convertOptionalStringToOptionalPrincipal :: "sns_aggregator_env \<Rightarrow> string option \<Rightarrow> string option option" where
  "convertOptionalStringToOptionalPrincipal env principalText =
     (case principalText of None \<Rightarrow> Some None | Some p \<Rightarrow> if ag_principal env p then Some (Some p) else None)"

subsection \<open>Functions and parameters of the nervous system\<close>

datatype sns_function_type =
  NativeNervousSystemFunction
| GenericNervousSystemFunction "string option" "string option" "string option" "string option"

record 'n sns_function =
  sf_function_id :: 'n
  sf_function_name :: string
  sf_function_description :: "string option"
  sf_function_type :: "sns_function_type option"

fun convertFunctionType :: "sns_aggregator_env \<Rightarrow> sns_function_type \<Rightarrow> sns_function_type option" where
  "convertFunctionType env NativeNervousSystemFunction = Some NativeNervousSystemFunction"
| "convertFunctionType env (GenericNervousSystemFunction validator target validator_method target_method) =
     do {
       v \<leftarrow> convertOptionalStringToOptionalPrincipal env validator;
       t \<leftarrow> convertOptionalStringToOptionalPrincipal env target;
       Some (GenericNervousSystemFunction v t validator_method target_method)
     }"

definition convertNervousFunction :: "sns_aggregator_env \<Rightarrow> number sns_function \<Rightarrow> int sns_function option" where
  "convertNervousFunction env f =
     do {
       i \<leftarrow> BigInt_of (sf_function_id f);
       t \<leftarrow> (case sf_function_type f of None \<Rightarrow> Some None | Some ty \<Rightarrow> map_option Some (convertFunctionType env ty));
       Some \<lparr>sf_function_id = i, sf_function_name = sf_function_name f,
             sf_function_description = sf_function_description f, sf_function_type = t\<rparr>
     }"

record 'n voting_rewards =
  vr_final_reward_rate_basis_points :: "'n option"
  vr_initial_reward_rate_basis_points :: "'n option"
  vr_reward_rate_transition_duration_seconds :: "'n option"
  vr_round_duration_seconds :: "'n option"

text \<open>The followees of a function are ids of neurons; permissions are lists of numbers.\<close>

record 'n nervous_params =
  np_default_followees :: "('n \<times> nat list list) list option"
  np_max_dissolve_delay_seconds :: "'n option"
  np_max_dissolve_delay_bonus_percentage :: "'n option"
  np_max_followees_per_function :: "'n option"
  np_neuron_claimer_permissions :: "number list option"
  np_neuron_minimum_stake_e8s :: "'n option"
  np_max_neuron_age_for_age_bonus :: "'n option"
  np_initial_voting_period_seconds :: "'n option"
  np_neuron_minimum_dissolve_delay_to_vote_seconds :: "'n option"
  np_reject_cost_e8s :: "'n option"
  np_max_proposals_to_keep_per_action :: "number option"
  np_wait_for_quiet_deadline_increase_seconds :: "'n option"
  np_max_number_of_neurons :: "'n option"
  np_transaction_fee_e8s :: "'n option"
  np_max_number_of_proposals_with_ballots :: "'n option"
  np_max_age_bonus_percentage :: "'n option"
  np_neuron_grantable_permissions :: "number list option"
  np_voting_rewards_parameters :: "'n voting_rewards option"
  np_maturity_modulation_disabled :: "bool option"
  np_max_number_of_principals_per_neuron :: "'n option"

definition convertDefaultFollowees :: "(number \<times> nat list list) list option \<Rightarrow> (int \<times> nat list list) list option option" where
  "convertDefaultFollowees defaultFollowees =
     (case defaultFollowees of
        None \<Rightarrow> Some None
      | Some entries \<Rightarrow>
          map_option Some (map_throws (\<lambda>(functionId, followees). map_option (\<lambda>i. (i, followees)) (BigInt_of functionId)) entries))"

definition convertVotingRewardsParameters :: "number voting_rewards option \<Rightarrow> int voting_rewards option option" where
  "convertVotingRewardsParameters votingRewardsParameters =
     (case votingRewardsParameters of
        None \<Rightarrow> Some None
      | Some v \<Rightarrow>
          do {
            final \<leftarrow> convertOptionalNumToBigInt (vr_final_reward_rate_basis_points v);
            initial \<leftarrow> convertOptionalNumToBigInt (vr_initial_reward_rate_basis_points v);
            transition \<leftarrow> convertOptionalNumToBigInt (vr_reward_rate_transition_duration_seconds v);
            round \<leftarrow> convertOptionalNumToBigInt (vr_round_duration_seconds v);
            Some (Some \<lparr>vr_final_reward_rate_basis_points = final, vr_initial_reward_rate_basis_points = initial,
              vr_reward_rate_transition_duration_seconds = transition, vr_round_duration_seconds = round\<rparr>)
          })"

definition convertNervousSystemParameters :: "number nervous_params \<Rightarrow> int nervous_params option" where
  "convertNervousSystemParameters p =
     do {
       default_followees \<leftarrow> convertDefaultFollowees (np_default_followees p);
       max_delay \<leftarrow> convertOptionalNumToBigInt (np_max_dissolve_delay_seconds p);
       max_delay_bonus \<leftarrow> convertOptionalNumToBigInt (np_max_dissolve_delay_bonus_percentage p);
       max_followees \<leftarrow> convertOptionalNumToBigInt (np_max_followees_per_function p);
       minimum_stake \<leftarrow> convertOptionalNumToBigInt (np_neuron_minimum_stake_e8s p);
       max_age \<leftarrow> convertOptionalNumToBigInt (np_max_neuron_age_for_age_bonus p);
       voting_period \<leftarrow> convertOptionalNumToBigInt (np_initial_voting_period_seconds p);
       minimum_delay \<leftarrow> convertOptionalNumToBigInt (np_neuron_minimum_dissolve_delay_to_vote_seconds p);
       reject_cost \<leftarrow> convertOptionalNumToBigInt (np_reject_cost_e8s p);
       wait_for_quiet \<leftarrow> convertOptionalNumToBigInt (np_wait_for_quiet_deadline_increase_seconds p);
       max_neurons \<leftarrow> convertOptionalNumToBigInt (np_max_number_of_neurons p);
       fee \<leftarrow> convertOptionalNumToBigInt (np_transaction_fee_e8s p);
       max_proposals \<leftarrow> convertOptionalNumToBigInt (np_max_number_of_proposals_with_ballots p);
       max_age_bonus \<leftarrow> convertOptionalNumToBigInt (np_max_age_bonus_percentage p);
       rewards \<leftarrow> convertVotingRewardsParameters (np_voting_rewards_parameters p);
       max_principals \<leftarrow> convertOptionalNumToBigInt (np_max_number_of_principals_per_neuron p);
       Some \<lparr>np_default_followees = default_followees, np_max_dissolve_delay_seconds = max_delay,
         np_max_dissolve_delay_bonus_percentage = max_delay_bonus, np_max_followees_per_function = max_followees,
         np_neuron_claimer_permissions = np_neuron_claimer_permissions p, np_neuron_minimum_stake_e8s = minimum_stake,
         np_max_neuron_age_for_age_bonus = max_age, np_initial_voting_period_seconds = voting_period,
         np_neuron_minimum_dissolve_delay_to_vote_seconds = minimum_delay, np_reject_cost_e8s = reject_cost,
         np_max_proposals_to_keep_per_action = np_max_proposals_to_keep_per_action p,
         np_wait_for_quiet_deadline_increase_seconds = wait_for_quiet, np_max_number_of_neurons = max_neurons,
         np_transaction_fee_e8s = fee, np_max_number_of_proposals_with_ballots = max_proposals,
         np_max_age_bonus_percentage = max_age_bonus,
         np_neuron_grantable_permissions = np_neuron_grantable_permissions p, np_voting_rewards_parameters = rewards,
         np_maturity_modulation_disabled = np_maturity_modulation_disabled p,
         np_max_number_of_principals_per_neuron = max_principals\<rparr>
     }"

subsection \<open>The swap\<close>

record 'n basket =
  bk_count :: 'n
  bk_dissolve_delay_interval_seconds :: 'n

record 'n coefficient_interval =
  ci_slope_numerator :: "'n option"
  ci_intercept_icp_e8s :: "'n option"
  ci_from_direct_participation_icp_e8s :: "'n option"
  ci_slope_denominator :: "'n option"
  ci_to_direct_participation_icp_e8s :: "'n option"

record 'n fund_constraints =
  fc_coefficient_intervals :: "'n coefficient_interval list"
  fc_max_neurons_fund_participation_icp_e8s :: "'n option"
  fc_min_direct_participation_threshold_icp_e8s :: "'n option"

record 'n swap_init =
  si_nns_proposal_id :: "'n option"
  si_min_participant_icp_e8s :: "'n option"
  si_neuron_basket :: "'n basket option"
  si_swap_start_timestamp_seconds :: "'n option"
  si_swap_due_timestamp_seconds :: "'n option"
  si_min_participants :: "number option"
  si_sns_token_e8s :: "'n option"
  si_should_auto_finalize :: "bool option"
  si_max_participant_icp_e8s :: "'n option"
  si_max_icp_e8s :: "'n option"
  si_min_icp_e8s :: "'n option"
  si_neuron_minimum_stake_e8s :: "'n option"
  si_transaction_fee_e8s :: "'n option"
  si_confirmation_text :: "string option"
  si_restricted_countries :: "string list option"
  si_canister_ids :: "string list"
  si_fallback_controller_principal_ids :: "string list"
  si_constraints :: "'n fund_constraints option"
  si_min_direct_participation_icp_e8s :: "'n option"
  si_max_direct_participation_icp_e8s :: "'n option"
  si_neurons_fund_participation :: "bool option"

record 'n swap_params =
  sq_min_participants :: number
  sq_min_icp_e8s :: 'n
  sq_max_icp_e8s :: 'n
  sq_min_participant_icp_e8s :: 'n
  sq_max_participant_icp_e8s :: 'n
  sq_swap_due_timestamp_seconds :: 'n
  sq_sns_token_e8s :: 'n
  sq_neuron_basket :: "'n basket"
  sq_sale_delay_seconds :: "'n option"
  sq_min_direct_participation_icp_e8s :: "'n option"
  sq_max_direct_participation_icp_e8s :: "'n option"

record 'n swap_derived =
  sd_sns_tokens_per_icp :: number
  sd_buyer_total_icp_e8s :: 'n
  sd_cf_participant_count :: "'n option"
  sd_direct_participant_count :: "'n option"
  sd_cf_neuron_count :: "'n option"
  sd_direct_participation_icp_e8s :: "'n option"
  sd_neurons_fund_participation_icp_e8s :: "'n option"

text \<open>
  The parameters of a swap are absent before it opened; converted, they are there.  In the converted record
  they are Some.
\<close>

record 'n swap_state =
  ss_lifecycle :: SnsSwapLifecycle
  ss_decentralization_sale_open_timestamp_seconds :: "'n option"
  ss_finalize_swap_in_progress :: "bool option"
  ss_open_sns_token_swap_proposal_id :: "'n option"
  ss_init :: "'n swap_init option"
  ss_params :: "'n swap_params option"
  ss_direct_participation_icp_e8s :: "'n option"
  ss_neurons_fund_participation_icp_e8s :: "'n option"

record 'n lifecycle_response =
  lr_lifecycle :: "SnsSwapLifecycle option"
  lr_decentralization_sale_open_timestamp_seconds :: "'n option"

definition convertBasket :: "number basket \<Rightarrow> int basket option" where
  "convertBasket b =
     do {
       interval \<leftarrow> BigInt_of (bk_dissolve_delay_interval_seconds b);
       count \<leftarrow> BigInt_of (bk_count b);
       Some \<lparr>bk_count = count, bk_dissolve_delay_interval_seconds = interval\<rparr>
     }"



text \<open>A converter on a value that may be null.\<close>

definition nullable_throws :: "('a \<Rightarrow> 'b option) \<Rightarrow> 'a option \<Rightarrow> 'b option option" where
  "nullable_throws f v = (case v of None \<Rightarrow> Some None | Some x \<Rightarrow> map_option Some (f x))"



definition convertSwapParams :: "number swap_params \<Rightarrow> int swap_params option" where
  "convertSwapParams p =
     do {
       min_participant \<leftarrow> BigInt_of (sq_min_participant_icp_e8s p);
       max_icp \<leftarrow> BigInt_of (sq_max_icp_e8s p);
       min_icp \<leftarrow> BigInt_of (sq_min_icp_e8s p);
       tokens \<leftarrow> BigInt_of (sq_sns_token_e8s p);
       max_participant \<leftarrow> BigInt_of (sq_max_participant_icp_e8s p);
       due \<leftarrow> BigInt_of (sq_swap_due_timestamp_seconds p);
       basket \<leftarrow> convertBasket (sq_neuron_basket p);
       sale_delay \<leftarrow> convertOptionalNumToBigInt (sq_sale_delay_seconds p);
       min_direct \<leftarrow> convertOptionalNumToBigInt (sq_min_direct_participation_icp_e8s p);
       max_direct \<leftarrow> convertOptionalNumToBigInt (sq_max_direct_participation_icp_e8s p);
       Some \<lparr>sq_min_participants = sq_min_participants p, sq_min_icp_e8s = min_icp, sq_max_icp_e8s = max_icp,
         sq_min_participant_icp_e8s = min_participant, sq_max_participant_icp_e8s = max_participant,
         sq_swap_due_timestamp_seconds = due, sq_sns_token_e8s = tokens, sq_neuron_basket = basket,
         sq_sale_delay_seconds = sale_delay, sq_min_direct_participation_icp_e8s = min_direct,
         sq_max_direct_participation_icp_e8s = max_direct\<rparr>
     }"

definition convertDerived :: "number swap_derived \<Rightarrow> int swap_derived option" where
  "convertDerived d =
     do {
       buyer_total \<leftarrow> BigInt_of (sd_buyer_total_icp_e8s d);
       cf_participants \<leftarrow> nullable_throws BigInt_of (sd_cf_participant_count d);
       direct_participants \<leftarrow> nullable_throws BigInt_of (sd_direct_participant_count d);
       cf_neurons \<leftarrow> nullable_throws BigInt_of (sd_cf_neuron_count d);
       direct \<leftarrow> convertOptionalNumToBigInt (sd_direct_participation_icp_e8s d);
       fund \<leftarrow> convertOptionalNumToBigInt (sd_neurons_fund_participation_icp_e8s d);
       Some \<lparr>sd_sns_tokens_per_icp = sd_sns_tokens_per_icp d, sd_buyer_total_icp_e8s = buyer_total,
         sd_cf_participant_count = cf_participants, sd_direct_participant_count = direct_participants,
         sd_cf_neuron_count = cf_neurons, sd_direct_participation_icp_e8s = direct,
         sd_neurons_fund_participation_icp_e8s = fund\<rparr>
     }"



subsection \<open>Metadata\<close>

record sns_metadata_dto =
  mt_url :: "string option"
  mt_name :: "string option"
  mt_description :: "string option"

record SnsSummaryMetadata =
  sm_url :: string
  sm_logo :: string
  sm_name :: string
  sm_description :: string

definition startsWith :: "string \<Rightarrow> string \<Rightarrow> bool" where
  "startsWith s p \<longleftrightarrow> prefix p s"

definition endsWith :: "string \<Rightarrow> string \<Rightarrow> bool" where
  "endsWith s p \<longleftrightarrow> suffix p s"

definition isPngAsset :: "string option \<Rightarrow> bool" where
  "isPngAsset asset \<longleftrightarrow>
     (case asset of None \<Rightarrow> False | Some a \<Rightarrow> startsWith a ''data:image/png;base64,'' \<or> endsWith a ''.png'')"

definition aggregatorCanisterLogoPath :: "sns_aggregator_env \<Rightarrow> string \<Rightarrow> string" where
  "aggregatorCanisterLogoPath env rootCanisterId =
     ag_url env @ ''/'' @ ag_version env @ ''/sns/root/'' @ rootCanisterId @ ''/logo.png''"

definition convertDtoToSnsSummaryMetadata :: "sns_aggregator_env \<Rightarrow> sns_metadata_dto \<Rightarrow> string \<Rightarrow> SnsSummaryMetadata option" where
  "convertDtoToSnsSummaryMetadata env meta rootCanisterId =
     (let nullishLogo = aggregatorCanisterLogoPath env rootCanisterId
      in case (mt_url meta, mt_name meta, mt_description meta) of
           (Some url, Some name, Some description) \<Rightarrow>
             Some \<lparr>sm_url = url, sm_logo = (if isPngAsset (Some nullishLogo) then nullishLogo else ag_defaultLogo env),
                   sm_name = name, sm_description = description\<rparr>
         | _ \<Rightarrow> None)"

datatype 'n metadata_value = MetaInt 'n | MetaNat 'n | MetaBlob "nat list" | MetaText string

definition convertIcrc1Metadata ::
  "sns_aggregator_env \<Rightarrow> (string \<times> number list metadata_value) list \<Rightarrow> (string \<times> int metadata_value) list" where
  "convertIcrc1Metadata env = map (\<lambda>(key, v). (key, case v of
       MetaInt n \<Rightarrow> MetaInt (ag_toBigInt env n)
     | MetaNat n \<Rightarrow> MetaNat (ag_toBigInt env n)
     | MetaBlob b \<Rightarrow> MetaBlob b
     | MetaText t \<Rightarrow> MetaText t))"

text \<open>The token while the entries are read, and the token that is given: its decimals may be absent all the same.\<close>

record icrc_token =
  ik_symbol :: "string option"
  ik_name :: "string option"
  ik_fee :: "int option"
  ik_decimals :: "number option"
  ik_logo :: "string option"

definition no_token :: icrc_token where
  "no_token = \<lparr>ik_symbol = None, ik_name = None, ik_fee = None, ik_decimals = None, ik_logo = None\<rparr>"

definition read_token_entry :: "icrc_token \<Rightarrow> string \<times> int metadata_value \<Rightarrow> icrc_token" where
  "read_token_entry acc e =
     (case e of (key, v) \<Rightarrow>
        if key = ''icrc1:symbol'' then (case v of MetaText t \<Rightarrow> acc\<lparr>ik_symbol := Some t\<rparr> | _ \<Rightarrow> acc)
        else if key = ''icrc1:name'' then (case v of MetaText t \<Rightarrow> acc\<lparr>ik_name := Some t\<rparr> | _ \<Rightarrow> acc)
        else if key = ''icrc1:fee'' then (case v of MetaNat n \<Rightarrow> acc\<lparr>ik_fee := Some n\<rparr> | _ \<Rightarrow> acc)
        else if key = ''icrc1:decimals'' then (case v of MetaNat n \<Rightarrow> acc\<lparr>ik_decimals := Some (to_number n)\<rparr> | _ \<Rightarrow> acc)
        else if key = ''icrc1:logo'' then (case v of MetaText t \<Rightarrow> acc\<lparr>ik_logo := Some t\<rparr> | _ \<Rightarrow> acc)
        else acc)"

definition mapOptionalToken :: "(string \<times> int metadata_value) list \<Rightarrow> icrc_token option" where
  "mapOptionalToken response =
     (let nullishToken = foldl read_token_entry no_token response
      in if ik_name nullishToken = None \<or> ik_symbol nullishToken = None \<or> ik_fee nullishToken = None then None
         else Some nullishToken)"

definition convertDtoToTokenMetadata ::
  "sns_aggregator_env \<Rightarrow> (string \<times> number list metadata_value) list \<Rightarrow> icrc_token option" where
  "convertDtoToTokenMetadata env data = mapOptionalToken (convertIcrc1Metadata env data)"

subsection \<open>Projects\<close>

record sns_canister_ids =
  ids_root :: string
  ids_swap :: string
  ids_governance :: string
  ids_ledger :: string
  ids_index :: string

text \<open>dto_list_root: the root of list_sns_canisters.\<close>

record CachedSnsDto =
  dto_canister_ids :: sns_canister_ids
  dto_list_root :: string
  dto_meta :: sns_metadata_dto
  dto_functions :: "number sns_function list"
  dto_nervous_params :: "number nervous_params"
  dto_icrc1_metadata :: "(string \<times> number list metadata_value) list"
  dto_swap_state :: "number swap_state"
  dto_derived_state :: "number swap_derived"
  dto_swap_params :: "number swap_params option"
  dto_init :: "number swap_init option"
  dto_lifecycle :: "number lifecycle_response option"




subsection \<open>The store of the aggregator\<close>

record sns_override =
  ov_name :: string
  ov_tokenSymbol :: string

definition brokenSnsOverrides :: "string \<Rightarrow> sns_override option" where
  "brokenSnsOverrides rootId =
     (if rootId = ''ibahq-taaaa-aaaaq-aadna-cai''
      then Some \<lparr>ov_name = ''CYCLES-TRANSFER-STATION'', ov_tokenSymbol = ''CTS''\<rparr> else None)"

text \<open>The zero-width space, here as its bytes.\<close>

definition hiddenCharacterToPushSnsToEndOfList :: string where
  "hiddenCharacterToPushSnsToEndOfList = map char_of [226 :: nat, 128, 139]"

text \<open>The second component: isAbandoned.  A name that is null appears as null in the template.\<close>

definition fixBrokenSnsMetadataBasedOnId :: "CachedSnsDto \<Rightarrow> CachedSnsDto \<times> bool" where
  "fixBrokenSnsMetadataBasedOnId sns =
     (case brokenSnsOverrides (dto_list_root sns) of
        None \<Rightarrow> (sns, False)
      | Some override \<Rightarrow>
          (sns\<lparr>dto_meta := (dto_meta sns)\<lparr>mt_name := Some (hiddenCharacterToPushSnsToEndOfList @
                 nullish_or (mt_name (dto_meta sns)) ''null'' @ '' (formerly '' @ ov_name override @ '')'')\<rparr>,
               dto_icrc1_metadata := map (\<lambda>(name, v). (name,
                 case v of MetaText t \<Rightarrow> if name = ''icrc1:symbol'' then MetaText (t @ '' ('' @ ov_tokenSymbol override @ '')'') else v
                 | _ \<Rightarrow> v)) (dto_icrc1_metadata sns)\<rparr>, True))"

definition compareAbandoned :: "(CachedSnsDto \<times> bool) comparator_fun" where
  "compareAbandoned a b = (if snd a \<and> \<not> snd b then 1 else if \<not> snd a \<and> snd b then -1 else 0)"

definition sortedListBasedOnAbandoned :: "(CachedSnsDto \<times> bool) list \<Rightarrow> (CachedSnsDto \<times> bool) list" where
  "sortedListBasedOnAbandoned = js_sort compareAbandoned"

definition not_aborted :: "CachedSnsDto \<Rightarrow> bool" where
  "not_aborted sns \<longleftrightarrow>
     (case dto_lifecycle sns of None \<Rightarrow> False | Some l \<Rightarrow> lr_lifecycle l \<noteq> Some LifecycleAborted)"

definition snsAggregatorStore :: "CachedSnsDto list option \<Rightarrow> CachedSnsDto list option" where
  "snsAggregatorStore data =
     map_option (\<lambda>ds. map fst (sortedListBasedOnAbandoned (map fixBrokenSnsMetadataBasedOnId (filter not_aborted ds)))) data"

text \<open>The derived stores: an object from the roots, so a later entry of the same root replaces an earlier one.\<close>

definition snsAggregatorDerived :: "(CachedSnsDto \<Rightarrow> 't option) \<Rightarrow> CachedSnsDto list option \<Rightarrow> (string \<times> 't) list option" where
  "snsAggregatorDerived mapFn data =
     map_option fromEntries
       (map_throws (\<lambda>sns. map_option (\<lambda>t. (ids_root (dto_canister_ids sns), t)) (mapFn sns)) (nullish_or (snsAggregatorStore data) []))"

definition snsParametersStore :: "CachedSnsDto list option \<Rightarrow> (string \<times> int nervous_params) list option" where
  "snsParametersStore = snsAggregatorDerived (\<lambda>sns. convertNervousSystemParameters (dto_nervous_params sns))"

definition snsFunctionsStore :: "sns_aggregator_env \<Rightarrow> CachedSnsDto list option \<Rightarrow> (string \<times> int sns_function list) list option" where
  "snsFunctionsStore env = snsAggregatorDerived (\<lambda>sns. map_throws (convertNervousFunction env) (dto_functions sns))"

text \<open>The tokens store: each project gives its token to its root and to its ledger.\<close>

definition fillTokensStoreFromAggregatorData ::
  "sns_aggregator_env \<Rightarrow> CachedSnsDto list \<Rightarrow> (string \<rightharpoonup> icrc_token \<times> bool option) \<Rightarrow> (string \<rightharpoonup> icrc_token \<times> bool option)" where
  "fillTokensStoreFromAggregatorData env aggregatorData tokensStore =
     tokensStore ++
     foldl (\<lambda>acc (root, ledger, token). acc(root \<mapsto> (token, Some True), ledger \<mapsto> (token, Some True))) Map.empty
       (List.map_filter (\<lambda>sns. map_option (\<lambda>token. (ids_root (dto_canister_ids sns), ids_ledger (dto_canister_ids sns), token))
            (convertDtoToTokenMetadata env (dto_icrc1_metadata sns))) aggregatorData)"

subsection \<open>The summaries that the launchpad shows\<close>





subsection \<open>What the store lists\<close>








subsection \<open>The amounts\<close>

text \<open>
  The aggregator sends an integer as a JSON number, which the browser reads as the nearest double.  The
  records that it sends for those of the canisters:
\<close>

definition json_basket :: "int basket \<Rightarrow> number basket" where
  "json_basket b = \<lparr>bk_count = to_number (bk_count b),
     bk_dissolve_delay_interval_seconds = to_number (bk_dissolve_delay_interval_seconds b)\<rparr>"

definition json_params :: "int swap_params \<Rightarrow> number swap_params" where
  "json_params p =
     \<lparr>sq_min_participants = sq_min_participants p, sq_min_icp_e8s = to_number (sq_min_icp_e8s p),
      sq_max_icp_e8s = to_number (sq_max_icp_e8s p), sq_min_participant_icp_e8s = to_number (sq_min_participant_icp_e8s p),
      sq_max_participant_icp_e8s = to_number (sq_max_participant_icp_e8s p),
      sq_swap_due_timestamp_seconds = to_number (sq_swap_due_timestamp_seconds p),
      sq_sns_token_e8s = to_number (sq_sns_token_e8s p), sq_neuron_basket = json_basket (sq_neuron_basket p),
      sq_sale_delay_seconds = map_option to_number (sq_sale_delay_seconds p),
      sq_min_direct_participation_icp_e8s = map_option to_number (sq_min_direct_participation_icp_e8s p),
      sq_max_direct_participation_icp_e8s = map_option to_number (sq_max_direct_participation_icp_e8s p)\<rparr>"

definition json_derived :: "int swap_derived \<Rightarrow> number swap_derived" where
  "json_derived d =
     \<lparr>sd_sns_tokens_per_icp = sd_sns_tokens_per_icp d, sd_buyer_total_icp_e8s = to_number (sd_buyer_total_icp_e8s d),
      sd_cf_participant_count = map_option to_number (sd_cf_participant_count d),
      sd_direct_participant_count = map_option to_number (sd_direct_participant_count d),
      sd_cf_neuron_count = map_option to_number (sd_cf_neuron_count d),
      sd_direct_participation_icp_e8s = map_option to_number (sd_direct_participation_icp_e8s d),
      sd_neurons_fund_participation_icp_e8s = map_option to_number (sd_neurons_fund_participation_icp_e8s d)\<rparr>"

text \<open>Amounts that a double holds exactly.\<close>

definition safe_int :: "int \<Rightarrow> bool" where
  "safe_int n \<longleftrightarrow> \<bar>n\<bar> < 2 ^ 53"

definition params_amounts :: "int swap_params \<Rightarrow> int list" where
  "params_amounts p =
     [sq_min_icp_e8s p, sq_max_icp_e8s p, sq_min_participant_icp_e8s p, sq_max_participant_icp_e8s p,
      sq_swap_due_timestamp_seconds p, sq_sns_token_e8s p, bk_count (sq_neuron_basket p),
      bk_dissolve_delay_interval_seconds (sq_neuron_basket p)] @
     List.map_filter id [sq_sale_delay_seconds p, sq_min_direct_participation_icp_e8s p, sq_max_direct_participation_icp_e8s p]"

definition derived_amounts :: "int swap_derived \<Rightarrow> int list" where
  "derived_amounts d = sd_buyer_total_icp_e8s d # List.map_filter id
     [sd_cf_participant_count d, sd_direct_participant_count d, sd_cf_neuron_count d, sd_direct_participation_icp_e8s d,
      sd_neurons_fund_participation_icp_e8s d]"

lemma BigInt_of_safe: "safe_int n \<Longrightarrow> BigInt_of (to_number n) = Some n"
  by (simp add: safe_int_def BigInt_of_def)

lemma convert_optional_safe:
  "pred_option safe_int v \<Longrightarrow> convertOptionalNumToBigInt (map_option to_number v) = Some v"
  "pred_option safe_int v \<Longrightarrow> nullable_throws BigInt_of (map_option to_number v) = Some v"
  by (cases v; simp add: convertOptionalNumToBigInt_def nullable_throws_def BigInt_of_safe)+

lemma BigInt_of_SomeD: "BigInt_of n = Some i \<Longrightarrow> of_int i = n"
  by (auto simp: BigInt_of_def split: if_splits)

lemma safe_optional:
  "list_all safe_int (List.map_filter id (v # vs)) \<longleftrightarrow> pred_option safe_int v \<and> list_all safe_int (List.map_filter id vs)"
  "list_all safe_int (List.map_filter id [])"
  by (cases v) (simp_all add: List.map_filter_def)

lemma convert_params_safe: "list_all safe_int (params_amounts p) \<Longrightarrow> convertSwapParams (json_params p) = Some p"
  by (simp add: safe_optional params_amounts_def convertSwapParams_def json_params_def convertBasket_def json_basket_def
      convert_optional_safe BigInt_of_safe del: List.map_filter_simps)

lemma convert_derived_safe: "list_all safe_int (derived_amounts d) \<Longrightarrow> convertDerived (json_derived d) = Some d"
  by (simp add: safe_optional derived_amounts_def convertDerived_def json_derived_def convert_optional_safe BigInt_of_safe
      del: List.map_filter_simps)

lemma converted_params_amounts:
  "convertSwapParams sent = Some received \<Longrightarrow>
     of_int (sq_min_icp_e8s received) = sq_min_icp_e8s sent \<and> of_int (sq_max_icp_e8s received) = sq_max_icp_e8s sent \<and>
     of_int (sq_min_participant_icp_e8s received) = sq_min_participant_icp_e8s sent \<and>
     of_int (sq_max_participant_icp_e8s received) = sq_max_participant_icp_e8s sent \<and>
     of_int (sq_sns_token_e8s received) = sq_sns_token_e8s sent"
  by (auto simp: convertSwapParams_def dest!: BigInt_of_SomeD split: bind_splits)

text \<open>C24: The conversion of what the aggregator sends, utils/sns-aggregator-converters.utils.ts, gives back the
  parameters and the derived state of a swap exactly, every amount, count and time of them, as long as they stay below
  2 to the 53; and whatever it is sent, a converted amount is the number that was sent: a conversion
  rounds nothing, it throws for a number that is no integer.\<close>

theorem aggregator_amounts_exact:
  "list_all safe_int (params_amounts p) \<Longrightarrow> list_all safe_int (derived_amounts d) \<Longrightarrow>
     convertSwapParams (json_params p) = Some p \<and> convertDerived (json_derived d) = Some d \<and>
     (convertSwapParams sent = Some received \<longrightarrow>
        of_int (sq_min_icp_e8s received) = sq_min_icp_e8s sent \<and> of_int (sq_max_icp_e8s received) = sq_max_icp_e8s sent \<and>
        of_int (sq_min_participant_icp_e8s received) = sq_min_participant_icp_e8s sent \<and>
        of_int (sq_max_participant_icp_e8s received) = sq_max_participant_icp_e8s sent \<and>
        of_int (sq_sns_token_e8s received) = sq_sns_token_e8s sent)"
  using convert_params_safe convert_derived_safe converted_params_amounts by blast

definition example_params :: "int swap_params" where
  "example_params = \<lparr>sq_min_participants = 3, sq_min_icp_e8s = 10, sq_max_icp_e8s = 20, sq_min_participant_icp_e8s = 1,
     sq_max_participant_icp_e8s = 5, sq_swap_due_timestamp_seconds = 1700000000, sq_sns_token_e8s = 7,
     sq_neuron_basket = \<lparr>bk_count = 2, bk_dissolve_delay_interval_seconds = 60\<rparr>, sq_sale_delay_seconds = None,
     sq_min_direct_participation_icp_e8s = Some 4, sq_max_direct_participation_icp_e8s = None\<rparr>"

definition example_derived :: "int swap_derived" where
  "example_derived = \<lparr>sd_sns_tokens_per_icp = 1 / 2, sd_buyer_total_icp_e8s = 12, sd_cf_participant_count = Some 1,
     sd_direct_participant_count = None, sd_cf_neuron_count = None, sd_direct_participation_icp_e8s = Some 12,
     sd_neurons_fund_participation_icp_e8s = None\<rparr>"

theorem aggregator_amounts_exact_witness:
  "convertSwapParams (json_params example_params) = Some example_params \<and>
   convertDerived (json_derived example_derived) = Some example_derived"
  using aggregator_amounts_exact [of example_params example_derived "json_params example_params" example_params]
  by (simp add: params_amounts_def derived_amounts_def safe_int_def example_params_def example_derived_def List.map_filter_def)

subsection \<open>Which projects have a summary\<close>







text \<open>The path of the logo always ends in .png: the default logo is never used.\<close>

lemma logo_is_the_path:
  "convertDtoToSnsSummaryMetadata env meta r = Some m \<Longrightarrow> sm_logo m = aggregatorCanisterLogoPath env r"
  by (auto simp: convertDtoToSnsSummaryMetadata_def isPngAsset_def endsWith_def aggregatorCanisterLogoPath_def suffix_def Let_def
      split: option.splits)






























end
