(* ===== verification/NnsProposalServices.thy ===== *)
theory NnsProposalServices
  imports ActionableProposals
begin

text \<open>
  Loading NNS proposals: services/public/proposals.services.ts, the requests of api/proposals.api.ts and the
  payloads of stores/proposals.store.ts.  The list of proposals lives in a queued store; a call of a service is run on
  the settlements of its query and update calls, in the order in which they settle.  A callback may throw: the
  second component of its result.
\<close>

subsection \<open>Requests\<close>

record list_proposals_request =
  lp_limit :: nat
  lp_beforeProposal :: "int option"
  lp_excludeTopic :: "Topic list"
  lp_includeStatus :: "ProposalStatus list"
  lp_omitLargeFields :: bool

text \<open>allTopics: the values of the enum Topic of the client library.\<close>

definition queryProposals_request ::
  "Topic list \<Rightarrow> int option \<Rightarrow> Topic list \<Rightarrow> ProposalStatus list \<Rightarrow> list_proposals_request" where
  "queryProposals_request allTopics beforeProposal includeTopics includeStatus =
     \<lparr>lp_limit = DEFAULT_LIST_PAGINATION_LIMIT, lp_beforeProposal = beforeProposal,
      lp_excludeTopic = (if length includeTopics = 0 then [] else filter (\<lambda>t. t \<notin> set includeTopics) allTopics),
      lp_includeStatus = includeStatus, lp_omitLargeFields = True\<rparr>"

definition queryProposal_request :: "int \<Rightarrow> list_proposals_request" where
  "queryProposal_request proposalId =
     \<lparr>lp_limit = 1, lp_beforeProposal = Some (proposalId + 1), lp_excludeTopic = [], lp_includeStatus = [],
      lp_omitLargeFields = False\<rparr>"

text \<open>None: the TypeError of reading the id of the first of no proposals.\<close>

definition queryProposal_result :: "int \<Rightarrow> ProposalInfo list \<Rightarrow> ProposalInfo option option" where
  "queryProposal_result proposalId proposals =
     (case proposals of
        [] \<Rightarrow> None
      | p # _ \<Rightarrow> Some (if pi_id p = Some proposalId then Some p else None))"

subsection \<open>State\<close>

text \<open>RequestError: whether the error says that the payload is too large.\<close>

datatype list_error = RequestError bool | StoreError queue_error

text \<open>
  nl_uncertified is the variable of the call that is running; nl_finished the calls of loadFinished, with
  paginationOver and certified.
\<close>

record list_state =
  nl_store :: "ProposalsStore queued_store"
  nl_uncertified :: "ProposalInfo list option"
  nl_finished :: "(bool \<times> bool) list"
  nl_toasts :: "string list"

type_synonym list_step = "list_state \<Rightarrow> list_state \<times> list_error option"

definition then_step :: "list_step \<Rightarrow> list_step \<Rightarrow> list_step" where
  "then_step m n s = (case m s of (s', None) \<Rightarrow> n s' | (s', Some e) \<Rightarrow> (s', Some e))"

definition store_step :: "(ProposalsStore queued_store \<Rightarrow> queue_error + ProposalsStore queued_store) \<Rightarrow> list_step" where
  "store_step f s = (case f (nl_store s) of Inl e \<Rightarrow> (s, Some (StoreError e)) | Inr st \<Rightarrow> (s\<lparr>nl_store := st\<rparr>, None))"

definition pure_step :: "(list_state \<Rightarrow> list_state) \<Rightarrow> list_step" where
  "pure_step f s = (f s, None)"

definition loadFinished :: "bool \<Rightarrow> bool \<Rightarrow> list_step" where
  "loadFinished paginationOver certified = pure_step (\<lambda>s. s\<lparr>nl_finished := nl_finished s @ [(paginationOver, certified)]\<rparr>)"

subsection \<open>The list\<close>

definition handleFindProposalsError :: "nat \<Rightarrow> (list_error, list_state, list_error) qau_callback" where
  "handleFindProposalsError key certified strat err =
     (if isLastCall strat certified
      then then_step (store_step (setProposals key [] certified))
        (let resultsTooLarge = (err = RequestError True)
         in pure_step (\<lambda>s. s\<lparr>nl_toasts := nl_toasts s @
              [if resultsTooLarge then ''error.list_proposals_payload_too_large'' else ''error.list_proposals'']\<rparr>))
      else pure_step id)"

definition listProposals_onLoad :: "nat \<Rightarrow> (ProposalInfo list, list_state, list_error) qau_callback" where
  "listProposals_onLoad key certified strat proposals =
     then_step (store_step (setProposals key proposals certified))
       (loadFinished (length proposals < DEFAULT_LIST_PAGINATION_LIMIT) certified)"

definition listNextProposals_onLoad :: "nat \<Rightarrow> (ProposalInfo list, list_state, list_error) qau_callback" where
  "listNextProposals_onLoad key certified strat proposals =
     (if length proposals = 0 then loadFinished True certified
      else then_step (store_step (pushProposals key proposals certified))
        (loadFinished (length proposals < DEFAULT_LIST_PAGINATION_LIMIT) certified))"

definition validateResponses :: "nat \<Rightarrow> ProposalInfo list \<Rightarrow> ProposalInfo list \<Rightarrow> list_step" where
  "validateResponses key trustedProposals untrustedProposals =
     (if proposalsHaveSameIds untrustedProposals trustedProposals then pure_step id
      else
        (let proposalsToRemove = excludeProposals untrustedProposals trustedProposals
         in if length proposalsToRemove > 0 then store_step (removeProposals key proposalsToRemove True)
            else pure_step id))"

definition findProposals_onLoad ::
  "nat \<Rightarrow> (ProposalInfo list, list_state, list_error) qau_callback \<Rightarrow> (ProposalInfo list, list_state, list_error) qau_callback" where
  "findProposals_onLoad key onLoad certified strat proposals s =
     (if \<not> certified
      then then_step (pure_step (\<lambda>s. s\<lparr>nl_uncertified := Some proposals\<rparr>)) (onLoad certified strat proposals) s
      else then_step
        (\<lambda>s. case nl_uncertified s of
               None \<Rightarrow> (s, None)
             | Some untrusted \<Rightarrow> validateResponses key proposals untrusted s)
        (onLoad certified strat proposals) s)"

definition find_proposals ::
  "(nat \<Rightarrow> (ProposalInfo list, list_state, list_error) qau_callback) \<Rightarrow> QueryAndUpdateStrategy \<Rightarrow>
     (bool \<times> (list_error + ProposalInfo list)) list \<Rightarrow> list_state \<Rightarrow> list_state" where
  "find_proposals onLoad strat settlements s =
     (let (key, st) = getSingleMutationStore None (nl_store s)
      in snd (qau_settle (findProposals_onLoad key (onLoad key)) (Some (handleFindProposalsError key)) strat settlements
           (False, s\<lparr>nl_store := st, nl_uncertified := None\<rparr>)))"

definition listProposals ::
  "QueryAndUpdateStrategy \<Rightarrow> (bool \<times> (list_error + ProposalInfo list)) list \<Rightarrow> list_state \<Rightarrow> list_state" where
  "listProposals = find_proposals listProposals_onLoad"

definition listNextProposals ::
  "QueryAndUpdateStrategy \<Rightarrow> (bool \<times> (list_error + ProposalInfo list)) list \<Rightarrow> list_state \<Rightarrow> list_state" where
  "listNextProposals = find_proposals listNextProposals_onLoad"

subsection \<open>One proposal\<close>

datatype proposal_event =
  SetProposal int ProposalInfo | HandleError bool | LoadCallback bool | ProposalNotFoundToast int

type_synonym load_step = "proposal_event list \<Rightarrow> proposal_event list \<times> list_error option"

definition proposal_catchError :: "int \<Rightarrow> bool \<Rightarrow> bool \<Rightarrow> QueryAndUpdateStrategy \<Rightarrow> load_step" where
  "proposal_catchError proposalId silentErrorMessages certified strat events =
     (events @ (if \<not> silentErrorMessages \<and> isLastCall strat certified then [ProposalNotFoundToast proposalId] else []) @
        [HandleError certified], None)"

definition proposal_onLoad :: "int \<Rightarrow> bool \<Rightarrow> (ProposalInfo option, proposal_event list, list_error) qau_callback" where
  "proposal_onLoad proposalId silentErrorMessages certified strat proposal events =
     (case proposal of
        None \<Rightarrow> proposal_catchError proposalId silentErrorMessages certified strat events
      | Some p \<Rightarrow> (events @ [SetProposal proposalId p, LoadCallback certified], None))"

text \<open>The identity is the current one: anonymous when the user is not signed in.\<close>

definition loadProposal ::
  "bool \<Rightarrow> int \<Rightarrow> bool \<Rightarrow> QueryAndUpdateStrategy option \<Rightarrow> (bool \<times> (list_error + ProposalInfo option)) list \<Rightarrow>
     proposal_event list \<Rightarrow> proposal_event list" where
  "loadProposal anonymous proposalId silentErrorMessages strat settlements events =
     (case qau_start id \<lparr>anonymousIdentity = True, currentIdentity = anonymous, authenticatedIdentity = Some anonymous\<rparr> Current strat of
        Some (Inl e) \<Rightarrow> fst (proposal_catchError proposalId silentErrorMessages True QueryAndUpdate events)
      | Some (Inr (i, currentStrategy, requests)) \<Rightarrow>
          snd (qau_settle (proposal_onLoad proposalId silentErrorMessages)
             (Some (\<lambda>certified st error. proposal_catchError proposalId silentErrorMessages certified st))
             currentStrategy settlements (False, events))
      | None \<Rightarrow> events)"

subsection \<open>Payloads\<close>

text \<open>A payload of the store: None is undefined.\<close>

datatype proposal_payload = PayloadNull | PayloadTooLargeText | PayloadObject string

datatype payload_error = ProposalPayloadTooLarge | ProposalPayloadNotFound | OtherPayloadError

text \<open>The store of payloads and the toasts; the answer of the canister is an argument.\<close>

definition loadProposalPayload ::
  "int \<Rightarrow> payload_error + string \<Rightarrow> (int \<rightharpoonup> proposal_payload option) \<times> string list \<Rightarrow>
     (int \<rightharpoonup> proposal_payload option) \<times> string list" where
  "loadProposalPayload proposalId answer s =
     (let (payloads, toasts) = s;
          loading = setPayload proposalId None payloads
      in case answer of
           Inr payload \<Rightarrow> (setPayload proposalId (Some (PayloadObject payload)) loading, toasts)
         | Inl ProposalPayloadTooLarge \<Rightarrow> (setPayload proposalId (Some PayloadTooLargeText) loading, toasts)
         | Inl ProposalPayloadNotFound \<Rightarrow>
             (setPayload proposalId (Some PayloadNull) loading, toasts @ [''error.proposal_payload_not_found''])
         | Inl OtherPayloadError \<Rightarrow> (loading, toasts @ [''error.proposal_payload'']))"

text \<open>
  After an error of another kind the payload stays undefined, which the documentation of the
  service calls loading, and not null.
\<close>

lemma payload_stays_loading:
  "fst (loadProposalPayload i answer s) i = Some None \<longleftrightarrow> answer = Inl OtherPayloadError"
  by (cases s; cases answer; cases "projl answer") (auto simp: loadProposalPayload_def setPayload_def Let_def split: payload_error.split)

subsection \<open>When the two answers agree\<close>

text \<open>A store in which no other request is waiting for its answers.\<close>

definition idle :: "list_state \<Rightarrow> ProposalsStore \<Rightarrow> bool" where
  "idle s d \<longleftrightarrow> certifiedData (nl_store s) = d \<and> mutationQueue (nl_store s) = [] \<and> exposed (nl_store s) = d"

lemmas list_defs = find_proposals_def findProposals_onLoad_def then_step_def store_step_def pure_step_def loadFinished_def
  getSingleMutationStore_def new_entry_def addMutation_def single_set_def single_update_def qau_catch_def
  setProposals_def pushProposals_def removeProposals_def updateExposedData_def isFinal.simps
  entry_slot_def set_entry_slot_def apply_entry_def entry_mutation_def validateResponses_def handleFindProposalsError_def isLastCall_def

text \<open>C7: listProposals and listNextProposals of services/public/proposals.services.ts for a signed-in user, in either order of the answers: when
  every proposal of the query answer is also in the answer of the update call, the store exposes the certified
  list, or the list with the certified page merged into it, the last call of loadFinished is the certified
  one, its paginationOver says whether the page was not full, and no error is shown.\<close>

theorem agreeing_answers_listed:
  assumes "idle s d" "excludeProposals q u = []"
    and "settlements = [(False, Inr q), (True, Inr u)] \<or> settlements = [(True, Inr u), (False, Inr q)]"
    and "u = [] \<longrightarrow> q = []"
  shows "exposed (nl_store (listProposals QueryAndUpdate settlements s)) = \<lparr>ps_proposals = u, ps_certified = Some True\<rparr> \<and>
     exposed (nl_store (listNextProposals QueryAndUpdate settlements s)) = (if u = [] then d else pushProposals_mutation u True d) \<and>
     last (nl_finished (listProposals QueryAndUpdate settlements s)) = (length u < 100, True) \<and>
     last (nl_finished (listNextProposals QueryAndUpdate settlements s)) = (length u < 100, True) \<and>
     nl_toasts (listProposals QueryAndUpdate settlements s) = nl_toasts s \<and>
     nl_toasts (listNextProposals QueryAndUpdate settlements s) = nl_toasts s"
proof -
  have same: "proposalsHaveSameIds q u \<or> length (excludeProposals q u) = 0" using assms(2) by simp
  have "exposed (nl_store (listProposals QueryAndUpdate settlements s)) = \<lparr>ps_proposals = u, ps_certified = Some True\<rparr> \<and>
     last (nl_finished (listProposals QueryAndUpdate settlements s)) = (length u < 100, True) \<and>
     nl_toasts (listProposals QueryAndUpdate settlements s) = nl_toasts s"
    using assms(1,3) same
    by (elim disjE) (simp_all add: listProposals_def list_defs idle_def listProposals_onLoad_def DEFAULT_LIST_PAGINATION_LIMIT_def Let_def)
  moreover have "exposed (nl_store (listNextProposals QueryAndUpdate settlements s)) = (if u = [] then d else pushProposals_mutation u True d) \<and>
     last (nl_finished (listNextProposals QueryAndUpdate settlements s)) = (length u < 100, True) \<and>
     nl_toasts (listNextProposals QueryAndUpdate settlements s) = nl_toasts s"
    using assms(1,3,4) same
    by (elim disjE; cases "q = []"; cases "u = []")
      (simp_all add: listNextProposals_def list_defs idle_def listNextProposals_onLoad_def DEFAULT_LIST_PAGINATION_LIMIT_def Let_def)
  ultimately show ?thesis by blast
qed

subsection \<open>When they differ\<close>

text \<open>C6: When the query answered first, with a proposal that is not in the answer of the update call, both services
  lose the certified answer: removing the unproven proposals uses up the one certified change that the
  queued store allows to the request, so storing the certified list, or a page that is not empty, throws, and the error is dropped because
  the certified answer has been seen.  The store goes back to what it had before the request, without those
  proposals: on the first load it is empty; loadFinished is not called for the certified answer, and no error is shown.\<close>

theorem differing_answers_lost:
  assumes "idle s d" "excludeProposals q u \<noteq> []" "\<not> proposalsHaveSameIds q u"
    and "service = listProposals \<or> service = listNextProposals \<and> u \<noteq> []"
    and "after = service QueryAndUpdate [(False, Inr q), (True, Inr u)] s"
  shows "exposed (nl_store after) = d\<lparr>ps_proposals := excludeProposals (ps_proposals d) (excludeProposals q u)\<rparr> \<and>
     (nl_store s = initProposalsStore \<longrightarrow> ps_proposals (exposed (nl_store after)) = []) \<and>
     nl_finished after = nl_finished s @ [(length q < 100, False)] \<and> nl_toasts after = nl_toasts s"
proof -
  have q: "q \<noteq> []" using assms(2) by (auto simp: excludeProposals_filter)
  have first: "nl_store s = initProposalsStore \<Longrightarrow> ps_proposals d = []"
    using assms(1) by (auto simp: idle_def initProposalsStore_def queuedStore_def)
  have "exposed (nl_store after) = d\<lparr>ps_proposals := excludeProposals (ps_proposals d) (excludeProposals q u)\<rparr> \<and>
     nl_finished after = nl_finished s @ [(length q < 100, False)] \<and> nl_toasts after = nl_toasts s"
    using q assms
    by (elim disjE conjE) (simp_all add: listProposals_def listNextProposals_def list_defs idle_def listProposals_onLoad_def
        listNextProposals_onLoad_def DEFAULT_LIST_PAGINATION_LIMIT_def Let_def removeProposals_mutation_def)
  with first show ?thesis by (simp add: excludeProposals_filter)
qed

text \<open>A first load whose two answers agree, and one in which a proposal was decided in between.\<close>

definition start_list :: list_state where
  "start_list = \<lparr>nl_store = initProposalsStore, nl_uncertified = None, nl_finished = [], nl_toasts = []\<rparr>"

lemma start_idle: "idle start_list \<lparr>ps_proposals = [], ps_certified = None\<rparr>"
  by (simp add: idle_def start_list_def initProposalsStore_def queuedStore_def)

theorem agreeing_answers_listed_witness:
  "ps_proposals (exposed (nl_store (listProposals QueryAndUpdate
     [(False, Inr [plain_proposal 1]), (True, Inr [plain_proposal 2, plain_proposal 1])] start_list))) =
   [plain_proposal 2, plain_proposal 1]"
proof -
  have "excludeProposals [plain_proposal 1] [plain_proposal 2, plain_proposal 1] = []"
    by (simp add: excludeProposals_filter plain_proposal_def)
  from agreeing_answers_listed [OF start_idle this disjI1 [OF refl]] show ?thesis by simp
qed

theorem differing_answers_lost_witness:
  "ps_proposals (exposed (nl_store (listProposals QueryAndUpdate
     [(False, Inr [plain_proposal 2, plain_proposal 1]), (True, Inr [plain_proposal 2])] start_list))) = []"
proof -
  have e: "excludeProposals [plain_proposal 2, plain_proposal 1] [plain_proposal 2] \<noteq> []"
    by (simp add: excludeProposals_filter plain_proposal_def)
  have n: "\<not> proposalsHaveSameIds [plain_proposal 2, plain_proposal 1] [plain_proposal 2]"
    using proposalsHaveSameIds_iff [of "[plain_proposal 2, plain_proposal 1]" "[plain_proposal 2]"]
    by (simp add: plain_proposal_def)
  have "nl_store start_list = initProposalsStore" by (simp add: start_list_def)
  then show ?thesis
    using differing_answers_lost [OF start_idle e n disjI1 [OF refl] refl] by blast
qed

subsection \<open>One proposal\<close>

text \<open>
  A signed-out user may only query: with another strategy the error is reported as that of a
  last call, and nothing is requested.
\<close>

lemma signed_out_update_reported:
  "strat \<noteq> None \<Longrightarrow> strat \<noteq> Some QueryOnly \<Longrightarrow>
     loadProposal True i False strat settlements events = events @ [ProposalNotFoundToast i, HandleError True]"
  by (simp add: loadProposal_def qau_start_def qau_identity_def proposal_catchError_def isLastCall_def)

text \<open>A proposal that both answers lack is reported once, at the last of them.\<close>

lemma missing_proposal_reported_once:
  "loadProposal False i False None [(False, Inr None), (True, Inr None)] events =
     events @ [HandleError False, ProposalNotFoundToast i, HandleError True]"
  by (simp add: loadProposal_def qau_start_def qau_identity_def proposal_catchError_def proposal_onLoad_def isLastCall_def)

end
