(* ===== verification/AuthSession.thy ===== *)
theory AuthSession
  imports Utils
begin

text \<open>
  The session of the user: stores/auth.store.ts, the messages of services/auth.services.ts, the idle
  worker workers/auth.worker.ts with services/worker-auth.services.ts, the layout routes/+layout.svelte that
  connects them, and the metrics worker workers/metrics.worker.ts, which keeps its interval the same way.
  A worker is a state machine on what reaches it: messages, the ticks of its running intervals and
  the answers it waits for, in any order.
\<close>

subsection \<open>Intervals\<close>

text \<open>iv_live: the intervals that run; iv_timer: the variable timer of the worker.\<close>

record intervals =
  iv_next :: nat
  iv_live :: "nat list"
  iv_timer :: "nat option"

definition set_timer :: "intervals \<Rightarrow> intervals" where
  "set_timer iv = iv\<lparr>iv_next := Suc (iv_next iv), iv_live := iv_live iv @ [iv_next iv], iv_timer := Some (iv_next iv)\<rparr>"

definition clear_timer :: "intervals \<Rightarrow> intervals" where
  "clear_timer iv =
     (case iv_timer iv of
        None \<Rightarrow> iv
      | Some t \<Rightarrow> iv\<lparr>iv_live := filter (\<lambda>i. i \<noteq> t) (iv_live iv), iv_timer := None\<rparr>)"

text \<open>The variable holds the one interval that runs.\<close>

definition one_timer :: "intervals \<Rightarrow> bool" where
  "one_timer iv \<longleftrightarrow> iv_live iv = (case iv_timer iv of None \<Rightarrow> [] | Some t \<Rightarrow> [t])"

lemma one_timer_set: "iv_timer iv = None \<Longrightarrow> one_timer iv \<Longrightarrow> one_timer (set_timer iv)"
  by (simp add: one_timer_def set_timer_def)

lemma one_timer_clear: "one_timer iv \<Longrightarrow> one_timer (clear_timer iv) \<and> iv_live (clear_timer iv) = []"
  by (simp add: one_timer_def clear_timer_def split: option.split)

definition no_intervals :: intervals where
  "no_intervals = \<lparr>iv_next = 0, iv_live = [], iv_timer = None\<rparr>"

subsection \<open>The idle worker\<close>

text \<open>
  What a check finds: whether the client is authenticated, and the delegation chain of the storage, if any, with
  its validity and the expiration, in nanoseconds, of its first delegation.
\<close>

record auth_check =
  ch_auth :: bool
  ch_chain :: "(bool \<times> int option) option"
  ch_now :: int

datatype auth_post = PostSignOut | PostRemainingTime int

datatype auth_message = StartIdleTimer | StopIdleTimer

record auth_worker =
  aw_intervals :: intervals
  aw_pending :: nat
  aw_posts :: "auth_post list"

definition startIdleTimer :: "auth_worker \<Rightarrow> auth_worker" where
  "startIdleTimer s = s\<lparr>aw_intervals := set_timer (aw_intervals s)\<rparr>"

definition stopIdleTimer :: "auth_worker \<Rightarrow> auth_worker" where
  "stopIdleTimer s = s\<lparr>aw_intervals := clear_timer (aw_intervals s)\<rparr>"

fun auth_onmessage :: "auth_message \<Rightarrow> auth_worker \<Rightarrow> auth_worker" where
  "auth_onmessage StartIdleTimer s = startIdleTimer s"
| "auth_onmessage StopIdleTimer s = stopIdleTimer s"

definition checkDelegationChain_valid :: "auth_check \<Rightarrow> bool" where
  "checkDelegationChain_valid c = (case ch_chain c of None \<Rightarrow> False | Some (valid, e) \<Rightarrow> valid)"

text \<open>Both identity and delegation are alright.\<close>

definition session_ok_check :: "auth_check \<Rightarrow> bool" where
  "session_ok_check c \<longleftrightarrow> ch_auth c \<and> checkDelegationChain_valid c"

text \<open>The division of bigints and the time value of a Date both drop the fraction.\<close>

definition emitExpirationTime :: "auth_check \<Rightarrow> auth_post list" where
  "emitExpirationTime c =
     (case Option.bind (ch_chain c) snd of
        None \<Rightarrow> []
      | Some expirationTime \<Rightarrow> [PostRemainingTime (sgn expirationTime * (\<bar>expirationTime\<bar> div 1000000) - ch_now c)])"

definition logout_worker :: "auth_worker \<Rightarrow> auth_worker" where
  "logout_worker s = (let s' = stopIdleTimer s in s'\<lparr>aw_posts := aw_posts s' @ [PostSignOut]\<rparr>)"

text \<open>A tick starts a check; the answers of a check are handled when both are there.\<close>

definition onIdleSignOut_tick :: "nat \<Rightarrow> auth_worker \<Rightarrow> auth_worker" where
  "onIdleSignOut_tick i s = (if i \<in> set (iv_live (aw_intervals s)) then s\<lparr>aw_pending := Suc (aw_pending s)\<rparr> else s)"

definition onIdleSignOut :: "auth_check \<Rightarrow> auth_worker \<Rightarrow> auth_worker" where
  "onIdleSignOut c s =
     (if session_ok_check c then s\<lparr>aw_posts := aw_posts s @ emitExpirationTime c\<rparr> else logout_worker s)"

definition check_settled :: "auth_check \<Rightarrow> auth_worker \<Rightarrow> auth_worker" where
  "check_settled c s = (if aw_pending s = 0 then s else onIdleSignOut c (s\<lparr>aw_pending := aw_pending s - 1\<rparr>))"

subsection \<open>The store and the layout\<close>

text \<open>The identity: None before the first sync, Some None when signed out.\<close>

record auth_client =
  cl_authenticated :: bool
  cl_identity :: string

definition authStore_sync :: "auth_client \<Rightarrow> string option option" where
  "authStore_sync client = Some (if cl_authenticated client then Some (cl_identity client) else None)"

definition authStore_signIn :: "auth_client \<Rightarrow> bool \<Rightarrow> string option option \<Rightarrow> string option option" where
  "authStore_signIn client success identity = (if success then Some (Some (cl_identity client)) else identity)"

definition authStore_signOut :: "string option option \<Rightarrow> string option option" where
  "authStore_signOut identity = Some None"

definition syncAuthIdle :: "string option option \<Rightarrow> auth_message" where
  "syncAuthIdle identity = (if Option.bind identity id = None then StopIdleTimer else StartIdleTimer)"

text \<open>sl_inits counts the calls that load the private data.\<close>

record session_layout =
  sl_identity :: "string option option"
  sl_workerReady :: bool
  sl_ready :: bool
  sl_inits :: nat
  sl_worker :: auth_worker

definition syncAuth :: "session_layout \<Rightarrow> session_layout" where
  "syncAuth s =
     (let s1 = (if sl_workerReady s then s\<lparr>sl_worker := auth_onmessage (syncAuthIdle (sl_identity s)) (sl_worker s)\<rparr> else s)
      in if Option.bind (sl_identity s1) id = None then s1\<lparr>sl_ready := False\<rparr>
         else if sl_ready s1 then s1
         else s1\<lparr>sl_ready := True, sl_inits := Suc (sl_inits s1)\<rparr>)"

datatype session_event = AuthChanged "string option option" | WorkerReady | IdleTick nat | CheckSettled auth_check

fun session_step :: "session_event \<Rightarrow> session_layout \<Rightarrow> session_layout" where
  "session_step (AuthChanged identity) s = syncAuth (s\<lparr>sl_identity := identity\<rparr>)"
| "session_step WorkerReady s = (if sl_workerReady s then s else syncAuth (s\<lparr>sl_workerReady := True\<rparr>))"
| "session_step (IdleTick i) s = s\<lparr>sl_worker := onIdleSignOut_tick i (sl_worker s)\<rparr>"
| "session_step (CheckSettled c) s = s\<lparr>sl_worker := check_settled c (sl_worker s)\<rparr>"

definition session_start :: session_layout where
  "session_start = \<lparr>sl_identity = None, sl_workerReady = False, sl_ready = False, sl_inits = 0,
     sl_worker = \<lparr>aw_intervals = no_intervals, aw_pending = 0, aw_posts = []\<rparr>\<rparr>"

definition session_run :: "session_event list \<Rightarrow> session_layout" where
  "session_run es = fold session_step es session_start"

lemma session_run_snoc: "session_run (es @ [e]) = session_step e (session_run es)"
  by (simp add: session_run_def)

subsection \<open>One interval\<close>

definition signed_in :: "string option option \<Rightarrow> bool" where
  "signed_in identity \<longleftrightarrow> Option.bind identity id \<noteq> None"

text \<open>The store changes from signed out to signed in, or to signed out: never from one identity to another.\<close>

fun alternating :: "bool \<Rightarrow> session_event list \<Rightarrow> bool" where
  "alternating b [] = True"
| "alternating b (AuthChanged identity # es) \<longleftrightarrow> \<not> (b \<and> signed_in identity) \<and> alternating (signed_in identity) es"
| "alternating b (e # es) = alternating b es"

definition sign_ins :: "session_event list \<Rightarrow> nat" where
  "sign_ins es = length (filter (\<lambda>e. case e of AuthChanged identity \<Rightarrow> signed_in identity | _ \<Rightarrow> False) es)"

definition session_inv :: "session_layout \<Rightarrow> bool" where
  "session_inv s \<longleftrightarrow>
     one_timer (aw_intervals (sl_worker s)) \<and> sl_ready s = signed_in (sl_identity s) \<and>
     (iv_timer (aw_intervals (sl_worker s)) \<noteq> None \<longrightarrow> sl_workerReady s \<and> signed_in (sl_identity s)) \<and>
     (sl_workerReady s \<longrightarrow> signed_in (sl_identity s) \<longrightarrow>
        iv_timer (aw_intervals (sl_worker s)) \<noteq> None \<or> PostSignOut \<in> set (aw_posts (sl_worker s)))"

lemma clear_timer_timer: "iv_timer (clear_timer iv) = None"
  by (simp add: clear_timer_def split: option.split)

lemma set_timer_timer: "iv_timer (set_timer iv) = Some (iv_next iv)"
  by (simp add: set_timer_def)

lemmas session_defs = syncAuth_def syncAuthIdle_def startIdleTimer_def stopIdleTimer_def signed_in_def [symmetric] Let_def

text \<open>How a step changes the identity, the count of initialisations and the invariant.\<close>

lemma syncAuth_inv:
  assumes "one_timer (aw_intervals (sl_worker s))"
    and "sl_workerReady s \<Longrightarrow> signed_in (sl_identity s) \<Longrightarrow> iv_timer (aw_intervals (sl_worker s)) = None"
    and "iv_timer (aw_intervals (sl_worker s)) = None \<or> sl_workerReady s"
  shows "session_inv (syncAuth s) \<and> sl_identity (syncAuth s) = sl_identity s \<and> sl_workerReady (syncAuth s) = sl_workerReady s \<and>
     sl_inits (syncAuth s) = sl_inits s + (if signed_in (sl_identity s) \<and> \<not> sl_ready s then 1 else 0)"
proof (cases "signed_in (sl_identity s)")
  case True
  then show ?thesis
    using assms
    by (cases "sl_workerReady s")
      (auto simp: session_inv_def syncAuth_def syncAuthIdle_def signed_in_def startIdleTimer_def Let_def one_timer_set set_timer_timer)
next
  case False
  then show ?thesis
    using assms one_timer_clear [OF assms(1)]
    by (cases "sl_workerReady s")
      (auto simp: session_inv_def syncAuth_def syncAuthIdle_def signed_in_def stopIdleTimer_def Let_def clear_timer_timer)
qed

lemma check_settled_inv:
  "session_inv s \<Longrightarrow> session_inv (s\<lparr>sl_worker := check_settled c (sl_worker s)\<rparr>)"
  using one_timer_clear [of "aw_intervals (sl_worker s)"]
  by (auto simp: session_inv_def check_settled_def onIdleSignOut_def logout_worker_def stopIdleTimer_def Let_def clear_timer_timer)

lemma session_step_inv:
  assumes "session_inv s" "\<And>identity. e = AuthChanged identity \<Longrightarrow> \<not> (signed_in (sl_identity s) \<and> signed_in identity)"
  shows "session_inv (session_step e s) \<and>
     signed_in (sl_identity (session_step e s)) = (case e of AuthChanged identity \<Rightarrow> signed_in identity | _ \<Rightarrow> signed_in (sl_identity s)) \<and>
     sl_inits (session_step e s) = sl_inits s + (case e of AuthChanged identity \<Rightarrow> if signed_in identity then 1 else 0 | _ \<Rightarrow> 0)"
proof (cases e)
  case (AuthChanged identity)
  let ?s = "s\<lparr>sl_identity := identity\<rparr>"
  have timer: "iv_timer (aw_intervals (sl_worker s)) = None" if "signed_in identity"
    using assms(1) assms(2) [OF AuthChanged] that unfolding session_inv_def by blast
  have "session_inv (syncAuth ?s) \<and> sl_identity (syncAuth ?s) = sl_identity ?s \<and> sl_workerReady (syncAuth ?s) = sl_workerReady ?s \<and>
      sl_inits (syncAuth ?s) = sl_inits ?s + (if signed_in (sl_identity ?s) \<and> \<not> sl_ready ?s then 1 else 0)"
    by (rule syncAuth_inv) (use assms(1) timer in \<open>auto simp: session_inv_def\<close>)
  moreover have "signed_in identity \<Longrightarrow> \<not> sl_ready s"
    using assms(1) assms(2) [OF AuthChanged] unfolding session_inv_def by blast
  ultimately show ?thesis using AuthChanged by simp
next
  case WorkerReady
  show ?thesis
  proof (cases "sl_workerReady s")
    case False
    then show ?thesis
      using syncAuth_inv [of "s\<lparr>sl_workerReady := True\<rparr>"] assms(1) WorkerReady by (auto simp: session_inv_def)
  qed (use assms(1) WorkerReady in simp)
next
  case (IdleTick i)
  then show ?thesis using assms(1) by (auto simp: session_inv_def onIdleSignOut_tick_def)
next
  case (CheckSettled c)
  then show ?thesis using assms(1) check_settled_inv by simp
qed

text \<open>C25: In every session in which the store goes from signed out to signed in and back, in any order with
  the start of the worker, the ticks and the answers of the checks: the worker runs at most one interval, the one of
  its variable timer, and none while the user is signed out; while the user is signed in and the
  worker is there it runs one, unless it has already asked for the sign-out; and the private data are loaded once per
  sign-in, although the layout calls syncAuth more often.\<close>

theorem one_idle_timer:
  assumes "alternating False es"
  shows "one_timer (aw_intervals (sl_worker (session_run es))) \<and>
     (\<not> signed_in (sl_identity (session_run es)) \<longrightarrow> iv_live (aw_intervals (sl_worker (session_run es))) = []) \<and>
     (sl_workerReady (session_run es) \<and> signed_in (sl_identity (session_run es)) \<and> PostSignOut \<notin> set (aw_posts (sl_worker (session_run es)))
        \<longrightarrow> length (iv_live (aw_intervals (sl_worker (session_run es)))) = 1) \<and>
     sl_inits (session_run es) = sign_ins es"
proof -
  have run: "session_inv (fold session_step es s) \<and> sl_inits (fold session_step es s) = sl_inits s + sign_ins es"
    if "alternating (signed_in (sl_identity s)) es" "session_inv s" for s es
    using that
  proof (induction es arbitrary: s)
    case (Cons e es)
    have "\<And>identity. e = AuthChanged identity \<Longrightarrow> \<not> (signed_in (sl_identity s) \<and> signed_in identity)"
      using Cons.prems(1) by auto
    note step = session_step_inv [where e = e, OF Cons.prems(2) this]
    have "alternating (case e of AuthChanged identity \<Rightarrow> signed_in identity | _ \<Rightarrow> signed_in (sl_identity s)) es"
      using Cons.prems(1) by (cases e) simp_all
    then have "alternating (signed_in (sl_identity (session_step e s))) es"
      using step by metis
    from Cons.IH [OF this] step show ?case
      by (cases e) (auto simp: sign_ins_def)
  qed (simp add: sign_ins_def)
  have "session_inv session_start"
    by (simp add: session_inv_def session_start_def one_timer_def no_intervals_def signed_in_def)
  then have "session_inv (session_run es) \<and> sl_inits (session_run es) = sign_ins es"
    using run [of session_start es] assms by (simp add: session_run_def session_start_def signed_in_def)
  then show ?thesis
    by (auto simp: session_inv_def one_timer_def split: option.splits)
qed

theorem one_idle_timer_witness:
  "length (iv_live (aw_intervals (sl_worker (session_run [WorkerReady, AuthChanged (Some None), AuthChanged (Some (Some ''me''))])))) = 1"
proof -
  let ?es = "[WorkerReady, AuthChanged (Some None), AuthChanged (Some (Some ''me''))]"
  have "alternating False ?es" by (simp add: signed_in_def)
  note t = one_idle_timer [OF this]
  have "sl_workerReady (session_run ?es)" "signed_in (sl_identity (session_run ?es))"
    "aw_posts (sl_worker (session_run ?es)) = []"
    by (simp_all add: session_run_def session_start_def syncAuth_def syncAuthIdle_def startIdleTimer_def stopIdleTimer_def signed_in_def)
  with t show ?thesis by simp
qed

subsection \<open>Signing out\<close>

text \<open>The checks that were awaited and found the session expired.\<close>

fun expired_checks :: "session_event list \<Rightarrow> session_layout \<Rightarrow> nat" where
  "expired_checks [] s = 0"
| "expired_checks (e # es) s =
     (case e of CheckSettled c \<Rightarrow> if aw_pending (sl_worker s) > 0 \<and> \<not> session_ok_check c then 1 else 0 | _ \<Rightarrow> 0) +
     expired_checks es (session_step e s)"

definition sign_outs :: "session_layout \<Rightarrow> nat" where
  "sign_outs s = length (filter (\<lambda>p. p = PostSignOut) (aw_posts (sl_worker s)))"

lemma worker_posts_kept:
  "sign_outs (syncAuth s) = sign_outs s" "aw_pending (sl_worker (syncAuth s)) = aw_pending (sl_worker s)"
  by (simp_all add: syncAuth_def syncAuthIdle_def startIdleTimer_def stopIdleTimer_def Let_def sign_outs_def)

lemma expiration_posts: "filter (\<lambda>p. p = PostSignOut) (emitExpirationTime c) = []"
  by (simp add: emitExpirationTime_def split: option.split)

text \<open>The worker asks for the sign-out exactly once for each check that found the session expired, that is no
  authenticated identity, or no valid delegation, and never while every check finds it valid, whatever the order of
  the events; a check starts only on a tick of an interval that runs.\<close>

lemma signs_out_only_when_expired:
  "sign_outs (session_run es) = expired_checks es session_start \<and>
   ((\<forall>c. CheckSettled c \<in> set es \<longrightarrow> session_ok_check c) \<longrightarrow> PostSignOut \<notin> set (aw_posts (sl_worker (session_run es))))"
proof -
  have count: "sign_outs (fold session_step es s) = sign_outs s + expired_checks es s" for s es
  proof (induction es arbitrary: s)
    case (Cons e es)
    have "sign_outs (session_step e s) = sign_outs s +
        (case e of CheckSettled c \<Rightarrow> if aw_pending (sl_worker s) > 0 \<and> \<not> session_ok_check c then 1 else 0 | _ \<Rightarrow> 0)"
      by (cases e) (auto simp: worker_posts_kept sign_outs_def onIdleSignOut_tick_def check_settled_def onIdleSignOut_def
          logout_worker_def stopIdleTimer_def expiration_posts syncAuth_def syncAuthIdle_def startIdleTimer_def Let_def)
    then show ?case by (simp add: Cons.IH)
  qed simp
  have none: "expired_checks es s = 0" if "\<forall>c. CheckSettled c \<in> set es \<longrightarrow> session_ok_check c" for s es
    using that by (induction es arbitrary: s) (auto split: session_event.splits)
  have "sign_outs (session_run es) = expired_checks es session_start"
    using count [of es session_start] by (simp add: session_run_def sign_outs_def session_start_def)
  with none show ?thesis by (auto simp: sign_outs_def filter_empty_conv)
qed

lemma signs_out_only_when_expired_witness:
  "PostSignOut \<notin> set (aw_posts (sl_worker (session_run
     [WorkerReady, AuthChanged (Some (Some ''me'')), IdleTick 0,
      CheckSettled \<lparr>ch_auth = True, ch_chain = Some (True, Some 2000000000), ch_now = 1500\<rparr>])))"
  using signs_out_only_when_expired [of "[WorkerReady, AuthChanged (Some (Some ''me'')), IdleTick 0,
      CheckSettled \<lparr>ch_auth = True, ch_chain = Some (True, Some 2000000000), ch_now = 1500\<rparr>]"]
  by (simp add: session_ok_check_def checkDelegationChain_valid_def)

text \<open>
  startIdleTimer does not look at timer: a second message to start, without one to stop in between, leaves an
  interval behind that no message can stop, and every tick of it, after the session expired, asks for the sign-out again.
\<close>

lemma second_start_leaves_interval:
  assumes "aw_intervals s = no_intervals" and "\<not> session_ok_check c" and "aw_pending s = 0"
  defines "left \<equiv> stopIdleTimer (startIdleTimer (startIdleTimer s))"
  shows "iv_live (aw_intervals left) = [0] \<and>
     aw_posts (((\<lambda>w. check_settled c (onIdleSignOut_tick 0 w)) ^^ n) left) = aw_posts s @ replicate n PostSignOut"
proof -
  have left: "iv_live (aw_intervals left) = [0]" "iv_timer (aw_intervals left) = None" "aw_posts left = aw_posts s" "aw_pending left = 0"
    using assms(1,3) by (simp_all add: left_def startIdleTimer_def stopIdleTimer_def set_timer_def clear_timer_def no_intervals_def)
  have "iv_live (aw_intervals w') = [0] \<and> iv_timer (aw_intervals w') = None \<and> aw_pending w' = 0 \<and> aw_posts w' = aw_posts s @ replicate n PostSignOut"
    if "w' = ((\<lambda>w. check_settled c (onIdleSignOut_tick 0 w)) ^^ n) left" for w' n
    using that
  proof (induction n arbitrary: w')
    case 0
    with left show ?case by simp
  next
    case (Suc n)
    from Suc.IH [OF refl] show ?case
      unfolding Suc.prems using assms(2)
      by (simp add: onIdleSignOut_tick_def check_settled_def onIdleSignOut_def logout_worker_def stopIdleTimer_def
          clear_timer_def Let_def replicate_append_same [symmetric])
  qed
  with left show ?thesis by blast
qed

subsection \<open>The metrics worker\<close>

text \<open>
  mw_waiting: the starts whose first synchronisation is over and which have not yet set the timer; mw_starter:
  whether the synchronisation in progress is the first one of a start.
\<close>

record metrics_worker =
  mw_intervals :: intervals
  mw_syncInProgress :: bool
  mw_starter :: bool
  mw_waiting :: nat
  mw_posts :: nat

definition startMetricsTimer :: "metrics_worker \<Rightarrow> metrics_worker" where
  "startMetricsTimer s =
     (if iv_timer (mw_intervals s) \<noteq> None then s
      else if mw_syncInProgress s then s\<lparr>mw_waiting := Suc (mw_waiting s)\<rparr>
      else s\<lparr>mw_syncInProgress := True, mw_starter := True\<rparr>)"

definition startMetricsTimer_continues :: "metrics_worker \<Rightarrow> metrics_worker" where
  "startMetricsTimer_continues s =
     (if mw_waiting s = 0 then s
      else s\<lparr>mw_waiting := mw_waiting s - 1, mw_intervals := set_timer (mw_intervals s)\<rparr>)"

definition stopMetricsTimer :: "metrics_worker \<Rightarrow> metrics_worker" where
  "stopMetricsTimer s = s\<lparr>mw_intervals := clear_timer (mw_intervals s)\<rparr>"

definition metrics_tick :: "nat \<Rightarrow> metrics_worker \<Rightarrow> metrics_worker" where
  "metrics_tick i s =
     (if i \<notin> set (iv_live (mw_intervals s)) \<or> mw_syncInProgress s then s
      else s\<lparr>mw_syncInProgress := True, mw_starter := False\<rparr>)"

text \<open>The requests answered, or one of them failed, which is silenced.\<close>

definition syncMetrics_settled :: "bool \<Rightarrow> metrics_worker \<Rightarrow> metrics_worker" where
  "syncMetrics_settled ok s =
     (if \<not> mw_syncInProgress s then s
      else s\<lparr>mw_syncInProgress := False, mw_starter := False, mw_waiting := mw_waiting s + (if mw_starter s then 1 else 0),
             mw_posts := mw_posts s + (if ok then 1 else 0)\<rparr>)"

text \<open>
  The guard on the timer does not help while the first synchronisation runs: the second start finds it in
  progress, goes on at once and sets an interval, which the first start then forgets; stopping clears only
  the last one.  And a stop before the first synchronisation is over has no effect.
\<close>

lemma metrics_starts_race:
  assumes "mw_intervals s = no_intervals" "\<not> mw_syncInProgress s" "mw_waiting s = 0"
  shows "iv_live (mw_intervals (stopMetricsTimer (startMetricsTimer_continues (syncMetrics_settled ok
            (startMetricsTimer_continues (startMetricsTimer (startMetricsTimer s))))))) = [0]"
    "iv_live (mw_intervals (startMetricsTimer_continues (syncMetrics_settled ok (stopMetricsTimer (startMetricsTimer s))))) = [0]"
  using assms
  by (simp_all add: startMetricsTimer_def startMetricsTimer_continues_def syncMetrics_settled_def stopMetricsTimer_def
      set_timer_def clear_timer_def no_intervals_def)

subsection \<open>The message of a sign-out\<close>

text \<open>
  The query parameters of the address of the page, in their order; get reads the first of a name.  The label keys have no
  character that encodeURI changes.
\<close>

definition appendMsgToUrl :: "string \<Rightarrow> string \<Rightarrow> (string \<times> string) list \<Rightarrow> (string \<times> string) list" where
  "appendMsgToUrl labelKey level params = params @ [(''msg'', labelKey), (''level'', level)]"

definition cleanUpMsgUrl :: "(string \<times> string) list \<Rightarrow> (string \<times> string) list" where
  "cleanUpMsgUrl params = filter (\<lambda>(k, _). k \<noteq> ''msg'' \<and> k \<noteq> ''level'') params"

definition displayAndCleanLogoutMsg :: "(string \<times> string) list \<Rightarrow> (string \<times> string) option \<times> (string \<times> string) list" where
  "displayAndCleanLogoutMsg params =
     (case map_of params ''msg'' of
        None \<Rightarrow> (None, params)
      | Some msg \<Rightarrow> (Some (msg, nullish_or (map_of params ''level'') ''success''), cleanUpMsgUrl params))"

text \<open>
  On an address without parameters of these names the message is shown with its level, and the
  address is left as it was; a message that is already in the address is shown in its place.
\<close>

lemma logout_message_shown:
  "''msg'' \<notin> fst ` set params \<Longrightarrow> ''level'' \<notin> fst ` set params \<Longrightarrow>
     displayAndCleanLogoutMsg (appendMsgToUrl labelKey level params) = (Some (labelKey, level), params)"
  "map_of params ''msg'' = Some other \<Longrightarrow>
     \<exists>l. fst (displayAndCleanLogoutMsg (appendMsgToUrl labelKey level params)) = Some (other, l)"
proof -
  assume none: "''msg'' \<notin> fst ` set params" "''level'' \<notin> fst ` set params"
  then have "map_of params ''msg'' = None" "map_of params ''level'' = None" by (simp_all add: map_of_eq_None_iff)
  moreover have "cleanUpMsgUrl params = params"
    using none by (force simp: cleanUpMsgUrl_def filter_id_conv)
  ultimately show "displayAndCleanLogoutMsg (appendMsgToUrl labelKey level params) = (Some (labelKey, level), params)"
    by (simp add: displayAndCleanLogoutMsg_def appendMsgToUrl_def cleanUpMsgUrl_def map_add_def)
next
  assume "map_of params ''msg'' = Some other"
  then show "\<exists>l. fst (displayAndCleanLogoutMsg (appendMsgToUrl labelKey level params)) = Some (other, l)"
    by (simp add: displayAndCleanLogoutMsg_def appendMsgToUrl_def map_add_def)
qed

end
