(* ===== verification/Staking.thy ===== *)
theory Staking
  imports NnsNeurons SnsNeurons Tokens SnsAggregator
begin

text \<open>
  The table of the projects of the staking page: utils/staking.utils.ts.  Universes are those of the NNS and of the
  SNS projects; a universe of a project has a summary with a token.
\<close>

record staking_universe =
  uv_canisterId :: string
  uv_token :: "Token option"
  uv_title :: string
  uv_logo :: string

text \<open>The aggregates of a list of neurons; all absent when the neurons are not loaded.\<close>

record neuron_aggregate =
  na_neuronCount :: "nat option"
  na_stake :: "int option"
  na_availableMaturity :: "int option"
  na_stakedMaturity :: "int option"

definition no_aggregate :: neuron_aggregate where
  "no_aggregate = \<lparr>na_neuronCount = None, na_stake = None, na_availableMaturity = None, na_stakedMaturity = None\<rparr>"

definition getNnsNeuronAggregateInfo :: "NeuronInfo list option \<Rightarrow> neuron_aggregate" where
  "getNnsNeuronAggregateInfo nnsNeurons =
     (let neurons = map_option (filter hasValidStake) nnsNeurons
      in \<lparr>na_neuronCount = map_option length neurons,
          na_stake = map_option (foldl (\<lambda>acc neuron. acc + neuronStake neuron) 0) neurons,
          na_availableMaturity = map_option (foldl (\<lambda>acc neuron. acc + neuronAvailableMaturity neuron) 0) neurons,
          na_stakedMaturity = map_option (foldl (\<lambda>acc neuron. acc + neuronStakedMaturity neuron) 0) neurons\<rparr>)"

definition getSnsNeuronAggregateInfo :: "staking_universe \<Rightarrow> (string \<rightharpoonup> SnsNeuron list) \<Rightarrow> neuron_aggregate" where
  "getSnsNeuronAggregateInfo universe snsNeurons =
     (let neurons = map_option (filter hasValidStake_sns) (snsNeurons (uv_canisterId universe))
      in \<lparr>na_neuronCount = map_option length neurons,
          na_stake = map_option (foldl (\<lambda>acc neuron. acc + getSnsNeuronStake neuron) 0) neurons,
          na_availableMaturity = map_option (foldl (\<lambda>acc neuron. acc + getSnsNeuronAvailableMaturity neuron) 0) neurons,
          na_stakedMaturity = map_option (foldl (\<lambda>acc neuron. acc + getSnsNeuronStakedMaturity neuron) 0) neurons\<rparr>)"

datatype table_stake = UnavailableStake Token | StakeAmount TokenAmount

record TableProject =
  tp_rowHref :: "string option"
  tp_domKey :: string
  tp_universeId :: string
  tp_title :: string
  tp_logo :: string
  tp_tokenSymbol :: string
  tp_neuronCount :: "nat option"
  tp_stake :: table_stake
  tp_availableMaturity :: "int option"
  tp_stakedMaturity :: "int option"

record staking_env =
  st_ownCanisterId :: string
  st_icpToken :: Token
  st_neuronsUrl :: "string \<Rightarrow> string"

definition getNeuronAggregateInfo ::
  "staking_env \<Rightarrow> bool \<Rightarrow> staking_universe \<Rightarrow> Token \<Rightarrow> NeuronInfo list option \<Rightarrow> (string \<rightharpoonup> SnsNeuron list)
     \<Rightarrow> table_stake \<times> neuron_aggregate" where
  "getNeuronAggregateInfo env isSignedIn universe token nnsNeurons snsNeurons =
     (if \<not> isSignedIn then (UnavailableStake token, no_aggregate)
      else
        (let info = (if uv_canisterId universe = st_ownCanisterId env then getNnsNeuronAggregateInfo nnsNeurons
                     else getSnsNeuronAggregateInfo universe snsNeurons)
         in (case na_stake info of
               None \<Rightarrow> UnavailableStake token
             | Some stake \<Rightarrow> StakeAmount \<lparr>ta_ulps = stake, ta_token = token\<rparr>, info)))"

text \<open>None: asNonNullish throws for a project without a summary.\<close>

definition table_project ::
  "staking_env \<Rightarrow> bool \<Rightarrow> NeuronInfo list option \<Rightarrow> (string \<rightharpoonup> SnsNeuron list) \<Rightarrow> staking_universe \<Rightarrow> TableProject option" where
  "table_project env isSignedIn nnsNeurons snsNeurons universe =
     map_option (\<lambda>token.
       let (stake, info) = getNeuronAggregateInfo env isSignedIn universe token nnsNeurons snsNeurons;
           rowHref = (case na_neuronCount info of
              None \<Rightarrow> None | Some neuronCount \<Rightarrow> if neuronCount > 0 then Some (st_neuronsUrl env (uv_canisterId universe)) else None)
       in \<lparr>tp_rowHref = rowHref, tp_domKey = uv_canisterId universe, tp_universeId = uv_canisterId universe,
           tp_title = uv_title universe, tp_logo = uv_logo universe,
           tp_tokenSymbol = token_symbol token, tp_neuronCount = na_neuronCount info, tp_stake = stake,
           tp_availableMaturity = na_availableMaturity info, tp_stakedMaturity = na_stakedMaturity info\<rparr>)
       (if uv_canisterId universe = st_ownCanisterId env then Some (st_icpToken env) else uv_token universe)"

fun getTableProjects ::
  "staking_env \<Rightarrow> bool \<Rightarrow> NeuronInfo list option \<Rightarrow> (string \<rightharpoonup> SnsNeuron list) \<Rightarrow> staking_universe list \<Rightarrow> TableProject list option" where
  "getTableProjects env isSignedIn nnsNeurons snsNeurons [] = Some []"
| "getTableProjects env isSignedIn nnsNeurons snsNeurons (u # us) =
     (case table_project env isSignedIn nnsNeurons snsNeurons u of
        None \<Rightarrow> None
      | Some p \<Rightarrow> map_option (\<lambda>ps. p # ps) (getTableProjects env isSignedIn nnsNeurons snsNeurons us))"

definition compareIcpFirst :: "staking_env \<Rightarrow> TableProject comparator_fun" where
  "compareIcpFirst env = createDescendingComparator (\<lambda>project. tp_universeId project = st_ownCanisterId env)"

definition comparePositiveNeuronsFirst :: "TableProject comparator_fun" where
  "comparePositiveNeuronsFirst = createDescendingComparator (\<lambda>project. nullish_or (tp_neuronCount project) 0 > 0)"

definition compareByProjectTitle :: "TableProject comparator_fun" where
  "compareByProjectTitle = createAscendingComparator (\<lambda>project. toLowerCase (tp_title project))"

definition sortTableProjects :: "staking_env \<Rightarrow> TableProject list \<Rightarrow> TableProject list" where
  "sortTableProjects env projects =
     js_sort (mergeComparators [compareIcpFirst env, comparePositiveNeuronsFirst, compareByProjectTitle]) projects"

subsection \<open>The order of the table\<close>

interpretation table_projects: comparator "mergeComparators [compareIcpFirst env, comparePositiveNeuronsFirst, compareByProjectTitle]"
  for env :: staking_env
  by (rule comparator_merge)
    (auto simp: compareIcpFirst_def comparePositiveNeuronsFirst_def compareByProjectTitle_def
      intro: descending.comparator_axioms ascending.comparator_axioms)

definition is_icp :: "staking_env \<Rightarrow> TableProject \<Rightarrow> bool" where
  "is_icp env p \<longleftrightarrow> tp_universeId p = st_ownCanisterId env"

definition has_neurons :: "TableProject \<Rightarrow> bool" where
  "has_neurons p \<longleftrightarrow> nullish_or (tp_neuronCount p) 0 > 0"

lemma table_less:
  "mergeComparators [compareIcpFirst env, comparePositiveNeuronsFirst, compareByProjectTitle] a b < 0 \<longleftrightarrow>
     (is_icp env a \<and> \<not> is_icp env b) \<or> (is_icp env a = is_icp env b \<and>
       ((has_neurons a \<and> \<not> has_neurons b) \<or> (has_neurons a = has_neurons b \<and> toLowerCase (tp_title a) < toLowerCase (tp_title b))))"
  by (auto simp: compareIcpFirst_def comparePositiveNeuronsFirst_def compareByProjectTitle_def desc_sign asc_sign
      is_icp_def has_neurons_def)

lemma sorted_before:
  assumes "sortTableProjects env ps = xs @ a # ys" "b \<in> set ys"
  shows "\<not> mergeComparators [compareIcpFirst env, comparePositiveNeuronsFirst, compareByProjectTitle] b a < 0"
  using table_projects.sorted_js_sort [of env ps] assms
  by (auto simp: sortTableProjects_def cmp_sorted_def sorted_wrt_append)

text \<open>The characters of the titles of projects that were not renamed.\<close>

definition ascii :: "string \<Rightarrow> bool" where
  "ascii s \<longleftrightarrow> (\<forall>c\<in>set s. (of_char c :: nat) < 128)"

lemma lower_ascii: "ascii s \<Longrightarrow> ascii (toLowerCase s)"
  by (auto simp: ascii_def toLowerCase_def Let_def)

lemma ascii_before_hidden:
  assumes "ascii s"
  shows "toLowerCase s < toLowerCase (char_of (226 :: nat) # rest)"
proof -
  have r: "toLowerCase (char_of (226 :: nat) # rest) = char_of (226 :: nat) # toLowerCase rest"
    by (simp add: toLowerCase_def Let_def)
  show ?thesis
  proof (cases "toLowerCase s")
    case Nil
    then show ?thesis by (simp add: r)
  next
    case (Cons c cs)
    then have "(of_char c :: nat) < 128" using lower_ascii [OF assms] by (simp add: ascii_def)
    then have "c < char_of (226 :: nat)" by (simp add: less_char_def)
    with Cons show ?thesis by (simp add: r)
  qed
qed

text \<open>
  The titles of abandoned projects start with a zero-width space, whose bytes compare as greater than any ASCII
  character: such a project comes after every project with an ASCII title that is like it the ICP row or not
  and has neurons or not, so also after all of those without neurons.
\<close>

lemma hidden_title:
  "title = hiddenCharacterToPushSnsToEndOfList @ rest \<Longrightarrow> \<exists>tl. title = char_of (226 :: nat) # tl"
  by (simp add: hiddenCharacterToPushSnsToEndOfList_def)

lemma abandoned_projects_last:
  assumes "sortTableProjects env ps = xs @ a # ys" "b \<in> set ys"
    and "tp_title a = hiddenCharacterToPushSnsToEndOfList @ rest" "is_icp env a = is_icp env b" "ascii (tp_title b)"
  shows "has_neurons a \<and> \<not> has_neurons b"
proof -
  obtain tl where "tp_title a = char_of (226 :: nat) # tl" using hidden_title [OF assms(3)] by blast
  with ascii_before_hidden [OF assms(5), of tl] have "toLowerCase (tp_title b) < toLowerCase (tp_title a)" by simp
  with sorted_before [OF assms(1,2)] assms(4) show ?thesis unfolding table_less by blast
qed

text \<open>The table has a row for each universe, in the order given, and the sorted table the same rows.\<close>

lemma table_has_every_universe:
  "getTableProjects env signedIn nns sns us = Some ps \<Longrightarrow> map tp_universeId ps = map uv_canisterId us"
  by (induction us arbitrary: ps) (auto simp: table_project_def Let_def split: option.splits prod.splits)

lemma table_needs_summaries:
  "getTableProjects env signedIn nns sns us = None \<longleftrightarrow> (\<exists>u\<in>set us. uv_canisterId u \<noteq> st_ownCanisterId env \<and> uv_token u = None)"
  by (induction us) (auto simp: table_project_def split: option.splits)

text \<open>The stake of a project is the sum over its neurons with a valid stake, and nothing is shown to nobody.\<close>

lemma foldl_sum: "foldl (\<lambda>acc x. acc + f x) (a :: int) xs = a + sum_list (map f xs)"
  by (induction xs arbitrary: a) simp_all

lemma table_stake_of_project:
  assumes "table_project env signedIn nns sns u = Some p" "uv_canisterId u \<noteq> st_ownCanisterId env"
  shows "tp_stake p =
     (case (if signedIn then sns (uv_canisterId u) else None) of
        None \<Rightarrow> UnavailableStake (the (uv_token u))
      | Some neurons \<Rightarrow> StakeAmount \<lparr>ta_ulps = sum_list (map getSnsNeuronStake (filter hasValidStake_sns neurons)), ta_token = the (uv_token u)\<rparr>)"
  using assms by (auto simp: table_project_def getNeuronAggregateInfo_def getSnsNeuronAggregateInfo_def foldl_sum no_aggregate_def
      Let_def split: option.splits)

end
