(* ===== verification/IcrcAccounts.thy ===== *)
theory IcrcAccounts
  imports ImportedTokens SnsAggregator Transactions
begin

text \<open>
  The tokens and the accounts of the ICRC ledgers: services/icrc-accounts.services.ts and
  services/sns-accounts.services.ts, with stores/tokens.store.ts, stores/icrc-accounts.store.ts and
  utils/sns-ledger.utils.ts.  The ledgers are functions of a world that may change it, may answer anything and
  are given whether the call is certified; every call is logged with its answer.  An object keyed by ledgers
  is a map.  The effects run to the end of both calls of queryAndUpdate, in either order of the two answers.
\<close>

subsection \<open>Errors\<close>

datatype ledger_transfer_error =
    GenericTransferError string
  | TransferUnavailable
  | TransferDuplicate
  | TransferBadFee
  | TransferCreatedInFuture
  | TransferTooOld
  | TransferInsufficientFunds
  | OtherTransferError string

datatype ledger_failure = IcrcTransferError ledger_transfer_error | OtherLedgerFailure string

datatype icrc_error = IcrcPending | IcrcFailed ledger_failure

text \<open>toToastError: the message of the error when it has a translation, else the fallback, with the error.\<close>

definition message_toast :: "(string \<Rightarrow> bool) \<Rightarrow> string \<Rightarrow> string \<Rightarrow> string \<times> string option" where
  "message_toast translated fallback message = (if translated message then (message, None) else (fallback, Some message))"

fun ledgerErrorToToastError_icrc :: "(string \<Rightarrow> bool) \<Rightarrow> string \<Rightarrow> ledger_failure \<Rightarrow> string \<times> string option" where
  "ledgerErrorToToastError_icrc translated fallback (IcrcTransferError err) =
     (case err of
        GenericTransferError message \<Rightarrow> (''error.transaction_error'', Some message)
      | TransferUnavailable \<Rightarrow> (''error__sns.ledger_temporarily_unavailable'', None)
      | TransferDuplicate \<Rightarrow> (''error__sns.ledger_duplicate'', None)
      | TransferBadFee \<Rightarrow> (''error__sns.ledger_bad_fee'', None)
      | TransferCreatedInFuture \<Rightarrow> (''error__sns.ledger_created_future'', None)
      | TransferTooOld \<Rightarrow> (''error__sns.ledger_too_old'', None)
      | TransferInsufficientFunds \<Rightarrow> (''error__sns.ledger_insufficient_funds'', None)
      | OtherTransferError message \<Rightarrow> message_toast translated fallback message)"
| "ledgerErrorToToastError_icrc translated fallback (OtherLedgerFailure message) = message_toast translated fallback message"

fun failure_message :: "ledger_failure \<Rightarrow> string" where
  "failure_message (OtherLedgerFailure message) = message"
| "failure_message (IcrcTransferError (GenericTransferError message)) = message"
| "failure_message (IcrcTransferError (OtherTransferError message)) = message"
| "failure_message _ = []"

subsection \<open>Stores\<close>

record TokensStoreUniverseData =
  tu_token :: icrc_token
  tu_certified :: "bool option"

type_synonym TokensStoreData = "string \<rightharpoonup> TokensStoreUniverseData"

definition setToken :: "string \<Rightarrow> bool option \<Rightarrow> icrc_token \<Rightarrow> TokensStoreData \<Rightarrow> TokensStoreData" where
  "setToken canisterId certified token state = state(canisterId \<mapsto> \<lparr>tu_token = token, tu_certified = certified\<rparr>)"

definition setTokens_store :: "TokensStoreData \<Rightarrow> TokensStoreData \<Rightarrow> TokensStoreData" where
  "setTokens_store data state = state ++ data"

definition resetUniverse_tokens :: "string \<Rightarrow> TokensStoreData \<Rightarrow> TokensStoreData" where
  "resetUniverse_tokens canisterId currentState = currentState(canisterId := None)"

record IcrcAccounts =
  ics_accounts :: "Account list"
  ics_certified :: "bool option"

type_synonym IcrcAccountStoreData = "string \<rightharpoonup> IcrcAccounts"

definition set_icrcAccounts :: "string \<Rightarrow> IcrcAccounts \<Rightarrow> IcrcAccountStoreData \<Rightarrow> IcrcAccountStoreData" where
  "set_icrcAccounts ledgerCanisterId accounts currentState = currentState(ledgerCanisterId \<mapsto> accounts)"

definition update_icrcAccounts :: "string \<Rightarrow> IcrcAccounts \<Rightarrow> IcrcAccountStoreData \<Rightarrow> IcrcAccountStoreData" where
  "update_icrcAccounts ledgerCanisterId new currentState =
     currentState(ledgerCanisterId \<mapsto>
       \<lparr>ics_accounts =
          filter (\<lambda>a. find (\<lambda>b. ac_identifier a = ac_identifier b) (ics_accounts new) = None)
            (case currentState ledgerCanisterId of None \<Rightarrow> [] | Some entry \<Rightarrow> ics_accounts entry)
          @ ics_accounts new,
        ics_certified = ics_certified new\<rparr>)"

definition resetUniverse_icrcAccounts :: "string \<Rightarrow> IcrcAccountStoreData \<Rightarrow> IcrcAccountStoreData" where
  "resetUniverse_icrcAccounts ledgerCanisterId currentState = currentState(ledgerCanisterId := None)"

subsection \<open>The ledgers and the state\<close>

datatype icrc_call =
    CallIcrcBalance string string bool "ledger_failure + int"
  | CallIcrcToken string bool "ledger_failure + icrc_token"
  | CallIcrcTransfer string string "string \<times> nat list option" "nat list option" int int "ledger_failure + nat"

record 'w icrc_state =
  ic_world :: 'w
  ic_calls :: "icrc_call list"
  ic_tokens :: TokensStoreData
  ic_accounts :: IcrcAccountStoreData
  ic_transactions :: IcrcTransactionsStoreData
  ic_imported :: ImportedTokensStore
  ic_failed :: "string list"
  ic_toasts :: "(string \<times> string option) list"

text \<open>
  ia_user: the principal of the session, None when nobody is signed in; ia_forceQuery: FORCE_CALL_STRATEGY is
  "query" and not undefined; ia_updateFirst: the update call settles first; ia_encode and ia_decode:
  encodeIcrcAccount of the main account of a principal, and decodeIcrcAccount, which throws.
\<close>

record 'w icrc_env =
  ia_user :: "string option"
  ia_forceQuery :: bool
  ia_updateFirst :: bool
  ia_balance :: "string \<Rightarrow> string \<Rightarrow> bool \<Rightarrow> 'w \<Rightarrow> (ledger_failure + int) \<times> 'w"
  ia_token :: "string \<Rightarrow> bool \<Rightarrow> 'w \<Rightarrow> (ledger_failure + icrc_token) \<times> 'w"
  ia_transfer :: "string \<Rightarrow> string \<Rightarrow> string \<times> nat list option \<Rightarrow> nat list option \<Rightarrow> int \<Rightarrow> int \<Rightarrow> 'w
                    \<Rightarrow> (ledger_failure + nat) \<times> 'w"
  ia_encode :: "string \<Rightarrow> string"
  ia_decode :: "string \<Rightarrow> ledger_failure + string \<times> nat list option"
  ia_snsTokens :: "string set"
  ia_snsLedgers :: "string \<rightharpoonup> string"
  ia_translated :: "string \<Rightarrow> bool"

type_synonym ('w, 'a) ic = "('w icrc_state, icrc_error, 'a) effect"

definition call_ic ::
  "('w \<Rightarrow> (ledger_failure + 'a) \<times> 'w) \<Rightarrow> (ledger_failure + 'a \<Rightarrow> icrc_call) \<Rightarrow> ('w, 'a) ic" where
  "call_ic f entry s =
     (case f (ic_world s) of
        (r, w) \<Rightarrow> (map_sum IcrcFailed id r, s\<lparr>ic_world := w, ic_calls := ic_calls s @ [entry r]\<rparr>))"

definition toast_ic :: "string \<times> string option \<Rightarrow> 'w icrc_state \<Rightarrow> 'w icrc_state" where
  "toast_ic toast s = s\<lparr>ic_toasts := ic_toasts s @ [toast]\<rparr>"

definition forceCallStrategy :: "'w icrc_env \<Rightarrow> QueryAndUpdateStrategy option" where
  "forceCallStrategy env = (if ia_forceQuery env then Some QueryOnly else None)"

definition call_order :: "'w icrc_env \<Rightarrow> QueryAndUpdateStrategy \<Rightarrow> bool list" where
  "call_order env strat = (if ia_updateFirst env then rev (qau_requests strat) else qau_requests strat)"

text \<open>try/catch: a promise that stays pending does not reach the handler.\<close>

definition catch_ic :: "('w, 'a) ic \<Rightarrow> (ledger_failure \<Rightarrow> ('w, 'a) ic) \<Rightarrow> ('w, 'a) ic" where
  "catch_ic m h = catchE m (\<lambda>e. case e of IcrcPending \<Rightarrow> throwE IcrcPending | IcrcFailed err \<Rightarrow> h err)"

definition fails_already :: "string \<Rightarrow> 'w icrc_state \<Rightarrow> bool" where
  "fails_already ledgerCanisterId s \<longleftrightarrow>
     ledgerCanisterId \<in> set (failedExistentImportedTokenLedgerIdsStore (ic_imported s) (ic_failed s))"

text \<open>An imported token that fails is marked, and an error is shown for the other ones.\<close>

definition mark_or_toast :: "string \<Rightarrow> string \<times> string option \<Rightarrow> 'w icrc_state \<Rightarrow> 'w icrc_state" where
  "mark_or_toast ledgerCanisterId toast s =
     (if isImportedToken (Some ledgerCanisterId) (is_importedTokens (ic_imported s))
      then s\<lparr>ic_failed := failedLedgerIds_add ledgerCanisterId (ic_failed s)\<rparr>
      else toast_ic toast s)"

subsection \<open>Services\<close>

definition token_onError :: "string \<Rightarrow> bool \<Rightarrow> QueryAndUpdateStrategy \<Rightarrow> icrc_error \<Rightarrow> 'w icrc_state \<Rightarrow> 'w icrc_state" where
  "token_onError ledgerCanisterId certified strat err s =
     (if \<not> isLastCall strat certified then s
      else (let s' = mark_or_toast ledgerCanisterId
                       (''error.token_not_found'', case err of IcrcFailed e \<Rightarrow> Some (failure_message e) | IcrcPending \<Rightarrow> None) s
            in s'\<lparr>ic_tokens := resetUniverse_tokens ledgerCanisterId (ic_tokens s')\<rparr>))"

text \<open>Whether the ledger is asked for its token, and the calls: the anonymous identity only sends the query call.\<close>

definition token_wanted :: "'w icrc_env \<Rightarrow> string \<Rightarrow> bool \<Rightarrow> 'w icrc_state \<Rightarrow> bool" where
  "token_wanted env ledgerCanisterId certified s \<longleftrightarrow>
     ledgerCanisterId \<notin> ia_snsTokens env \<and> \<not> fails_already ledgerCanisterId s \<and>
     \<not> (case ic_tokens s ledgerCanisterId of
          None \<Rightarrow> False | Some currentToken \<Rightarrow> tu_certified currentToken = Some True \<or> \<not> certified)"

definition token_onLoad :: "string \<Rightarrow> bool \<Rightarrow> icrc_token \<Rightarrow> 'w icrc_state \<Rightarrow> 'w icrc_state" where
  "token_onLoad ledgerCanisterId certified token s = s\<lparr>ic_tokens := setToken ledgerCanisterId (Some certified) token (ic_tokens s)\<rparr>"

definition fetch_token :: "'w icrc_env \<Rightarrow> string \<Rightarrow> bool \<Rightarrow> 'w icrc_state \<Rightarrow> 'w icrc_state" where
  "fetch_token env ledgerCanisterId certified s =
     (let strat = (if certified then forceCallStrategy env else Some QueryOnly);
          currentStrategy = (if ia_user env = None then QueryOnly else nullish_or strat QueryAndUpdate)
      in snd (qau_run (\<lambda>certified. call_ic (ia_token env ledgerCanisterId certified) (CallIcrcToken ledgerCanisterId certified))
           (token_onLoad ledgerCanisterId) (token_onError ledgerCanisterId) currentStrategy (call_order env currentStrategy) (False, s)))"

definition loadIcrcToken :: "'w icrc_env \<Rightarrow> string \<Rightarrow> bool \<Rightarrow> ('w, unit) ic" where
  "loadIcrcToken env ledgerCanisterId certified s =
     (Inr (), if token_wanted env ledgerCanisterId certified s then fetch_token env ledgerCanisterId certified s else s)"

definition getAccounts_icrc :: "'w icrc_env \<Rightarrow> string \<Rightarrow> string \<Rightarrow> bool \<Rightarrow> ('w, Account list) ic" where
  "getAccounts_icrc env owner ledgerCanisterId certified =
     bindE (call_ic (ia_balance env owner ledgerCanisterId certified) (CallIcrcBalance owner ledgerCanisterId certified))
       (\<lambda>balanceUlps. returnE
          [\<lparr>ac_identifier = ia_encode env owner, ac_principal = Some owner, ac_balanceUlps = balanceUlps, ac_name = None,
            ac_subAccount = None, ac_type = AccountMain, ac_icpIdentifier = None\<rparr>])"

definition accounts_onLoad :: "string \<Rightarrow> bool \<Rightarrow> Account list \<Rightarrow> 'w icrc_state \<Rightarrow> 'w icrc_state" where
  "accounts_onLoad ledgerCanisterId certified accounts s =
     s\<lparr>ic_accounts := set_icrcAccounts ledgerCanisterId \<lparr>ics_accounts = accounts, ics_certified = Some certified\<rparr> (ic_accounts s)\<rparr>"

text \<open>The strategy is the one of the parameter, not the one in use.\<close>

definition accounts_onError ::
  "'w icrc_env \<Rightarrow> ('w \<Rightarrow> 'w) option \<Rightarrow> string \<Rightarrow> QueryAndUpdateStrategy option \<Rightarrow> bool \<Rightarrow> QueryAndUpdateStrategy \<Rightarrow> icrc_error
     \<Rightarrow> 'w icrc_state \<Rightarrow> 'w icrc_state" where
  "accounts_onError env handleError ledgerCanisterId strat certified currentStrategy err s =
     (if \<not> certified \<and> strat \<noteq> Some QueryOnly then s
      else (let s' = s\<lparr>ic_accounts := resetUniverse_icrcAccounts ledgerCanisterId (ic_accounts s),
                       ic_transactions := resetUniverse_icrc ledgerCanisterId (ic_transactions s)\<rparr>;
                s'' = mark_or_toast ledgerCanisterId
                        (message_toast (ia_translated env) ''error.accounts_load''
                           (case err of IcrcFailed e \<Rightarrow> failure_message e | IcrcPending \<Rightarrow> [])) s'
            in case handleError of None \<Rightarrow> s'' | Some h \<Rightarrow> s''\<lparr>ic_world := h (ic_world s'')\<rparr>))"

text \<open>A strategy that is not given is FORCE_CALL_STRATEGY; the identity is the authenticated one.\<close>

definition loadAccounts_icrc ::
  "'w icrc_env \<Rightarrow> ('w \<Rightarrow> 'w) option \<Rightarrow> string \<Rightarrow> QueryAndUpdateStrategy option \<Rightarrow> ('w, unit) ic" where
  "loadAccounts_icrc env handleError ledgerCanisterId strat_given s =
     (let strat = (if strat_given = None then forceCallStrategy env else strat_given)
      in if fails_already ledgerCanisterId s then (Inr (), s)
         else case ia_user env of
           None \<Rightarrow> (Inl IcrcPending, s)
         | Some owner \<Rightarrow>
             let currentStrategy = nullish_or strat QueryAndUpdate
             in (Inr (), snd (qau_run (getAccounts_icrc env owner ledgerCanisterId) (accounts_onLoad ledgerCanisterId)
                  (accounts_onError env handleError ledgerCanisterId strat) currentStrategy (call_order env currentStrategy) (False, s))))"

text \<open>Both are started before one of them has answered; here the accounts settle first.\<close>

definition syncAccounts_icrc :: "'w icrc_env \<Rightarrow> string \<Rightarrow> ('w, unit) ic" where
  "syncAccounts_icrc env ledgerCanisterId s =
     (case loadAccounts_icrc env None ledgerCanisterId None s of
        (r, t) \<Rightarrow> (r, if token_wanted env ledgerCanisterId True s then fetch_token env ledgerCanisterId True t else t))"

text \<open>None: a project without a ledger, for which the code reads toText of undefined.\<close>

definition loadSnsAccounts ::
  "'w icrc_env \<Rightarrow> string \<Rightarrow> ('w \<Rightarrow> 'w) option \<Rightarrow> QueryAndUpdateStrategy option \<Rightarrow> 'w icrc_state \<Rightarrow> ((icrc_error + unit) \<times> 'w icrc_state) option" where
  "loadSnsAccounts env rootCanisterId handleError strat s =
     map_option (\<lambda>ledgerCanisterId. loadAccounts_icrc env handleError ledgerCanisterId strat s) (ia_snsLedgers env rootCanisterId)"

text \<open>The block of the transfer; the fee may be missing when the token is not loaded.\<close>

definition transferTokens :: "'w icrc_env \<Rightarrow> Account \<Rightarrow> string \<Rightarrow> int \<Rightarrow> int option \<Rightarrow> string \<Rightarrow> ('w, nat option) ic" where
  "transferTokens env source destinationAddress amountUlps fee ledgerCanisterId =
     catch_ic
       (case fee of
          None \<Rightarrow> throwE (IcrcFailed (OtherLedgerFailure ''error.transaction_fee_not_found''))
        | Some fee \<Rightarrow>
            bindE (case ia_user env of None \<Rightarrow> throwE IcrcPending | Some i \<Rightarrow> returnE i) (\<lambda>i.
            bindE (liftE (map_sum IcrcFailed id (ia_decode env destinationAddress))) (\<lambda>to.
            bindE (call_ic (ia_transfer env i ledgerCanisterId to (ac_subAccount source) amountUlps fee)
                     (CallIcrcTransfer i ledgerCanisterId to (ac_subAccount source) amountUlps fee)) (\<lambda>blockIndex.
            thenE (loadAccounts_icrc env None ledgerCanisterId None) (returnE (Some blockIndex))))))
       (\<lambda>err. thenE (updateE (toast_ic (ledgerErrorToToastError_icrc (ia_translated env) ''error.transaction_error'' err))) (returnE None))"

subsection \<open>The calls of queryAndUpdate\<close>

lemma qau_run_steps:
  "qau_run req onLoad onError st (c # cs) (False, s) =
     (case req c s of
        (Inr x, t) \<Rightarrow> qau_run req onLoad onError st cs (c, onLoad c x t)
      | (Inl e, t) \<Rightarrow> qau_run req onLoad onError st cs (c, onError c st e t))"
  "qau_run req onLoad onError st (c # cs) (True, s) = qau_run req onLoad onError st cs (True, snd (req c s))"
  by (cases "req c s"; cases "fst (req c s)"; auto simp: qau_catch_def Let_def)+

lemma call_order_cases:
  assumes "st \<noteq> QueryOnly"
  shows "call_order env st = [True] \<or> (call_order env st = [False, True] \<or> call_order env st = [True, False]) \<and> st = QueryAndUpdate"
  using assms by (cases st) (auto simp: call_order_def qau_requests_def)

text \<open>One call of loadAccounts.\<close>

definition asked :: "'w icrc_env \<Rightarrow> string \<Rightarrow> string \<Rightarrow> bool \<Rightarrow> 'w icrc_state \<Rightarrow> 'w icrc_state" where
  "asked env owner l c s = snd (getAccounts_icrc env owner l c s)"

lemma asked_keeps [simp]:
  "ic_accounts (asked env owner l c s) = ic_accounts s" "ic_transactions (asked env owner l c s) = ic_transactions s"
  "ic_tokens (asked env owner l c s) = ic_tokens s" "ic_imported (asked env owner l c s) = ic_imported s"
  "ic_failed (asked env owner l c s) = ic_failed s" "ic_toasts (asked env owner l c s) = ic_toasts s"
  by (simp_all add: asked_def getAccounts_icrc_def call_ic_def effect_defs split: prod.split sum.split)

lemma asked_calls: "\<exists>r. ic_calls (asked env owner l c s) = ic_calls s @ [CallIcrcBalance owner l c r]"
  by (simp add: asked_def getAccounts_icrc_def call_ic_def effect_defs split: prod.split sum.split)

lemma asked_cases:
  obtains (answer) accounts where "getAccounts_icrc env owner l c s = (Inr accounts, asked env owner l c s)"
    "\<forall>a\<in>set accounts. ac_principal a = Some owner"
  | (failure) e where "getAccounts_icrc env owner l c s = (Inl (IcrcFailed e), asked env owner l c s)"
proof -
  obtain r w where "ia_balance env owner l c (ic_world s) = (r, w)" by force
  then show ?thesis
    using that by (cases r) (simp_all add: asked_def getAccounts_icrc_def call_ic_def effect_defs)
qed

subsection \<open>Loading accounts\<close>

definition uses_update :: "'w icrc_env \<Rightarrow> QueryAndUpdateStrategy option \<Rightarrow> bool" where
  "uses_update env given \<longleftrightarrow> (if given = None then \<not> ia_forceQuery env else given \<noteq> Some QueryOnly)"

lemma load_accounts_run:
  assumes "ia_user env = Some owner" "\<not> fails_already l s" "uses_update env given"
  obtains cs strat st where "loadAccounts_icrc env handle l given s =
      (Inr (), snd (qau_run (getAccounts_icrc env owner l) (accounts_onLoad l) (accounts_onError env handle l strat) st cs (False, s)))"
    "strat \<noteq> Some QueryOnly" "cs = [True] \<or> cs = [False, True] \<or> cs = [True, False]"
proof -
  define strat where "strat = (if given = None then forceCallStrategy env else given)"
  have n: "strat \<noteq> Some QueryOnly" using assms(3) by (auto simp: strat_def uses_update_def forceCallStrategy_def split: if_splits)
  then have "nullish_or strat QueryAndUpdate \<noteq> QueryOnly" by (cases strat) simp_all
  from call_order_cases [OF this, of env] n show ?thesis
    by (intro that [of strat "nullish_or strat QueryAndUpdate" "call_order env (nullish_or strat QueryAndUpdate)"])
      (auto simp: loadAccounts_icrc_def strat_def [symmetric] Let_def assms(1,2))
qed

text \<open>What the handlers leave.\<close>

definition accounts_shown :: "string \<Rightarrow> string \<Rightarrow> 'w icrc_state \<Rightarrow> 'w icrc_state \<Rightarrow> bool" where
  "accounts_shown owner l s t \<longleftrightarrow>
     (case ic_accounts t l of
        Some e \<Rightarrow> ics_certified e = Some True \<and> (\<forall>a\<in>set (ics_accounts e). ac_principal a = Some owner) \<and>
          ic_toasts t = ic_toasts s \<and> ic_failed t = ic_failed s
      | None \<Rightarrow> ic_transactions t l = None \<and>
          (if isImportedToken (Some l) (is_importedTokens (ic_imported s))
           then l \<in> set (ic_failed t) \<and> ic_toasts t = ic_toasts s
           else length (ic_toasts t) = Suc (length (ic_toasts s)) \<and> ic_failed t = ic_failed s))"

lemma onLoad_keeps [simp]:
  "ic_failed (accounts_onLoad l c accounts s) = ic_failed s" "ic_toasts (accounts_onLoad l c accounts s) = ic_toasts s"
  "ic_imported (accounts_onLoad l c accounts s) = ic_imported s" "ic_calls (accounts_onLoad l c accounts s) = ic_calls s"
  "ic_tokens (accounts_onLoad l c accounts s) = ic_tokens s"
  by (simp_all add: accounts_onLoad_def)

lemma shown_loaded:
  "\<forall>a\<in>set accounts. ac_principal a = Some owner \<Longrightarrow> ic_failed s = ic_failed s0 \<Longrightarrow> ic_toasts s = ic_toasts s0 \<Longrightarrow>
     accounts_shown owner l s0 (accounts_onLoad l True accounts s)"
  by (simp add: accounts_shown_def accounts_onLoad_def set_icrcAccounts_def)

lemma shown_failed:
  "ic_failed s = ic_failed s0 \<Longrightarrow> ic_toasts s = ic_toasts s0 \<Longrightarrow> ic_imported s = ic_imported s0 \<Longrightarrow>
     accounts_shown owner l s0 (accounts_onError env handle l strat True st e s)"
  by (simp add: accounts_shown_def accounts_onError_def mark_or_toast_def toast_ic_def resetUniverse_icrcAccounts_def
      resetUniverse_icrc_def failedLedgerIds_add_def Let_def split: option.split)

lemma onError_query [simp]: "strat \<noteq> Some QueryOnly \<Longrightarrow> accounts_onError env handle l strat False st e s = s"
  by (simp add: accounts_onError_def)

lemma shown_after:
  "accounts_shown owner l s0 t \<Longrightarrow> accounts_shown owner l s0 (asked env owner l c t)"
  by (simp add: accounts_shown_def split: option.splits)

text \<open>An update call whose answer comes after that of the query call, or before it.\<close>

lemma answered_update:
  assumes "ic_failed s = ic_failed s0" "ic_toasts s = ic_toasts s0" "ic_imported s = ic_imported s0"
  shows "accounts_shown owner l s0 (snd (qau_run (getAccounts_icrc env owner l) (accounts_onLoad l) (accounts_onError env handle l strat)
           st [True] (False, s)))"
    and "accounts_shown owner l s0 (snd (qau_run (getAccounts_icrc env owner l) (accounts_onLoad l) (accounts_onError env handle l strat)
           st [True, False] (False, s)))"
  by (rule asked_cases [of env owner l True s];
      simp add: qau_run_steps asked_def [symmetric] assms shown_loaded shown_failed shown_after del: qau_run.simps(2))+

lemma icrc_accounts_settled:
  assumes "ia_user env = Some owner" "\<not> fails_already l s" "uses_update env given"
    and "loadAccounts_icrc env handle l given s = (r, t)"
  shows "r = Inr () \<and> accounts_shown owner l s t"
proof -
  obtain cs strat st where run: "loadAccounts_icrc env handle l given s =
      (Inr (), snd (qau_run (getAccounts_icrc env owner l) (accounts_onLoad l) (accounts_onError env handle l strat) st cs (False, s)))"
    and n: "strat \<noteq> Some QueryOnly" and cs: "cs = [True] \<or> cs = [False, True] \<or> cs = [True, False]"
    by (rule load_accounts_run [OF assms(1-3)])
  from cs have "accounts_shown owner l s (snd (qau_run (getAccounts_icrc env owner l) (accounts_onLoad l)
      (accounts_onError env handle l strat) st cs (False, s)))"
  proof (elim disjE)
    assume "cs = [False, True]"
    then show ?thesis using n
      by (cases rule: asked_cases [of env owner l False s])
        (simp_all add: qau_run_steps(1) [of _ _ _ _ False] answered_update del: qau_run.simps(2))
  qed (simp_all add: answered_update del: qau_run.simps(2))
  with run assms(4) show ?thesis by simp
qed

text \<open>What loading the accounts of a ledger may change, from the first state to the second.\<close>

definition reads_of :: "string \<Rightarrow> string \<Rightarrow> icrc_call \<Rightarrow> bool" where
  "reads_of owner l call \<longleftrightarrow> (case call of CallIcrcBalance i l' c r \<Rightarrow> i = owner \<and> l' = l | _ \<Rightarrow> False)"

definition accounts_step :: "string \<Rightarrow> string \<Rightarrow> 'w icrc_state \<Rightarrow> 'w icrc_state \<Rightarrow> bool" where
  "accounts_step owner l s t \<longleftrightarrow>
     (\<forall>l'. l' \<noteq> l \<longrightarrow> ic_accounts t l' = ic_accounts s l' \<and> ic_transactions t l' = ic_transactions s l') \<and>
     ic_tokens t = ic_tokens s \<and> ic_imported t = ic_imported s \<and>
     (\<exists>cs. ic_calls t = ic_calls s @ cs \<and> (\<forall>c\<in>set cs. reads_of owner l c))"

lemma accounts_step_refl [simp]: "accounts_step owner l s s"
  by (simp add: accounts_step_def)

lemma step_asked: "accounts_step owner l s t \<Longrightarrow> accounts_step owner l s (asked env owner l c t)"
  using asked_calls [of env owner l c t] by (auto simp: accounts_step_def reads_of_def)

lemma step_onLoad: "accounts_step owner l s t \<Longrightarrow> accounts_step owner l s (accounts_onLoad l c accounts t)"
  by (auto simp: accounts_step_def accounts_onLoad_def set_icrcAccounts_def)

lemma step_onError: "accounts_step owner l s t \<Longrightarrow> accounts_step owner l s (accounts_onError env h l strat c st e t)"
  by (auto simp: accounts_step_def accounts_onError_def mark_or_toast_def toast_ic_def resetUniverse_icrcAccounts_def
      resetUniverse_icrc_def Let_def split: option.split)

lemma load_accounts_step:
  assumes "loadAccounts_icrc env handle l given s = (r, t)" "ia_user env = Some owner"
  shows "r = Inr () \<and> accounts_step owner l s t"
proof -
  have k: "keeps (accounts_step owner l s) (getAccounts_icrc env owner l c)" for c
    unfolding keeps_def using step_asked [of owner l s _ env c] by (metis asked_def snd_conv)
  have y: "yields (accounts_step owner l s) (getAccounts_icrc env owner l c) (\<lambda>_. True)" for c
    by (simp add: yields_def)
  note run = qau_run_safe [OF k y, where onLoad = "accounts_onLoad l", OF step_onLoad step_onError accounts_step_refl]
  show ?thesis
    using assms run by (auto simp: loadAccounts_icrc_def Let_def split: if_splits)
qed

lemma load_accounts_pending:
  "ia_user env = None \<Longrightarrow> loadAccounts_icrc env handle l given s = (if fails_already l s then (Inr (), s) else (Inl IcrcPending, s))"
  by (simp add: loadAccounts_icrc_def)

text \<open>An imported ledger that failed is not asked again, whether for its token or for the accounts.\<close>

lemma failed_ledger_left_alone:
  "fails_already l s \<Longrightarrow> loadAccounts_icrc env handle l given s = (Inr (), s) \<and> loadIcrcToken env l c s = (Inr (), s) \<and>
     syncAccounts_icrc env l s = (Inr (), s)"
  by (simp add: loadAccounts_icrc_def loadIcrcToken_def syncAccounts_icrc_def token_wanted_def)

lemma imported_failure_stops:
  assumes "ia_user env = Some owner" "\<not> fails_already l s" "uses_update env given"
    and "loadAccounts_icrc env handle l given s = (r, t)" "ic_accounts t l = None"
    and "isImportedToken (Some l) (is_importedTokens (ic_imported s))"
  shows "loadAccounts_icrc env handle' l given' t = (Inr (), t)"
proof -
  have "accounts_shown owner l s t" using icrc_accounts_settled [OF assms(1-4)] by simp
  moreover have "ic_imported t = ic_imported s"
    using load_accounts_step [OF assms(4,1)] by (simp add: accounts_step_def)
  ultimately have "fails_already l t"
    using assms(5,6) by (auto simp: accounts_shown_def fails_already_def failedExistentImportedTokenLedgerIdsStore_def
        isImportedToken_def nullish_or_def split: option.splits)
  then show ?thesis by (simp add: failed_ledger_left_alone)
qed

subsection \<open>Tokens\<close>

definition asked_token :: "'w icrc_env \<Rightarrow> string \<Rightarrow> bool \<Rightarrow> 'w icrc_state \<Rightarrow> 'w icrc_state" where
  "asked_token env l c s = snd (call_ic (ia_token env l c) (CallIcrcToken l c) s)"

lemma asked_token_keeps [simp]:
  "ic_tokens (asked_token env l c s) = ic_tokens s" "ic_imported (asked_token env l c s) = ic_imported s"
  "ic_failed (asked_token env l c s) = ic_failed s" "ic_toasts (asked_token env l c s) = ic_toasts s"
  by (simp_all add: asked_token_def call_ic_def split: prod.split)

lemma asked_token_cases:
  obtains (answer) token where "call_ic (ia_token env l c) (CallIcrcToken l c) s = (Inr token, asked_token env l c s)"
  | (failure) e where "call_ic (ia_token env l c) (CallIcrcToken l c) s = (Inl (IcrcFailed e), asked_token env l c s)"
proof -
  obtain r w where "ia_token env l c (ic_world s) = (r, w)" by force
  then show ?thesis using that by (cases r) (simp_all add: asked_token_def call_ic_def)
qed

text \<open>
  loadIcrcToken of a signed-in session that is not forced to query: the token in the store is certified
  afterwards, or the failure is shown: an error for a token that is not imported, and a mark for one that is.
\<close>

definition token_shown :: "string \<Rightarrow> 'w icrc_state \<Rightarrow> 'w icrc_state \<Rightarrow> bool" where
  "token_shown l s t \<longleftrightarrow>
     (case ic_tokens t l of
        Some k \<Rightarrow> tu_certified k = Some True \<and> ic_toasts t = ic_toasts s \<and> ic_failed t = ic_failed s
      | None \<Rightarrow> (if isImportedToken (Some l) (is_importedTokens (ic_imported s))
           then fails_already l t \<and> ic_toasts t = ic_toasts s
           else length (ic_toasts t) = Suc (length (ic_toasts s)) \<and> ic_failed t = ic_failed s))"

lemma token_shown_asked: "token_shown l s0 t \<Longrightarrow> token_shown l s0 (asked_token env l c t)"
  by (auto simp: token_shown_def fails_already_def split: option.splits)

lemma token_shown_failed:
  "ic_failed s = ic_failed s0 \<Longrightarrow> ic_toasts s = ic_toasts s0 \<Longrightarrow> ic_imported s = ic_imported s0 \<Longrightarrow>
     token_shown l s0 (token_onError l True st e s)"
  by (auto simp: token_shown_def token_onError_def mark_or_toast_def toast_ic_def resetUniverse_tokens_def isLastCall_def
      failedLedgerIds_add_def fails_already_def failedExistentImportedTokenLedgerIdsStore_def isImportedToken_def
      nullish_or_def Let_def split: option.split)

lemma token_shown_loaded:
  "ic_failed s = ic_failed s0 \<Longrightarrow> ic_toasts s = ic_toasts s0 \<Longrightarrow> token_shown l s0 (token_onLoad l True token s)"
  by (simp add: token_shown_def token_onLoad_def setToken_def)

lemma token_onLoad_keeps [simp]:
  "ic_failed (token_onLoad l c token s) = ic_failed s" "ic_toasts (token_onLoad l c token s) = ic_toasts s"
  "ic_imported (token_onLoad l c token s) = ic_imported s"
  by (simp_all add: token_onLoad_def)

lemma token_answered:
  fixes env :: "'w icrc_env"
  assumes "ic_failed s = ic_failed s0" "ic_toasts s = ic_toasts s0" "ic_imported s = ic_imported s0"
  shows "token_shown l s0 (snd (qau_run (\<lambda>c. call_ic (ia_token env l c) (CallIcrcToken l c)) (token_onLoad l) (token_onError l)
           st [True] (False, s)))"
    and "token_shown l s0 (snd (qau_run (\<lambda>c. call_ic (ia_token env l c) (CallIcrcToken l c)) (token_onLoad l) (token_onError l)
           st [True, False] (False, s)))"
  by (rule asked_token_cases [of env l True s];
      simp add: qau_run_steps asked_token_def [symmetric] assms token_shown_failed token_shown_loaded token_shown_asked
        del: qau_run.simps(2))+

lemma icrc_token_settled:
  assumes "ia_user env = Some owner" "\<not> ia_forceQuery env" "token_wanted env l True s"
    and "loadIcrcToken env l True s = (r, t)"
  shows "token_shown l s t"
proof -
  have t: "t = fetch_token env l True s" using assms(3,4) by (simp add: loadIcrcToken_def)
  have cs: "call_order env QueryAndUpdate = [False, True] \<or> call_order env QueryAndUpdate = [True, False]"
    by (simp add: call_order_def qau_requests_def)
  then show ?thesis
  proof (elim disjE)
    assume "call_order env QueryAndUpdate = [False, True]"
    then show ?thesis unfolding t
      by (cases rule: asked_token_cases [of env l False s])
        (simp_all add: fetch_token_def assms(1,2) forceCallStrategy_def Let_def qau_run_steps(1) [of _ _ _ _ False]
          token_onError_def [of l False] isLastCall_def token_answered del: qau_run.simps(2))
  next
    assume "call_order env QueryAndUpdate = [True, False]"
    then show ?thesis unfolding t
      by (simp add: fetch_token_def assms(1,2) forceCallStrategy_def Let_def token_answered del: qau_run.simps(2))
  qed
qed

text \<open>A forced query, or an SNS token, is never asked for by an update call.\<close>

lemma sns_tokens_not_asked: "l \<in> ia_snsTokens env \<Longrightarrow> loadIcrcToken env l c s = (Inr (), s)"
  by (simp add: loadIcrcToken_def token_wanted_def)

lemma certified_token_kept:
  "ic_tokens s l = Some k \<Longrightarrow> tu_certified k = Some True \<Longrightarrow> loadIcrcToken env l c s = (Inr (), s)"
  by (simp add: loadIcrcToken_def token_wanted_def)

subsection \<open>Merging accounts\<close>

lemma find_by_identifier: "find (\<lambda>b. ac_identifier a = ac_identifier b) xs = None \<longleftrightarrow> ac_identifier a \<notin> ac_identifier ` set xs"
  by (auto simp: find_None_iff)

definition account_with :: "string \<Rightarrow> Account list \<Rightarrow> Account option" where
  "account_with i accounts = find (\<lambda>a. ac_identifier a = i) accounts"

text \<open>update keeps one account of each identifier: the new one where there is one, else the one that was there.\<close>

lemma update_merges_accounts:
  assumes "state l = Some old" "distinct (map ac_identifier (ics_accounts old))" "distinct (map ac_identifier (ics_accounts new))"
  shows "\<exists>entry. update_icrcAccounts l new state l = Some entry \<and> ics_certified entry = ics_certified new \<and>
     distinct (map ac_identifier (ics_accounts entry)) \<and>
     (\<forall>i. account_with i (ics_accounts entry) =
        (case account_with i (ics_accounts new) of Some a \<Rightarrow> Some a | None \<Rightarrow> account_with i (ics_accounts old)))"
proof -
  let ?keep = "\<lambda>a. find (\<lambda>b. ac_identifier a = ac_identifier b) (ics_accounts new) = None"
  have found: "account_with i (filter ?keep xs @ ics_accounts new) =
      (case account_with i (ics_accounts new) of Some a \<Rightarrow> Some a | None \<Rightarrow> account_with i xs)" for i xs
  proof (cases "i \<in> ac_identifier ` set (ics_accounts new)")
    case True
    have "account_with i (filter ?keep xs @ ys) = account_with i ys" for ys
      by (induction xs) (use True in \<open>auto simp: account_with_def find_by_identifier\<close>)
    moreover have "account_with i (ics_accounts new) \<noteq> None" using True by (auto simp: account_with_def find_None_iff)
    ultimately show ?thesis by (auto split: option.split)
  next
    case False
    then have none: "account_with i (ics_accounts new) = None" by (auto simp: account_with_def find_None_iff)
    show ?thesis
      by (induction xs) (use False none in \<open>auto simp: account_with_def find_by_identifier\<close>)
  qed
  have "distinct (map ac_identifier (filter ?keep (ics_accounts old) @ ics_accounts new))"
    using assms(2,3) by (auto simp: find_by_identifier distinct_map_filter)
  then show ?thesis using found by (simp add: update_icrcAccounts_def assms(1))
qed

subsection \<open>Transfers\<close>

text \<open>
  C22: transferTokens returns a block exactly when the ledger took the transfer, which it was asked once at most,
  with the fee, the amount and the subaccount given: that the balances are loaded again and that this fails
  does not change what is returned, so a transfer that went through is never reported as failed.  Without a
  block an error is shown and the accounts stay as they are.
\<close>

theorem transfer_reports_ledger:
  assumes "ia_user env = Some i" "transferTokens env source destination amount fee l s = (r, t)"
  shows "\<exists>block transfers reads. r = Inr block \<and> ic_calls t = ic_calls s @ transfers @ reads \<and> (\<forall>c\<in>set reads. reads_of i l c) \<and>
     (case block of
        Some b \<Rightarrow> \<exists>f to. fee = Some f \<and> ia_decode env destination = Inr to \<and>
          transfers = [CallIcrcTransfer i l to (ac_subAccount source) amount f (Inr b)]
      | None \<Rightarrow> reads = [] \<and> ic_accounts t = ic_accounts s \<and> length (ic_toasts t) = Suc (length (ic_toasts s)) \<and>
          (transfers = [] \<or> (\<exists>f to e. transfers = [CallIcrcTransfer i l to (ac_subAccount source) amount f (Inl e)])))"
proof (cases fee)
  case None
  then show ?thesis using assms(2) by (auto simp: transferTokens_def catch_ic_def effect_defs toast_ic_def)
next
  case (Some f)
  show ?thesis
  proof (cases "ia_decode env destination")
    case (Inl e)
    then show ?thesis using assms Some by (auto simp: transferTokens_def catch_ic_def effect_defs toast_ic_def)
  next
    case (Inr to)
    obtain answer w where answer: "ia_transfer env i l to (ac_subAccount source) amount f (ic_world s) = (answer, w)" by force
    define s1 where "s1 = s\<lparr>ic_world := w, ic_calls := ic_calls s @ [CallIcrcTransfer i l to (ac_subAccount source) amount f answer]\<rparr>"
    show ?thesis
    proof (cases answer)
      case (Inl e)
      with answer \<open>ia_decode env destination = Inr to\<close> assms Some show ?thesis
        by (auto simp: transferTokens_def catch_ic_def effect_defs toast_ic_def call_ic_def)
    next
      case (Inr b)
      obtain q u where load: "loadAccounts_icrc env None l None s1 = (q, u)" by force
      have "q = Inr ()" "accounts_step i l s1 u" using load_accounts_step [OF load assms(1)] by simp_all
      with answer \<open>ia_decode env destination = Inr to\<close> assms Some Inr load show ?thesis
        by (auto simp: transferTokens_def catch_ic_def effect_defs call_ic_def s1_def accounts_step_def)
    qed
  qed
qed

text \<open>A ledger that takes the transfer and then does not answer for the balance.\<close>

definition example_ledgers :: "unit icrc_env" where
  "example_ledgers =
     \<lparr>ia_user = Some ''me'', ia_forceQuery = False, ia_updateFirst = False,
      ia_balance = (\<lambda>i l c w. (Inl (OtherLedgerFailure ''busy''), w)),
      ia_token = (\<lambda>l c w. (Inl (OtherLedgerFailure ''busy''), w)),
      ia_transfer = (\<lambda>i l to sub amount fee w. (if amount > 0 then Inr 7 else Inl (IcrcTransferError TransferBadFee), w)),
      ia_encode = id, ia_decode = (\<lambda>address. Inr (address, None)), ia_snsTokens = {}, ia_snsLedgers = Map.empty,
      ia_translated = (\<lambda>label. False)\<rparr>"

definition start_icrc :: "unit icrc_state" where
  "start_icrc =
     \<lparr>ic_world = (), ic_calls = [], ic_tokens = Map.empty, ic_accounts = Map.empty, ic_transactions = Map.empty,
      ic_imported = importedTokensStore_empty, ic_failed = [], ic_toasts = []\<rparr>"

definition some_source :: Account where
  "some_source = \<lparr>ac_identifier = ''me'', ac_principal = Some ''me'', ac_balanceUlps = 10, ac_name = None, ac_subAccount = None,
     ac_type = AccountMain, ac_icpIdentifier = None\<rparr>"

lemma transfer_reports_ledger_witness:
  "let (r, t) = transferTokens example_ledgers some_source ''you'' 5 (Some 1) ''ledger'' start_icrc
   in r = Inr (Some 7) \<and> length (ic_toasts t) = 1 \<and>
      (\<exists>reads. ic_calls t = CallIcrcTransfer ''me'' ''ledger'' (''you'', None) None 5 1 (Inr 7) # reads \<and> length reads = 2)"
proof -
  let ?run = "transferTokens example_ledgers some_source ''you'' 5 (Some 1) ''ledger'' start_icrc"
  obtain r t where run: "?run = (r, t)" by force
  have u: "ia_user example_ledgers = Some ''me''" by (simp add: example_ledgers_def)
  have e: "r = Inr (Some 7) \<and> length (ic_toasts t) = 1 \<and> length (ic_calls t) = 3"
    using run by (auto simp: transferTokens_def catch_ic_def effect_defs call_ic_def loadAccounts_icrc_def getAccounts_icrc_def
        example_ledgers_def start_icrc_def forceCallStrategy_def call_order_def qau_requests_def fails_already_def
        failedExistentImportedTokenLedgerIdsStore_def accounts_onError_def mark_or_toast_def toast_ic_def isImportedToken_def
        importedTokensStore_empty_def nullish_or_def qau_catch_def Let_def some_source_def)
  from transfer_reports_ledger [OF u run] e run show ?thesis
    by (auto simp: start_icrc_def example_ledgers_def some_source_def)
qed

end
