(* ===== verification/Spec2Isabelle.thy ===== *)
theory Spec2Isabelle
  imports Prelude Comparators JsNumber Constants Utils QueuedStore QueryAndUpdate NnsTypes Proposals
    VoteRegistration Ledger GovernanceCache TimerWorker IcrcWorkers Tokens Accounts VotingPower NnsNeurons
    NeuronsStore SnsNeurons SnsNeuronChecks Effects SnsProjects SnsSale NeuronServices
    JsValue WritableStored SnsProposals ActionableProposals SnsNeuronServices SnsVoteRegistration IcpAccounts
    Transactions NeuronsTable CsvExport Canisters ImportedTokens Bitcoin SnsAggregator NnsProposalServices
    AuthSession Staking IcrcAccounts
begin

text \<open>
  A verification development of the core logic of the NNS dapp's frontend (TypeScript, under
  frontend/src/lib).

  The program.  The NNS dapp is a web wallet and governance client of the Internet Computer.  Its
  frontend asks canisters for data twice, by a fast uncertified query and by a slow certified update
  call (services/utils.services.ts), merges both kinds of response into stores that Svelte components
  observe (stores), derives lists and totals from them (derived, utils), and sends actions: votes,
  neuron operations, transfers.  Hardware wallets sign through identities/ledger.identity.ts.  Web
  workers poll balances and transactions (workers).

  Which theory models what.
    Prelude            arrays, sets in insertion order, optional values, decimal strings; the facts on
                       them that the components share
    Comparators        utils/sort.utils.ts and Array.prototype.sort; the locales weak_comparator and
                       comparator state the contract of a comparator, prove the sort correct once, and are
                       interpreted on every comparator of the model (proposals, tokens, neurons)
    JsNumber           the type number: rationals rounded to 53 bits after every operation
    Constants          constants/constants.ts, constants/neurons.constants.ts
    Utils              utils/utils.ts: hex strings, buffers, object entries, chunks, polling
    QueuedStore        stores/queued-store.ts; the locale mutation_store is the contract against a log
    QueryAndUpdate     queryAndUpdate of services/utils.services.ts, for any callbacks
    NnsTypes           the records of the client library that the frontend reads
    Proposals          utils/proposals.utils.ts, stores/proposals.store.ts
    VoteRegistration   stores/vote-registration.store.ts, services/vote-registration.services.ts,
                       services/nns-vote-registration.services.ts
    Ledger             keys/secp256k1.ts, utils/ledger.utils.ts, identities/ledger.identity.ts
    GovernanceCache    api-services/governance.api-service.ts
    TimerWorker        worker-utils/timer.worker-utils.ts
    IcrcWorkers        worker-services/icrc-*.worker-services.ts, worker-stores, workers/transactions and
                       workers/balances
    Tokens             utils/token.utils.ts, utils/tokens-table.utils.ts
    Accounts           utils/accounts.utils.ts, derived/icp-accounts.derived.ts,
                       stores/icp-account-balances.store.ts
    VotingPower        votingPower and bonusMultiplier of utils/neuron.utils.ts
    NnsNeurons         the rest of utils/neuron.utils.ts
    NeuronsStore       stores/neurons.store.ts, derived/neurons.derived.ts
    SnsNeurons         utils/sns-neuron.utils.ts, stores/sns-neurons.store.ts
    SnsNeuronChecks    services/sns-neurons-check-balances.services.ts, stores/checked-neurons.store.ts
    Effects            asynchronous functions as effects on a state: sequencing, try/catch, polling, and
                       the rules for what every step of a service keeps
    SnsProjects        types/sns-summary-wrapper.ts, utils/projects.utils.ts, utils/sns.utils.ts,
                       derived/sns/sns-projects.derived.ts, stores/sns-tickets.store.ts
    SnsSale            services/sns-sale.services.ts
    NeuronServices     services/neurons.services.ts and the identities, transfers and device checks it uses
    JsValue            values whose type is tested at run time (JSON, candid)
    WritableStored     stores/writable-stored.ts
    SnsProposals       utils/sns-proposals.utils.ts, the stores and filters of SNS proposals and
                       services/public/sns-proposals.services.ts
    ActionableProposals  services/actionable-proposals.services.ts, actionable-sns-proposals.services.ts and
                       their stores; the locale paged_list is what the pages need of the canister's order
    SnsNeuronServices  services/sns-neurons.services.ts, utils/sns-ledger.utils.ts
    SnsVoteRegistration  services/sns-vote-registration.services.ts
    IcpAccounts        services/icp-accounts.services.ts on its two queued stores
    Transactions       utils/transactions.utils.ts, utils/icp-transactions.utils.ts,
                       utils/icrc-transactions.utils.ts, their stores and services
    NeuronsTable       utils/neurons-table.utils.ts, utils/responsive-table.utils.ts, the store of the order and
                       the sorted ids that the pages of neurons follow
    CsvExport          utils/export-to-csv.utils.ts, services/export-data.services.ts
    Canisters          services/canisters.services.ts, api/canisters.api.ts, utils/canisters.utils.ts
    ImportedTokens     services/imported-tokens.services.ts, stores/imported-tokens.store.ts
    Bitcoin            services/ckbtc-minter.services.ts, ckbtc-convert.services.ts, ckbtc-info.services.ts,
                       utils/ckbtc.utils.ts
    SnsAggregator      stores/sns-aggregator.store.ts, utils/sns-aggregator-converters.utils.ts,
                       utils/icrc-tokens.utils.ts and the derived stores on top of them
    NnsProposalServices  services/public/proposals.services.ts, api/proposals.api.ts
    AuthSession        stores/auth.store.ts, workers/auth.worker.ts, workers/metrics.worker.ts, the sign-out
                       messages of services/auth.services.ts
    Staking            utils/staking.utils.ts
    IcrcAccounts       services/icrc-accounts.services.ts, stores/tokens.store.ts, stores/icrc-accounts.store.ts

  How the parts interact.  A service asks canisters through queryAndUpdate and writes stores; the theory of
  a service imports those of the stores and utilities it uses, so that NnsProposalServices, for example, runs
  the queued store of QueuedStore on the settlements of QueryAndUpdate.  Services whose calls change canisters
  (NeuronServices, SnsSale, Canisters, Bitcoin, IcrcAccounts and others) are effects on a state that holds a
  world of the canisters, which is arbitrary, a log of the calls with their answers, and the stores; a
  property of such a service speaks of that log for every world.

  How values are modelled.  bigint is int; number is a rational that is a double, every operation
  rounding to nearest even, without overflow, infinities or NaN; a field or variable that may be
  undefined or null is an option; a function that throws returns a sum, Inl the error; strings are
  character lists; a Map is a map or, where its order matters, an association list; a Set is the list
  of its elements in insertion order.  Arrays that the code sorts or extends in place are returned.
  Promises: where the order of responses matters, it is an argument (a list of settlements or events)
  and the property holds for all of them.  Time is an argument.  Canisters, devices, parsers and
  encoders of the libraries are parameters; what is assumed of them is a hypothesis of the theorem that
  needs it, and its witness gives a concrete one.

  What the lemmas show.
    QueuedStore: what the store exposes is what replaying the log of requests gives, whatever the order
    of the responses, and no response of a correct caller is refused.  QueryAndUpdate: the caller is told
    the settlements up to the first certified one, and nothing after it.  VoteRegistration: the life of a
    vote, its clean-up with the reload of the proposal, and the state in which it is never cleaned up; SnsVoteRegistration: the same for
    the votes of SNS neurons.  NnsProposalServices: what the list of proposals shows when the query and the
    update call agree, and the case in which the certified list is lost.  Ledger: the cache of signed
    requests and the stake flag, and two checks that do not check.  GovernanceCache: where the cached neurons
    come from, for any ledger of the governance canister and any interleaving of calls, when they are current, and
    the race in which they are not.  TimerWorker and AuthSession: jobs and intervals do
    not overlap unless a start or a stop comes in between.  IcrcWorkers, Transactions: no transaction is missed,
    rows add up to the change of the balance, and the gap a reload leaves.  SnsSale, Canisters, Bitcoin,
    IcrcAccounts: money moves once at most, by the right amount, and what is reported is what the ledger
    did.  NeuronServices: who signs which call, in any session.  SnsNeuronServices: which call an
    operation makes, to the last argument.
    ImportedTokens: the list follows the operations that reported success.  SnsNeuronChecks: what is asked
    for once.  IcpAccounts: balances and details stay complete whatever interleaves.  ActionableProposals:
    the lists of votable proposals are exact.  SnsAggregator: which projects are shown, in which order, and that
    amounts are exact.  CsvExport, WritableStored: what is written is read back.  NeuronsTable, Staking, Tokens: the
    order of the rows.  Proposals, NeuronsStore: merging lists keeps ids distinct and lookups right.
    SnsProposals: the filter of the screen and of the request agree.  NnsNeurons, SnsNeurons, SnsProjects,
    Accounts, VotingPower, Utils: functional behaviour and bounds of the computations on doubles.

  Fuel.  poll recurses on the attempts that its parameter allows.  The fetching of transactions of
  IcrcWorkers recurses on a fuel argument; fuel above the number of transactions is proved enough when the
  index canister behaves as documented, and then a result is returned.  The pages of ActionableProposals recurse on
  the number of pages the code allows, the rounds of Bitcoin on the three rounds the code allows; the export of
  transactions terminates by a measure on the index of the page.  No other loop has fuel.

  Not modelled.  Svelte components, routes and modals, which present what the stores hold (the layout and
  the tables named above apart); the thin wrappers around canister clients and the generated clients, which
  are the parameters of the services; most derived stores, which are projections for the screen; stores that
  hold one value set by a service; translations, types and logging; the mappings to labels and links; the Rust canisters
  and tools under rs and the scripts, which are other programs than the frontend.  The two loads that
  syncAccounts of IcrcAccounts starts at once are taken in one order of their steps.  The sessions of ImportedTokens
  let both responses of a load settle before the next operation starts, while the promise of the load resolves with
  the first of them.
\<close>

end
